(* ===== verification/Prelude.thy ===== *)
theory Prelude
  imports Main "HOL-Library.List_Lexorder" "HOL-Library.Char_ord" "HOL-Library.Word"
begin

text \<open>
  Shared vocabulary of the development: the Rust string operations the code calls, decimal
  rendering, JSON values, IEEE doubles as bit patterns, and SQL tables as lists of rows with
  the statements the code issues against them (lookup, conditional update, insert with a
  conflict clause, ordered and limited selection).
  Texts are lists of bytes (\<open>char\<close>) ordered bytewise, which is PostgreSQL's \<open>C\<close> collation.
\<close>

named_theorems table_simps "evaluation of the table operations"
named_theorems uniq_intros "preservation of key uniqueness"

section \<open>Rust strings\<close>

definition starts_with :: "string \<Rightarrow> string \<Rightarrow> bool" where
  "starts_with s p \<longleftrightarrow> take (length p) s = p"

definition ends_with :: "string \<Rightarrow> string \<Rightarrow> bool" where
  "ends_with s p \<longleftrightarrow> length p \<le> length s \<and> drop (length s - length p) s = p"

definition strip_prefix :: "string \<Rightarrow> string \<Rightarrow> string option" where
  "strip_prefix p s = (if starts_with s p then Some (drop (length p) s) else None)"

definition strip_suffix :: "string \<Rightarrow> string \<Rightarrow> string option" where
  "strip_suffix p s = (if ends_with s p then Some (take (length s - length p) s) else None)"

lemma strip_suffix_Some [simp]: "strip_suffix p s = Some t \<longleftrightarrow> s = t @ p"
  unfolding strip_suffix_def ends_with_def
  by (auto simp: min_def) (metis append_take_drop_id diff_diff_cancel)

lemma strip_prefix_Some [simp]: "strip_prefix p s = Some t \<longleftrightarrow> s = p @ t"
  unfolding strip_prefix_def starts_with_def
  by auto (metis append_take_drop_id)

text \<open>\<open>split_once m s\<close>: the text before and after the first occurrence of \<open>m\<close>.\<close>

fun split_once :: "string \<Rightarrow> string \<Rightarrow> (string \<times> string) option" where
  "split_once m s =
     (if starts_with s m then Some ([], drop (length m) s)
      else case s of [] \<Rightarrow> None
           | c # cs \<Rightarrow> map_option (\<lambda>(a, b). (c # a, b)) (split_once m cs))"

declare split_once.simps [simp del]

definition contains :: "string \<Rightarrow> string \<Rightarrow> bool" where
  "contains s m \<longleftrightarrow> split_once m s \<noteq> None"

lemma split_once_join: "split_once m s = Some (a, b) \<Longrightarrow> s = a @ m @ b"
proof (induction m s arbitrary: a rule: split_once.induct)
  case (1 m s)
  show ?case
  proof (cases "starts_with s m")
    case True
    then have "take (length m) s = m" by (simp add: starts_with_def)
    with True "1.prems" show ?thesis
      by (auto simp: split_once.simps [of m s]) (metis append_take_drop_id)
  next
    case False
    with "1.prems" obtain c cs a' where s: "s = c # cs" "a = c # a'"
        and rest: "split_once m cs = Some (a', b)"
      by (auto simp: split_once.simps [of m s] split: list.splits)
    with "1.IH" [OF False s(1) rest] show ?thesis by simp
  qed
qed

lemma split_once_first:
  "split_once m s = Some (a, b) \<Longrightarrow> k < length a \<Longrightarrow> \<not> starts_with (drop k s) m"
proof (induction m s arbitrary: a k rule: split_once.induct)
  case (1 m s)
  show ?case
  proof (cases "starts_with s m")
    case True
    with "1.prems" show ?thesis by (simp add: split_once.simps [of m s])
  next
    case False
    with "1.prems" obtain c cs a' where s: "s = c # cs" "a = c # a'"
        and rest: "split_once m cs = Some (a', b)"
      by (auto simp: split_once.simps [of m s] split: list.splits)
    show ?thesis
    proof (cases k)
      case 0
      with False show ?thesis by simp
    next
      case (Suc j)
      with "1.IH" [OF False s(1) rest, of j] "1.prems"(2) s show ?thesis by simp
    qed
  qed
qed

lemma split_once_None: "split_once m s = None \<Longrightarrow> \<not> starts_with (drop k s) m"
proof (induction m s arbitrary: k rule: split_once.induct)
  case (1 m s)
  from "1.prems" have nb: "\<not> starts_with s m"
    by (auto simp: split_once.simps [of m s] split: if_splits)
  show ?case
  proof (cases s)
    case Nil
    with nb show ?thesis by simp
  next
    case (Cons c cs)
    with nb "1.prems" have "split_once m cs = None"
      by (simp add: split_once.simps [of m "c # cs"])
    with "1.IH" [OF nb Cons this] Cons nb show ?thesis
      by (cases k) auto
  qed
qed

lemma starts_with_append [simp]: "starts_with (p @ t) p"
  by (simp add: starts_with_def)

lemma contains_iff: "contains s m \<longleftrightarrow> (\<exists>a b. s = a @ m @ b)"
proof
  assume "contains s m"
  then show "\<exists>a b. s = a @ m @ b"
    by (auto simp: contains_def dest: split_once_join)
next
  assume "\<exists>a b. s = a @ m @ b"
  then obtain a b where "s = a @ m @ b" by blast
  then have "drop (length a) s = m @ b" by simp
  then have "starts_with (drop (length a) s) m" by simp
  then have "split_once m s \<noteq> None" using split_once_None by blast
  then show "contains s m" by (simp add: contains_def)
qed

text \<open>The splitting on a set of characters and the trimming of one character.\<close>

definition take_until :: "char set \<Rightarrow> string \<Rightarrow> string" where
  "take_until cs s = takeWhile (\<lambda>c. c \<notin> cs) s"

definition trim_char :: "char \<Rightarrow> string \<Rightarrow> string" where
  "trim_char c s = rev (dropWhile (\<lambda>x. x = c) (rev (dropWhile (\<lambda>x. x = c) s)))"

definition trim_end_char :: "char \<Rightarrow> string \<Rightarrow> string" where
  "trim_end_char c s = rev (dropWhile (\<lambda>x. x = c) (rev s))"

definition is_ws :: "char \<Rightarrow> bool" where
  "is_ws c \<longleftrightarrow> c \<in> {CHR 0x20, CHR 0x09, CHR 0x0A, CHR 0x0B, CHR 0x0C, CHR 0x0D}"

definition trim :: "string \<Rightarrow> string" where
  "trim s = rev (dropWhile is_ws (rev (dropWhile is_ws s)))"

fun split_on :: "char \<Rightarrow> string \<Rightarrow> string list" where
  "split_on c [] = [[]]"
| "split_on c (x # xs) =
     (if x = c then [] # split_on c xs
      else case split_on c xs of [] \<Rightarrow> [[x]] | w # ws \<Rightarrow> (x # w) # ws)"

definition to_lower :: "string \<Rightarrow> string" where
  "to_lower = map (\<lambda>c. if 65 \<le> (of_char c :: nat) \<and> (of_char c :: nat) \<le> 90
                        then char_of (of_char c + 32 :: nat) else c)"

section \<open>Decimal rendering\<close>

definition digit_char :: "nat \<Rightarrow> char" where
  "digit_char n = char_of (48 + n)"

fun show_nat :: "nat \<Rightarrow> string" where
  "show_nat n = (if n < 10 then [digit_char n] else show_nat (n div 10) @ [digit_char (n mod 10)])"

declare show_nat.simps [simp del]

definition show_int :: "int \<Rightarrow> string" where
  "show_int i = (if i < 0 then ''-'' @ show_nat (nat (- i)) else show_nat (nat i))"

lemma digit_char_code: "n < 10 \<Longrightarrow> (of_char (digit_char n) :: nat) = 48 + n"
  by (simp add: digit_char_def)

lemma digit_char_inj: "a < 10 \<Longrightarrow> b < 10 \<Longrightarrow> digit_char a = digit_char b \<longleftrightarrow> a = b"
  by (metis add_left_cancel digit_char_code)

lemma show_nat_digits: "c \<in> set (show_nat n) \<Longrightarrow> 48 \<le> (of_char c :: nat) \<and> (of_char c :: nat) \<le> 57"
proof (induction n rule: show_nat.induct)
  case (1 n)
  then show ?case
    by (cases "n < 10") (auto simp: show_nat.simps [of n] digit_char_code)
qed

lemma show_nat_nonempty [simp]: "show_nat n \<noteq> []"
  by (simp add: show_nat.simps)

lemma show_nat_inj: "show_nat a = show_nat b \<Longrightarrow> a = b"
proof (induction a arbitrary: b rule: show_nat.induct)
  case (1 a)
  show ?case
  proof (cases "a < 10")
    case True
    show ?thesis
    proof (cases "b < 10")
      case True
      with \<open>a < 10\<close> "1.prems" show ?thesis
        by (simp add: show_nat.simps [of a] show_nat.simps [of b] digit_char_inj)
    next
      case False
      with \<open>a < 10\<close> "1.prems" show ?thesis
        by (auto simp: show_nat.simps [of a] show_nat.simps [of b] Cons_eq_append_conv)
    qed
  next
    case False
    show ?thesis
    proof (cases "b < 10")
      case True
      with False "1.prems" show ?thesis
        by (auto simp: show_nat.simps [of a] show_nat.simps [of b] append_eq_Cons_conv)
    next
      case bF: False
      from False bF "1.prems" have "show_nat (a div 10) = show_nat (b div 10)"
          and m: "digit_char (a mod 10) = digit_char (b mod 10)"
        by (simp_all add: show_nat.simps [of a] show_nat.simps [of b])
      with "1.IH" [OF False] have d: "a div 10 = b div 10" by blast
      from m have "a mod 10 = b mod 10" by (simp add: digit_char_inj)
      with d show ?thesis by (metis div_mult_mod_eq)
    qed
  qed
qed

section \<open>Doubles and JSON\<close>

text \<open>An \<open>f64\<close> is its 64-bit pattern; equality is IEEE equality (a NaN differs from
  everything, the two zeros are equal).\<close>

type_synonym f64 = "64 word"

definition f64_abs_bits :: "f64 \<Rightarrow> nat" where
  "f64_abs_bits x = unat x mod 2 ^ 63"

definition f64_is_nan :: "f64 \<Rightarrow> bool" where
  "f64_is_nan x \<longleftrightarrow> f64_abs_bits x > 0x7FF0000000000000"

definition f64_is_finite :: "f64 \<Rightarrow> bool" where
  "f64_is_finite x \<longleftrightarrow> f64_abs_bits x < 0x7FF0000000000000"

definition f64_eq :: "f64 \<Rightarrow> f64 \<Rightarrow> bool" where
  "f64_eq x y \<longleftrightarrow> \<not> f64_is_nan x \<and> \<not> f64_is_nan y \<and>
     (x = y \<or> (f64_abs_bits x = 0 \<and> f64_abs_bits y = 0))"

lemma f64_eq_refl [simp]: "f64_eq x x \<longleftrightarrow> \<not> f64_is_nan x"
  by (auto simp: f64_eq_def)

datatype json =
    JNull
  | JBool bool
  | JInt int
  | JFloat f64
  | JStr string
  | JArr "json list"
  | JObj "(string \<times> json) list"

definition json_opt :: "string option \<Rightarrow> json" where
  "json_opt o1 = (case o1 of None \<Rightarrow> JNull | Some s \<Rightarrow> JStr s)"

text \<open>\<open>json!\<close> renders a non-finite double as \<open>null\<close>.\<close>

definition json_f64 :: "f64 \<Rightarrow> json" where
  "json_f64 x = (if f64_is_finite x then JFloat x else JNull)"

end
