(* ===== verification/Sql_Table.thy ===== *)
theory Sql_Table
  imports Prelude
begin

text \<open>
  A SQL table is the list of its rows; its primary key is a projection that is distinct on the
  rows (\<open>uniq\<close>). The operations are the statements the code issues: a conditional \<open>UPDATE\<close>
  (\<open>update_where\<close>), \<open>DELETE\<close> (\<open>delete_where\<close>), \<open>INSERT ... ON CONFLICT DO NOTHING\<close>
  (\<open>insert_new\<close>), \<open>INSERT ... ON CONFLICT DO UPDATE\<close> (\<open>upsert\<close>), and the selections with
  \<open>ORDER BY\<close> and \<open>LIMIT\<close>.
\<close>

definition uniq :: "('r \<Rightarrow> 'k) \<Rightarrow> 'r list \<Rightarrow> bool" where
  "uniq key rows \<longleftrightarrow> distinct (map key rows)"

definition has_key :: "('r \<Rightarrow> 'k) \<Rightarrow> 'k \<Rightarrow> 'r list \<Rightarrow> bool" where
  "has_key key k rows \<longleftrightarrow> k \<in> key ` set rows"

definition row_of :: "('r \<Rightarrow> 'k) \<Rightarrow> 'k \<Rightarrow> 'r list \<Rightarrow> 'r option" where
  "row_of key k rows = List.find (\<lambda>r. key r = k) rows"

definition update_where :: "('r \<Rightarrow> bool) \<Rightarrow> ('r \<Rightarrow> 'r) \<Rightarrow> 'r list \<Rightarrow> 'r list" where
  "update_where P f rows = map (\<lambda>r. if P r then f r else r) rows"

definition delete_where :: "('r \<Rightarrow> bool) \<Rightarrow> 'r list \<Rightarrow> 'r list" where
  "delete_where P rows = filter (\<lambda>r. \<not> P r) rows"

definition count_where :: "('r \<Rightarrow> bool) \<Rightarrow> 'r list \<Rightarrow> int" where
  "count_where P rows = int (length (filter P rows))"

definition insert_new :: "('r \<Rightarrow> 'k) \<Rightarrow> 'r \<Rightarrow> 'r list \<Rightarrow> bool \<times> 'r list" where
  "insert_new key r rows = (if has_key key (key r) rows then (False, rows) else (True, rows @ [r]))"

definition upsert :: "('r \<Rightarrow> 'k) \<Rightarrow> 'r \<Rightarrow> ('r \<Rightarrow> 'r) \<Rightarrow> 'r list \<Rightarrow> 'r list" where
  "upsert key r f rows =
     (if has_key key (key r) rows then update_where (\<lambda>q. key q = key r) f rows else rows @ [r])"

definition limit_rows :: "int \<Rightarrow> 'r list \<Rightarrow> 'r list" where
  "limit_rows n rows = take (nat n) rows"

lemma row_of_Some_iff:
  "uniq key rows \<Longrightarrow> row_of key k rows = Some r \<longleftrightarrow> r \<in> set rows \<and> key r = k"
  by (induction rows) (auto simp: row_of_def uniq_def)

lemma row_of_SomeD: "row_of key k rows = Some r \<Longrightarrow> r \<in> set rows \<and> key r = k"
  by (auto simp: row_of_def find_Some_iff)

lemma row_of_id: "row_of key v rows = Some r \<Longrightarrow> key r = v"
  by (auto dest: row_of_SomeD)

lemma row_of_None_iff: "row_of key k rows = None \<longleftrightarrow> \<not> has_key key k rows"
  by (auto simp: row_of_def has_key_def find_None_iff)

lemma has_key_row_of: "has_key key k rows \<longleftrightarrow> (\<exists>r. row_of key k rows = Some r)"
  by (metis row_of_None_iff not_None_eq)

lemma has_key_code [table_simps, code]:
  "has_key key k [] = False"
  "has_key key k (r # rows) = (key r = k \<or> has_key key k rows)"
  by (auto simp: has_key_def)

lemma has_key_append [simp]: "has_key key k (xs @ ys) \<longleftrightarrow> has_key key k xs \<or> has_key key k ys"
  by (auto simp: has_key_def)

lemma uniq_Nil [simp]: "uniq key []"
  by (simp add: uniq_def)

lemma uniq_snoc: "uniq key (rows @ [r]) \<longleftrightarrow> uniq key rows \<and> \<not> has_key key (key r) rows"
  by (auto simp: uniq_def has_key_def)

lemma map_key_update:
  "(\<And>r. P r \<Longrightarrow> key (f r) = key r) \<Longrightarrow> map key (update_where P f rows) = map key rows"
  by (auto simp: update_where_def)

lemma uniq_update_where [uniq_intros]:
  "(\<And>r. P r \<Longrightarrow> key (f r) = key r) \<Longrightarrow> uniq key rows \<Longrightarrow> uniq key (update_where P f rows)"
  by (simp add: uniq_def map_key_update)

lemma uniq_delete_where [uniq_intros]: "uniq key rows \<Longrightarrow> uniq key (delete_where P rows)"
  by (auto simp: uniq_def delete_where_def distinct_map intro: inj_on_subset)

lemma uniq_insert_new [uniq_intros]:
  "uniq key rows \<Longrightarrow> uniq key (snd (insert_new key r rows))"
  by (auto simp: insert_new_def uniq_snoc)

lemma uniq_upsert [uniq_intros]:
  "(\<And>q. key q = key r \<Longrightarrow> key (f q) = key r) \<Longrightarrow> uniq key rows \<Longrightarrow> uniq key (upsert key r f rows)"
  by (auto simp: upsert_def uniq_snoc intro!: uniq_update_where)

lemma has_key_update [simp]:
  assumes "\<And>r. P r \<Longrightarrow> key (f r) = key r"
  shows "has_key key k (update_where P f rows) \<longleftrightarrow> has_key key k rows"
proof -
  have "key ` set (update_where P f rows) = set (map key (update_where P f rows))" by simp
  also have "\<dots> = key ` set rows" using assms by (simp add: map_key_update)
  finally show ?thesis by (simp add: has_key_def)
qed

lemma row_of_update:
  assumes "\<And>r. P r \<Longrightarrow> key (f r) = key r"
  shows "row_of key k (update_where P f rows) =
    map_option (\<lambda>r. if P r then f r else r) (row_of key k rows)"
  using assms by (induction rows) (auto simp: row_of_def update_where_def)

lemma row_of_snoc:
  "row_of key k (rows @ [r]) =
     (case row_of key k rows of Some q \<Rightarrow> Some q | None \<Rightarrow> if key r = k then Some r else None)"
  by (induction rows) (auto simp: row_of_def)

lemma row_of_upsert:
  assumes keep: "\<And>q. key q = key r \<Longrightarrow> key (f q) = key r"
  shows "row_of key k (upsert key r f rows) =
    (if k = key r then Some (case row_of key k rows of Some q \<Rightarrow> f q | None \<Rightarrow> r)
     else row_of key k rows)"
proof (cases "row_of key (key r) rows")
  case None
  then have "\<not> has_key key (key r) rows" by (simp add: row_of_None_iff)
  with None show ?thesis by (auto simp: upsert_def row_of_snoc split: option.splits)
next
  case (Some q)
  then have hk: "has_key key (key r) rows" by (metis has_key_row_of)
  have "row_of key k (upsert key r f rows) =
      map_option (\<lambda>p. if key p = key r then f p else p) (row_of key k rows)"
    using hk keep by (simp add: upsert_def) (rule row_of_update, simp)
  with Some show ?thesis
    by (cases "row_of key k rows") (auto dest: row_of_SomeD)
qed

lemma has_key_upsert [simp]:
  "(\<And>q. key q = key r \<Longrightarrow> key (f q) = key r) \<Longrightarrow>
   has_key key k (upsert key r f rows) \<longleftrightarrow> k = key r \<or> has_key key k rows"
  by (auto simp: has_key_row_of row_of_upsert split: option.splits)

lemma find_none_of: "x \<notin> f ` set xs \<Longrightarrow> List.find (\<lambda>r. f r = x) xs = None"
  by (auto simp: find_None_iff)

lemma row_of_delete:
  "uniq key rows \<Longrightarrow> row_of key k (delete_where P rows) =
     (case row_of key k rows of Some r \<Rightarrow> (if P r then None else Some r) | None \<Rightarrow> None)"
proof (induction rows)
  case Nil
  then show ?case by (simp add: row_of_def delete_where_def)
next
  case (Cons a rows)
  then have "row_of key (key a) rows = None" and IH: "row_of key k (delete_where P rows) =
     (case row_of key k rows of Some r \<Rightarrow> (if P r then None else Some r) | None \<Rightarrow> None)"
    by (auto simp: uniq_def row_of_None_iff has_key_def)
  then show ?case
    by (cases "key a = k") (auto simp: row_of_def delete_where_def split: option.splits)
qed

lemma row_of_insert_new:
  "row_of key k (snd (insert_new key r rows)) =
     (if k = key r \<and> \<not> has_key key k rows then Some r else row_of key k rows)"
proof (cases "row_of key k rows")
  case None
  then have "\<not> has_key key k rows" by (simp add: row_of_None_iff)
  with None show ?thesis by (auto simp: insert_new_def row_of_snoc)
next
  case (Some q)
  then have "has_key key k rows" by (metis has_key_row_of)
  with Some show ?thesis by (auto simp: insert_new_def row_of_snoc)
qed

lemma set_update_where: "set (update_where P f rows) = (\<lambda>r. if P r then f r else r) ` set rows"
  by (simp add: update_where_def)

lemma set_delete_where [simp]: "set (delete_where P rows) = {r \<in> set rows. \<not> P r}"
  by (auto simp: delete_where_def)

lemma count_where_nonneg [simp]: "0 \<le> count_where P rows"
  by (simp add: count_where_def)

lemma count_where_le: "(\<And>r. r \<in> set rows \<Longrightarrow> P r \<Longrightarrow> Q r) \<Longrightarrow> count_where P rows \<le> count_where Q rows"
  by (induction rows) (auto simp: count_where_def)

lemma count_where_split:
  "(\<And>r. r \<in> set rows \<Longrightarrow> P r \<longleftrightarrow> Q r \<or> R r) \<Longrightarrow> (\<And>r. r \<in> set rows \<Longrightarrow> \<not> (Q r \<and> R r)) \<Longrightarrow>
   count_where P rows = count_where Q rows + count_where R rows"
  by (induction rows) (auto simp: count_where_def)

lemma length_filter_count: "int (length (filter P rows)) = count_where P rows"
  by (simp add: count_where_def)

lemma set_upsert:
  "q \<in> set (upsert key r f rows) \<Longrightarrow> q \<in> set rows \<or> q = r \<or> (\<exists>p \<in> set rows. q = f p)"
  by (auto simp: upsert_def set_update_where split: if_splits)

section \<open>Ordered selection\<close>

lemma sorted_key_distinct_strict:
  "sorted (map key xs) \<Longrightarrow> distinct (map key xs) \<Longrightarrow> sorted_wrt (<) (map (key :: 'r \<Rightarrow> 'k::linorder) xs)"
  by (simp add: strict_sorted_iff)

lemma sorted_wrt_map_filter:
  "sorted_wrt R (map f xs) \<Longrightarrow> sorted_wrt R (map f (filter P xs))"
  by (induction xs) auto

lemma sort_key_strict:
  "uniq key xs \<Longrightarrow> sorted_wrt (<) (map (key :: 'r \<Rightarrow> 'k::linorder) (sort_key key xs))"
  by (intro sorted_key_distinct_strict)
     (auto simp: uniq_def distinct_map)

lemma uniq_filter: "uniq key xs \<Longrightarrow> uniq key (filter P xs)"
  by (auto simp: uniq_def distinct_map intro: inj_on_subset)

end
