(* ===== verification/Pg_Session.thy ===== *)
theory Pg_Session
  imports Sql_Table
begin

text \<open>
  A PostgreSQL session. A procedure runs from a fault plan and a database to a result (an error
  or a value), what is left of the plan, and the database. Each statement consumes one entry of
  the plan: \<open>Some e\<close> makes it fail with \<open>e\<close> before it has an effect (a lost connection, a server
  error), \<open>None\<close> lets it run; after the end of the plan nothing fails. Quantifying over plans
  is quantifying over every pattern of failing statements.
  A failing statement ends the procedure (the \<open>?\<close> of the code); \<open>attempt\<close> is \<open>match\<close> or
  \<open>let _ =\<close> on the result. \<open>tx_run\<close> is \<open>client.transaction()\<close> with its body and its commit:
  on an error of the body or of the commit the database is rolled back, apart from what
  PostgreSQL does not roll back (sequences), which the parameter \<open>rb\<close> says; \<open>cm\<close> clears what is
  local to the transaction (\<open>SET LOCAL\<close>).
\<close>

datatype pg_error = PgError string

definition error_text :: "pg_error \<Rightarrow> string" where
  "error_text e = (case e of PgError t \<Rightarrow> t)"

type_synonym fault_plan = "pg_error option list"
type_synonym ('d, 'e, 'a) proc = "fault_plan \<times> 'd \<Rightarrow> ('e + 'a) \<times> fault_plan \<times> 'd"

definition ret :: "'a \<Rightarrow> ('d, 'e, 'a) proc" where
  "ret x = (\<lambda>(p, d). (Inr x, p, d))"

definition raise :: "'e \<Rightarrow> ('d, 'e, 'a) proc" where
  "raise e = (\<lambda>(p, d). (Inl e, p, d))"

definition bnd :: "('d, 'e, 'a) proc \<Rightarrow> ('a \<Rightarrow> ('d, 'e, 'b) proc) \<Rightarrow> ('d, 'e, 'b) proc" where
  "bnd m k = (\<lambda>s. case m s of (Inl e, t) \<Rightarrow> (Inl e, t) | (Inr x, t) \<Rightarrow> k x t)"

definition stmt :: "('d \<Rightarrow> pg_error + ('a \<times> 'd)) \<Rightarrow> ('d, pg_error, 'a) proc" where
  "stmt f = (\<lambda>(p, d). case p of
       Some e # p' \<Rightarrow> (Inl e, p', d)
     | _ \<Rightarrow> (case f d of Inl e \<Rightarrow> (Inl e, tl p, d) | Inr (x, d') \<Rightarrow> (Inr x, tl p, d')))"

text \<open>The common statements: one that only reads, and one that writes without an error of its own.\<close>

definition query :: "('d \<Rightarrow> 'a) \<Rightarrow> ('d, pg_error, 'a) proc" where
  "query q = stmt (\<lambda>d. Inr (q d, d))"

definition exec :: "('d \<Rightarrow> 'd) \<Rightarrow> ('d, pg_error, unit) proc" where
  "exec f = stmt (\<lambda>d. Inr ((), f d))"

definition attempt :: "('d, 'e, 'a) proc \<Rightarrow> ('d, 'f, 'e + 'a) proc" where
  "attempt m = (\<lambda>s. case m s of (r, t) \<Rightarrow> (Inr r, t))"

definition map_err :: "('e \<Rightarrow> 'f) \<Rightarrow> ('d, 'e, 'a) proc \<Rightarrow> ('d, 'f, 'a) proc" where
  "map_err g m = (\<lambda>s. case m s of (Inl e, t) \<Rightarrow> (Inl (g e), t) | (Inr x, t) \<Rightarrow> (Inr x, t))"

definition on_db :: "('d \<Rightarrow> 'd) \<Rightarrow> ('d, 'e, unit) proc" where
  "on_db f = (\<lambda>(p, d). (Inr (), p, f d))"

definition get_db :: "('d, 'e, 'd) proc" where
  "get_db = (\<lambda>(p, d). (Inr d, p, d))"

definition tx_run ::
  "('d \<Rightarrow> 'd) \<Rightarrow> ('d \<Rightarrow> 'd \<Rightarrow> 'd) \<Rightarrow> ('d, 'e, 'a) proc \<Rightarrow> ('d, pg_error, 'e + 'a) proc" where
  "tx_run cm rb m = (\<lambda>(p, d).
     case exec id (p, d) of
       (Inl e, t) \<Rightarrow> (Inl e, t)
     | (Inr _, p1, _) \<Rightarrow>
         (case m (p1, d) of
            (Inl e, p2, d2) \<Rightarrow> (Inr (Inl e), p2, rb d d2)
          | (Inr x, p2, d2) \<Rightarrow>
              (case exec cm (p2, d2) of
                 (Inl e, p3, _) \<Rightarrow> (Inl e, p3, rb d d2)
               | (Inr _, t3) \<Rightarrow> (Inr (Inr x), t3))))"

text \<open>A transaction whose body's error is returned by \<open>?\<close>.\<close>

definition tx_try ::
  "('d \<Rightarrow> 'd) \<Rightarrow> ('d \<Rightarrow> 'd \<Rightarrow> 'd) \<Rightarrow> ('d, pg_error, 'a) proc \<Rightarrow> ('d, pg_error, 'a) proc" where
  "tx_try cm rb m = bnd (tx_run cm rb m) (\<lambda>r. case r of Inl e \<Rightarrow> raise e | Inr x \<Rightarrow> ret x)"

fun for_each :: "('a \<Rightarrow> 'c \<Rightarrow> ('d, 'e, 'c) proc) \<Rightarrow> 'a list \<Rightarrow> 'c \<Rightarrow> ('d, 'e, 'c) proc" where
  "for_each body [] c = ret c"
| "for_each body (x # xs) c = bnd (body x c) (for_each body xs)"

definition result_of :: "('d, 'e, 'a) proc \<Rightarrow> fault_plan \<times> 'd \<Rightarrow> 'e + 'a" where
  "result_of m s = fst (m s)"

definition db_after :: "('d, 'e, 'a) proc \<Rightarrow> fault_plan \<times> 'd \<Rightarrow> 'd" where
  "db_after m s = snd (snd (m s))"

text \<open>The next statement runs, at the end of the plan or by it, or fails.\<close>

lemma fault_cases:
  fixes p :: fault_plan
  obtains (over) "p = []" | (runs) p' where "p = None # p'" | (fails) e p' where "p = Some e # p'"
  by (metis list.exhaust option.exhaust)

section \<open>Runs without faults\<close>

named_theorems run_simps "evaluation of procedures from an empty fault plan"

lemma run_ret [run_simps, simp]: "ret x (p, d) = (Inr x, p, d)"
  by (simp add: ret_def)

lemma run_raise [run_simps, simp]: "raise e (p, d) = (Inl e, p, d)"
  by (simp add: raise_def)

lemma run_get [run_simps, simp]: "get_db (p, d) = (Inr d, p, d)"
  by (simp add: get_db_def)

lemma run_on_db [run_simps, simp]: "on_db f (p, d) = (Inr (), p, f d)"
  by (simp add: on_db_def)

lemma run_bnd [run_simps]:
  "bnd m k s = (case m s of (Inl e, t) \<Rightarrow> (Inl e, t) | (Inr x, t) \<Rightarrow> k x t)"
  by (simp add: bnd_def)

lemma run_stmt [run_simps]:
  "stmt f ([], d) = (case f d of Inl e \<Rightarrow> (Inl e, [], d) | Inr (x, d') \<Rightarrow> (Inr x, [], d'))"
  by (simp add: stmt_def split: sum.splits prod.splits)

lemma run_query [run_simps]: "query q ([], d) = (Inr (q d), [], d)"
  by (simp add: query_def run_stmt)

lemma run_exec [run_simps]: "exec f ([], d) = (Inr (), [], f d)"
  by (simp add: exec_def run_stmt)

lemma run_attempt [run_simps]: "attempt m s = (case m s of (r, t) \<Rightarrow> (Inr r, t))"
  by (simp add: attempt_def)

lemma run_map_err [run_simps]:
  "map_err g m s = (case m s of (Inl e, t) \<Rightarrow> (Inl (g e), t) | (Inr x, t) \<Rightarrow> (Inr x, t))"
  by (simp add: map_err_def)

lemma run_for_each_Cons [run_simps]:
  "for_each body (x # xs) c s =
     (case body x c s of (Inl e, t) \<Rightarrow> (Inl e, t) | (Inr c', t) \<Rightarrow> for_each body xs c' t)"
  by (simp add: bnd_def)

lemma run_tx_run [run_simps]:
  "tx_run cm rb m ([], d) = (case m ([], d) of
      (Inl e, p2, d2) \<Rightarrow> (Inr (Inl e), p2, rb d d2)
    | (Inr x, p2, d2) \<Rightarrow> (case exec cm (p2, d2) of
          (Inl e, p3, _) \<Rightarrow> (Inl e, p3, rb d d2) | (Inr _, t3) \<Rightarrow> (Inr (Inr x), t3)))"
  by (simp add: tx_run_def run_exec split: prod.splits sum.splits)

lemma run_tx_try [run_simps]:
  "tx_try cm rb m ([], d) = (case m ([], d) of
      (Inl e, p2, d2) \<Rightarrow> (Inl e, p2, rb d d2)
    | (Inr x, p2, d2) \<Rightarrow> (case exec cm (p2, d2) of
          (Inl e, p3, _) \<Rightarrow> (Inl e, p3, rb d d2) | (Inr _, t3) \<Rightarrow> (Inr x, t3)))"
  by (auto simp: tx_try_def run_simps split: prod.splits sum.splits)

section \<open>Preservation of a property of the database under every fault plan\<close>

definition preserves :: "('d \<Rightarrow> bool) \<Rightarrow> ('d, 'e, 'a) proc \<Rightarrow> bool" where
  "preserves I m \<longleftrightarrow> (\<forall>p d. I d \<longrightarrow> I (snd (snd (m (p, d)))))"

named_theorems pres "rules that preservation proofs are built from"

lemma preservesD: "preserves I m \<Longrightarrow> I d \<Longrightarrow> I (db_after m (p, d))"
  by (simp add: preserves_def db_after_def)

lemma preserves_run: "preserves I m \<Longrightarrow> m (p, d) = (r, q, d') \<Longrightarrow> I d \<Longrightarrow> I d'"
  by (metis preserves_def snd_conv)

lemma preservesI: "(\<And>p d r q d'. I d \<Longrightarrow> m (p, d) = (r, q, d') \<Longrightarrow> I d') \<Longrightarrow> preserves I m"
  unfolding preserves_def by (metis prod.collapse)

lemma pres_ret [pres]: "preserves I (ret x)"
  by (simp add: preserves_def)

lemma pres_raise [pres]: "preserves I (raise e)"
  by (simp add: preserves_def)

lemma pres_get [pres]: "preserves I get_db"
  by (simp add: preserves_def)

lemma pres_bnd [pres]:
  assumes "preserves I m" and "\<And>x. preserves I (k x)"
  shows "preserves I (bnd m k)"
proof (rule preservesI)
  fix p d r q d'
  assume d: "I d" and run: "bnd m k (p, d) = (r, q, d')"
  obtain r1 p1 d1 where m: "m (p, d) = (r1, p1, d1)" by (metis prod_cases3)
  with d assms(1) have "I d1" by (blast dest: preserves_run)
  with run m show "I d'"
    by (cases r1) (auto simp: bnd_def dest: preserves_run [OF assms(2)])
qed

lemma pres_stmt:
  assumes "\<And>d x d'. I d \<Longrightarrow> f d = Inr (x, d') \<Longrightarrow> I d'"
  shows "preserves I (stmt f)"
  using assms by (auto simp: preserves_def stmt_def split: list.splits option.splits sum.splits)

lemma pres_query [pres]: "preserves I (query q)"
  unfolding query_def by (rule pres_stmt) simp

lemma pres_exec: "(\<And>d. I d \<Longrightarrow> I (f d)) \<Longrightarrow> preserves I (exec f)"
  unfolding exec_def by (rule pres_stmt) auto

lemma pres_on_db: "(\<And>d. I d \<Longrightarrow> I (f d)) \<Longrightarrow> preserves I (on_db f)"
  by (simp add: preserves_def)

lemma pres_attempt [pres]: "preserves I m \<Longrightarrow> preserves I (attempt m)"
  by (rule preservesI) (auto simp: attempt_def split: prod.splits dest: preserves_run)

lemma pres_map_err [pres]: "preserves I m \<Longrightarrow> preserves I (map_err g m)"
  by (rule preservesI) (auto simp: map_err_def split: prod.splits sum.splits dest: preserves_run)

lemma pres_for_each [pres]:
  "(\<And>x c. x \<in> set xs \<Longrightarrow> preserves I (body x c)) \<Longrightarrow> preserves I (for_each body xs c)"
  by (induction xs arbitrary: c) (auto intro!: pres)

lemma pres_tx_run:
  assumes body: "preserves I m" and cm: "\<And>d. I d \<Longrightarrow> I (cm d)"
    and rb: "\<And>d d2. I d \<Longrightarrow> I d2 \<Longrightarrow> I (rb d d2)"
  shows "preserves I (tx_run cm rb m)"
  unfolding preserves_def
proof (intro allI impI)
  fix p d
  assume d: "I d"
  obtain r1 p1 d1 where b: "exec id (p, d) = (r1, p1, d1)" by (metis prod_cases3)
  have "preserves I (exec id)" by (rule pres_exec) simp
  with d b have d1: "I d1" by (metis preserves_def snd_conv)
  obtain r2 p2 d2 where m: "m (p1, d) = (r2, p2, d2)" by (metis prod_cases3)
  with body d have d2: "I d2" by (metis preserves_def snd_conv)
  obtain r3 p3 d3 where c: "exec cm (p2, d2) = (r3, p3, d3)" by (metis prod_cases3)
  have "preserves I (exec cm)" using cm by (rule pres_exec)
  with d2 c have d3: "I d3" by (metis preserves_def snd_conv)
  show "I (snd (snd (tx_run cm rb m (p, d))))"
    using b m c d1 d3 rb [OF d d2]
    by (cases r1; cases r2; cases r3) (simp_all add: tx_run_def)
qed

lemma pres_tx_try:
  assumes "preserves I m" and "\<And>d. I d \<Longrightarrow> I (cm d)" and "\<And>d d2. I d \<Longrightarrow> I d2 \<Longrightarrow> I (rb d d2)"
  shows "preserves I (tx_try cm rb m)"
  unfolding tx_try_def
  by (intro pres_bnd pres_tx_run assms) (auto split: sum.splits intro: pres)

text \<open>\<open>keeps I m\<close>: a successful \<open>m\<close> keeps the property, though not each of its statements alone. A
  transaction around such a body keeps it under every fault: between the statements nobody sees
  the database, and a failure is rolled back.\<close>

definition keeps :: "('d \<Rightarrow> bool) \<Rightarrow> ('d, 'e, 'a) proc \<Rightarrow> bool" where
  "keeps I m \<longleftrightarrow> (\<forall>p d x q d2. I d \<longrightarrow> m (p, d) = (Inr x, q, d2) \<longrightarrow> I d2)"

lemma keepsI: "(\<And>p d x q d2. I d \<Longrightarrow> m (p, d) = (Inr x, q, d2) \<Longrightarrow> I d2) \<Longrightarrow> keeps I m"
  unfolding keeps_def by blast

lemma keeps_ret: "keeps I (ret x)"
  by (simp add: keeps_def)

lemma keeps_bnd:
  assumes "keeps I m" and "\<And>x. keeps I (k x)"
  shows "keeps I (bnd m k)"
proof (rule keepsI)
  fix p d x q d2
  assume d: "I d" and run: "bnd m k (p, d) = (Inr x, q, d2)"
  obtain r1 p1 d1 where m: "m (p, d) = (r1, p1, d1)" by (metis prod_cases3)
  with run obtain y where y: "r1 = Inr y" "k y (p1, d1) = (Inr x, q, d2)"
    by (cases r1) (auto simp: bnd_def)
  with m d assms(1) have "I d1" unfolding keeps_def by blast
  with y(2) assms(2) show "I d2" unfolding keeps_def by blast
qed

lemma pres_keeps: "preserves I m \<Longrightarrow> keeps I m"
  by (rule keepsI) (blast dest: preserves_run)

lemma keeps_for_each:
  "(\<And>x c. x \<in> set xs \<Longrightarrow> keeps I (body x c)) \<Longrightarrow> keeps I (for_each body xs c)"
  by (induction xs arbitrary: c) (auto intro: keeps_ret keeps_bnd)

lemma pres_tx_run_keeps:
  assumes body: "keeps I m" and cm: "\<And>d. I d \<Longrightarrow> I (cm d)" and rb: "\<And>d d2. I d \<Longrightarrow> I (rb d d2)"
  shows "preserves I (tx_run cm rb m)"
proof (rule preservesI)
  fix p d r q d'
  assume d: "I d" and run: "tx_run cm rb m (p, d) = (r, q, d')"
  obtain r1 p1 d1 where b: "exec id (p, d) = (r1, p1, d1)" by (metis prod_cases3)
  then have d1: "d1 = d" by (auto simp: exec_def stmt_def split: list.splits option.splits)
  obtain r2 p2 d2 where m: "m (p1, d) = (r2, p2, d2)" by (metis prod_cases3)
  obtain r3 p3 d3 where c: "exec cm (p2, d2) = (r3, p3, d3)" by (metis prod_cases3)
  then have "d3 = d2 \<or> d3 = cm d2"
    by (auto simp: exec_def stmt_def split: list.splits option.splits)
  moreover have "r2 = Inr x \<Longrightarrow> I d2" for x using body d m unfolding keeps_def by blast
  ultimately show "I d'"
    using run b m c d d1 cm rb [OF d, of d2]
    by (cases r1; cases r2; cases r3) (auto simp: tx_run_def)
qed

lemma pres_tx_body:
  assumes body: "\<And>p d x q d2. I d \<Longrightarrow> m (p, d) = (Inr x, q, d2) \<Longrightarrow> I d2"
    and cm: "\<And>d. I d \<Longrightarrow> I (cm d)" and rb: "\<And>d d2. I d \<Longrightarrow> I (rb d d2)"
  shows "preserves I (tx_try cm rb m)"
proof -
  have "keeps I m" using body unfolding keeps_def by blast
  from pres_tx_run_keeps [of I m cm rb, OF this cm rb] have "preserves I (tx_run cm rb m)" by blast
  moreover have "preserves I (case r of Inl e \<Rightarrow> raise e | Inr x \<Rightarrow> ret x)" for r
    by (cases r) (auto intro: pres)
  ultimately show ?thesis unfolding tx_try_def by (rule pres_bnd)
qed

section \<open>Results that no fault can forge\<close>

text \<open>\<open>honest m\<close>: a success of \<open>m\<close> under any fault plan is its success without faults. Every
  procedure that passes errors on is honest; \<open>attempt\<close> is not.\<close>

definition honest :: "('d, 'e, 'a) proc \<Rightarrow> bool" where
  "honest m \<longleftrightarrow> (\<forall>p d x q d2. m (p, d) = (Inr x, q, d2) \<longrightarrow> m ([], d) = (Inr x, [], d2))"

named_theorems honest_intros "rules that honesty proofs are built from"

lemma honestD: "honest m \<Longrightarrow> m (p, d) = (Inr x, q, d2) \<Longrightarrow> m ([], d) = (Inr x, [], d2)"
  by (simp add: honest_def)

lemma honest_ret [honest_intros]: "honest (ret x)"
  by (simp add: honest_def)

lemma honest_raise [honest_intros]: "honest (raise e)"
  by (simp add: honest_def)

lemma honest_stmt [honest_intros]: "honest (stmt f)"
  by (auto simp: honest_def stmt_def split: list.splits option.splits sum.splits)

lemma honest_query [honest_intros]: "honest (query q)"
  unfolding query_def by (rule honest_stmt)

lemma honest_exec [honest_intros]: "honest (exec f)"
  unfolding exec_def by (rule honest_stmt)

lemma honest_bnd [honest_intros]:
  assumes "honest m" and "\<And>x. honest (k x)"
  shows "honest (bnd m k)"
  unfolding honest_def
proof (intro allI impI)
  fix p d x q d2
  assume run: "bnd m k (p, d) = (Inr x, q, d2)"
  obtain r1 p1 d1 where m: "m (p, d) = (r1, p1, d1)" by (metis prod_cases3)
  with run obtain y where r1: "r1 = Inr y" and k: "k y (p1, d1) = (Inr x, q, d2)"
    by (cases r1) (auto simp: bnd_def)
  from honestD [OF assms(1)] m r1 have "m ([], d) = (Inr y, [], d1)" by blast
  moreover from honestD [OF assms(2) k] have "k y ([], d1) = (Inr x, [], d2)" .
  ultimately show "bnd m k ([], d) = (Inr x, [], d2)" by (simp add: bnd_def)
qed

lemma honest_if [honest_intros]: "honest m \<Longrightarrow> honest k \<Longrightarrow> honest (if b then m else k)"
  by simp

lemma honest_case_option [honest_intros]:
  "honest m \<Longrightarrow> (\<And>y. honest (k y)) \<Longrightarrow> honest (case x of None \<Rightarrow> m | Some y \<Rightarrow> k y)"
  by (cases x) auto

lemma honest_case_sum [honest_intros]:
  "(\<And>y. honest (m y)) \<Longrightarrow> (\<And>y. honest (k y)) \<Longrightarrow> honest (case x of Inl y \<Rightarrow> m y | Inr y \<Rightarrow> k y)"
  by (cases x) auto

lemma honest_case_prod [honest_intros]:
  "(\<And>a b. honest (k a b)) \<Longrightarrow> honest (case x of (a, b) \<Rightarrow> k a b)"
  by (cases x) auto

lemma exec_ok: "exec f (p, d) = (Inr x, q, d2) \<Longrightarrow> d2 = f d"
  by (auto simp: exec_def stmt_def split: list.splits option.splits)

lemma bnd_Inr_iff: "bnd m k s = (Inr x, t) \<longleftrightarrow> (\<exists>y u. m s = (Inr y, u) \<and> k y u = (Inr x, t))"
  by (auto simp: bnd_def split: prod.splits sum.splits)

lemma ret_iff: "ret x s = (r, t) \<longleftrightarrow> r = Inr x \<and> t = s"
  by (cases s) auto

lemma attempt_iff: "attempt m s = (r, t) \<longleftrightarrow> (\<exists>x. m s = (x, t) \<and> r = Inr x)"
  by (auto simp: attempt_def split: prod.splits)

text \<open>A transaction's success is its body's success.\<close>

lemma tx_try_Inr:
  assumes "tx_try cm rb m (p, d) = (Inr x, q, d')"
  shows "\<exists>p1 p2 d2. m (p1, d) = (Inr x, p2, d2) \<and> d' = cm d2"
proof -
  obtain r1 p1 d1 where b: "exec id (p, d) = (r1, p1, d1)" by (metis prod_cases3)
  obtain r2 p2 d2 where m: "m (p1, d) = (r2, p2, d2)" by (metis prod_cases3)
  obtain r3 p3 d3 where c: "exec cm (p2, d2) = (r3, p3, d3)" by (metis prod_cases3)
  then have "r3 = Inr () \<Longrightarrow> d3 = cm d2" by (auto dest: exec_ok)
  with assms b m c show ?thesis
    by (cases r1; cases r2; cases r3) (auto simp: tx_try_def tx_run_def bnd_def)
qed

section \<open>Atomicity\<close>

text \<open>A transaction that reports an error leaves the database at the rollback of its start.\<close>

lemma tx_try_error:
  assumes "tx_try cm rb m (p, d) = (Inl e, p', d')"
  shows "d' = d \<or> (\<exists>d2. d' = rb d d2)"
proof -
  obtain r1 p1 d1 where b: "exec id (p, d) = (r1, p1, d1)" by (metis prod_cases3)
  have d1: "d1 = d"
    using b by (auto simp: exec_def stmt_def split: list.splits option.splits)
  obtain r2 p2 d2 where m: "m (p1, d) = (r2, p2, d2)" by (metis prod_cases3)
  obtain r3 p3 d3 where c: "exec cm (p2, d2) = (r3, p3, d3)" by (metis prod_cases3)
  from assms b d1 m c show ?thesis
    by (cases r1; cases r2; cases r3) (auto simp: tx_try_def tx_run_def bnd_def)
qed

end
