(* ===== verification/Media_Schema.thy ===== *)
theory Media_Schema
  imports Pg_Session
begin

text \<open>
  The data of the service: the types of \<open>media_index/types.rs\<close> and the tables of the three
  schemas (\<open>media_index/schema.rs\<close>, \<open>db.rs\<close>, \<open>videogen/request_store.rs\<close>) as records, the database
  that holds them, and its integrity invariant \<open>db_ok\<close> (primary keys, unique constraints,
  foreign keys, sequence bounds), which is what PostgreSQL enforces.
  A timestamp is an \<open>int\<close> of microseconds since the epoch; \<open>now_us\<close> is \<open>NOW()\<close>.
  Surrogate \<open>BIGSERIAL\<close> ids that no code reads (of source and failure rows) are left out.
\<close>

section \<open>Types of the media index\<close>

datatype feed_event_kind =
  HashUpserted | MediaVisibilityChanged | StorageLocationChanged | MediaDeleted

fun kind_as_str :: "feed_event_kind \<Rightarrow> string" where
  "kind_as_str HashUpserted = ''hash_upserted''"
| "kind_as_str MediaVisibilityChanged = ''media_visibility_changed''"
| "kind_as_str StorageLocationChanged = ''storage_location_changed''"
| "kind_as_str MediaDeleted = ''media_deleted''"

definition kind_from_str :: "string \<Rightarrow> string + feed_event_kind" where
  "kind_from_str v =
     (if v = ''hash_upserted'' then Inr HashUpserted
      else if v = ''media_visibility_changed'' then Inr MediaVisibilityChanged
      else if v = ''storage_location_changed'' then Inr StorageLocationChanged
      else if v = ''media_deleted'' then Inr MediaDeleted
      else Inl v)"

datatype upsert_outcome = Inserted | Changed | Unchanged

record sv_upsert_outcome =
  media :: upsert_outcome
  source_inserted :: bool

record servable_video_input =
  sv_video_id :: string
  sv_publisher_user_id :: "string option"
  sv_post_id :: "string option"
  sv_source_kind :: string
  sv_source_ref :: "string option"
  sv_servable_status :: string
  sv_nsfw_state :: "string option"
  sv_storage_provider :: "string option"
  sv_bucket :: "string option"
  sv_object_key :: "string option"
  sv_canonical_url :: "string option"
  sv_thumbnail_key :: "string option"
  sv_duration_ms :: "int option"
  sv_width :: "int option"
  sv_height :: "int option"
  sv_fps :: "f64 option"
  sv_container :: "string option"
  sv_video_codec :: "string option"
  sv_audio_codec :: "string option"
  sv_moov_atom_front :: "bool option"
  sv_canonical_encoding_version :: "string option"
  sv_discovered_from :: string

text \<open>A stored row has the columns of the input and three timestamps.\<close>

record servable_video = servable_video_input +
  sv_first_seen_at :: int
  sv_last_seen_at :: int
  sv_updated_at :: int

record video_source =
  src_video_id :: string
  src_source_kind :: string
  src_source_ref :: string
  src_raw_payload :: "json option"
  src_imported_at :: int

record hash_record_input =
  hr_video_id :: string
  hr_hash_kind :: string
  hr_hash_version :: string
  hr_input_media_version :: string
  hr_hash_value :: string
  hr_hash_bit_length :: int
  hr_num_frames :: int
  hr_hash_size :: int
  hr_computed_from_provider :: "string option"
  hr_computed_from_bucket :: "string option"
  hr_computed_from_key :: "string option"
  hr_metadata :: "json option"

record hash_record = hash_record_input +
  hr_computed_at :: int

record feed_event_input =
  fi_event_kind :: feed_event_kind
  fi_video_id :: string
  fi_hash_kind :: "string option"
  fi_hash_version :: "string option"
  fi_input_media_version :: "string option"
  fi_payload :: json

text \<open>A stored event keeps its kind as text.\<close>

record feed_row =
  fr_cursor :: int
  fr_event_kind :: string
  fr_video_id :: string
  fr_hash_kind :: "string option"
  fr_hash_version :: "string option"
  fr_input_media_version :: "string option"
  fr_payload :: json
  fr_created_at :: int

record feed_event =
  fe_cursor :: int
  fe_event_kind :: feed_event_kind
  fe_video_id :: string
  fe_hash_kind :: "string option"
  fe_hash_version :: "string option"
  fe_input_media_version :: "string option"
  fe_payload :: json
  fe_created_at :: int

record media_job_run =
  jr_id :: string
  jr_job_kind :: string
  jr_status :: string
  jr_requested_by :: string
  jr_started_at :: int
  jr_finished_at :: "int option"
  jr_cursor :: "json option"
  jr_totals :: "json option"
  jr_error_message :: "string option"

record media_job_failure =
  jf_job_run_id :: "string option"
  jf_job_kind :: string
  jf_item_key :: string
  jf_video_id :: "string option"
  jf_phase :: string
  jf_source_ref :: "string option"
  jf_retry_count :: int
  jf_last_error :: string
  jf_next_retry_at :: "int option"
  jf_status :: string
  jf_created_at :: int
  jf_updated_at :: int

record lease_row =
  ls_owner :: string
  ls_heartbeat :: int
  ls_last_discovery_at :: "int option"

record yral_post =
  yp_post_id :: string
  yp_video_uid :: string
  yp_creator_principal :: string
  yp_created_at :: int
  yp_status :: string
  yp_snapshot_run_id :: "string option"
  yp_fetched_at :: int
  yp_stale :: bool

record yral_user =
  yu_creator_principal :: string
  yu_post_count :: int
  yu_first_seen :: "int option"
  yu_last_seen :: "int option"

section \<open>Tables of the mirror pipeline and of the request store\<close>

record video_index_row =
  vi_video_id :: string
  vi_storj_key :: "string option"
  vi_hetzner_key :: "string option"
  vi_phash :: "string option"
  vi_phash_kind :: "string option"
  vi_phash_version :: "string option"
  vi_created_at :: int

datatype mirror_status = MPending | MPhashComputed | MMirrored | MFailed | MDone

record mirror_job =
  mj_video_id :: string
  mj_is_temp :: bool
  mj_retry_count :: int
  mj_status :: mirror_status
  mj_error_message :: "string option"
  mj_updated_at :: int

datatype request_status = RPending | RComplete | RFailed

record videogen_request =
  vr_counter :: int
  vr_principal :: string
  vr_request_id :: string
  vr_model_id :: string
  vr_prompt :: string
  vr_status :: request_status
  vr_video_id :: "string option"
  vr_bucket_url :: "string option"
  vr_failure_reason :: "string option"
  vr_created_at :: int
  vr_updated_at :: int

section \<open>The database\<close>

record pgdb =
  now_us :: int
  append_locked :: bool
  servable_videos :: "servable_video list"
  video_sources :: "video_source list"
  video_hashes :: "hash_record list"
  feed_rows :: "feed_row list"
  feed_seq :: int
  job_runs :: "media_job_run list"
  job_failures :: "media_job_failure list"
  sweep_lease :: "lease_row option"
  yral_posts :: "yral_post list"
  yral_users :: "yral_user list"
  video_index :: "video_index_row list"
  mirror_jobs :: "mirror_job list"
  videogen_requests :: "videogen_request list"
  request_seq :: int

definition empty_db :: "int \<Rightarrow> pgdb" where
  "empty_db t = \<lparr> now_us = t, append_locked = False, servable_videos = [], video_sources = [],
     video_hashes = [], feed_rows = [], feed_seq = 1, job_runs = [], job_failures = [],
     sweep_lease = None, yral_posts = [], yral_users = [], video_index = [], mirror_jobs = [],
     videogen_requests = [], request_seq = 1 \<rparr>"

type_synonym 'a pg = "(pgdb, pg_error, 'a) proc"

text \<open>Commit and rollback: \<open>SET LOCAL\<close> ends with the transaction; sequences are not rolled back.\<close>

definition end_tx :: "pgdb \<Rightarrow> pgdb" where
  "end_tx d = d\<lparr>append_locked := False\<rparr>"

definition rollback_tx :: "pgdb \<Rightarrow> pgdb \<Rightarrow> pgdb" where
  "rollback_tx d d2 = d\<lparr>append_locked := False, feed_seq := feed_seq d2, request_seq := request_seq d2\<rparr>"

abbreviation transaction :: "'a pg \<Rightarrow> 'a pg" where
  "transaction m \<equiv> tx_try end_tx rollback_tx m"

type_synonym hash_key = "string \<times> string \<times> string \<times> string"

definition hash_key :: "('b hash_record_input_scheme) \<Rightarrow> hash_key" where
  "hash_key h = (hr_video_id h, hr_hash_kind h, hr_hash_version h, hr_input_media_version h)"

definition source_key :: "video_source \<Rightarrow> string \<times> string \<times> string" where
  "source_key s = (src_video_id s, src_source_kind s, src_source_ref s)"

definition failure_key :: "media_job_failure \<Rightarrow> string \<times> string \<times> string" where
  "failure_key f = (jf_job_kind f, jf_item_key f, jf_phase f)"

definition in_master :: "string \<Rightarrow> pgdb \<Rightarrow> bool" where
  "in_master v d \<longleftrightarrow> has_key sv_video_id v (servable_videos d)"

definition keys_ok :: "pgdb \<Rightarrow> bool" where
  "keys_ok d \<longleftrightarrow> uniq sv_video_id (servable_videos d) \<and> uniq source_key (video_sources d) \<and>
     uniq hash_key (video_hashes d) \<and> uniq fr_cursor (feed_rows d) \<and> uniq jr_id (job_runs d) \<and>
     uniq failure_key (job_failures d) \<and> uniq yp_post_id (yral_posts d) \<and>
     uniq yu_creator_principal (yral_users d) \<and> uniq vi_video_id (video_index d) \<and>
     uniq mj_video_id (mirror_jobs d) \<and> uniq vr_counter (videogen_requests d)"

definition refs_ok :: "pgdb \<Rightarrow> bool" where
  "refs_ok d \<longleftrightarrow> (\<forall>s \<in> set (video_sources d). in_master (src_video_id s) d) \<and>
     (\<forall>h \<in> set (video_hashes d). in_master (hr_video_id h) d) \<and>
     (\<forall>e \<in> set (feed_rows d). in_master (fr_video_id e) d) \<and>
     (\<forall>f \<in> set (job_failures d). \<forall>r. jf_job_run_id f = Some r \<longrightarrow> has_key jr_id r (job_runs d)) \<and>
     (\<forall>j \<in> set (mirror_jobs d). has_key vi_video_id (mj_video_id j) (video_index d))"

definition seqs_ok :: "pgdb \<Rightarrow> bool" where
  "seqs_ok d \<longleftrightarrow> (\<forall>e \<in> set (feed_rows d). fr_cursor e < feed_seq d) \<and>
     (\<forall>r \<in> set (videogen_requests d). vr_counter r < request_seq d)"

definition db_ok :: "pgdb \<Rightarrow> bool" where
  "db_ok d \<longleftrightarrow> keys_ok d \<and> refs_ok d \<and> seqs_ok d"

lemmas db_ok_defs = db_ok_def keys_ok_def refs_ok_def seqs_ok_def in_master_def

lemma db_ok_empty [simp]: "db_ok (empty_db t)"
  by (simp add: db_ok_defs empty_db_def)

lemma db_ok_end_tx [simp]: "db_ok (end_tx d) = db_ok d"
  by (simp add: db_ok_defs end_tx_def)

lemma db_ok_clock [simp]: "db_ok (d\<lparr>now_us := t\<rparr>) = db_ok d"
  by (simp add: db_ok_defs)

section \<open>Procedures that keep the database sound\<close>

text \<open>
  \<open>safe m\<close>: from a sound database, under every fault plan, \<open>m\<close> ends in a sound database whose
  sequences have not moved back. The second part is what makes a rollback, which keeps the
  sequences, sound.
\<close>

definition ok_seq :: "int \<Rightarrow> int \<Rightarrow> pgdb \<Rightarrow> bool" where
  "ok_seq m n d \<longleftrightarrow> db_ok d \<and> m \<le> feed_seq d \<and> n \<le> request_seq d"

definition safe :: "(pgdb, 'e, 'a) proc \<Rightarrow> bool" where
  "safe p \<longleftrightarrow> (\<forall>m n. preserves (ok_seq m n) p)"

named_theorems safe_intros "rules that safety proofs are built from"

lemma safe_run: "safe p \<Longrightarrow> p (fp, d) = (r, fp', d') \<Longrightarrow> db_ok d \<Longrightarrow> db_ok d'"
  unfolding safe_def ok_seq_def
  by (metis (no_types, lifting) order_refl preserves_run)

lemma safe_db_after: "safe m \<Longrightarrow> db_ok d \<Longrightarrow> db_ok (db_after m (fp, d))"
  unfolding db_after_def by (metis prod.collapse safe_run)

lemma safe_ret [safe_intros]: "safe (ret x)"
  by (simp add: safe_def pres)

lemma safe_raise [safe_intros]: "safe (raise e)"
  by (simp add: safe_def pres)

lemma safe_get [safe_intros]: "safe get_db"
  by (simp add: safe_def pres)

lemma safe_bnd [safe_intros]: "safe m \<Longrightarrow> (\<And>x. safe (k x)) \<Longrightarrow> safe (bnd m k)"
  by (simp add: safe_def pres)

lemma safe_query [safe_intros]: "safe (query q)"
  by (simp add: safe_def pres)

lemma safe_attempt [safe_intros]: "safe m \<Longrightarrow> safe (attempt m)"
  by (simp add: safe_def pres)

lemma safe_map_err [safe_intros]: "safe m \<Longrightarrow> safe (map_err g m)"
  by (simp add: safe_def pres)

lemma safe_for_each [safe_intros]:
  "(\<And>x c. x \<in> set xs \<Longrightarrow> safe (body x c)) \<Longrightarrow> safe (for_each body xs c)"
  by (simp add: safe_def pres)

lemma safe_if [safe_intros]: "(b \<Longrightarrow> safe m) \<Longrightarrow> (\<not> b \<Longrightarrow> safe k) \<Longrightarrow> safe (if b then m else k)"
  by simp

lemma safe_case_option [safe_intros]:
  "(x = None \<Longrightarrow> safe m) \<Longrightarrow> (\<And>y. x = Some y \<Longrightarrow> safe (k y)) \<Longrightarrow>
   safe (case x of None \<Rightarrow> m | Some y \<Rightarrow> k y)"
  by (cases x) auto

lemma safe_case_sum [safe_intros]:
  "(\<And>y. x = Inl y \<Longrightarrow> safe (m y)) \<Longrightarrow> (\<And>y. x = Inr y \<Longrightarrow> safe (k y)) \<Longrightarrow>
   safe (case x of Inl y \<Rightarrow> m y | Inr y \<Rightarrow> k y)"
  by (cases x) auto

lemma safe_case_prod [safe_intros]:
  "(\<And>a b. x = (a, b) \<Longrightarrow> safe (k a b)) \<Longrightarrow> safe (case x of (a, b) \<Rightarrow> k a b)"
  by (cases x) auto

lemma safe_stmt:
  assumes "\<And>d x d'. db_ok d \<Longrightarrow> f d = Inr (x, d') \<Longrightarrow>
    db_ok d' \<and> feed_seq d \<le> feed_seq d' \<and> request_seq d \<le> request_seq d'"
  shows "safe (stmt f)"
  unfolding safe_def ok_seq_def
  by (intro allI pres_stmt) (meson assms order_trans)

lemma safe_exec:
  assumes "\<And>d. db_ok d \<Longrightarrow> db_ok (f d)" and "\<And>d. feed_seq (f d) = feed_seq d"
    and "\<And>d. request_seq (f d) = request_seq d"
  shows "safe (exec f)"
  unfolding exec_def by (rule safe_stmt) (use assms in auto)

lemma safe_on_db:
  assumes "\<And>d. db_ok d \<Longrightarrow> db_ok (f d)" and "\<And>d. feed_seq (f d) = feed_seq d"
    and "\<And>d. request_seq (f d) = request_seq d"
  shows "safe (on_db f)"
  using assms by (simp add: safe_def preserves_def ok_seq_def)

lemma db_ok_rollback:
  "db_ok d \<Longrightarrow> feed_seq d \<le> feed_seq d2 \<Longrightarrow> request_seq d \<le> request_seq d2 \<Longrightarrow>
   db_ok (rollback_tx d d2)"
  by (fastforce simp: db_ok_defs rollback_tx_def)

lemma safe_tx_run [safe_intros]:
  assumes "safe m"
  shows "safe (tx_run end_tx rollback_tx m)"
  unfolding safe_def
proof (intro allI preservesI)
  fix i j p d r q d'
  assume d: "ok_seq i j d" and run: "tx_run end_tx rollback_tx m (p, d) = (r, q, d')"
  obtain r1 p1 d1 where b: "exec id (p, d) = (r1, p1, d1)" by (metis prod_cases3)
  then have d1: "d1 = d" by (auto simp: exec_def stmt_def split: list.splits option.splits)
  obtain r2 p2 d2 where m: "m (p1, d) = (r2, p2, d2)" by (metis prod_cases3)
  have "preserves (ok_seq (feed_seq d) (request_seq d)) m"
    using assms by (simp add: safe_def)
  from preserves_run [OF this m] d have d2: "ok_seq (feed_seq d) (request_seq d) d2"
    by (simp add: ok_seq_def)
  then have rb: "ok_seq i j (rollback_tx d d2)"
    using d db_ok_rollback [of d d2] by (auto simp: ok_seq_def rollback_tx_def)
  obtain r3 p3 d3 where c: "exec end_tx (p2, d2) = (r3, p3, d3)" by (metis prod_cases3)
  then have "d3 = d2 \<or> d3 = end_tx d2"
    by (auto simp: exec_def stmt_def split: list.splits option.splits)
  then have d3: "ok_seq i j d3"
    using d2 d by (auto simp: ok_seq_def) (auto simp: end_tx_def)
  show "ok_seq i j d'"
    using run b m c d d1 d3 rb by (cases r1; cases r2; cases r3) (auto simp: tx_run_def)
qed

lemma safe_transaction [safe_intros]: "safe m \<Longrightarrow> safe (transaction m)"
  unfolding tx_try_def by (intro safe_intros)

lemma kind_roundtrip: "kind_from_str (kind_as_str k) = Inr k"
  by (cases k) (simp_all add: kind_from_str_def)

lemma kind_from_str_Inr: "kind_from_str v = Inr k \<Longrightarrow> v = kind_as_str k"
  by (auto simp: kind_from_str_def split: if_splits)

end
