(* ===== verification/Paged_Scan.thy ===== *)
theory Paged_Scan
  imports Prelude
begin

text \<open>
  The interface between a table scan that hands out pages behind an exclusive cursor and the
  loops that consume it. The provider promises that a page is the front of what is left
  beyond the cursor, in strictly increasing key order; a job that writes between two pages
  promises in addition that its writes leave alone what lies beyond the page. The client lemmas:
  the loop ends, and visits everything that was left exactly once, in key order.
\<close>

text \<open>The loop, with fuel: fetch a page, stop on an empty one, process it, move the cursor.\<close>

fun walk :: "('s \<Rightarrow> 'k option \<Rightarrow> nat \<Rightarrow> 'r list) \<Rightarrow> ('r \<Rightarrow> 'k) \<Rightarrow> ('r list \<Rightarrow> 's \<Rightarrow> 's) \<Rightarrow> nat \<Rightarrow>
    nat \<Rightarrow> 'k option \<Rightarrow> 's \<Rightarrow> ('r list \<times> 's) option" where
  "walk page key process n 0 a s = None"
| "walk page key process n (Suc fuel) a s =
     (let rs = page s a n in
      if rs = [] then Some ([], s)
      else case walk page key process n fuel (Some (key (last rs))) (process rs s) of
             None \<Rightarrow> None
           | Some (vs, t) \<Rightarrow> Some (rs @ vs, t))"

definition past :: "'k::linorder option \<Rightarrow> 'k \<Rightarrow> bool" where
  "past a k \<longleftrightarrow> (case a of None \<Rightarrow> True | Some c \<Rightarrow> c < k)"

lemma strict_last_max:
  "sorted_wrt (<) (map f rs) \<Longrightarrow> r \<in> set rs \<Longrightarrow> f r \<le> (f (last rs) :: 'k::linorder)"
proof (induction rs)
  case (Cons x xs)
  then show ?case by (cases "xs = []") (auto simp: less_imp_le)
qed simp

lemma take_last_less:
  assumes "sorted_wrt (<) (map f xs)" and "take n xs \<noteq> []" and "y \<in> set (drop n xs)"
  shows "f (last (take n xs)) < (f y :: 'k::linorder)"
proof -
  have "sorted_wrt (<) (map f (take n xs) @ map f (drop n xs))"
    using assms(1) by (metis append_take_drop_id map_append)
  then have "\<forall>a \<in> f ` set (take n xs). \<forall>b \<in> f ` set (drop n xs). a < b"
    unfolding sorted_wrt_append set_map by blast
  with assms(2,3) last_in_set show ?thesis by blast
qed

locale paged_scan =
  fixes page :: "'s \<Rightarrow> 'k::linorder option \<Rightarrow> nat \<Rightarrow> 'r list"
    and key :: "'r \<Rightarrow> 'k"
    and todo :: "'s \<Rightarrow> 'k option \<Rightarrow> 'r list"
    and ok :: "'s \<Rightarrow> bool"
  assumes page_front: "page s a n = take n (todo s a)"
    and todo_strict: "ok s \<Longrightarrow> sorted_wrt (<) (map key (todo s a))"
    and todo_is_past: "r \<in> set (todo s a) \<Longrightarrow> past a (key r)"
    and todo_cut: "past a k \<Longrightarrow> todo s (Some k) = filter (\<lambda>r. k < key r) (todo s a)"
begin

lemma page_short_all: "length (page s a n) < n \<Longrightarrow> page s a n = todo s a"
  by (simp add: page_front)

lemma page_nil: "0 < n \<Longrightarrow> page s a n = [] \<longleftrightarrow> todo s a = []"
  by (auto simp: page_front)

lemma page_strict: "ok s \<Longrightarrow> sorted_wrt (<) (map key (page s a n))"
  by (simp add: page_front take_map [symmetric] sorted_wrt_take todo_strict)

text \<open>What is left beyond the last row of a page is what the page did not hold.\<close>

lemma todo_after_page:
  assumes ok: "ok s" and ne: "page s a n \<noteq> []"
  shows "todo s (Some (key (last (page s a n)))) = drop n (todo s a)"
proof -
  let ?xs = "take n (todo s a)" and ?ys = "drop n (todo s a)"
  let ?k = "key (last ?xs)"
  have xs: "?xs \<noteq> []" using ne by (simp add: page_front)
  then have "last ?xs \<in> set (todo s a)" by (meson last_in_set in_set_takeD)
  then have pa: "past a ?k" by (rule todo_is_past)
  have srt: "sorted_wrt (<) (map key (?xs @ ?ys))" using todo_strict [OF ok, of a] by simp
  then have sx: "sorted_wrt (<) (map key ?xs)"
      and xy: "\<forall>x\<in>set ?xs. \<forall>y\<in>set ?ys. key x < key y"
    by (auto simp only: map_append sorted_wrt_append set_map ball_simps)
  have "\<not> ?k < key r" if "r \<in> set ?xs" for r
  proof -
    have "?xs = butlast ?xs @ [last ?xs]" using xs by simp
    then have "sorted_wrt (<) (map key (butlast ?xs @ [last ?xs]))" using sx by metis
    moreover from that \<open>?xs = butlast ?xs @ [last ?xs]\<close>
    have "r \<in> set (butlast ?xs @ [last ?xs])" by metis
    ultimately show ?thesis by (auto simp: sorted_wrt_append)
  qed
  moreover have "?k < key r" if "r \<in> set ?ys" for r
    using xy that xs last_in_set by blast
  ultimately have "filter (\<lambda>r. ?k < key r) (?xs @ ?ys) = ?ys"
    by (simp add: filter_id_conv del: append_take_drop_id)
  with todo_cut [OF pa, of s] show ?thesis by (simp add: page_front)
qed

end

locale paged_job = paged_scan page key todo ok
  for page :: "'s \<Rightarrow> 'k::linorder option \<Rightarrow> nat \<Rightarrow> 'r list"
    and key :: "'r \<Rightarrow> 'k" and todo :: "'s \<Rightarrow> 'k option \<Rightarrow> 'r list"
    and ok :: "'s \<Rightarrow> bool" +
  fixes process :: "'r list \<Rightarrow> 's \<Rightarrow> 's"
  assumes ok_process: "ok s \<Longrightarrow> rs \<noteq> [] \<Longrightarrow> rs = page s a n \<Longrightarrow> ok (process rs s)"
    and process_frame: "ok s \<Longrightarrow> rs \<noteq> [] \<Longrightarrow> rs = page s a n \<Longrightarrow>
      todo (process rs s) (Some (key (last rs))) = todo s (Some (key (last rs)))"
begin

theorem walk_complete:
  assumes "0 < n" and "ok s" and "length (todo s a) < fuel"
  shows "\<exists>t. walk page key process n fuel a s = Some (todo s a, t) \<and> ok t"
  using assms(2,3)
proof (induction fuel arbitrary: a s)
  case 0
  then show ?case by simp
next
  case (Suc fuel)
  let ?rs = "page s a n"
  show ?case
  proof (cases "?rs = []")
    case True
    with \<open>0 < n\<close> have "todo s a = []" by (simp add: page_nil)
    with True Suc.prems show ?thesis by (simp add: Let_def)
  next
    case False
    let ?k = "Some (key (last ?rs))" and ?s = "process ?rs s"
    have rest: "todo ?s ?k = drop n (todo s a)"
      using process_frame [OF Suc.prems(1) False refl] todo_after_page [OF Suc.prems(1) False]
      by simp
    then have whole: "?rs @ todo ?s ?k = todo s a" by (simp add: page_front)
    have ok: "ok ?s" using ok_process [OF Suc.prems(1) False refl] .
    have "todo s a \<noteq> []" using False \<open>0 < n\<close> page_nil by blast
    then have "length (todo ?s ?k) < fuel"
      using Suc.prems(2) rest \<open>0 < n\<close> by (cases "todo s a") auto
    from Suc.IH [OF ok this] obtain t
      where t: "walk page key process n fuel ?k ?s = Some (todo ?s ?k, t)" "ok t" by blast
    with False whole show ?thesis by (simp add: Let_def)
  qed
qed

text \<open>A property of what was visited and of the state, kept by every page, holds at the end, where
  nothing is left beyond the last cursor.\<close>

lemma walk_invariant:
  assumes n: "0 < n"
    and step: "\<And>a vs s. P a vs s \<Longrightarrow> ok s \<Longrightarrow> page s a n \<noteq> [] \<Longrightarrow>
      P (Some (key (last (page s a n)))) (vs @ page s a n) (process (page s a n) s)"
    and run: "walk page key process n fuel a s = Some (us, t)" and "ok s" and "P a vs s"
  shows "\<exists>a'. P a' (vs @ us) t \<and> todo t a' = []"
  using run assms(4,5)
proof (induction fuel arbitrary: a s vs us)
  case 0
  then show ?case by simp
next
  case (Suc fuel)
  let ?rs = "page s a n"
  show ?case
  proof (cases "?rs = []")
    case True
    with Suc.prems n show ?thesis by (auto simp: Let_def page_nil)
  next
    case False
    let ?k = "Some (key (last ?rs))"
    from False Suc.prems(1) obtain ws where
        w: "walk page key process n fuel ?k (process ?rs s) = Some (ws, t)" and us: "us = ?rs @ ws"
      by (auto simp: Let_def split: option.splits)
    from Suc.IH [OF w ok_process [OF Suc.prems(2) False refl] step [OF Suc.prems(3,2) False]] us
    show ?thesis by simp
  qed
qed

lemma walk_once:
  assumes "0 < n" and "ok s" and "length (todo s a) < fuel"
  shows "\<exists>vs t. walk page key process n fuel a s = Some (vs, t) \<and>
     sorted_wrt (<) (map key vs) \<and> set vs = set (todo s a)"
  using walk_complete [OF assms] todo_strict [OF assms(2)] by blast

end

end
