(* ===== verification/Media_Repo.thy ===== *)
theory Media_Repo
  imports Media_Schema Paged_Scan "HOL-Library.Product_Lexorder"
begin

text \<open>
  \<open>media_index/repo.rs\<close>: the idempotent upserts of the master table and of the hash table, the
  scan for videos that miss the canonical perceptual hash with its backoff and shard
  predicates, the coverage counts, the eligibility gate, the job-run and failure listings and
  the exact-duplicate lookup. The lease functions of the same file are in theory Sweep_Lease.
  PostgreSQL's \<open>hashtext\<close> is the parameter \<open>hashtext\<close>.
\<close>

definition coalesce :: "'a option \<Rightarrow> 'a option \<Rightarrow> 'a option" where
  "coalesce a b = (case a of Some x \<Rightarrow> Some x | None \<Rightarrow> b)"

lemma coalesce_simps [simp]: "coalesce (Some x) b = Some x" "coalesce None b = b"
    "coalesce a None = a" "coalesce a (coalesce a b) = coalesce a b"
  by (auto simp: coalesce_def split: option.splits)

definition row_count_error :: pg_error where
  "row_count_error = PgError ''query returned an unexpected number of rows''"

definition fk_error :: pg_error where
  "fk_error = PgError ''violates foreign key constraint''"

section \<open>The master table\<close>

definition sv_fresh :: "int \<Rightarrow> servable_video_input \<Rightarrow> servable_video" where
  "sv_fresh t i = servable_video_input.extend i (servable_video.fields t t t)"

definition opt_eq_matches :: "('a \<Rightarrow> 'a \<Rightarrow> bool) \<Rightarrow> 'a option \<Rightarrow> 'a option \<Rightarrow> bool" where
  "opt_eq_matches eq stored incoming \<longleftrightarrow>
     (case incoming of None \<Rightarrow> True
      | Some x \<Rightarrow> (case stored of None \<Rightarrow> False | Some y \<Rightarrow> eq y x))"

definition source_ref_matches :: "string option \<Rightarrow> string option \<Rightarrow> bool" where
  "source_ref_matches stored incoming \<longleftrightarrow> stored \<noteq> None \<or> incoming = None"

definition servable_video_material_matches :: "servable_video \<Rightarrow> servable_video_input \<Rightarrow> bool" where
  "servable_video_material_matches r i \<longleftrightarrow>
     opt_eq_matches (=) (sv_publisher_user_id r) (sv_publisher_user_id i) \<and>
     opt_eq_matches (=) (sv_post_id r) (sv_post_id i) \<and>
     sv_source_kind r = sv_source_kind i \<and>
     source_ref_matches (sv_source_ref r) (sv_source_ref i) \<and>
     sv_servable_status r = sv_servable_status i \<and>
     opt_eq_matches (=) (sv_nsfw_state r) (sv_nsfw_state i) \<and>
     opt_eq_matches (=) (sv_storage_provider r) (sv_storage_provider i) \<and>
     opt_eq_matches (=) (sv_bucket r) (sv_bucket i) \<and>
     opt_eq_matches (=) (sv_object_key r) (sv_object_key i) \<and>
     opt_eq_matches (=) (sv_canonical_url r) (sv_canonical_url i) \<and>
     opt_eq_matches (=) (sv_thumbnail_key r) (sv_thumbnail_key i) \<and>
     opt_eq_matches (=) (sv_duration_ms r) (sv_duration_ms i) \<and>
     opt_eq_matches (=) (sv_width r) (sv_width i) \<and>
     opt_eq_matches (=) (sv_height r) (sv_height i) \<and>
     opt_eq_matches f64_eq (sv_fps r) (sv_fps i) \<and>
     opt_eq_matches (=) (sv_container r) (sv_container i) \<and>
     opt_eq_matches (=) (sv_video_codec r) (sv_video_codec i) \<and>
     opt_eq_matches (=) (sv_audio_codec r) (sv_audio_codec i) \<and>
     opt_eq_matches (=) (sv_moov_atom_front r) (sv_moov_atom_front i) \<and>
     opt_eq_matches (=) (sv_canonical_encoding_version r) (sv_canonical_encoding_version i) \<and>
     sv_discovered_from r = sv_discovered_from i"

text \<open>The \<open>UPDATE\<close>: every optional column keeps its value when the input has none; the source
  reference is written once.\<close>

definition sv_apply :: "int \<Rightarrow> servable_video_input \<Rightarrow> servable_video \<Rightarrow> servable_video" where
  "sv_apply t i r = r\<lparr>
     sv_publisher_user_id := coalesce (sv_publisher_user_id i) (sv_publisher_user_id r),
     sv_post_id := coalesce (sv_post_id i) (sv_post_id r),
     sv_source_kind := sv_source_kind i,
     sv_source_ref := coalesce (sv_source_ref r) (sv_source_ref i),
     sv_servable_status := sv_servable_status i,
     sv_nsfw_state := coalesce (sv_nsfw_state i) (sv_nsfw_state r),
     sv_storage_provider := coalesce (sv_storage_provider i) (sv_storage_provider r),
     sv_bucket := coalesce (sv_bucket i) (sv_bucket r),
     sv_object_key := coalesce (sv_object_key i) (sv_object_key r),
     sv_canonical_url := coalesce (sv_canonical_url i) (sv_canonical_url r),
     sv_thumbnail_key := coalesce (sv_thumbnail_key i) (sv_thumbnail_key r),
     sv_duration_ms := coalesce (sv_duration_ms i) (sv_duration_ms r),
     sv_width := coalesce (sv_width i) (sv_width r),
     sv_height := coalesce (sv_height i) (sv_height r),
     sv_fps := coalesce (sv_fps i) (sv_fps r),
     sv_container := coalesce (sv_container i) (sv_container r),
     sv_video_codec := coalesce (sv_video_codec i) (sv_video_codec r),
     sv_audio_codec := coalesce (sv_audio_codec i) (sv_audio_codec r),
     sv_moov_atom_front := coalesce (sv_moov_atom_front i) (sv_moov_atom_front r),
     sv_canonical_encoding_version :=
       coalesce (sv_canonical_encoding_version i) (sv_canonical_encoding_version r),
     sv_discovered_from := sv_discovered_from i,
     sv_last_seen_at := t,
     sv_updated_at := t \<rparr>"

definition insert_source_row :: "servable_video_input \<Rightarrow> bool pg" where
  "insert_source_row i = (case sv_source_ref i of
      None \<Rightarrow> ret False
    | Some ref \<Rightarrow> stmt (\<lambda>d.
        let s = \<lparr>src_video_id = sv_video_id i, src_source_kind = sv_source_kind i,
                 src_source_ref = ref, src_raw_payload = None, src_imported_at = now_us d\<rparr>;
            (ins, rows) = insert_new source_key s (video_sources d)
        in if ins \<and> \<not> in_master (sv_video_id i) d then Inl fk_error
           else Inr (ins, d\<lparr>video_sources := rows\<rparr>)))"

definition upsert_servable_video_txn :: "servable_video_input \<Rightarrow> sv_upsert_outcome pg" where
  "upsert_servable_video_txn i =
     bnd (stmt (\<lambda>d. let (ins, rows) = insert_new sv_video_id (sv_fresh (now_us d) i) (servable_videos d)
                   in Inr (ins, d\<lparr>servable_videos := rows\<rparr>))) (\<lambda>inserted.
     bnd (insert_source_row i) (\<lambda>src.
     if inserted then ret \<lparr>media = Inserted, source_inserted = src\<rparr>
     else bnd (stmt (\<lambda>d. case row_of sv_video_id (sv_video_id i) (servable_videos d) of
                  None \<Rightarrow> Inl row_count_error | Some r \<Rightarrow> Inr (r, d))) (\<lambda>existing.
       if servable_video_material_matches existing i
       then ret \<lparr>media = Unchanged, source_inserted = src\<rparr>
       else bnd (exec (\<lambda>d. d\<lparr>servable_videos :=
                  update_where (\<lambda>r. sv_video_id r = sv_video_id i) (sv_apply (now_us d) i)
                    (servable_videos d)\<rparr>)) (\<lambda>_.
            ret \<lparr>media = Changed, source_inserted = src\<rparr>))))"

section \<open>The hash table\<close>

definition hr_fresh :: "int \<Rightarrow> hash_record_input \<Rightarrow> hash_record" where
  "hr_fresh t i = hash_record_input.extend i (hash_record.fields t)"

definition hash_material_matches :: "hash_record \<Rightarrow> hash_record_input \<Rightarrow> bool" where
  "hash_material_matches r i \<longleftrightarrow>
     hr_hash_value r = hr_hash_value i \<and>
     hr_hash_bit_length r = hr_hash_bit_length i \<and>
     hr_num_frames r = hr_num_frames i \<and>
     hr_hash_size r = hr_hash_size i \<and>
     hr_computed_from_provider r = hr_computed_from_provider i \<and>
     hr_computed_from_bucket r = hr_computed_from_bucket i \<and>
     hr_computed_from_key r = hr_computed_from_key i \<and>
     hr_metadata r = hr_metadata i"

definition hr_apply :: "int \<Rightarrow> hash_record_input \<Rightarrow> hash_record \<Rightarrow> hash_record" where
  "hr_apply t i r = r\<lparr>
     hr_hash_value := hr_hash_value i,
     hr_hash_bit_length := hr_hash_bit_length i,
     hr_num_frames := hr_num_frames i,
     hr_hash_size := hr_hash_size i,
     hr_computed_from_provider := hr_computed_from_provider i,
     hr_computed_from_bucket := hr_computed_from_bucket i,
     hr_computed_from_key := hr_computed_from_key i,
     hr_computed_at := t,
     hr_metadata := hr_metadata i \<rparr>"

definition upsert_hash_record_txn :: "hash_record_input \<Rightarrow> upsert_outcome pg" where
  "upsert_hash_record_txn i =
     bnd (stmt (\<lambda>d. let (ins, rows) = insert_new hash_key (hr_fresh (now_us d) i) (video_hashes d)
                   in if ins \<and> \<not> in_master (hr_video_id i) d then Inl fk_error
                      else Inr (ins, d\<lparr>video_hashes := rows\<rparr>))) (\<lambda>inserted.
     if inserted then ret Inserted
     else bnd (stmt (\<lambda>d. case row_of hash_key (hash_key i) (video_hashes d) of
                  None \<Rightarrow> Inl row_count_error | Some r \<Rightarrow> Inr (r, d))) (\<lambda>existing.
       if hash_material_matches existing i then ret Unchanged
       else bnd (exec (\<lambda>d. d\<lparr>video_hashes :=
                  update_where (\<lambda>r. hash_key r = hash_key i) (hr_apply (now_us d) i)
                    (video_hashes d)\<rparr>)) (\<lambda>_. ret Changed)))"

section \<open>The scan for missing canonical hashes\<close>

record missing_hash_row =
  mh_video_id :: string
  mh_storage_provider :: "string option"
  mh_object_key :: "string option"
  mh_servable_status :: string
  mh_bucket :: "string option"

definition backing_off :: "int \<Rightarrow> media_job_failure \<Rightarrow> bool" where
  "backing_off now f \<longleftrightarrow> (case jf_next_retry_at f of None \<Rightarrow> False | Some t \<Rightarrow> now < t)"

definition not_backing_off :: "pgdb \<Rightarrow> string \<Rightarrow> bool" where
  "not_backing_off d v \<longleftrightarrow>
     \<not> (\<exists>f \<in> set (job_failures d). jf_video_id f = Some v \<and> backing_off (now_us d) f)"

definition has_hash :: "string \<Rightarrow> string \<Rightarrow> string \<Rightarrow> pgdb \<Rightarrow> string \<Rightarrow> bool" where
  "has_hash kind ver imv d v \<longleftrightarrow> has_key hash_key (v, kind, ver, imv) (video_hashes d)"

text \<open>PostgreSQL's \<open>%\<close> takes the sign of the dividend.\<close>

definition pg_mod :: "int \<Rightarrow> int \<Rightarrow> int" where
  "pg_mod a b = sgn a * (\<bar>a\<bar> mod \<bar>b\<bar>)"

definition in_shard :: "(string \<Rightarrow> int) \<Rightarrow> (int \<times> int) option \<Rightarrow> string \<Rightarrow> bool" where
  "in_shard hashtext shard v \<longleftrightarrow> (case shard of None \<Rightarrow> True
     | Some (of', idx) \<Rightarrow> pg_mod (pg_mod (hashtext v) of' + of') of' = idx)"

definition beyond :: "string option \<Rightarrow> string \<Rightarrow> bool" where
  "beyond after v \<longleftrightarrow> (case after of None \<Rightarrow> True | Some a \<Rightarrow> a < v)"

definition to_missing_row :: "servable_video \<Rightarrow> missing_hash_row" where
  "to_missing_row v = \<lparr>mh_video_id = sv_video_id v, mh_storage_provider = sv_storage_provider v,
     mh_object_key = sv_object_key v, mh_servable_status = sv_servable_status v,
     mh_bucket = sv_bucket v\<rparr>"

definition missing_rows ::
  "(string \<Rightarrow> int) \<Rightarrow> string \<Rightarrow> string \<Rightarrow> string \<Rightarrow> string option \<Rightarrow> (int \<times> int) option \<Rightarrow> pgdb \<Rightarrow>
   missing_hash_row list" where
  "missing_rows hashtext kind ver imv after shard d =
     map to_missing_row (sort_key sv_video_id (filter (\<lambda>v.
        \<not> has_hash kind ver imv d (sv_video_id v) \<and>
        beyond after (sv_video_id v) \<and>
        in_shard hashtext shard (sv_video_id v) \<and>
        not_backing_off d (sv_video_id v)) (servable_videos d)))"

definition videos_missing_canonical_phash ::
  "(string \<Rightarrow> int) \<Rightarrow> string \<Rightarrow> string \<Rightarrow> string \<Rightarrow> string option \<Rightarrow> int option \<Rightarrow>
   (int \<times> int) option \<Rightarrow> missing_hash_row list pg" where
  "videos_missing_canonical_phash hashtext kind ver imv after lim shard =
     stmt (\<lambda>d.
       if (case lim of None \<Rightarrow> False | Some n \<Rightarrow> n < 0)
       then Inl (PgError ''LIMIT must not be negative'')
       else if (case shard of None \<Rightarrow> False | Some (of', _) \<Rightarrow> of' = 0)
       then Inl (PgError ''division by zero'')
       else Inr (let rows = missing_rows hashtext kind ver imv after shard d
                 in (case lim of None \<Rightarrow> rows | Some n \<Rightarrow> limit_rows n rows), d))"

text \<open>The gate of the sweep: some video would be selected.\<close>

definition eligible_exists :: "string \<Rightarrow> string \<Rightarrow> string \<Rightarrow> pgdb \<Rightarrow> bool" where
  "eligible_exists kind ver imv d \<longleftrightarrow> (\<exists>v \<in> set (servable_videos d).
     \<not> has_hash kind ver imv d (sv_video_id v) \<and> not_backing_off d (sv_video_id v))"

definition any_eligible_for_hash :: "string \<Rightarrow> string \<Rightarrow> string \<Rightarrow> bool pg" where
  "any_eligible_for_hash kind ver imv = query (eligible_exists kind ver imv)"

section \<open>Coverage, listings, duplicates\<close>

record coverage_stats =
  total_servable :: int
  with_canonical_phash :: int
  missing_canonical_phash :: int

text \<open>The \<open>LEFT JOIN\<close>: one row per matching hash, or one with no hash.\<close>

definition left_join_hash ::
  "string \<Rightarrow> string \<Rightarrow> string \<Rightarrow> pgdb \<Rightarrow> (servable_video \<times> hash_record option) list" where
  "left_join_hash kind ver imv d = concat (map (\<lambda>v.
     case filter (\<lambda>h. hr_video_id h = sv_video_id v \<and> hr_hash_kind h = kind \<and>
            hr_hash_version h = ver \<and> hr_input_media_version h = imv) (video_hashes d) of
       [] \<Rightarrow> [(v, None)] | hs \<Rightarrow> map (\<lambda>h. (v, Some h)) hs) (servable_videos d))"

definition canonical_phash_coverage :: "coverage_stats pg" where
  "canonical_phash_coverage = query (\<lambda>d.
     let j = left_join_hash ''phash'' ''offchain_binary_10x8_v1'' ''current_stored_object_v1'' d;
         total = int (length j); withh = count_where (\<lambda>(v, h). h \<noteq> None) j
     in \<lparr>total_servable = total, with_canonical_phash = withh,
         missing_canonical_phash = total - withh\<rparr>)"

definition kind_matches :: "string option \<Rightarrow> string \<Rightarrow> bool" where
  "kind_matches k j \<longleftrightarrow> (case k of None \<Rightarrow> True | Some x \<Rightarrow> j = x)"

definition recent_job_runs :: "string option \<Rightarrow> int \<Rightarrow> media_job_run list pg" where
  "recent_job_runs job_kind lim = stmt (\<lambda>d.
     if lim < 0 then Inl (PgError ''LIMIT must not be negative'')
     else Inr (limit_rows lim (sort_key (\<lambda>r. - jr_started_at r)
            (filter (\<lambda>r. kind_matches job_kind (jr_job_kind r)) (job_runs d))), d))"

record failure_group =
  fg_phase :: string
  fg_count :: int
  fg_samples :: "string list"

text \<open>The de-duplication loop: at most five distinct samples, in the order read.\<close>

fun collect_samples :: "string list \<Rightarrow> string list \<Rightarrow> string list" where
  "collect_samples [] acc = acc"
| "collect_samples (s # ss) acc =
     (let acc' = (if s \<in> set acc then acc else acc @ [s])
      in if length acc' = 5 then acc' else collect_samples ss acc')"

definition phase_counts :: "string option \<Rightarrow> pgdb \<Rightarrow> (string \<times> int) list" where
  "phase_counts job_kind d =
     (let fs = filter (\<lambda>f. kind_matches job_kind (jf_job_kind f)) (job_failures d)
      in sort_key (\<lambda>pc. - snd pc)
           (map (\<lambda>p. (p, count_where (\<lambda>f. jf_phase f = p) fs)) (remdups (map jf_phase fs))))"

definition phase_samples :: "string option \<Rightarrow> string \<Rightarrow> pgdb \<Rightarrow> string list" where
  "phase_samples job_kind ph d =
     map (\<lambda>f. take 200 (jf_last_error f)) (take 50 (sort_key (\<lambda>f. - jf_created_at f)
       (filter (\<lambda>f. jf_phase f = ph \<and> kind_matches job_kind (jf_job_kind f)) (job_failures d))))"

definition failure_summary :: "string option \<Rightarrow> int \<Rightarrow> failure_group list pg" where
  "failure_summary job_kind lim =
     bnd (stmt (\<lambda>d. if lim < 0 then Inl (PgError ''LIMIT must not be negative'')
                   else Inr (limit_rows lim (phase_counts job_kind d), d))) (\<lambda>counts.
     for_each (\<lambda>(ph, c) out.
        bnd (query (phase_samples job_kind ph)) (\<lambda>rows.
        ret (out @ [\<lparr>fg_phase = ph, fg_count = c, fg_samples = collect_samples rows []\<rparr>])))
       counts [])"

definition update_job_run_totals :: "string \<Rightarrow> json \<Rightarrow> unit pg" where
  "update_job_run_totals run totals = exec (\<lambda>d. d\<lparr>job_runs :=
     update_where (\<lambda>r. jr_id r = run) (\<lambda>r. r\<lparr>jr_totals := Some totals\<rparr>) (job_runs d)\<rparr>)"

definition find_exact_duplicates :: "string \<Rightarrow> string \<Rightarrow> string \<Rightarrow> hash_record list pg" where
  "find_exact_duplicates kind ver val = query (\<lambda>d.
     sort_key (\<lambda>h. (hr_video_id h, hr_input_media_version h))
       (filter (\<lambda>h. hr_hash_kind h = kind \<and> hr_hash_version h = ver \<and> hr_hash_value h = val)
         (video_hashes d)))"

section \<open>The contract of a material upsert\<close>

text \<open>
  Both upserts share one contract. \<open>settle\<close> is what the table holds for the key afterwards; the
  laws say that the comparison the code makes is exact (it reports a match just when the update
  would leave the material columns as they are) and that a row just written matches its input.
  Inputs with a NaN are excluded: a NaN equals nothing, not even itself.
\<close>

definition settle :: "(int \<Rightarrow> 'i \<Rightarrow> 'r) \<Rightarrow> (int \<Rightarrow> 'i \<Rightarrow> 'r \<Rightarrow> 'r) \<Rightarrow> ('r \<Rightarrow> 'i \<Rightarrow> bool) \<Rightarrow>
    int \<Rightarrow> 'i \<Rightarrow> 'r option \<Rightarrow> 'r" where
  "settle fresh app matches t i ro = (case ro of None \<Rightarrow> fresh t i
     | Some r \<Rightarrow> if matches r i then r else app t i r)"

definition outcome_of :: "('r \<Rightarrow> 'i \<Rightarrow> bool) \<Rightarrow> 'i \<Rightarrow> 'r option \<Rightarrow> upsert_outcome" where
  "outcome_of matches i ro = (case ro of None \<Rightarrow> Inserted
     | Some r \<Rightarrow> if matches r i then Unchanged else Changed)"

locale material_upsert =
  fixes fresh :: "int \<Rightarrow> 'i \<Rightarrow> 'r"
    and app :: "int \<Rightarrow> 'i \<Rightarrow> 'r \<Rightarrow> 'r"
    and matches :: "'r \<Rightarrow> 'i \<Rightarrow> bool"
    and material :: "'r \<Rightarrow> 'm"
    and comparable :: "'i \<Rightarrow> bool"
  assumes fresh_matches: "comparable i \<Longrightarrow> matches (fresh t i) i"
    and app_matches: "comparable i \<Longrightarrow> matches (app t i r) i"
    and matches_exact: "comparable i \<Longrightarrow> matches r i \<longleftrightarrow> material (app t i r) = material r"
begin

lemma settle_matches: "comparable i \<Longrightarrow> matches (settle fresh app matches t i ro) i"
  by (simp add: settle_def fresh_matches app_matches split: option.split)

lemma settle_stable:
  "comparable i \<Longrightarrow> settle fresh app matches t' i (Some (settle fresh app matches t i ro)) =
     settle fresh app matches t i ro"
  by (simp add: settle_def [of fresh app matches t'] settle_matches)

lemma settle_outcome:
  "comparable i \<Longrightarrow> outcome_of matches i (Some (settle fresh app matches t i ro)) = Unchanged"
  by (simp add: outcome_of_def settle_matches)

lemma settle_material:
  "comparable i \<Longrightarrow> material (settle fresh app matches t i (Some r)) = material (app t i r)"
  using matches_exact [of i r t] by (simp add: settle_def)

lemma unchanged_exact:
  "comparable i \<Longrightarrow> outcome_of matches i (Some r) = Unchanged \<longleftrightarrow> material (app t i r) = material r"
  using matches_exact [of i r t] by (simp add: outcome_of_def)

end

definition f64_norm :: "f64 \<Rightarrow> f64" where
  "f64_norm x = (if f64_abs_bits x = 0 then 0 else x)"

lemma f64_norm_eq: "\<not> f64_is_nan y \<Longrightarrow> f64_norm x = f64_norm y \<longleftrightarrow> f64_eq x y"
  by (auto simp: f64_norm_def f64_eq_def f64_is_nan_def f64_abs_bits_def)

definition sv_comparable :: "('a servable_video_input_scheme) \<Rightarrow> bool" where
  "sv_comparable i \<longleftrightarrow> (case sv_fps i of None \<Rightarrow> True | Some x \<Rightarrow> \<not> f64_is_nan x)"

definition sv_material :: "servable_video \<Rightarrow> servable_video_input" where
  "sv_material r = servable_video_input.truncate (r\<lparr>sv_fps := map_option f64_norm (sv_fps r)\<rparr>)"

lemma opt_eq_coalesce: "opt_eq_matches (=) b a \<longleftrightarrow> coalesce a b = b"
  by (auto simp: opt_eq_matches_def coalesce_def split: option.splits)

lemma source_ref_coalesce: "source_ref_matches b a \<longleftrightarrow> coalesce b a = b"
  by (auto simp: source_ref_matches_def coalesce_def split: option.splits)

lemma fps_coalesce:
  assumes "case a of None \<Rightarrow> True | Some x \<Rightarrow> \<not> f64_is_nan x"
  shows "opt_eq_matches f64_eq b a \<longleftrightarrow> map_option f64_norm (coalesce a b) = map_option f64_norm b"
proof (cases a)
  case None
  then show ?thesis by (simp add: opt_eq_matches_def)
next
  case (Some x)
  with assms have "\<not> f64_is_nan x" by simp
  then have "f64_norm x = f64_norm y \<longleftrightarrow> f64_eq y x" for y
    using f64_norm_eq [of x y] by auto
  with Some show ?thesis by (cases b) (auto simp: opt_eq_matches_def)
qed

lemma opt_eq_matches_same [simp]: "opt_eq_matches (=) x x"
    "opt_eq_matches (=) (coalesce x r) x"
  by (auto simp: opt_eq_matches_def coalesce_def split: option.splits)

lemma source_ref_matches_same [simp]: "source_ref_matches x x" "source_ref_matches (coalesce r x) x"
  by (auto simp: source_ref_matches_def coalesce_def split: option.splits)

lemma fps_matches_same: "sv_comparable i \<Longrightarrow> opt_eq_matches f64_eq (sv_fps i) (sv_fps i)"
    "sv_comparable i \<Longrightarrow> opt_eq_matches f64_eq (coalesce (sv_fps i) r) (sv_fps i)"
  by (auto simp: opt_eq_matches_def sv_comparable_def split: option.splits)

interpretation master_upsert: material_upsert
  sv_fresh sv_apply servable_video_material_matches sv_material sv_comparable
proof (unfold_locales, goal_cases)
  case (1 i t)
  then show ?case
    by (simp add: servable_video_material_matches_def sv_fresh_def servable_video_input.defs
        servable_video.defs fps_matches_same)
next
  case (2 i t r)
  then show ?case
    by (simp add: servable_video_material_matches_def sv_apply_def fps_matches_same)
next
  case (3 i r t)
  then have "opt_eq_matches f64_eq (sv_fps r) (sv_fps i) \<longleftrightarrow>
      map_option f64_norm (coalesce (sv_fps i) (sv_fps r)) = map_option f64_norm (sv_fps r)"
    by (intro fps_coalesce) (simp add: sv_comparable_def)
  then show ?case
    by (auto simp: servable_video_material_matches_def sv_apply_def sv_material_def
        opt_eq_coalesce source_ref_coalesce servable_video_input.defs)
qed

definition hr_material :: "hash_record \<Rightarrow> hash_record_input" where
  "hr_material r = hash_record_input.truncate r"

interpretation hash_upsert: material_upsert
  hr_fresh hr_apply hash_material_matches hr_material "\<lambda>_. True"
  by unfold_locales
     (auto simp: hash_material_matches_def hr_fresh_def hr_apply_def hr_material_def
        hash_record_input.defs hash_record.defs)

section \<open>What the upserts do\<close>

text \<open>The effect of each upsert on the database, as one function: the specification that the
  statement sequences implement.\<close>

definition new_source :: "servable_video_input \<Rightarrow> pgdb \<Rightarrow> bool" where
  "new_source i d \<longleftrightarrow> (case sv_source_ref i of None \<Rightarrow> False
     | Some ref \<Rightarrow> \<not> has_key source_key (sv_video_id i, sv_source_kind i, ref) (video_sources d))"

definition put_source :: "servable_video_input \<Rightarrow> pgdb \<Rightarrow> pgdb" where
  "put_source i d = (if new_source i d
     then d\<lparr>video_sources := video_sources d @ [\<lparr>src_video_id = sv_video_id i,
            src_source_kind = sv_source_kind i, src_source_ref = the (sv_source_ref i),
            src_raw_payload = None, src_imported_at = now_us d\<rparr>]\<rparr>
     else d)"

definition put_master :: "servable_video_input \<Rightarrow> pgdb \<Rightarrow> pgdb" where
  "put_master i d = (case row_of sv_video_id (sv_video_id i) (servable_videos d) of
       None \<Rightarrow> d\<lparr>servable_videos := servable_videos d @ [sv_fresh (now_us d) i]\<rparr>
     | Some r \<Rightarrow> if servable_video_material_matches r i then d
         else d\<lparr>servable_videos := update_where (\<lambda>r. sv_video_id r = sv_video_id i)
                (sv_apply (now_us d) i) (servable_videos d)\<rparr>)"

definition put_hash :: "hash_record_input \<Rightarrow> pgdb \<Rightarrow> pgdb" where
  "put_hash i d = (case row_of hash_key (hash_key i) (video_hashes d) of
       None \<Rightarrow> d\<lparr>video_hashes := video_hashes d @ [hr_fresh (now_us d) i]\<rparr>
     | Some r \<Rightarrow> if hash_material_matches r i then d
         else d\<lparr>video_hashes := update_where (\<lambda>r. hash_key r = hash_key i)
                (hr_apply (now_us d) i) (video_hashes d)\<rparr>)"

lemma sv_key_simps [simp]: "sv_video_id (sv_fresh t i) = sv_video_id i"
    "sv_video_id (sv_apply t i r) = sv_video_id r"
  by (simp_all add: sv_fresh_def sv_apply_def servable_video_input.defs servable_video.defs)

lemma hash_key_simps [simp]: "hash_key (hr_fresh t i) = hash_key i"
    "hash_key (hr_apply t i r) = hash_key r" "hr_video_id (hr_fresh t i) = hr_video_id i"
    "hr_video_id (hr_apply t i r) = hr_video_id r"
  by (simp_all add: hr_fresh_def hr_apply_def hash_key_def hash_record_input.defs hash_record.defs)

lemma insert_source_run:
  assumes "in_master (sv_video_id i) d"
  shows "insert_source_row i ([], d) = (Inr (new_source i d), [], put_source i d)"
  using assms
  by (simp add: insert_source_row_def new_source_def put_source_def run_stmt insert_new_def
      source_key_def Let_def split: option.split)

lemma put_source_frame [simp]: "servable_videos (put_source i d) = servable_videos d"
    "now_us (put_source i d) = now_us d"
  by (simp_all add: put_source_def)

lemma upsert_servable_run:
  "upsert_servable_video_txn i ([], d) =
     (Inr \<lparr>media = outcome_of servable_video_material_matches i
              (row_of sv_video_id (sv_video_id i) (servable_videos d)),
           source_inserted = new_source i d\<rparr>, [], put_master i (put_source i d))"
proof (cases "row_of sv_video_id (sv_video_id i) (servable_videos d)")
  case None
  let ?d1 = "d\<lparr>servable_videos := servable_videos d @ [sv_fresh (now_us d) i]\<rparr>"
  have nk: "\<not> has_key sv_video_id (sv_video_id i) (servable_videos d)"
    using None by (simp add: row_of_None_iff)
  have "in_master (sv_video_id i) ?d1" by (simp add: in_master_def has_key_code)
  then have src: "insert_source_row i ([], ?d1) = (Inr (new_source i ?d1), [], put_source i ?d1)"
    by (rule insert_source_run)
  have "new_source i ?d1 = new_source i d" by (simp add: new_source_def split: option.split)
  moreover have "put_source i ?d1 = put_master i (put_source i d)"
    using None by (simp add: put_source_def put_master_def new_source_def split: option.split)
  ultimately show ?thesis
    using None nk src
    by (simp add: upsert_servable_video_txn_def run_simps insert_new_def outcome_of_def)
next
  case (Some r)
  then have hk: "has_key sv_video_id (sv_video_id i) (servable_videos d)" by (metis has_key_row_of)
  then have "insert_source_row i ([], d) = (Inr (new_source i d), [], put_source i d)"
    by (intro insert_source_run) (simp add: in_master_def)
  with Some hk show ?thesis
    by (simp add: upsert_servable_video_txn_def run_simps insert_new_def outcome_of_def put_master_def)
qed

lemma put_master_row:
  "row_of sv_video_id k (servable_videos (put_master i d)) =
     (if k = sv_video_id i
      then Some (settle sv_fresh sv_apply servable_video_material_matches (now_us d) i
                  (row_of sv_video_id k (servable_videos d)))
      else row_of sv_video_id k (servable_videos d))"
proof (cases "row_of sv_video_id (sv_video_id i) (servable_videos d)")
  case None
  then show ?thesis by (auto simp: put_master_def settle_def row_of_snoc split: option.split)
next
  case (Some r)
  have u: "row_of sv_video_id k (update_where (\<lambda>r. sv_video_id r = sv_video_id i)
      (sv_apply (now_us d) i) (servable_videos d)) =
    map_option (\<lambda>r. if sv_video_id r = sv_video_id i then sv_apply (now_us d) i r else r)
      (row_of sv_video_id k (servable_videos d))"
    by (rule row_of_update) simp
  show ?thesis
    using Some u by (cases "row_of sv_video_id k (servable_videos d)")
      (auto simp: put_master_def settle_def dest: row_of_SomeD)
qed

lemma upsert_hash_run:
  assumes "in_master (hr_video_id i) d"
  shows "upsert_hash_record_txn i ([], d) =
     (Inr (outcome_of hash_material_matches i (row_of hash_key (hash_key i) (video_hashes d))), [],
      put_hash i d)"
proof (cases "row_of hash_key (hash_key i) (video_hashes d)")
  case None
  then have "\<not> has_key hash_key (hash_key i) (video_hashes d)" by (simp add: row_of_None_iff)
  with None assms show ?thesis
    by (simp add: upsert_hash_record_txn_def run_simps insert_new_def outcome_of_def put_hash_def)
next
  case (Some r)
  then have "has_key hash_key (hash_key i) (video_hashes d)" by (metis has_key_row_of)
  with Some show ?thesis
    by (simp add: upsert_hash_record_txn_def run_simps insert_new_def outcome_of_def put_hash_def)
qed

lemma put_hash_row:
  "row_of hash_key k (video_hashes (put_hash i d)) =
     (if k = hash_key i
      then Some (settle hr_fresh hr_apply hash_material_matches (now_us d) i
                  (row_of hash_key k (video_hashes d)))
      else row_of hash_key k (video_hashes d))"
proof (cases "row_of hash_key (hash_key i) (video_hashes d)")
  case None
  then show ?thesis by (auto simp: put_hash_def settle_def row_of_snoc split: option.split)
next
  case (Some r)
  have u: "row_of hash_key k (update_where (\<lambda>r. hash_key r = hash_key i)
      (hr_apply (now_us d) i) (video_hashes d)) =
    map_option (\<lambda>r. if hash_key r = hash_key i then hr_apply (now_us d) i r else r)
      (row_of hash_key k (video_hashes d))"
    by (rule row_of_update) simp
  show ?thesis
    using Some u by (cases "row_of hash_key k (video_hashes d)")
      (auto simp: put_hash_def settle_def dest: row_of_SomeD)
qed

lemma put_hash_frame [simp]:
  "servable_videos (put_hash i d) = servable_videos d" "now_us (put_hash i d) = now_us d"
  "job_failures (put_hash i d) = job_failures d" "job_runs (put_hash i d) = job_runs d"
  "feed_rows (put_hash i d) = feed_rows d" "feed_seq (put_hash i d) = feed_seq d"
  "append_locked (put_hash i d) = append_locked d"
  by (simp_all add: put_hash_def split: option.split)

lemma upsert_hash_ok:
  assumes "upsert_hash_record_txn i ([], d) = (Inr o1, q, d1)"
  shows "o1 = outcome_of hash_material_matches i (row_of hash_key (hash_key i) (video_hashes d)) \<and>
    d1 = put_hash i d"
proof (cases "row_of hash_key (hash_key i) (video_hashes d)")
  case None
  then have "\<not> has_key hash_key (hash_key i) (video_hashes d)" by (simp add: row_of_None_iff)
  with None assms show ?thesis
    by (auto simp: upsert_hash_record_txn_def run_simps insert_new_def outcome_of_def put_hash_def
        split: if_splits)
next
  case (Some r)
  then have "has_key hash_key (hash_key i) (video_hashes d)" by (metis has_key_row_of)
  with Some assms show ?thesis
    by (auto simp: upsert_hash_record_txn_def run_simps insert_new_def outcome_of_def put_hash_def
        split: if_splits)
qed

lemma honest_upsert_servable [honest_intros]: "honest (upsert_servable_video_txn i)"
  unfolding upsert_servable_video_txn_def insert_source_row_def by (intro honest_intros)

lemma honest_upsert_hash [honest_intros]: "honest (upsert_hash_record_txn i)"
  unfolding upsert_hash_record_txn_def by (intro honest_intros)

lemma put_hash_has: "has_key hash_key k (video_hashes (put_hash i d)) \<longleftrightarrow>
    k = hash_key i \<or> has_key hash_key k (video_hashes d)"
  using put_hash_row [of k i d] by (auto simp: has_key_row_of)

section \<open>Integrity\<close>

lemma in_master_insert_new:
  "in_master v d \<Longrightarrow> has_key sv_video_id v (snd (insert_new sv_video_id r (servable_videos d)))"
  by (simp add: in_master_def insert_new_def)

lemma safe_insert_source [safe_intros]: "safe (insert_source_row i)"
  unfolding insert_source_row_def
proof (intro safe_intros safe_stmt, goal_cases)
  case (1 ref d x d')
  then show ?case
    by (auto simp: db_ok_defs Let_def insert_new_def uniq_snoc split: if_splits)
qed

lemma db_ok_master_update:
  assumes "db_ok d" and "\<And>r. P r \<Longrightarrow> sv_video_id (f r) = sv_video_id r"
  shows "db_ok (d\<lparr>servable_videos := update_where P f (servable_videos d)\<rparr>)"
  using assms by (auto simp: db_ok_defs uniq_update_where)

lemma db_ok_hash_update:
  assumes "db_ok d" and "\<And>r. P r \<Longrightarrow> hash_key (f r) = hash_key r"
  shows "db_ok (d\<lparr>video_hashes := update_where P f (video_hashes d)\<rparr>)"
proof -
  have "hr_video_id (f r) = hr_video_id r" if "P r" for r
    using assms(2) [OF that] by (simp add: hash_key_def)
  with assms show ?thesis by (auto simp: db_ok_defs uniq_update_where set_update_where)
qed

lemma safe_upsert_servable [safe_intros]: "safe (upsert_servable_video_txn i)"
  unfolding upsert_servable_video_txn_def
proof (intro safe_intros safe_stmt safe_exec, goal_cases)
  case (1 d x d')
  then show ?case
    by (auto simp: db_ok_defs insert_new_def uniq_snoc split: if_splits)
next
  case (2 x y d z d')
  then show ?case by (auto split: option.splits)
qed (simp_all add: db_ok_master_update)

lemma safe_upsert_hash [safe_intros]: "safe (upsert_hash_record_txn i)"
  unfolding upsert_hash_record_txn_def
proof (intro safe_intros safe_stmt safe_exec, goal_cases)
  case (1 d x d')
  then show ?case
    by (auto simp: db_ok_defs insert_new_def uniq_snoc split: if_splits)
next
  case (2 x d z d')
  then show ?case by (auto split: option.splits)
qed (simp_all add: db_ok_hash_update)

lemma db_ok_run_update:
  assumes "db_ok d" and "\<And>r. P r \<Longrightarrow> jr_id (f r) = jr_id r"
  shows "db_ok (d\<lparr>job_runs := update_where P f (job_runs d)\<rparr>)"
  using assms by (auto simp: db_ok_defs uniq_update_where)

definition put_totals :: "string \<Rightarrow> json \<Rightarrow> pgdb \<Rightarrow> pgdb" where
  "put_totals run j d = d\<lparr>job_runs :=
     update_where (\<lambda>r. jr_id r = run) (\<lambda>r. r\<lparr>jr_totals := Some j\<rparr>) (job_runs d)\<rparr>"

lemma update_totals_run: "update_job_run_totals run j ([], d) = (Inr (), [], put_totals run j d)"
  by (simp add: update_job_run_totals_def run_exec put_totals_def)

lemma db_ok_put_totals [simp]: "db_ok d \<Longrightarrow> db_ok (put_totals run j d)"
  by (simp add: put_totals_def db_ok_run_update)

lemma safe_update_totals [safe_intros]: "safe (update_job_run_totals r t)"
  unfolding update_job_run_totals_def by (rule safe_exec) (simp_all add: db_ok_run_update)

section \<open>The scan\<close>

lemma beyond_past: "beyond a v = past a v"
  by (simp add: beyond_def past_def)

lemma filter_sort_key: "filter P (sort_key f xs) = sort_key f (filter P xs)"
  by (simp add: filter_sort)

lemma mh_to_missing [simp]: "mh_video_id (to_missing_row v) = sv_video_id v"
  by (simp add: to_missing_row_def)

lemma map_key_missing:
  "map mh_video_id (map to_missing_row xs) = map sv_video_id xs"
  by simp

lemma missing_rows_set:
  "r \<in> set (missing_rows hashtext kind ver imv a shard d) \<longleftrightarrow>
     (\<exists>v \<in> set (servable_videos d). r = to_missing_row v \<and> \<not> has_hash kind ver imv d (sv_video_id v) \<and>
        beyond a (sv_video_id v) \<and> in_shard hashtext shard (sv_video_id v) \<and>
        not_backing_off d (sv_video_id v))"
  by (auto simp: missing_rows_def)

lemma missing_rows_strict:
  assumes "uniq sv_video_id (servable_videos d)"
  shows "sorted_wrt (<) (map mh_video_id (missing_rows hashtext kind ver imv a shard d))"
  unfolding missing_rows_def map_key_missing
  by (rule sort_key_strict) (rule uniq_filter [OF assms])

lemma missing_rows_cut:
  assumes "past a k"
  shows "missing_rows hashtext kind ver imv (Some k) shard d =
    filter (\<lambda>r. k < mh_video_id r) (missing_rows hashtext kind ver imv a shard d)"
proof -
  have "k < v \<Longrightarrow> beyond a v" for v
    using assms by (cases a) (auto simp: past_def beyond_def)
  then show ?thesis
    unfolding missing_rows_def filter_map o_def mh_to_missing filter_sort_key filter_filter
    by (auto intro!: arg_cong [where f = "map _"] arg_cong [where f = "sort_key _"]
        filter_cong simp: beyond_def)
qed

interpretation missing_scan: paged_scan
  "\<lambda>d a n. limit_rows (int n) (missing_rows hashtext kind ver imv a shard d)" mh_video_id
  "\<lambda>d a. missing_rows hashtext kind ver imv a shard d" "\<lambda>d. uniq sv_video_id (servable_videos d)"
  for hashtext kind ver imv shard
proof (unfold_locales, goal_cases)
  case (1 s a n)
  then show ?case by (simp add: limit_rows_def)
next
  case (2 s a)
  then show ?case by (rule missing_rows_strict)
next
  case (3 r s a)
  then show ?case by (auto simp: missing_rows_set beyond_past)
next
  case (4 a k s)
  then show ?case by (rule missing_rows_cut)
qed

end
