(* ===== verification/Media_Repo_Props.thy ===== *)
theory Media_Repo_Props
  imports Media_Repo
begin

text \<open>
  The properties of the media index repository (theory Media_Repo): what the upserts report and
  store, what no fault can make them lose, and the scan, its gate, its shards and the coverage
  counts.
\<close>

section \<open>Upserts\<close>

lemma put_master_frame [simp]: "video_sources (put_master i d) = video_sources d"
    "now_us (put_master i d) = now_us d"
  by (simp_all add: put_master_def split: option.split)

lemma put_source_done: "\<not> new_source i (put_source i d)"
  by (auto simp: put_source_def new_source_def source_key_def has_key_code split: option.splits)

lemma put_source_old: "\<not> new_source i d \<Longrightarrow> put_source i d = d"
  by (simp add: put_source_def)

lemma put_master_matching:
  "row_of sv_video_id (sv_video_id i) (servable_videos d) = Some r \<Longrightarrow>
   servable_video_material_matches r i \<Longrightarrow> put_master i d = d"
  by (simp add: put_master_def)

text \<open>Registering a video is idempotent: after an upsert of an input without NaN, the same
  upsert at any later time reports \<open>Unchanged\<close> with no new source row and leaves the whole
  database as it is.\<close>

lemma upsert_servable_idempotent:
  assumes i: "sv_comparable i"
    and first: "upsert_servable_video_txn i ([], d) = (Inr o1, [], d1)"
  shows "upsert_servable_video_txn i ([], d1\<lparr>now_us := t\<rparr>) =
    (Inr \<lparr>media = Unchanged, source_inserted = False\<rparr>, [], d1\<lparr>now_us := t\<rparr>)"
proof -
  let ?d2 = "d1\<lparr>now_us := t\<rparr>"
  have d1: "d1 = put_master i (put_source i d)" using first by (simp add: upsert_servable_run)
  let ?ro = "row_of sv_video_id (sv_video_id i) (servable_videos d)"
  let ?r = "settle sv_fresh sv_apply servable_video_material_matches (now_us d) i ?ro"
  have row: "row_of sv_video_id (sv_video_id i) (servable_videos ?d2) = Some ?r"
    by (simp add: d1 put_master_row)
  have match: "servable_video_material_matches ?r i"
    using i by (rule master_upsert.settle_matches)
  have "new_source i ?d2 = new_source i (put_source i d)"
    by (simp add: d1 new_source_def split: option.split)
  then have old: "\<not> new_source i ?d2" by (simp add: put_source_done)
  show ?thesis
    using row match old put_source_old [OF old] put_master_matching [OF row match]
    by (simp add: upsert_servable_run outcome_of_def)
qed

definition sample_video :: servable_video_input where
  "sample_video = \<lparr>sv_video_id = ''u/a'', sv_publisher_user_id = None, sv_post_id = None,
     sv_source_kind = ''videogen'', sv_source_ref = Some ''u/a'', sv_servable_status = ''servable'',
     sv_nsfw_state = None, sv_storage_provider = Some ''storj'', sv_bucket = Some ''yral-sfw'',
     sv_object_key = Some ''u/a.mp4'', sv_canonical_url = None, sv_thumbnail_key = None,
     sv_duration_ms = None, sv_width = None, sv_height = None, sv_fps = Some 0,
     sv_container = None, sv_video_codec = None, sv_audio_codec = None, sv_moov_atom_front = None,
     sv_canonical_encoding_version = None, sv_discovered_from = ''videogen_completion''\<rparr>"

lemma sample_comparable: "sv_comparable sample_video"
  by (simp add: sample_video_def sv_comparable_def f64_is_nan_def f64_abs_bits_def)

lemma upsert_servable_idempotent_witness:
  "\<exists>d1. upsert_servable_video_txn sample_video ([], empty_db 5) =
      (Inr \<lparr>media = Inserted, source_inserted = True\<rparr>, [], d1) \<and>
    upsert_servable_video_txn sample_video ([], d1\<lparr>now_us := 9\<rparr>) =
      (Inr \<lparr>media = Unchanged, source_inserted = False\<rparr>, [], d1\<lparr>now_us := 9\<rparr>)"
proof -
  have "upsert_servable_video_txn sample_video ([], empty_db 5) =
      (Inr \<lparr>media = Inserted, source_inserted = True\<rparr>, [],
       put_master sample_video (put_source sample_video (empty_db 5)))"
    by (simp add: upsert_servable_run outcome_of_def new_source_def empty_db_def row_of_def
        sample_video_def has_key_code)
  from this upsert_servable_idempotent [OF sample_comparable this] show ?thesis by blast
qed

text \<open>The outcome an upsert reports is exact: \<open>Inserted\<close> just when the video was not in the
  master table, \<open>Unchanged\<close> just when the update would have left every material column as it is,
  \<open>Changed\<close> otherwise. (The feed events of the callers hang on this value.)\<close>

lemma upsert_servable_outcome_exact:
  assumes "sv_comparable i"
  shows "\<exists>o1 d1. upsert_servable_video_txn i ([], d) = (Inr o1, [], d1) \<and>
    (media o1 = Inserted \<longleftrightarrow> \<not> in_master (sv_video_id i) d) \<and>
    (media o1 = Unchanged \<longleftrightarrow> (\<exists>r. row_of sv_video_id (sv_video_id i) (servable_videos d) = Some r \<and>
        sv_material (sv_apply (now_us d) i r) = sv_material r))"
proof (cases "row_of sv_video_id (sv_video_id i) (servable_videos d)")
  case None
  then show ?thesis
    by (simp add: upsert_servable_run outcome_of_def in_master_def row_of_None_iff [symmetric])
next
  case (Some r)
  then have "in_master (sv_video_id i) d" by (auto simp: in_master_def has_key_row_of)
  with Some master_upsert.unchanged_exact [OF assms, of r "now_us d"] show ?thesis
    by (simp add: upsert_servable_run) (simp add: outcome_of_def)
qed

text \<open>What an update may do to a row: optional columns are filled or replaced, never cleared; the
  first source reference and the first-seen time stay.\<close>

definition fills :: "'a option \<Rightarrow> 'a option \<Rightarrow> bool" where
  "fills a b \<longleftrightarrow> (a \<noteq> None \<longrightarrow> b \<noteq> None)"

definition sv_extends :: "servable_video \<Rightarrow> servable_video \<Rightarrow> bool" where
  "sv_extends r s \<longleftrightarrow>
     fills (sv_publisher_user_id r) (sv_publisher_user_id s) \<and> fills (sv_post_id r) (sv_post_id s) \<and>
     fills (sv_nsfw_state r) (sv_nsfw_state s) \<and>
     fills (sv_storage_provider r) (sv_storage_provider s) \<and> fills (sv_bucket r) (sv_bucket s) \<and>
     fills (sv_object_key r) (sv_object_key s) \<and> fills (sv_canonical_url r) (sv_canonical_url s) \<and>
     fills (sv_thumbnail_key r) (sv_thumbnail_key s) \<and> fills (sv_duration_ms r) (sv_duration_ms s) \<and>
     fills (sv_width r) (sv_width s) \<and> fills (sv_height r) (sv_height s) \<and>
     fills (sv_fps r) (sv_fps s) \<and> fills (sv_container r) (sv_container s) \<and>
     fills (sv_video_codec r) (sv_video_codec s) \<and> fills (sv_audio_codec r) (sv_audio_codec s) \<and>
     fills (sv_moov_atom_front r) (sv_moov_atom_front s) \<and>
     fills (sv_canonical_encoding_version r) (sv_canonical_encoding_version s) \<and>
     (sv_source_ref r \<noteq> None \<longrightarrow> sv_source_ref s = sv_source_ref r) \<and>
     sv_first_seen_at s = sv_first_seen_at r"

lemma fills_simps [simp]: "fills a a" "fills a (coalesce b a)"
  by (auto simp: fills_def coalesce_def split: option.split)

lemma fills_trans: "fills a b \<Longrightarrow> fills b c \<Longrightarrow> fills a c"
  by (simp add: fills_def)

lemma coalesce_known: "a \<noteq> None \<Longrightarrow> coalesce a b = a"
  by auto

lemma sv_extends_refl [simp]: "sv_extends r r"
  by (simp add: sv_extends_def)

lemma sv_extends_trans: "sv_extends r s \<Longrightarrow> sv_extends s u \<Longrightarrow> sv_extends r u"
  unfolding sv_extends_def by (elim conjE, intro conjI) (auto intro: fills_trans)

lemma sv_extends_apply [simp]: "sv_extends r (sv_apply t i r)"
  by (simp add: sv_extends_def sv_apply_def coalesce_known)

definition keeps_row :: "string \<Rightarrow> servable_video \<Rightarrow> pgdb \<Rightarrow> bool" where
  "keeps_row k r d \<longleftrightarrow> (\<exists>s. row_of sv_video_id k (servable_videos d) = Some s \<and> sv_extends r s)"

lemma keeps_row_update:
  assumes "keeps_row k r d"
  shows "keeps_row k r (d\<lparr>servable_videos :=
    update_where (\<lambda>r. sv_video_id r = v) (sv_apply t i) (servable_videos d)\<rparr>)"
proof -
  obtain s where s: "row_of sv_video_id k (servable_videos d) = Some s" "sv_extends r s"
    using assms by (auto simp: keeps_row_def)
  have "row_of sv_video_id k (update_where (\<lambda>r. sv_video_id r = v) (sv_apply t i) (servable_videos d))
      = Some (if sv_video_id s = v then sv_apply t i s else s)"
    using s(1) by (subst row_of_update) simp_all
  moreover have "sv_extends r (if sv_video_id s = v then sv_apply t i s else s)"
    using s(2) sv_extends_trans [OF s(2) sv_extends_apply] by simp
  ultimately show ?thesis by (simp add: keeps_row_def)
qed

lemma keeps_row_frame: "servable_videos d' = servable_videos d \<Longrightarrow> keeps_row k r d' = keeps_row k r d"
  by (simp add: keeps_row_def)

lemma keeps_row_upsert: "preserves (keeps_row k r) (upsert_servable_video_txn i)"
  unfolding upsert_servable_video_txn_def
proof (intro pres pres_stmt, goal_cases)
  case (1 d x d')
  then show ?case
    by (auto simp: keeps_row_def insert_new_def row_of_snoc split: if_splits)
next
  case (2 x)
  show ?case
    unfolding insert_source_row_def
    by (cases "sv_source_ref i")
       (auto intro!: pres pres_stmt simp: keeps_row_def Let_def insert_new_def split: if_splits)
next
  case (3 x y)
  show ?case
    by (cases x)
       (auto intro!: pres pres_stmt pres_exec keeps_row_update split: option.splits)
qed

text \<open>C1. No upsert forgets: under every pattern of failing statements, a video that was in the
  master table still is, no optional column that was known is cleared, and its first source
  reference and first-seen time are what they were.\<close>

theorem upsert_servable_keeps_known:
  assumes "row_of sv_video_id k (servable_videos d) = Some r"
  shows "\<exists>s. row_of sv_video_id k (servable_videos (db_after (upsert_servable_video_txn i) (p, d))) = Some s
    \<and> sv_extends r s"
proof -
  have "keeps_row k r d" using assms by (simp add: keeps_row_def)
  from preservesD [OF keeps_row_upsert this] show ?thesis by (simp add: keeps_row_def)
qed

theorem upsert_servable_keeps_known_witness:
  "\<exists>s. row_of sv_video_id ''u/a'' (servable_videos (db_after (upsert_servable_video_txn sample_video)
      ([None, Some (PgError ''lost'')], (empty_db 5)\<lparr>servable_videos := [sv_fresh 1 sample_video]\<rparr>))) = Some s
    \<and> sv_extends (sv_fresh 1 sample_video) s"
  by (rule upsert_servable_keeps_known) (simp add: row_of_def, simp add: sample_video_def)

text \<open>Integrity: from a database that satisfies its keys, foreign keys and sequence bounds,
  the upserts of a video and of a hash leave one that does, whichever statements fail; a hash of a
  video that is not in the master table is refused.\<close>

lemma upserts_keep_integrity:
  assumes "db_ok d"
  shows "db_ok (db_after (upsert_servable_video_txn i) (p, d)) \<and>
    db_ok (db_after (upsert_hash_record_txn h) (p, d)) \<and>
    (\<not> in_master (hr_video_id h) d \<longrightarrow> upsert_hash_record_txn h ([], d) = (Inl fk_error, [], d))"
proof (intro conjI impI)
  show "db_ok (db_after (upsert_servable_video_txn i) (p, d))"
    by (rule safe_db_after [OF safe_upsert_servable assms])
  show "db_ok (db_after (upsert_hash_record_txn h) (p, d))"
    by (rule safe_db_after [OF safe_upsert_hash assms])
  assume no: "\<not> in_master (hr_video_id h) d"
  then have "\<not> has_key hash_key (hash_key h) (video_hashes d)"
    using assms by (force simp: db_ok_defs has_key_def hash_key_def)
  with no show "upsert_hash_record_txn h ([], d) = (Inl fk_error, [], d)"
    by (simp add: upsert_hash_record_txn_def run_simps insert_new_def)
qed

definition sample_hash :: hash_record_input where
  "sample_hash = \<lparr>hr_video_id = ''u/a'', hr_hash_kind = ''phash'',
     hr_hash_version = ''offchain_binary_10x8_v1'', hr_input_media_version = ''current_stored_object_v1'',
     hr_hash_value = ''0101'', hr_hash_bit_length = 4, hr_num_frames = 10, hr_hash_size = 8,
     hr_computed_from_provider = None, hr_computed_from_bucket = None, hr_computed_from_key = None,
     hr_metadata = None\<rparr>"

lemma upserts_keep_integrity_witness:
  "db_ok (db_after (upsert_servable_video_txn sample_video) ([None], empty_db 5)) \<and>
   db_ok (db_after (upsert_hash_record_txn sample_hash) ([None], empty_db 5)) \<and>
   upsert_hash_record_txn sample_hash ([], empty_db 5) = (Inl fk_error, [], empty_db 5)"
  using upserts_keep_integrity [OF db_ok_empty, of sample_video "[None]" 5 sample_hash]
  by (simp add: in_master_def empty_db_def has_key_code)

section \<open>Selection, gate, shards\<close>

text \<open>The gate and the selection cannot diverge: the sweep's eligibility check says yes just
  when the unrestricted drain selection returns a row.\<close>

lemma eligibility_gate_agrees:
  "any_eligible_for_hash kind ver imv ([], d) =
     (Inr (missing_rows hashtext kind ver imv None None d \<noteq> []), [], d)"
proof -
  have "eligible_exists kind ver imv d \<longleftrightarrow> (\<exists>r. r \<in> set (missing_rows hashtext kind ver imv None None d))"
    by (auto simp: eligible_exists_def missing_rows_set beyond_def in_shard_def)
  then show ?thesis
    by (simp add: any_eligible_for_hash_def run_query ex_in_conv)
qed

lemma pg_mod_norm: "0 < n \<Longrightarrow> pg_mod (pg_mod h n + n) n = h mod n"
proof -
  assume n: "0 < n"
  have r: "pg_mod h n = (if 0 \<le> h then h mod n else - ((- h) mod n))"
    using n by (auto simp: pg_mod_def sgn_if abs_if)
  have "0 \<le> h mod n" and "(- h) mod n < n" using n by simp_all
  with n have lo: "0 < pg_mod h n + n"
    unfolding r by (split if_split) (intro conjI impI; linarith)
  have "pg_mod (pg_mod h n + n) n = (pg_mod h n + n) mod n"
    using n lo by (simp add: pg_mod_def)
  also have "\<dots> = h mod n" by (simp add: r mod_minus_eq)
  finally show ?thesis .
qed

lemma in_shard_some: "0 < n \<Longrightarrow> in_shard hashtext (Some (n, i)) v \<longleftrightarrow> hashtext v mod n = i"
  by (simp add: in_shard_def pg_mod_norm)

lemma missing_rows_shard:
  "0 < n \<Longrightarrow> r \<in> set (missing_rows hashtext kind ver imv a (Some (n, i)) d) \<longleftrightarrow>
     r \<in> set (missing_rows hashtext kind ver imv a None d) \<and> hashtext (mh_video_id r) mod n = i"
  by (auto simp: missing_rows_set in_shard_some) (auto simp: in_shard_def)

text \<open>Sharding partitions the work: for every shard count \<open>n\<close> and every hash function, also one
  with negative values, each missing video is selected by exactly one of the shards
  \<open>0 .. n - 1\<close>, and the shards select nothing else.\<close>

lemma shards_partition:
  assumes "0 < n"
  shows "r \<in> set (missing_rows hashtext kind ver imv a None d) \<longleftrightarrow>
    (\<exists>!i. i \<in> {0..<n} \<and> r \<in> set (missing_rows hashtext kind ver imv a (Some (n, i)) d))"
  unfolding missing_rows_shard [OF assms] using assms by auto

interpretation missing_pages: paged_job
  "\<lambda>d a n. limit_rows (int n) (missing_rows hashtext kind ver imv a shard d)" mh_video_id
  "\<lambda>d a. missing_rows hashtext kind ver imv a shard d" "\<lambda>d. uniq sv_video_id (servable_videos d)"
  "\<lambda>_ d. d" for hashtext kind ver imv shard
  by unfold_locales auto

text \<open>Paging covers the scan: reading pages of any positive size behind the cursor of the last
  row ends, and returns every missing video exactly once in increasing order, for every shard.\<close>

lemma missing_scan_pages:
  assumes "0 < n" and "uniq sv_video_id (servable_videos d)" and "length (servable_videos d) < fuel"
  shows "walk (\<lambda>d a n. limit_rows (int n) (missing_rows hashtext kind ver imv a shard d)) mh_video_id
      (\<lambda>_ d. d) n fuel None d = Some (missing_rows hashtext kind ver imv None shard d, d)"
proof -
  have idw: "walk page key (\<lambda>_ d. d) n fuel a d = Some (vs, t) \<Longrightarrow> t = d" for page key a vs t
    by (induction fuel arbitrary: a vs) (auto simp: Let_def split: if_splits option.splits)
  have "length (missing_rows hashtext kind ver imv None shard d) \<le> length (servable_videos d)"
    by (simp add: missing_rows_def)
  with assms(3) have "length (missing_rows hashtext kind ver imv None shard d) < fuel" by simp
  from missing_pages.walk_complete [OF assms(1,2) this] idw show ?thesis by blast
qed

lemma missing_scan_pages_witness:
  "walk (\<lambda>d a n. limit_rows (int n) (missing_rows (\<lambda>_. 0) ''phash'' ''v'' ''i'' a None d)) mh_video_id
      (\<lambda>_ d. d) 1 2 None ((empty_db 5)\<lparr>servable_videos := [sv_fresh 1 sample_video]\<rparr>) =
   Some ([to_missing_row (sv_fresh 1 sample_video)],
      (empty_db 5)\<lparr>servable_videos := [sv_fresh 1 sample_video]\<rparr>)"
proof -
  let ?d = "(empty_db 5)\<lparr>servable_videos := [sv_fresh 1 sample_video]\<rparr>"
  have "missing_rows (\<lambda>_. 0) ''phash'' ''v'' ''i'' None None ?d = [to_missing_row (sv_fresh 1 sample_video)]"
    by (simp add: missing_rows_def has_hash_def empty_db_def has_key_code beyond_def in_shard_def
        not_backing_off_def)
  with missing_scan_pages [of 1 ?d 2 "\<lambda>_. 0" "''phash''" "''v''" "''i''" None]
  show ?thesis by (simp add: uniq_def)
qed

section \<open>Coverage and samples\<close>

lemma hash_filter_short:
  assumes "uniq hash_key (video_hashes d)"
  shows "filter (\<lambda>h. hr_video_id h = v \<and> hr_hash_kind h = kind \<and> hr_hash_version h = ver \<and>
       hr_input_media_version h = imv) (video_hashes d) =
     (case row_of hash_key (v, kind, ver, imv) (video_hashes d) of None \<Rightarrow> [] | Some h \<Rightarrow> [h])"
proof -
  have P: "(hr_video_id h = v \<and> hr_hash_kind h = kind \<and> hr_hash_version h = ver \<and>
       hr_input_media_version h = imv) \<longleftrightarrow> hash_key h = (v, kind, ver, imv)" for h
    by (simp add: hash_key_def)
  have "filter (\<lambda>h. hash_key h = k) rows = (case row_of hash_key k rows of None \<Rightarrow> [] | Some h \<Rightarrow> [h])"
    if "uniq hash_key rows" for k and rows :: "hash_record list"
    using that
  proof (induction rows)
    case Nil
    then show ?case by (simp add: row_of_def)
  next
    case (Cons a rows)
    then have IH: "filter (\<lambda>h. hash_key h = k) rows =
        (case row_of hash_key k rows of None \<Rightarrow> [] | Some h \<Rightarrow> [h])"
      and "\<not> has_key hash_key (hash_key a) rows" by (auto simp: uniq_def has_key_def)
    then have "row_of hash_key (hash_key a) rows = None" by (simp add: row_of_None_iff)
    with IH show ?case by (auto simp: row_of_def)
  qed
  then show ?thesis using assms unfolding P by blast
qed

lemma left_join_unique:
  assumes "uniq hash_key (video_hashes d)"
  shows "left_join_hash kind ver imv d = map (\<lambda>v. (v, row_of hash_key (sv_video_id v, kind, ver, imv)
     (video_hashes d))) (servable_videos d)"
proof -
  have one: "(case (case x of None \<Rightarrow> [] | Some h \<Rightarrow> [h]) of [] \<Rightarrow> [(v, None)]
      | h # hs \<Rightarrow> map (\<lambda>h. (v, Some h)) (h # hs)) = [(v, x)]" for v :: servable_video and x :: "hash_record option"
    by (cases x) simp_all
  show ?thesis
    unfolding left_join_hash_def hash_filter_short [OF assms] one by (rule concat_map_singleton)
qed

text \<open>The coverage counts are the counts of videos: in a sound database the join does not
  duplicate rows, the total is the number of videos, the two parts are the numbers of videos with
  and without the canonical hash, and they add up.\<close>

lemma coverage_counts_videos:
  assumes "db_ok d"
  shows "\<exists>c. canonical_phash_coverage ([], d) = (Inr c, [], d) \<and>
    total_servable c = int (length (servable_videos d)) \<and>
    with_canonical_phash c = count_where (\<lambda>v. has_hash ''phash'' ''offchain_binary_10x8_v1''
        ''current_stored_object_v1'' d (sv_video_id v)) (servable_videos d) \<and>
    missing_canonical_phash c = count_where (\<lambda>v. \<not> has_hash ''phash'' ''offchain_binary_10x8_v1''
        ''current_stored_object_v1'' d (sv_video_id v)) (servable_videos d) \<and>
    total_servable c = with_canonical_phash c + missing_canonical_phash c"
proof -
  let ?k = "\<lambda>v. (sv_video_id v, ''phash'', ''offchain_binary_10x8_v1'', ''current_stored_object_v1'')"
  let ?h = "\<lambda>v. has_hash ''phash'' ''offchain_binary_10x8_v1'' ''current_stored_object_v1'' d (sv_video_id v)"
  have j: "left_join_hash ''phash'' ''offchain_binary_10x8_v1'' ''current_stored_object_v1'' d =
      map (\<lambda>v. (v, row_of hash_key (?k v) (video_hashes d))) (servable_videos d)"
    using assms by (intro left_join_unique) (simp add: db_ok_defs)
  have w: "count_where (\<lambda>(v, h). h \<noteq> None) (map (\<lambda>v. (v, row_of hash_key (?k v) (video_hashes d)))
      (servable_videos d)) = count_where ?h (servable_videos d)"
    by (simp add: count_where_def filter_map o_def has_hash_def has_key_row_of)
  have t: "int (length (servable_videos d)) =
      count_where ?h (servable_videos d) + count_where (\<lambda>v. \<not> ?h v) (servable_videos d)"
    using sum_length_filter_compl [of ?h "servable_videos d"] unfolding count_where_def by linarith
  show ?thesis
    unfolding canonical_phash_coverage_def run_query j Let_def w
    by (rule exI, rule conjI, rule refl) (use t in simp)
qed

lemma first_occurrences_snoc:
  "rev (remdups (rev (xs @ [x]))) = (if x \<in> set xs then rev (remdups (rev xs)) else rev (remdups (rev xs)) @ [x])"
  by simp

lemma first_occurrences_prefix: "\<exists>zs. rev (remdups (rev (xs @ ys))) = rev (remdups (rev xs)) @ zs"
proof (induction ys rule: rev_induct)
  case Nil
  then show ?case by simp
next
  case (snoc y ys)
  then obtain zs where "rev (remdups (rev (xs @ ys))) = rev (remdups (rev xs)) @ zs" by blast
  then show ?case using first_occurrences_snoc [of "xs @ ys" y] by auto
qed

lemma distinct_first_occurrences: "distinct acc \<Longrightarrow> rev (remdups (rev acc)) = acc"
  by (simp add: distinct_remdups_id)

lemma collect_samples_acc:
  "distinct acc \<Longrightarrow> length acc < 5 \<Longrightarrow>
   collect_samples ss acc = take 5 (rev (remdups (rev (acc @ ss))))"
proof (induction ss arbitrary: acc)
  case Nil
  then show ?case by (simp add: distinct_first_occurrences)
next
  case (Cons s ss)
  let ?acc = "if s \<in> set acc then acc else acc @ [s]"
  have d: "distinct ?acc" using Cons.prems by simp
  have eqs: "rev (remdups (rev ((acc @ [s]) @ zs))) = rev (remdups (rev (?acc @ zs)))" for zs
  proof (induction zs rule: rev_induct)
    case Nil
    show ?case unfolding append_Nil2 first_occurrences_snoc by simp
  next
    case (snoc z zs)
    then show ?case
      unfolding append_assoc [symmetric, of _ zs] first_occurrences_snoc by auto
  qed
  have same: "rev (remdups (rev (acc @ s # ss))) = rev (remdups (rev (?acc @ ss)))"
    using eqs [of ss] by (simp only: append_assoc append_Cons append_Nil)
  show ?case
  proof (cases "length ?acc = 5")
    case True
    obtain zs where "rev (remdups (rev (?acc @ ss))) = ?acc @ zs"
      using first_occurrences_prefix [of ?acc ss] distinct_first_occurrences [OF d] by auto
    with True have "take 5 (rev (remdups (rev (acc @ s # ss)))) = ?acc"
      unfolding same by simp
    with True show ?thesis by (simp only: collect_samples.simps Let_def simp_thms if_True)
  next
    case False
    with Cons.prems have "length ?acc < 5" by (auto split: if_splits)
    from Cons.IH [OF d this] False show ?thesis
      unfolding same by (simp only: collect_samples.simps Let_def if_False)
  qed
qed

text \<open>The failure samples are what the endpoint documents: the first five distinct error
  texts of the rows read, in reading order; the early exit of the loop loses nothing.\<close>

lemma failure_samples_first_five:
  "collect_samples ss [] = take 5 (rev (remdups (rev ss)))"
  by (simp add: collect_samples_acc)

end
