(* ===== verification/Feed.thy ===== *)
theory Feed
  imports Media_Repo
begin

text \<open>
  The media feed (\<open>media_index/feed.rs\<close>, and the trigger and the table in
  \<open>media_index/schema.rs\<close>): appending an event under the advisory lock, and reading pages behind
  a cursor. The second half runs any number of appending transactions, their commits and
  rollbacks and a polling reader against one database; the advisory lock is what makes polling
  by cursor complete although a \<open>BIGSERIAL\<close> is allocated before the commit.
\<close>

datatype feed_read_error =
    FeedPostgres pg_error
  | UnknownEventKind string
  | InvalidLimit int int

definition max_feed_read_limit :: int where
  "max_feed_read_limit = 500"

definition trigger_error :: pg_error where
  "trigger_error = PgError ''media_feed_events inserts must use append_feed_event_txn''"

section \<open>Operations\<close>

definition feed_row_of :: "int \<Rightarrow> int \<Rightarrow> feed_event_input \<Rightarrow> feed_row" where
  "feed_row_of c t i = \<lparr>fr_cursor = c, fr_event_kind = kind_as_str (fi_event_kind i),
     fr_video_id = fi_video_id i, fr_hash_kind = fi_hash_kind i, fr_hash_version = fi_hash_version i,
     fr_input_media_version = fi_input_media_version i, fr_payload = fi_payload i,
     fr_created_at = t\<rparr>"

text \<open>The \<open>INSERT\<close> with the table's trigger and foreign key.\<close>

definition insert_feed_row :: "feed_event_input \<Rightarrow> int pg" where
  "insert_feed_row i = stmt (\<lambda>d.
     if \<not> append_locked d then Inl trigger_error
     else if \<not> in_master (fi_video_id i) d then Inl fk_error
     else Inr (feed_seq d, d\<lparr>feed_rows := feed_rows d @ [feed_row_of (feed_seq d) (now_us d) i],
                             feed_seq := feed_seq d + 1\<rparr>))"

text \<open>The statements of the append, in their order. A session that is alone always gets the advisory lock of its
  transaction, and sees no more of it; what the lock does to the others is in the machine below, which runs the same
  statements.\<close>

definition MEDIA_FEED_EVENT_APPEND_LOCK :: int where
  "MEDIA_FEED_EVENT_APPEND_LOCK = 904648332137142901"

datatype feed_stmt = AdvisoryXactLock int | SetAppendLocked | InsertEvent feed_event_input

definition append_program :: "feed_event_input \<Rightarrow> feed_stmt list" where
  "append_program i = [AdvisoryXactLock MEDIA_FEED_EVENT_APPEND_LOCK, SetAppendLocked, InsertEvent i]"

fun feed_stmt_run :: "feed_stmt \<Rightarrow> int option pg" where
  "feed_stmt_run (AdvisoryXactLock k) = bnd (exec id) (\<lambda>_. ret None)"
| "feed_stmt_run SetAppendLocked = bnd (exec (\<lambda>d. d\<lparr>append_locked := True\<rparr>)) (\<lambda>_. ret None)"
| "feed_stmt_run (InsertEvent i) = bnd (insert_feed_row i) (\<lambda>c. ret (Some c))"

fun run_program :: "feed_stmt list \<Rightarrow> int option \<Rightarrow> int option pg" where
  "run_program [] c = ret c"
| "run_program (s # ss) c = bnd (feed_stmt_run s) (run_program ss)"

definition append_feed_event_txn :: "feed_event_input \<Rightarrow> int pg" where
  "append_feed_event_txn i = bnd (run_program (append_program i) None) (\<lambda>c. case c of
       None \<Rightarrow> raise (PgError ''query returned an unexpected number of rows'') | Some n \<Rightarrow> ret n)"

definition feed_event_of :: "feed_row \<Rightarrow> feed_read_error + feed_event" where
  "feed_event_of r = (case kind_from_str (fr_event_kind r) of
       Inl v \<Rightarrow> Inl (UnknownEventKind v)
     | Inr k \<Rightarrow> Inr \<lparr>fe_cursor = fr_cursor r, fe_event_kind = k, fe_video_id = fr_video_id r,
         fe_hash_kind = fr_hash_kind r, fe_hash_version = fr_hash_version r,
         fe_input_media_version = fr_input_media_version r, fe_payload = fr_payload r,
         fe_created_at = fr_created_at r\<rparr>)"

fun feed_events_of :: "feed_row list \<Rightarrow> feed_read_error + feed_event list" where
  "feed_events_of [] = Inr []"
| "feed_events_of (r # rs) = (case feed_event_of r of
       Inl e \<Rightarrow> Inl e
     | Inr x \<Rightarrow> (case feed_events_of rs of Inl e \<Rightarrow> Inl e | Inr xs \<Rightarrow> Inr (x # xs)))"

definition rows_after :: "int \<Rightarrow> pgdb \<Rightarrow> feed_row list" where
  "rows_after c d = sort_key fr_cursor (filter (\<lambda>r. c < fr_cursor r) (feed_rows d))"

definition list_feed_events_after :: "int \<Rightarrow> int \<Rightarrow> (pgdb, feed_read_error, feed_event list) proc" where
  "list_feed_events_after after limit =
     (if \<not> (1 \<le> limit \<and> limit \<le> max_feed_read_limit) then raise (InvalidLimit limit max_feed_read_limit)
      else bnd (map_err FeedPostgres (query (\<lambda>d. limit_rows limit (rows_after after d))))
             (\<lambda>rows. case feed_events_of rows of Inl e \<Rightarrow> raise e | Inr es \<Rightarrow> ret es))"

section \<open>Appending\<close>

lemma append_code: "append_feed_event_txn i =
    bnd (exec id) (\<lambda>_. bnd (exec (\<lambda>d. d\<lparr>append_locked := True\<rparr>)) (\<lambda>_. insert_feed_row i))"
  by (intro ext) (simp add: append_feed_event_txn_def append_program_def bnd_def ret_def split: prod.split sum.split)

lemma safe_append [safe_intros]: "safe (append_feed_event_txn i)"
  unfolding append_code insert_feed_row_def
proof (intro safe_intros safe_exec safe_stmt, goal_cases)
  case (7 x y d v d')
  then show ?case
    by (fastforce simp: db_ok_defs uniq_snoc has_key_def feed_row_of_def split: if_splits)
qed (simp_all add: db_ok_defs)

lemma rows_after_set: "r \<in> set (rows_after c d) \<longleftrightarrow> r \<in> set (feed_rows d) \<and> c < fr_cursor r"
  by (auto simp: rows_after_def)

definition announce :: "feed_event_input \<Rightarrow> pgdb \<Rightarrow> pgdb" where
  "announce i d = d\<lparr>append_locked := True, feed_rows := feed_rows d @
     [feed_row_of (feed_seq d) (now_us d) i], feed_seq := feed_seq d + 1\<rparr>"

lemma append_run:
  "in_master (fi_video_id i) d \<Longrightarrow> append_feed_event_txn i ([], d) = (Inr (feed_seq d), [], announce i d)"
  by (simp add: append_code insert_feed_row_def run_simps announce_def in_master_def)

lemma append_ok:
  "append_feed_event_txn i ([], d) = (Inr c, q, d1) \<Longrightarrow> d1 = announce i d"
  by (auto simp: append_code insert_feed_row_def run_simps announce_def split: if_splits)

lemma honest_append [honest_intros]: "honest (append_feed_event_txn i)"
  unfolding append_code insert_feed_row_def by (intro honest_intros)

text \<open>An append in its transaction: the event is stored under a cursor above every stored one,
  the cursor is returned, and the permission to insert does not outlive the transaction; an event
  for a video outside the master is refused and nothing is stored.\<close>

lemma append_feed_event_exact:
  assumes "db_ok d"
  shows "if in_master (fi_video_id i) d
    then transaction (append_feed_event_txn i) ([], d) = (Inr (feed_seq d), [],
           d\<lparr>append_locked := False, feed_rows := feed_rows d @ [feed_row_of (feed_seq d) (now_us d) i],
             feed_seq := feed_seq d + 1\<rparr>) \<and> (\<forall>e \<in> set (feed_rows d). fr_cursor e < feed_seq d)
    else transaction (append_feed_event_txn i) ([], d) = (Inl fk_error, [], d\<lparr>append_locked := False\<rparr>)"
  using assms
  by (auto simp: append_code insert_feed_row_def run_simps end_tx_def rollback_tx_def
      in_master_def db_ok_def seqs_ok_def)

definition hash_event :: "string \<Rightarrow> feed_event_input" where
  "hash_event v = \<lparr>fi_event_kind = HashUpserted, fi_video_id = v, fi_hash_kind = Some ''phash'',
     fi_hash_version = Some ''v1'', fi_input_media_version = Some ''i1'', fi_payload = JNull\<rparr>"

text \<open>The table's guard: outside the helper's transaction an insert into the feed is refused,
  for every input, also right after a committed append.\<close>

lemma direct_insert_refused:
  "insert_feed_row i ([], end_tx d) = (Inl trigger_error, [], end_tx d)"
  by (simp add: insert_feed_row_def run_stmt end_tx_def)

section \<open>Reading\<close>

lemma feed_events_cursors:
  "feed_events_of rs = Inr es \<Longrightarrow> map fe_cursor es = map fr_cursor rs"
  by (induction rs arbitrary: es) (auto simp: feed_event_of_def split: sum.splits)

lemma feed_event_of_row: "fr_event_kind r = kind_as_str k \<Longrightarrow> \<exists>e. feed_event_of r = Inr e"
  by (simp add: feed_event_of_def kind_roundtrip)

lemma feed_events_total:
  "(\<And>r. r \<in> set rs \<Longrightarrow> \<exists>k. fr_event_kind r = kind_as_str k) \<Longrightarrow> \<exists>es. feed_events_of rs = Inr es"
proof (induction rs)
  case Nil
  then show ?case by simp
next
  case (Cons r rs)
  then obtain k es where "fr_event_kind r = kind_as_str k" "feed_events_of rs = Inr es"
    by (metis list.set_intros(1,2))
  with feed_event_of_row [of r k] show ?case by auto
qed

text \<open>The scan from no cursor at all, or beyond one.\<close>

definition rows_past :: "int option \<Rightarrow> pgdb \<Rightarrow> feed_row list" where
  "rows_past a d = sort_key fr_cursor (filter (\<lambda>r. past a (fr_cursor r)) (feed_rows d))"

lemma rows_past_Some: "rows_past (Some c) d = rows_after c d"
  by (simp add: rows_past_def rows_after_def past_def)

interpretation feed_scan: paged_scan
  "\<lambda>d a n. limit_rows (int n) (rows_past a d)" fr_cursor
  "\<lambda>d a. rows_past a d" "\<lambda>d. uniq fr_cursor (feed_rows d)"
proof (unfold_locales, goal_cases)
  case (1 s a n)
  then show ?case by (simp add: limit_rows_def)
next
  case (2 s a)
  then show ?case unfolding rows_past_def by (intro sort_key_strict uniq_filter)
next
  case (3 r s a)
  then show ?case by (auto simp: rows_past_def)
next
  case (4 a k s)
  then have "k < x \<Longrightarrow> past a x" for x by (cases a) (auto simp: past_def)
  then show ?case
    unfolding rows_past_def filter_sort filter_filter
    by (auto simp: past_def intro!: arg_cong [where f = "sort_key _"] filter_cong)
qed

text \<open>A consumer that polls page by page.\<close>

interpretation feed_poll: paged_job
  "\<lambda>d a n. limit_rows (int n) (rows_past a d)" fr_cursor
  "\<lambda>d a. rows_past a d" "\<lambda>d. uniq fr_cursor (feed_rows d)" "\<lambda>rs d. d"
  by unfold_locales simp_all

section \<open>Concurrent appends and a polling reader\<close>

text \<open>Any number of transactions, which call the append any number of times, and a reader that keeps its cursor and the
  cursors it was handed. A transaction has the statements of its call that are still to run, its local setting and the
  rows it has inserted, which nobody else sees before its commit. A lock has one holder until that transaction ends, and
  a statement that wants it waits meanwhile. The sequence is shared and moves at once, also for a transaction that rolls
  back or a statement that fails. The machine has the program of the append as a parameter.\<close>

record feed_tx =
  ft_rest :: "feed_stmt list"
  ft_setting :: bool
  ft_rows :: "feed_row list"

record feed_net =
  fn_locks :: "int \<Rightarrow> nat option"
  fn_tx :: "nat \<Rightarrow> feed_tx"
  fn_db :: pgdb
  fn_cursor :: int
  fn_seen :: "int list"

definition fresh_tx :: feed_tx where
  "fresh_tx = \<lparr>ft_rest = [], ft_setting = False, ft_rows = []\<rparr>"

definition feed_start :: "pgdb \<Rightarrow> feed_net" where
  "feed_start d = \<lparr>fn_locks = (\<lambda>_. None), fn_tx = (\<lambda>_. fresh_tx), fn_db = d\<lparr>feed_rows := [], feed_seq := 1\<rparr>,
     fn_cursor = 0, fn_seen = []\<rparr>"

definition tx_view :: "feed_tx \<Rightarrow> pgdb \<Rightarrow> pgdb" where
  "tx_view x d = d\<lparr>append_locked := ft_setting x, feed_rows := feed_rows d @ ft_rows x\<rparr>"

fun granted :: "(int \<Rightarrow> nat option) \<Rightarrow> nat \<Rightarrow> feed_stmt \<Rightarrow> bool" where
  "granted locks t (AdvisoryXactLock k) \<longleftrightarrow> locks k = None \<or> locks k = Some t"
| "granted locks t _ \<longleftrightarrow> True"

fun acquire :: "(int \<Rightarrow> nat option) \<Rightarrow> nat \<Rightarrow> feed_stmt \<Rightarrow> int \<Rightarrow> nat option" where
  "acquire locks t (AdvisoryXactLock k) = locks(k := Some t)"
| "acquire locks t _ = locks"

definition release_locks :: "(int \<Rightarrow> nat option) \<Rightarrow> nat \<Rightarrow> int \<Rightarrow> nat option" where
  "release_locks locks t = (\<lambda>k. if locks k = Some t then None else locks k)"

inductive feed_step :: "(feed_event_input \<Rightarrow> feed_stmt list) \<Rightarrow> feed_net \<Rightarrow> feed_net \<Rightarrow> bool" for prog where
  call: "ft_rest (fn_tx s t) = [] \<Longrightarrow>
    feed_step prog s (s\<lparr>fn_tx := (fn_tx s)(t := (fn_tx s t)\<lparr>ft_rest := prog i\<rparr>)\<rparr>)"
| statement: "ft_rest (fn_tx s t) = c # rest \<Longrightarrow> granted (fn_locks s) t c \<Longrightarrow>
    feed_stmt_run c ([], tx_view (fn_tx s t) (fn_db s)) = (Inr x, q, d) \<Longrightarrow>
    feed_step prog s (s\<lparr>fn_locks := acquire (fn_locks s) t c,
      fn_tx := (fn_tx s)(t := \<lparr>ft_rest = rest, ft_setting = append_locked d,
        ft_rows = drop (length (feed_rows (fn_db s))) (feed_rows d)\<rparr>),
      fn_db := (fn_db s)\<lparr>feed_seq := feed_seq d\<rparr>\<rparr>)"
| commit: "ft_rest (fn_tx s t) = [] \<Longrightarrow>
    feed_step prog s (s\<lparr>fn_locks := release_locks (fn_locks s) t, fn_tx := (fn_tx s)(t := fresh_tx),
      fn_db := (fn_db s)\<lparr>feed_rows := feed_rows (fn_db s) @ ft_rows (fn_tx s t)\<rparr>\<rparr>)"
| rollback: "feed_step prog s (s\<lparr>fn_locks := release_locks (fn_locks s) t, fn_tx := (fn_tx s)(t := fresh_tx)\<rparr>)"
| sequence_gap: "feed_step prog s (s\<lparr>fn_db := (fn_db s)\<lparr>feed_seq := feed_seq (fn_db s) + 1\<rparr>\<rparr>)"
| elsewhere: "feed_rows d = feed_rows (fn_db s) \<Longrightarrow> feed_seq d = feed_seq (fn_db s) \<Longrightarrow>
    feed_step prog s (s\<lparr>fn_db := d\<rparr>)"
| read_page: "list_feed_events_after (fn_cursor s) n (p, fn_db s) = (Inr es, q, d) \<Longrightarrow>
    feed_step prog s (s\<lparr>fn_seen := fn_seen s @ map fe_cursor es,
      fn_cursor := (if es = [] then fn_cursor s else fe_cursor (last es))\<rparr>)"

abbreviation append_lock :: "feed_net \<Rightarrow> nat option" where
  "append_lock s \<equiv> fn_locks s MEDIA_FEED_EVENT_APPEND_LOCK"

text \<open>Behind the lock statement of a call, and with rows, a transaction holds the lock.\<close>

definition behind_lock :: "nat option \<Rightarrow> nat \<Rightarrow> feed_tx \<Rightarrow> bool" where
  "behind_lock lk t x \<longleftrightarrow> (ft_rows x \<noteq> [] \<longrightarrow> lk = Some t) \<and> (ft_rest x = [] \<or> (\<exists>i. ft_rest x = append_program i) \<or>
     lk = Some t \<and> (\<exists>i. ft_rest x = [SetAppendLocked, InsertEvent i] \<or> ft_rest x = [InsertEvent i]))"

definition feed_inv :: "feed_net \<Rightarrow> bool" where
  "feed_inv s \<longleftrightarrow>
     (\<forall>t. behind_lock (append_lock s) t (fn_tx s t)) \<and>
     (\<forall>t. sorted_wrt (<) (map fr_cursor (feed_rows (fn_db s) @ ft_rows (fn_tx s t))) \<and>
          (\<forall>r \<in> set (feed_rows (fn_db s) @ ft_rows (fn_tx s t)). fr_cursor r < feed_seq (fn_db s)) \<and>
          (\<forall>r \<in> set (ft_rows (fn_tx s t)). fn_cursor s < fr_cursor r)) \<and>
     fn_cursor s < feed_seq (fn_db s) \<and>
     fn_seen s = filter (\<lambda>c. c \<le> fn_cursor s) (map fr_cursor (feed_rows (fn_db s)))"

lemma feed_inv_start: "feed_inv (feed_start d)"
  by (simp add: feed_inv_def feed_start_def fresh_tx_def behind_lock_def)

lemma sort_key_id: "sorted (map key xs) \<Longrightarrow> sort_key key xs = xs"
  by (metis sort_key_id_if_sorted sorted_map)

lemma sorted_le_last: "sorted_wrt (<) (xs :: int list) \<Longrightarrow> x \<in> set xs \<Longrightarrow> x \<le> last xs"
proof (induction xs)
  case (Cons a xs)
  then show ?case by (cases "xs = []") (auto simp: less_imp_le)
qed simp

lemma feed_inv_visible: "feed_inv s \<Longrightarrow> sorted_wrt (<) (map fr_cursor (feed_rows (fn_db s)))"
  by (auto simp: feed_inv_def sorted_wrt_append)

text \<open>What one page adds, on the sorted list of visible cursors.\<close>

lemma page_extends:
  assumes srt: "sorted_wrt (<) (cs :: int list)" and pg: "pg = take n (filter (\<lambda>x. c < x) cs)"
    and c': "c' = (if pg = [] then c else last pg)"
  shows "filter (\<lambda>x. x \<le> c) cs @ pg = filter (\<lambda>x. x \<le> c') cs"
proof -
  let ?lo = "filter (\<lambda>x. x \<le> c) cs" and ?hi = "filter (\<lambda>x. c < x) cs"
  have split: "cs = ?lo @ ?hi" using srt
  proof (induction cs)
    case (Cons x xs)
    show ?case
    proof (cases "x \<le> c")
      case True
      with Cons show ?thesis by simp
    next
      case False
      with Cons.prems have "filter (\<lambda>x. x \<le> c) xs = []" and "filter (\<lambda>x. c < x) xs = xs"
        by (auto intro!: filter_False filter_True)
      with False show ?thesis by simp
    qed
  qed simp
  show ?thesis
  proof (cases "pg = []")
    case True
    with c' show ?thesis by simp
  next
    case False
    have hi: "?hi = pg @ drop n ?hi" using pg by simp
    have srt3: "sorted_wrt (<) ((?lo @ pg) @ drop n ?hi)"
      using srt split hi by (metis append_assoc)
    then have "sorted_wrt (<) (?lo @ pg)" using sorted_wrt_append by blast
    then have "\<forall>x \<in> set (?lo @ pg). x \<le> last pg"
      using sorted_le_last [of "?lo @ pg"] False by simp
    moreover have "\<forall>x \<in> set (drop n ?hi). last pg < x"
      using srt3 False last_in_set [of pg] by (simp only: sorted_wrt_append) auto
    ultimately have "\<forall>x \<in> set (?lo @ pg). x \<le> last pg" and "\<forall>x \<in> set (drop n ?hi). last pg < x"
      by blast+
    then have "filter (\<lambda>x. x \<le> last pg) (?lo @ pg) = ?lo @ pg"
        and "filter (\<lambda>x. x \<le> last pg) (drop n ?hi) = []"
      by (auto simp only: filter_id_conv filter_empty_conv not_le)
    then have "filter (\<lambda>x. x \<le> last pg) ((?lo @ pg) @ drop n ?hi) = ?lo @ pg" by simp
    with split hi c' False show ?thesis by (metis append_assoc)
  qed
qed

lemma list_feed_result:
  assumes "list_feed_events_after c n (p, d) = (Inr es, q, d')"
  shows "map fe_cursor es = map fr_cursor (limit_rows n (rows_after c d)) \<and> d' = d"
  using assms
  by (auto simp: list_feed_events_after_def bnd_def map_err_def query_def stmt_def
      split: if_splits sum.splits list.splits option.splits dest: feed_events_cursors)

text \<open>One statement: the lock is taken by it or held already, and only an insert adds a row, under the next cursor.\<close>

lemma statement_effect:
  assumes "feed_stmt_run c ([], tx_view x d) = (Inr y, q, d')"
  shows "(\<exists>k. c = AdvisoryXactLock k) \<and> append_locked d' = ft_setting x \<and> feed_rows d' = feed_rows d @ ft_rows x \<and> feed_seq d' = feed_seq d \<or>
     c = SetAppendLocked \<and> append_locked d' \<and> feed_rows d' = feed_rows d @ ft_rows x \<and> feed_seq d' = feed_seq d \<or>
     (\<exists>i. c = InsertEvent i \<and> in_master (fi_video_id i) d \<and> ft_setting x \<and> append_locked d' \<and>
       feed_rows d' = feed_rows d @ ft_rows x @ [feed_row_of (feed_seq d) (now_us d) i] \<and> feed_seq d' = feed_seq d + 1)"
  using assms
  by (cases c) (auto simp: run_simps insert_feed_row_def tx_view_def in_master_def split: if_splits)

lemma behind_lock_other:
  "behind_lock lk t x \<Longrightarrow> (lk = Some t \<Longrightarrow> lk' = Some t) \<Longrightarrow> behind_lock lk' t x"
  by (auto simp: behind_lock_def)

lemma fresh_behind [simp]: "behind_lock lk t fresh_tx" "ft_rows fresh_tx = []" "ft_rest fresh_tx = []"
  by (simp_all add: behind_lock_def fresh_tx_def)

lemma inv_statement:
  assumes inv: "feed_inv s" and rest: "ft_rest (fn_tx s t) = c # rest" and gr: "granted (fn_locks s) t c"
    and run: "feed_stmt_run c ([], tx_view (fn_tx s t) (fn_db s)) = (Inr x, q, d)"
  shows "feed_inv (s\<lparr>fn_locks := acquire (fn_locks s) t c,
      fn_tx := (fn_tx s)(t := \<lparr>ft_rest = rest, ft_setting = append_locked d,
        ft_rows = drop (length (feed_rows (fn_db s))) (feed_rows d)\<rparr>),
      fn_db := (fn_db s)\<lparr>feed_seq := feed_seq d\<rparr>\<rparr>)" (is "feed_inv ?s")
proof -
  let ?x = "fn_tx s t"
  from inv have bl: "behind_lock (append_lock s) y (fn_tx s y)" for y by (simp add: feed_inv_def)
  from bl [of t] rest obtain i where
    prog: "c = AdvisoryXactLock MEDIA_FEED_EVENT_APPEND_LOCK \<and> rest = [SetAppendLocked, InsertEvent i] \<or>
      append_lock s = Some t \<and> (c = SetAppendLocked \<and> rest = [InsertEvent i] \<or> c = InsertEvent i \<and> rest = [])"
    by (auto simp: behind_lock_def append_program_def)
  have lock: "append_lock ?s = Some t" and kept: "append_lock s = Some y \<Longrightarrow> y = t" for y
    using prog gr by auto
  have others: "ft_rows (fn_tx s y) = []" if "y \<noteq> t" for y
    using bl [of y] kept [of y] that by (auto simp: behind_lock_def)
  have bl': "behind_lock (append_lock ?s) y (fn_tx ?s y)" for y
  proof (cases "y = t")
    case True
    then show ?thesis using lock prog by (auto simp: behind_lock_def)
  next
    case False
    then show ?thesis using bl [of y] kept [of y] by (auto intro: behind_lock_other)
  qed
  from statement_effect [OF run] consider
      (same) "feed_rows d = feed_rows (fn_db s) @ ft_rows ?x" "feed_seq d = feed_seq (fn_db s)"
    | (row) i where "feed_rows d = feed_rows (fn_db s) @ ft_rows ?x @ [feed_row_of (feed_seq (fn_db s)) (now_us (fn_db s)) i]"
        "feed_seq d = feed_seq (fn_db s) + 1" by auto
  then show ?thesis
  proof cases
    case same
    with inv bl' show ?thesis by (simp add: feed_inv_def)
  next
    case row
    with inv others bl' show ?thesis
      by (auto simp: feed_inv_def feed_row_of_def sorted_wrt_append less_imp_le)
  qed
qed

lemma inv_end:
  assumes inv: "feed_inv s" and rows: "rows = [] \<or> rows = ft_rows (fn_tx s t)"
  shows "feed_inv (s\<lparr>fn_locks := release_locks (fn_locks s) t, fn_tx := (fn_tx s)(t := fresh_tx),
      fn_db := (fn_db s)\<lparr>feed_rows := feed_rows (fn_db s) @ rows\<rparr>\<rparr>)" (is "feed_inv ?s")
proof -
  from inv have bl: "behind_lock (append_lock s) y (fn_tx s y)" for y by (simp add: feed_inv_def)
  have bl': "behind_lock (append_lock ?s) y (fn_tx ?s y)" for y
    using behind_lock_other [OF bl [of y], of "append_lock ?s"] by (cases "y = t") (auto simp: release_locks_def)
  show ?thesis
  proof (cases "rows = []")
    case True
    with inv bl' feed_inv_visible [OF inv] show ?thesis by (auto simp: feed_inv_def)
  next
    case False
    then have "ft_rows (fn_tx s y) = []" if "y \<noteq> t" for y
      using bl [of y] bl [of t] rows that by (auto simp: behind_lock_def)
    moreover have "filter (\<lambda>c. c \<le> fn_cursor s) (map fr_cursor rows) = []"
      using inv rows by (fastforce simp: feed_inv_def filter_empty_conv)
    moreover from False rows have "rows = ft_rows (fn_tx s t)" by simp
    moreover from inv have "sorted_wrt (<) (map fr_cursor (feed_rows (fn_db s) @ ft_rows (fn_tx s t)))"
      and "\<forall>r \<in> set (feed_rows (fn_db s) @ ft_rows (fn_tx s t)). fr_cursor r < feed_seq (fn_db s)"
      and "fn_cursor s < feed_seq (fn_db s)"
      and "fn_seen s = filter (\<lambda>c. c \<le> fn_cursor s) (map fr_cursor (feed_rows (fn_db s)))"
      unfolding feed_inv_def by blast+
    ultimately show ?thesis using bl' by (auto simp: feed_inv_def)
  qed
qed

lemma inv_read:
  assumes inv: "feed_inv s" and "list_feed_events_after (fn_cursor s) n (p, fn_db s) = (Inr es, q, d)"
  shows "feed_inv (s\<lparr>fn_seen := fn_seen s @ map fe_cursor es,
      fn_cursor := (if es = [] then fn_cursor s else fe_cursor (last es))\<rparr>)"
proof -
  let ?cs = "map fr_cursor (feed_rows (fn_db s))"
  let ?pg = "take (nat n) (filter (\<lambda>x. fn_cursor s < x) ?cs)"
  let ?c = "if es = [] then fn_cursor s else fe_cursor (last es)"
  have srt: "sorted_wrt (<) ?cs" using inv by (rule feed_inv_visible)
  then have "sorted (map fr_cursor (filter (\<lambda>r. fn_cursor s < fr_cursor r) (feed_rows (fn_db s))))"
    by (simp add: strict_sorted_imp_sorted sorted_filter)
  then have es: "map fe_cursor es = ?pg" and d: "fn_db s = d"
    using list_feed_result [OF assms(2)]
    by (simp_all add: rows_after_def limit_rows_def sort_key_id filter_map o_def take_map)
  have c: "?c = (if ?pg = [] then fn_cursor s else last ?pg)"
    using es [symmetric] by (simp add: last_map)
  have seen: "fn_seen s @ map fe_cursor es = filter (\<lambda>x. x \<le> ?c) ?cs"
    using page_extends [OF srt refl c] inv es by (simp add: feed_inv_def)
  have "?c = fn_cursor s \<or> ?c \<in> set ?cs"
    using c by (metis filter_is_subset in_set_takeD last_in_set subsetD)
  then have "?c < feed_seq (fn_db s)" and "\<forall>t. \<forall>r \<in> set (ft_rows (fn_tx s t)). ?c < fr_cursor r"
    using inv by (auto simp: feed_inv_def sorted_wrt_append)
  with seen inv show ?thesis by (simp add: feed_inv_def)
qed

lemma feed_inv_step:
  assumes inv: "feed_inv s" and "feed_step append_program s t"
  shows "feed_inv t"
  using assms(2)
proof (cases rule: feed_step.cases)
  case (call x i)
  with inv show ?thesis by (auto simp: feed_inv_def behind_lock_def)
next
  case (statement x c rest y q d)
  with inv_statement [OF inv] show ?thesis by simp
next
  case (commit x)
  with inv_end [OF inv, of "ft_rows (fn_tx s x)" x] show ?thesis by simp
next
  case (rollback x)
  with inv_end [OF inv, of "[]" x] show ?thesis by simp
next
  case sequence_gap
  with inv show ?thesis by (auto simp: feed_inv_def zless_add1_eq intro: less_imp_le)
next
  case (elsewhere d)
  with inv show ?thesis by (simp add: feed_inv_def)
next
  case (read_page n p es q d)
  with inv_read [OF inv] show ?thesis by simp
qed

lemma feed_inv_reach: "(feed_step append_program)\<^sup>*\<^sup>* (feed_start d) s \<Longrightarrow> feed_inv s"
  by (induction rule: rtranclp_induct) (auto intro: feed_inv_start feed_inv_step)

text \<open>C3. Polling by cursor misses nothing: however any number of transactions run the statements of the append, commit and
  roll back, and whatever cursors are lost, a reader has been handed, in order and once each, exactly the committed
  events up to its cursor, and no transaction holds an event that could still appear at or below it. The statements are
  those of \<open>append_program\<close>, which \<open>append_feed_event_txn\<close> runs; they start on an empty feed.\<close>

theorem feed_reader_complete:
  assumes "(feed_step append_program)\<^sup>*\<^sup>* (feed_start d) s"
  shows "fn_seen s = filter (\<lambda>c. c \<le> fn_cursor s) (map fr_cursor (feed_rows (fn_db s))) \<and>
    sorted_wrt (<) (fn_seen s) \<and> (\<forall>t. \<forall>r \<in> set (ft_rows (fn_tx s t)). fn_cursor s < fr_cursor r)"
proof -
  from feed_inv_reach [OF assms] have inv: "feed_inv s" .
  then have "sorted_wrt (<) (filter (\<lambda>c. c \<le> fn_cursor s) (map fr_cursor (feed_rows (fn_db s))))"
    using feed_inv_visible by (blast intro: sorted_wrt_filter)
  with inv show ?thesis by (simp add: feed_inv_def)
qed

definition one_video_db :: pgdb where
  "one_video_db = (empty_db 5)\<lparr>servable_videos := [servable_video_input.extend
     \<lparr>sv_video_id = ''v'', sv_publisher_user_id = None, sv_post_id = None, sv_source_kind = ''hetzner'',
       sv_source_ref = None, sv_servable_status = ''servable'', sv_nsfw_state = None,
       sv_storage_provider = None, sv_bucket = None, sv_object_key = None, sv_canonical_url = None,
       sv_thumbnail_key = None, sv_duration_ms = None, sv_width = None, sv_height = None,
       sv_fps = None, sv_container = None, sv_video_codec = None, sv_audio_codec = None,
       sv_moov_atom_front = None, sv_canonical_encoding_version = None, sv_discovered_from = ''x''\<rparr>
     (servable_video.fields 5 5 5)]\<rparr>"

lemma one_video_master: "in_master ''v'' (one_video_db\<lparr>feed_rows := r, feed_seq := q\<rparr>)"
  by (simp add: one_video_db_def in_master_def has_key_code servable_video_input.defs servable_video.defs)

text \<open>Two transactions append an event each, and the reader polls between them.\<close>

definition demo_row :: "int \<Rightarrow> feed_row" where
  "demo_row c = feed_row_of c 5 (hash_event ''v'')"

definition demo_net :: "(int \<Rightarrow> nat option) \<Rightarrow> (nat \<Rightarrow> feed_tx) \<Rightarrow> feed_row list \<Rightarrow> int \<Rightarrow> int \<Rightarrow> int list \<Rightarrow> feed_net" where
  "demo_net l tx rows q c seen = \<lparr>fn_locks = l, fn_tx = tx,
     fn_db = one_video_db\<lparr>feed_rows := rows, feed_seq := q\<rparr>, fn_cursor = c, fn_seen = seen\<rparr>"

definition no_locks :: "int \<Rightarrow> nat option" where "no_locks = (\<lambda>_. None)"

lemma demo_start: "feed_start one_video_db = demo_net no_locks (\<lambda>_. fresh_tx) [] 1 0 []"
  by (simp add: feed_start_def demo_net_def no_locks_def)

lemma demo_call:
  assumes "ft_rest (tx t) = []"
  shows "feed_step prog (demo_net l tx rows q c seen) (demo_net l (tx(t := (tx t)\<lparr>ft_rest := prog i\<rparr>)) rows q c seen)"
  using feed_step.call [of "demo_net l tx rows q c seen" t prog i] assms by (simp add: demo_net_def)

lemma demo_lock:
  assumes "tx t = \<lparr>ft_rest = AdvisoryXactLock k # rest, ft_setting = b, ft_rows = rs\<rparr>" and "l k = None"
  shows "feed_step prog (demo_net l tx rows q c seen)
    (demo_net (l(k := Some t)) (tx(t := \<lparr>ft_rest = rest, ft_setting = b, ft_rows = rs\<rparr>)) rows q c seen)"
  using feed_step.statement [of "demo_net l tx rows q c seen" t "AdvisoryXactLock k" rest _ _ _ prog] assms
  by (simp add: demo_net_def run_simps tx_view_def one_video_db_def empty_db_def)

lemma demo_set:
  assumes "tx t = \<lparr>ft_rest = SetAppendLocked # rest, ft_setting = b, ft_rows = rs\<rparr>"
  shows "feed_step prog (demo_net l tx rows q c seen)
    (demo_net l (tx(t := \<lparr>ft_rest = rest, ft_setting = True, ft_rows = rs\<rparr>)) rows q c seen)"
  using feed_step.statement [of "demo_net l tx rows q c seen" t SetAppendLocked rest _ _ _ prog] assms
  by (simp add: demo_net_def run_simps tx_view_def one_video_db_def empty_db_def)

lemma demo_insert:
  assumes "tx t = \<lparr>ft_rest = [InsertEvent (hash_event ''v'')], ft_setting = True, ft_rows = rs\<rparr>"
  shows "feed_step prog (demo_net l tx rows q c seen)
    (demo_net l (tx(t := \<lparr>ft_rest = [], ft_setting = True, ft_rows = rs @ [demo_row q]\<rparr>)) rows (q + 1) c seen)"
proof -
  have "in_master ''v'' (one_video_db\<lparr>feed_rows := rows @ rs, feed_seq := q, append_locked := True\<rparr>)"
    using one_video_master by (simp add: in_master_def)
  then show ?thesis
    using feed_step.statement [of "demo_net l tx rows q c seen" t "InsertEvent (hash_event ''v'')" "[]" _ _ _ prog] assms
    by (simp add: demo_net_def run_simps tx_view_def insert_feed_row_def demo_row_def hash_event_def)
      (simp add: one_video_db_def empty_db_def)
qed

lemma demo_commit:
  assumes "ft_rest (tx t) = []"
  shows "feed_step prog (demo_net l tx rows q c seen)
    (demo_net (release_locks l t) (tx(t := fresh_tx)) (rows @ ft_rows (tx t)) q c seen)"
  using feed_step.commit [of "demo_net l tx rows q c seen" t prog] assms
  by (simp add: demo_net_def one_video_db_def empty_db_def)

lemma demo_read:
  assumes "rows_after c (one_video_db\<lparr>feed_rows := rows, feed_seq := q\<rparr>) = [demo_row k]"
  shows "feed_step prog (demo_net l tx rows q c seen) (demo_net l tx rows q k (seen @ [k]))"
proof -
  let ?d = "one_video_db\<lparr>feed_rows := rows, feed_seq := q\<rparr>"
  have "list_feed_events_after c 500 ([], ?d) = (Inr [\<lparr>fe_cursor = k, fe_event_kind = HashUpserted,
      fe_video_id = ''v'', fe_hash_kind = Some ''phash'', fe_hash_version = Some ''v1'',
      fe_input_media_version = Some ''i1'', fe_payload = JNull, fe_created_at = 5\<rparr>], [], ?d)"
    using assms
    by (simp add: list_feed_events_after_def max_feed_read_limit_def run_simps limit_rows_def
        feed_event_of_def demo_row_def feed_row_of_def hash_event_def kind_from_str_def)
  with feed_step.read_page [of "demo_net l tx rows q c seen" 500 "[]" _ "[]" ?d prog]
  show ?thesis by (simp add: demo_net_def)
qed

text \<open>A whole append behind the lock statement, and with it.\<close>

lemma demo_inserts:
  assumes "tx t = fresh_tx"
  shows "(feed_step (\<lambda>i. tl (append_program i)))\<^sup>*\<^sup>* (demo_net l tx rows q c seen)
    (demo_net l (tx(t := \<lparr>ft_rest = [], ft_setting = True, ft_rows = [demo_row q]\<rparr>)) rows (q + 1) c seen)"
proof -
  let ?ev = "hash_event ''v''" and ?p = "\<lambda>i. tl (append_program i)"
  have "feed_step ?p (demo_net l tx rows q c seen)
      (demo_net l (tx(t := \<lparr>ft_rest = [SetAppendLocked, InsertEvent ?ev], ft_setting = False, ft_rows = []\<rparr>)) rows q c seen)"
    using demo_call [of tx t ?p l rows q c seen ?ev] by (simp add: assms fresh_tx_def append_program_def)
  moreover have "feed_step ?p \<dots>
      (demo_net l (tx(t := \<lparr>ft_rest = [InsertEvent ?ev], ft_setting = True, ft_rows = []\<rparr>)) rows q c seen)"
    using demo_set [of "tx(t := \<lparr>ft_rest = [SetAppendLocked, InsertEvent ?ev], ft_setting = False, ft_rows = []\<rparr>)" t
        "[InsertEvent ?ev]" False "[]"] by simp
  moreover have "feed_step ?p \<dots>
      (demo_net l (tx(t := \<lparr>ft_rest = [], ft_setting = True, ft_rows = [demo_row q]\<rparr>)) rows (q + 1) c seen)"
    using demo_insert [of "tx(t := \<lparr>ft_rest = [InsertEvent ?ev], ft_setting = True, ft_rows = []\<rparr>)" t "[]"] by simp
  ultimately show ?thesis by (meson converse_rtranclp_into_rtranclp r_into_rtranclp)
qed

lemma demo_appends:
  assumes "tx t = fresh_tx"
  shows "(feed_step append_program)\<^sup>*\<^sup>* (demo_net no_locks tx rows q c seen)
    (demo_net no_locks (tx(t := fresh_tx)) (rows @ [demo_row q]) (q + 1) c seen)"
proof -
  let ?l = "no_locks(MEDIA_FEED_EVENT_APPEND_LOCK := Some t)" and ?ev = "hash_event ''v''"
  have "feed_step append_program (demo_net no_locks tx rows q c seen)
      (demo_net no_locks (tx(t := \<lparr>ft_rest = append_program ?ev, ft_setting = False, ft_rows = []\<rparr>)) rows q c seen)"
    using demo_call [of tx t append_program no_locks rows q c seen ?ev] by (simp add: assms fresh_tx_def)
  moreover have "feed_step append_program \<dots>
      (demo_net ?l (tx(t := \<lparr>ft_rest = [SetAppendLocked, InsertEvent ?ev], ft_setting = False, ft_rows = []\<rparr>)) rows q c seen)"
    using demo_lock [of "tx(t := \<lparr>ft_rest = append_program ?ev, ft_setting = False, ft_rows = []\<rparr>)" t MEDIA_FEED_EVENT_APPEND_LOCK
        "[SetAppendLocked, InsertEvent ?ev]" False "[]" no_locks]
    by (simp add: append_program_def no_locks_def)
  moreover have "feed_step append_program \<dots>
      (demo_net ?l (tx(t := \<lparr>ft_rest = [InsertEvent ?ev], ft_setting = True, ft_rows = []\<rparr>)) rows q c seen)"
    using demo_set [of "tx(t := \<lparr>ft_rest = [SetAppendLocked, InsertEvent ?ev], ft_setting = False, ft_rows = []\<rparr>)" t
        "[InsertEvent ?ev]" False "[]"] by simp
  moreover have "feed_step append_program \<dots>
      (demo_net ?l (tx(t := \<lparr>ft_rest = [], ft_setting = True, ft_rows = [demo_row q]\<rparr>)) rows (q + 1) c seen)"
    using demo_insert [of "tx(t := \<lparr>ft_rest = [InsertEvent ?ev], ft_setting = True, ft_rows = []\<rparr>)" t "[]"] by simp
  moreover have "feed_step append_program \<dots> (demo_net no_locks (tx(t := fresh_tx)) (rows @ [demo_row q]) (q + 1) c seen)"
  proof -
    have "release_locks ?l t = no_locks" by (auto simp: release_locks_def no_locks_def)
    then show ?thesis
      using demo_commit [of "tx(t := \<lparr>ft_rest = [], ft_setting = True, ft_rows = [demo_row q]\<rparr>)" t append_program ?l] by simp
  qed
  ultimately show ?thesis by (meson converse_rtranclp_into_rtranclp r_into_rtranclp)
qed

theorem feed_reader_complete_witness:
  "\<exists>s. (feed_step append_program)\<^sup>*\<^sup>* (feed_start one_video_db) s \<and> map fr_cursor (feed_rows (fn_db s)) = [1, 2] \<and>
     fn_cursor s = 1 \<and> fn_seen s = [1] \<and> sorted_wrt (<) (fn_seen s)"
proof -
  let ?tx = "\<lambda>_. fresh_tx" and ?s = "demo_net no_locks (\<lambda>_. fresh_tx) [demo_row 1, demo_row 2] 3 1 [1]"
  have fresh: "?tx(t := fresh_tx) = ?tx" for t by auto
  have "(feed_step append_program)\<^sup>*\<^sup>* (feed_start one_video_db) (demo_net no_locks ?tx [demo_row 1] 2 0 [])"
    using demo_appends [of ?tx 7 "[]" 1 0 "[]"] by (simp add: fresh demo_start)
  moreover have "feed_step append_program \<dots> (demo_net no_locks ?tx [demo_row 1] 2 1 [1])"
    using demo_read [where c = 0 and rows = "[demo_row 1]" and q = 2 and k = 1 and seen = "[]"] by (simp add: rows_after_def demo_row_def feed_row_of_def)
  moreover have "(feed_step append_program)\<^sup>*\<^sup>* \<dots> ?s"
    using demo_appends [of ?tx 8 "[demo_row 1]" 2 1 "[1]"] by (simp add: fresh)
  ultimately have reach: "(feed_step append_program)\<^sup>*\<^sup>* (feed_start one_video_db) ?s"
    by (meson rtranclp.rtrancl_into_rtrancl rtranclp_trans)
  have rows: "map fr_cursor (feed_rows (fn_db ?s)) = [1, 2]" "fn_cursor ?s = 1"
    by (simp_all add: demo_net_def demo_row_def feed_row_of_def)
  note seen = feed_reader_complete [OF reach]
  have "fn_seen ?s = filter (\<lambda>c. c \<le> fn_cursor ?s) (map fr_cursor (feed_rows (fn_db ?s)))" using seen by (rule conjunct1)
  also have "\<dots> = [1]" unfolding rows by simp
  finally have "fn_seen ?s = [1]" .
  moreover have "sorted_wrt (<) (fn_seen ?s)" using seen by (elim conjE)
  ultimately show ?thesis using reach rows by (intro exI [of _ ?s] conjI)
qed

text \<open>The advisory lock is needed: for the program without its first statement the sequence's allocation order differs from
  the commit order, and a reachable reader has passed a cursor whose event commits later and is never handed to it.\<close>

lemma feed_skips_without_lock:
  "\<exists>s. (feed_step (\<lambda>i. tl (append_program i)))\<^sup>*\<^sup>* (feed_start one_video_db) s \<and>
     (\<exists>r \<in> set (feed_rows (fn_db s)). fr_cursor r \<le> fn_cursor s \<and> fr_cursor r \<notin> set (fn_seen s))"
proof -
  let ?x = "\<lambda>c. \<lparr>ft_rest = [], ft_setting = True, ft_rows = [demo_row c]\<rparr>" and ?R = "feed_step (\<lambda>i. tl (append_program i))"
  let ?t1 = "(\<lambda>_. fresh_tx)(1 := ?x 1)" and ?l = "release_locks no_locks 2"
  let ?t2 = "?t1(2 := ?x 2)" and ?t3 = "?t1(2 := ?x 2, 2 := fresh_tx)"
  let ?s = "demo_net (release_locks ?l 1) (?t3(1 := fresh_tx)) [demo_row 2, demo_row 1] 3 2 [2]"
  have "?R\<^sup>*\<^sup>* (demo_net no_locks (\<lambda>_. fresh_tx) [] 1 0 []) (demo_net no_locks ?t1 [] 2 0 [])"
    using demo_inserts [of "\<lambda>_. fresh_tx" 1 no_locks "[]" 1 0 "[]"] by simp
  moreover have "?R\<^sup>*\<^sup>* \<dots> (demo_net no_locks ?t2 [] 3 0 [])"
    using demo_inserts [of ?t1 2 no_locks "[]" 2 0 "[]"] by simp
  moreover have "?R \<dots> (demo_net ?l ?t3 [demo_row 2] 3 0 [])"
    using demo_commit [of ?t2 2 _ no_locks "[]" 3 0 "[]"] by simp
  moreover have "?R \<dots> (demo_net ?l ?t3 [demo_row 2] 3 2 [2])"
    using demo_read [where c = 0 and rows = "[demo_row 2]" and q = 3 and k = 2 and seen = "[]"] by (simp add: rows_after_def demo_row_def feed_row_of_def)
  moreover have "?R \<dots> ?s"
    using demo_commit [of ?t3 1 _ ?l "[demo_row 2]" 3 2 "[2]"] by simp
  ultimately have "?R\<^sup>*\<^sup>* (feed_start one_video_db) ?s"
    unfolding demo_start by (meson rtranclp.rtrancl_into_rtrancl rtranclp_trans)
  then show ?thesis
    by (intro exI [of _ ?s] conjI) (simp_all add: demo_net_def demo_row_def feed_row_of_def)
qed

end
