(* ===== verification/PHasher.thy ===== *)
theory PHasher
  imports Prelude
begin

text \<open>
  The hashing crate (\<open>crates/phash/src/lib.rs\<close>): which decoded frames are hashed, the copy of a
  padded RGB24 picture, the rendering of an image hash as binary digits and the cyclic filling to
  ten frames. FFmpeg and the image hasher are parameters: the decoder as the packets and frames it
  delivers, the picture conversion and the image hash as functions. The duration and the frame
  rate are read from the container with double arithmetic and are taken as given.
  A target index \<open>(i * ((n - 1) / 9)).round()\<close> is computed in integers: the quotient is never a half
  and stays a ninth away from the next one, so rounding of doubles cannot change it for any frame
  count a file can have.
\<close>

definition HASH_KIND :: string where
  "HASH_KIND = ''phash''"

definition HASH_VERSION :: string where
  "HASH_VERSION = ''offchain_binary_10x8_v1''"

definition EXPECTED_BINARY_HASH_LEN :: nat where
  "EXPECTED_BINARY_HASH_LEN = 640"

record video_metadata =
  vm_duration_seconds :: f64
  vm_frame_count :: nat
  vm_width :: nat
  vm_height :: nat
  vm_fps :: f64

record video_hash_result =
  vh_hash :: string
  vh_metadata :: video_metadata
  vh_hash_kind :: string
  vh_hash_version :: string

record phasher =
  ph_num_frames :: nat
  ph_hash_size :: nat

definition new_phasher :: phasher where
  "new_phasher = \<lparr>ph_num_frames = 10, ph_hash_size = 8\<rparr>"

datatype phash_error =
    NoFrames
  | RowByteOverflow
  | StrideTooShort nat nat
  | ImageByteOverflow
  | RowOffsetOverflow
  | RowEndOverflow
  | DataTooShort nat nat nat
  | FFmpegError string

section \<open>Binary digits\<close>

definition byte_digits :: "8 word \<Rightarrow> string" where
  "byte_digits b = map (\<lambda>i. if and (drop_bit i b) 1 = 1 then CHR ''1'' else CHR ''0'') (rev [0..<8])"

definition hash_to_binary_string :: "8 word list \<Rightarrow> string" where
  "hash_to_binary_string bytes = concat (map byte_digits bytes)"

definition digits_byte :: "string \<Rightarrow> 8 word" where
  "digits_byte cs = horner_sum of_bool 2 (rev (map (\<lambda>c. c = CHR ''1'') cs))"

lemma byte_digit_bit: "and (drop_bit i b) 1 = (1 :: 8 word) \<longleftrightarrow> bit b i"
  by (simp add: and_one_eq bit_iff_odd_drop_bit odd_iff_mod_2_eq_one)

lemma byte_digits_length [simp]: "length (byte_digits b) = 8"
  by (simp add: byte_digits_def)

lemma digits_byte_inverse: "digits_byte (byte_digits b) = b"
proof -
  have "rev (map (\<lambda>c. c = CHR ''1'') (byte_digits b)) = map (bit b) [0..<8]"
    by (simp add: byte_digits_def rev_map [symmetric] o_def byte_digit_bit cong: map_cong)
  then have "digits_byte (byte_digits b) = take_bit 8 b"
    by (simp add: digits_byte_def horner_sum_bit_eq_take_bit)
  then show ?thesis by (simp add: take_bit_word_eq_self)
qed

lemma binary_string_length: "length (hash_to_binary_string bs) = 8 * length bs"
  by (induction bs) (simp_all add: hash_to_binary_string_def)

lemma binary_string_chars: "set (hash_to_binary_string bs) \<subseteq> {CHR ''0'', CHR ''1''}"
  by (auto simp: hash_to_binary_string_def byte_digits_def split: if_splits)

text \<open>The rendering loses nothing: two image hashes with the same binary string are equal (so
  equality of the stored text is equality of the hashes).\<close>

lemma binary_string_injective:
  "hash_to_binary_string as = hash_to_binary_string bs \<longleftrightarrow> as = bs"
proof
  show "hash_to_binary_string as = hash_to_binary_string bs \<Longrightarrow> as = bs"
  proof (induction as arbitrary: bs)
    case Nil
    have "8 * length bs = 8 * length ([] :: 8 word list)"
      using Nil by (metis binary_string_length)
    then show ?case by simp
  next
    case (Cons a as)
    then obtain b bs' where bs: "bs = b # bs'"
      using binary_string_length [of "a # as"] binary_string_length [of bs] by (cases bs) simp_all
    with Cons.prems have "byte_digits a @ hash_to_binary_string as = byte_digits b @ hash_to_binary_string bs'"
      by (simp add: hash_to_binary_string_def)
    then have "byte_digits a = byte_digits b" and r: "hash_to_binary_string as = hash_to_binary_string bs'"
      by (simp_all add: append_eq_append_conv)
    then have "a = b" by (metis digits_byte_inverse)
    with Cons.IH [OF r] bs show ?case by simp
  qed
qed simp

section \<open>Copying a padded picture\<close>

definition checked_mul :: "nat \<Rightarrow> nat \<Rightarrow> nat option" where
  "checked_mul a b = (if a * b < 2 ^ 64 then Some (a * b) else None)"

definition checked_add :: "nat \<Rightarrow> nat \<Rightarrow> nat option" where
  "checked_add a b = (if a + b < 2 ^ 64 then Some (a + b) else None)"

fun copy_rows :: "'b list \<Rightarrow> nat \<Rightarrow> nat \<Rightarrow> nat list \<Rightarrow> 'b list \<Rightarrow> phash_error + 'b list" where
  "copy_rows data stride row_bytes [] acc = Inr acc"
| "copy_rows data stride row_bytes (y # ys) acc =
     (case checked_mul y stride of
        None \<Rightarrow> Inl RowOffsetOverflow
      | Some row_start \<Rightarrow>
          (case checked_add row_start row_bytes of
             None \<Rightarrow> Inl RowEndOverflow
           | Some row_end \<Rightarrow>
               if row_end \<le> length data
               then copy_rows data stride row_bytes ys
                      (acc @ take (row_end - row_start) (drop row_start data))
               else Inl (DataTooShort y row_end (length data))))"

definition copy_rgb24_frame_data :: "'b list \<Rightarrow> nat \<Rightarrow> nat \<Rightarrow> nat \<Rightarrow> phash_error + 'b list" where
  "copy_rgb24_frame_data data stride width height =
     (case checked_mul width 3 of
        None \<Rightarrow> Inl RowByteOverflow
      | Some row_bytes \<Rightarrow>
          if \<not> row_bytes \<le> stride then Inl (StrideTooShort stride row_bytes)
          else (case checked_mul row_bytes height of
                  None \<Rightarrow> Inl ImageByteOverflow
                | Some _ \<Rightarrow> copy_rows data stride row_bytes [0..<height] []))"

lemma copy_rows_ok:
  assumes "length data < 2 ^ 64" and "\<forall>y \<in> set ys. y * stride + row_bytes \<le> length data"
  shows "copy_rows data stride row_bytes ys acc =
    Inr (acc @ concat (map (\<lambda>y. take row_bytes (drop (y * stride) data)) ys))"
  using assms(2)
proof (induction ys arbitrary: acc)
  case (Cons y ys)
  then have "y * stride + row_bytes < 2 ^ 64" using assms(1) by simp
  then have "y * stride < 2 ^ 64" by linarith
  with \<open>y * stride + row_bytes < 2 ^ 64\<close> Cons show ?case
    by (simp add: checked_mul_def checked_add_def)
qed simp

text \<open>C39. Copying a picture: when the rows fit into the line stride and the buffer holds every
  row, the result is the rows without their padding, \<open>3 * width * height\<close> bytes of it.\<close>

theorem copy_rgb24_rows:
  assumes "3 * width \<le> stride" and "0 < height \<longrightarrow> (height - 1) * stride + 3 * width \<le> length data"
    and "length data < 2 ^ 64" and "stride < 2 ^ 64" and "width * 3 * height < 2 ^ 64"
  shows "\<exists>out. copy_rgb24_frame_data data stride width height = Inr out \<and>
    out = concat (map (\<lambda>y. take (3 * width) (drop (y * stride) data)) [0..<height]) \<and>
    length out = 3 * width * height"
proof -
  have rows: "\<forall>y \<in> set [0..<height]. y * stride + width * 3 \<le> length data"
  proof
    fix y
    assume "y \<in> set [0..<height]"
    then have "y \<le> height - 1" and h: "0 < height" by auto
    then have "y * stride \<le> (height - 1) * stride" by (simp add: mult_le_mono1)
    with h assms(2) show "y * stride + width * 3 \<le> length data" by linarith
  qed
  let ?out = "concat (map (\<lambda>y. take (width * 3) (drop (y * stride) data)) [0..<height])"
  have "width * 3 < 2 ^ 64" using assms(1,4) by linarith
  then have run: "copy_rgb24_frame_data data stride width height = Inr ?out"
    using assms(1,5) copy_rows_ok [OF assms(3) rows]
    by (simp add: copy_rgb24_frame_data_def checked_mul_def)
  have "map (\<lambda>y. length (take (width * 3) (drop (y * stride) data))) [0..<height] =
      map (\<lambda>_. width * 3) [0..<height]"
    using rows by (intro map_cong refl) (drule (1) bspec, simp)
  then have "length ?out = width * 3 * height"
    by (simp only: length_concat map_map o_def) (simp add: sum_list_triv)
  with run show ?thesis by (simp add: mult.commute)
qed

theorem copy_rgb24_rows_witness:
  "copy_rgb24_frame_data [1::nat,2,3,0,4,5,6] 4 1 2 = Inr [1,2,3,4,5,6]"
  using copy_rgb24_rows [of 1 4 2 "[1::nat,2,3,0,4,5,6]"] by (simp add: upt_rec)

section \<open>Which frames are hashed\<close>

definition target_index :: "nat \<Rightarrow> nat \<Rightarrow> nat \<Rightarrow> nat" where
  "target_index num tot i = (if tot > 1
     then (2 * i * (tot - 1) + (num - 1)) div (2 * (num - 1)) else 0)"

definition target_indices :: "nat \<Rightarrow> nat \<Rightarrow> nat list" where
  "target_indices num tot = map (target_index num tot) [0..<num]"

definition metadata_frame_count :: "nat \<Rightarrow> nat \<Rightarrow> nat" where
  "metadata_frame_count total_frames decoded_frames =
     (if total_frames > 0 then total_frames else decoded_frames)"

text \<open>The frames the decoder hands out for one packet (or at the end of the file): the pictures
  kept, the running frame number, and whether enough are kept.\<close>

fun receive_frames :: "('f \<Rightarrow> phash_error + 'p) \<Rightarrow> nat list \<Rightarrow> nat \<Rightarrow> 'f list \<Rightarrow> 'p list \<Rightarrow> nat \<Rightarrow>
    'p list \<times> nat \<times> bool" where
  "receive_frames convert targets num [] frames c = (frames, c, False)"
| "receive_frames convert targets num (f # fs) frames c =
     (if c \<in> set targets
      then (case convert f of
              Inr p \<Rightarrow> if num \<le> length (frames @ [p]) then (frames @ [p], c, True)
                       else receive_frames convert targets num fs (frames @ [p]) (c + 1)
            | Inl _ \<Rightarrow> receive_frames convert targets num fs frames (c + 1))
      else receive_frames convert targets num fs frames (c + 1))"

text \<open>A packet: its stream, whether the decoder takes it, and the frames it yields.\<close>

record 'f packet =
  pk_stream :: nat
  pk_accepted :: bool
  pk_frames :: "'f list"

fun decode_packets :: "('f \<Rightarrow> phash_error + 'p) \<Rightarrow> nat list \<Rightarrow> nat \<Rightarrow> nat \<Rightarrow> 'f packet list \<Rightarrow>
    'p list \<Rightarrow> nat \<Rightarrow> 'p list \<times> nat \<times> bool" where
  "decode_packets convert targets num idx [] frames c = (frames, c, False)"
| "decode_packets convert targets num idx (p # ps) frames c =
     (if pk_stream p = idx \<and> pk_accepted p
      then (case receive_frames convert targets num (pk_frames p) frames c of
              (frames', c', True) \<Rightarrow> (frames', c', True)
            | (frames', c', False) \<Rightarrow> decode_packets convert targets num idx ps frames' c')
      else decode_packets convert targets num idx ps frames c)"

text \<open>What opening a file gives: the metadata of its best video stream, the packets, and the
  frames flushed at the end; or an error.\<close>

record 'f media_file =
  mf_stream :: nat
  mf_total_frames :: nat
  mf_duration :: f64
  mf_width :: nat
  mf_height :: nat
  mf_fps :: f64
  mf_packets :: "'f packet list"
  mf_flushed :: "'f list"

definition extract_frames_with_metadata :: "phasher \<Rightarrow> ('f \<Rightarrow> phash_error + 'p) \<Rightarrow>
    phash_error + 'f media_file \<Rightarrow> phash_error + ('p list \<times> video_metadata)" where
  "extract_frames_with_metadata h convert file = (case file of
      Inl e \<Rightarrow> Inl e
    | Inr m \<Rightarrow>
        let n = ph_num_frames h; targets = target_indices n (mf_total_frames m);
            meta = (\<lambda>c. \<lparr>vm_duration_seconds = mf_duration m,
                     vm_frame_count = metadata_frame_count (mf_total_frames m) c,
                     vm_width = mf_width m, vm_height = mf_height m, vm_fps = mf_fps m\<rparr>)
        in (case decode_packets convert targets n (mf_stream m) (mf_packets m) [] 0 of
              (frames, c, True) \<Rightarrow> Inr (frames, meta c)
            | (frames, c, False) \<Rightarrow>
                (case receive_frames convert targets n (mf_flushed m) frames c of
                   (frames', c', _) \<Rightarrow> Inr (frames', meta c'))))"

fun collect_results :: "(phash_error + 'a) list \<Rightarrow> phash_error + 'a list" where
  "collect_results [] = Inr []"
| "collect_results (r # rs) = (case r of Inl e \<Rightarrow> Inl e
     | Inr x \<Rightarrow> (case collect_results rs of Inl e \<Rightarrow> Inl e | Inr xs \<Rightarrow> Inr (x # xs)))"

definition fill_cyclically :: "nat \<Rightarrow> string list \<Rightarrow> string" where
  "fill_cyclically num hs = concat (map (\<lambda>i. hs ! (i mod length hs)) [0..<num])"

definition hash_video_with_metadata :: "phasher \<Rightarrow> ('f \<Rightarrow> phash_error + 'p) \<Rightarrow>
    (nat \<Rightarrow> 'p \<Rightarrow> phash_error + 8 word list) \<Rightarrow> phash_error + 'f media_file \<Rightarrow>
    phash_error + video_hash_result" where
  "hash_video_with_metadata h convert image_hash file =
     (case extract_frames_with_metadata h convert file of
        Inl e \<Rightarrow> Inl e
      | Inr (frames, meta) \<Rightarrow>
          if frames = [] then Inl NoFrames
          else (case collect_results (map (\<lambda>p. map_sum id hash_to_binary_string
                       (image_hash (ph_hash_size h) p)) frames) of
                  Inl e \<Rightarrow> Inl e
                | Inr hs \<Rightarrow> Inr \<lparr>vh_hash = fill_cyclically (ph_num_frames h) hs, vh_metadata = meta,
                                 vh_hash_kind = HASH_KIND, vh_hash_version = HASH_VERSION\<rparr>))"

lemma collect_results_Inr:
  "collect_results rs = Inr xs \<Longrightarrow> length xs = length rs \<and> (\<forall>x \<in> set xs. Inr x \<in> set rs)"
  by (induction rs arbitrary: xs) (fastforce split: sum.splits)+

lemma fill_length:
  assumes "hs \<noteq> []" and "\<forall>x \<in> set hs. length x = k"
  shows "length (fill_cyclically num hs) = num * k"
proof -
  have "map (\<lambda>i. length (hs ! (i mod length hs))) [0..<num] = map (\<lambda>_. k) [0..<num]"
    using assms by (intro map_cong) auto
  then show ?thesis
    by (simp only: fill_cyclically_def length_concat map_map o_def) (simp add: sum_list_triv)
qed

lemma fill_chars: "hs \<noteq> [] \<Longrightarrow> set (fill_cyclically num hs) \<subseteq> (\<Union>h \<in> set hs. set h)"
  by (fastforce simp: fill_cyclically_def)

text \<open>C38. Every hash the crate returns is a 640-digit binary string of the declared kind and
  version, whatever the file, the damaged packets and the number of frames: relying only on the
  image hasher returning \<open>size * size\<close> bits.\<close>

theorem video_hash_is_640_bits:
  assumes hasher: "\<And>n p bs. image_hash n p = Inr bs \<Longrightarrow> 8 * length bs = n * n"
    and run: "hash_video_with_metadata new_phasher convert image_hash file = Inr v"
  shows "length (vh_hash v) = EXPECTED_BINARY_HASH_LEN \<and> set (vh_hash v) \<subseteq> {CHR ''0'', CHR ''1''} \<and>
    vh_hash_kind v = HASH_KIND \<and> vh_hash_version v = HASH_VERSION"
proof -
  from run obtain frames meta hs where
      ne: "frames \<noteq> []" and hs: "collect_results (map (\<lambda>p. map_sum id hash_to_binary_string
             (image_hash 8 p)) frames) = Inr hs"
      and v: "v = \<lparr>vh_hash = fill_cyclically 10 hs, vh_metadata = meta, vh_hash_kind = HASH_KIND,
                  vh_hash_version = HASH_VERSION\<rparr>"
    by (auto simp: hash_video_with_metadata_def new_phasher_def split: sum.splits prod.splits if_splits)
  from collect_results_Inr [OF hs] ne have hne: "hs \<noteq> []"
    and el: "\<forall>x \<in> set hs. \<exists>p. map_sum id hash_to_binary_string (image_hash 8 p) = Inr x"
    by auto (metis imageE)+
  have each: "length x = 64 \<and> set x \<subseteq> {CHR ''0'', CHR ''1''}" if "x \<in> set hs" for x
  proof -
    from el that obtain p where "map_sum id hash_to_binary_string (image_hash 8 p) = Inr x" by blast
    then obtain bs where "image_hash 8 p = Inr bs" "x = hash_to_binary_string bs"
      by (cases "image_hash 8 p") auto
    with hasher [of 8 p bs] binary_string_chars [of bs] show ?thesis
      by (simp add: binary_string_length)
  qed
  then have "length (fill_cyclically 10 hs) = 10 * 64" using hne by (intro fill_length) auto
  moreover have "set (fill_cyclically 10 hs) \<subseteq> {CHR ''0'', CHR ''1''}"
    using fill_chars [OF hne, of 10] each by blast
  ultimately show ?thesis using v by (simp add: EXPECTED_BINARY_HASH_LEN_def)
qed

definition tiny_file :: "nat media_file" where
  "tiny_file = \<lparr>mf_stream = 0, mf_total_frames = 1, mf_duration = 0, mf_width = 8, mf_height = 8,
     mf_fps = 0, mf_packets = [\<lparr>pk_stream = 0, pk_accepted = True, pk_frames = [7]\<rparr>], mf_flushed = []\<rparr>"

theorem video_hash_is_640_bits_witness:
  "\<exists>v. hash_video_with_metadata new_phasher (\<lambda>f. Inr f)
      (\<lambda>n p. if n = 8 then Inr (replicate 8 (of_nat p)) else Inl NoFrames) (Inr tiny_file) = Inr v \<and>
    length (vh_hash v) = 640"
proof -
  let ?ih = "\<lambda>n (p :: nat). if n = 8 then Inr (replicate 8 (of_nat p)) else Inl NoFrames"
  have "8 * length (bs :: 8 word list) = n * n" if "?ih n p = Inr bs" for n p bs
    using that by (auto split: if_splits)
  moreover have "0 \<in> set (target_indices 10 1)"
    by (simp add: target_indices_def target_index_def image_constant_conv)
  then have "extract_frames_with_metadata new_phasher (\<lambda>f. Inr f) (Inr tiny_file) =
      Inr ([7], \<lparr>vm_duration_seconds = 0, vm_frame_count = 1, vm_width = 8, vm_height = 8, vm_fps = 0\<rparr>)"
    by (simp add: extract_frames_with_metadata_def tiny_file_def new_phasher_def metadata_frame_count_def)
  then have v: "hash_video_with_metadata new_phasher (\<lambda>f. Inr f) ?ih (Inr tiny_file) =
      Inr \<lparr>vh_hash = fill_cyclically 10 [hash_to_binary_string (replicate 8 7)],
        vh_metadata = \<lparr>vm_duration_seconds = 0, vm_frame_count = 1, vm_width = 8, vm_height = 8, vm_fps = 0\<rparr>,
        vh_hash_kind = HASH_KIND, vh_hash_version = HASH_VERSION\<rparr>" (is "_ = Inr ?v")
    by (simp add: hash_video_with_metadata_def new_phasher_def)
  ultimately have "length (vh_hash ?v) = EXPECTED_BINARY_HASH_LEN"
    using video_hash_is_640_bits [OF _ v] by blast
  with v show ?thesis unfolding EXPECTED_BINARY_HASH_LEN_def by blast
qed

section \<open>The frames a long video is hashed from\<close>

lemma target_index_mono: "i \<le> j \<Longrightarrow> target_index num n i \<le> target_index num n j"
  by (auto simp: target_index_def intro!: div_le_mono mult_le_mono1)

lemma target_index_last: "1 < num \<Longrightarrow> 0 < n \<Longrightarrow> target_index num n (num - 1) = n - 1"
proof -
  assume num: "1 < num" and n: "0 < n"
  let ?m = "num - 1"
  have "(2 * ?m * (n - 1) + ?m) div (2 * ?m) = ((n - 1) * (2 * ?m) + ?m) div (2 * ?m)"
    by (simp add: ac_simps)
  also have "\<dots> = n - 1"
    using num by (subst div_mult_self3) simp_all
  finally show ?thesis using n by (cases "n = 1") (simp_all add: target_index_def)
qed

lemma target_index_strict:
  assumes "num \<le> n" and "1 < num" and "i < j"
  shows "target_index num n i < target_index num n j"
proof -
  define m where "m = num - 1"
  have m: "0 < m" and n: "1 < n" and mn: "m \<le> n - 1" using assms by (simp_all add: m_def)
  obtain k where j: "j = i + Suc k" using assms(3) less_iff_Suc_add by auto
  have "m \<le> Suc k * (n - 1)" using mn by simp
  then have "2 * i * (n - 1) + m + 2 * m \<le> 2 * j * (n - 1) + m"
    unfolding j by (simp add: algebra_simps)
  then have "(2 * i * (n - 1) + m + 2 * m) div (2 * m) \<le> (2 * j * (n - 1) + m) div (2 * m)"
    by (rule div_le_mono)
  moreover have "(2 * i * (n - 1) + m + 2 * m) div (2 * m) = (2 * i * (n - 1) + m) div (2 * m) + 1"
    using m by (intro div_add_self2) simp
  ultimately show ?thesis using n unfolding target_index_def m_def [symmetric] by simp
qed

definition delivered :: "'f media_file \<Rightarrow> 'f list" where
  "delivered m = concat (map pk_frames (filter (\<lambda>p. pk_stream p = mf_stream m \<and> pk_accepted p)
     (mf_packets m))) @ mf_flushed m"

lemma receive_append:
  "receive_frames convert ts num (fs @ gs) frames c =
     (case receive_frames convert ts num fs frames c of
        (frames', c', True) \<Rightarrow> (frames', c', True)
      | (frames', c', False) \<Rightarrow> receive_frames convert ts num gs frames' c')"
  by (induction fs arbitrary: frames c) (auto split: sum.splits)

lemma decode_is_receive:
  "decode_packets convert ts num idx ps frames c =
     receive_frames convert ts num
       (concat (map pk_frames (filter (\<lambda>p. pk_stream p = idx \<and> pk_accepted p) ps))) frames c"
  by (induction ps arbitrary: frames c) (auto simp: receive_append split: prod.splits bool.splits)

lemma extract_is_receive:
  "extract_frames_with_metadata h convert (Inr m) =
     (let n = ph_num_frames h;
          r = receive_frames convert (target_indices n (mf_total_frames m)) n (delivered m) [] 0
      in Inr (fst r, \<lparr>vm_duration_seconds = mf_duration m,
            vm_frame_count = metadata_frame_count (mf_total_frames m) (fst (snd r)),
            vm_width = mf_width m, vm_height = mf_height m, vm_fps = mf_fps m\<rparr>))"
proof -
  let ?ts = "target_indices (ph_num_frames h) (mf_total_frames m)"
  obtain fs c b where 1: "decode_packets convert ?ts (ph_num_frames h) (mf_stream m)
      (mf_packets m) [] 0 = (fs, c, b)" by (metis prod_cases3)
  obtain fs' c' b' where 2: "receive_frames convert ?ts (ph_num_frames h) (mf_flushed m) fs c =
      (fs', c', b')" by (metis prod_cases3)
  show ?thesis
    using 1 2 by (cases b)
      (simp_all add: extract_frames_with_metadata_def delivered_def receive_append
        decode_is_receive [symmetric] Let_def)
qed

lemma receive_frames_kept:
  "length frames < num \<Longrightarrow> fst (receive_frames (\<lambda>f. Inr (g f)) ts num fs frames c) =
     take num (frames @ map (\<lambda>(k, f). g f) (filter (\<lambda>(k, f). k \<in> set ts) (enumerate c fs)))"
proof (induction fs arbitrary: frames c)
  case (Cons f fs)
  show ?case
  proof (cases "c \<in> set ts \<and> num \<le> Suc (length frames)")
    case True
    with Cons.prems have "num = Suc (length frames)" by simp
    with True show ?thesis by simp
  next
    case False
    then show ?thesis using Cons.IH [of "frames @ [g f]" "Suc c"] Cons.IH [OF Cons.prems, of "Suc c"] by auto
  qed
qed simp

lemma filter_targets:
  assumes "sorted_wrt (<) ts" and "\<forall>t \<in> set ts. t < length fs"
  shows "filter (\<lambda>(k, f). k \<in> set ts) (enumerate 0 fs) = map (\<lambda>k. (k, fs ! k)) ts"
proof -
  have e: "enumerate 0 fs = map (\<lambda>k. (k, fs ! k)) [0..<length fs]"
    by (rule nth_equalityI) (simp_all add: nth_enumerate_eq)
  have "filter (\<lambda>k. k \<in> set ts) [0..<length fs] = ts"
    using assms by (intro sorted_distinct_set_unique)
      (auto simp: strict_sorted_iff intro: sorted_wrt_filter)
  then show ?thesis by (simp add: e filter_map o_def)
qed

text \<open>A video of at least ten frames is hashed from its frames number \<open>round (i * (n - 1) / 9)\<close>
  for \<open>i = 0 .. 9\<close>: ten distinct positions from the first to the last frame, in order; packets of
  other streams and packets the decoder rejects do not shift them.\<close>

lemma long_video_frames:
  assumes num: "1 < ph_num_frames h" and n: "ph_num_frames h \<le> mf_total_frames m"
    and all: "length (delivered m) = mf_total_frames m"
  shows "\<exists>meta. extract_frames_with_metadata h (\<lambda>f. Inr (g f)) (Inr m) =
      Inr (map (\<lambda>i. g (delivered m ! target_index (ph_num_frames h) (mf_total_frames m) i))
             [0..<ph_num_frames h], meta) \<and>
    vm_frame_count meta = mf_total_frames m \<and>
    target_index (ph_num_frames h) (mf_total_frames m) 0 = 0 \<and>
    target_index (ph_num_frames h) (mf_total_frames m) (ph_num_frames h - 1) = mf_total_frames m - 1 \<and>
    sorted_wrt (<) (target_indices (ph_num_frames h) (mf_total_frames m))"
proof -
  let ?n = "ph_num_frames h" and ?t = "mf_total_frames m"
  have srt: "sorted_wrt (<) (target_indices ?n ?t)"
    unfolding target_indices_def sorted_wrt_map
    by (rule sorted_wrt_mono_rel [OF _ sorted_wrt_upt]) (use target_index_strict [OF n num] in simp)
  have last: "target_index ?n ?t (?n - 1) = ?t - 1"
    using num n by (intro target_index_last) simp_all
  have below: "\<forall>k \<in> set (target_indices ?n ?t). k < length (delivered m)"
  proof
    fix k
    assume "k \<in> set (target_indices ?n ?t)"
    then obtain i where "k = target_index ?n ?t i" "i \<le> ?n - 1"
      by (auto simp: target_indices_def)
    then have "k \<le> ?t - 1" using target_index_mono last by metis
    then show "k < length (delivered m)" using all num n by simp
  qed
  have "fst (receive_frames (\<lambda>f. Inr (g f)) (target_indices ?n ?t) ?n (delivered m) [] 0) =
      map (\<lambda>i. g (delivered m ! target_index ?n ?t i)) [0..<?n]"
    using num by (simp add: receive_frames_kept filter_targets [OF srt below])
      (simp add: target_indices_def o_def)
  moreover have "target_index ?n ?t 0 = 0"
    using num by (simp add: target_index_def)
  ultimately show ?thesis
    using srt last num n by (simp add: extract_is_receive Let_def metadata_frame_count_def)
qed

lemma long_video_frames_witness:
  "\<exists>meta. extract_frames_with_metadata \<lparr>ph_num_frames = 2, ph_hash_size = 8\<rparr> (\<lambda>f. Inr (f + 1))
      (Inr \<lparr>mf_stream = 0, mf_total_frames = 3, mf_duration = 0, mf_width = 8, mf_height = 8, mf_fps = 0,
         mf_packets = [\<lparr>pk_stream = 0, pk_accepted = True, pk_frames = [10, 20]\<rparr>,
           \<lparr>pk_stream = 1, pk_accepted = True, pk_frames = [99]\<rparr>], mf_flushed = [30]\<rparr>) =
     Inr ([11, 31 :: nat], meta)"
  using long_video_frames [of "\<lparr>ph_num_frames = 2, ph_hash_size = 8\<rparr>"
      "\<lparr>mf_stream = 0, mf_total_frames = 3, mf_duration = 0, mf_width = 8, mf_height = 8, mf_fps = 0,
         mf_packets = [\<lparr>pk_stream = 0, pk_accepted = True, pk_frames = [10, 20]\<rparr>,
           \<lparr>pk_stream = 1, pk_accepted = True, pk_frames = [99]\<rparr>], mf_flushed = [30]\<rparr>" "\<lambda>f. f + 1 :: nat"]
  by (auto simp: delivered_def target_index_def upt_rec)

end
