(* ===== verification/PHash_Job.thy ===== *)
theory PHash_Job
  imports Feed PHasher "HOL-Library.Multiset"
begin

text \<open>
  The perceptual-hash drain (\<open>jobs/media_phash.rs\<close>): download and hash each missing video, store the
  hash and announce it in the feed in one transaction, or record the failure with its backoff;
  loop over the pages of the scan until it is empty, the limit is reached or the job is
  cancelled. Parameters (\<open>media_env\<close>): the two object stores, the temporary file and the blocking
  hash computation; the order in which a page's downloads complete (\<open>dc_order\<close>, any permutation of it);
  the number of polls after which the cancellation token is seen set.
\<close>

definition JOB_KIND :: string where
  "JOB_KIND = ''media_phash''"

definition INPUT_MEDIA_VERSION :: string where
  "INPUT_MEDIA_VERSION = ''current_stored_object_v1''"

definition OFFCHAIN_NUM_FRAMES :: int where
  "OFFCHAIN_NUM_FRAMES = 10"

definition OFFCHAIN_HASH_SIZE :: int where
  "OFFCHAIN_HASH_SIZE = 8"

record phash_summary =
  ps_job_run_id :: string
  ps_scanned_rows :: int
  ps_hash_rows_upserted :: int
  ps_hash_feed_events_appended :: int
  ps_row_failures :: int

section \<open>Downloading and hashing one row\<close>

datatype 'a blocking = Panicked string | Finished "string + 'a"

record 'f media_env =
  env_tempfile :: "string \<Rightarrow> string option"
  env_hetzner :: "string \<Rightarrow> string + 'f"
  env_storj :: "string \<Rightarrow> string + 'f"
  env_phash :: "'f \<Rightarrow> video_hash_result blocking"

definition download_error :: "string \<Rightarrow> (string \<times> string) + 'a" where
  "download_error e = Inl (''phash_download'', e)"

definition download_from :: "string \<Rightarrow> (string \<Rightarrow> string + 'f) \<Rightarrow> string option \<Rightarrow> (string \<times> string) + 'f" where
  "download_from name get key = (case key of
       None \<Rightarrow> download_error (name @ '' row missing object_key'')
     | Some k \<Rightarrow> (case get k of
           Inl e \<Rightarrow> download_error (name @ '' download '' @ k @ '': '' @ e)
         | Inr f \<Rightarrow> Inr f))"

definition download_row :: "'f media_env \<Rightarrow> missing_hash_row \<Rightarrow> (string \<times> string) + 'f" where
  "download_row env row = (case mh_storage_provider row of
       Some p \<Rightarrow>
         if p = ''hetzner'' then download_from ''hetzner'' (env_hetzner env) (mh_object_key row)
         else if p = ''storj'' then download_from ''storj'' (env_storj env) (mh_object_key row)
         else download_error (''unknown storage provider: '' @ p)
     | None \<Rightarrow> download_from ''storj'' (env_storj env) (mh_object_key row))"

definition compute_hash :: "'f media_env \<Rightarrow> missing_hash_row \<Rightarrow> (string \<times> string) + video_hash_result" where
  "compute_hash env row = (case env_tempfile env (mh_video_id row) of
       Some e \<Rightarrow> download_error e
     | None \<Rightarrow> (case download_row env row of
         Inl e \<Rightarrow> Inl e
       | Inr f \<Rightarrow> (case env_phash env f of
           Panicked e \<Rightarrow> Inl (''phash_decode'', ''spawn_blocking panic: '' @ e)
         | Finished (Inl e) \<Rightarrow> Inl (''phash_decode'', ''phash: '' @ e)
         | Finished (Inr v) \<Rightarrow> Inr v)))"

section \<open>Persisting one row\<close>

definition build_metadata_json :: "video_metadata \<Rightarrow> json" where
  "build_metadata_json m = JObj [(''duration_seconds'', json_f64 (vm_duration_seconds m)),
     (''frame_count'', JInt (int (vm_frame_count m))), (''width'', JInt (int (vm_width m))),
     (''height'', JInt (int (vm_height m))), (''fps'', json_f64 (vm_fps m))]"

definition build_feed_payload :: "missing_hash_row \<Rightarrow> string \<Rightarrow> json \<Rightarrow> json" where
  "build_feed_payload row hash_value metadata = JObj [(''video_id'', JStr (mh_video_id row)),
     (''servable_status'', JStr (mh_servable_status row)),
     (''storage_provider'', json_opt (mh_storage_provider row)), (''bucket'', json_opt (mh_bucket row)),
     (''object_key'', json_opt (mh_object_key row)), (''hash_kind'', JStr HASH_KIND),
     (''hash_version'', JStr HASH_VERSION), (''input_media_version'', JStr INPUT_MEDIA_VERSION),
     (''hash_value'', JStr hash_value), (''metadata'', metadata)]"

definition hash_input_of :: "missing_hash_row \<Rightarrow> video_hash_result \<Rightarrow> hash_record_input" where
  "hash_input_of row v = \<lparr>hr_video_id = mh_video_id row, hr_hash_kind = HASH_KIND,
     hr_hash_version = HASH_VERSION, hr_input_media_version = INPUT_MEDIA_VERSION,
     hr_hash_value = vh_hash v, hr_hash_bit_length = int (length (vh_hash v)),
     hr_num_frames = OFFCHAIN_NUM_FRAMES, hr_hash_size = OFFCHAIN_HASH_SIZE,
     hr_computed_from_provider = mh_storage_provider row, hr_computed_from_bucket = mh_bucket row,
     hr_computed_from_key = mh_object_key row,
     hr_metadata = Some (build_metadata_json (vh_metadata v))\<rparr>"

definition hash_event_of :: "missing_hash_row \<Rightarrow> video_hash_result \<Rightarrow> feed_event_input" where
  "hash_event_of row v = \<lparr>fi_event_kind = HashUpserted, fi_video_id = mh_video_id row,
     fi_hash_kind = Some HASH_KIND, fi_hash_version = Some HASH_VERSION,
     fi_input_media_version = Some INPUT_MEDIA_VERSION,
     fi_payload = build_feed_payload row (vh_hash v) (build_metadata_json (vh_metadata v))\<rparr>"

text \<open>PostgreSQL's \<open>interval '5 minutes' * power(2, n)\<close> in microseconds: an interval is a 64-bit
  count, and a product beyond it is an error of the statement.\<close>

definition interval_error :: pg_error where
  "interval_error = PgError ''interval out of range''"

definition five_minutes :: int where
  "five_minutes = 300000000"

definition one_day :: int where
  "one_day = 86400000000"

definition backoff_interval :: "int \<Rightarrow> pg_error + int" where
  "backoff_interval n = (if five_minutes * 2 ^ nat n < 2 ^ 63
     then Inr (min (five_minutes * 2 ^ nat n) one_day) else Inl interval_error)"

definition new_failure :: "string \<Rightarrow> int \<Rightarrow> string \<Rightarrow> string \<Rightarrow> string \<Rightarrow> media_job_failure" where
  "new_failure run t video_id ph err = \<lparr>jf_job_run_id = Some run, jf_job_kind = JOB_KIND,
     jf_item_key = video_id, jf_video_id = Some video_id, jf_phase = ph, jf_source_ref = Some video_id,
     jf_retry_count = 1, jf_last_error = err, jf_next_retry_at = Some (t + five_minutes),
     jf_status = ''pending_retry'', jf_created_at = t, jf_updated_at = t\<rparr>"

definition again_failure :: "string \<Rightarrow> int \<Rightarrow> int \<Rightarrow> string \<Rightarrow> string \<Rightarrow> media_job_failure \<Rightarrow> media_job_failure" where
  "again_failure run t wait video_id err f = f\<lparr>jf_job_run_id := Some run, jf_video_id := Some video_id,
     jf_source_ref := Some video_id, jf_last_error := err, jf_status := ''pending_retry'',
     jf_retry_count := jf_retry_count f + 1, jf_next_retry_at := Some (t + wait), jf_updated_at := t\<rparr>"

definition record_row_failure_txn :: "string \<Rightarrow> string \<Rightarrow> string \<Rightarrow> string \<Rightarrow> unit pg" where
  "record_row_failure_txn run video_id ph err = stmt (\<lambda>d.
     if \<not> has_key jr_id run (job_runs d) then Inl fk_error
     else case row_of failure_key (JOB_KIND, video_id, ph) (job_failures d) of
       None \<Rightarrow> Inr ((), d\<lparr>job_failures := job_failures d @ [new_failure run (now_us d) video_id ph err]\<rparr>)
     | Some f \<Rightarrow> (case backoff_interval (jf_retry_count f) of
           Inl e \<Rightarrow> Inl e
         | Inr wait \<Rightarrow> Inr ((), d\<lparr>job_failures := update_where
               (\<lambda>f. failure_key f = (JOB_KIND, video_id, ph))
               (again_failure run (now_us d) wait video_id err) (job_failures d)\<rparr>)))"

definition clear_failures :: "string \<Rightarrow> pgdb \<Rightarrow> pgdb" where
  "clear_failures v d = d\<lparr>job_failures :=
     delete_where (\<lambda>f. jf_job_kind f = JOB_KIND \<and> jf_video_id f = Some v) (job_failures d)\<rparr>"

definition persist_one :: "string \<Rightarrow> missing_hash_row \<Rightarrow> (string \<times> string) + video_hash_result \<Rightarrow>
    phash_summary \<Rightarrow> phash_summary pg" where
  "persist_one run row hash_result s = transaction (case hash_result of
       Inr v \<Rightarrow>
         bnd (upsert_hash_record_txn (hash_input_of row v)) (\<lambda>out.
         bnd (if out = Inserted \<or> out = Changed
              then bnd (append_feed_event_txn (hash_event_of row v)) (\<lambda>_.
                   ret (s\<lparr>ps_hash_rows_upserted := ps_hash_rows_upserted s + 1,
                          ps_hash_feed_events_appended := ps_hash_feed_events_appended s + 1\<rparr>))
              else ret s) (\<lambda>s'.
         bnd (exec (clear_failures (mh_video_id row))) (\<lambda>_.
         ret s')))
     | Inl (ph, err) \<Rightarrow>
         bnd (record_row_failure_txn run (mh_video_id row) ph err) (\<lambda>_.
         ret (s\<lparr>ps_row_failures := ps_row_failures s + 1\<rparr>)))"

section \<open>The job run\<close>

definition insert_job_run :: "string \<Rightarrow> string \<Rightarrow> unit pg" where
  "insert_job_run run requested_by = stmt (\<lambda>d.
     if has_key jr_id run (job_runs d) then Inl (PgError ''duplicate key value'')
     else Inr ((), d\<lparr>job_runs := job_runs d @ [\<lparr>jr_id = run, jr_job_kind = JOB_KIND,
        jr_status = ''running'', jr_requested_by = requested_by, jr_started_at = now_us d,
        jr_finished_at = None, jr_cursor = None, jr_totals = None, jr_error_message = None\<rparr>]\<rparr>))"

definition summary_totals :: "phash_summary \<Rightarrow> json" where
  "summary_totals s = JObj [(''scanned_rows'', JInt (ps_scanned_rows s)),
     (''hash_rows_upserted'', JInt (ps_hash_rows_upserted s)),
     (''hash_feed_events_appended'', JInt (ps_hash_feed_events_appended s)),
     (''row_failures'', JInt (ps_row_failures s))]"

definition complete_job_run :: "phash_summary \<Rightarrow> string \<Rightarrow> unit pg" where
  "complete_job_run s status = exec (\<lambda>d. d\<lparr>job_runs :=
     update_where (\<lambda>r. jr_id r = ps_job_run_id s)
       (\<lambda>r. r\<lparr>jr_status := status, jr_finished_at := Some (now_us d),
               jr_totals := Some (summary_totals s), jr_error_message := None\<rparr>) (job_runs d)\<rparr>)"

definition mark_job_run_failed :: "string \<Rightarrow> string \<Rightarrow> unit pg" where
  "mark_job_run_failed run err = exec (\<lambda>d. d\<lparr>job_runs :=
     update_where (\<lambda>r. jr_id r = run)
       (\<lambda>r. r\<lparr>jr_status := ''failed'', jr_finished_at := Some (now_us d),
               jr_error_message := Some err\<rparr>) (job_runs d)\<rparr>)"

definition run_status :: "int \<Rightarrow> string" where
  "run_status row_failures = (if row_failures = 0 then ''succeeded'' else ''succeeded_with_failures'')"

definition terminal_status :: "bool \<Rightarrow> int \<Rightarrow> string" where
  "terminal_status cancelled row_failures = (if cancelled then ''cancelled'' else run_status row_failures)"

text \<open>The cancellation token as the code polls it: set from its \<open>n\<close>-th poll on, or never.\<close>

definition is_cancelled :: "nat option \<Rightarrow> nat \<Rightarrow> bool" where
  "is_cancelled cancel k \<longleftrightarrow> (case cancel of None \<Rightarrow> False | Some n \<Rightarrow> n \<le> k)"

text \<open>One page's completed downloads, in the order they complete. The result is the summary, the
  number of polls so far and whether the loop stopped on a cancellation.\<close>

fun persist_stream :: "'f media_env \<Rightarrow> nat option \<Rightarrow> string \<Rightarrow> missing_hash_row list \<Rightarrow>
    phash_summary \<Rightarrow> nat \<Rightarrow> (phash_summary \<times> nat \<times> bool) pg" where
  "persist_stream env cancel run [] s k = ret (s, k, False)"
| "persist_stream env cancel run (row # rows) s k =
     (if is_cancelled cancel k then ret (s, k + 1, True)
      else bnd (persist_one run row (compute_hash env row)
                  (s\<lparr>ps_scanned_rows := ps_scanned_rows s + 1\<rparr>)) (\<lambda>s'.
           persist_stream env cancel run rows s' (k + 1)))"

record 'f drain_config =
  dc_env :: "'f media_env"
  dc_hashtext :: "string \<Rightarrow> int"
  dc_order :: "missing_hash_row list \<Rightarrow> missing_hash_row list"
  dc_cancel :: "nat option"
  dc_limit :: "int option"
  dc_shard :: "(int \<times> int) option"
  dc_page_size :: int

text \<open>\<open>buffer_unordered\<close>: every item of the page exactly once, in any order.\<close>

definition completed :: "('a list \<Rightarrow> 'a list) \<Rightarrow> 'a list \<Rightarrow> 'a list" where
  "completed order rows = (if mset (order rows) = mset rows then order rows else rows)"

lemma completed_mset [simp]: "mset (completed order rows) = mset rows"
  by (simp add: completed_def)

lemma completed_set [simp]: "set (completed order rows) = set rows"
  by (metis completed_mset set_mset_mset)

lemma completed_length [simp]: "length (completed order rows) = length rows"
  by (metis completed_mset size_mset)

lemma completed_distinct: "distinct (map f (completed order rows)) = distinct (map f rows)"
  by (metis completed_mset mset_map mset_eq_imp_distinct_iff)

text \<open>The page loop with fuel; \<open>None\<close> means out of fuel.\<close>

fun drain_loop :: "'f drain_config \<Rightarrow> string \<Rightarrow> nat \<Rightarrow> string option \<Rightarrow> phash_summary \<Rightarrow> nat \<Rightarrow>
    (phash_summary \<times> bool) option pg" where
  "drain_loop c run 0 after s k = ret None"
| "drain_loop c run (Suc fuel) after s k =
     (if is_cancelled (dc_cancel c) k then ret (Some (s, True))
      else let remaining = map_option (\<lambda>l. l - ps_scanned_rows s) (dc_limit c) in
        if remaining = Some 0 then ret (Some (s, False))
        else let batch_limit = (case remaining of Some r \<Rightarrow> min r (dc_page_size c)
                                               | None \<Rightarrow> dc_page_size c) in
          bnd (videos_missing_canonical_phash (dc_hashtext c) HASH_KIND HASH_VERSION
                 INPUT_MEDIA_VERSION after (Some batch_limit) (dc_shard c)) (\<lambda>rows.
          if rows = [] then ret (Some (s, False))
          else bnd (persist_stream (dc_env c) (dc_cancel c) run (completed (dc_order c) rows) s (k + 1))
             (\<lambda>(s', k', cancelled).
               if cancelled then ret (Some (s', True))
               else bnd (attempt (update_job_run_totals run (summary_totals s'))) (\<lambda>_.
                    drain_loop c run fuel (Some (mh_video_id (last rows))) s' k'))))"

definition zero_summary :: "string \<Rightarrow> phash_summary" where
  "zero_summary run = \<lparr>ps_job_run_id = run, ps_scanned_rows = 0, ps_hash_rows_upserted = 0,
     ps_hash_feed_events_appended = 0, ps_row_failures = 0\<rparr>"

definition run_inner :: "'f drain_config \<Rightarrow> nat \<Rightarrow> string \<Rightarrow> phash_summary option pg" where
  "run_inner c fuel run =
     bnd (drain_loop c run fuel None (zero_summary run) 0) (\<lambda>r.
       case r of
         None \<Rightarrow> ret None
       | Some (s, cancelled) \<Rightarrow>
           bnd (complete_job_run s (terminal_status cancelled (ps_row_failures s))) (\<lambda>_.
           ret (Some s)))"

text \<open>The first statement stands for opening the connection.\<close>

definition phash_run :: "'f drain_config \<Rightarrow> nat \<Rightarrow> string \<Rightarrow> string \<Rightarrow> phash_summary option pg" where
  "phash_run c fuel run requested_by =
     bnd (exec id) (\<lambda>_.
     bnd (insert_job_run run requested_by) (\<lambda>_.
     bnd (attempt (run_inner c fuel run)) (\<lambda>r.
       case r of
         Inr x \<Rightarrow> ret x
       | Inl (PgError e) \<Rightarrow>
           bnd (attempt (mark_job_run_failed run (''postgres media_phash job failed: '' @ e))) (\<lambda>_.
           raise (PgError e)))))"

section \<open>Integrity under faults\<close>

lemma safe_insert_job_run [safe_intros]: "safe (insert_job_run run by')"
  unfolding insert_job_run_def
  by (rule safe_stmt) (auto simp: db_ok_defs uniq_snoc split: if_splits)

lemma safe_complete_job_run [safe_intros]: "safe (complete_job_run s st)"
  unfolding complete_job_run_def by (rule safe_exec) (simp_all add: db_ok_run_update)

lemma safe_mark_job_run_failed [safe_intros]: "safe (mark_job_run_failed run e)"
  unfolding mark_job_run_failed_def by (rule safe_exec) (simp_all add: db_ok_run_update)

lemma failure_key_simps [simp]:
  "failure_key (new_failure run t v ph e) = (JOB_KIND, v, ph)"
  "failure_key (again_failure run t w v e f) = failure_key f"
  "jf_job_run_id (new_failure run t v ph e) = Some run"
  "jf_job_run_id (again_failure run t w v e f) = Some run"
  by (simp_all add: failure_key_def new_failure_def again_failure_def)

lemma safe_record_failure [safe_intros]: "safe (record_row_failure_txn run v ph e)"
  unfolding record_row_failure_txn_def
proof (rule safe_stmt, goal_cases)
  case (1 d x d')
  then show ?case
    by (auto simp: db_ok_defs uniq_snoc uniq_update_where row_of_None_iff set_update_where
        split: if_splits option.splits sum.splits)
qed

lemma safe_clear_failures [safe_intros]: "safe (exec (clear_failures v))"
  by (rule safe_exec) (auto simp: db_ok_defs clear_failures_def uniq_delete_where)

lemma safe_persist_one [safe_intros]: "safe (persist_one run row hr s)"
  unfolding persist_one_def by (intro safe_intros)

lemma safe_persist_stream [safe_intros]: "safe (persist_stream env cancel run rows s k)"
  by (induction rows arbitrary: s k) (auto intro!: safe_intros)

lemma safe_videos_missing [safe_intros]:
  "safe (videos_missing_canonical_phash ht kind ver imv after lim shard)"
  unfolding videos_missing_canonical_phash_def
  by (rule safe_stmt) (auto split: if_splits)

lemma safe_drain_loop [safe_intros]: "safe (drain_loop c run fuel after s k)"
  by (induction fuel arbitrary: after s k) (auto simp: Let_def intro!: safe_intros)

lemma safe_phash_run [safe_intros]: "safe (phash_run c fuel run by')"
proof -
  have "safe (exec (id :: pgdb \<Rightarrow> pgdb))" by (rule safe_exec) simp_all
  then show ?thesis
    unfolding phash_run_def run_inner_def
    by (auto intro!: safe_intros split: pg_error.splits)
qed

end
