(* ===== verification/PHash_Job_Props.thy ===== *)
theory PHash_Job_Props
  imports PHash_Job
begin

text \<open>
  The properties of the perceptual-hash drain: what one row does to the database, that a hash is
  never stored without its announcement, that a drain ends and leaves nothing eligible, that the
  limit is respected, and the row that stops every drain once its retry count is high.
\<close>

section \<open>One row\<close>

definition record_failure_db :: "string \<Rightarrow> string \<Rightarrow> string \<Rightarrow> string \<Rightarrow> pgdb \<Rightarrow> pgdb" where
  "record_failure_db run v ph err d = (case row_of failure_key (JOB_KIND, v, ph) (job_failures d) of
       None \<Rightarrow> d\<lparr>job_failures := job_failures d @ [new_failure run (now_us d) v ph err]\<rparr>
     | Some f \<Rightarrow> d\<lparr>job_failures := update_where (\<lambda>f. failure_key f = (JOB_KIND, v, ph))
           (again_failure run (now_us d) (min (five_minutes * 2 ^ nat (jf_retry_count f)) one_day) v err)
           (job_failures d)\<rparr>)"

definition hash_outcome :: "missing_hash_row \<Rightarrow> video_hash_result \<Rightarrow> pgdb \<Rightarrow> upsert_outcome" where
  "hash_outcome row v d = outcome_of hash_material_matches (hash_input_of row v)
     (row_of hash_key (hash_key (hash_input_of row v)) (video_hashes d))"

definition persist_db :: "string \<Rightarrow> missing_hash_row \<Rightarrow> (string \<times> string) + video_hash_result \<Rightarrow> pgdb \<Rightarrow> pgdb" where
  "persist_db run row hr d = end_tx (case hr of
       Inr v \<Rightarrow> clear_failures (mh_video_id row)
          ((if hash_outcome row v d = Unchanged then id else announce (hash_event_of row v))
             (put_hash (hash_input_of row v) d))
     | Inl (ph, err) \<Rightarrow> record_failure_db run (mh_video_id row) ph err d)"

definition persist_summary :: "missing_hash_row \<Rightarrow> (string \<times> string) + video_hash_result \<Rightarrow> pgdb \<Rightarrow>
    phash_summary \<Rightarrow> phash_summary" where
  "persist_summary row hr d s = (case hr of
       Inr v \<Rightarrow> if hash_outcome row v d = Unchanged then s
          else s\<lparr>ps_hash_rows_upserted := ps_hash_rows_upserted s + 1,
                 ps_hash_feed_events_appended := ps_hash_feed_events_appended s + 1\<rparr>
     | Inl _ \<Rightarrow> s\<lparr>ps_row_failures := ps_row_failures s + 1\<rparr>)"

definition retry_small :: "string \<Rightarrow> pgdb \<Rightarrow> bool" where
  "retry_small v d \<longleftrightarrow> (\<forall>f \<in> set (job_failures d).
     jf_job_kind f = JOB_KIND \<longrightarrow> jf_item_key f = v \<longrightarrow> jf_retry_count f < 35)"

lemma backoff_small: "n < 35 \<Longrightarrow> backoff_interval n = Inr (min (five_minutes * 2 ^ nat n) one_day)"
proof -
  assume "n < 35"
  then have "(2::int) ^ nat n \<le> 2 ^ 34" by (intro power_increasing) simp_all
  then have "five_minutes * 2 ^ nat n \<le> five_minutes * 2 ^ 34" by (simp add: five_minutes_def)
  then show ?thesis by (simp add: backoff_interval_def) (simp add: five_minutes_def)
qed

lemma backoff_large: "35 \<le> n \<Longrightarrow> backoff_interval n = Inl interval_error"
proof -
  assume "35 \<le> n"
  then have "(2::int) ^ 35 \<le> 2 ^ nat n" by (intro power_increasing) simp_all
  then have "five_minutes * 2 ^ 35 \<le> five_minutes * 2 ^ nat n" by (simp add: five_minutes_def)
  then show ?thesis by (simp add: backoff_interval_def) (simp add: five_minutes_def)
qed

lemma hash_input_simps [simp]:
  "hr_video_id (hash_input_of row v) = mh_video_id row"
  "hash_key (hash_input_of row v) = (mh_video_id row, HASH_KIND, HASH_VERSION, INPUT_MEDIA_VERSION)"
  "hr_hash_value (hash_input_of row v) = vh_hash v"
  "fi_video_id (hash_event_of row v) = mh_video_id row"
  by (simp_all add: hash_input_of_def hash_key_def hash_event_of_def)

lemma record_failure_run:
  assumes "has_key jr_id run (job_runs d)" and "retry_small v d"
  shows "record_row_failure_txn run v ph err ([], d) = (Inr (), [], record_failure_db run v ph err d)"
proof (cases "row_of failure_key (JOB_KIND, v, ph) (job_failures d)")
  case None
  with assms show ?thesis by (simp add: record_row_failure_txn_def run_stmt record_failure_db_def)
next
  case (Some f)
  then have "jf_retry_count f < 35"
    using assms(2) by (fastforce simp: retry_small_def failure_key_def dest: row_of_SomeD)
  with Some assms show ?thesis
    by (simp add: record_row_failure_txn_def run_stmt record_failure_db_def backoff_small)
qed

lemma persist_one_run:
  assumes "in_master (mh_video_id row) d" and "has_key jr_id run (job_runs d)"
    and "retry_small (mh_video_id row) d"
  shows "persist_one run row hr s ([], d) =
     (Inr (persist_summary row hr d s), [], persist_db run row hr d)"
proof (cases hr)
  case (Inl pe)
  obtain ph err where pe: "pe = (ph, err)" by (cases pe)
  show ?thesis
    using assms Inl pe record_failure_run [OF assms(2,3)]
    by (simp add: persist_one_def run_simps persist_summary_def persist_db_def)
next
  case (Inr v)
  have "upsert_hash_record_txn (hash_input_of row v) ([], d) =
      (Inr (hash_outcome row v d), [], put_hash (hash_input_of row v) d)"
    using upsert_hash_run [of "hash_input_of row v" d] assms(1) by (simp add: hash_outcome_def)
  moreover have "in_master (fi_video_id (hash_event_of row v)) (put_hash (hash_input_of row v) d)"
    using assms(1) by (simp add: in_master_def)
  ultimately show ?thesis
    using Inr append_run by (cases "hash_outcome row v d")
      (simp_all add: persist_one_def run_simps persist_summary_def persist_db_def)
qed

section \<open>Hashes are announced\<close>

definition json_field :: "string \<Rightarrow> json \<Rightarrow> json option" where
  "json_field k j = (case j of JObj kvs \<Rightarrow> map_of kvs k | _ \<Rightarrow> None)"

definition announces :: "hash_record \<Rightarrow> feed_row \<Rightarrow> bool" where
  "announces h e \<longleftrightarrow> fr_event_kind e = kind_as_str HashUpserted \<and> fr_video_id e = hr_video_id h \<and>
     fr_hash_kind e = Some (hr_hash_kind h) \<and> fr_hash_version e = Some (hr_hash_version h) \<and>
     fr_input_media_version e = Some (hr_input_media_version h) \<and>
     json_field ''hash_value'' (fr_payload e) = Some (JStr (hr_hash_value h))"

definition announced :: "pgdb \<Rightarrow> bool" where
  "announced d \<longleftrightarrow> (\<forall>h \<in> set (video_hashes d). hr_hash_kind h = HASH_KIND \<longrightarrow>
     hr_hash_version h = HASH_VERSION \<longrightarrow> hr_input_media_version h = INPUT_MEDIA_VERSION \<longrightarrow>
     (\<exists>e \<in> set (feed_rows d). announces h e))"

lemma announced_cong:
  "video_hashes d = video_hashes d' \<Longrightarrow> feed_rows d = feed_rows d' \<Longrightarrow> announced d = announced d'"
  by (simp add: announced_def)

lemma event_announces:
  "hash_key h = hash_key (hash_input_of row v) \<Longrightarrow> hr_hash_value h = vh_hash v \<Longrightarrow>
   announces h (feed_row_of c t (hash_event_of row v))"
  by (simp add: announces_def feed_row_of_def hash_event_of_def hash_key_def json_field_def
      build_feed_payload_def hash_input_of_def)

lemma put_hash_rows:
  assumes "h \<in> set (video_hashes (put_hash i d))"
  shows "h \<in> set (video_hashes d) \<or> (hash_key h = hash_key i \<and> hr_hash_value h = hr_hash_value i)"
  using assms
  by (auto simp: put_hash_def hr_fresh_def hr_apply_def hash_key_def hash_record_input.defs
      hash_record.defs update_where_def split: option.splits if_splits)

lemma announced_step:
  assumes "announced d" and "outcome_of hash_material_matches (hash_input_of row v)
      (row_of hash_key (hash_key (hash_input_of row v)) (video_hashes d)) \<noteq> Unchanged"
  shows "announced (announce (hash_event_of row v) (put_hash (hash_input_of row v) d))"
  unfolding announced_def
proof (intro ballI impI)
  let ?d = "announce (hash_event_of row v) (put_hash (hash_input_of row v) d)"
  fix h
  assume "h \<in> set (video_hashes ?d)" and k: "hr_hash_kind h = HASH_KIND"
      "hr_hash_version h = HASH_VERSION" "hr_input_media_version h = INPUT_MEDIA_VERSION"
  then have "h \<in> set (video_hashes d) \<or>
      (hash_key h = hash_key (hash_input_of row v) \<and> hr_hash_value h = vh_hash v)"
    using put_hash_rows [of h "hash_input_of row v" d] by (simp add: announce_def)
  then show "\<exists>e \<in> set (feed_rows ?d). announces h e"
  proof
    assume "h \<in> set (video_hashes d)"
    with assms(1) k show ?thesis by (auto simp: announced_def announce_def)
  next
    assume "hash_key h = hash_key (hash_input_of row v) \<and> hr_hash_value h = vh_hash v"
    then show ?thesis using event_announces [of h row v] by (auto simp: announce_def)
  qed
qed

lemma announced_unchanged:
  assumes "announced d" and "outcome_of hash_material_matches i
      (row_of hash_key (hash_key i) (video_hashes d)) = Unchanged"
  shows "announced (put_hash i d)"
  using assms by (auto simp: outcome_of_def put_hash_def split: option.splits if_splits)

lemma honest_record_failure [honest_intros]: "honest (record_row_failure_txn run v ph e)"
  unfolding record_row_failure_txn_def by (intro honest_intros)

lemma announced_persist_one: "preserves announced (persist_one run row hr s)"
  unfolding persist_one_def
proof (rule pres_tx_body, goal_cases)
  case (1 p d x q d2)
  show ?case
  proof (cases hr)
    case (Inl pe)
    obtain ph err where pe: "pe = (ph, err)" by (cases pe)
    have "honest (bnd (record_row_failure_txn run (mh_video_id row) ph err) (\<lambda>_.
         ret (s\<lparr>ps_row_failures := ps_row_failures s + 1\<rparr>)))"
      by (intro honest_intros)
    from honestD [OF this] 1 Inl pe have "video_hashes d2 = video_hashes d \<and> feed_rows d2 = feed_rows d"
      by (fastforce simp: run_bnd record_row_failure_txn_def run_stmt
          split: sum.splits option.splits if_splits)
    with 1(1) show ?thesis by (simp add: announced_def)
  next
    case (Inr v)
    let ?i = "hash_input_of row v"
    let ?m = "bnd (upsert_hash_record_txn ?i) (\<lambda>out.
         bnd (if out = Inserted \<or> out = Changed
              then bnd (append_feed_event_txn (hash_event_of row v)) (\<lambda>_.
                   ret (s\<lparr>ps_hash_rows_upserted := ps_hash_rows_upserted s + 1,
                          ps_hash_feed_events_appended := ps_hash_feed_events_appended s + 1\<rparr>))
              else ret s) (\<lambda>s'.
         bnd (exec (clear_failures (mh_video_id row))) (\<lambda>_. ret s')))"
    have "honest ?m" by (intro honest_intros)
    from honestD [OF this] 1(2) Inr have run: "?m ([], d) = (Inr x, [], d2)" by simp
    obtain r1 p1 d1 where u: "upsert_hash_record_txn ?i ([], d) = (r1, p1, d1)" by (metis prod_cases3)
    with run obtain o1 where r1: "r1 = Inr o1" by (cases r1) (auto simp: run_bnd)
    from honestD [OF honest_upsert_hash] u r1 have p1: "p1 = []" by fastforce
    from upsert_hash_ok u r1 have d1: "d1 = put_hash ?i d" and o1: "o1 = outcome_of hash_material_matches ?i
        (row_of hash_key (hash_key ?i) (video_hashes d))" by blast+
    show ?thesis
    proof (cases "o1 = Unchanged")
      case True
      with run u r1 p1 have "d2 = clear_failures (mh_video_id row) d1" by (simp add: run_simps)
      with announced_unchanged [OF 1(1), of ?i] d1 o1 True show ?thesis
        by (simp add: announced_def clear_failures_def)
    next
      case False
      then have "o1 = Inserted \<or> o1 = Changed" by (cases o1) auto
      with run u r1 p1 obtain c q3 d3 where a: "append_feed_event_txn (hash_event_of row v) ([], d1) = (Inr c, q3, d3)"
          and d2: "d2 = clear_failures (mh_video_id row) d3"
        by (auto simp: run_simps split: sum.splits prod.splits dest: exec_ok)
      from append_ok [OF a] d1 have "d3 = announce (hash_event_of row v) (put_hash ?i d)" by simp
      with announced_step [OF 1(1)] False o1 d2 show ?thesis
        by (simp add: announced_def clear_failures_def)
    qed
  qed
qed (simp_all add: announced_def end_tx_def rollback_tx_def)

lemma announced_persist_stream: "preserves announced (persist_stream env cancel run rows s k)"
  by (induction rows arbitrary: s k) (auto intro!: pres announced_persist_one)

lemma announced_totals: "preserves announced (update_job_run_totals r t)"
  unfolding update_job_run_totals_def by (rule pres_exec) (simp add: announced_def)

lemma announced_missing:
  "preserves announced (videos_missing_canonical_phash ht kind ver imv after lim shard)"
  unfolding videos_missing_canonical_phash_def by (rule pres_stmt) (auto split: if_splits)

lemma announced_drain_loop: "preserves announced (drain_loop c run fuel after s k)"
proof (induction fuel arbitrary: after s k)
  case (Suc fuel)
  then show ?case
    by (auto simp: Let_def split: prod.splits intro!: pres announced_persist_stream announced_totals
        announced_missing)
qed (simp add: pres)

text \<open>C2. No hash without its announcement: if every stored canonical hash has a
  \<open>hash_upserted\<close> event that carries its value, then this is so after any run of the drain,
  wherever the run fails: at any statement, in the middle of a transaction, at a commit.\<close>

theorem hashes_stay_announced:
  assumes "announced d"
  shows "announced (db_after (phash_run c fuel run by') (plan, d))"
proof -
  have "preserves announced (insert_job_run run by')"
    unfolding insert_job_run_def by (rule pres_stmt) (auto simp: announced_def split: if_splits)
  moreover have "preserves announced (complete_job_run s st)" for s st
    unfolding complete_job_run_def by (rule pres_exec) (simp add: announced_def)
  moreover have "preserves announced (mark_job_run_failed run e)" for e
    unfolding mark_job_run_failed_def by (rule pres_exec) (simp add: announced_def)
  moreover have "preserves announced (exec id)"
    by (rule pres_exec) simp
  ultimately have "preserves announced (phash_run c fuel run by')"
    unfolding phash_run_def run_inner_def
    by (auto intro!: pres announced_drain_loop split: sum.splits option.splits prod.splits pg_error.splits)
  then show ?thesis using assms by (rule preservesD)
qed

section \<open>A whole drain\<close>

definition wf_failures :: "pgdb \<Rightarrow> bool" where
  "wf_failures d \<longleftrightarrow> (\<forall>f \<in> set (job_failures d).
     jf_job_kind f = JOB_KIND \<longrightarrow> jf_video_id f = Some (jf_item_key f))"

definition drain_ok :: "string \<Rightarrow> pgdb \<Rightarrow> bool" where
  "drain_ok run d \<longleftrightarrow> db_ok d \<and> has_key jr_id run (job_runs d) \<and> wf_failures d \<and>
     (\<forall>f \<in> set (job_failures d). jf_job_kind f = JOB_KIND \<longrightarrow> 35 \<le> jf_retry_count f \<longrightarrow>
        backing_off (now_us d) f)"

definition canonical :: "pgdb \<Rightarrow> string \<Rightarrow> bool" where
  "canonical d v \<longleftrightarrow> has_hash HASH_KIND HASH_VERSION INPUT_MEDIA_VERSION d v"

definition row_done :: "missing_hash_row \<Rightarrow> (string \<times> string) + video_hash_result \<Rightarrow> pgdb \<Rightarrow> bool" where
  "row_done row hr d \<longleftrightarrow> (case hr of
       Inr v \<Rightarrow> canonical d (mh_video_id row)
     | Inl (ph, err) \<Rightarrow> (\<exists>f \<in> set (job_failures d). failure_key f = (JOB_KIND, mh_video_id row, ph) \<and>
          jf_video_id f = Some (mh_video_id row) \<and> jf_last_error f = err \<and> backing_off (now_us d) f))"

lemma retry_small_if:
  "drain_ok run d \<Longrightarrow> not_backing_off d v \<Longrightarrow> retry_small v d"
  by (fastforce simp: drain_ok_def not_backing_off_def retry_small_def wf_failures_def)

lemma persist_db_frame [simp]:
  "servable_videos (persist_db run row hr d) = servable_videos d"
  "now_us (persist_db run row hr d) = now_us d"
  "job_runs (persist_db run row hr d) = job_runs d"
  by (auto simp: persist_db_def end_tx_def clear_failures_def announce_def record_failure_db_def
      split: sum.splits option.splits prod.splits)

lemma record_failure_frame [simp]:
  "video_hashes (record_failure_db run v ph e d) = video_hashes d"
  "now_us (record_failure_db run v ph e d) = now_us d"
  by (simp_all add: record_failure_db_def split: option.split)

lemma persist_db_canonical:
  "canonical (persist_db run row hr d) v \<longleftrightarrow>
     canonical d v \<or> (v = mh_video_id row \<and> (\<exists>x. hr = Inr x))"
  by (auto simp: persist_db_def canonical_def has_hash_def end_tx_def clear_failures_def
      announce_def put_hash_has split: sum.splits)

lemma record_failure_set:
  assumes "f \<in> set (job_failures (record_failure_db run v ph e d))"
  shows "f \<in> set (job_failures d) \<or> (failure_key f = (JOB_KIND, v, ph) \<and> jf_video_id f = Some v \<and>
     jf_last_error f = e \<and> backing_off (now_us d) f)"
  using assms
  by (auto simp: record_failure_db_def set_update_where new_failure_def again_failure_def
      failure_key_def backing_off_def five_minutes_def one_day_def split: option.splits if_splits)

lemma record_failure_keeps:
  "f \<in> set (job_failures d) \<Longrightarrow> failure_key f \<noteq> (JOB_KIND, v, ph) \<Longrightarrow>
   f \<in> set (job_failures (record_failure_db run v ph e d))"
  by (auto simp: record_failure_db_def set_update_where image_iff split: option.splits)

lemma record_failure_has:
  "\<exists>f \<in> set (job_failures (record_failure_db run v ph e d)). failure_key f = (JOB_KIND, v, ph) \<and>
     jf_video_id f = Some v \<and> jf_last_error f = e \<and> backing_off (now_us d) f"
proof (cases "row_of failure_key (JOB_KIND, v, ph) (job_failures d)")
  case None
  then show ?thesis
    by (simp add: record_failure_db_def new_failure_def failure_key_def backing_off_def five_minutes_def)
next
  case (Some f)
  let ?w = "min (five_minutes * 2 ^ nat (jf_retry_count f)) one_day"
  let ?f = "again_failure run (now_us d) ?w v e f"
  have f: "f \<in> set (job_failures d)" "failure_key f = (JOB_KIND, v, ph)"
    using row_of_SomeD [OF Some] by auto
  then have "?f \<in> set (job_failures (record_failure_db run v ph e d))"
    using Some by (auto simp: record_failure_db_def set_update_where image_iff)
  moreover have "0 < ?w" by (simp add: five_minutes_def one_day_def)
  ultimately show ?thesis
    using f(2) by (intro bexI [of _ ?f]) (auto simp: again_failure_def failure_key_def backing_off_def)
qed

lemma persist_db_failures:
  assumes "f \<in> set (job_failures (persist_db run row hr d))"
  shows "f \<in> set (job_failures d) \<or> (\<exists>ph. failure_key f = (JOB_KIND, mh_video_id row, ph) \<and>
     jf_video_id f = Some (mh_video_id row) \<and> backing_off (now_us d) f)"
  using assms
  by (auto simp: persist_db_def end_tx_def clear_failures_def announce_def
      split: sum.splits if_splits dest: record_failure_set)

lemma persist_db_keeps:
  assumes "wf_failures d" and "f \<in> set (job_failures d)" and "jf_video_id f \<noteq> Some (mh_video_id row)"
  shows "f \<in> set (job_failures (persist_db run row hr d))"
proof -
  have "failure_key f \<noteq> (JOB_KIND, mh_video_id row, ph)" for ph
    using assms by (auto simp: wf_failures_def failure_key_def)
  with assms(2,3) show ?thesis
    by (auto simp: persist_db_def end_tx_def clear_failures_def announce_def
        split: sum.splits intro!: record_failure_keeps)
qed

lemma persist_db_backing:
  assumes "wf_failures d" and "v \<noteq> mh_video_id row"
  shows "not_backing_off (persist_db run row hr d) v = not_backing_off d v"
  using assms persist_db_keeps [OF assms(1)] persist_db_failures
  by (fastforce simp: not_backing_off_def)

lemma persist_db_row_done: "row_done row hr (persist_db run row hr d)"
proof (cases hr)
  case (Inl pe)
  then show ?thesis
    using record_failure_has [of run "mh_video_id row" "fst pe" "snd pe" d]
    by (cases pe) (simp add: row_done_def persist_db_def end_tx_def)
next
  case (Inr v)
  then show ?thesis by (simp add: row_done_def persist_db_canonical)
qed

lemma persist_db_other_done:
  assumes "wf_failures d" and "mh_video_id r \<noteq> mh_video_id row" and "row_done r h d"
  shows "row_done r h (persist_db run row hr d)"
proof (cases h)
  case (Inl pe)
  with assms(3) obtain f where "f \<in> set (job_failures d)" "jf_video_id f = Some (mh_video_id r)"
      "failure_key f = (JOB_KIND, mh_video_id r, fst pe)" "jf_last_error f = snd pe" "backing_off (now_us d) f"
    by (cases pe) (auto simp: row_done_def)
  with persist_db_keeps [OF assms(1), of f row run hr] assms(2) Inl show ?thesis
    by (cases pe) (auto simp: row_done_def)
next
  case (Inr v)
  with assms(3) show ?thesis by (simp add: row_done_def persist_db_canonical)
qed

lemma persist_db_drain_ok:
  assumes "drain_ok run d" and "in_master (mh_video_id row) d" and "not_backing_off d (mh_video_id row)"
  shows "drain_ok run (persist_db run row hr d)"
proof -
  have "persist_one run row hr s ([], d) = (Inr (persist_summary row hr d s), [], persist_db run row hr d)" for s
    using assms retry_small_if [OF assms(1,3)] by (intro persist_one_run) (simp_all add: drain_ok_def)
  from safe_run [OF safe_persist_one this] assms(1) have "db_ok (persist_db run row hr d)"
    by (simp add: drain_ok_def)
  with assms(1) show ?thesis
    by (auto simp: drain_ok_def wf_failures_def failure_key_def dest!: persist_db_failures)
qed

section \<open>A page\<close>

definition page_fold :: "string \<Rightarrow> 'f media_env \<Rightarrow> missing_hash_row list \<Rightarrow> pgdb \<times> phash_summary \<Rightarrow>
    pgdb \<times> phash_summary" where
  "page_fold run env = fold (\<lambda>row (d, s). (persist_db run row (compute_hash env row) d,
     persist_summary row (compute_hash env row) d (s\<lparr>ps_scanned_rows := ps_scanned_rows s + 1\<rparr>)))"

definition fails :: "'f media_env \<Rightarrow> missing_hash_row \<Rightarrow> bool" where
  "fails env row \<longleftrightarrow> (\<exists>e. compute_hash env row = Inl e)"

definition page_post :: "string \<Rightarrow> 'f media_env \<Rightarrow> missing_hash_row list \<Rightarrow> pgdb \<times> phash_summary \<Rightarrow>
    pgdb \<times> phash_summary \<Rightarrow> bool" where
  "page_post run env rows s t \<longleftrightarrow> drain_ok run (fst t) \<and>
     servable_videos (fst t) = servable_videos (fst s) \<and> now_us (fst t) = now_us (fst s) \<and>
     (\<forall>v. v \<notin> mh_video_id ` set rows \<longrightarrow> canonical (fst t) v = canonical (fst s) v \<and>
        not_backing_off (fst t) v = not_backing_off (fst s) v) \<and>
     (\<forall>v. canonical (fst s) v \<longrightarrow> canonical (fst t) v) \<and>
     (\<forall>row \<in> set rows. row_done row (compute_hash env row) (fst t)) \<and>
     (\<forall>r h. mh_video_id r \<notin> mh_video_id ` set rows \<longrightarrow> row_done r h (fst s) \<longrightarrow> row_done r h (fst t)) \<and>
     ps_scanned_rows (snd t) = ps_scanned_rows (snd s) + int (length rows) \<and>
     ps_row_failures (snd t) = ps_row_failures (snd s) + count_where (fails env) rows \<and>
     ps_job_run_id (snd t) = ps_job_run_id (snd s)"

definition page_pre :: "string \<Rightarrow> missing_hash_row list \<Rightarrow> pgdb \<Rightarrow> bool" where
  "page_pre run rows d \<longleftrightarrow> drain_ok run d \<and> distinct (map mh_video_id rows) \<and>
     (\<forall>row \<in> set rows. in_master (mh_video_id row) d \<and> not_backing_off d (mh_video_id row))"

lemma persist_summary_simps [simp]:
  "ps_scanned_rows (persist_summary row hr d s) = ps_scanned_rows s"
  "ps_job_run_id (persist_summary row hr d s) = ps_job_run_id s"
  "ps_row_failures (persist_summary row hr d s) = ps_row_failures s + (case hr of Inl _ \<Rightarrow> 1 | Inr _ \<Rightarrow> 0)"
  by (simp_all add: persist_summary_def split: sum.split)

lemma page_pre_step:
  assumes "page_pre run (row # rows) d"
  shows "page_pre run rows (persist_db run row hr d)"
proof -
  have ok: "drain_ok run d" and ni: "mh_video_id row \<notin> mh_video_id ` set rows"
    and row: "in_master (mh_video_id row) d" "not_backing_off d (mh_video_id row)"
    using assms by (auto simp: page_pre_def)
  from persist_db_drain_ok [OF ok row] have "drain_ok run (persist_db run row hr d)" .
  moreover have "not_backing_off (persist_db run row hr d) (mh_video_id r)" if "r \<in> set rows" for r
  proof -
    from ni that have "mh_video_id r \<noteq> mh_video_id row" by (metis imageI)
    moreover have "wf_failures d" using ok by (simp add: drain_ok_def)
    ultimately show ?thesis using assms that persist_db_backing by (auto simp: page_pre_def)
  qed
  ultimately show ?thesis using assms by (auto simp: page_pre_def in_master_def)
qed

lemma page_post_holds:
  "page_pre run rows d \<Longrightarrow> page_post run env rows (d, s) (page_fold run env rows (d, s))"
proof (induction rows arbitrary: d s)
  case Nil
  then show ?case by (simp add: page_post_def page_fold_def page_pre_def count_where_def)
next
  case (Cons row rows)
  let ?hr = "compute_hash env row"
  let ?d = "persist_db run row ?hr d"
  let ?s = "persist_summary row ?hr d (s\<lparr>ps_scanned_rows := ps_scanned_rows s + 1\<rparr>)"
  have wf: "wf_failures d" using Cons.prems by (simp add: page_pre_def drain_ok_def)
  have ni: "mh_video_id row \<notin> mh_video_id ` set rows" using Cons.prems by (simp add: page_pre_def)
  have post: "page_post run env rows (?d, ?s) (page_fold run env rows (?d, ?s))"
    by (rule Cons.IH [OF page_pre_step [OF Cons.prems]])
  have "row_done row ?hr (fst (page_fold run env rows (?d, ?s)))"
    using post ni persist_db_row_done [of row ?hr run d] unfolding page_post_def by simp
  moreover have "row_done r h (fst (page_fold run env rows (?d, ?s)))"
    if "mh_video_id r \<notin> mh_video_id ` set (row # rows)" "row_done r h d" for r h
    using post that persist_db_other_done [OF wf, of r row h run ?hr] unfolding page_post_def by simp
  moreover have "page_fold run env (row # rows) (d, s) = page_fold run env rows (?d, ?s)"
    by (simp add: page_fold_def)
  ultimately show ?case
    using post persist_db_backing [OF wf, of _ row run ?hr] persist_db_canonical [of run row ?hr d]
    unfolding page_post_def by (auto simp: count_where_def fails_def split: sum.splits)
qed

lemma persist_stream_run:
  "page_pre run rows d \<Longrightarrow> persist_stream env None run rows s k ([], d) =
     (case page_fold run env rows (d, s) of (d', s') \<Rightarrow> (Inr (s', k + length rows, False), [], d'))"
proof (induction rows arbitrary: d s k)
  case Nil
  then show ?case by (simp add: page_fold_def)
next
  case (Cons row rows)
  have "persist_one run row hr s' ([], d) = (Inr (persist_summary row hr d s'), [], persist_db run row hr d)" for hr s'
    using Cons.prems retry_small_if [of run d] by (intro persist_one_run) (auto simp: page_pre_def drain_ok_def)
  with Cons.IH [OF page_pre_step [OF Cons.prems]] show ?case
    by (simp add: is_cancelled_def run_bnd page_fold_def split: prod.splits)
qed

section \<open>The loop is a paged job\<close>

definition drain_process :: "'f drain_config \<Rightarrow> string \<Rightarrow> missing_hash_row list \<Rightarrow>
    pgdb \<times> phash_summary \<Rightarrow> pgdb \<times> phash_summary" where
  "drain_process c run rows t = (case page_fold run (dc_env c) (completed (dc_order c) rows) t of
     (d, s) \<Rightarrow> (put_totals run (summary_totals s) d, s))"

abbreviation drain_todo :: "'f drain_config \<Rightarrow> pgdb \<times> phash_summary \<Rightarrow> string option \<Rightarrow> missing_hash_row list" where
  "drain_todo c t a \<equiv> missing_rows (dc_hashtext c) HASH_KIND HASH_VERSION INPUT_MEDIA_VERSION a
     (dc_shard c) (fst t)"

lemma completed_count: "count_where P (completed order rows) = count_where P rows"
  by (metis completed_mset count_where_def mset_filter size_mset)

lemma drain_ok_totals [simp]: "drain_ok run (put_totals run' j d) = drain_ok run d"
proof -
  have "map jr_id (update_where (\<lambda>r. jr_id r = run') (\<lambda>r. r\<lparr>jr_totals := Some j\<rparr>) (job_runs d)) =
      map jr_id (job_runs d)"
    by (rule map_key_update) simp
  then show ?thesis
    by (simp add: drain_ok_def put_totals_def db_ok_defs wf_failures_def uniq_def)
qed

lemma totals_simps [simp]:
  "servable_videos (put_totals run j d) = servable_videos d" "now_us (put_totals run j d) = now_us d"
  "canonical (put_totals run j d) v = canonical d v"
  "not_backing_off (put_totals run j d) v = not_backing_off d v"
  "row_done r h (put_totals run j d) = row_done r h d"
  by (auto simp: put_totals_def canonical_def has_hash_def not_backing_off_def row_done_def
      split: sum.split)

lemma drain_uniq: "drain_ok run d \<Longrightarrow> uniq sv_video_id (servable_videos d)"
  by (simp add: drain_ok_def db_ok_defs)

lemma missing_page_pre:
  assumes "drain_ok run d" and "rs = take m (missing_rows ht HASH_KIND HASH_VERSION INPUT_MEDIA_VERSION a sh d)"
  shows "page_pre run (completed order rs) d"
proof -
  have "sorted_wrt (<) (map mh_video_id rs)"
    using missing_rows_strict [OF drain_uniq [OF assms(1)]]
    by (simp add: assms(2) take_map [symmetric] sorted_wrt_take)
  then have "distinct (map mh_video_id rs)" by (simp add: strict_sorted_iff)
  moreover have "in_master (mh_video_id r) d \<and> not_backing_off d (mh_video_id r)" if "r \<in> set rs" for r
    using that by (auto simp: assms(2) missing_rows_set in_master_def has_key_def dest!: in_set_takeD)
  ultimately show ?thesis
    using assms(1) by (simp add: page_pre_def completed_distinct)
qed

lemma drain_process_post:
  assumes "drain_ok run (fst t)" and "rs = take m (drain_todo c t a)"
  shows "page_post run (dc_env c) rs t (drain_process c run rs t)"
proof -
  obtain d s where t: "t = (d, s)" by (cases t)
  let ?u = "page_fold run (dc_env c) (completed (dc_order c) rs) (d, s)"
  have "page_post run (dc_env c) (completed (dc_order c) rs) (d, s) ?u"
    using assms missing_page_pre [of run d rs m "dc_hashtext c" a "dc_shard c" "dc_order c"]
    by (intro page_post_holds) (simp add: t)
  then show ?thesis
    by (cases ?u) (simp add: page_post_def drain_process_def t completed_count)
qed

lemma missing_rows_frame:
  assumes "servable_videos d' = servable_videos d"
    and "\<And>v. beyond a v \<Longrightarrow> canonical d' v = canonical d v \<and> not_backing_off d' v = not_backing_off d v"
  shows "missing_rows ht HASH_KIND HASH_VERSION INPUT_MEDIA_VERSION a sh d' =
    missing_rows ht HASH_KIND HASH_VERSION INPUT_MEDIA_VERSION a sh d"
  unfolding missing_rows_def assms(1)
  by (intro arg_cong [where f = "\<lambda>xs. map _ (sort_key _ xs)"] filter_cong refl)
     (use assms(2) in \<open>auto simp: canonical_def\<close>)

interpretation drain: paged_job
  "\<lambda>t a n. limit_rows (int n) (drain_todo c t a)" mh_video_id "drain_todo c"
  "\<lambda>t. drain_ok run (fst t)" "drain_process c run" for c :: "'f drain_config" and run
proof (unfold_locales, goal_cases)
  case (1 s a n)
  then show ?case by (simp add: limit_rows_def)
next
  case (2 s a)
  then show ?case by (intro missing_rows_strict drain_uniq)
next
  case (3 r s a)
  then show ?case by (auto simp: missing_rows_set beyond_past)
next
  case (4 a k s)
  then show ?case by (rule missing_rows_cut)
next
  case (5 s rs a n)
  then show ?case using drain_process_post [of run s rs n c a] by (simp add: page_post_def limit_rows_def)
next
  case (6 s rs a n)
  have "sorted_wrt (<) (map mh_video_id rs)"
    using 6 missing_rows_strict [OF drain_uniq [OF 6(1)]]
    by (simp add: limit_rows_def take_map [symmetric] sorted_wrt_take)
  then have "v \<notin> mh_video_id ` set rs" if "beyond (Some (mh_video_id (last rs))) v" for v
    using that strict_last_max [of mh_video_id rs] by (fastforce simp: beyond_def)
  then show ?case
    using drain_process_post [of run s rs n c a] 6
    by (intro missing_rows_frame) (auto simp: page_post_def limit_rows_def)
qed

text \<open>Without faults, limit and cancellation the code's loop is that job.\<close>

lemma drain_loop_walk:
  assumes c: "dc_cancel c = None" "dc_limit c = None" and n: "dc_page_size c = int n" "0 < n"
    and sh: "case dc_shard c of None \<Rightarrow> True | Some (m, i) \<Rightarrow> m \<noteq> 0"
    and w: "walk (\<lambda>t a n. limit_rows (int n) (drain_todo c t a)) mh_video_id (drain_process c run) n fuel a (d, s) =
        Some (vs, (d', s'))"
    and ok: "drain_ok run d" and id: "ps_job_run_id s = run"
  shows "drain_loop c run fuel a s k ([], d) = (Inr (Some (s', False)), [], d')"
  using w ok id
proof (induction fuel arbitrary: a d s k vs)
  case 0
  then show ?case by simp
next
  case (Suc fuel)
  let ?rs = "limit_rows (int n) (drain_todo c (d, s) a)"
  have page: "videos_missing_canonical_phash (dc_hashtext c) HASH_KIND HASH_VERSION INPUT_MEDIA_VERSION a
      (Some (dc_page_size c)) (dc_shard c) ([], d) = (Inr ?rs, [], d)"
    using n sh by (auto simp: videos_missing_canonical_phash_def run_stmt split: option.splits prod.splits)
  show ?case
  proof (cases "?rs = []")
    case True
    with Suc.prems page c show ?thesis by (simp add: is_cancelled_def Let_def run_bnd)
  next
    case False
    let ?k = "Some (mh_video_id (last ?rs))"
    obtain d1 s1 where pf: "page_fold run (dc_env c) (completed (dc_order c) ?rs) (d, s) = (d1, s1)"
      by fastforce
    let ?d = "put_totals run (summary_totals s1) d1"
    have proc: "drain_process c run ?rs (d, s) = (?d, s1)" unfolding drain_process_def pf by simp
    with Suc.prems(1) False obtain ws where
      ws: "walk (\<lambda>t a n. limit_rows (int n) (drain_todo c t a)) mh_video_id (drain_process c run) n fuel ?k (?d, s1) =
          Some (ws, (d', s'))"
      by (auto simp: Let_def split: option.splits)
    have post: "page_post run (dc_env c) ?rs (d, s) (?d, s1)"
      using drain_process_post [of run "(d, s)" ?rs n c a] Suc.prems(2) proc
      by (simp add: limit_rows_def)
    then have ok: "drain_ok run ?d" and id: "ps_job_run_id s1 = run"
      using Suc.prems(3) by (simp_all add: page_post_def)
    have stream: "persist_stream (dc_env c) None run (completed (dc_order c) ?rs) s (k + 1) ([], d) =
        (Inr (s1, k + 1 + length ?rs, False), [], d1)"
      using persist_stream_run [OF missing_page_pre [of run d ?rs n "dc_hashtext c" a "dc_shard c" "dc_order c"],
          of "dc_env c" s "k + 1"] Suc.prems(2) pf by (simp add: limit_rows_def)
    from Suc.IH [OF ws ok id, of "k + 1 + length ?rs"] page False stream c show ?thesis
      by (simp add: is_cancelled_def Let_def run_bnd run_attempt update_job_run_totals_def run_exec
          put_totals_def)
  qed
qed

lemma page_post_append:
  assumes st: "page_post run env vs s t" and tu: "page_post run env rs t u"
    and disj: "mh_video_id ` set vs \<inter> mh_video_id ` set rs = {}"
  shows "page_post run env (vs @ rs) s u"
proof -
  have "row_done r (compute_hash env r) (fst u)" if "r \<in> set (vs @ rs)" for r
  proof (cases "r \<in> set rs")
    case True
    with tu show ?thesis by (simp add: page_post_def)
  next
    case False
    with that have "r \<in> set vs" by simp
    moreover from this disj have "mh_video_id r \<notin> mh_video_id ` set rs" by blast
    ultimately show ?thesis using st tu by (simp add: page_post_def)
  qed
  moreover have "count_where (fails env) (vs @ rs) = count_where (fails env) vs + count_where (fails env) rs"
    by (simp add: count_where_def)
  ultimately show ?thesis
    using st tu unfolding page_post_def set_append image_Un Un_iff by (auto simp del: Un_iff)
qed

lemma drain_walk_post:
  assumes w: "walk (\<lambda>t a n. limit_rows (int n) (drain_todo c t a)) mh_video_id (drain_process c run) n fuel None (d, s) =
      Some (vs, t)"
    and n: "0 < n" and ok: "drain_ok run d"
  shows "page_post run (dc_env c) vs (d, s) t \<and> (\<exists>a. drain_todo c t a = [] \<and>
    (\<forall>v. v \<notin> mh_video_id ` set vs \<longrightarrow> beyond a v \<or> v \<notin> mh_video_id ` set (drain_todo c (d, s) None)))"
proof -
  let ?P = "\<lambda>a us t. page_post run (dc_env c) us (d, s) t \<and> (\<forall>u \<in> set us. \<not> past a (mh_video_id u)) \<and>
    (\<forall>v. v \<notin> mh_video_id ` set us \<longrightarrow> beyond a v \<or> v \<notin> mh_video_id ` set (drain_todo c (d, s) None))"
  have base: "?P None [] (d, s)"
    using ok by (simp add: page_post_def count_where_def beyond_def)
  have "\<exists>a'. ?P a' ([] @ vs) t \<and> drain_todo c t a' = []"
  proof (rule drain.walk_invariant [where P = ?P and n = n and c = c and run = run and s = "(d, s)"
        and a = None and vs = "[]" and us = vs and t = t and fuel = fuel])
    fix a us t
    assume P: "?P a us t" and okt: "drain_ok run (fst t)"
      and ne: "limit_rows (int n) (drain_todo c t a) \<noteq> []"
    let ?rs = "limit_rows (int n) (drain_todo c t a)"
    let ?l = "mh_video_id (last ?rs)"
    have srt: "sorted_wrt (<) (map mh_video_id (drain_todo c t a))"
      using okt by (intro missing_rows_strict drain_uniq)
    then have srs: "sorted_wrt (<) (map mh_video_id ?rs)"
      by (simp add: limit_rows_def take_map [symmetric] sorted_wrt_take)
    have inrs: "past a (mh_video_id r)" if "r \<in> set ?rs" for r
      using that by (auto simp: limit_rows_def missing_rows_set beyond_past dest!: in_set_takeD)
    have post: "page_post run (dc_env c) ?rs t (drain_process c run ?rs t)"
      using drain_process_post [OF okt, of ?rs n c a] by (simp add: limit_rows_def)
    have "page_post run (dc_env c) (us @ ?rs) (d, s) (drain_process c run ?rs t)"
    proof (rule page_post_append [OF _ post])
      show "page_post run (dc_env c) us (d, s) t" using P by blast
      show "mh_video_id ` set us \<inter> mh_video_id ` set ?rs = {}" using P inrs by fastforce
    qed
    moreover have "\<not> past (Some ?l) (mh_video_id u)" if "u \<in> set (us @ ?rs)" for u
    proof (cases "u \<in> set ?rs")
      case True
      with strict_last_max [OF srs] show ?thesis by (simp add: past_def leD)
    next
      case False
      with that P have "\<not> past a (mh_video_id u)" by auto
      moreover have "past a ?l" using inrs ne by simp
      ultimately show ?thesis by (auto simp: past_def split: option.splits)
    qed
    moreover have "beyond (Some ?l) v \<or> v \<notin> mh_video_id ` set (drain_todo c (d, s) None)"
      if v: "v \<notin> mh_video_id ` set (us @ ?rs)" for v
    proof (rule ccontr)
      assume no: "\<not> ?thesis"
      then obtain r where r: "r \<in> set (drain_todo c (d, s) None)" "mh_video_id r = v" by auto
      have vb: "beyond a v" using P v no by auto
      have fr: "canonical (fst t) v = canonical d v" "not_backing_off (fst t) v = not_backing_off d v"
          "servable_videos (fst t) = servable_videos d"
        using P v by (auto simp: page_post_def)
      have "r \<in> set (drain_todo c t a)"
        using r fr vb by (auto simp: missing_rows_set canonical_def)
      moreover have "r \<notin> set ?rs" using v r(2) by auto
      ultimately have "r \<in> set (drop n (drain_todo c t a))"
        by (metis Un_iff append_take_drop_id limit_rows_def nat_int set_append)
      then have "?l < v"
        using take_last_less [OF srt, of n r] ne r(2) by (simp add: limit_rows_def)
      with no show False by (simp add: beyond_def)
    qed
    ultimately show "?P (Some ?l) (us @ ?rs) (drain_process c run ?rs t)" by blast
  next
    show "drain_ok run (fst (d, s))" using ok by simp
  qed (fact n w base)+
  then show ?thesis by auto
qed

lemma nothing_left:
  assumes post: "page_post run env vs (d, s) (d', s')"
    and vs: "vs = missing_rows ht HASH_KIND HASH_VERSION INPUT_MEDIA_VERSION None sh d"
  shows "missing_rows ht HASH_KIND HASH_VERSION INPUT_MEDIA_VERSION None sh d' = []"
proof (rule ccontr)
  assume "\<not> ?thesis"
  then obtain r where r: "r \<in> set (missing_rows ht HASH_KIND HASH_VERSION INPUT_MEDIA_VERSION None sh d')"
    by (meson last_in_set)
  let ?v = "mh_video_id r"
  have nc: "\<not> canonical d' ?v" and nb: "not_backing_off d' ?v"
    using r by (auto simp: missing_rows_set canonical_def)
  show False
  proof (cases "?v \<in> mh_video_id ` set vs")
    case True
    then obtain r' where r': "r' \<in> set vs" "mh_video_id r' = ?v" by auto
    with post have "row_done r' (compute_hash env r') d'" by (simp add: page_post_def)
    with nc nb r' show False
      by (auto simp: row_done_def not_backing_off_def split: sum.splits prod.splits)
  next
    case False
    with post have "canonical d' ?v = canonical d ?v" "not_backing_off d' ?v = not_backing_off d ?v"
        "servable_videos d' = servable_videos d" by (simp_all add: page_post_def)
    with r nc nb have "r \<in> set vs" by (auto simp: vs missing_rows_set canonical_def)
    with False show False by blast
  qed
qed

text \<open>C5. A drain ends and leaves nothing to do, where no failure row that is due has reached 35 retries
  (such a row makes the back-off overflow and aborts every drain that meets it, lemma
  \<open>high_retry_row_aborts_drain\<close>): without faults, limit and cancellation, for any
  page size and any completion order, a run with fuel for each video returns; it has scanned
  every missing video exactly once, each is now hashed or recorded as failed with a retry in the
  future, the counters say so, the run row has the status the counters give, and the scan that
  selected the work is empty. The other hypotheses are the integrity of the tables, the run row that
  the job has inserted, and that the job's failure rows name the video they are keyed by.\<close>

theorem drain_completes:
  assumes db: "db_ok d" "has_key jr_id run (job_runs d)" "wf_failures d"
    and retries: "\<forall>f \<in> set (job_failures d). jf_job_kind f = JOB_KIND \<longrightarrow> \<not> backing_off (now_us d) f \<longrightarrow> jf_retry_count f < 35"
    and c: "dc_cancel c = None" "dc_limit c = None" and n: "0 < dc_page_size c"
    and sh: "case dc_shard c of None \<Rightarrow> True | Some (m, i) \<Rightarrow> m \<noteq> 0"
    and fuel: "length (servable_videos d) < fuel"
  shows "\<exists>s d'. run_inner c fuel run ([], d) = (Inr (Some s), [], d') \<and>
    ps_scanned_rows s = int (length (drain_todo c (d, s) None)) \<and>
    ps_row_failures s = count_where (fails (dc_env c)) (drain_todo c (d, s) None) \<and>
    (\<forall>row \<in> set (drain_todo c (d, s) None). row_done row (compute_hash (dc_env c) row) d') \<and>
    drain_todo c (d', s) None = [] \<and>
    map_option jr_status (row_of jr_id run (job_runs d')) = Some (run_status (ps_row_failures s))"
proof -
  let ?n = "nat (dc_page_size c)" and ?s0 = "zero_summary run"
  let ?todo = "drain_todo c (d, ?s0) None"
  have ok: "drain_ok run d" using db retries by (auto simp: drain_ok_def not_less [symmetric])
  have "length ?todo < fuel" using fuel by (simp add: missing_rows_def le_less_trans [OF length_filter_le])
  with drain.walk_complete [of ?n run "(d, ?s0)" c None fuel] n ok obtain t where
    w: "walk (\<lambda>t a n. limit_rows (int n) (drain_todo c t a)) mh_video_id (drain_process c run) ?n fuel None
        (d, ?s0) = Some (?todo, t)"
    by auto
  obtain d1 s1 where t: "t = (d1, s1)" by (cases t)
  have post: "page_post run (dc_env c) ?todo (d, ?s0) (d1, s1)"
    using drain_walk_post [OF w _ ok] n by (simp add: t)
  let ?d2 = "db_after (complete_job_run s1 (run_status (ps_row_failures s1))) ([], d1)"
  have loop: "drain_loop c run fuel None ?s0 0 ([], d) = (Inr (Some (s1, False)), [], d1)"
    using w n c sh ok by (intro drain_loop_walk [of c ?n]) (simp_all add: t zero_summary_def)
  have run: "run_inner c fuel run ([], d) = (Inr (Some s1), [], ?d2)"
    by (simp add: run_inner_def run_bnd loop terminal_status_def complete_job_run_def run_exec db_after_def)
  have id: "ps_job_run_id s1 = run" using post by (simp add: page_post_def zero_summary_def)
  have "drain_ok run d1" using post by (simp add: page_post_def)
  then obtain r where "row_of jr_id run (job_runs d1) = Some r"
    by (auto simp: drain_ok_def has_key_row_of)
  then have status: "map_option jr_status (row_of jr_id run (job_runs ?d2)) = Some (run_status (ps_row_failures s1))"
    using row_of_SomeD [of jr_id run "job_runs d1" r] id
    by (simp add: db_after_def complete_job_run_def run_exec row_of_update)
  have "missing_rows ht k v i a sh ?d2 = missing_rows ht k v i a sh d1" for ht k v i a sh
    by (simp add: db_after_def complete_job_run_def run_exec missing_rows_def has_hash_def not_backing_off_def)
  then have "drain_todo c (?d2, s1) None = []"
    using nothing_left [OF post] by simp
  moreover have "row_done r h ?d2 = row_done r h d1" for r h
    by (simp add: db_after_def complete_job_run_def run_exec row_done_def canonical_def has_hash_def
        split: sum.split)
  ultimately show ?thesis
    using run post status by (intro exI [of _ s1] exI [of _ ?d2]) (simp add: page_post_def zero_summary_def)
qed

definition demo_env :: "nat media_env" where
  "demo_env = \<lparr>env_tempfile = (\<lambda>_. None), env_hetzner = (\<lambda>k. Inl ''404''), env_storj = (\<lambda>k. Inr 0),
     env_phash = (\<lambda>f. Finished (Inr \<lparr>vh_hash = ''01'', vh_metadata = \<lparr>vm_duration_seconds = 0,
        vm_frame_count = 1, vm_width = 8, vm_height = 8, vm_fps = 0\<rparr>, vh_hash_kind = HASH_KIND,
        vh_hash_version = HASH_VERSION\<rparr>))\<rparr>"

definition demo_config :: "nat drain_config" where
  "demo_config = \<lparr>dc_env = demo_env, dc_hashtext = (\<lambda>_. 0), dc_order = rev, dc_cancel = None,
     dc_limit = None, dc_shard = None, dc_page_size = 2\<rparr>"

definition demo_db :: "pgdb" where
  "demo_db = one_video_db\<lparr>job_runs := [\<lparr>jr_id = ''r1'', jr_job_kind = JOB_KIND, jr_status = ''running'',
     jr_requested_by = ''ops'', jr_started_at = 5, jr_finished_at = None, jr_cursor = None,
     jr_totals = None, jr_error_message = None\<rparr>]\<rparr>"

lemma demo_drain_ok: "db_ok demo_db" "has_key jr_id ''r1'' (job_runs demo_db)" "wf_failures demo_db"
    "\<forall>f \<in> set (job_failures demo_db). jf_job_kind f = JOB_KIND \<longrightarrow> \<not> backing_off (now_us demo_db) f \<longrightarrow>
       jf_retry_count f < 35"
  by (simp_all add: demo_db_def one_video_db_def empty_db_def db_ok_defs wf_failures_def
      has_key_code uniq_def)

lemma demo_todo: "map mh_video_id (drain_todo demo_config (demo_db, s) None) = [''v'']"
  by (simp add: missing_rows_def demo_config_def demo_db_def one_video_db_def empty_db_def has_hash_def
      has_key_code beyond_def in_shard_def not_backing_off_def servable_video_input.defs servable_video.defs)

theorem hashes_stay_announced_witness:
  "announced (db_after (phash_run demo_config 2 ''r2'' ''ops'') ([None, None, None, Some (PgError ''gone'')], demo_db))"
proof (rule hashes_stay_announced)
  show "announced demo_db" by (simp add: announced_def demo_db_def one_video_db_def empty_db_def)
qed

theorem drain_completes_witness:
  "\<exists>s d'. run_inner demo_config 2 ''r1'' ([], demo_db) = (Inr (Some s), [], d') \<and> ps_scanned_rows s = 1"
proof -
  have "length (servable_videos demo_db) < 2"
    by (simp add: demo_db_def one_video_db_def)
  moreover have "dc_cancel demo_config = None" "dc_limit demo_config = None" "0 < dc_page_size demo_config"
      "case dc_shard demo_config of None \<Rightarrow> True | Some (m, i) \<Rightarrow> m \<noteq> 0"
    by (simp_all add: demo_config_def)
  ultimately obtain s d' where "run_inner demo_config 2 ''r1'' ([], demo_db) = (Inr (Some s), [], d')"
      "ps_scanned_rows s = int (length (drain_todo demo_config (demo_db, s) None))"
    using drain_completes [OF demo_drain_ok] by blast
  moreover have "length (map mh_video_id (drain_todo demo_config (demo_db, s) None)) = length [''v'']"
    by (simp only: demo_todo)
  ultimately show ?thesis by auto
qed

section \<open>Counters and status\<close>

lemma persist_one_scanned:
  assumes "persist_one run row hr s (p, d) = (Inr s', q, d')"
  shows "ps_scanned_rows s' = ps_scanned_rows s"
  using tx_try_Inr [OF assms [unfolded persist_one_def]]
  by (cases hr) (auto simp: bnd_Inr_iff ret_iff split: if_splits)

lemma persist_stream_scanned:
  "persist_stream env cancel run rows s k (p, d) = (Inr (s', k', b), q, d') \<Longrightarrow>
   ps_scanned_rows s \<le> ps_scanned_rows s' \<and> ps_scanned_rows s' \<le> ps_scanned_rows s + int (length rows)"
proof (induction rows arbitrary: s k p d)
  case (Cons row rows)
  show ?case
  proof (cases "is_cancelled cancel k")
    case True
    with Cons.prems show ?thesis by simp
  next
    case False
    with Cons.prems obtain s1 p1 d1 where
        1: "persist_one run row (compute_hash env row) (s\<lparr>ps_scanned_rows := ps_scanned_rows s + 1\<rparr>) (p, d) = (Inr s1, p1, d1)"
      and 2: "persist_stream env cancel run rows s1 (k + 1) (p1, d1) = (Inr (s', k', b), q, d')"
      by (auto simp: bnd_def split: prod.splits sum.splits)
    from persist_one_scanned [OF 1] Cons.IH [OF 2] show ?thesis by simp
  qed
qed simp

lemma drain_loop_limit:
  "drain_loop c run fuel a s k (p, d) = (Inr (Some (s', b)), q, d') \<Longrightarrow> dc_limit c = Some l \<Longrightarrow>
   ps_scanned_rows s \<le> l \<Longrightarrow> ps_scanned_rows s' \<le> l"
proof (induction fuel arbitrary: a s k p d)
  case (Suc fuel)
  show ?case
  proof (cases "is_cancelled (dc_cancel c) k \<or> l - ps_scanned_rows s = 0")
    case True
    with Suc.prems show ?thesis by (auto simp: Let_def split: if_splits)
  next
    case False
    let ?b = "min (l - ps_scanned_rows s) (dc_page_size c)"
    from False Suc.prems(1,2) obtain rows p1 d1 where
        v: "videos_missing_canonical_phash (dc_hashtext c) HASH_KIND HASH_VERSION INPUT_MEDIA_VERSION a
              (Some ?b) (dc_shard c) (p, d) = (Inr rows, p1, d1)"
      by (auto simp: Let_def bnd_def split: prod.splits sum.splits)
    then have len: "int (length rows) \<le> l - ps_scanned_rows s"
      using Suc.prems(3) by (auto simp: videos_missing_canonical_phash_def stmt_def limit_rows_def Let_def
          split: list.splits option.splits if_splits)
    show ?thesis
    proof (cases "rows = []")
      case True
      with False Suc.prems v show ?thesis by (simp add: Let_def bnd_def)
    next
      case ne: False
      with False Suc.prems(1,2) v obtain s1 k1 b1 p2 d2 where
          st: "persist_stream (dc_env c) (dc_cancel c) run (completed (dc_order c) rows) s (k + 1) (p1, d1) =
             (Inr (s1, k1, b1), p2, d2)"
        by (auto simp: Let_def bnd_def split: prod.splits sum.splits)
      from persist_stream_scanned [OF st] len have s1: "ps_scanned_rows s1 \<le> l" by simp
      show ?thesis
      proof (cases b1)
        case True
        with False ne Suc.prems v st s1 show ?thesis by (simp add: Let_def bnd_def)
      next
        case nb: False
        obtain x p3 d3 where "update_job_run_totals run (summary_totals s1) (p2, d2) = (x, p3, d3)"
          by (metis prod_cases3)
        with False ne nb Suc.prems(1,2) v st have
          "drain_loop c run fuel (Some (mh_video_id (last rows))) s1 k1 (p3, d3) = (Inr (Some (s', b)), q, d')"
          by (simp add: Let_def bnd_def attempt_def)
        with Suc.IH Suc.prems(2) s1 show ?thesis by blast
      qed
    qed
  qed
qed simp

text \<open>The limit binds: a run that returns, under any faults, cancellation, page size and
  completion order, has persisted at most \<open>limit\<close> rows.\<close>

lemma drain_respects_limit:
  assumes "run_inner c fuel run (plan, d) = (Inr (Some s), plan', d')" and "dc_limit c = Some l" and "0 \<le> l"
  shows "ps_scanned_rows s \<le> l"
proof -
  from assms(1) obtain b p1 d1 where
    "drain_loop c run fuel None (zero_summary run) 0 (plan, d) = (Inr (Some (s, b)), p1, d1)"
    by (auto simp: run_inner_def bnd_def split: prod.splits sum.splits option.splits)
  from drain_loop_limit [OF this assms(2)] assms(3) show ?thesis by (simp add: zero_summary_def)
qed

section \<open>The row that stops every drain\<close>

text \<open>Recording a failure fails for good once the stored retry count is 35: the product
  \<open>interval '5 minutes' * power(2, retry_count)\<close> leaves the range of an interval before \<open>LEAST\<close> caps
  it. When such a row is the first of a page to complete, the whole run is aborted: it is marked
  failed, no video is hashed and the row's retry is not moved on, so the next run meets it again.\<close>

lemma high_retry_row_aborts_drain:
  assumes page: "completed (dc_order c) (limit_rows (dc_page_size c) (drain_todo c (d, s) None)) = row # rows"
    and c: "dc_cancel c = None" "dc_limit c = None" "dc_shard c = None" "0 < dc_page_size c"
    and run: "\<not> has_key jr_id run (job_runs d)" and fail: "compute_hash (dc_env c) row = Inl (ph, err)"
    and f: "row_of failure_key (JOB_KIND, mh_video_id row, ph) (job_failures d) = Some f"
    and high: "35 \<le> jf_retry_count f"
  shows "\<exists>d'. phash_run c (Suc fuel) run by' ([], d) = (Inl interval_error, [], d') \<and>
    video_hashes d' = video_hashes d \<and> job_failures d' = job_failures d \<and>
    map_option jr_status (row_of jr_id run (job_runs d')) = Some ''failed''"
proof -
  let ?r = "\<lparr>jr_id = run, jr_job_kind = JOB_KIND, jr_status = ''running'', jr_requested_by = by',
     jr_started_at = now_us d, jr_finished_at = None, jr_cursor = None, jr_totals = None, jr_error_message = None\<rparr>"
  let ?d = "d\<lparr>job_runs := job_runs d @ [?r]\<rparr>"
  have none: "row_of jr_id run (job_runs d) = None" using run by (simp add: row_of_None_iff)
  have todo: "missing_rows (dc_hashtext c) HASH_KIND HASH_VERSION INPUT_MEDIA_VERSION None None ?d =
      drain_todo c (d, s) None"
    using c by (simp add: missing_rows_def has_hash_def not_backing_off_def)
  have ne: "limit_rows (dc_page_size c) (drain_todo c (d, s) None) \<noteq> []"
    using page by (metis completed_length length_0_conv neq_Nil_conv)
  have "persist_one run row (Inl (ph, err)) s ([], ?d) = (Inl interval_error, [], rollback_tx ?d ?d)" for s
    using f backoff_large [OF high]
    by (simp add: persist_one_def run_simps record_row_failure_txn_def has_key_code)
  moreover have "videos_missing_canonical_phash (dc_hashtext c) HASH_KIND HASH_VERSION INPUT_MEDIA_VERSION None
      (Some (dc_page_size c)) None ([], ?d) =
      (Inr (limit_rows (dc_page_size c) (drain_todo c (d, s) None)), [], ?d)"
    using c by (simp add: videos_missing_canonical_phash_def run_stmt todo)
  ultimately have "drain_loop c run (Suc fuel) None (zero_summary run) 0 ([], ?d) =
      (Inl interval_error, [], rollback_tx ?d ?d)"
    using c fail page ne by (simp add: is_cancelled_def Let_def run_bnd)
  then have "run_inner c (Suc fuel) run ([], ?d) = (Inl interval_error, [], rollback_tx ?d ?d)"
    unfolding run_inner_def run_bnd by simp
  moreover have "insert_job_run run by' ([], d) = (Inr (), [], ?d)"
    using run by (simp add: insert_job_run_def run_stmt)
  ultimately show ?thesis
    using none by (simp add: phash_run_def run_simps rollback_tx_def mark_job_run_failed_def
        row_of_update row_of_snoc interval_error_def)
qed

definition old_failure :: media_job_failure where
  "old_failure = (new_failure ''r0'' 0 ''v'' ''phash_download'' ''x'')\<lparr>jf_job_run_id := None,
     jf_retry_count := 35, jf_next_retry_at := None\<rparr>"

lemma high_retry_row_aborts_drain_witness:
  "\<exists>d'. phash_run demo_config 1 ''r1'' ''ops'' ([], one_video_db\<lparr>job_failures := [old_failure]\<rparr>) =
      (Inl interval_error, [], d') \<and> video_hashes d' = []"
proof -
  let ?d = "one_video_db\<lparr>job_failures := [old_failure]\<rparr>"
  let ?row = "\<lparr>mh_video_id = ''v'', mh_storage_provider = None, mh_object_key = None,
     mh_servable_status = ''servable'', mh_bucket = None\<rparr>"
  have "drain_todo demo_config (?d, zero_summary ''r1'') None = [?row]"
    by (simp add: missing_rows_def demo_config_def one_video_db_def empty_db_def has_hash_def
        has_key_code beyond_def in_shard_def not_backing_off_def servable_video_input.defs
        servable_video.defs old_failure_def new_failure_def backing_off_def to_missing_row_def)
  then have p: "completed (dc_order demo_config) (limit_rows (dc_page_size demo_config)
      (drain_todo demo_config (?d, zero_summary ''r1'') None)) = [?row]"
    by (simp add: completed_def demo_config_def limit_rows_def)
  have f: "compute_hash (dc_env demo_config) ?row = Inl (''phash_download'', ''storj row missing object_key'')"
    by (simp add: compute_hash_def download_row_def download_from_def download_error_def demo_env_def demo_config_def)
  have "row_of failure_key (JOB_KIND, mh_video_id ?row, ''phash_download'') (job_failures ?d) = Some old_failure"
    by (simp add: row_of_def old_failure_def new_failure_def failure_key_def)
  moreover have "dc_cancel demo_config = None" "dc_limit demo_config = None" "dc_shard demo_config = None"
      "0 < dc_page_size demo_config" "\<not> has_key jr_id ''r1'' (job_runs ?d)" "35 \<le> jf_retry_count old_failure"
    by (simp_all add: demo_config_def one_video_db_def empty_db_def has_key_code old_failure_def)
  ultimately obtain d' where "phash_run demo_config (Suc 0) ''r1'' ''ops'' ([], ?d) = (Inl interval_error, [], d')"
      "video_hashes d' = video_hashes ?d"
    using high_retry_row_aborts_drain [OF p _ _ _ _ _ f] by blast
  then show ?thesis by (simp add: one_video_db_def empty_db_def)
qed

end
