(* ===== verification/Media_Import.thy ===== *)
theory Media_Import
  imports Feed
begin

text \<open>
  The import of the legacy \<open>video_index\<close> into the master table (\<open>jobs/media_imports.rs\<close>): pages of
  the rows not yet in the master, each page first in one transaction and, when a row's statement
  fails, again row by row with the failing rows recorded; a circuit breaker ends the job after 50
  consecutive failing rows. The name of the Storj bucket (\<open>consts::STORJ_SFW_BUCKET\<close>) is the
  parameter \<open>sfw\<close>; the run id is an argument.
\<close>

definition IMPORT_JOB_KIND :: string where
  "IMPORT_JOB_KIND = ''legacy_video_index_import''"

definition SOURCE_KIND :: string where
  "SOURCE_KIND = ''legacy_video_index''"

definition LEGACY_MEDIA_VERSION :: string where
  "LEGACY_MEDIA_VERSION = ''legacy_video_index_object_v1''"

definition MAX_CONSECUTIVE_IMPORT_FAILURES :: int where
  "MAX_CONSECUTIVE_IMPORT_FAILURES = 50"

record import_summary =
  is_job_run_id :: string
  is_scanned_rows :: int
  is_imported_media_rows :: int
  is_hash_rows_upserted :: int
  is_hash_feed_events_appended :: int
  is_row_failures :: int

datatype import_error =
    InvalidImportLimit int
  | ImportPostgres pg_error
  | TooManyConsecutiveFailures int string

record legacy_row =
  lr_video_id :: string
  lr_storj_key :: "string option"
  lr_hetzner_key :: "string option"
  lr_phash :: "string option"
  lr_phash_kind :: "string option"
  lr_phash_version :: "string option"

record storage_ref =
  st_provider :: string
  st_bucket :: "string option"
  st_object_key :: string

record row_counts =
  rc_imported_media_rows :: int
  rc_hash_rows_upserted :: int
  rc_hash_feed_events_appended :: int
  rc_row_failures :: int

definition no_counts :: row_counts where
  "no_counts = \<lparr>rc_imported_media_rows = 0, rc_hash_rows_upserted = 0,
     rc_hash_feed_events_appended = 0, rc_row_failures = 0\<rparr>"

definition add_counts :: "row_counts \<Rightarrow> row_counts \<Rightarrow> row_counts" where
  "add_counts a b = \<lparr>rc_imported_media_rows = rc_imported_media_rows a + rc_imported_media_rows b,
     rc_hash_rows_upserted = rc_hash_rows_upserted a + rc_hash_rows_upserted b,
     rc_hash_feed_events_appended = rc_hash_feed_events_appended a + rc_hash_feed_events_appended b,
     rc_row_failures = rc_row_failures a + rc_row_failures b\<rparr>"

definition count_summary :: "row_counts \<Rightarrow> import_summary \<Rightarrow> import_summary" where
  "count_summary c s = s\<lparr>
     is_imported_media_rows := is_imported_media_rows s + rc_imported_media_rows c,
     is_hash_rows_upserted := is_hash_rows_upserted s + rc_hash_rows_upserted c,
     is_hash_feed_events_appended := is_hash_feed_events_appended s + rc_hash_feed_events_appended c,
     is_row_failures := is_row_failures s + rc_row_failures c\<rparr>"

section \<open>One row\<close>

text \<open>Videos are served from Storj when a copy is there; hashes came from Hetzner when a copy was
  there.\<close>

definition canonical_storage :: "string \<Rightarrow> legacy_row \<Rightarrow> storage_ref option" where
  "canonical_storage sfw row = (case lr_storj_key row of
       Some k \<Rightarrow> Some \<lparr>st_provider = ''storj'', st_bucket = Some sfw, st_object_key = k\<rparr>
     | None \<Rightarrow> map_option (\<lambda>k. \<lparr>st_provider = ''hetzner'', st_bucket = None, st_object_key = k\<rparr>)
                 (lr_hetzner_key row))"

definition hash_provenance :: "string \<Rightarrow> legacy_row \<Rightarrow> storage_ref option" where
  "hash_provenance sfw row = (case lr_hetzner_key row of
       Some k \<Rightarrow> Some \<lparr>st_provider = ''hetzner'', st_bucket = None, st_object_key = k\<rparr>
     | None \<Rightarrow> map_option (\<lambda>k. \<lparr>st_provider = ''storj'', st_bucket = Some sfw, st_object_key = k\<rparr>)
                 (lr_storj_key row))"

definition raw_payload :: "legacy_row \<Rightarrow> json" where
  "raw_payload row = JObj [(''video_id'', JStr (lr_video_id row)), (''storj_key'', json_opt (lr_storj_key row)),
     (''hetzner_key'', json_opt (lr_hetzner_key row)), (''phash'', json_opt (lr_phash row)),
     (''phash_kind'', json_opt (lr_phash_kind row)), (''phash_version'', json_opt (lr_phash_version row))]"

definition media_feed_payload :: "legacy_row \<Rightarrow> storage_ref \<Rightarrow> json" where
  "media_feed_payload row st = JObj [(''video_id'', JStr (lr_video_id row)), (''source_kind'', JStr SOURCE_KIND),
     (''source_ref'', JStr (lr_video_id row)), (''servable_status'', JStr ''servable''),
     (''storage_provider'', JStr (st_provider st)), (''bucket'', json_opt (st_bucket st)),
     (''object_key'', JStr (st_object_key st))]"

definition legacy_video_input :: "legacy_row \<Rightarrow> storage_ref \<Rightarrow> servable_video_input" where
  "legacy_video_input row st = \<lparr>sv_video_id = lr_video_id row, sv_publisher_user_id = None,
     sv_post_id = None, sv_source_kind = SOURCE_KIND, sv_source_ref = Some (lr_video_id row),
     sv_servable_status = ''servable'', sv_nsfw_state = None, sv_storage_provider = Some (st_provider st),
     sv_bucket = st_bucket st, sv_object_key = Some (st_object_key st), sv_canonical_url = None,
     sv_thumbnail_key = None, sv_duration_ms = None, sv_width = None, sv_height = None,
     sv_fps = None, sv_container = None, sv_video_codec = None, sv_audio_codec = None,
     sv_moov_atom_front = None, sv_canonical_encoding_version = None,
     sv_discovered_from = IMPORT_JOB_KIND\<rparr>"

definition import_media_row_txn :: "legacy_row \<Rightarrow> storage_ref \<Rightarrow> sv_upsert_outcome pg" where
  "import_media_row_txn row st =
     bnd (upsert_servable_video_txn (legacy_video_input row st)) (\<lambda>out.
     bnd (exec (\<lambda>d. d\<lparr>video_sources := update_where
            (\<lambda>s. source_key s = (lr_video_id row, SOURCE_KIND, lr_video_id row))
            (\<lambda>s. s\<lparr>src_raw_payload := Some (raw_payload row)\<rparr>) (video_sources d)\<rparr>)) (\<lambda>_.
     ret out))"

definition import_failure :: "string \<Rightarrow> int \<Rightarrow> string \<Rightarrow> string \<Rightarrow> string \<Rightarrow> media_job_failure" where
  "import_failure run t v ph err = \<lparr>jf_job_run_id = Some run, jf_job_kind = IMPORT_JOB_KIND,
     jf_item_key = v, jf_video_id = Some v, jf_phase = ph, jf_source_ref = Some v,
     jf_retry_count = 0, jf_last_error = err, jf_next_retry_at = None,
     jf_status = ''pending_retry'', jf_created_at = t, jf_updated_at = t\<rparr>"

definition record_import_failure_txn :: "string \<Rightarrow> string \<Rightarrow> string \<Rightarrow> string \<Rightarrow> unit pg" where
  "record_import_failure_txn run v ph err = stmt (\<lambda>d.
     if \<not> has_key jr_id run (job_runs d) then Inl fk_error
     else Inr ((), d\<lparr>job_failures := upsert failure_key (import_failure run (now_us d) v ph err)
        (\<lambda>f. f\<lparr>jf_job_run_id := Some run, jf_video_id := Some v, jf_source_ref := Some v,
               jf_last_error := err, jf_status := ''pending_retry'', jf_updated_at := now_us d\<rparr>)
        (job_failures d)\<rparr>))"

definition keyless_error :: string where
  "keyless_error = ''legacy video_index row has neither storj_key nor hetzner_key''"

definition legacy_hash_input :: "string \<Rightarrow> legacy_row \<Rightarrow> string \<Rightarrow> string \<Rightarrow> string \<Rightarrow> hash_record_input" where
  "legacy_hash_input sfw row ph kind ver = \<lparr>hr_video_id = lr_video_id row, hr_hash_kind = kind,
     hr_hash_version = ver, hr_input_media_version = LEGACY_MEDIA_VERSION, hr_hash_value = ph,
     hr_hash_bit_length = int (length ph), hr_num_frames = 0, hr_hash_size = 0,
     hr_computed_from_provider = map_option st_provider (hash_provenance sfw row),
     hr_computed_from_bucket = Option.bind (hash_provenance sfw row) st_bucket,
     hr_computed_from_key = map_option st_object_key (hash_provenance sfw row),
     hr_metadata = Some (JObj [(''source'', JStr SOURCE_KIND)])\<rparr>"

definition legacy_hash_event :: "legacy_row \<Rightarrow> string \<Rightarrow> string \<Rightarrow> string \<Rightarrow> feed_event_input" where
  "legacy_hash_event row ph kind ver = \<lparr>fi_event_kind = HashUpserted, fi_video_id = lr_video_id row,
     fi_hash_kind = Some kind, fi_hash_version = Some ver,
     fi_input_media_version = Some LEGACY_MEDIA_VERSION,
     fi_payload = JObj [(''video_id'', JStr (lr_video_id row)), (''hash_kind'', JStr kind),
       (''hash_version'', JStr ver), (''input_media_version'', JStr LEGACY_MEDIA_VERSION),
       (''hash_value'', JStr ph), (''source'', JStr SOURCE_KIND)]\<rparr>"

definition visibility_event :: "legacy_row \<Rightarrow> storage_ref \<Rightarrow> feed_event_input" where
  "visibility_event row st = \<lparr>fi_event_kind = MediaVisibilityChanged, fi_video_id = lr_video_id row,
     fi_hash_kind = None, fi_hash_version = None, fi_input_media_version = None,
     fi_payload = media_feed_payload row st\<rparr>"

text \<open>A legacy hash is imported only when value, kind and version are all there.\<close>

definition legacy_hash :: "legacy_row \<Rightarrow> (string \<times> string \<times> string) option" where
  "legacy_hash row = (case (lr_phash row, lr_phash_kind row, lr_phash_version row) of
       (Some ph, Some kind, Some ver) \<Rightarrow> Some (ph, kind, ver) | _ \<Rightarrow> None)"

definition import_hash_txn :: "string \<Rightarrow> legacy_row \<Rightarrow> row_counts \<Rightarrow> row_counts pg" where
  "import_hash_txn sfw row counts = (case legacy_hash row of
       None \<Rightarrow> ret counts
     | Some (ph, kind, ver) \<Rightarrow>
         bnd (upsert_hash_record_txn (legacy_hash_input sfw row ph kind ver)) (\<lambda>out.
         if out = Inserted \<or> out = Changed
         then bnd (append_feed_event_txn (legacy_hash_event row ph kind ver)) (\<lambda>_.
              ret (counts\<lparr>rc_hash_rows_upserted := 1, rc_hash_feed_events_appended := 1\<rparr>))
         else ret counts))"

definition import_one_row_txn :: "string \<Rightarrow> legacy_row \<Rightarrow> string \<Rightarrow> row_counts pg" where
  "import_one_row_txn sfw row run = (case canonical_storage sfw row of
       None \<Rightarrow>
         bnd (record_import_failure_txn run (lr_video_id row) ''storage_selection'' keyless_error) (\<lambda>_.
         ret (no_counts\<lparr>rc_row_failures := 1\<rparr>))
     | Some st \<Rightarrow>
         bnd (import_media_row_txn row st) (\<lambda>out.
         bnd (if media out = Inserted \<or> media out = Changed
              then bnd (append_feed_event_txn (visibility_event row st)) (\<lambda>_.
                   ret (no_counts\<lparr>rc_imported_media_rows := 1\<rparr>))
              else ret no_counts) (\<lambda>counts.
         import_hash_txn sfw row counts)))"

section \<open>A page\<close>

definition legacy_row_of :: "video_index_row \<Rightarrow> legacy_row" where
  "legacy_row_of v = \<lparr>lr_video_id = vi_video_id v, lr_storj_key = vi_storj_key v,
     lr_hetzner_key = vi_hetzner_key v, lr_phash = vi_phash v, lr_phash_kind = vi_phash_kind v,
     lr_phash_version = vi_phash_version v\<rparr>"

definition legacy_rows_after :: "string option \<Rightarrow> pgdb \<Rightarrow> legacy_row list" where
  "legacy_rows_after after d = map legacy_row_of (sort_key vi_video_id (filter (\<lambda>v.
     beyond after (vi_video_id v) \<and> \<not> in_master (vi_video_id v) d) (video_index d)))"

definition fetch_missing_legacy_rows_after :: "string option \<Rightarrow> int \<Rightarrow> legacy_row list pg" where
  "fetch_missing_legacy_rows_after after lim = stmt (\<lambda>d.
     if lim < 0 then Inl (PgError ''LIMIT must not be negative'')
     else Inr (limit_rows lim (legacy_rows_after after d), d))"

text \<open>The optimistic batch: an error of a row comes back as \<open>Inl\<close> after the rollback; an error of
  the transaction itself ends the job.\<close>

definition import_batch :: "string \<Rightarrow> string \<Rightarrow> legacy_row list \<Rightarrow> (pgdb, pg_error, pg_error + row_counts) proc" where
  "import_batch sfw run page = tx_run end_tx rollback_tx
     (for_each (\<lambda>row c. bnd (import_one_row_txn sfw row run) (\<lambda>rc. ret (add_counts c rc))) page no_counts)"

fun import_rows :: "string \<Rightarrow> string \<Rightarrow> legacy_row list \<Rightarrow> import_summary \<Rightarrow> int \<Rightarrow>
    (pgdb, import_error, import_summary \<times> int) proc" where
  "import_rows sfw run [] s k = ret (s, k)"
| "import_rows sfw run (row # rows) s k =
     bnd (map_err ImportPostgres (tx_run end_tx rollback_tx (import_one_row_txn sfw row run))) (\<lambda>r.
       case r of
         Inr c \<Rightarrow> import_rows sfw run rows (count_summary c s) 0
       | Inl e \<Rightarrow>
           bnd (map_err ImportPostgres (transaction
                  (record_import_failure_txn run (lr_video_id row) ''import_error'' (error_text e)))) (\<lambda>_.
           if k + 1 \<ge> MAX_CONSECUTIVE_IMPORT_FAILURES
           then raise (TooManyConsecutiveFailures (k + 1) (error_text e))
           else import_rows sfw run rows (s\<lparr>is_row_failures := is_row_failures s + 1\<rparr>) (k + 1)))"

definition import_page :: "string \<Rightarrow> string \<Rightarrow> legacy_row list \<Rightarrow> import_summary \<Rightarrow> int \<Rightarrow>
    (pgdb, import_error, import_summary \<times> int) proc" where
  "import_page sfw run page s k =
     bnd (map_err ImportPostgres (import_batch sfw run page)) (\<lambda>r.
       case r of
         Inr c \<Rightarrow> ret (count_summary c s, 0)
       | Inl _ \<Rightarrow> import_rows sfw run page s k)"

section \<open>The job\<close>

definition import_totals :: "import_summary \<Rightarrow> json" where
  "import_totals s = JObj [(''scanned_rows'', JInt (is_scanned_rows s)),
     (''imported_media_rows'', JInt (is_imported_media_rows s)),
     (''hash_rows_upserted'', JInt (is_hash_rows_upserted s)),
     (''hash_feed_events_appended'', JInt (is_hash_feed_events_appended s)),
     (''row_failures'', JInt (is_row_failures s))]"

definition insert_import_run :: "string \<Rightarrow> string \<Rightarrow> unit pg" where
  "insert_import_run run requested_by = stmt (\<lambda>d.
     if has_key jr_id run (job_runs d) then Inl (PgError ''duplicate key value'')
     else Inr ((), d\<lparr>job_runs := job_runs d @ [\<lparr>jr_id = run, jr_job_kind = IMPORT_JOB_KIND,
        jr_status = ''running'', jr_requested_by = requested_by, jr_started_at = now_us d,
        jr_finished_at = None, jr_cursor = None, jr_totals = None, jr_error_message = None\<rparr>]\<rparr>))"

definition complete_import_run :: "import_summary \<Rightarrow> string \<Rightarrow> unit pg" where
  "complete_import_run s status = exec (\<lambda>d. d\<lparr>job_runs :=
     update_where (\<lambda>r. jr_id r = is_job_run_id s)
       (\<lambda>r. r\<lparr>jr_status := status, jr_finished_at := Some (now_us d),
               jr_totals := Some (import_totals s), jr_error_message := None\<rparr>) (job_runs d)\<rparr>)"

definition mark_import_run_failed :: "string \<Rightarrow> string \<Rightarrow> unit pg" where
  "mark_import_run_failed run err = exec (\<lambda>d. d\<lparr>job_runs :=
     update_where (\<lambda>r. jr_id r = run)
       (\<lambda>r. r\<lparr>jr_status := ''failed'', jr_finished_at := Some (now_us d),
               jr_error_message := Some err\<rparr>) (job_runs d)\<rparr>)"

definition token_set :: "nat option \<Rightarrow> nat \<Rightarrow> bool" where
  "token_set cancel k \<longleftrightarrow> (case cancel of None \<Rightarrow> False | Some n \<Rightarrow> n \<le> k)"

text \<open>The page loop with fuel: the summary and whether it was cancelled; \<open>None\<close> is out of fuel. The
  token is polled once per page.\<close>

fun import_loop :: "string \<Rightarrow> string \<Rightarrow> int \<Rightarrow> int option \<Rightarrow> nat option \<Rightarrow> nat \<Rightarrow> string option \<Rightarrow>
    import_summary \<Rightarrow> int \<Rightarrow> nat \<Rightarrow> (pgdb, import_error, (import_summary \<times> bool) option) proc" where
  "import_loop sfw run batch lim cancel 0 after s k polls = ret None"
| "import_loop sfw run batch lim cancel (Suc fuel) after s k polls =
     (if token_set cancel polls then ret (Some (s, True))
      else let remaining = map_option (\<lambda>l. l - is_scanned_rows s) lim in
        if remaining = Some 0 then ret (Some (s, False))
        else let page_limit = (case remaining of Some r \<Rightarrow> min r batch | None \<Rightarrow> batch) in
          bnd (map_err ImportPostgres (fetch_missing_legacy_rows_after after page_limit)) (\<lambda>page.
          if page = [] then ret (Some (s, False))
          else bnd (import_page sfw run page s k) (\<lambda>(s1, k1).
               let s2 = s1\<lparr>is_scanned_rows := is_scanned_rows s1 + int (length page)\<rparr> in
               bnd (attempt (update_job_run_totals run (import_totals s2))) (\<lambda>_.
               import_loop sfw run batch lim cancel fuel (Some (lr_video_id (last page))) s2 k1 (polls + 1)))))"

definition zero_import :: "string \<Rightarrow> import_summary" where
  "zero_import run = \<lparr>is_job_run_id = run, is_scanned_rows = 0, is_imported_media_rows = 0,
     is_hash_rows_upserted = 0, is_hash_feed_events_appended = 0, is_row_failures = 0\<rparr>"

definition import_status :: "bool \<Rightarrow> import_summary \<Rightarrow> string" where
  "import_status cancelled s = (if cancelled then ''cancelled''
     else if is_row_failures s = 0 then ''succeeded'' else ''succeeded_with_failures'')"

definition import_inner :: "string \<Rightarrow> string \<Rightarrow> int \<Rightarrow> int option \<Rightarrow> nat option \<Rightarrow> nat \<Rightarrow>
    (pgdb, import_error, import_summary option) proc" where
  "import_inner sfw run batch lim cancel fuel =
     bnd (import_loop sfw run batch lim cancel fuel None (zero_import run) 0 0) (\<lambda>r.
       case r of
         None \<Rightarrow> ret None
       | Some (s, cancelled) \<Rightarrow>
           bnd (map_err ImportPostgres (complete_import_run s (import_status cancelled s))) (\<lambda>_.
           ret (Some s)))"

definition import_error_text :: "import_error \<Rightarrow> string" where
  "import_error_text e = (case e of
       InvalidImportLimit l \<Rightarrow> ''invalid legacy video_index import limit '' @ show_int l @
         ''; expected a non-negative value''
     | ImportPostgres p \<Rightarrow> ''postgres legacy video_index import failed: '' @ error_text p
     | TooManyConsecutiveFailures n t \<Rightarrow> ''import aborted after '' @ show_int n @
         '' consecutive row failures (systemic error); last: '' @ t)"

definition import_current_video_index :: "string \<Rightarrow> string \<Rightarrow> int \<Rightarrow> int option \<Rightarrow> nat option \<Rightarrow> nat \<Rightarrow>
    string \<Rightarrow> (pgdb, import_error, import_summary option) proc" where
  "import_current_video_index sfw run batch lim cancel fuel requested_by =
     bnd (map_err ImportPostgres (insert_import_run run requested_by)) (\<lambda>_.
     if (case lim of None \<Rightarrow> False | Some l \<Rightarrow> l < 0)
     then (let e = InvalidImportLimit (the lim) in
           bnd (attempt (mark_import_run_failed run (import_error_text e))) (\<lambda>_. raise e))
     else bnd (attempt (import_inner sfw run batch lim cancel fuel)) (\<lambda>r.
       case r of
         Inr x \<Rightarrow> ret x
       | Inl e \<Rightarrow> bnd (attempt (mark_import_run_failed run (import_error_text e))) (\<lambda>_. raise e)))"

section \<open>Integrity under faults\<close>

lemma import_failure_key [simp]: "failure_key (import_failure run t v ph e) = (IMPORT_JOB_KIND, v, ph)"
  by (simp add: failure_key_def import_failure_def)

lemma safe_record_import_failure [safe_intros]: "safe (record_import_failure_txn run v ph e)"
  unfolding record_import_failure_txn_def
proof (rule safe_stmt, goal_cases)
  case (1 d x d')
  let ?g = "\<lambda>f. f\<lparr>jf_job_run_id := Some run, jf_video_id := Some v, jf_source_ref := Some v,
     jf_last_error := e, jf_status := ''pending_retry'', jf_updated_at := now_us d\<rparr>"
  have u: "uniq failure_key (upsert failure_key (import_failure run (now_us d) v ph e) ?g (job_failures d))"
    using 1 by (intro uniq_upsert) (auto simp: failure_key_def db_ok_defs)
  show ?case
    using 1 u by (auto simp: db_ok_defs upsert_def set_update_where import_failure_def split: if_splits)
qed

lemma safe_import_media [safe_intros]: "safe (import_media_row_txn row st)"
  unfolding import_media_row_txn_def
proof (intro safe_intros safe_exec, goal_cases)
  case (1 x d)
  then show ?case
    by (auto simp: db_ok_defs set_update_where source_key_def intro!: uniq_update_where)
qed simp_all

lemma safe_import_one [safe_intros]: "safe (import_one_row_txn sfw row run)"
  unfolding import_one_row_txn_def import_hash_txn_def by (intro safe_intros)

lemma safe_import_rows [safe_intros]: "safe (import_rows sfw run rows s k)"
  by (induction rows arbitrary: s k) (auto intro!: safe_intros)

lemma safe_import_page [safe_intros]: "safe (import_page sfw run page s k)"
  unfolding import_page_def import_batch_def by (intro safe_intros)

lemma safe_fetch_legacy [safe_intros]: "safe (fetch_missing_legacy_rows_after a l)"
  unfolding fetch_missing_legacy_rows_after_def by (rule safe_stmt) (auto split: if_splits)

lemma safe_import_loop [safe_intros]: "safe (import_loop sfw run batch lim cancel fuel a s k polls)"
  by (induction fuel arbitrary: a s k polls) (auto simp: Let_def intro!: safe_intros)

lemma safe_import [safe_intros]: "safe (import_current_video_index sfw run batch lim cancel fuel by')"
proof -
  have "safe (insert_import_run run by')"
    unfolding insert_import_run_def
    by (rule safe_stmt) (auto simp: db_ok_defs uniq_snoc split: if_splits)
  moreover have "safe (complete_import_run s st)" for s st
    unfolding complete_import_run_def by (rule safe_exec) (simp_all add: db_ok_run_update)
  moreover have "safe (mark_import_run_failed run e)" for e
    unfolding mark_import_run_failed_def by (rule safe_exec) (simp_all add: db_ok_run_update)
  ultimately show ?thesis
    unfolding import_current_video_index_def import_inner_def Let_def
    by (auto intro!: safe_intros)
qed

end
