(* ===== verification/Media_Import_Props.thy ===== *)
theory Media_Import_Props
  imports Media_Import
begin

text \<open>
  The properties of the legacy import: what a row does, that a run ends with every row that has a
  copy registered, that a registered video is always announced in the feed whatever fails, and
  when the circuit breaker opens.
\<close>

section \<open>One row without faults\<close>

definition has_copy :: "legacy_row \<Rightarrow> bool" where
  "has_copy row \<longleftrightarrow> lr_storj_key row \<noteq> None \<or> lr_hetzner_key row \<noteq> None"

lemma canonical_storage_copy: "canonical_storage sfw row = None \<longleftrightarrow> \<not> has_copy row"
  by (auto simp: canonical_storage_def has_copy_def split: option.split)

definition row_post :: "string \<Rightarrow> legacy_row \<Rightarrow> pgdb \<Rightarrow> pgdb \<Rightarrow> bool" where
  "row_post run row d d' \<longleftrightarrow> job_runs d' = job_runs d \<and> video_index d' = video_index d \<and>
     (\<forall>v. in_master v d' \<longleftrightarrow> in_master v d \<or> (v = lr_video_id row \<and> has_copy row)) \<and>
     (\<not> has_copy row \<longrightarrow>
        has_key failure_key (IMPORT_JOB_KIND, lr_video_id row, ''storage_selection'') (job_failures d')) \<and>
     (\<forall>k. has_key failure_key k (job_failures d) \<longrightarrow> has_key failure_key k (job_failures d'))"

lemma row_post_trans:
  assumes "row_post run r d d1" and "job_runs d2 = job_runs d1" and "video_index d2 = video_index d1"
    and "\<And>v. in_master v d2 = in_master v d1" and "job_failures d2 = job_failures d1"
  shows "row_post run r d d2"
  using assms by (simp add: row_post_def)

lemma put_master_has: "in_master v (put_master i d) \<longleftrightarrow> v = sv_video_id i \<or> in_master v d"
  by (auto simp: in_master_def has_key_row_of put_master_row)

lemma put_master_simps [simp]: "job_runs (put_master i d) = job_runs d"
  "video_index (put_master i d) = video_index d" "job_failures (put_master i d) = job_failures d"
  "feed_rows (put_master i d) = feed_rows d" "video_hashes (put_master i d) = video_hashes d"
  by (simp_all add: put_master_def split: option.split)

lemma put_source_simps [simp]: "job_runs (put_source i d) = job_runs d"
  "video_index (put_source i d) = video_index d" "job_failures (put_source i d) = job_failures d"
  "feed_rows (put_source i d) = feed_rows d" "video_hashes (put_source i d) = video_hashes d"
  by (simp_all add: put_source_def)

lemma announce_simps [simp]: "job_runs (announce i d) = job_runs d"
  "video_index (announce i d) = video_index d" "job_failures (announce i d) = job_failures d"
  "servable_videos (announce i d) = servable_videos d" "video_hashes (announce i d) = video_hashes d"
  by (simp_all add: announce_def)

lemma put_hash_index [simp]: "video_index (put_hash i d) = video_index d"
  by (simp add: put_hash_def split: option.split)

lemma legacy_input_simps [simp]:
  "sv_video_id (legacy_video_input row st) = lr_video_id row"
  "hr_video_id (legacy_hash_input sfw row ph kind ver) = lr_video_id row"
  "fi_video_id (legacy_hash_event row ph kind ver) = lr_video_id row"
  "fi_video_id (visibility_event row st) = lr_video_id row"
  by (simp_all add: legacy_video_input_def legacy_hash_input_def legacy_hash_event_def visibility_event_def)

lemma import_hash_run:
  assumes "in_master (lr_video_id row) d"
  shows "\<exists>c' d'. import_hash_txn sfw row c ([], d) = (Inr c', [], d') \<and>
    rc_row_failures c' = rc_row_failures c \<and> job_runs d' = job_runs d \<and> video_index d' = video_index d \<and>
    servable_videos d' = servable_videos d \<and> job_failures d' = job_failures d"
proof (cases "legacy_hash row")
  case None
  then show ?thesis by (simp add: import_hash_txn_def)
next
  case (Some pkv)
  obtain ph kind ver where p: "pkv = (ph, kind, ver)" by (cases pkv)
  let ?i = "legacy_hash_input sfw row ph kind ver"
  have "in_master (fi_video_id (legacy_hash_event row ph kind ver)) (put_hash ?i d)"
    using assms by (simp add: in_master_def)
  with upsert_hash_run [of ?i d] append_run [of "legacy_hash_event row ph kind ver" "put_hash ?i d"]
    assms Some p show ?thesis
    by (simp add: import_hash_txn_def run_bnd)
qed

lemma import_one_run:
  assumes "has_key jr_id run (job_runs d)"
  shows "\<exists>c d'. import_one_row_txn sfw row run ([], d) = (Inr c, [], d') \<and> row_post run row d d' \<and>
    rc_row_failures c = (if has_copy row then 0 else 1)"
proof (cases "canonical_storage sfw row")
  case None
  then have "\<not> has_copy row" by (simp add: canonical_storage_copy)
  let ?f = "import_failure run (now_us d) (lr_video_id row) ''storage_selection'' keyless_error"
  let ?g = "\<lambda>f. f\<lparr>jf_job_run_id := Some run, jf_video_id := Some (lr_video_id row),
     jf_source_ref := Some (lr_video_id row), jf_last_error := keyless_error,
     jf_status := ''pending_retry'', jf_updated_at := now_us d\<rparr>"
  have "has_key failure_key k (upsert failure_key ?f ?g (job_failures d)) \<longleftrightarrow>
      k = failure_key ?f \<or> has_key failure_key k (job_failures d)" for k
    by (rule has_key_upsert) (simp add: failure_key_def)
  with None assms \<open>\<not> has_copy row\<close> show ?thesis
    by (simp add: import_one_row_txn_def record_import_failure_txn_def run_bnd run_stmt row_post_def
        in_master_def no_counts_def)
next
  case (Some st)
  then have hc: "has_copy row" using canonical_storage_copy [of sfw row] by simp
  let ?i = "legacy_video_input row st"
  define d1 where "d1 = put_master ?i (put_source ?i d)"
  define d2 where "d2 = d1\<lparr>video_sources := update_where
      (\<lambda>s. source_key s = (lr_video_id row, SOURCE_KIND, lr_video_id row))
      (\<lambda>s. s\<lparr>src_raw_payload := Some (raw_payload row)\<rparr>) (video_sources d1)\<rparr>"
  obtain out where m: "import_media_row_txn row st ([], d) = (Inr out, [], d2)"
    by (simp add: import_media_row_txn_def run_bnd upsert_servable_run run_exec d1_def d2_def)
  have im: "in_master v d2 \<longleftrightarrow> v = lr_video_id row \<or> in_master v d" for v
    using put_master_has [of v ?i "put_source ?i d"] by (simp add: in_master_def d1_def d2_def)
  let ?b = "media out = Inserted \<or> media out = Changed"
  define d3 where "d3 = (if ?b then announce (visibility_event row st) d2 else d2)"
  define c where "c = (if ?b then no_counts\<lparr>rc_imported_media_rows := 1\<rparr> else no_counts)"
  have d3: "job_runs d3 = job_runs d" "video_index d3 = video_index d" "job_failures d3 = job_failures d"
      "servable_videos d3 = servable_videos d2"
    by (simp_all add: d3_def d2_def d1_def)
  then have im3: "in_master v d3 \<longleftrightarrow> v = lr_video_id row \<or> in_master v d" for v
    using im [of v] by (simp add: in_master_def)
  then obtain c' d' where h: "import_hash_txn sfw row c ([], d3) = (Inr c', [], d')"
      "rc_row_failures c' = rc_row_failures c" "job_runs d' = job_runs d3" "video_index d' = video_index d3"
      "servable_videos d' = servable_videos d3" "job_failures d' = job_failures d3"
    using import_hash_run [of row d3 sfw c] by blast
  have "append_feed_event_txn (visibility_event row st) ([], d2) =
      (Inr (feed_seq d2), [], announce (visibility_event row st) d2)"
    using im by (intro append_run) simp
  with Some m h(1) have run: "import_one_row_txn sfw row run ([], d) = (Inr c', [], d')"
    by (cases ?b) (simp_all add: import_one_row_txn_def run_bnd d3_def c_def)
  have "in_master v d' \<longleftrightarrow> v = lr_video_id row \<or> in_master v d" for v
    using im3 [of v] h(5) by (simp add: in_master_def)
  then have post: "row_post run row d d'"
    using h(3,4,6) d3 hc by (auto simp: row_post_def)
  have "rc_row_failures c' = 0" using h(2) by (simp add: no_counts_def c_def)
  with run hc post show ?thesis by (intro exI [of _ c'] exI [of _ d']) simp
qed

section \<open>One page without faults\<close>

definition keyless :: "legacy_row \<Rightarrow> bool" where
  "keyless row \<longleftrightarrow> \<not> has_copy row"

definition rows_post :: "legacy_row list \<Rightarrow> pgdb \<Rightarrow> pgdb \<Rightarrow> bool" where
  "rows_post rows d d' \<longleftrightarrow> job_runs d' = job_runs d \<and> video_index d' = video_index d \<and>
     (\<forall>v. in_master v d' \<longleftrightarrow> in_master v d \<or> (\<exists>row \<in> set rows. v = lr_video_id row \<and> has_copy row)) \<and>
     (\<forall>row \<in> set rows. keyless row \<longrightarrow>
        has_key failure_key (IMPORT_JOB_KIND, lr_video_id row, ''storage_selection'') (job_failures d')) \<and>
     (\<forall>k. has_key failure_key k (job_failures d) \<longrightarrow> has_key failure_key k (job_failures d'))"

lemma rows_post_append: "rows_post xs d d1 \<Longrightarrow> rows_post ys d1 d2 \<Longrightarrow> rows_post (xs @ ys) d d2"
  unfolding rows_post_def by auto

lemma rows_post_end: "rows_post xs d (end_tx d') = rows_post xs d d'"
  by (simp add: rows_post_def end_tx_def in_master_def)

lemma batch_body_run:
  "has_key jr_id run (job_runs d) \<Longrightarrow>
   \<exists>c' d'. for_each (\<lambda>row c. bnd (import_one_row_txn sfw row run) (\<lambda>rc. ret (add_counts c rc))) rows c ([], d) =
      (Inr c', [], d') \<and> rows_post rows d d' \<and>
      rc_row_failures c' = rc_row_failures c + count_where keyless rows"
proof (induction rows arbitrary: c d)
  case Nil
  then show ?case by (simp add: rows_post_def count_where_def)
next
  case (Cons row rows)
  obtain rc d1 where 1: "import_one_row_txn sfw row run ([], d) = (Inr rc, [], d1)" "row_post run row d d1"
      "rc_row_failures rc = (if has_copy row then 0 else 1)"
    using import_one_run [OF Cons.prems, of sfw row] by blast
  have "has_key jr_id run (job_runs d1)" using 1(2) Cons.prems by (simp add: row_post_def)
  from Cons.IH [OF this, of "add_counts c rc"] obtain c' d' where
    2: "for_each (\<lambda>row c. bnd (import_one_row_txn sfw row run) (\<lambda>rc. ret (add_counts c rc))) rows
          (add_counts c rc) ([], d1) = (Inr c', [], d')" "rows_post rows d1 d'"
      "rc_row_failures c' = rc_row_failures (add_counts c rc) + count_where keyless rows" by blast
  have "rows_post [row] d d1" using 1(2) by (simp add: rows_post_def row_post_def keyless_def)
  from rows_post_append [OF this 2(2)] have "rows_post (row # rows) d d'" by simp
  moreover have "for_each (\<lambda>row c. bnd (import_one_row_txn sfw row run) (\<lambda>rc. ret (add_counts c rc)))
      (row # rows) c ([], d) = (Inr c', [], d')"
    using 1(1) 2(1) by (simp only: run_for_each_Cons run_bnd sum.case prod.case run_ret)
  moreover have "rc_row_failures c' = rc_row_failures c + count_where keyless (row # rows)"
    using 1(3) 2(3) by (simp add: add_counts_def count_where_def keyless_def)
  ultimately show ?case by blast
qed

lemma import_page_run:
  assumes "has_key jr_id run (job_runs d)"
  shows "\<exists>s' d'. (\<forall>k. import_page sfw run rows s k ([], d) = (Inr (s', 0), [], d')) \<and> rows_post rows d d' \<and>
    is_row_failures s' = is_row_failures s + count_where keyless rows \<and>
    is_scanned_rows s' = is_scanned_rows s \<and> is_job_run_id s' = is_job_run_id s"
proof -
  obtain c d' where 1: "for_each (\<lambda>row c. bnd (import_one_row_txn sfw row run) (\<lambda>rc. ret (add_counts c rc)))
      rows no_counts ([], d) = (Inr c, [], d')" "rows_post rows d d'"
      "rc_row_failures c = rc_row_failures no_counts + count_where keyless rows"
    using batch_body_run [OF assms, of sfw rows no_counts] by blast
  then have "import_page sfw run rows s k ([], d) = (Inr (count_summary c s, 0), [], end_tx d')" for k
    by (simp add: import_page_def import_batch_def run_bnd run_map_err run_tx_run run_exec)
  with 1 show ?thesis
    by (intro exI [of _ "count_summary c s"] exI [of _ "end_tx d'"])
       (simp add: rows_post_end count_summary_def no_counts_def)
qed

section \<open>The whole import\<close>

definition import_process :: "string \<Rightarrow> string \<Rightarrow> legacy_row list \<Rightarrow> pgdb \<times> import_summary \<Rightarrow> pgdb \<times> import_summary" where
  "import_process sfw run rows t = (case import_page sfw run rows (snd t) 0 ([], fst t) of
       (Inl _, _, d) \<Rightarrow> (d, snd t)
     | (Inr (s1, _), _, d) \<Rightarrow> (let s2 = s1\<lparr>is_scanned_rows := is_scanned_rows s1 + int (length rows)\<rparr>
         in (put_totals run (import_totals s2) d, s2)))"

definition import_ok :: "string \<Rightarrow> pgdb \<Rightarrow> bool" where
  "import_ok run d \<longleftrightarrow> db_ok d \<and> has_key jr_id run (job_runs d)"

lemma has_run_totals [simp]: "has_key jr_id r (job_runs (put_totals run j d)) = has_key jr_id r (job_runs d)"
  by (simp add: put_totals_def)

lemma put_totals_frame [simp]:
  "in_master v (put_totals run j d) = in_master v d" "video_index (put_totals run j d) = video_index d"
  "job_failures (put_totals run j d) = job_failures d"
  by (simp_all add: put_totals_def in_master_def)

definition import_post :: "string \<Rightarrow> legacy_row list \<Rightarrow> pgdb \<times> import_summary \<Rightarrow> pgdb \<times> import_summary \<Rightarrow> bool" where
  "import_post run rows t u \<longleftrightarrow> import_ok run (fst u) \<and> video_index (fst u) = video_index (fst t) \<and>
     (\<forall>v. in_master v (fst u) \<longleftrightarrow> in_master v (fst t) \<or> (\<exists>row \<in> set rows. v = lr_video_id row \<and> has_copy row)) \<and>
     (\<forall>row \<in> set rows. keyless row \<longrightarrow> has_key failure_key
        (IMPORT_JOB_KIND, lr_video_id row, ''storage_selection'') (job_failures (fst u))) \<and>
     (\<forall>k. has_key failure_key k (job_failures (fst t)) \<longrightarrow> has_key failure_key k (job_failures (fst u))) \<and>
     is_scanned_rows (snd u) = is_scanned_rows (snd t) + int (length rows) \<and>
     is_row_failures (snd u) = is_row_failures (snd t) + count_where keyless rows \<and>
     is_job_run_id (snd u) = is_job_run_id (snd t)"

lemma import_process_run:
  assumes "import_ok run (fst t)"
  shows "\<exists>s1 d1. import_page sfw run rows (snd t) k ([], fst t) = (Inr (s1, 0), [], d1) \<and>
    import_process sfw run rows t =
      (let s2 = s1\<lparr>is_scanned_rows := is_scanned_rows s1 + int (length rows)\<rparr>
       in (put_totals run (import_totals s2) d1, s2)) \<and> import_post run rows t (import_process sfw run rows t)"
proof -
  have hk: "has_key jr_id run (job_runs (fst t))" and ok: "db_ok (fst t)"
    using assms by (simp_all add: import_ok_def)
  from import_page_run [OF hk, of sfw rows "snd t"] obtain s1 d1 where
    all: "\<And>k. import_page sfw run rows (snd t) k ([], fst t) = (Inr (s1, 0), [], d1)" and
    1: "rows_post rows (fst t) d1"
      "is_row_failures s1 = is_row_failures (snd t) + count_where keyless rows"
      "is_scanned_rows s1 = is_scanned_rows (snd t)" "is_job_run_id s1 = is_job_run_id (snd t)" by blast
  have "db_ok d1" using safe_run [OF safe_import_page all ok] .
  moreover have "has_key jr_id run (job_runs d1)" using 1(1) hk by (simp add: rows_post_def)
  ultimately have "import_post run rows t (import_process sfw run rows t)"
    using 1 by (simp add: import_process_def all import_post_def import_ok_def rows_post_def Let_def)
  with all show ?thesis by (simp add: import_process_def)
qed

lemma lr_legacy [simp]: "lr_video_id (legacy_row_of v) = vi_video_id v"
  by (simp add: legacy_row_of_def)

lemma legacy_rows_set: "r \<in> set (legacy_rows_after a d) \<longleftrightarrow>
   (\<exists>v \<in> set (video_index d). r = legacy_row_of v \<and> beyond a (vi_video_id v) \<and> \<not> in_master (vi_video_id v) d)"
  by (auto simp: legacy_rows_after_def)

lemma legacy_rows_strict:
  "uniq vi_video_id (video_index d) \<Longrightarrow> sorted_wrt (<) (map lr_video_id (legacy_rows_after a d))"
  unfolding legacy_rows_after_def map_map o_def lr_legacy
  by (rule sort_key_strict) (rule uniq_filter)

lemma legacy_rows_frame:
  assumes "video_index d' = video_index d" and "\<And>v. beyond a v \<Longrightarrow> in_master v d' = in_master v d"
  shows "legacy_rows_after a d' = legacy_rows_after a d"
  unfolding legacy_rows_after_def assms(1)
  by (intro arg_cong [where f = "\<lambda>xs. map _ (sort_key _ xs)"] filter_cong refl) (use assms(2) in auto)

interpretation import_scan: paged_job
  "\<lambda>t a n. limit_rows (int n) (legacy_rows_after a (fst t))" lr_video_id
  "\<lambda>t a. legacy_rows_after a (fst t)" "\<lambda>t. import_ok run (fst t)" "import_process sfw run" for run sfw
proof (unfold_locales, goal_cases)
  case (1 s a n)
  then show ?case by (simp add: limit_rows_def)
next
  case (2 s a)
  then show ?case by (intro legacy_rows_strict) (simp add: import_ok_def db_ok_defs)
next
  case (3 r s a)
  then show ?case by (auto simp: legacy_rows_set beyond_past)
next
  case (4 a k s)
  then have "k < v \<Longrightarrow> beyond a v" for v by (cases a) (auto simp: past_def beyond_def)
  then show ?case
    unfolding legacy_rows_after_def filter_map o_def lr_legacy filter_sort_key filter_filter
    by (auto intro!: arg_cong [where f = "map _"] arg_cong [where f = "sort_key _"] filter_cong
        simp: beyond_def)
next
  case (5 s rs a n)
  then show ?case using import_process_run [of run s sfw rs 0] by (auto simp: import_post_def)
next
  case (6 s rs a n)
  have "sorted_wrt (<) (map lr_video_id rs)"
    using 6 legacy_rows_strict [of "fst s" a]
    by (simp add: limit_rows_def take_map [symmetric] sorted_wrt_take import_ok_def db_ok_defs)
  then have "lr_video_id r \<le> lr_video_id (last rs)" if "r \<in> set rs" for r
    using that by (rule strict_last_max)
  then have "in_master v (fst (import_process sfw run rs s)) = in_master v (fst s)"
    if "beyond (Some (lr_video_id (last rs))) v" for v
    using that import_process_run [OF 6(1), of sfw rs 0] by (fastforce simp: import_post_def beyond_def)
  then show ?case
    using import_process_run [OF 6(1), of sfw rs 0] by (intro legacy_rows_frame) (auto simp: import_post_def)
qed

lemma import_post_append:
  "import_post run vs t u \<Longrightarrow> import_post run rs u w \<Longrightarrow> import_post run (vs @ rs) t w"
  unfolding import_post_def by (auto simp: count_where_def)

lemma import_walk_post:
  assumes w: "walk (\<lambda>t a n. limit_rows (int n) (legacy_rows_after a (fst t))) lr_video_id
      (import_process sfw run) n fuel None t = Some (vs, u)"
    and n: "0 < n" and ok: "import_ok run (fst t)"
  shows "import_post run vs t u"
proof -
  let ?P = "\<lambda>a us u. import_post run us t u"
  have "\<exists>a'. ?P a' ([] @ vs) u \<and> legacy_rows_after a' (fst u) = []"
  proof (rule import_scan.walk_invariant [where P = ?P and n = n and sfw = sfw and run = run and s = t
        and a = None and vs = "[]" and us = vs and t = u and fuel = fuel])
    fix a us v
    assume P: "import_post run us t v" and okv: "import_ok run (fst v)"
    let ?rs = "limit_rows (int n) (legacy_rows_after a (fst v))"
    from import_process_run [OF okv, of sfw ?rs 0] have "import_post run ?rs v (import_process sfw run ?rs v)"
      by blast
    with P show "import_post run (us @ ?rs) t (import_process sfw run ?rs v)"
      by (rule import_post_append)
  next
    show "import_post run [] t t" using ok by (simp add: import_post_def count_where_def)
  qed (fact n w ok)+
  then show ?thesis by auto
qed

lemma import_loop_walk:
  assumes n: "0 < n"
    and w: "walk (\<lambda>t a n. limit_rows (int n) (legacy_rows_after a (fst t))) lr_video_id
      (import_process sfw run) n fuel a (d, s) = Some (vs, (d', s'))"
    and ok: "import_ok run d"
  shows "import_loop sfw run (int n) None None fuel a s k polls ([], d) = (Inr (Some (s', False)), [], d')"
  using w ok
proof (induction fuel arbitrary: a d s k polls vs)
  case 0
  then show ?case by simp
next
  case (Suc fuel)
  let ?rs = "limit_rows (int n) (legacy_rows_after a d)"
  have page: "fetch_missing_legacy_rows_after a (int n) ([], d) = (Inr ?rs, [], d)"
    by (simp add: fetch_missing_legacy_rows_after_def run_stmt)
  show ?case
  proof (cases "?rs = []")
    case True
    with Suc.prems page show ?thesis by (simp add: token_set_def Let_def run_bnd run_map_err)
  next
    case False
    let ?k = "Some (lr_video_id (last ?rs))"
    obtain s1 d1 where 1: "import_page sfw run ?rs s k ([], d) = (Inr (s1, 0), [], d1)"
      and proc: "import_process sfw run ?rs (d, s) = (put_totals run (import_totals
            (s1\<lparr>is_scanned_rows := is_scanned_rows s1 + int (length ?rs)\<rparr>)) d1,
          s1\<lparr>is_scanned_rows := is_scanned_rows s1 + int (length ?rs)\<rparr>)"
      and post: "import_post run ?rs (d, s) (import_process sfw run ?rs (d, s))"
      using import_process_run [of run "(d, s)" sfw ?rs k] Suc.prems(2) by (auto simp: Let_def)
    let ?s2 = "s1\<lparr>is_scanned_rows := is_scanned_rows s1 + int (length ?rs)\<rparr>"
    let ?d2 = "put_totals run (import_totals ?s2) d1"
    from Suc.prems(1) False proc obtain ws where
      ws: "walk (\<lambda>t a n. limit_rows (int n) (legacy_rows_after a (fst t))) lr_video_id
        (import_process sfw run) n fuel ?k (?d2, ?s2) = Some (ws, (d', s'))"
      by (auto simp: Let_def split: option.splits)
    have "import_ok run (fst (import_process sfw run ?rs (d, s)))"
      using post unfolding import_post_def by blast
    then have "import_ok run ?d2" by (simp only: proc fst_conv)
    from Suc.IH [OF ws this, of 0 "polls + 1"] page False 1 show ?thesis
      by (simp add: token_set_def Let_def run_bnd run_map_err run_attempt update_totals_run)
  qed
qed

lemma import_run_completes:
  assumes ok: "db_ok d" and run: "\<not> has_key jr_id run (job_runs d)" and n: "0 < batch"
    and fuel: "length (video_index d) < fuel"
  shows "\<exists>s d'. import_current_video_index sfw run batch None None fuel by' ([], d) = (Inr (Some s), [], d') \<and>
    is_scanned_rows s = int (length (legacy_rows_after None d)) \<and>
    is_row_failures s = count_where keyless (legacy_rows_after None d) \<and>
    (\<forall>v \<in> set (video_index d). vi_storj_key v \<noteq> None \<or> vi_hetzner_key v \<noteq> None \<longrightarrow> in_master (vi_video_id v) d') \<and>
    (\<forall>v \<in> set (video_index d). vi_storj_key v = None \<and> vi_hetzner_key v = None \<and> \<not> in_master (vi_video_id v) d \<longrightarrow>
       has_key failure_key (IMPORT_JOB_KIND, vi_video_id v, ''storage_selection'') (job_failures d')) \<and>
    map_option jr_status (row_of jr_id run (job_runs d')) = Some (import_status False s)"
proof -
  let ?r = "\<lparr>jr_id = run, jr_job_kind = IMPORT_JOB_KIND, jr_status = ''running'', jr_requested_by = by',
     jr_started_at = now_us d, jr_finished_at = None, jr_cursor = None, jr_totals = None, jr_error_message = None\<rparr>"
  define d0 where "d0 = d\<lparr>job_runs := job_runs d @ [?r]\<rparr>"
  have ins: "insert_import_run run by' ([], d) = (Inr (), [], d0)"
    using run by (simp add: insert_import_run_def run_stmt d0_def)
  have d0: "video_index d0 = video_index d" "in_master v d0 = in_master v d" for v
    by (simp_all add: d0_def in_master_def)
  then have rows: "legacy_rows_after None d0 = legacy_rows_after None d" by (intro legacy_rows_frame)
  have ok0: "import_ok run d0"
    using ok run by (auto simp: import_ok_def d0_def db_ok_defs uniq_snoc has_key_code)
  let ?n = "nat batch" and ?s0 = "zero_import run"
  have "length (legacy_rows_after None d0) < fuel"
    using fuel by (simp add: legacy_rows_after_def d0 le_less_trans [OF length_filter_le])
  with import_scan.walk_complete [of ?n run "(d0, ?s0)" None fuel sfw] n ok0 obtain u where
    w: "walk (\<lambda>t a n. limit_rows (int n) (legacy_rows_after a (fst t))) lr_video_id (import_process sfw run)
        ?n fuel None (d0, ?s0) = Some (legacy_rows_after None d0, u)" by auto
  obtain d1 s1 where u: "u = (d1, s1)" by (cases u)
  have post: "import_post run (legacy_rows_after None d) (d0, ?s0) (d1, s1)"
    using import_walk_post [OF w] n ok0 by (simp add: u rows)
  define d2 where "d2 = db_after (complete_import_run s1 (import_status False s1)) ([], d1)"
  have loop: "import_loop sfw run batch None None fuel None ?s0 0 0 ([], d0) = (Inr (Some (s1, False)), [], d1)"
    using import_loop_walk [of ?n sfw run fuel None d0 ?s0 "legacy_rows_after None d0" d1 s1 0 0] w n ok0
    by (simp add: u)
  have result: "import_current_video_index sfw run batch None None fuel by' ([], d) = (Inr (Some s1), [], d2)"
    by (simp add: import_current_video_index_def run_bnd run_map_err ins run_attempt import_inner_def loop
        complete_import_run_def run_exec d2_def db_after_def)
  have id: "is_job_run_id s1 = run" using post by (simp add: import_post_def zero_import_def)
  have "has_key jr_id run (job_runs d1)" using post by (simp add: import_post_def import_ok_def)
  then obtain r where "row_of jr_id run (job_runs d1) = Some r" by (auto simp: has_key_row_of)
  then have status: "map_option jr_status (row_of jr_id run (job_runs d2)) = Some (import_status False s1)"
    using row_of_SomeD [of jr_id run "job_runs d1" r] id
    by (simp add: d2_def db_after_def complete_import_run_def run_exec row_of_update)
  have d2: "in_master v d2 = in_master v d1" "job_failures d2 = job_failures d1" for v
    by (simp_all add: d2_def db_after_def complete_import_run_def run_exec in_master_def)
  have copies: "in_master (vi_video_id v) d2"
    if "v \<in> set (video_index d)" "vi_storj_key v \<noteq> None \<or> vi_hetzner_key v \<noteq> None" for v
  proof (cases "in_master (vi_video_id v) d")
    case True
    with post d2 d0 show ?thesis by (simp add: import_post_def)
  next
    case False
    with that(1) have "legacy_row_of v \<in> set (legacy_rows_after None d)"
      by (auto simp: legacy_rows_set beyond_def)
    moreover have "has_copy (legacy_row_of v)" using that(2) by (simp add: has_copy_def legacy_row_of_def)
    ultimately show ?thesis using post d2 lr_legacy [of v] unfolding import_post_def by (metis fst_conv)
  qed
  have fails: "has_key failure_key (IMPORT_JOB_KIND, vi_video_id v, ''storage_selection'') (job_failures d2)"
    if "v \<in> set (video_index d)" "vi_storj_key v = None \<and> vi_hetzner_key v = None \<and> \<not> in_master (vi_video_id v) d" for v
  proof -
    have "legacy_row_of v \<in> set (legacy_rows_after None d)"
      using that by (auto simp: legacy_rows_set beyond_def)
    moreover have "keyless (legacy_row_of v)" using that(2) by (simp add: keyless_def has_copy_def legacy_row_of_def)
    ultimately show ?thesis using post d2 lr_legacy [of v] unfolding import_post_def by (metis fst_conv)
  qed
  from post have "is_scanned_rows s1 = int (length (legacy_rows_after None d))"
      "is_row_failures s1 = count_where keyless (legacy_rows_after None d)"
    by (simp_all add: import_post_def zero_import_def)
  with result status copies fails show ?thesis by blast
qed

text \<open>C6. The import is complete: without faults, limit and cancellation, for any page size, a run
  with fuel for each legacy row returns; every legacy row that has a copy in Storj or Hetzner is
  then in the master table, every one without a copy that was not is recorded as a failure, the
  counters are the numbers of rows missing before and of those without a copy, and the run row
  carries the status they give.\<close>

theorem import_completes:
  assumes ok: "db_ok d" and run: "\<not> has_key jr_id run (job_runs d)" and n: "0 < batch"
    and fuel: "length (video_index d) < fuel"
  shows "\<exists>s d'. import_current_video_index sfw run batch None None fuel by' ([], d) = (Inr (Some s), [], d') \<and>
    is_scanned_rows s = int (length (legacy_rows_after None d)) \<and>
    is_row_failures s = count_where keyless (legacy_rows_after None d) \<and>
    (\<forall>v \<in> set (video_index d). vi_storj_key v \<noteq> None \<or> vi_hetzner_key v \<noteq> None \<longrightarrow> in_master (vi_video_id v) d') \<and>
    (\<forall>v \<in> set (video_index d). vi_storj_key v = None \<and> vi_hetzner_key v = None \<and> \<not> in_master (vi_video_id v) d \<longrightarrow>
       has_key failure_key (IMPORT_JOB_KIND, vi_video_id v, ''storage_selection'') (job_failures d')) \<and>
    map_option jr_status (row_of jr_id run (job_runs d')) = Some (import_status False s)"
  using assms by (rule import_run_completes)

definition legacy_demo :: "pgdb" where
  "legacy_demo = (empty_db 5)\<lparr>video_index := [
     \<lparr>vi_video_id = ''a'', vi_storj_key = Some ''a.mp4'', vi_hetzner_key = None, vi_phash = None,
      vi_phash_kind = None, vi_phash_version = None, vi_created_at = 1\<rparr>,
     \<lparr>vi_video_id = ''b'', vi_storj_key = None, vi_hetzner_key = None, vi_phash = None,
      vi_phash_kind = None, vi_phash_version = None, vi_created_at = 1\<rparr>]\<rparr>"

theorem import_completes_witness:
  "\<exists>s d'. import_current_video_index ''yral-sfw'' ''r'' 1 None None 3 ''ops'' ([], legacy_demo) =
      (Inr (Some s), [], d') \<and> in_master ''a'' d' \<and>
      has_key failure_key (IMPORT_JOB_KIND, ''b'', ''storage_selection'') (job_failures d')"
proof -
  have "db_ok legacy_demo" and "\<not> has_key jr_id ''r'' (job_runs legacy_demo)"
    and "length (video_index legacy_demo) < 3"
    by (simp_all add: legacy_demo_def empty_db_def db_ok_defs uniq_def has_key_code)
  from import_completes [OF this(1,2) _ this(3), of 1 "''yral-sfw''" "''ops''"] show ?thesis
    by (auto simp: legacy_demo_def empty_db_def in_master_def has_key_code)
qed

section \<open>Imported videos are announced\<close>

definition visible :: "pgdb \<Rightarrow> bool" where
  "visible d \<longleftrightarrow> (\<forall>r \<in> set (servable_videos d). sv_discovered_from r = IMPORT_JOB_KIND \<longrightarrow>
     (\<exists>e \<in> set (feed_rows d). fr_event_kind e = kind_as_str MediaVisibilityChanged \<and>
        fr_video_id e = sv_video_id r))"

lemma visible_append: "preserves visible (append_feed_event_txn i)"
  unfolding append_code insert_feed_row_def
  by (intro pres pres_exec pres_stmt) (auto simp: visible_def split: if_splits)

lemma visible_upsert_hash: "preserves visible (upsert_hash_record_txn i)"
  unfolding upsert_hash_record_txn_def
  by (auto simp: visible_def split: if_splits prod.splits option.splits
      intro!: pres_bnd pres_ret pres_stmt pres_exec)

lemma visible_import_hash: "preserves visible (import_hash_txn sfw row c)"
  unfolding import_hash_txn_def
  by (auto intro!: pres visible_upsert_hash visible_append split: option.split)

lemma visible_put_master:
  assumes "visible d" and "outcome_of servable_video_material_matches i
     (row_of sv_video_id (sv_video_id i) (servable_videos d)) \<noteq> Unchanged"
    and "fr_event_kind e = kind_as_str MediaVisibilityChanged" and "fr_video_id e = sv_video_id i"
    and "servable_videos d' = servable_videos (put_master i d)" and "feed_rows d' = feed_rows d @ [e]"
  shows "visible d'"
proof -
  have "r \<in> set (servable_videos d) \<or> sv_video_id r = sv_video_id i" if "r \<in> set (servable_videos d')" for r
    using that assms(5) by (auto simp: put_master_def update_where_def split: option.splits if_splits)
  with assms show ?thesis by (fastforce simp: visible_def)
qed

lemma visible_import_one: "keeps visible (import_one_row_txn sfw row run)"
proof (rule keepsI)
  fix p d x q d2
  assume v: "visible d" and run: "import_one_row_txn sfw row run (p, d) = (Inr x, q, d2)"
  show "visible d2"
  proof (cases "canonical_storage sfw row")
    case None
    have "preserves visible (record_import_failure_txn run v ph e)" for v ph e
      unfolding record_import_failure_txn_def
      by (rule pres_stmt) (auto simp: visible_def split: if_splits)
    then have "preserves visible (import_one_row_txn sfw row run)"
      by (auto simp: import_one_row_txn_def None intro!: pres)
    with v run show ?thesis by (blast dest: preserves_run)
  next
    case (Some st)
    let ?i = "legacy_video_input row st"
    from run Some obtain out p1 d1 c p3 d3 where
      m: "import_media_row_txn row st (p, d) = (Inr out, p1, d1)"
      and a: "(if media out = Inserted \<or> media out = Changed
          then bnd (append_feed_event_txn (visibility_event row st)) (\<lambda>_.
               ret (no_counts\<lparr>rc_imported_media_rows := 1\<rparr>))
          else ret no_counts) (p1, d1) = (Inr c, p3, d3)"
      and h: "import_hash_txn sfw row c (p3, d3) = (Inr x, q, d2)"
      by (auto simp: import_one_row_txn_def bnd_Inr_iff)
    have "honest (import_media_row_txn row st)"
      unfolding import_media_row_txn_def by (intro honest_intros)
    from honestD [OF this m] have out: "media out = outcome_of servable_video_material_matches ?i
        (row_of sv_video_id (sv_video_id ?i) (servable_videos (put_source ?i d)))"
      and d1: "servable_videos d1 = servable_videos (put_master ?i (put_source ?i d))" "feed_rows d1 = feed_rows d"
      by (auto simp: import_media_row_txn_def run_bnd upsert_servable_run run_exec)
    have vs: "visible (put_source ?i d)" using v by (simp add: visible_def)
    have "visible d3"
    proof (cases "media out = Unchanged")
      case True
      then have "servable_videos d1 = servable_videos d"
        using out d1 by (auto simp: outcome_of_def put_master_def split: option.splits if_splits)
      with a True v d1 show ?thesis by (simp add: visible_def)
    next
      case False
      then have "media out = Inserted \<or> media out = Changed" by (cases "media out") auto
      with a obtain k p4 where "append_feed_event_txn (visibility_event row st) (p1, d1) = (Inr k, p4, d3)"
        by (auto simp: bnd_Inr_iff)
      then have "append_feed_event_txn (visibility_event row st) ([], d1) = (Inr k, [], d3)"
        by (rule honestD [OF honest_append])
      from append_ok [OF this] have d3: "d3 = announce (visibility_event row st) d1" .
      show ?thesis
        using out False d1 d3
        by (intro visible_put_master [OF vs, of ?i "feed_row_of (feed_seq d1) (now_us d1) (visibility_event row st)"])
           (auto simp: announce_def feed_row_of_def visibility_event_def)
    qed
    with h visible_import_hash show ?thesis by (blast dest: preserves_run)
  qed
qed

lemma visible_tx: "keeps visible m \<Longrightarrow> preserves visible (tx_run end_tx rollback_tx m)"
  by (rule pres_tx_run_keeps) (simp_all add: visible_def end_tx_def rollback_tx_def)

lemma visible_record: "preserves visible (transaction (record_import_failure_txn run v ph e))"
proof -
  have "keeps visible (record_import_failure_txn run v ph e)"
    unfolding record_import_failure_txn_def
    by (rule pres_keeps, rule pres_stmt) (auto simp: visible_def split: if_splits)
  from visible_tx [OF this] show ?thesis
    unfolding tx_try_def by (auto intro!: pres split: sum.split)
qed

lemma visible_import_rows: "preserves visible (import_rows sfw run rows s k)"
  by (induction rows arbitrary: s k)
     (auto intro!: pres visible_tx visible_import_one visible_record split: sum.split)

lemma visible_import_page: "preserves visible (import_page sfw run rows s k)"
proof -
  have "keeps visible (for_each (\<lambda>row c. bnd (import_one_row_txn sfw row run) (\<lambda>rc. ret (add_counts c rc))) rows no_counts)"
    by (intro keeps_for_each keeps_bnd visible_import_one keeps_ret)
  from visible_tx [OF this] show ?thesis
    unfolding import_page_def import_batch_def
    by (auto intro!: pres visible_import_rows split: sum.split)
qed

lemma visible_job_runs: "visible (d\<lparr>job_runs := js\<rparr>) = visible d"
  by (simp add: visible_def)

lemma visible_import_loop: "preserves visible (import_loop sfw run batch lim cancel fuel a s k polls)"
proof (induction fuel arbitrary: a s k polls)
  case (Suc fuel)
  have "preserves visible (fetch_missing_legacy_rows_after a l)" for a l
    unfolding fetch_missing_legacy_rows_after_def by (rule pres_stmt) (auto split: if_splits)
  moreover have "preserves visible (update_job_run_totals run j)" for j
    unfolding update_job_run_totals_def by (rule pres_exec) (simp add: visible_job_runs)
  ultimately show ?case
    using Suc.IH by (auto simp: Let_def intro!: pres visible_import_page split: prod.splits)
qed (simp add: pres)

text \<open>No imported video without its announcement: if every master row that the import wrote has
  a \<open>media_visibility_changed\<close> event, this is so after any import, wherever it fails: in the batch,
  in the row-by-row fallback, at a commit, at the recording of a failure.\<close>

lemma imports_stay_announced:
  assumes "visible d"
  shows "visible (db_after (import_current_video_index sfw run batch lim cancel fuel by') (plan, d))"
proof -
  have "preserves visible (insert_import_run run by')"
    unfolding insert_import_run_def by (rule pres_stmt) (auto simp: visible_job_runs split: if_splits)
  moreover have "preserves visible (complete_import_run s st)" for s st
    unfolding complete_import_run_def by (rule pres_exec) (simp add: visible_job_runs)
  moreover have "preserves visible (mark_import_run_failed run e)" for e
    unfolding mark_import_run_failed_def by (rule pres_exec) (simp add: visible_job_runs)
  ultimately have "preserves visible (import_current_video_index sfw run batch lim cancel fuel by')"
    unfolding import_current_video_index_def import_inner_def Let_def
    by (auto intro!: pres visible_import_loop split: sum.splits option.splits prod.splits)
  then show ?thesis using assms by (rule preservesD)
qed

lemma imports_stay_announced_witness:
  "visible (db_after (import_current_video_index ''yral-sfw'' ''r'' 1 None None 3 ''ops'')
     ([None, None, None, Some (PgError ''connection lost'')], legacy_demo))"
  by (rule imports_stay_announced) (simp add: visible_def legacy_demo_def empty_db_def)

section \<open>The circuit breaker\<close>

lemma import_one_first_fault:
  "import_one_row_txn sfw row run (Some e # p, d) = (Inl e, p, d)"
  by (simp add: import_one_row_txn_def import_media_row_txn_def upsert_servable_video_txn_def bnd_def stmt_def
      record_import_failure_txn_def split: option.split)

lemma import_tx_first_fault:
  "tx_run end_tx rollback_tx (import_one_row_txn sfw row run) (None # Some e # p, d) =
     (Inr (Inl e), p, rollback_tx d d)"
  by (simp add: tx_run_def exec_def stmt_def import_one_first_fault)

lemma record_tx_run:
  assumes "has_key jr_id run (job_runs d)"
  shows "\<exists>d'. transaction (record_import_failure_txn run v ph e) (None # None # None # p, d) = (Inr (), p, d') \<and>
    job_runs d' = job_runs d \<and>
    (\<forall>k. has_key failure_key k (job_failures d') \<longleftrightarrow>
       k = (IMPORT_JOB_KIND, v, ph) \<or> has_key failure_key k (job_failures d))"
proof -
  let ?g = "\<lambda>f. f\<lparr>jf_job_run_id := Some run, jf_video_id := Some v, jf_source_ref := Some v,
     jf_last_error := e, jf_status := ''pending_retry'', jf_updated_at := now_us d\<rparr>"
  have "has_key failure_key k (upsert failure_key (import_failure run (now_us d) v ph e) ?g (job_failures d)) \<longleftrightarrow>
      k = failure_key (import_failure run (now_us d) v ph e) \<or> has_key failure_key k (job_failures d)" for k
    by (rule has_key_upsert) (simp add: failure_key_def)
  with assms show ?thesis
    by (simp add: tx_try_def tx_run_def bnd_def exec_def stmt_def record_import_failure_txn_def end_tx_def)
qed

lemma import_rows_faulty:
  assumes "has_key jr_id run (job_runs d)" and "length rows = m" and "0 < m" and "k + int m = 50" and "0 \<le> k"
  shows "\<exists>d'. import_rows sfw run (rows @ later) s k
      (concat (replicate m [None, Some e, None, None, None]) @ p, d) =
     (Inl (TooManyConsecutiveFailures 50 (error_text e)), p, d') \<and>
     (\<forall>key. has_key failure_key key (job_failures d') \<longleftrightarrow> has_key failure_key key (job_failures d) \<or>
        (\<exists>row \<in> set rows. key = (IMPORT_JOB_KIND, lr_video_id row, ''import_error'')))"
  using assms
proof (induction rows arbitrary: d s k m)
  case Nil
  then show ?case by simp
next
  case (Cons row rows)
  obtain m' where m: "m = Suc m'" "length rows = m'" using Cons.prems(2) by auto
  have hk: "has_key jr_id run (job_runs (rollback_tx d d))" using Cons.prems(1) by (simp add: rollback_tx_def)
  let ?rest = "concat (replicate m' [None, Some e, None, None, None]) @ p"
  obtain d1 where 1: "transaction (record_import_failure_txn run (lr_video_id row) ''import_error'' (error_text e))
      (None # None # None # ?rest, rollback_tx d d) = (Inr (), ?rest, d1)"
    "job_runs d1 = job_runs (rollback_tx d d)"
    "\<forall>key. has_key failure_key key (job_failures d1) \<longleftrightarrow> key = (IMPORT_JOB_KIND, lr_video_id row, ''import_error'') \<or>
       has_key failure_key key (job_failures (rollback_tx d d))"
    using record_tx_run [OF hk] by blast
  have f: "job_failures (rollback_tx d d) = job_failures d" by (simp add: rollback_tx_def)
  have step: "import_rows sfw run ((row # rows) @ later) s k
      (concat (replicate m [None, Some e, None, None, None]) @ p, d) =
    (if k + 1 \<ge> 50 then raise (TooManyConsecutiveFailures (k + 1) (error_text e))
     else import_rows sfw run (rows @ later) (s\<lparr>is_row_failures := is_row_failures s + 1\<rparr>) (k + 1)) (?rest, d1)"
    using 1(1) by (simp add: m bnd_def map_err_def import_tx_first_fault MAX_CONSECUTIVE_IMPORT_FAILURES_def)
  show ?case
  proof (cases "m' = 0")
    case True
    with m Cons.prems(4) have "k + 1 = 50" "rows = []" by simp_all
    with step 1(3) f True show ?thesis by auto
  next
    case False
    have "has_key jr_id run (job_runs d1)" using 1(2) hk by simp
    from Cons.IH [OF this m(2), of "k + 1"] False Cons.prems(4,5) m(1) obtain d' where
      "import_rows sfw run (rows @ later) (s\<lparr>is_row_failures := is_row_failures s + 1\<rparr>) (k + 1) (?rest, d1) =
         (Inl (TooManyConsecutiveFailures 50 (error_text e)), p, d')"
      "\<forall>key. has_key failure_key key (job_failures d') \<longleftrightarrow> has_key failure_key key (job_failures d1) \<or>
        (\<exists>row \<in> set rows. key = (IMPORT_JOB_KIND, lr_video_id row, ''import_error''))"
      by fastforce
    with step False Cons.prems(4) m(1) 1(3) f show ?thesis by auto
  qed
qed

text \<open>The circuit breaker: when every row's transaction fails (its first statement is refused, for
  whatever reason), the fallback stops the job after exactly 50 rows; these 50 rows, and no others,
  are recorded as \<open>import_error\<close> failures, and no row after them is touched.\<close>

lemma circuit_breaker_opens:
  assumes "has_key jr_id run (job_runs d)" and "length rows = 50"
  shows "\<exists>d'. import_rows sfw run (rows @ later) s 0 (concat (replicate 50 [None, Some e, None, None, None]), d) =
     (Inl (TooManyConsecutiveFailures 50 (error_text e)), [], d') \<and>
     (\<forall>key. has_key failure_key key (job_failures d') \<longleftrightarrow> has_key failure_key key (job_failures d) \<or>
        (\<exists>row \<in> set rows. key = (IMPORT_JOB_KIND, lr_video_id row, ''import_error'')))"
  using import_rows_faulty [OF assms, of 0 sfw later s e "[]"] by (simp only: append_Nil2)

definition keyless_row :: legacy_row where
  "keyless_row = \<lparr>lr_video_id = ''b'', lr_storj_key = None, lr_hetzner_key = None, lr_phash = None,
     lr_phash_kind = None, lr_phash_version = None\<rparr>"

end
