(* ===== verification/Sweep_Lease.thy ===== *)
theory Sweep_Lease
  imports Media_Schema
begin

text \<open>
  The election lease of the sweep worker (\<open>media_index/repo.rs\<close>, \<open>acquire_or_renew_lease\<close> to
  \<open>set_last_discovery_at\<close>): the single row \<open>id = 1\<close> of table \<open>sweep_lease\<close>. A time to live is in
  microseconds. The step relation \<open>lease_step\<close> runs any number of boxes against one database
  under an advancing clock; its invariant is the mutual exclusion the worker relies on.
\<close>

section \<open>The operations\<close>

definition acquire_or_renew_lease :: "string \<Rightarrow> int \<Rightarrow> bool pg" where
  "acquire_or_renew_lease owner ttl = stmt (\<lambda>d.
     case sweep_lease d of
       None \<Rightarrow> Inr (True, d\<lparr>sweep_lease := Some \<lparr>ls_owner = owner, ls_heartbeat = now_us d,
                                               ls_last_discovery_at = None\<rparr>\<rparr>)
     | Some l \<Rightarrow>
         if ls_owner l = owner \<or> ls_heartbeat l < now_us d - ttl
         then Inr (True, d\<lparr>sweep_lease := Some (l\<lparr>ls_owner := owner, ls_heartbeat := now_us d\<rparr>)\<rparr>)
         else Inr (False, d))"

definition release_lease :: "string \<Rightarrow> unit pg" where
  "release_lease owner = exec (\<lambda>d.
     case sweep_lease d of
       None \<Rightarrow> d
     | Some l \<Rightarrow> if ls_owner l = owner then d\<lparr>sweep_lease := None\<rparr> else d)"

definition read_lease :: "lease_row option pg" where
  "read_lease = query sweep_lease"

definition get_last_discovery_at :: "int option pg" where
  "get_last_discovery_at = query (\<lambda>d. Option.bind (sweep_lease d) ls_last_discovery_at)"

definition set_last_discovery_at :: "string \<Rightarrow> int \<Rightarrow> unit pg" where
  "set_last_discovery_at owner ts = exec (\<lambda>d.
     case sweep_lease d of
       None \<Rightarrow> d
     | Some l \<Rightarrow> if ls_owner l = owner
                 then d\<lparr>sweep_lease := Some (l\<lparr>ls_last_discovery_at := Some ts\<rparr>)\<rparr> else d)"

lemma db_ok_lease [simp]: "db_ok (d\<lparr>sweep_lease := l\<rparr>) = db_ok d"
  by (simp add: db_ok_defs)

lemma safe_acquire [safe_intros]: "safe (acquire_or_renew_lease b ttl)"
  unfolding acquire_or_renew_lease_def
  by (rule safe_stmt) (auto split: option.splits if_splits)

lemma safe_release [safe_intros]: "safe (release_lease b)"
  unfolding release_lease_def by (rule safe_exec) (auto split: option.splits)

lemma safe_read_lease [safe_intros]: "safe read_lease"
  unfolding read_lease_def by (rule safe_query)

lemma safe_get_last_discovery [safe_intros]: "safe get_last_discovery_at"
  unfolding get_last_discovery_at_def by (rule safe_query)

lemma safe_set_last_discovery [safe_intros]: "safe (set_last_discovery_at b t)"
  unfolding set_last_discovery_at_def by (rule safe_exec) (auto split: option.splits)

section \<open>One box and the row\<close>

definition owned_by :: "string \<Rightarrow> pgdb \<Rightarrow> bool" where
  "owned_by b d \<longleftrightarrow> (case sweep_lease d of None \<Rightarrow> False | Some l \<Rightarrow> ls_owner l = b)"

definition can_acquire :: "string \<Rightarrow> int \<Rightarrow> pgdb \<Rightarrow> bool" where
  "can_acquire b ttl d \<longleftrightarrow> (case sweep_lease d of
      None \<Rightarrow> True | Some l \<Rightarrow> ls_owner l = b \<or> now_us d - ls_heartbeat l > ttl)"

definition cadence :: "pgdb \<Rightarrow> int option" where
  "cadence d = Option.bind (sweep_lease d) ls_last_discovery_at"

text \<open>What \<open>acquire_or_renew_lease\<close> promises: it reports whether the lease was free, own or
  older than the time to live; on success the box owns the row with a heartbeat of now and the
  persisted discovery time is kept, a steal included; on refusal nothing changes.\<close>

lemma acquire_lease_exact:
  "acquire_or_renew_lease b ttl ([], d) = (Inr (can_acquire b ttl d), [],
     if can_acquire b ttl d
     then d\<lparr>sweep_lease := Some \<lparr>ls_owner = b, ls_heartbeat = now_us d,
                                    ls_last_discovery_at = cadence d\<rparr>\<rparr>
     else d)"
  by (cases "sweep_lease d")
     (auto simp: acquire_or_renew_lease_def run_stmt can_acquire_def cadence_def)

text \<open>The guards of the two other writes: releasing and moving the cadence touch the row of
  the caller only; a box that has lost the lease changes nothing.\<close>

lemma foreign_writes_are_void:
  assumes "\<not> owned_by b d"
  shows "release_lease b ([], d) = (Inr (), [], d) \<and>
         set_last_discovery_at b ts ([], d) = (Inr (), [], d)"
  using assms
  by (auto simp: owned_by_def release_lease_def set_last_discovery_at_def run_exec
      split: option.splits)

section \<open>Many boxes\<close>

text \<open>The database, and for each box the time of its last successful acquire or renewal, kept
  until it releases. A renewal that fails or is refused leaves the box's view as it was: the
  keep-alive task ignores the result.\<close>

record lease_net =
  ln_db :: pgdb
  ln_view :: "string \<Rightarrow> int option"

definition lease_start :: "pgdb \<Rightarrow> lease_net" where
  "lease_start d = \<lparr>ln_db = d, ln_view = (\<lambda>_. None)\<rparr>"

inductive lease_step :: "int \<Rightarrow> lease_net \<Rightarrow> lease_net \<Rightarrow> bool" for ttl :: int where
  clock: "0 \<le> x \<Longrightarrow> lease_step ttl s (s\<lparr>ln_db := (ln_db s)\<lparr>now_us := now_us (ln_db s) + x\<rparr>\<rparr>)"
| won: "acquire_or_renew_lease b ttl (p, ln_db s) = (Inr True, q, d) \<Longrightarrow>
    lease_step ttl s \<lparr>ln_db = d, ln_view = (ln_view s)(b := Some (now_us (ln_db s)))\<rparr>"
| lost: "acquire_or_renew_lease b ttl (p, ln_db s) = (r, q, d) \<Longrightarrow> r \<noteq> Inr True \<Longrightarrow>
    lease_step ttl s (s\<lparr>ln_db := d\<rparr>)"
| released: "release_lease b (p, ln_db s) = (r, q, d) \<Longrightarrow>
    lease_step ttl s \<lparr>ln_db = d, ln_view = (ln_view s)(b := None)\<rparr>"
| discovered: "set_last_discovery_at b ts (p, ln_db s) = (r, q, d) \<Longrightarrow>
    lease_step ttl s (s\<lparr>ln_db := d\<rparr>)"

text \<open>A box is current when its last renewal is at most the time to live old.\<close>

definition current :: "int \<Rightarrow> lease_net \<Rightarrow> string \<Rightarrow> bool" where
  "current ttl s b \<longleftrightarrow> (case ln_view s b of None \<Rightarrow> False
     | Some t \<Rightarrow> now_us (ln_db s) - t \<le> ttl)"

definition lease_inv :: "int \<Rightarrow> lease_net \<Rightarrow> bool" where
  "lease_inv ttl s \<longleftrightarrow> (\<forall>b t. ln_view s b = Some t \<longrightarrow> now_us (ln_db s) - t \<le> ttl \<longrightarrow>
     (\<exists>l. sweep_lease (ln_db s) = Some l \<and> ls_owner l = b \<and> ls_heartbeat l = t))"

lemma acquire_result:
  "acquire_or_renew_lease b ttl (p, d) = (r, q, d') \<Longrightarrow>
     (r = Inr True \<and> can_acquire b ttl d \<and> d' = d\<lparr>sweep_lease := Some \<lparr>ls_owner = b,
        ls_heartbeat = now_us d, ls_last_discovery_at = cadence d\<rparr>\<rparr>) \<or>
     (r \<noteq> Inr True \<and> d' = d)"
  by (auto simp: acquire_or_renew_lease_def stmt_def can_acquire_def cadence_def
      split: option.splits if_splits list.splits)

lemma release_result:
  "release_lease b (p, d) = (r, q, d') \<Longrightarrow>
     d' = d \<or> (owned_by b d \<and> d' = d\<lparr>sweep_lease := None\<rparr>)"
  by (auto simp: release_lease_def exec_def stmt_def owned_by_def
      split: option.splits if_splits list.splits)

lemma discovery_result:
  "set_last_discovery_at b ts (p, d) = (r, q, d') \<Longrightarrow>
     d' = d \<or> (\<exists>l. sweep_lease d = Some l \<and> ls_owner l = b \<and>
        d' = d\<lparr>sweep_lease := Some (l\<lparr>ls_last_discovery_at := Some ts\<rparr>)\<rparr>)"
  by (auto simp: set_last_discovery_at_def exec_def stmt_def
      split: option.splits if_splits list.splits)

lemma lease_inv_step:
  assumes "lease_inv ttl s" and "lease_step ttl s t"
  shows "lease_inv ttl t"
  using assms(2)
proof (cases rule: lease_step.cases)
  case (clock x)
  with assms(1) show ?thesis by (fastforce simp: lease_inv_def)
next
  case (won b p q d)
  from acquire_result [OF won(2)] have can: "can_acquire b ttl (ln_db s)"
    and d: "d = (ln_db s)\<lparr>sweep_lease := Some \<lparr>ls_owner = b, ls_heartbeat = now_us (ln_db s),
        ls_last_discovery_at = cadence (ln_db s)\<rparr>\<rparr>"
    by auto
  have "c = b" if "ln_view s c = Some u" "now_us (ln_db s) - u \<le> ttl" for c u
    using that assms(1) can by (fastforce simp: lease_inv_def can_acquire_def)
  with won(1) d show ?thesis by (auto simp: lease_inv_def)
next
  case (lost b p r q d)
  from acquire_result [OF lost(2)] lost(3) have "d = ln_db s" by auto
  with lost(1) assms(1) show ?thesis by simp
next
  case (released b p r q d)
  from release_result [OF released(2)] released(1) assms(1) show ?thesis
    by (fastforce simp: lease_inv_def owned_by_def)
next
  case (discovered b ts p r q d)
  from discovery_result [OF discovered(2)] discovered(1) assms(1) show ?thesis
    by (fastforce simp: lease_inv_def)
qed

lemma lease_inv_reach: "(lease_step ttl)\<^sup>*\<^sup>* (lease_start d) s \<Longrightarrow> lease_inv ttl s"
proof (induction rule: rtranclp_induct)
  case base
  then show ?case by (simp add: lease_inv_def lease_start_def)
next
  case (step s t)
  then show ?case by (blast intro: lease_inv_step)
qed

lemma current_owner:
  "(lease_step ttl)\<^sup>*\<^sup>* (lease_start d) s \<Longrightarrow> current ttl s b \<Longrightarrow> owned_by b (ln_db s)"
  by (drule lease_inv_reach)
     (auto simp: current_def lease_inv_def owned_by_def split: option.splits)

text \<open>C4. Mutual exclusion: whatever the boxes do, in every reachable state at most one box has
  renewed within the time to live, and the row says so; failed statements, refused renewals and
  steals included.\<close>

theorem lease_mutual_exclusion:
  assumes "(lease_step ttl)\<^sup>*\<^sup>* (lease_start d) s" and "current ttl s b" and "current ttl s c"
  shows "b = c \<and> owned_by b (ln_db s)"
  using current_owner [OF assms(1,2)] current_owner [OF assms(1,3)]
  by (auto simp: owned_by_def split: option.splits)

definition two_steals :: "pgdb" where
  "two_steals = db_after (acquire_or_renew_lease ''box-b'' 60)
     ([], (db_after (acquire_or_renew_lease ''box-a'' 60) ([], empty_db 0))\<lparr>now_us := 61\<rparr>)"

lemma reach_trans3:
  "r a b \<Longrightarrow> r b c \<Longrightarrow> r c e \<Longrightarrow> r\<^sup>*\<^sup>* a e"
  by (meson r_into_rtranclp rtranclp.rtrancl_into_rtrancl)

theorem lease_mutual_exclusion_witness:
  "\<not> current 60 \<lparr>ln_db = two_steals, ln_view = (\<lambda>_. None)(''box-a'' := Some 0, ''box-b'' := Some 61)\<rparr> ''box-a'' \<and>
   owned_by ''box-b'' two_steals"
proof -
  let ?d0 = "empty_db 0"
  let ?d1 = "db_after (acquire_or_renew_lease ''box-a'' 60) ([], ?d0)"
  let ?v1 = "(\<lambda>_. None)(''box-a'' := Some 0)"
  let ?s = "\<lparr>ln_db = two_steals, ln_view = ?v1(''box-b'' := Some 61)\<rparr>"
  have a: "lease_step 60 (lease_start ?d0) \<lparr>ln_db = ?d1, ln_view = ?v1\<rparr>"
    using lease_step.won [of "''box-a''" 60 "[]" "lease_start ?d0" "[]" ?d1]
    by (simp add: lease_start_def acquire_or_renew_lease_def run_stmt empty_db_def db_after_def)
  have b: "lease_step 60 \<lparr>ln_db = ?d1, ln_view = ?v1\<rparr> \<lparr>ln_db = ?d1\<lparr>now_us := 61\<rparr>, ln_view = ?v1\<rparr>"
    using lease_step.clock [of 61 60 "\<lparr>ln_db = ?d1, ln_view = ?v1\<rparr>"]
    by (simp add: acquire_or_renew_lease_def run_stmt empty_db_def db_after_def)
  have c: "lease_step 60 \<lparr>ln_db = ?d1\<lparr>now_us := 61\<rparr>, ln_view = ?v1\<rparr> ?s"
    using lease_step.won [of "''box-b''" 60 "[]" "\<lparr>ln_db = ?d1\<lparr>now_us := 61\<rparr>, ln_view = ?v1\<rparr>" "[]" two_steals]
    by (simp add: acquire_or_renew_lease_def run_stmt empty_db_def db_after_def two_steals_def)
  have cur: "current 60 ?s ''box-b''"
    by (simp add: current_def two_steals_def acquire_or_renew_lease_def run_stmt empty_db_def db_after_def)
  have na: "\<not> current 60 ?s ''box-a''"
    by (simp add: current_def two_steals_def acquire_or_renew_lease_def run_stmt empty_db_def db_after_def)
  from lease_mutual_exclusion [OF reach_trans3 [of "lease_step 60", OF a b c] cur cur] na
  show ?thesis by simp
qed

text \<open>A dead holder is replaced: once its heartbeat is older than the time to live, the next
  box that asks gets the lease, and the holder is then refused until that heartbeat is stale.\<close>

lemma stale_lease_changes_hands:
  assumes "sweep_lease d = Some l" and "ls_heartbeat l < now_us d - ttl" and "b \<noteq> c" and "0 \<le> ttl"
  shows "result_of (acquire_or_renew_lease b ttl) ([], d) = Inr True \<and>
    result_of (acquire_or_renew_lease c ttl) ([], db_after (acquire_or_renew_lease b ttl) ([], d)) = Inr False"
  using assms
  by (simp add: result_of_def db_after_def acquire_or_renew_lease_def run_stmt)

end
