(* ===== verification/Chain_Repo.thy ===== *)
theory Chain_Repo
  imports PHash_Job
begin

text \<open>
  The staging of chain posts and the coverage audit (\<open>media_index/chain_repo.rs\<close>). Videos are joined
  on a canonical key: the part after the last slash, without dashes, in lower case (ASCII letters
  here; PostgreSQL's \<open>lower\<close> follows the locale beyond them). A selection with \<open>LIMIT\<close> and no
  \<open>ORDER BY\<close> takes the first rows in table order, one of the choices PostgreSQL has.
\<close>

record chain_post =
  cp_post_id :: string
  cp_video_uid :: string
  cp_creator_principal :: string
  cp_created_at :: int
  cp_status :: string

section \<open>Staging\<close>

definition staged_post :: "string \<Rightarrow> int \<Rightarrow> chain_post \<Rightarrow> yral_post" where
  "staged_post run t p = \<lparr>yp_post_id = cp_post_id p, yp_video_uid = cp_video_uid p,
     yp_creator_principal = cp_creator_principal p, yp_created_at = cp_created_at p,
     yp_status = cp_status p, yp_snapshot_run_id = Some run, yp_fetched_at = t, yp_stale = False\<rparr>"

definition upsert_chain_post :: "chain_post \<Rightarrow> string \<Rightarrow> unit pg" where
  "upsert_chain_post p run = exec (\<lambda>d. d\<lparr>yral_posts :=
     upsert yp_post_id (staged_post run (now_us d) p)
       (\<lambda>r. r\<lparr>yp_video_uid := cp_video_uid p, yp_creator_principal := cp_creator_principal p,
              yp_created_at := cp_created_at p, yp_status := cp_status p,
              yp_snapshot_run_id := Some run, yp_fetched_at := now_us d, yp_stale := False\<rparr>)
       (yral_posts d)\<rparr>)"

definition mark_stale_posts :: "string \<Rightarrow> int pg" where
  "mark_stale_posts run = stmt (\<lambda>d.
     let hit = (\<lambda>p. \<not> yp_stale p \<and> yp_snapshot_run_id p \<noteq> Some run)
     in Inr (count_where hit (yral_posts d),
             d\<lparr>yral_posts := update_where hit (\<lambda>p. p\<lparr>yp_stale := True\<rparr>) (yral_posts d)\<rparr>))"

definition live_posts :: "pgdb \<Rightarrow> yral_post list" where
  "live_posts d = filter (\<lambda>p. \<not> yp_stale p) (yral_posts d)"

definition posts_by :: "string \<Rightarrow> pgdb \<Rightarrow> yral_post list" where
  "posts_by c d = filter (\<lambda>p. yp_creator_principal p = c) (live_posts d)"

definition rollup :: "string \<Rightarrow> pgdb \<Rightarrow> yral_user" where
  "rollup c d = \<lparr>yu_creator_principal = c, yu_post_count = int (length (posts_by c d)),
     yu_first_seen = Some (Min (yp_created_at ` set (posts_by c d))),
     yu_last_seen = Some (Max (yp_created_at ` set (posts_by c d)))\<rparr>"

definition rebuild_yral_users :: "unit pg" where
  "rebuild_yral_users =
     bnd (exec (\<lambda>d. d\<lparr>yral_users := delete_where
            (\<lambda>u. yu_creator_principal u \<notin> set (map yp_creator_principal (live_posts d))) (yral_users d)\<rparr>)) (\<lambda>_.
     exec (\<lambda>d. d\<lparr>yral_users := fold (\<lambda>c us. upsert yu_creator_principal (rollup c d)
            (\<lambda>u. u\<lparr>yu_post_count := yu_post_count (rollup c d), yu_first_seen := yu_first_seen (rollup c d),
                   yu_last_seen := yu_last_seen (rollup c d)\<rparr>) us)
          (remdups (map yp_creator_principal (live_posts d))) (yral_users d)\<rparr>))"

section \<open>The audit\<close>

definition uid_key :: "string \<Rightarrow> string" where
  "uid_key u = to_lower (filter (\<lambda>c. c \<noteq> CHR ''-'') u)"

definition after_last_slash :: "string \<Rightarrow> string" where
  "after_last_slash v = rev (takeWhile (\<lambda>c. c \<noteq> CHR ''/'') (rev v))"

definition video_key :: "string \<Rightarrow> string" where
  "video_key v = uid_key (after_last_slash v)"

definition expected_status :: "string \<Rightarrow> bool" where
  "expected_status s \<longleftrightarrow> s \<in> {''Uploaded'', ''ReadyToView'', ''Transcoding'', ''CheckingExplicitness''}"

definition live_uids :: "pgdb \<Rightarrow> string list" where
  "live_uids d = remdups (map yp_video_uid (live_posts d))"

definition is_expected :: "pgdb \<Rightarrow> string \<Rightarrow> bool" where
  "is_expected d u \<longleftrightarrow> list_ex (\<lambda>p. yp_video_uid p = u \<and> expected_status (yp_status p)) (live_posts d)"

definition expected_uids :: "pgdb \<Rightarrow> string list" where
  "expected_uids d = filter (is_expected d) (live_uids d)"

definition master_status :: "pgdb \<Rightarrow> string \<Rightarrow> string option" where
  "master_status d k = map_option sv_servable_status
     (List.find (\<lambda>m. video_key (sv_video_id m) = k) (servable_videos d))"

definition key_hashed :: "pgdb \<Rightarrow> string \<Rightarrow> bool" where
  "key_hashed d k \<longleftrightarrow> list_ex (\<lambda>h. video_key (hr_video_id h) = k \<and> hr_hash_kind h = HASH_KIND \<and>
     hr_hash_version h = HASH_VERSION \<and> hr_input_media_version h = INPUT_MEDIA_VERSION) (video_hashes d)"

definition key_in_master :: "pgdb \<Rightarrow> string \<Rightarrow> bool" where
  "key_in_master d k \<longleftrightarrow> list_ex (\<lambda>m. video_key (sv_video_id m) = k) (servable_videos d)"

definition key_in_index :: "pgdb \<Rightarrow> string \<Rightarrow> bool" where
  "key_in_index d k \<longleftrightarrow> list_ex (\<lambda>v. video_key (vi_video_id v) = k) (video_index d)"

definition key_backing_off :: "pgdb \<Rightarrow> string \<Rightarrow> bool" where
  "key_backing_off d k \<longleftrightarrow> list_ex (\<lambda>f. (case jf_video_id f of None \<Rightarrow> False | Some v \<Rightarrow> video_key v = k) \<and>
     jf_job_kind f = JOB_KIND \<and> backing_off (now_us d) f) (job_failures d)"

datatype category = CatA | CatB | CatC | CatD | CatE

definition is_category :: "pgdb \<Rightarrow> category \<Rightarrow> string \<Rightarrow> bool" where
  "is_category d cat u = (let k = uid_key u; ms = master_status d k in
     case cat of
       CatA \<Rightarrow> ms = Some ''servable'' \<and> key_hashed d k
     | CatB \<Rightarrow> ms = Some ''servable'' \<and> \<not> key_hashed d k
     | CatC \<Rightarrow> ms = None \<and> key_in_index d k
     | CatD \<Rightarrow> ms = None \<and> \<not> key_in_index d k
     | CatE \<Rightarrow> ms \<noteq> None \<and> ms \<noteq> Some ''servable'')"

record chain_audit_report =
  total_expected :: int
  category_a :: int
  category_b :: int
  category_c :: int
  category_d :: int
  category_e :: int
  excluded_by_status :: int
  b_backing_off :: int

definition chain_audit :: "chain_audit_report pg" where
  "chain_audit = query (\<lambda>d.
     let cat = expected_uids d in
     \<lparr>total_expected = int (length cat),
      category_a = count_where (is_category d CatA) cat,
      category_b = count_where (is_category d CatB) cat,
      category_c = count_where (is_category d CatC) cat,
      category_d = count_where (is_category d CatD) cat,
      category_e = count_where (is_category d CatE) cat,
      excluded_by_status = count_where (\<lambda>u. \<not> is_expected d u) (live_uids d),
      b_backing_off = count_where (\<lambda>u. is_category d CatB u \<and> key_backing_off d (uid_key u)) cat\<rparr>)"

text \<open>The match rate as the pair of counts it divides; the \<open>f64\<close> quotient is left to the caller.\<close>

definition join_key_match_counts :: "int \<Rightarrow> (int \<times> int) pg" where
  "join_key_match_counts sample = stmt (\<lambda>d.
     if sample < 0 then Inl (PgError ''LIMIT must not be negative'')
     else let s = limit_rows sample (remdups (map yp_video_uid
                (filter (\<lambda>p. expected_status (yp_status p)) (live_posts d))))
          in Inr ((count_where (\<lambda>u. key_in_master d (uid_key u) \<or> key_in_index d (uid_key u)) s,
                   int (length s)), d))"

definition category_d_sample :: "int \<Rightarrow> (string \<times> string) list pg" where
  "category_d_sample lim = stmt (\<lambda>d.
     if lim < 0 then Inl (PgError ''LIMIT must not be negative'')
     else Inr (limit_rows lim (map (\<lambda>u. (u, Min (set (map yp_creator_principal
                 (filter (\<lambda>p. yp_video_uid p = u) (live_posts d))))))
            (sort (filter (\<lambda>u. \<not> key_in_master d (uid_key u) \<and> \<not> key_in_index d (uid_key u))
               (expected_uids d)))), d))"

definition key_servable :: "pgdb \<Rightarrow> string \<Rightarrow> bool" where
  "key_servable d k \<longleftrightarrow> list_ex (\<lambda>m. video_key (sv_video_id m) = k \<and> sv_servable_status m = ''servable'')
     (servable_videos d)"

definition non_clean :: "pgdb \<Rightarrow> string \<Rightarrow> bool" where
  "non_clean d u \<longleftrightarrow> is_expected d u \<and> \<not> (key_servable d (uid_key u) \<and> key_hashed d (uid_key u))"

definition creator_counts :: "pgdb \<Rightarrow> (string \<times> int) list" where
  "creator_counts d =
     (let ps = filter (\<lambda>p. expected_status (yp_status p) \<and> non_clean d (yp_video_uid p)) (live_posts d)
      in map (\<lambda>c. (c, int (length (remdups (map yp_video_uid
               (filter (\<lambda>p. yp_creator_principal p = c) ps))))))
           (remdups (map yp_creator_principal ps)))"

definition worst_creators :: "int \<Rightarrow> (string \<times> int) list pg" where
  "worst_creators lim = stmt (\<lambda>d.
     if lim < 0 then Inl (PgError ''LIMIT must not be negative'')
     else Inr (limit_rows lim (sort_key (\<lambda>cn. - snd cn) (creator_counts d)), d))"

definition clear_phash_failures :: "string list \<Rightarrow> int pg" where
  "clear_phash_failures ids =
     (if ids = [] then ret 0
      else stmt (\<lambda>d. let hit = (\<lambda>f. jf_job_kind f = JOB_KIND \<and>
                         (case jf_video_id f of None \<Rightarrow> False | Some v \<Rightarrow> v \<in> set ids))
                     in Inr (count_where hit (job_failures d),
                             d\<lparr>job_failures := delete_where hit (job_failures d)\<rparr>)))"

definition category_b_video_ids :: "int \<Rightarrow> string list pg" where
  "category_b_video_ids lim = stmt (\<lambda>d.
     if lim < 0 then Inl (PgError ''LIMIT must not be negative'')
     else Inr (limit_rows lim (remdups (concat (map (\<lambda>u.
            if key_hashed d (uid_key u) then []
            else map sv_video_id (filter (\<lambda>m. video_key (sv_video_id m) = uid_key u \<and>
                   sv_servable_status m = ''servable'') (servable_videos d))) (expected_uids d)))), d))"

record snapshot_freshness =
  sf_run_id :: "string option"
  sf_status :: "string option"
  sf_newest_fetched_at :: "int option"

definition snapshot_freshness_of :: "snapshot_freshness pg" where
  "snapshot_freshness_of =
     bnd (query (\<lambda>d. case sort_key (\<lambda>r. - jr_started_at r)
            (filter (\<lambda>r. jr_job_kind r = ''chain_snapshot'') (job_runs d)) of [] \<Rightarrow> None | r # _ \<Rightarrow> Some r)) (\<lambda>run.
     bnd (query (\<lambda>d. if live_posts d = [] then None
                      else Some (Max (set (map yp_fetched_at (live_posts d)))))) (\<lambda>newest.
     ret \<lparr>sf_run_id = map_option jr_id run, sf_status = map_option jr_status run,
          sf_newest_fetched_at = newest\<rparr>))"

record diag_example =
  de_video_uid :: string
  de_status :: string
  de_in_master :: bool
  de_in_index :: bool

record join_key_diag =
  jd_total_nonstale :: int
  jd_sampled :: int
  jd_in_master :: int
  jd_in_index :: int
  jd_examples :: "diag_example list"

fun diag_rows :: "diag_example list \<Rightarrow> int \<Rightarrow> int \<Rightarrow> diag_example list \<Rightarrow> int \<times> int \<times> diag_example list" where
  "diag_rows [] m i ex = (m, i, ex)"
| "diag_rows (r # rs) m i ex = diag_rows rs (if de_in_master r then m + 1 else m)
     (if de_in_index r then i + 1 else i) (if length ex < 10 then ex @ [r] else ex)"

definition join_key_diag_of :: "int \<Rightarrow> join_key_diag pg" where
  "join_key_diag_of sample =
     bnd (query (\<lambda>d. int (length (live_posts d)))) (\<lambda>tot.
     bnd (stmt (\<lambda>d. if sample < 0 then Inl (PgError ''LIMIT must not be negative'')
        else Inr (map (\<lambda>p. \<lparr>de_video_uid = yp_video_uid p, de_status = yp_status p,
                 de_in_master = key_in_master d (uid_key (yp_video_uid p)),
                 de_in_index = key_in_index d (uid_key (yp_video_uid p))\<rparr>)
               (limit_rows sample (live_posts d)), d))) (\<lambda>rows.
     case diag_rows rows 0 0 [] of (m, i, ex) \<Rightarrow>
       ret \<lparr>jd_total_nonstale = tot, jd_sampled = int (length rows), jd_in_master = m, jd_in_index = i,
            jd_examples = ex\<rparr>))"

section \<open>Integrity\<close>

lemma db_ok_posts:
  "db_ok d \<Longrightarrow> uniq yp_post_id ps \<Longrightarrow> db_ok (d\<lparr>yral_posts := ps\<rparr>)"
  by (simp add: db_ok_defs)

lemma uniq_users_fold:
  "uniq yu_creator_principal us \<Longrightarrow>
   uniq yu_creator_principal (fold (\<lambda>c us. upsert yu_creator_principal (rollup c d)
      (\<lambda>u. u\<lparr>yu_post_count := yu_post_count (rollup c d), yu_first_seen := yu_first_seen (rollup c d),
             yu_last_seen := yu_last_seen (rollup c d)\<rparr>) us) cs us)"
proof (induction cs arbitrary: us)
  case (Cons a cs)
  have "uniq yu_creator_principal (upsert yu_creator_principal (rollup a d)
      (\<lambda>u. u\<lparr>yu_post_count := yu_post_count (rollup a d), yu_first_seen := yu_first_seen (rollup a d),
             yu_last_seen := yu_last_seen (rollup a d)\<rparr>) us)"
    using Cons.prems by (intro uniq_upsert) simp_all
  from Cons.IH [OF this] show ?case by simp
qed simp

lemma safe_upsert_chain_post [safe_intros]: "safe (upsert_chain_post p run)"
  unfolding upsert_chain_post_def
  by (rule safe_exec) (auto intro!: db_ok_posts uniq_upsert simp: staged_post_def db_ok_defs)

lemma safe_mark_stale [safe_intros]: "safe (mark_stale_posts run)"
  unfolding mark_stale_posts_def
  by (rule safe_stmt) (auto intro!: db_ok_posts uniq_update_where simp: Let_def db_ok_defs)

lemma safe_rebuild [safe_intros]: "safe rebuild_yral_users"
  unfolding rebuild_yral_users_def
  by (intro safe_intros safe_exec) (auto simp: db_ok_defs intro!: uniq_delete_where uniq_users_fold)

lemma safe_clear_phash_failures [safe_intros]: "safe (clear_phash_failures ids)"
  unfolding clear_phash_failures_def
  by (intro safe_intros safe_stmt) (auto simp: db_ok_defs Let_def uniq_delete_where)

section \<open>Correctness\<close>

lemma live_users_frame [simp]: "live_posts (d\<lparr>yral_users := us\<rparr>) = live_posts d"
  "rollup c (d\<lparr>yral_users := us\<rparr>) = rollup c d"
  by (simp_all add: live_posts_def rollup_def posts_by_def)

lemma fold_upsert_rollup:
  "distinct cs \<Longrightarrow> uniq yu_creator_principal us \<Longrightarrow>
   row_of yu_creator_principal c (fold (\<lambda>c us. upsert yu_creator_principal (rollup c d)
      (\<lambda>u. u\<lparr>yu_post_count := yu_post_count (rollup c d), yu_first_seen := yu_first_seen (rollup c d),
             yu_last_seen := yu_last_seen (rollup c d)\<rparr>) us) cs us) =
   (if c \<in> set cs then Some (rollup c d) else row_of yu_creator_principal c us)"
proof (induction cs arbitrary: us)
  case Nil
  then show ?case by simp
next
  case (Cons x xs)
  let ?f = "\<lambda>u. u\<lparr>yu_post_count := yu_post_count (rollup x d), yu_first_seen := yu_first_seen (rollup x d),
     yu_last_seen := yu_last_seen (rollup x d)\<rparr>"
  let ?us = "upsert yu_creator_principal (rollup x d) ?f us"
  have key: "yu_creator_principal (rollup x d) = x" by (simp add: rollup_def)
  have u: "uniq yu_creator_principal ?us"
    using Cons.prems(2) by (intro uniq_upsert) simp_all
  have "?f q = rollup x d" if "yu_creator_principal q = x" for q
    using that by (cases q) (simp add: rollup_def)
  then have "row_of yu_creator_principal c ?us = (if c = x then Some (rollup x d) else row_of yu_creator_principal c us)"
    using key by (auto simp: row_of_upsert dest!: row_of_SomeD split: option.splits)
  with Cons.IH [OF _ u] Cons.prems(1) show ?case by auto
qed

lemma rebuild_rollup:
  assumes "db_ok d"
  shows "row_of yu_creator_principal c (yral_users (db_after rebuild_yral_users ([], d))) =
    (if posts_by c d = [] then None else Some (rollup c d))"
proof -
  let ?d1 = "d\<lparr>yral_users := delete_where
     (\<lambda>u. yu_creator_principal u \<notin> set (map yp_creator_principal (live_posts d))) (yral_users d)\<rparr>"
  have u: "uniq yu_creator_principal (yral_users d)" using assms by (simp add: db_ok_defs)
  have "row_of yu_creator_principal c (yral_users (db_after rebuild_yral_users ([], d))) =
      (if c \<in> set (map yp_creator_principal (live_posts d)) then Some (rollup c d)
       else row_of yu_creator_principal c (yral_users ?d1))"
    using fold_upsert_rollup [of "remdups (map yp_creator_principal (live_posts d))" "yral_users ?d1" c d] u
    by (simp add: db_after_def rebuild_yral_users_def run_simps uniq_delete_where)
  moreover have "c \<in> set (map yp_creator_principal (live_posts d)) \<longleftrightarrow> posts_by c d \<noteq> []"
    by (auto simp: posts_by_def filter_empty_conv)
  moreover have "row_of yu_creator_principal c (yral_users ?d1) = None"
    if "c \<notin> set (map yp_creator_principal (live_posts d))"
    using that by (auto simp: row_of_None_iff has_key_def)
  ultimately show ?thesis by auto
qed

text \<open>The rollup is exact: rebuilding leaves, for every creator, the row that groups the posts
  that are not stale (count, first and last post), and no row for a creator without such posts,
  whatever the table held before.\<close>

lemma rebuild_is_exact_rollup:
  assumes "db_ok d"
  shows "row_of yu_creator_principal c (yral_users (db_after rebuild_yral_users ([], d))) =
    (if posts_by c d = [] then None else Some (rollup c d))"
  using assms by (rule rebuild_rollup)

text \<open>The audit is a partition: the five categories are disjoint and add up to the expected
  videos, expected and excluded together are the distinct live videos, and the backing-off part of B
  is at most B; so no video is lost or counted twice, in any database.\<close>

lemma audit_is_a_partition:
  "\<exists>r. chain_audit ([], d) = (Inr r, [], d) \<and>
     category_a r + category_b r + category_c r + category_d r + category_e r = total_expected r \<and>
     total_expected r + excluded_by_status r = int (length (live_uids d)) \<and>
     b_backing_off r \<le> category_b r"
proof -
  let ?e = "expected_uids d"
  let ?n = "\<lambda>c. count_where (is_category d c) ?e"
  have ab: "count_where (\<lambda>u. master_status d (uid_key u) = Some ''servable'') ?e = ?n CatA + ?n CatB"
    by (rule count_where_split) (auto simp: is_category_def Let_def)
  have cd: "count_where (\<lambda>u. master_status d (uid_key u) = None) ?e = ?n CatC + ?n CatD"
    by (rule count_where_split) (auto simp: is_category_def Let_def)
  have "count_where (\<lambda>u. master_status d (uid_key u) \<noteq> None) ?e =
      count_where (\<lambda>u. master_status d (uid_key u) = Some ''servable'') ?e + ?n CatE"
    by (rule count_where_split) (auto simp: is_category_def Let_def)
  moreover have "count_where (\<lambda>_. True) ?e =
      count_where (\<lambda>u. master_status d (uid_key u) = None) ?e +
      count_where (\<lambda>u. master_status d (uid_key u) \<noteq> None) ?e"
    by (rule count_where_split) auto
  ultimately have total: "?n CatA + ?n CatB + ?n CatC + ?n CatD + ?n CatE = int (length ?e)"
    using ab cd by (simp add: count_where_def)
  have "count_where (\<lambda>_. True) (live_uids d) =
      count_where (is_expected d) (live_uids d) + count_where (\<lambda>u. \<not> is_expected d u) (live_uids d)"
    by (rule count_where_split) auto
  then have all: "int (length ?e) + count_where (\<lambda>u. \<not> is_expected d u) (live_uids d) = int (length (live_uids d))"
    by (simp add: expected_uids_def count_where_def)
  have "count_where (\<lambda>u. is_category d CatB u \<and> key_backing_off d (uid_key u)) ?e \<le> ?n CatB"
    by (rule count_where_le) simp
  with total all show ?thesis by (simp add: chain_audit_def run_query Let_def)
qed

text \<open>The D sample is the D category: without a binding limit it lists exactly the videos the
  audit counts as nowhere, each once, in order.\<close>

lemma category_d_sample_is_category_d:
  assumes "int (length (expected_uids d)) \<le> lim"
  shows "\<exists>xs r. category_d_sample lim ([], d) = (Inr xs, [], d) \<and> chain_audit ([], d) = (Inr r, [], d) \<and>
    int (length xs) = category_d r \<and> sorted_wrt (<) (map fst xs) \<and>
    (\<forall>u. u \<in> fst ` set xs \<longleftrightarrow> u \<in> set (expected_uids d) \<and> is_category d CatD u)"
proof -
  have m: "key_in_master d k \<longleftrightarrow> master_status d k \<noteq> None" for k
    by (auto simp: key_in_master_def master_status_def find_None_iff list_ex_iff)
  have D: "(\<lambda>u. \<not> key_in_master d (uid_key u) \<and> \<not> key_in_index d (uid_key u)) = is_category d CatD"
    by (auto simp: is_category_def m Let_def)
  let ?us = "sort (filter (is_category d CatD) (expected_uids d))"
  let ?xs = "map (\<lambda>u. (u, Min (set (map yp_creator_principal (filter (\<lambda>p. yp_video_uid p = u) (live_posts d)))))) ?us"
  have dist: "distinct (expected_uids d)" by (simp add: expected_uids_def live_uids_def)
  have "int (length ?xs) \<le> lim"
    using assms length_filter_le [of "is_category d CatD" "expected_uids d"]
    unfolding length_map length_sort by linarith
  then have "category_d_sample lim ([], d) = (Inr ?xs, [], d)"
    using assms by (simp add: category_d_sample_def run_stmt limit_rows_def D)
  moreover have "sorted_wrt (<) (map fst ?xs)"
    using dist by (simp add: o_def strict_sorted_iff)
  ultimately show ?thesis
    by (auto simp: chain_audit_def run_query Let_def count_where_def image_image)
qed

definition one_post_db :: pgdb where
  "one_post_db = (empty_db 5)\<lparr>yral_posts := [staged_post ''r'' 4 \<lparr>cp_post_id = ''p1'', cp_video_uid = ''u-1'',
     cp_creator_principal = ''alice'', cp_created_at = 3, cp_status = ''ReadyToView''\<rparr>]\<rparr>"

end
