(* ===== verification/Chain_Snapshot.thy ===== *)
theory Chain_Snapshot
  imports Chain_Repo
begin

text \<open>
  The chain snapshot job (\<open>jobs/chain_snapshot.rs\<close>): walk the pages of the post canister, stage the
  posts, and, after a complete walk only, flag the posts that were not seen and rebuild the rollup.
  The page source is a parameter (\<open>fetch\<close>, with the number of the call, so that a canister may answer
  the same question differently); principals, timestamps and statuses come as the texts and times
  the canister client converts them to. The loop is bounded by \<open>MAX_ITERS\<close>, so it needs no fuel.
\<close>

record fetched_post =
  fp_id :: string
  fp_video_uid :: string
  fp_creator :: string
  fp_created_at :: int
  fp_status :: string

record fetch_result =
  fx_posts :: "fetched_post list"
  fx_last :: "string option"

type_synonym post_source = "nat \<Rightarrow> nat \<Rightarrow> string option \<Rightarrow> string + fetch_result"

definition PAGE :: nat where
  "PAGE = 100"

definition MAX_ITERS :: nat where
  "MAX_ITERS = 100000"

definition walk_step :: "string option \<Rightarrow> fetch_result \<Rightarrow> nat \<Rightarrow> bool \<times> string option" where
  "walk_step prev res page =
     (let nxt = (case fx_last res of None \<Rightarrow> None | Some s \<Rightarrow> if s = [] then None else Some s);
          advanced = (nxt \<noteq> None \<and> nxt \<noteq> prev)
      in (fx_posts res = [] \<or> nxt = None \<or> \<not> advanced \<or> length (fx_posts res) < page, nxt))"

definition chain_post_of :: "fetched_post \<Rightarrow> chain_post" where
  "chain_post_of p = \<lparr>cp_post_id = fp_id p, cp_video_uid = fp_video_uid p,
     cp_creator_principal = fp_creator p, cp_created_at = fp_created_at p, cp_status = fp_status p\<rparr>"

definition as_text :: "('d, pg_error, 'a) proc \<Rightarrow> ('d, string, 'a) proc" where
  "as_text m = map_err (\<lambda>e. case e of PgError t \<Rightarrow> t) m"

text \<open>The counters are the posts upserted and skipped.\<close>

fun stage_posts :: "string \<Rightarrow> fetched_post list \<Rightarrow> nat \<Rightarrow> nat \<Rightarrow> (pgdb, string, nat \<times> nat) proc" where
  "stage_posts run [] u k = ret (u, k)"
| "stage_posts run (p # ps) u k =
     (if fp_video_uid p = [] then stage_posts run ps u (k + 1)
      else bnd (as_text (upsert_chain_post (chain_post_of p) run)) (\<lambda>_. stage_posts run ps (u + 1) k))"

definition walk_totals :: "nat \<Rightarrow> nat \<Rightarrow> nat \<Rightarrow> json" where
  "walk_totals pages u k = JObj [(''pages'', JInt (int pages)), (''posts_upserted'', JInt (int u)),
     (''skipped'', JInt (int k))]"

definition update_walk_progress :: "string \<Rightarrow> string option \<Rightarrow> json \<Rightarrow> unit pg" where
  "update_walk_progress run cur totals = exec (\<lambda>d. d\<lparr>job_runs := update_where (\<lambda>r. jr_id r = run)
     (\<lambda>r. r\<lparr>jr_cursor := Some (JObj [(''last'', json_opt cur)]), jr_totals := Some totals\<rparr>) (job_runs d)\<rparr>)"

definition walk_cancelled :: "nat option \<Rightarrow> nat \<Rightarrow> bool" where
  "walk_cancelled cancel k \<longleftrightarrow> (case cancel of None \<Rightarrow> False | Some n \<Rightarrow> n \<le> k)"

text \<open>\<open>n\<close> iterations are left; the result is the pages read, whether the walk was complete, and the
  two counters.\<close>

fun walk_chain :: "post_source \<Rightarrow> nat option \<Rightarrow> nat option \<Rightarrow> string \<Rightarrow> nat \<Rightarrow> string option \<Rightarrow> nat \<Rightarrow>
    nat \<Rightarrow> nat \<Rightarrow> (pgdb, string, nat \<times> bool \<times> nat \<times> nat) proc" where
  "walk_chain fetch cancel lim run 0 cur pages u k = ret (pages, False, u, k)"
| "walk_chain fetch cancel lim run (Suc n) cur pages u k =
     (if walk_cancelled cancel pages then ret (pages, False, u, k)
      else case fetch pages PAGE cur of
        Inl e \<Rightarrow> raise e
      | Inr res \<Rightarrow>
          bnd (stage_posts run (fx_posts res) u k) (\<lambda>(u', k').
          bnd (attempt (update_walk_progress run (fx_last res) (walk_totals (pages + 1) u' k'))) (\<lambda>_.
          if (case lim of None \<Rightarrow> False | Some l \<Rightarrow> l \<le> u') then ret (pages + 1, False, u', k')
          else case walk_step cur res PAGE of (stop, nxt) \<Rightarrow>
            if stop then ret (pages + 1, True, u', k')
            else walk_chain fetch cancel lim run n nxt (pages + 1) u' k')))"

record snapshot_summary =
  sn_job_run_id :: string
  sn_posts_upserted :: nat
  sn_pages :: nat
  sn_skipped :: nat
  sn_completed :: bool

definition insert_snapshot_run :: "string \<Rightarrow> string \<Rightarrow> unit pg" where
  "insert_snapshot_run run requested_by = stmt (\<lambda>d.
     if has_key jr_id run (job_runs d) then Inl (PgError ''duplicate key value'')
     else Inr ((), d\<lparr>job_runs := job_runs d @ [\<lparr>jr_id = run, jr_job_kind = ''chain_snapshot'',
        jr_status = ''running'', jr_requested_by = requested_by, jr_started_at = now_us d,
        jr_finished_at = None, jr_cursor = None, jr_totals = None, jr_error_message = None\<rparr>]\<rparr>))"

definition finish_snapshot_run :: "string \<Rightarrow> bool \<Rightarrow> json \<Rightarrow> unit pg" where
  "finish_snapshot_run run full totals = exec (\<lambda>d. d\<lparr>job_runs := update_where (\<lambda>r. jr_id r = run)
     (\<lambda>r. r\<lparr>jr_status := (if full then ''completed'' else ''partial''),
             jr_finished_at := Some (now_us d), jr_totals := Some totals, jr_error_message := None\<rparr>)
     (job_runs d)\<rparr>)"

definition fail_snapshot_run :: "string \<Rightarrow> string \<Rightarrow> unit pg" where
  "fail_snapshot_run run err = exec (\<lambda>d. d\<lparr>job_runs := update_where (\<lambda>r. jr_id r = run)
     (\<lambda>r. r\<lparr>jr_status := ''failed'', jr_finished_at := Some (now_us d), jr_error_message := Some err\<rparr>)
     (job_runs d)\<rparr>)"

definition finish_walk :: "string \<Rightarrow> string + (nat \<times> bool \<times> nat \<times> nat) \<Rightarrow> (pgdb, string, snapshot_summary) proc" where
  "finish_walk run r = (case r of
       Inr (pages, full, u, k) \<Rightarrow>
         bnd (if full
              then bnd (as_text (mark_stale_posts run)) (\<lambda>_. as_text rebuild_yral_users)
              else ret ()) (\<lambda>_.
         bnd (as_text (finish_snapshot_run run full
                (JObj [(''pages'', JInt (int pages)), (''posts_upserted'', JInt (int u)),
                  (''skipped'', JInt (int k)), (''completed'', JBool full)]))) (\<lambda>_.
         ret \<lparr>sn_job_run_id = run, sn_posts_upserted = u, sn_pages = pages, sn_skipped = k,
              sn_completed = full\<rparr>))
     | Inl e \<Rightarrow> bnd (attempt (fail_snapshot_run run e)) (\<lambda>_. raise e))"

definition run_chain_snapshot :: "post_source \<Rightarrow> string \<Rightarrow> string \<Rightarrow> nat option \<Rightarrow> nat option \<Rightarrow>
    (pgdb, string, snapshot_summary) proc" where
  "run_chain_snapshot fetch run requested_by cancel lim =
     bnd (as_text (insert_snapshot_run run requested_by)) (\<lambda>_.
     bnd (attempt (walk_chain fetch cancel lim run MAX_ITERS None 0 0 0)) (finish_walk run))"

section \<open>Integrity\<close>

lemma safe_as_text [safe_intros]: "safe m \<Longrightarrow> safe (as_text m)"
  unfolding as_text_def by (rule safe_map_err)

lemma safe_stage_posts [safe_intros]: "safe (stage_posts run ps u k)"
  by (induction ps arbitrary: u k) (auto intro!: safe_intros)

lemma safe_walk_chain [safe_intros]: "safe (walk_chain fetch cancel lim run n cur pages u k)"
proof (induction n arbitrary: cur pages u k)
  case (Suc n)
  have "safe (update_walk_progress run c t)" for c t
    unfolding update_walk_progress_def by (rule safe_exec) (simp_all add: db_ok_run_update)
  with Suc.IH show ?case by (auto intro!: safe_intros split: sum.split option.split)
qed (simp add: safe_intros)

lemma safe_snapshot [safe_intros]: "safe (run_chain_snapshot fetch run by' cancel lim)"
proof -
  have "safe (insert_snapshot_run run by')"
    unfolding insert_snapshot_run_def
    by (rule safe_stmt) (auto simp: db_ok_defs uniq_snoc split: if_splits)
  moreover have "safe (finish_snapshot_run run c t)" for c t
    unfolding finish_snapshot_run_def by (rule safe_exec) (simp_all add: db_ok_run_update)
  moreover have "safe (fail_snapshot_run run e)" for e
    unfolding fail_snapshot_run_def by (rule safe_exec) (simp_all add: db_ok_run_update)
  ultimately show ?thesis
    unfolding run_chain_snapshot_def finish_walk_def
    by (auto intro!: safe_intros)
qed

section \<open>A partial walk tombstones nothing\<close>

definition live_id :: "string \<Rightarrow> pgdb \<Rightarrow> bool" where
  "live_id k d \<longleftrightarrow> (\<exists>p \<in> set (yral_posts d). yp_post_id p = k \<and> \<not> yp_stale p)"

definition keeps_live :: "pgdb \<Rightarrow> pgdb \<Rightarrow> bool" where
  "keeps_live d0 d \<longleftrightarrow> (\<forall>k. live_id k d0 \<longrightarrow> live_id k d) \<and> yral_users d = yral_users d0"

lemma pres_as_text [pres]: "preserves I m \<Longrightarrow> preserves I (as_text m)"
  unfolding as_text_def by (rule pres_map_err)

lemma keeps_live_job_runs [simp]: "keeps_live d0 (d\<lparr>job_runs := js\<rparr>) = keeps_live d0 d"
  by (simp add: keeps_live_def live_id_def)

text \<open>The staging of one post as a change of the table.\<close>

definition stage_row :: "string \<Rightarrow> int \<Rightarrow> chain_post \<Rightarrow> yral_post list \<Rightarrow> yral_post list" where
  "stage_row run t p = upsert yp_post_id (staged_post run t p)
     (\<lambda>r. r\<lparr>yp_video_uid := cp_video_uid p, yp_creator_principal := cp_creator_principal p,
            yp_created_at := cp_created_at p, yp_status := cp_status p,
            yp_snapshot_run_id := Some run, yp_fetched_at := t, yp_stale := False\<rparr>)"

lemma upsert_chain_post_stage:
  "upsert_chain_post p run = exec (\<lambda>d. d\<lparr>yral_posts := stage_row run (now_us d) p (yral_posts d)\<rparr>)"
  by (simp add: upsert_chain_post_def stage_row_def)

lemma stage_row_members:
  assumes "r \<in> set rows"
  shows "\<exists>r' \<in> set (stage_row run t p rows). yp_post_id r' = yp_post_id r \<and> (yp_stale r' \<longrightarrow> yp_stale r)"
proof (cases "has_key yp_post_id (cp_post_id p) rows \<and> yp_post_id r = cp_post_id p")
  case True
  let ?r = "r\<lparr>yp_video_uid := cp_video_uid p, yp_creator_principal := cp_creator_principal p,
     yp_created_at := cp_created_at p, yp_status := cp_status p,
     yp_snapshot_run_id := Some run, yp_fetched_at := t, yp_stale := False\<rparr>"
  have "?r \<in> set (stage_row run t p rows)"
    using True assms by (auto simp: stage_row_def upsert_def staged_post_def set_update_where image_iff)
  then show ?thesis by (intro bexI [of _ ?r]) simp_all
next
  case False
  then have "r \<in> set (stage_row run t p rows)"
    using assms by (auto simp: stage_row_def upsert_def staged_post_def set_update_where image_iff)
  then show ?thesis by blast
qed

lemma keeps_live_upsert: "preserves (keeps_live d0) (upsert_chain_post p run)"
  unfolding upsert_chain_post_stage
proof (rule pres_exec)
  fix d
  assume d: "keeps_live d0 d"
  have "live_id k (d\<lparr>yral_posts := stage_row run (now_us d) p (yral_posts d)\<rparr>)" if "live_id k d" for k
    using that stage_row_members [of _ "yral_posts d" run "now_us d" p]
    unfolding live_id_def by (simp, metis)
  with d show "keeps_live d0 (d\<lparr>yral_posts := stage_row run (now_us d) p (yral_posts d)\<rparr>)"
    by (simp add: keeps_live_def)
qed

lemma keeps_live_stage: "preserves (keeps_live d0) (stage_posts run ps u k)"
  by (induction ps arbitrary: u k) (auto intro!: pres keeps_live_upsert)

lemma keeps_live_walk: "preserves (keeps_live d0) (walk_chain fetch cancel lim run n cur pages u k)"
proof (induction n arbitrary: cur pages u k)
  case (Suc n)
  have "preserves (keeps_live d0) (update_walk_progress run c t)" for c t
    unfolding update_walk_progress_def by (rule pres_exec) simp
  with Suc.IH show ?case
    by (auto intro!: pres keeps_live_stage split: sum.split option.split prod.split)
qed (simp add: pres)

lemma walk_chain_capped:
  "walk_chain fetch cancel (Some l) run n cur pages u k (p, d) = (Inr (pages', full, u', k'), q, d') \<Longrightarrow>
   l \<le> u' \<Longrightarrow> \<not> full"
proof (induction n arbitrary: cur pages u k p d)
  case (Suc n)
  then show ?case
    by (fastforce simp: bnd_Inr_iff attempt_iff ret_iff raise_def split: if_splits sum.splits prod.splits)
qed simp

text \<open>C8. Only a complete walk tombstones: when a snapshot returns as partial (cancelled, capped by a
  limit, or stopped by the iteration bound), under any canister answers and any database faults,
  every post that was live before is live after, and the rollup is untouched. A run that has reached its
  limit does return as partial, also where its last page would have ended the walk.\<close>

theorem partial_snapshot_tombstones_nothing:
  assumes "run_chain_snapshot fetch run by' cancel lim (plan, d) = (Inr s, plan', d')"
  shows "(\<not> sn_completed s \<longrightarrow> (\<forall>k. live_id k d \<longrightarrow> live_id k d') \<and> yral_users d' = yral_users d) \<and>
     (\<forall>l. lim = Some l \<and> l \<le> sn_posts_upserted s \<longrightarrow> \<not> sn_completed s)"
proof -
  from assms obtain p1 d1 r p2 d2 where
    i: "as_text (insert_snapshot_run run by') (plan, d) = (Inr (), p1, d1)"
    and w: "walk_chain fetch cancel lim run MAX_ITERS None 0 0 0 (p1, d1) = (r, p2, d2)"
    and rest: "finish_walk run r (p2, d2) = (Inr s, plan', d')"
    unfolding run_chain_snapshot_def bnd_Inr_iff attempt_iff by auto
  have "preserves (keeps_live d) (as_text (insert_snapshot_run run by'))"
    unfolding insert_snapshot_run_def by (intro pres pres_stmt) (auto split: if_splits)
  moreover have "keeps_live d d" by (simp add: keeps_live_def)
  ultimately have "keeps_live d d1" using i by (blast dest: preserves_run)
  with w keeps_live_walk have k2: "keeps_live d d2" by (blast dest: preserves_run)
  have "\<not> (\<exists>e. r = Inl e)"
    using rest by (auto simp: finish_walk_def bnd_Inr_iff raise_def)
  then obtain pages full u k where r: "r = Inr (pages, full, u, k)"
    by (cases r) auto
  have sn: "sn_completed s = full" "sn_posts_upserted s = u"
    using rest r by (auto simp: finish_walk_def bnd_Inr_iff ret_iff)
  have "preserves (keeps_live d) (as_text (finish_snapshot_run run b t))" for b t
    unfolding finish_snapshot_run_def by (intro pres pres_exec) simp
  with rest r k2 have "keeps_live d d'" if "\<not> full"
    using that by (auto simp: finish_walk_def bnd_Inr_iff ret_iff dest: preserves_run)
  then show ?thesis
    using sn walk_chain_capped [of fetch cancel _ run MAX_ITERS None 0 0 0 p1 d1 pages full u k p2 d2] w r
    by (auto simp: keeps_live_def)
qed

section \<open>A complete walk is exact\<close>

text \<open>The documented answer of the canister, for a chain that does not change during the walk: up to
  \<open>limit\<close> posts after the one the cursor names, in a fixed order, with the id of the last one.\<close>

definition posts_after :: "fetched_post list \<Rightarrow> string option \<Rightarrow> fetched_post list" where
  "posts_after chain cur = (case cur of None \<Rightarrow> chain
     | Some k \<Rightarrow> tl (dropWhile (\<lambda>p. fp_id p \<noteq> k) chain))"

definition serve :: "fetched_post list \<Rightarrow> post_source" where
  "serve chain call limit cur = (let ps = take limit (posts_after chain cur) in
     Inr \<lparr>fx_posts = ps, fx_last = (if ps = [] then None else Some (fp_id (last ps)))\<rparr>)"

definition stage_rows :: "string \<Rightarrow> int \<Rightarrow> fetched_post list \<Rightarrow> yral_post list \<Rightarrow> yral_post list" where
  "stage_rows run t ps rows = fold (\<lambda>p rows. if fp_video_uid p = [] then rows
     else stage_row run t (chain_post_of p) rows) ps rows"

lemma stage_posts_run:
  "\<exists>u' k'. stage_posts run ps u k ([], d) =
     (Inr (u', k'), [], d\<lparr>yral_posts := stage_rows run (now_us d) ps (yral_posts d)\<rparr>)"
proof (induction ps arbitrary: u k d)
  case Nil
  then show ?case by (simp add: stage_rows_def)
next
  case (Cons p ps)
  show ?case
  proof (cases "fp_video_uid p = []")
    case True
    with Cons.IH [of u "k + 1" d] show ?thesis by (simp add: stage_rows_def)
  next
    case False
    with Cons.IH [of "u + 1" k "d\<lparr>yral_posts := stage_row run (now_us d) (chain_post_of p) (yral_posts d)\<rparr>"]
    show ?thesis
      by (simp add: run_bnd as_text_def run_map_err upsert_chain_post_stage run_exec stage_rows_def)
  qed
qed

lemma posts_after_split:
  assumes "distinct (map fp_id (pre @ rest))" and "pre \<noteq> []"
  shows "posts_after (pre @ rest) (Some (fp_id (last pre))) = rest"
proof -
  obtain ini l where pre: "pre = ini @ [l]" using assms(2) by (metis append_butlast_last_id)
  have "fp_id l \<notin> fp_id ` set ini" using assms(1) by (simp add: pre)
  then have "fp_id p \<noteq> fp_id l" if "p \<in> set ini" for p
    using that by (metis imageI)
  then have "dropWhile (\<lambda>p. fp_id p \<noteq> fp_id l) (ini @ l # rest) = l # rest"
    by (subst dropWhile_append2) auto
  then show ?thesis by (simp add: posts_after_def pre)
qed

lemma stage_rows_append:
  "stage_rows run t rest (stage_rows run t ps rows) = stage_rows run t (ps @ rest) rows"
  by (simp add: stage_rows_def)

lemma walk_chain_run:
  assumes "distinct (map fp_id (pre @ rest))" and "\<forall>p \<in> set (pre @ rest). fp_id p \<noteq> []"
    and "length rest < PAGE * n"
  shows "\<exists>pages' u' k' js. walk_chain (serve (pre @ rest)) None None run n
      (if pre = [] then None else Some (fp_id (last pre))) pages u k ([], d) =
     (Inr (pages', True, u', k'), [],
      d\<lparr>yral_posts := stage_rows run (now_us d) rest (yral_posts d), job_runs := js\<rparr>)"
  using assms
proof (induction n arbitrary: pre rest pages u k d)
  case 0
  then show ?case by simp
next
  case (Suc n)
  let ?cur = "if pre = [] then None else Some (fp_id (last pre))"
  let ?ps = "take PAGE rest"
  let ?last = "if ?ps = [] then None else Some (fp_id (last ?ps))"
  have after: "posts_after (pre @ rest) ?cur = rest"
    using posts_after_split [OF Suc.prems(1)] by (simp add: posts_after_def)
  then have f: "serve (pre @ rest) pages PAGE ?cur = Inr \<lparr>fx_posts = ?ps, fx_last = ?last\<rparr>"
    by (simp add: serve_def Let_def)
  let ?d1 = "d\<lparr>yral_posts := stage_rows run (now_us d) ?ps (yral_posts d)\<rparr>"
  obtain u1 k1 where st: "stage_posts run ?ps u k ([], d) = (Inr (u1, k1), [], ?d1)"
    using stage_posts_run by blast
  obtain js where up: "update_walk_progress run ?last (walk_totals (pages + 1) u1 k1) ([], ?d1) =
      (Inr (), [], ?d1\<lparr>job_runs := js\<rparr>)"
    by (simp add: update_walk_progress_def run_exec)
  have step: "walk_chain (serve (pre @ rest)) None None run (Suc n) ?cur pages u k ([], d) =
    (case walk_step ?cur \<lparr>fx_posts = ?ps, fx_last = ?last\<rparr> PAGE of (stop, nxt) \<Rightarrow>
       if stop then ret (pages + 1, True, u1, k1)
       else walk_chain (serve (pre @ rest)) None None run n nxt (pages + 1) u1 k1) ([], ?d1\<lparr>job_runs := js\<rparr>)"
    using f st up by (simp add: walk_cancelled_def run_bnd run_attempt)
  show ?case
  proof (cases "length rest < PAGE")
    case True
    then have "fst (walk_step ?cur \<lparr>fx_posts = ?ps, fx_last = ?last\<rparr> PAGE)"
      by (simp add: walk_step_def Let_def)
    with step True show ?thesis by (auto split: prod.splits)
  next
    case False
    then have ne: "?ps \<noteq> []" and len: "length ?ps = PAGE" by (auto simp: PAGE_def)
    let ?pre = "pre @ ?ps" and ?rest = "drop PAGE rest"
    have whole: "?pre @ ?rest = pre @ rest" by simp
    have lp: "last ?pre = last ?ps" "last ?ps \<in> set rest"
      using ne apply simp
      using last_in_set [OF ne] by (rule in_set_takeD)
    have nonempty: "fp_id (last ?ps) \<noteq> []" using Suc.prems(2) lp(2) by simp
    have "fp_id ` set pre \<inter> fp_id ` set rest = {}" using Suc.prems(1) by simp
    then have fresh: "Some (fp_id (last ?ps)) \<noteq> ?cur"
    proof (cases "pre = []")
      case False
      then have "fp_id (last pre) \<in> fp_id ` set pre" by simp
      moreover have "fp_id (last ?ps) \<in> fp_id ` set rest" using lp(2) by (rule imageI)
      ultimately have "fp_id (last ?ps) \<noteq> fp_id (last pre)"
        using \<open>fp_id ` set pre \<inter> _ = {}\<close> by (metis disjoint_iff)
      with False show ?thesis by simp
    qed simp
    have ws: "walk_step ?cur \<lparr>fx_posts = ?ps, fx_last = ?last\<rparr> PAGE = (False, Some (fp_id (last ?ps)))"
      using ne len nonempty fresh by (simp add: walk_step_def Let_def)
    have "length ?rest < PAGE * n" using Suc.prems(3) False by simp
    from Suc.IH [of ?pre ?rest "pages + 1" u1 k1 "?d1\<lparr>job_runs := js\<rparr>", unfolded whole, OF Suc.prems(1,2) this]
    obtain pages' u' k' js' where
      "walk_chain (serve (pre @ rest)) None None run n (Some (fp_id (last ?ps))) (pages + 1) u1 k1
         ([], ?d1\<lparr>job_runs := js\<rparr>) = (Inr (pages', True, u', k'), [],
       ?d1\<lparr>yral_posts := stage_rows run (now_us d) ?rest (stage_rows run (now_us d) ?ps (yral_posts d)), job_runs := js'\<rparr>)"
      using ne lp(1) by auto
    moreover have "stage_rows run t ?rest (stage_rows run t ?ps rows) = stage_rows run t rest rows" for t rows
      using stage_rows_append [of run t ?rest ?ps rows] by simp
    ultimately have tail: "walk_chain (serve (pre @ rest)) None None run n (Some (fp_id (last ?ps))) (pages + 1) u1 k1
         ([], ?d1\<lparr>job_runs := js\<rparr>) = (Inr (pages', True, u', k'), [],
         d\<lparr>yral_posts := stage_rows run (now_us d) rest (yral_posts d), job_runs := js'\<rparr>)"
      by simp
    show ?thesis unfolding step ws using tail by (simp del: walk_chain.simps) blast
  qed
qed

lemma stage_row_lookup:
  "row_of yp_post_id k (stage_row run t p rows) =
     (if k = cp_post_id p
      then Some (case row_of yp_post_id k rows of None \<Rightarrow> staged_post run t p
        | Some r \<Rightarrow> r\<lparr>yp_video_uid := cp_video_uid p, yp_creator_principal := cp_creator_principal p,
            yp_created_at := cp_created_at p, yp_status := cp_status p,
            yp_snapshot_run_id := Some run, yp_fetched_at := t, yp_stale := False\<rparr>)
      else row_of yp_post_id k rows)"
  unfolding stage_row_def by (subst row_of_upsert) (auto simp: staged_post_def split: option.split)

definition on_chain_with_video :: "fetched_post list \<Rightarrow> string \<Rightarrow> bool" where
  "on_chain_with_video ps k \<longleftrightarrow> (\<exists>p \<in> set ps. fp_id p = k \<and> fp_video_uid p \<noteq> [])"

definition staged_by :: "string \<Rightarrow> yral_post option \<Rightarrow> bool" where
  "staged_by run ro \<longleftrightarrow> (case ro of None \<Rightarrow> False | Some r \<Rightarrow> \<not> yp_stale r \<and> yp_snapshot_run_id r = Some run)"

lemma stage_rows_lookup:
  "if on_chain_with_video ps k then staged_by run (row_of yp_post_id k (stage_rows run t ps rows))
   else row_of yp_post_id k (stage_rows run t ps rows) = row_of yp_post_id k rows"
proof (induction ps arbitrary: rows)
  case Nil
  then show ?case by (simp add: on_chain_with_video_def stage_rows_def)
next
  case (Cons p ps)
  let ?rows = "if fp_video_uid p = [] then rows else stage_row run t (chain_post_of p) rows"
  have step: "stage_rows run t (p # ps) rows = stage_rows run t ps ?rows" by (simp add: stage_rows_def)
  have oc: "on_chain_with_video (p # ps) k \<longleftrightarrow> on_chain_with_video ps k \<or> (fp_id p = k \<and> fp_video_uid p \<noteq> [])"
    by (auto simp: on_chain_with_video_def)
  show ?case
  proof (cases "on_chain_with_video ps k")
    case True
    with Cons.IH [of ?rows] oc show ?thesis unfolding step by simp
  next
    case False
    with Cons.IH [of ?rows] have "row_of yp_post_id k (stage_rows run t (p # ps) rows) = row_of yp_post_id k ?rows"
      unfolding step by simp
    with False oc show ?thesis
      by (auto simp: stage_row_lookup chain_post_of_def staged_by_def staged_post_def split: option.splits)
  qed
qed

lemma live_id_row:
  assumes "uniq yp_post_id (yral_posts d)"
  shows "live_id k d \<longleftrightarrow> (\<exists>r. row_of yp_post_id k (yral_posts d) = Some r \<and> \<not> yp_stale r)"
  unfolding live_id_def using row_of_Some_iff [OF assms] by blast

text \<open>The staged rows after the stale ones were marked: a post is live exactly when the chain has it with a video id.\<close>

definition marked_rows :: "string \<Rightarrow> yral_post list \<Rightarrow> yral_post list" where
  "marked_rows run rows = update_where (\<lambda>p. \<not> yp_stale p \<and> yp_snapshot_run_id p \<noteq> Some run) (\<lambda>p. p\<lparr>yp_stale := True\<rparr>) rows"

lemma live_after_marking:
  assumes uniq: "uniq yp_post_id (yral_posts d')" and fresh: "\<forall>p \<in> set posts. yp_snapshot_run_id p \<noteq> Some run"
    and chain: "distinct (map fp_id chain)" "\<forall>p \<in> set chain. fp_id p \<noteq> []"
    and rows: "yral_posts d' = marked_rows run (stage_rows run t chain posts)"
  shows "live_id k d' \<longleftrightarrow> on_chain_with_video chain k"
proof -
  let ?rows = "stage_rows run t chain posts"
  have row: "row_of yp_post_id k (yral_posts d') =
      map_option (\<lambda>p. if \<not> yp_stale p \<and> yp_snapshot_run_id p \<noteq> Some run then p\<lparr>yp_stale := True\<rparr> else p) (row_of yp_post_id k ?rows)"
    unfolding rows marked_rows_def by (simp add: row_of_update)
  note lookup = stage_rows_lookup [of chain k run t posts]
  show ?thesis
  proof (cases "on_chain_with_video chain k")
    case True
    with lookup chain show ?thesis
      by (auto simp: live_id_row [OF uniq] row staged_by_def split: option.splits)
  next
    case False
    then have unseen: "row_of yp_post_id k ?rows = row_of yp_post_id k posts" using lookup chain by simp
    have "yp_snapshot_run_id r \<noteq> Some run" if "row_of yp_post_id k ?rows = Some r" for r
      using that unseen fresh row_of_SomeD by metis
    with False show ?thesis by (auto simp: live_id_row [OF uniq] row split: if_splits)
  qed
qed

lemma marking_keeps_rows:
  assumes "has_key yp_post_id k posts"
  shows "has_key yp_post_id k (marked_rows run (stage_rows run t chain posts))"
proof -
  have "row_of yp_post_id k (stage_rows run t chain posts) \<noteq> None"
    using stage_rows_lookup [of chain k run t posts] assms
    by (auto simp: staged_by_def has_key_row_of split: if_splits option.splits)
  then show ?thesis by (auto simp: marked_rows_def has_key_row_of row_of_update)
qed

text \<open>A run of a chain that fits, without faults: the marked rows, the rollup of them, and a complete summary.\<close>

lemma complete_run:
  assumes ok: "db_ok d" and run: "\<not> has_key jr_id run (job_runs d)"
    and chain: "distinct (map fp_id chain)" "\<forall>p \<in> set chain. fp_id p \<noteq> []" "length chain < PAGE * MAX_ITERS"
  shows "\<exists>s d3 d'. run_chain_snapshot (serve chain) run by' None None ([], d) = (Inr s, [], d') \<and> sn_completed s \<and> db_ok d3 \<and>
    yral_posts d3 = marked_rows run (stage_rows run (now_us d) chain (yral_posts d)) \<and> yral_posts d' = yral_posts d3 \<and>
    yral_users d' = yral_users (db_after rebuild_yral_users ([], d3))"
proof -
  let ?r = "\<lparr>jr_id = run, jr_job_kind = ''chain_snapshot'', jr_status = ''running'', jr_requested_by = by',
     jr_started_at = now_us d, jr_finished_at = None, jr_cursor = None, jr_totals = None, jr_error_message = None\<rparr>"
  let ?d1 = "d\<lparr>job_runs := job_runs d @ [?r]\<rparr>" and ?rows = "stage_rows run (now_us d) chain (yral_posts d)"
  from walk_chain_run [of "[]" chain MAX_ITERS run 0 0 0 ?d1] chain obtain pages u k js where
    w: "walk_chain (serve chain) None None run MAX_ITERS None 0 0 0 ([], ?d1) =
        (Inr (pages, True, u, k), [], d\<lparr>yral_posts := ?rows, job_runs := js\<rparr>)" (is "_ = (_, _, ?d2)")
    by auto
  define d3 where "d3 = ?d2\<lparr>yral_posts := marked_rows run ?rows\<rparr>"
  have ok1: "db_ok ?d1" using ok run by (auto simp: db_ok_defs uniq_snoc has_key_code)
  have ok2: "db_ok ?d2" by (rule safe_run [OF safe_walk_chain w ok1])
  obtain n where m: "mark_stale_posts run ([], ?d2) = (Inr n, [], d3)"
    by (simp add: mark_stale_posts_def run_stmt Let_def d3_def marked_rows_def)
  define d4 where "d4 = db_after rebuild_yral_users ([], d3)"
  have rb: "rebuild_yral_users ([], d3) = (Inr (), [], d4)" and d4: "yral_posts d4 = yral_posts d3"
    by (simp_all add: d4_def db_after_def rebuild_yral_users_def run_simps)
  define d5 where "d5 = db_after (finish_snapshot_run run True (JObj [(''pages'', JInt (int pages)), (''posts_upserted'', JInt (int u)),
     (''skipped'', JInt (int k)), (''completed'', JBool True)])) ([], d4)"
  have "as_text (insert_snapshot_run run by') ([], d) = (Inr (), [], ?d1)"
    using run by (simp add: as_text_def run_map_err insert_snapshot_run_def run_stmt)
  then have "run_chain_snapshot (serve chain) run by' None None ([], d) =
      (Inr \<lparr>sn_job_run_id = run, sn_posts_upserted = u, sn_pages = pages, sn_skipped = k, sn_completed = True\<rparr>, [], d5)"
    by (simp add: run_chain_snapshot_def run_bnd run_attempt w finish_walk_def as_text_def run_map_err m rb d5_def
        finish_snapshot_run_def run_exec db_after_def)
  moreover have "yral_posts d5 = yral_posts d3" "yral_users d5 = yral_users d4"
    by (simp_all add: d5_def db_after_def finish_snapshot_run_def run_exec d4)
  moreover have "db_ok d3" by (rule safe_run [OF safe_mark_stale m ok2])
  ultimately show ?thesis
    by (intro exI [of _ d3] exI [of _ d5] exI conjI) (assumption | simp add: d3_def d4_def)+
qed

text \<open>C7. A complete snapshot leaves live exactly the posts that the chain holds with a video id: on a
  chain of distinct posts that fits the iteration bound, a run without faults, limit and
  cancellation ends as complete, whatever the page boundaries; a stored post is then live if and only
  if the chain has it with a non-empty video id, so that a post that is still on the chain but has
  no video id is stale afterwards like one that has left the chain; no stored post is removed, and the
  rollup groups exactly the live posts.\<close>

theorem complete_snapshot_exact:
  assumes ok: "db_ok d" and run: "\<not> has_key jr_id run (job_runs d)"
    and fresh: "\<forall>p \<in> set (yral_posts d). yp_snapshot_run_id p \<noteq> Some run"
    and chain: "distinct (map fp_id chain)" "\<forall>p \<in> set chain. fp_id p \<noteq> []" "length chain < PAGE * MAX_ITERS"
  shows "\<exists>s d'. run_chain_snapshot (serve chain) run by' None None ([], d) = (Inr s, [], d') \<and> sn_completed s \<and>
    (\<forall>k. live_id k d' \<longleftrightarrow> on_chain_with_video chain k) \<and>
    (\<forall>p \<in> set chain. fp_video_uid p = [] \<longrightarrow> \<not> live_id (fp_id p) d') \<and>
    (\<forall>k. has_key yp_post_id k (yral_posts d) \<longrightarrow> has_key yp_post_id k (yral_posts d')) \<and>
    (\<forall>c. row_of yu_creator_principal c (yral_users d') = (if posts_by c d' = [] then None else Some (rollup c d')))"
proof -
  from complete_run [OF ok run chain, of by'] obtain s d3 d' where
    result: "run_chain_snapshot (serve chain) run by' None None ([], d) = (Inr s, [], d')" "sn_completed s" and ok3: "db_ok d3"
    and rows: "yral_posts d3 = marked_rows run (stage_rows run (now_us d) chain (yral_posts d))"
    and d': "yral_posts d' = yral_posts d3" "yral_users d' = yral_users (db_after rebuild_yral_users ([], d3))" by blast
  have "uniq yp_post_id (yral_posts d')" using ok3 d'(1) by (simp add: db_ok_defs)
  from live_after_marking [OF this fresh chain(1,2)] rows d'(1) have
    live: "live_id k d' \<longleftrightarrow> on_chain_with_video chain k" for k by simp
  moreover have "\<not> live_id (fp_id p) d'" if "p \<in> set chain" "fp_video_uid p = []" for p
    using that chain(1) unfolding live on_chain_with_video_def distinct_map by (metis inj_onD)
  moreover have "has_key yp_post_id k (yral_posts d')" if "has_key yp_post_id k (yral_posts d)" for k
    using marking_keeps_rows [OF that] rows d'(1) by simp
  moreover have "posts_by c d' = posts_by c d3" "rollup c d' = rollup c d3" for c
    by (simp_all add: posts_by_def live_posts_def rollup_def d'(1))
  then have "row_of yu_creator_principal c (yral_users d') = (if posts_by c d' = [] then None else Some (rollup c d'))" for c
    using rebuild_rollup [OF ok3, of c] unfolding d'(2) by simp
  ultimately show ?thesis using result by blast
qed

definition demo_chain :: "fetched_post list" where
  "demo_chain = [\<lparr>fp_id = ''p1'', fp_video_uid = ''u1'', fp_creator = ''alice'', fp_created_at = 3,
      fp_status = ''ReadyToView''\<rparr>,
     \<lparr>fp_id = ''p2'', fp_video_uid = [], fp_creator = ''bob'', fp_created_at = 4, fp_status = ''Uploaded''\<rparr>]"

theorem complete_snapshot_exact_witness:
  "\<exists>s d'. run_chain_snapshot (serve demo_chain) ''r2'' ''ops'' None None ([], one_post_db) = (Inr s, [], d') \<and>
     sn_completed s \<and> live_id ''p1'' d' \<and> \<not> live_id ''p2'' d'"
proof -
  have "db_ok one_post_db" "\<not> has_key jr_id ''r2'' (job_runs one_post_db)"
      "\<forall>p \<in> set (yral_posts one_post_db). yp_snapshot_run_id p \<noteq> Some ''r2''"
      "distinct (map fp_id demo_chain)" "\<forall>p \<in> set demo_chain. fp_id p \<noteq> []"
      "length demo_chain < PAGE * MAX_ITERS"
    by (simp_all add: one_post_db_def empty_db_def db_ok_defs uniq_def has_key_code staged_post_def
        demo_chain_def PAGE_def MAX_ITERS_def)
  from complete_snapshot_exact [OF this, of "''ops''"] show ?thesis
    by (auto simp: on_chain_with_video_def demo_chain_def)
qed

lemma walk_chain_bound:
  "walk_chain fetch cancel lim run n cur pages u k (p, d) = (Inr (pages', full, u', k'), q, d') \<Longrightarrow>
   pages' \<le> pages + n"
proof (induction n arbitrary: cur pages u k p d)
  case (Suc n)
  then show ?case
    by (fastforce simp: bnd_Inr_iff attempt_iff ret_iff raise_def split: if_splits sum.splits prod.splits option.splits)
qed simp

text \<open>The walk is bounded: it reads at most \<open>MAX_ITERS\<close> pages, also from a canister that answers
  for ever with full pages and ever new cursors, and a walk that reaches the bound is partial.\<close>

lemma walk_is_bounded:
  assumes "run_chain_snapshot fetch run by' cancel lim (plan, d) = (Inr s, plan', d')"
  shows "sn_pages s \<le> MAX_ITERS"
proof -
  from assms obtain p1 d1 r p2 d2 where
    w: "walk_chain fetch cancel lim run MAX_ITERS None 0 0 0 (p1, d1) = (r, p2, d2)"
    and rest: "finish_walk run r (p2, d2) = (Inr s, plan', d')"
    unfolding run_chain_snapshot_def bnd_Inr_iff attempt_iff by auto
  have "\<not> (\<exists>e. r = Inl e)"
    using rest by (auto simp: finish_walk_def bnd_Inr_iff raise_def)
  then obtain pages full u k where r: "r = Inr (pages, full, u, k)"
    by (cases r) auto
  have "sn_pages s = pages" using rest r by (auto simp: finish_walk_def bnd_Inr_iff ret_iff)
  with walk_chain_bound [OF w [unfolded r]] show ?thesis by simp
qed

theorem partial_snapshot_tombstones_nothing_witness:
  "\<exists>s d'. run_chain_snapshot (serve demo_chain) ''r2'' ''ops'' (Some 0) None ([], one_post_db) = (Inr s, [], d') \<and>
     live_id ''p1'' d'"
proof -
  obtain m where m: "MAX_ITERS = Suc m" by (simp add: MAX_ITERS_def)
  have "\<exists>s d'. run_chain_snapshot (serve demo_chain) ''r2'' ''ops'' (Some 0) None
      ([], one_post_db) = (Inr s, [], d') \<and> \<not> sn_completed s"
    by (simp add: run_chain_snapshot_def run_simps as_text_def insert_snapshot_run_def m walk_cancelled_def
        finish_walk_def finish_snapshot_run_def one_post_db_def empty_db_def has_key_code)
  moreover have "live_id ''p1'' one_post_db" by (simp add: live_id_def one_post_db_def staged_post_def)
  ultimately show ?thesis using partial_snapshot_tombstones_nothing by blast
qed

end
