(* ===== verification/Mirror_Db.thy ===== *)
theory Mirror_Db
  imports Media_Schema
begin

text \<open>
  The database side of the mirror (\<open>db.rs\<close>): the index of the objects (\<open>video_index\<close>) and the status of
  each video on its way from Hetzner to Storj (\<open>mirror_jobs\<close>). One definition per function; each of the
  data-modifying \<open>WITH\<close> statements is one statement, so it happens as a whole. The trigger
  \<open>mirror_jobs_updated_at\<close> stamps every updated row.
\<close>

section \<open>Rows\<close>

record video_row =
  vw_video_id :: string
  vw_hetzner_key :: string

record cleanup_row =
  cw_video_id :: string
  cw_hetzner_key :: string
  cw_storj_key :: string

definition status_text :: "mirror_status \<Rightarrow> string" where
  "status_text s = (case s of MPending \<Rightarrow> ''pending'' | MPhashComputed \<Rightarrow> ''phash_computed''
     | MMirrored \<Rightarrow> ''mirrored'' | MFailed \<Rightarrow> ''failed'' | MDone \<Rightarrow> ''done'')"

definition index_row :: "int \<Rightarrow> string \<Rightarrow> string option \<Rightarrow> string option \<Rightarrow> video_index_row" where
  "index_row t v storj hetzner = \<lparr>vi_video_id = v, vi_storj_key = storj, vi_hetzner_key = hetzner,
     vi_phash = None, vi_phash_kind = None, vi_phash_version = None, vi_created_at = t\<rparr>"

definition touch :: "int \<Rightarrow> mirror_job \<Rightarrow> mirror_job" where
  "touch t j = j\<lparr>mj_updated_at := t\<rparr>"

definition update_jobs :: "(mirror_job \<Rightarrow> bool) \<Rightarrow> (mirror_job \<Rightarrow> mirror_job) \<Rightarrow> pgdb \<Rightarrow> pgdb" where
  "update_jobs P f d = d\<lparr>mirror_jobs := update_where P (\<lambda>j. touch (now_us d) (f j)) (mirror_jobs d)\<rparr>"

definition update_index :: "(video_index_row \<Rightarrow> bool) \<Rightarrow> (video_index_row \<Rightarrow> video_index_row) \<Rightarrow> pgdb \<Rightarrow> pgdb" where
  "update_index P f d = d\<lparr>video_index := update_where P f (video_index d)\<rparr>"

section \<open>Scanning\<close>

definition put_storj_key :: "string \<Rightarrow> string \<Rightarrow> pgdb \<Rightarrow> pgdb" where
  "put_storj_key v key d = d\<lparr>video_index := upsert vi_video_id (index_row (now_us d) v (Some key) None)
     (\<lambda>r. r\<lparr>vi_storj_key := Some key\<rparr>) (video_index d)\<rparr>"

definition upsert_storj_key :: "string \<Rightarrow> string \<Rightarrow> unit pg" where
  "upsert_storj_key v key = exec (put_storj_key v key)"

definition reset_failed :: "mirror_job \<Rightarrow> mirror_job" where
  "reset_failed j = (if mj_status j = MFailed
     then j\<lparr>mj_status := MPending, mj_retry_count := 0, mj_error_message := None\<rparr> else j)"

definition upsert_storj_key_with_reset :: "string \<Rightarrow> string \<Rightarrow> unit pg" where
  "upsert_storj_key_with_reset v key = exec (\<lambda>d.
     update_jobs (\<lambda>j. mj_video_id j = v) reset_failed (put_storj_key v key d))"

definition put_hetzner_key :: "string \<Rightarrow> string \<Rightarrow> pgdb \<Rightarrow> pgdb" where
  "put_hetzner_key v key d = d\<lparr>video_index := upsert vi_video_id (index_row (now_us d) v None (Some key))
     (\<lambda>r. r\<lparr>vi_hetzner_key := Some key\<rparr>) (video_index d)\<rparr>"

text \<open>The status the statement inserts: \<open>RETURNING phash\<close> of the index row.\<close>

definition entry_status :: "string \<Rightarrow> pgdb \<Rightarrow> mirror_status" where
  "entry_status v d = (case row_of vi_video_id v (video_index d) of
       Some r \<Rightarrow> if vi_phash r \<noteq> None then MPhashComputed else MPending
     | None \<Rightarrow> MPending)"

definition put_mirror_job :: "string \<Rightarrow> bool \<Rightarrow> (mirror_status \<Rightarrow> mirror_job \<Rightarrow> mirror_job) \<Rightarrow> pgdb \<Rightarrow> pgdb" where
  "put_mirror_job v is_temp f d = (let st = entry_status v d in
     d\<lparr>mirror_jobs := upsert mj_video_id
        \<lparr>mj_video_id = v, mj_is_temp = is_temp, mj_retry_count = 0, mj_status = st,
          mj_error_message = None, mj_updated_at = now_us d\<rparr>
        (\<lambda>j. touch (now_us d) (f st j)) (mirror_jobs d)\<rparr>)"

definition upsert_hetzner_key :: "string \<Rightarrow> string \<Rightarrow> bool \<Rightarrow> unit pg" where
  "upsert_hetzner_key v key is_temp = exec (\<lambda>d. put_mirror_job v is_temp
     (\<lambda>st j. j\<lparr>mj_is_temp := is_temp,
               mj_status := (if mj_status j = MPending then st else mj_status j)\<rparr>)
     (put_hetzner_key v key d))"

definition upsert_hetzner_key_with_reset :: "string \<Rightarrow> string \<Rightarrow> bool \<Rightarrow> unit pg" where
  "upsert_hetzner_key_with_reset v key is_temp = exec (\<lambda>d. put_mirror_job v is_temp
     (\<lambda>st j. j\<lparr>mj_is_temp := is_temp,
               mj_status := (if mj_status j = MFailed \<or> mj_status j = MPending then st else mj_status j),
               mj_retry_count := (if mj_status j = MFailed then 0 else mj_retry_count j),
               mj_error_message := (if mj_status j = MFailed then None else mj_error_message j)\<rparr>)
     (put_hetzner_key v key d))"

text \<open>\<open>LIKE\<close>: the percent sign stands for any text, the underscore for any character, a backslash quotes
  the next character. The prefix goes into the pattern as it is, so its own signs count as well.\<close>

fun like_match :: "string \<Rightarrow> string \<Rightarrow> bool" where
  "like_match [] s = (s = [])"
| "like_match (c # p) s =
     (if c = CHR ''%'' then like_match p s \<or> (case s of [] \<Rightarrow> False | _ # t \<Rightarrow> like_match (c # p) t)
      else if c = CHR ''_'' then (case s of [] \<Rightarrow> False | _ # t \<Rightarrow> like_match p t)
      else if c = CHR 0x5C then (case p of [] \<Rightarrow> False | q # p' \<Rightarrow>
             (case s of [] \<Rightarrow> False | x # t \<Rightarrow> x = q \<and> like_match p' t))
      else (case s of [] \<Rightarrow> False | x # t \<Rightarrow> x = c \<and> like_match p t))"

definition max_key :: "string option \<Rightarrow> string list \<Rightarrow> string option" where
  "max_key prefix keys = (let ks = (case prefix of None \<Rightarrow> keys
       | Some p \<Rightarrow> filter (like_match (p @ ''%'')) keys)
     in if ks = [] then None else Some (foldr max ks []))"

definition get_max_storj_key :: "string option \<Rightarrow> string option pg" where
  "get_max_storj_key prefix = query (\<lambda>d. max_key prefix (List.map_filter vi_storj_key (video_index d)))"

definition get_max_hetzner_key :: "string option \<Rightarrow> string option pg" where
  "get_max_hetzner_key prefix = query (\<lambda>d. max_key prefix (List.map_filter vi_hetzner_key (video_index d)))"

section \<open>Hashing\<close>

text \<open>The joins go over the jobs in table order, each with its index row.\<close>

definition joined :: "pgdb \<Rightarrow> (mirror_job \<times> video_index_row) list" where
  "joined d = List.map_filter (\<lambda>j. map_option (Pair j) (row_of vi_video_id (mj_video_id j) (video_index d)))
     (mirror_jobs d)"

definition phash_candidates :: "pgdb \<Rightarrow> video_row list" where
  "phash_candidates d = List.map_filter (\<lambda>(j, r).
     if mj_status j = MPending \<and> vi_phash r = None
     then map_option (\<lambda>k. \<lparr>vw_video_id = vi_video_id r, vw_hetzner_key = k\<rparr>) (vi_hetzner_key r) else None) (joined d)"

definition negative_limit :: pg_error where
  "negative_limit = PgError ''LIMIT must not be negative''"

definition fetch_pending_phash_batch :: "int \<Rightarrow> video_row list pg" where
  "fetch_pending_phash_batch lim = stmt (\<lambda>d.
     if lim < 0 then Inl negative_limit else Inr (limit_rows lim (phash_candidates d), d))"

definition update_phash_success :: "string \<Rightarrow> string \<Rightarrow> string \<Rightarrow> string \<Rightarrow> unit pg" where
  "update_phash_success v hash kind ver = exec (\<lambda>d.
     update_jobs (\<lambda>j. mj_video_id j = v \<and> mj_status j = MPending)
       (\<lambda>j. j\<lparr>mj_status := MPhashComputed, mj_error_message := None\<rparr>)
     (update_index (\<lambda>r. vi_video_id r = v)
       (\<lambda>r. r\<lparr>vi_phash := Some hash, vi_phash_kind := Some kind, vi_phash_version := Some ver\<rparr>) d))"

definition no_row_error :: pg_error where
  "no_row_error = PgError ''query returned an unexpected number of rows''"

definition fail_once :: "string \<Rightarrow> int \<Rightarrow> mirror_job \<Rightarrow> mirror_job" where
  "fail_once err max_retries j = j\<lparr>mj_retry_count := mj_retry_count j + 1,
     mj_status := (if mj_retry_count j + 1 \<ge> max_retries then MFailed else MPending),
     mj_error_message := Some err\<rparr>"

definition update_phash_failure :: "string \<Rightarrow> string \<Rightarrow> int \<Rightarrow> int pg" where
  "update_phash_failure v err max_retries = stmt (\<lambda>d.
     case row_of mj_video_id v (mirror_jobs d) of
       None \<Rightarrow> Inl no_row_error
     | Some j \<Rightarrow> Inr (mj_retry_count j + 1,
         update_jobs (\<lambda>j. mj_video_id j = v) (fail_once err max_retries) d))"

section \<open>Mirroring and clean-up\<close>

definition mirror_candidates :: "pgdb \<Rightarrow> video_row list" where
  "mirror_candidates d = List.map_filter (\<lambda>(j, r).
     if mj_status j = MPhashComputed \<and> \<not> mj_is_temp j \<and> vi_storj_key r = None
     then map_option (\<lambda>k. \<lparr>vw_video_id = vi_video_id r, vw_hetzner_key = k\<rparr>) (vi_hetzner_key r) else None) (joined d)"

definition fetch_pending_mirror_batch :: "int \<Rightarrow> video_row list pg" where
  "fetch_pending_mirror_batch lim = stmt (\<lambda>d.
     if lim < 0 then Inl negative_limit else Inr (limit_rows lim (mirror_candidates d), d))"

definition update_mirror_success :: "string \<Rightarrow> string \<Rightarrow> unit pg" where
  "update_mirror_success v key = exec (\<lambda>d.
     update_jobs (\<lambda>j. mj_video_id j = v \<and> mj_status j = MPhashComputed)
       (\<lambda>j. j\<lparr>mj_status := MMirrored, mj_error_message := None\<rparr>)
     (update_index (\<lambda>r. vi_video_id r = v) (\<lambda>r. r\<lparr>vi_storj_key := Some key\<rparr>) d))"

definition update_error :: "string \<Rightarrow> string \<Rightarrow> unit pg" where
  "update_error v err = exec (update_jobs (\<lambda>j. mj_video_id j = v) (\<lambda>j. j\<lparr>mj_error_message := Some err\<rparr>))"

definition fetch_pending_cleanup_batch :: "int \<Rightarrow> cleanup_row list pg" where
  "fetch_pending_cleanup_batch lim = stmt (\<lambda>d.
     if lim < 0 then Inl negative_limit
     else Inr (limit_rows lim (List.map_filter (\<lambda>(j, r).
       case (vi_hetzner_key r, vi_storj_key r) of
         (Some h, Some s) \<Rightarrow> if mj_is_temp j \<and> mj_status j = MMirrored
           then Some \<lparr>cw_video_id = vi_video_id r, cw_hetzner_key = h, cw_storj_key = s\<rparr> else None
       | _ \<Rightarrow> None) (joined d)), d))"

definition update_cleanup_done :: "string \<Rightarrow> unit pg" where
  "update_cleanup_done v = exec (\<lambda>d.
     update_jobs (\<lambda>j. mj_video_id j = v)
       (\<lambda>j. j\<lparr>mj_is_temp := False, mj_status := MDone, mj_error_message := None\<rparr>)
     (update_index (\<lambda>r. vi_video_id r = v) (\<lambda>r. r\<lparr>vi_hetzner_key := None\<rparr>) d))"

section \<open>Audit and duplicates\<close>

record audit_stats =
  as_total :: int
  as_phash_computed :: int
  as_mirrored :: int
  as_missing_storj :: int
  as_missing_hetzner :: int
  as_cleanup_pending :: int
  as_failed :: int
  as_error_count :: int
  as_status_breakdown :: "(string \<times> int) list"

definition job_of :: "pgdb \<Rightarrow> video_index_row \<Rightarrow> mirror_job option" where
  "job_of d r = row_of mj_video_id (vi_video_id r) (mirror_jobs d)"

definition job_is :: "(mirror_job \<Rightarrow> bool) \<Rightarrow> mirror_job option \<Rightarrow> bool" where
  "job_is P jo = (case jo of None \<Rightarrow> False | Some j \<Rightarrow> P j)"

definition breakdown_label :: "mirror_job option \<Rightarrow> string" where
  "breakdown_label jo = (case jo of None \<Rightarrow> ''no_mirror_job'' | Some j \<Rightarrow> status_text (mj_status j))"

definition audit_counts :: "pgdb \<Rightarrow> audit_stats" where
  "audit_counts d = (let vi = video_index d; c = (\<lambda>P. count_where (\<lambda>r. P r (job_of d r)) vi) in
     \<lparr>as_total = int (length vi),
       as_phash_computed = c (\<lambda>r j. vi_phash r \<noteq> None),
       as_mirrored = c (\<lambda>r. job_is (\<lambda>j. mj_status j = MMirrored \<or> mj_status j = MDone)),
       as_missing_storj = c (\<lambda>r. job_is (\<lambda>j. vi_storj_key r = None \<and> \<not> mj_is_temp j)),
       as_missing_hetzner = c (\<lambda>r. job_is (\<lambda>j. vi_hetzner_key r = None \<and> \<not> mj_is_temp j \<and> mj_status j \<noteq> MDone)),
       as_cleanup_pending = c (\<lambda>r. job_is (\<lambda>j. mj_is_temp j \<and> mj_status j = MMirrored)),
       as_failed = c (\<lambda>r. job_is (\<lambda>j. mj_status j = MFailed)),
       as_error_count = c (\<lambda>r. job_is (\<lambda>j. mj_error_message j \<noteq> None)),
       as_status_breakdown = []\<rparr>)"

definition status_counts :: "pgdb \<Rightarrow> (string \<times> int) list" where
  "status_counts d = (let labels = map (\<lambda>r. breakdown_label (job_of d r)) (video_index d) in
     map (\<lambda>l. (l, int (count_list labels l))) (remdups labels))"

definition get_audit_stats :: "audit_stats pg" where
  "get_audit_stats = bnd (query audit_counts) (\<lambda>s.
     bnd (query status_counts) (\<lambda>b. ret (s\<lparr>as_status_breakdown := b\<rparr>)))"

definition get_failed_jobs :: "(string \<times> string option) list pg" where
  "get_failed_jobs = query (\<lambda>d. map (\<lambda>j. (mj_video_id j, mj_error_message j))
     (sort_key mj_video_id (filter (\<lambda>j. mj_status j = MFailed) (mirror_jobs d))))"

definition reset_failed_to_retry :: "int pg" where
  "reset_failed_to_retry = stmt (\<lambda>d. Inr (count_where (\<lambda>j. mj_status j = MFailed) (mirror_jobs d),
     update_jobs (\<lambda>j. mj_status j = MFailed)
       (\<lambda>j. j\<lparr>mj_status := MPhashComputed, mj_retry_count := 0, mj_error_message := None\<rparr>) d))"

type_synonym duplicate_video = "string \<times> string option \<times> string option"

record duplicate_phash =
  dp_phash :: string
  dp_hash_kind :: string
  dp_hash_version :: string
  dp_videos :: "duplicate_video list"

definition versioned_phash :: "video_index_row \<Rightarrow> (string \<times> string \<times> string) option" where
  "versioned_phash r = (case (vi_phash r, vi_phash_kind r, vi_phash_version r) of
     (Some h, Some k, Some v) \<Rightarrow> Some (h, k, v) | _ \<Rightarrow> None)"

definition duplicates_of :: "pgdb \<Rightarrow> string \<times> string \<times> string \<Rightarrow> duplicate_phash" where
  "duplicates_of d key = \<lparr>dp_phash = fst key, dp_hash_kind = fst (snd key), dp_hash_version = snd (snd key),
     dp_videos = map (\<lambda>r. (vi_video_id r, vi_storj_key r, vi_hetzner_key r))
       (sort_key vi_video_id (filter (\<lambda>r. versioned_phash r = Some key) (video_index d)))\<rparr>"

definition get_duplicates_for_video :: "string \<Rightarrow> duplicate_phash option pg" where
  "get_duplicates_for_video v = query (\<lambda>d.
     case Option.bind (row_of vi_video_id v (video_index d)) versioned_phash of
       None \<Rightarrow> None
     | Some key \<Rightarrow> (let g = duplicates_of d key in
         if length (dp_videos g) \<le> 1 then None else Some g))"

definition get_duplicate_phashes :: "duplicate_phash list pg" where
  "get_duplicate_phashes = query (\<lambda>d.
     take 100 (sort_key (\<lambda>g. - int (length (dp_videos g)))
       (filter (\<lambda>g. length (dp_videos g) > 1)
         (map (duplicates_of d) (remdups (List.map_filter versioned_phash (video_index d)))))))"

section \<open>Integrity\<close>

lemma vi_id_index_row [simp]: "vi_video_id (index_row t v s h) = v"
  by (simp add: index_row_def)

lemma touch_simps [simp]:
  "mj_video_id (touch t j) = mj_video_id j" "mj_status (touch t j) = mj_status j"
  "mj_is_temp (touch t j) = mj_is_temp j" "mj_retry_count (touch t j) = mj_retry_count j"
  "mj_error_message (touch t j) = mj_error_message j"
  by (simp_all add: touch_def)

lemma update_frames [simp]:
  "video_index (update_jobs P f d) = video_index d" "mirror_jobs (update_index Q g d) = mirror_jobs d"
  "now_us (update_index Q g d) = now_us d" "now_us (update_jobs P f d) = now_us d"
  "feed_seq (update_jobs P f d) = feed_seq d" "request_seq (update_jobs P f d) = request_seq d"
  "feed_seq (update_index Q g d) = feed_seq d" "request_seq (update_index Q g d) = request_seq d"
  by (simp_all add: update_jobs_def update_index_def)

lemma db_ok_update_jobs:
  "(\<And>j. mj_video_id (f j) = mj_video_id j) \<Longrightarrow> db_ok d \<Longrightarrow> db_ok (update_jobs P f d)"
  by (auto simp: db_ok_defs update_jobs_def set_update_where intro!: uniq_update_where)

lemma db_ok_update_index:
  "(\<And>r. vi_video_id (g r) = vi_video_id r) \<Longrightarrow> db_ok d \<Longrightarrow> db_ok (update_index Q g d)"
  by (auto simp: db_ok_defs update_index_def intro!: uniq_update_where)

lemma put_frames [simp]:
  "feed_seq (put_storj_key v k d) = feed_seq d" "request_seq (put_storj_key v k d) = request_seq d"
  "feed_seq (put_hetzner_key v k d) = feed_seq d" "request_seq (put_hetzner_key v k d) = request_seq d"
  "feed_seq (put_mirror_job v t f d) = feed_seq d" "request_seq (put_mirror_job v t f d) = request_seq d"
  "mirror_jobs (put_hetzner_key v k d) = mirror_jobs d" "mirror_jobs (put_storj_key v k d) = mirror_jobs d"
  "video_index (put_mirror_job v t f d) = video_index d"
  "now_us (put_hetzner_key v k d) = now_us d" "now_us (put_storj_key v k d) = now_us d"
  by (simp_all add: put_storj_key_def put_hetzner_key_def put_mirror_job_def Let_def)

lemma db_ok_put_storj_key: "db_ok d \<Longrightarrow> db_ok (put_storj_key v k d)"
  by (auto simp: db_ok_defs put_storj_key_def intro!: uniq_upsert)

lemma db_ok_put_hetzner_key: "db_ok d \<Longrightarrow> db_ok (put_hetzner_key v k d)"
  by (auto simp: db_ok_defs put_hetzner_key_def intro!: uniq_upsert)

lemma has_put_hetzner_key: "has_key vi_video_id v (video_index (put_hetzner_key v k d))"
  by (simp add: put_hetzner_key_def)

lemma db_ok_put_mirror_job:
  assumes "db_ok d" and "has_key vi_video_id v (video_index d)" and "\<And>st j. mj_video_id (f st j) = mj_video_id j"
  shows "db_ok (put_mirror_job v t f d)"
proof -
  have "uniq mj_video_id (mirror_jobs (put_mirror_job v t f d))"
    unfolding put_mirror_job_def Let_def using assms by (auto simp: db_ok_defs intro!: uniq_upsert)
  moreover have "has_key vi_video_id (mj_video_id j) (video_index d)"
    if "j \<in> set (mirror_jobs (put_mirror_job v t f d))" for j
    using that assms by (auto simp: put_mirror_job_def Let_def db_ok_defs dest!: set_upsert)
  ultimately show ?thesis using assms(1) by (simp add: db_ok_defs put_mirror_job_def Let_def)
qed

lemma reset_failed_id [simp]: "mj_video_id (reset_failed j) = mj_video_id j"
  by (simp add: reset_failed_def)

lemma fail_once_id [simp]: "mj_video_id (fail_once e m j) = mj_video_id j"
  by (simp add: fail_once_def)

lemmas db_ok_mirror = db_ok_put_mirror_job db_ok_put_hetzner_key db_ok_put_storj_key
  db_ok_update_jobs db_ok_update_index has_put_hetzner_key

lemma safe_mirror_db [safe_intros]:
  "safe (upsert_storj_key v k)" "safe (upsert_storj_key_with_reset v k)"
  "safe (upsert_hetzner_key v k t)" "safe (upsert_hetzner_key_with_reset v k t)"
  "safe (update_phash_success v h kd vr)" "safe (update_mirror_success v k)" "safe (update_error v e)"
  "safe (update_cleanup_done v)"
  unfolding upsert_storj_key_def upsert_storj_key_with_reset_def upsert_hetzner_key_def
    upsert_hetzner_key_with_reset_def update_phash_success_def update_mirror_success_def update_error_def
    update_cleanup_done_def
  by (rule safe_exec; simp add: db_ok_mirror)+

lemma safe_mirror_stmts [safe_intros]:
  "safe (update_phash_failure v e m)" "safe reset_failed_to_retry"
  "safe (fetch_pending_phash_batch l)" "safe (fetch_pending_mirror_batch l)" "safe (fetch_pending_cleanup_batch l)"
  unfolding update_phash_failure_def reset_failed_to_retry_def fetch_pending_phash_batch_def
    fetch_pending_mirror_batch_def fetch_pending_cleanup_batch_def
  by (rule safe_stmt; auto simp: db_ok_mirror split: option.splits if_splits)+

lemma safe_mirror_queries [safe_intros]:
  "safe (get_max_storj_key p)" "safe (get_max_hetzner_key p)" "safe get_audit_stats" "safe get_failed_jobs"
  "safe (get_duplicates_for_video v)" "safe get_duplicate_phashes"
  unfolding get_max_storj_key_def get_max_hetzner_key_def get_audit_stats_def get_failed_jobs_def
    get_duplicates_for_video_def get_duplicate_phashes_def
  by (intro safe_intros)+

end
