(* ===== verification/Mirror_Jobs.thy ===== *)
theory Mirror_Jobs
  imports Mirror_Db PHash_Job
begin

text \<open>
  The four jobs of the mirror and the key functions they share: \<open>jobs/mod.rs\<close>, \<open>scan_storj.rs\<close>,
  \<open>scan_hetzner.rs\<close>, \<open>phash_backfill.rs\<close> and \<open>mirror.rs\<close>. The bucket listings, the object stores, the
  hasher and the \<open>uplink\<close> program are parameters, which may answer differently in every round of a
  loop. The first statement of a job stands for its connection to the database.
\<close>

section \<open>Keys and the uplink program\<close>

definition video_id_from_key :: "string \<Rightarrow> string option" where
  "video_id_from_key key = strip_suffix ''.mp4'' key"

definition thumb_key_from_mp4_key :: "string \<Rightarrow> string option" where
  "thumb_key_from_mp4_key key = map_option (\<lambda>stem. stem @ ''-thumbnail.png'') (strip_suffix ''.mp4'' key)"

datatype process_outcome = SpawnFailed | Exited bool string

type_synonym program = "string list \<Rightarrow> process_outcome"

definition uplink_rm :: "program \<Rightarrow> string \<Rightarrow> string \<Rightarrow> string + unit" where
  "uplink_rm run storj_url access_grant = (case run
       [''rm'', ''--interactive=false'', ''--analytics=false'', ''--access'', access_grant, storj_url] of
     SpawnFailed \<Rightarrow> Inl ''failed to spawn uplink''
   | Exited ok stderr \<Rightarrow> if ok then Inr () else Inl (''uplink rm '' @ storj_url @ '' failed: '' @ stderr))"

definition uplink_cp :: "program \<Rightarrow> string \<Rightarrow> string \<Rightarrow> string \<Rightarrow> string + unit" where
  "uplink_cp run src dst access_grant = (case run
       [''cp'', ''--interactive=false'', ''--analytics=false'', ''--progress=false'', ''--access'',
        access_grant, src, dst] of
     SpawnFailed \<Rightarrow> Inl ''failed to spawn uplink''
   | Exited ok stderr \<Rightarrow> if ok then Inr () else Inl (''uplink cp to '' @ dst @ '' failed: '' @ stderr))"

section \<open>The scans\<close>

type_synonym listing = "string option \<Rightarrow> string option \<Rightarrow> string + string list"

type_synonym 'a job = "(pgdb, string, 'a) proc"

definition reached :: "nat option \<Rightarrow> nat \<Rightarrow> bool" where
  "reached lim n \<longleftrightarrow> (case lim of None \<Rightarrow> False | Some l \<Rightarrow> l \<le> n)"

text \<open>The loop over the listed keys: the rows to index are written one by one, up to the limit.\<close>

fun scan_keys :: "(string \<Rightarrow> string option) \<Rightarrow> (string \<Rightarrow> string \<Rightarrow> unit job) \<Rightarrow> nat option \<Rightarrow> string list \<Rightarrow> nat \<Rightarrow> nat job" where
  "scan_keys video_of put lim [] n = ret n"
| "scan_keys video_of put lim (key # keys) n = (case video_of key of
       None \<Rightarrow> scan_keys video_of put lim keys n
     | Some v \<Rightarrow> bnd (put v key) (\<lambda>_.
         if reached lim (n + 1) then ret (n + 1) else scan_keys video_of put lim keys (n + 1)))"

definition scan_run :: "string \<Rightarrow> (string option \<Rightarrow> string option pg) \<Rightarrow> (string \<Rightarrow> string option) \<Rightarrow>
    (string \<Rightarrow> string \<Rightarrow> unit job) \<Rightarrow> listing \<Rightarrow> bool \<Rightarrow> nat option \<Rightarrow> string option \<Rightarrow> bool \<Rightarrow> nat job" where
  "scan_run store max_of video_of put ls cancelled lim prefix full_scan =
     bnd (map_err error_text (exec id)) (\<lambda>_.
     if cancelled then ret 0
     else bnd (if full_scan then ret None else map_err error_text (max_of prefix)) (\<lambda>start_after.
       case ls prefix start_after of
         Inl e \<Rightarrow> raise (store @ '' list failed: '' @ e)
       | Inr keys \<Rightarrow> scan_keys video_of put lim keys 0))"

definition put_error :: "bool \<Rightarrow> string \<Rightarrow> pg_error \<Rightarrow> string" where
  "put_error reset key e = (if reset then ''DB upsert with reset failed for '' else ''DB upsert failed for '') @
     key @ '': '' @ error_text e"

definition scan_storj :: "listing \<Rightarrow> bool \<Rightarrow> nat option \<Rightarrow> string option \<Rightarrow> bool \<Rightarrow> nat job" where
  "scan_storj ls cancelled lim prefix full_scan = scan_run ''Storj'' get_max_storj_key video_id_from_key
     (\<lambda>v key. map_err (put_error full_scan key)
        (if full_scan then upsert_storj_key_with_reset v key else upsert_storj_key v key))
     ls cancelled lim prefix full_scan"

definition hetzner_video :: "string \<Rightarrow> string option" where
  "hetzner_video key = (if ends_with key ''_thumbnail.png'' \<or> ends_with key ''-thumbnail.png'' then None
     else video_id_from_key key)"

definition scan_hetzner :: "string \<Rightarrow> listing \<Rightarrow> bool \<Rightarrow> nat option \<Rightarrow> string option \<Rightarrow> bool \<Rightarrow> nat job" where
  "scan_hetzner temp_prefix ls cancelled lim prefix full_scan = scan_run ''Hetzner'' get_max_hetzner_key hetzner_video
     (\<lambda>v key. map_err (put_error full_scan key)
        (if full_scan then upsert_hetzner_key_with_reset v key (contains key temp_prefix)
         else upsert_hetzner_key v key (contains key temp_prefix)))
     ls cancelled lim prefix full_scan"

section \<open>Hashing what is pending\<close>

definition backfill_hash :: "'f media_env \<Rightarrow> video_row \<Rightarrow> string + video_hash_result" where
  "backfill_hash env row = (case env_tempfile env (vw_video_id row) of
       Some e \<Rightarrow> Inl (''tempfile: '' @ e)
     | None \<Rightarrow> (case env_hetzner env (vw_hetzner_key row) of
         Inl e \<Rightarrow> Inl (''download '' @ vw_hetzner_key row @ '': '' @ e)
       | Inr f \<Rightarrow> (case env_phash env f of
           Panicked e \<Rightarrow> Inl (''spawn_blocking panic: '' @ e)
         | Finished (Inl e) \<Rightarrow> Inl (''phash: '' @ e)
         | Finished (Inr v) \<Rightarrow> Inr v)))"

fun write_hashes :: "int \<Rightarrow> nat option \<Rightarrow> (string \<times> (string + video_hash_result)) list \<Rightarrow> nat \<Rightarrow> (nat \<times> bool) job" where
  "write_hashes max_retries lim [] n = ret (n, False)"
| "write_hashes max_retries lim ((v, r) # rs) n =
     bnd (map_err error_text (case r of
         Inr h \<Rightarrow> update_phash_success v (vh_hash h) HASH_KIND HASH_VERSION
       | Inl e \<Rightarrow> bnd (update_phash_failure v e max_retries) (\<lambda>_. ret ()))) (\<lambda>_.
     if reached lim (n + 1) then ret (n + 1, True) else write_hashes max_retries lim rs (n + 1))"

record 'f backfill_config =
  bc_env :: "nat \<Rightarrow> 'f media_env"
  bc_order :: "(string \<times> (string + video_hash_result)) list \<Rightarrow> (string \<times> (string + video_hash_result)) list"
  bc_cancel :: "nat option"
  bc_limit :: "nat option"
  bc_page_size :: int
  bc_max_retries :: int

text \<open>The loop with fuel, counting its rounds; the token is polled once a round. The result is the number
  of videos handled.\<close>

fun backfill_loop :: "'f backfill_config \<Rightarrow> nat \<Rightarrow> nat \<Rightarrow> nat \<Rightarrow> nat option job" where
  "backfill_loop c 0 round n = ret None"
| "backfill_loop c (Suc fuel) round n =
     (if is_cancelled (bc_cancel c) round then ret (Some n)
      else bnd (map_err error_text (fetch_pending_phash_batch (bc_page_size c))) (\<lambda>rows.
        if rows = [] then ret (Some n)
        else bnd (write_hashes (bc_max_retries c) (bc_limit c)
                   (completed (bc_order c) (map (\<lambda>row. (vw_video_id row, backfill_hash (bc_env c round) row)) rows)) n)
          (\<lambda>(n', stop). if stop then ret (Some n') else backfill_loop c fuel (round + 1) n')))"

definition backfill_run :: "'f backfill_config \<Rightarrow> nat \<Rightarrow> nat option job" where
  "backfill_run c fuel = bnd (map_err error_text (exec id)) (\<lambda>_. backfill_loop c fuel 0 0)"

section \<open>Copying to Storj\<close>

text \<open>What one copy meets: temporary files, Hetzner, and \<open>uplink\<close> (the path of a temporary file is a
  function of what was downloaded into it).\<close>

record mirror_env =
  me_tempfile :: "string \<Rightarrow> string option"
  me_download :: "string \<Rightarrow> string + string"
  me_exists :: "string \<Rightarrow> string + bool"
  me_uplink :: program

definition copy_object :: "mirror_env \<Rightarrow> string \<Rightarrow> string \<Rightarrow> string \<Rightarrow> string \<Rightarrow> string + unit" where
  "copy_object env what key bucket access_grant = (case me_tempfile env key of
       Some e \<Rightarrow> Inl e
     | None \<Rightarrow> (case me_download env key of
         Inl e \<Rightarrow> Inl (''download '' @ what @ '' '' @ key @ '': '' @ e)
       | Inr path \<Rightarrow> uplink_cp (me_uplink env) path (''sj://'' @ bucket @ ''/'' @ key) access_grant))"

definition mirror_one :: "mirror_env \<Rightarrow> string \<Rightarrow> string \<Rightarrow> string \<Rightarrow> string + unit" where
  "mirror_one env hetzner_key bucket access_grant = (case copy_object env ''mp4'' hetzner_key bucket access_grant of
       Inl e \<Rightarrow> Inl e
     | Inr _ \<Rightarrow> (case thumb_key_from_mp4_key hetzner_key of
         None \<Rightarrow> Inr ()
       | Some thumb_key \<Rightarrow> (case me_exists env thumb_key of
           Inl e \<Rightarrow> Inl (''S3 check for thumbnail '' @ thumb_key @ '': '' @ e)
         | Inr False \<Rightarrow> Inr ()
         | Inr True \<Rightarrow> copy_object env ''thumb'' thumb_key bucket access_grant)))"

fun write_mirrors :: "nat option \<Rightarrow> (video_row \<times> (string + unit)) list \<Rightarrow> nat \<Rightarrow> (nat \<times> bool) job" where
  "write_mirrors lim [] n = ret (n, False)"
| "write_mirrors lim ((row, r) # rs) n =
     bnd (map_err error_text (case r of
         Inr _ \<Rightarrow> update_mirror_success (vw_video_id row) (vw_hetzner_key row)
       | Inl e \<Rightarrow> update_error (vw_video_id row) e)) (\<lambda>_.
     if reached lim (n + 1) then ret (n + 1, True) else write_mirrors lim rs (n + 1))"

record mirror_config =
  mc_env :: "nat \<Rightarrow> mirror_env"
  mc_order :: "(video_row \<times> (string + unit)) list \<Rightarrow> (video_row \<times> (string + unit)) list"
  mc_cancel :: "nat option"
  mc_limit :: "nat option"
  mc_page_size :: int
  mc_bucket :: string
  mc_grant :: string

definition copy_row :: "mirror_config \<Rightarrow> nat \<Rightarrow> video_row \<Rightarrow> string + unit" where
  "copy_row c round row = mirror_one (mc_env c round) (vw_hetzner_key row) (mc_bucket c) (mc_grant c)"

fun mirror_loop :: "mirror_config \<Rightarrow> nat \<Rightarrow> nat \<Rightarrow> nat \<Rightarrow> nat option job" where
  "mirror_loop c 0 round n = ret None"
| "mirror_loop c (Suc fuel) round n =
     (if is_cancelled (mc_cancel c) round then ret (Some n)
      else bnd (map_err error_text (fetch_pending_mirror_batch (mc_page_size c))) (\<lambda>rows.
        if rows = [] then ret (Some n)
        else bnd (write_mirrors (mc_limit c)
                   (completed (mc_order c) (map (\<lambda>row. (row, copy_row c round row)) rows)) n)
          (\<lambda>(n', stop). if stop then ret (Some n') else mirror_loop c fuel (round + 1) n')))"

definition mirror_run :: "mirror_config \<Rightarrow> nat \<Rightarrow> nat option job" where
  "mirror_run c fuel = bnd (map_err error_text (exec id)) (\<lambda>_. mirror_loop c fuel 0 0)"

section \<open>Integrity under faults\<close>

lemma safe_scan_keys [safe_intros]:
  "(\<And>v k. safe (put v k)) \<Longrightarrow> safe (scan_keys video_of put lim keys n)"
  by (induction keys arbitrary: n) (auto intro!: safe_intros split: option.split)

lemma safe_scan_run [safe_intros]:
  "(\<And>v k. safe (put v k)) \<Longrightarrow> (\<And>p. safe (max_of p)) \<Longrightarrow>
   safe (scan_run store max_of video_of put ls cancelled lim prefix full_scan)"
  unfolding scan_run_def
  by (auto intro!: safe_intros safe_exec split: sum.split)

lemma safe_scans [safe_intros]:
  "safe (scan_storj ls cancelled lim prefix full_scan)"
  "safe (scan_hetzner temp ls cancelled lim prefix full_scan)"
  unfolding scan_storj_def scan_hetzner_def by (intro safe_intros)+

lemma safe_write_hashes [safe_intros]: "safe (write_hashes m lim rs n)"
  by (induction rs arbitrary: n) (auto intro!: safe_intros split: sum.split)

lemma safe_backfill_loop [safe_intros]: "safe (backfill_loop c fuel round n)"
  by (induction fuel arbitrary: round n) (auto intro!: safe_intros)

lemma safe_write_mirrors [safe_intros]: "safe (write_mirrors lim rs n)"
  by (induction rs arbitrary: n) (auto intro!: safe_intros split: sum.split)

lemma safe_mirror_loop [safe_intros]: "safe (mirror_loop c fuel round n)"
  by (induction fuel arbitrary: round n) (auto intro!: safe_intros)

end
