(* ===== verification/Mirror_Props.thy ===== *)
theory Mirror_Props
  imports Mirror_Jobs
begin

text \<open>
  What the mirror's loops promise: the hashing loop ends and settles every pending video, however the
  attempts go; the copying loop ends when the copies succeed and does not when one always fails; a
  full scan indexes every video and never moves a video backwards.
\<close>

section \<open>Jobs with their index rows\<close>

definition pending_row :: "pgdb \<Rightarrow> string \<Rightarrow> bool" where
  "pending_row d v \<longleftrightarrow> (\<exists>j r. row_of mj_video_id v (mirror_jobs d) = Some j \<and>
     row_of vi_video_id v (video_index d) = Some r \<and> mj_status j = MPending \<and>
     vi_phash r = None \<and> vi_hetzner_key r \<noteq> None)"

definition copyable_row :: "pgdb \<Rightarrow> string \<Rightarrow> string \<Rightarrow> bool" where
  "copyable_row d v k \<longleftrightarrow> (\<exists>j r. row_of mj_video_id v (mirror_jobs d) = Some j \<and>
     row_of vi_video_id v (video_index d) = Some r \<and> mj_status j = MPhashComputed \<and> \<not> mj_is_temp j \<and>
     vi_storj_key r = None \<and> vi_hetzner_key r = Some k)"

abbreviation jobs_uniq :: "pgdb \<Rightarrow> bool" where
  "jobs_uniq d \<equiv> uniq mj_video_id (mirror_jobs d)"

lemma set_map_filter [simp]: "set (List.map_filter f xs) = {y. \<exists>x \<in> set xs. f x = Some y}"
  by (force simp: List.map_filter_def image_iff)

lemma distinct_map_filter_key:
  assumes "distinct (map f xs)" and "\<And>x y. x \<in> set xs \<Longrightarrow> g x = Some y \<Longrightarrow> h y = f x"
  shows "distinct (map h (List.map_filter g xs))"
  using assms
proof (induction xs)
  case (Cons x xs)
  then have IH: "distinct (map h (List.map_filter g xs))" by simp
  show ?case
  proof (cases "g x")
    case (Some y)
    have "h z \<in> f ` set xs" if "z \<in> set (List.map_filter g xs)" for z
      using that Cons.prems(2) by auto
    then have "h y \<notin> h ` set (List.map_filter g xs)"
      using Cons.prems Some by (metis (no_types, lifting) distinct.simps(2) imageE image_eqI list.map(2) list.set_intros(1) set_map)
    with Some IH show ?thesis by (auto simp: List.map_filter_simps)
  qed (use IH in \<open>simp add: List.map_filter_simps\<close>)
qed (simp add: List.map_filter_simps)

lemma joined_iff:
  "(j, r) \<in> set (joined d) \<longleftrightarrow> j \<in> set (mirror_jobs d) \<and>
     row_of vi_video_id (mj_video_id j) (video_index d) = Some r"
  by (auto simp: joined_def)

lemma joined_distinct: "jobs_uniq d \<Longrightarrow> distinct (map (\<lambda>p. mj_video_id (fst p)) (joined d))"
  unfolding joined_def uniq_def by (erule distinct_map_filter_key) auto

lemma joined_id: "(j, r) \<in> set (joined d) \<Longrightarrow> vi_video_id r = mj_video_id j"
  by (auto simp: joined_iff dest: row_of_SomeD)

lemma pending_member:
  assumes "jobs_uniq d"
  shows "w \<in> set (phash_candidates d) \<longleftrightarrow> (\<exists>j r. (j, r) \<in> set (joined d) \<and> mj_status j = MPending \<and>
     vi_phash r = None \<and> vi_hetzner_key r = Some (vw_hetzner_key w) \<and> vw_video_id w = mj_video_id j)"
    (is "?l \<longleftrightarrow> ?r")
proof
  assume ?l
  then show ?r by (fastforce simp: phash_candidates_def dest: joined_id split: if_splits)
next
  assume ?r
  then obtain j r where "(j, r) \<in> set (joined d)" "mj_status j = MPending" "vi_phash r = None"
      "vi_hetzner_key r = Some (vw_hetzner_key w)" "vw_video_id w = mj_video_id j" by blast
  moreover from this have "w = \<lparr>vw_video_id = vi_video_id r, vw_hetzner_key = vw_hetzner_key w\<rparr>"
    using joined_id by (cases w) simp
  ultimately show ?l unfolding phash_candidates_def set_map_filter by force
qed

lemma copyable_member:
  assumes "jobs_uniq d"
  shows "w \<in> set (mirror_candidates d) \<longleftrightarrow> (\<exists>j r. (j, r) \<in> set (joined d) \<and> mj_status j = MPhashComputed \<and>
     \<not> mj_is_temp j \<and> vi_storj_key r = None \<and> vi_hetzner_key r = Some (vw_hetzner_key w) \<and>
     vw_video_id w = mj_video_id j)"
    (is "?l \<longleftrightarrow> ?r")
proof
  assume ?l
  then show ?r by (fastforce simp: mirror_candidates_def dest: joined_id split: if_splits)
next
  assume ?r
  then obtain j r where "(j, r) \<in> set (joined d)" "mj_status j = MPhashComputed" "\<not> mj_is_temp j"
      "vi_storj_key r = None" "vi_hetzner_key r = Some (vw_hetzner_key w)" "vw_video_id w = mj_video_id j" by blast
  moreover from this have "w = \<lparr>vw_video_id = vi_video_id r, vw_hetzner_key = vw_hetzner_key w\<rparr>"
    using joined_id by (cases w) simp
  ultimately show ?l unfolding mirror_candidates_def set_map_filter by force
qed

lemma pending_iff:
  assumes "jobs_uniq d"
  shows "v \<in> vw_video_id ` set (phash_candidates d) \<longleftrightarrow> pending_row d v"
proof
  assume "pending_row d v"
  then obtain j r k where "row_of mj_video_id v (mirror_jobs d) = Some j" "row_of vi_video_id v (video_index d) = Some r"
      "mj_status j = MPending" "vi_phash r = None" "vi_hetzner_key r = Some k"
    by (auto simp: pending_row_def)
  then have "\<lparr>vw_video_id = v, vw_hetzner_key = k\<rparr> \<in> set (phash_candidates d)"
    using assms by (auto simp: pending_member joined_iff row_of_Some_iff)
  then show "v \<in> vw_video_id ` set (phash_candidates d)" by force
qed (use assms in \<open>fastforce simp: pending_row_def pending_member joined_iff row_of_Some_iff\<close>)

lemma copyable_iff:
  "jobs_uniq d \<Longrightarrow> w \<in> set (mirror_candidates d) \<longleftrightarrow> copyable_row d (vw_video_id w) (vw_hetzner_key w)"
  by (auto simp: copyable_member copyable_row_def joined_iff row_of_Some_iff)

lemma pending_distinct: "jobs_uniq d \<Longrightarrow> distinct (map vw_video_id (phash_candidates d))"
  unfolding phash_candidates_def
  by (rule distinct_map_filter_key [OF joined_distinct]) (auto simp: joined_id split: if_splits)

lemma copyable_distinct: "jobs_uniq d \<Longrightarrow> distinct (map vw_video_id (mirror_candidates d))"
  unfolding mirror_candidates_def
  by (rule distinct_map_filter_key [OF joined_distinct]) (auto simp: joined_id split: if_splits)

section \<open>The hashing loop\<close>

definition job_weight :: "int \<Rightarrow> mirror_job \<Rightarrow> nat" where
  "job_weight m j = (if mj_status j = MPending then 1 + nat (m - mj_retry_count j) else 0)"

definition backfill_weight :: "int \<Rightarrow> pgdb \<Rightarrow> nat" where
  "backfill_weight m d = (\<Sum>j\<leftarrow>mirror_jobs d. job_weight m j)"

lemma sum_list_update:
  assumes "uniq key rows" and "row_of key v rows = Some j" and "P j" and "\<And>r. P r \<Longrightarrow> key r = v"
  shows "(\<Sum>r\<leftarrow>update_where P f rows. w r) + w j = (\<Sum>r\<leftarrow>rows. w r) + (w (f j) :: nat)"
  using assms(1,2)
proof (induction rows)
  case (Cons q rows)
  show ?case
  proof (cases "key q = v")
    case True
    with Cons.prems have q: "q = j" and no: "v \<notin> key ` set rows" by (auto simp: row_of_def uniq_def)
    have "update_where P f rows = rows"
      unfolding update_where_def by (rule map_idI) (use no assms(4) in auto)
    with q assms(3) show ?thesis by (simp add: update_where_def)
  next
    case False
    then have "\<not> P q" using assms(4) by blast
    with Cons False show ?thesis by (simp add: row_of_def uniq_def update_where_def)
  qed
qed (simp add: row_of_def)

definition hash_write :: "int \<Rightarrow> string \<times> (string + video_hash_result) \<Rightarrow> pgdb \<Rightarrow> pgdb" where
  "hash_write m vr d = (case vr of
     (v, Inr h) \<Rightarrow> db_after (update_phash_success v (vh_hash h) HASH_KIND HASH_VERSION) ([], d)
   | (v, Inl e) \<Rightarrow> db_after (update_phash_failure v e m) ([], d))"

definition hash_settled :: "int \<Rightarrow> pgdb \<Rightarrow> string \<Rightarrow> bool" where
  "hash_settled m d v \<longleftrightarrow> (\<exists>j r. row_of mj_video_id v (mirror_jobs d) = Some j \<and>
     row_of vi_video_id v (video_index d) = Some r \<and>
     (mj_status j = MPhashComputed \<and> vi_phash r \<noteq> None \<or>
      mj_status j = MFailed \<and> vi_phash r = None \<and> m \<le> mj_retry_count j))"

lemma hash_write_row:
  assumes "pending_row d v"
  shows "row_of mj_video_id w (mirror_jobs (hash_write m (v, r) d)) = (if w = v
      then map_option (\<lambda>j. touch (now_us d) (case r of
           Inr _ \<Rightarrow> j\<lparr>mj_status := MPhashComputed, mj_error_message := None\<rparr> | Inl e \<Rightarrow> fail_once e m j))
         (row_of mj_video_id v (mirror_jobs d))
      else row_of mj_video_id w (mirror_jobs d))"
    and "row_of vi_video_id w (video_index (hash_write m (v, r) d)) = (case r of
      Inr h \<Rightarrow> map_option (\<lambda>q. if w = v then q\<lparr>vi_phash := Some (vh_hash h), vi_phash_kind := Some HASH_KIND,
           vi_phash_version := Some HASH_VERSION\<rparr> else q) (row_of vi_video_id w (video_index d))
    | Inl _ \<Rightarrow> row_of vi_video_id w (video_index d))"
proof -
  obtain j q where j: "row_of mj_video_id v (mirror_jobs d) = Some j" "mj_status j = MPending"
    using assms by (auto simp: pending_row_def)
  then show "row_of mj_video_id w (mirror_jobs (hash_write m (v, r) d)) = (if w = v
      then map_option (\<lambda>j. touch (now_us d) (case r of
           Inr _ \<Rightarrow> j\<lparr>mj_status := MPhashComputed, mj_error_message := None\<rparr> | Inl e \<Rightarrow> fail_once e m j))
         (row_of mj_video_id v (mirror_jobs d))
      else row_of mj_video_id w (mirror_jobs d))"
    by (cases r; cases "row_of mj_video_id w (mirror_jobs d)")
       (auto simp: hash_write_def db_after_def update_phash_success_def update_phash_failure_def run_simps
         update_jobs_def row_of_update dest: row_of_SomeD)
  show "row_of vi_video_id w (video_index (hash_write m (v, r) d)) = (case r of
      Inr h \<Rightarrow> map_option (\<lambda>q. if w = v then q\<lparr>vi_phash := Some (vh_hash h), vi_phash_kind := Some HASH_KIND,
           vi_phash_version := Some HASH_VERSION\<rparr> else q) (row_of vi_video_id w (video_index d))
    | Inl _ \<Rightarrow> row_of vi_video_id w (video_index d))"
    using j by (cases r; cases "row_of vi_video_id w (video_index d)")
       (auto simp: hash_write_def db_after_def update_phash_success_def update_phash_failure_def run_simps
         update_index_def row_of_update dest: row_of_SomeD)
qed

lemma hash_write_step:
  assumes "pending_row d v"
  shows "map_err error_text (case r of
        Inr h \<Rightarrow> update_phash_success v (vh_hash h) HASH_KIND HASH_VERSION
      | Inl e \<Rightarrow> bnd (update_phash_failure v e m) (\<lambda>_. ret ())) ([], d) = (Inr (), [], hash_write m (v, r) d)"
  using assms
  by (cases r) (auto simp: pending_row_def hash_write_def db_after_def update_phash_success_def
      update_phash_failure_def run_simps)

lemma hash_write_uniq: "pending_row d v \<Longrightarrow> jobs_uniq d \<Longrightarrow> jobs_uniq (hash_write m (v, r) d)"
  by (cases r) (auto simp: pending_row_def hash_write_def db_after_def update_phash_success_def
      update_phash_failure_def run_simps update_jobs_def intro!: uniq_update_where)

lemma hash_write_weight:
  assumes "pending_row d v" and "jobs_uniq d"
  shows "backfill_weight m (hash_write m (v, r) d) < backfill_weight m d"
proof -
  obtain j where j: "row_of mj_video_id v (mirror_jobs d) = Some j" "mj_status j = MPending"
    using assms(1) by (auto simp: pending_row_def)
  then have id: "mj_video_id j = v" by (auto dest: row_of_SomeD)
  show ?thesis
  proof (cases r)
    case (Inl e)
    let ?f = "\<lambda>j. touch (now_us d) (fail_once e m j)"
    have "job_weight m (?f j) < job_weight m j"
      using j(2) by (auto simp: job_weight_def fail_once_def)
    moreover have "mirror_jobs (hash_write m (v, r) d) = update_where (\<lambda>j. mj_video_id j = v) ?f (mirror_jobs d)"
      using Inl j by (simp add: hash_write_def db_after_def update_phash_failure_def run_simps update_jobs_def)
    moreover note sum_list_update [OF assms(2) j(1), of "\<lambda>j. mj_video_id j = v" "job_weight m" ?f]
    ultimately show ?thesis using id by (simp add: backfill_weight_def)
  next
    case (Inr h)
    let ?f = "\<lambda>j. touch (now_us d) (j\<lparr>mj_status := MPhashComputed, mj_error_message := None\<rparr>)"
    have "job_weight m (?f j) < job_weight m j"
      using j(2) by (simp add: job_weight_def)
    moreover have "mirror_jobs (hash_write m (v, r) d) =
        update_where (\<lambda>j. mj_video_id j = v \<and> mj_status j = MPending) ?f (mirror_jobs d)"
      using Inr by (simp add: hash_write_def db_after_def update_phash_success_def run_simps update_jobs_def)
    moreover note sum_list_update [OF assms(2) j(1), of "\<lambda>j. mj_video_id j = v \<and> mj_status j = MPending" "job_weight m" ?f]
    ultimately show ?thesis using id j(2) by (simp add: backfill_weight_def)
  qed
qed

lemma hash_write_keeps:
  assumes "pending_row d v"
  shows "w \<noteq> v \<Longrightarrow> pending_row (hash_write m (v, r) d) w = pending_row d w"
    and "w \<noteq> v \<Longrightarrow> hash_settled m (hash_write m (v, r) d) w = hash_settled m d w"
    and "pending_row (hash_write m (v, r) d) v \<or> hash_settled m (hash_write m (v, r) d) v"
proof -
  show "w \<noteq> v \<Longrightarrow> pending_row (hash_write m (v, r) d) w = pending_row d w"
    and "w \<noteq> v \<Longrightarrow> hash_settled m (hash_write m (v, r) d) w = hash_settled m d w"
    by (cases r; simp add: pending_row_def hash_settled_def hash_write_row [OF assms] option.map_id0 [unfolded id_def])+
  from assms obtain j q where "row_of mj_video_id v (mirror_jobs d) = Some j"
      "row_of vi_video_id v (video_index d) = Some q" "mj_status j = MPending" "vi_phash q = None" "vi_hetzner_key q \<noteq> None"
    by (auto simp: pending_row_def)
  then show "pending_row (hash_write m (v, r) d) v \<or> hash_settled m (hash_write m (v, r) d) v"
    by (cases r; cases "mj_retry_count j + 1 \<ge> m")
       (simp_all add: pending_row_def hash_settled_def hash_write_row [OF assms] fail_once_def)
qed

text \<open>What one page leaves: nothing fails, the rows stay pending or are settled, the weight falls.\<close>

definition page_settles :: "int \<Rightarrow> pgdb \<Rightarrow> pgdb \<Rightarrow> bool" where
  "page_settles m d d2 \<longleftrightarrow> jobs_uniq d2 \<and> (\<forall>w. pending_row d w \<or> hash_settled m d w \<longrightarrow>
     pending_row d2 w \<or> hash_settled m d2 w)"

lemma page_settles_trans: "page_settles m d d2 \<Longrightarrow> page_settles m d2 d3 \<Longrightarrow> page_settles m d d3"
  unfolding page_settles_def by blast

lemma write_hashes_run:
  assumes "distinct (map fst rs)" and "\<forall>v \<in> fst ` set rs. pending_row d v" and "jobs_uniq d"
  shows "\<exists>n' stop d2. write_hashes m lim rs n ([], d) = (Inr (n', stop), [], d2) \<and> page_settles m d d2 \<and>
     (stop \<longrightarrow> lim \<noteq> None) \<and> (rs \<noteq> [] \<longrightarrow> backfill_weight m d2 < backfill_weight m d)"
  using assms
proof (induction rs arbitrary: n d)
  case Nil
  then have "page_settles m d d" by (simp add: page_settles_def)
  then show ?case by (intro exI [of _ n] exI [of _ False] exI [of _ d]) simp
next
  case (Cons x rs)
  obtain v r where x: "x = (v, r)" by (cases x)
  let ?d = "hash_write m (v, r) d"
  have p: "pending_row d v" using Cons.prems(2) x by simp
  have u: "jobs_uniq ?d" and w: "backfill_weight m ?d < backfill_weight m d"
    using hash_write_uniq [OF p Cons.prems(3)] hash_write_weight [OF p Cons.prems(3)] by auto
  have settles: "page_settles m d ?d"
    using hash_write_keeps [OF p] u unfolding page_settles_def by metis
  show ?case
  proof (cases "reached lim (n + 1)")
    case True
    then have "lim \<noteq> None" by (auto simp: reached_def split: option.splits)
    with True settles w show ?thesis
      by (intro exI [of _ "n + 1"] exI [of _ True] exI [of _ ?d]) (simp add: x run_bnd hash_write_step [OF p])
  next
    case False
    have "\<forall>w \<in> fst ` set rs. pending_row ?d w"
      using Cons.prems x hash_write_keeps(1) [OF p] by (metis (no_types, lifting) distinct.simps(2)
          fst_conv image_eqI list.set_intros(2) list.set_map list.simps(9) image_iff)
    from Cons.IH [OF _ this u, of "n + 1"] Cons.prems(1) obtain n' stop d2 where
      "write_hashes m lim rs (n + 1) ([], ?d) = (Inr (n', stop), [], d2)" "page_settles m ?d d2"
      "stop \<longrightarrow> lim \<noteq> None" "rs \<noteq> [] \<longrightarrow> backfill_weight m d2 < backfill_weight m ?d" by auto
    moreover have "rs = [] \<Longrightarrow> d2 = ?d" using calculation(1) by auto
    ultimately show ?thesis using False settles w
      by (cases "rs = []") (auto simp: x run_bnd hash_write_step [OF p] page_settles_def)
  qed
qed

lemma backfill_loop_run:
  assumes "jobs_uniq d" and "0 < bc_page_size c" and "backfill_weight (bc_max_retries c) d < fuel"
  shows "\<exists>n' d2. backfill_loop c fuel round n ([], d) = (Inr (Some n'), [], d2) \<and>
     page_settles (bc_max_retries c) d d2 \<and>
     (bc_limit c = None \<and> bc_cancel c = None \<longrightarrow> phash_candidates d2 = [])"
  using assms(1,3)
proof (induction fuel arbitrary: round n d)
  case (Suc fuel)
  let ?m = "bc_max_retries c"
  have refl: "page_settles ?m d d" using Suc.prems(1) by (simp add: page_settles_def)
  let ?rows = "limit_rows (bc_page_size c) (phash_candidates d)"
  let ?rs = "completed (bc_order c) (map (\<lambda>row. (vw_video_id row, backfill_hash (bc_env c round) row)) ?rows)"
  have fetch: "fetch_pending_phash_batch (bc_page_size c) ([], d) = (Inr ?rows, [], d)"
    using assms(2) by (simp add: fetch_pending_phash_batch_def run_stmt)
  show ?case
  proof (cases "is_cancelled (bc_cancel c) round")
    case True
    then have "bc_cancel c \<noteq> None" by (auto simp: is_cancelled_def split: option.splits)
    with True refl show ?thesis by auto
  next
    case False
    show ?thesis
    proof (cases "?rows = []")
      case True
      then have "phash_candidates d = []" using assms(2) by (simp add: limit_rows_def)
      with True False refl show ?thesis by (simp add: run_bnd run_map_err fetch)
    next
      case rows: False
      have sub: "set ?rows \<subseteq> set (phash_candidates d)" by (auto simp: limit_rows_def dest: in_set_takeD)
      have "distinct (map vw_video_id ?rows)"
        using pending_distinct [OF Suc.prems(1)] unfolding limit_rows_def take_map [symmetric] by (rule distinct_take)
      then have "distinct (map fst ?rs)"
        by (simp add: completed_distinct comp_def)
      moreover have "\<forall>v \<in> fst ` set ?rs. pending_row d v"
        using sub pending_iff [OF Suc.prems(1)] by auto
      ultimately obtain n' stop d2 where w: "write_hashes ?m (bc_limit c) ?rs n ([], d) = (Inr (n', stop), [], d2)"
          and st: "page_settles ?m d d2" and stop: "stop \<longrightarrow> bc_limit c \<noteq> None"
          and less: "?rs \<noteq> [] \<longrightarrow> backfill_weight ?m d2 < backfill_weight ?m d"
        using write_hashes_run [OF _ _ Suc.prems(1), of ?rs ?m "bc_limit c" n] by blast
      have "length ?rs \<noteq> 0" using rows by simp
      then have "?rs \<noteq> []" unfolding length_0_conv .
      with less Suc.prems(2) have "backfill_weight ?m d2 < fuel" by simp
      moreover have "jobs_uniq d2" using st by (simp add: page_settles_def)
      ultimately obtain n3 d3 where "backfill_loop c fuel (round + 1) n' ([], d2) = (Inr (Some n3), [], d3)"
          "page_settles ?m d2 d3" "bc_limit c = None \<and> bc_cancel c = None \<longrightarrow> phash_candidates d3 = []"
        using Suc.IH by meson
      moreover from this have "page_settles ?m d d3" using page_settles_trans [OF st] by blast
      ultimately show ?thesis using False rows w st stop
        by (cases stop) (auto simp: run_bnd run_map_err fetch)
    qed
  qed
qed simp

text \<open>The hashing loop ends, whatever the object store and the hasher answer in each round and in
  whatever order a page completes: every attempt takes a video out of the pending set or uses up one of
  its retries. Without a limit and a cancellation nothing is left to fetch, and each video that was
  pending has a hash now or has failed \<open>max_retries\<close> times.\<close>

lemma backfill_terminates:
  assumes "db_ok d" and "0 < bc_page_size c" and "backfill_weight (bc_max_retries c) d < fuel"
  shows "\<exists>n d2. backfill_run c fuel ([], d) = (Inr (Some n), [], d2) \<and>
     (bc_limit c = None \<and> bc_cancel c = None \<longrightarrow> phash_candidates d2 = [] \<and>
        (\<forall>v \<in> vw_video_id ` set (phash_candidates d). hash_settled (bc_max_retries c) d2 v))"
proof -
  have u: "jobs_uniq d" using assms(1) by (simp add: db_ok_defs)
  from backfill_loop_run [OF u assms(2,3), of 0 0] obtain n d2 where
    run: "backfill_loop c fuel 0 0 ([], d) = (Inr (Some n), [], d2)"
    and st: "page_settles (bc_max_retries c) d d2"
    and none: "bc_limit c = None \<and> bc_cancel c = None \<longrightarrow> phash_candidates d2 = []" by blast
  have "hash_settled (bc_max_retries c) d2 v"
    if "phash_candidates d2 = []" "v \<in> vw_video_id ` set (phash_candidates d)" for v
  proof -
    from st have u2: "jobs_uniq d2" by (simp add: page_settles_def)
    have "\<not> pending_row d2 v" using pending_iff [OF u2, of v] that(1) by simp
    moreover have "pending_row d v" using pending_iff [OF u] that(2) by simp
    ultimately show ?thesis using st by (auto simp: page_settles_def)
  qed
  moreover have "backfill_run c fuel ([], d) = (Inr (Some n), [], d2)"
    using run by (simp add: backfill_run_def run_bnd run_map_err run_exec)
  ultimately show ?thesis using none by blast
qed

definition no_env :: "nat media_env" where
  "no_env = \<lparr>env_tempfile = (\<lambda>_. None), env_hetzner = (\<lambda>k. Inl ''503''), env_storj = (\<lambda>k. Inl ''503''),
     env_phash = (\<lambda>_. Panicked ''decoder'')\<rparr>"

definition demo_backfill :: "nat backfill_config" where
  "demo_backfill = \<lparr>bc_env = (\<lambda>_. no_env), bc_order = rev, bc_cancel = None, bc_limit = None,
     bc_page_size = 100, bc_max_retries = 3\<rparr>"

definition one_job_db :: "mirror_status \<Rightarrow> string option \<Rightarrow> pgdb" where
  "one_job_db st hash = (empty_db 5)\<lparr>
     video_index := [(index_row 1 ''u/v'' None (Some ''u/v.mp4''))\<lparr>vi_phash := hash\<rparr>],
     mirror_jobs := [\<lparr>mj_video_id = ''u/v'', mj_is_temp = False, mj_retry_count = 0, mj_status = st,
       mj_error_message = None, mj_updated_at = 1\<rparr>]\<rparr>"

lemma one_job_ok: "db_ok (one_job_db st hash)"
  by (simp add: one_job_db_def empty_db_def db_ok_defs uniq_def has_key_code index_row_def)

lemma backfill_terminates_witness:
  "\<exists>n d2. backfill_run demo_backfill 5 ([], one_job_db MPending None) = (Inr (Some n), [], d2) \<and> hash_settled 3 d2 ''u/v''"
proof -
  have "backfill_weight (bc_max_retries demo_backfill) (one_job_db MPending None) < 5"
    by (simp add: backfill_weight_def job_weight_def demo_backfill_def one_job_db_def)
  moreover have "''u/v'' \<in> vw_video_id ` set (phash_candidates (one_job_db MPending None))"
    using one_job_ok by (simp add: pending_iff db_ok_defs) (simp add: pending_row_def one_job_db_def row_of_def index_row_def)
  ultimately show ?thesis using backfill_terminates [OF one_job_ok, of demo_backfill MPending None 5]
    by (auto simp: demo_backfill_def)
qed

section \<open>The copying loop\<close>

definition mirror_write :: "video_row \<times> (string + unit) \<Rightarrow> pgdb \<Rightarrow> pgdb" where
  "mirror_write wr d = (case wr of
     (w, Inr _) \<Rightarrow> db_after (update_mirror_success (vw_video_id w) (vw_hetzner_key w)) ([], d)
   | (w, Inl e) \<Rightarrow> db_after (update_error (vw_video_id w) e) ([], d))"

definition mirrored_row :: "pgdb \<Rightarrow> string \<Rightarrow> string \<Rightarrow> bool" where
  "mirrored_row d v k \<longleftrightarrow> (\<exists>j r. row_of mj_video_id v (mirror_jobs d) = Some j \<and>
     row_of vi_video_id v (video_index d) = Some r \<and> mj_status j = MMirrored \<and> mj_error_message j = None \<and>
     vi_storj_key r = Some k \<and> vi_hetzner_key r = Some k)"

lemma mirror_write_step:
  "map_err error_text (case r of
        Inr _ \<Rightarrow> update_mirror_success (vw_video_id w) (vw_hetzner_key w)
      | Inl e \<Rightarrow> update_error (vw_video_id w) e) ([], d) = (Inr (), [], mirror_write (w, r) d)"
  by (cases r) (simp_all add: mirror_write_def db_after_def update_mirror_success_def update_error_def run_simps)

lemma mirror_write_row:
  "row_of mj_video_id v (mirror_jobs (mirror_write (w, r) d)) =
     map_option (\<lambda>j. if mj_video_id j \<noteq> vw_video_id w then j else case r of
         Inr _ \<Rightarrow> if mj_status j = MPhashComputed
           then touch (now_us d) (j\<lparr>mj_status := MMirrored, mj_error_message := None\<rparr>) else j
       | Inl e \<Rightarrow> touch (now_us d) (j\<lparr>mj_error_message := Some e\<rparr>)) (row_of mj_video_id v (mirror_jobs d))"
  "row_of vi_video_id v (video_index (mirror_write (w, r) d)) =
     map_option (\<lambda>q. case r of
         Inr _ \<Rightarrow> if vi_video_id q = vw_video_id w then q\<lparr>vi_storj_key := Some (vw_hetzner_key w)\<rparr> else q
       | Inl _ \<Rightarrow> q) (row_of vi_video_id v (video_index d))"
proof -
  show "row_of mj_video_id v (mirror_jobs (mirror_write (w, r) d)) =
     map_option (\<lambda>j. if mj_video_id j \<noteq> vw_video_id w then j else case r of
         Inr _ \<Rightarrow> if mj_status j = MPhashComputed
           then touch (now_us d) (j\<lparr>mj_status := MMirrored, mj_error_message := None\<rparr>) else j
       | Inl e \<Rightarrow> touch (now_us d) (j\<lparr>mj_error_message := Some e\<rparr>)) (row_of mj_video_id v (mirror_jobs d))"
    by (cases r; cases "row_of mj_video_id v (mirror_jobs d)")
       (auto simp: mirror_write_def db_after_def update_mirror_success_def update_error_def run_simps
         update_jobs_def row_of_update)
  show "row_of vi_video_id v (video_index (mirror_write (w, r) d)) =
     map_option (\<lambda>q. case r of
         Inr _ \<Rightarrow> if vi_video_id q = vw_video_id w then q\<lparr>vi_storj_key := Some (vw_hetzner_key w)\<rparr> else q
       | Inl _ \<Rightarrow> q) (row_of vi_video_id v (video_index d))"
    by (cases r; cases "row_of vi_video_id v (video_index d)")
       (auto simp: mirror_write_def db_after_def update_mirror_success_def update_error_def run_simps
         update_index_def row_of_update)
qed

lemma mirror_write_uniq: "jobs_uniq d \<Longrightarrow> jobs_uniq (mirror_write (w, r) d)"
  by (cases r) (auto simp: mirror_write_def db_after_def update_mirror_success_def update_error_def run_simps
      update_jobs_def intro!: uniq_update_where)

lemma mirror_write_frame:
  assumes "v \<noteq> vw_video_id w"
  shows "row_of mj_video_id v (mirror_jobs (mirror_write (w, r) d)) = row_of mj_video_id v (mirror_jobs d)"
    and "row_of vi_video_id v (video_index (mirror_write (w, r) d)) = row_of vi_video_id v (video_index d)"
proof -
  show "row_of mj_video_id v (mirror_jobs (mirror_write (w, r) d)) = row_of mj_video_id v (mirror_jobs d)"
    unfolding mirror_write_row using assms
    by (cases "row_of mj_video_id v (mirror_jobs d)") (auto dest: row_of_id)
  show "row_of vi_video_id v (video_index (mirror_write (w, r) d)) = row_of vi_video_id v (video_index d)"
    unfolding mirror_write_row using assms
    by (cases "row_of vi_video_id v (video_index d)"; cases r) (auto dest: row_of_id)
qed

lemma mirror_write_other:
  "v \<noteq> vw_video_id w \<Longrightarrow> copyable_row (mirror_write (w, r) d) v k = copyable_row d v k"
  "v \<noteq> vw_video_id w \<Longrightarrow> mirrored_row (mirror_write (w, r) d) v k = mirrored_row d v k"
  by (simp_all add: copyable_row_def mirrored_row_def mirror_write_frame)

lemma mirror_write_copied:
  assumes "copyable_row d (vw_video_id w) (vw_hetzner_key w)"
  shows "mirrored_row (mirror_write (w, Inr u) d) (vw_video_id w) (vw_hetzner_key w)"
proof -
  from assms obtain j q where "row_of mj_video_id (vw_video_id w) (mirror_jobs d) = Some j"
      "row_of vi_video_id (vw_video_id w) (video_index d) = Some q" "mj_status j = MPhashComputed"
      "vi_hetzner_key q = Some (vw_hetzner_key w)"
    unfolding copyable_row_def by blast
  then show ?thesis by (auto simp: mirrored_row_def mirror_write_row dest: row_of_id)
qed

lemma mirror_write_failed:
  assumes "copyable_row d (vw_video_id w) k"
  shows "copyable_row (mirror_write (w, Inl e) d) (vw_video_id w) k"
proof -
  from assms obtain j q where "row_of mj_video_id (vw_video_id w) (mirror_jobs d) = Some j"
      "row_of vi_video_id (vw_video_id w) (video_index d) = Some q" "mj_status j = MPhashComputed" "\<not> mj_is_temp j"
      "vi_storj_key q = None" "vi_hetzner_key q = Some k"
    unfolding copyable_row_def by blast
  then show ?thesis by (auto simp: copyable_row_def mirror_write_row dest: row_of_id)
qed

text \<open>One page: nothing fails; a video whose copy failed can be copied still.\<close>

lemma write_mirrors_failing:
  assumes "copyable_row d v k" and "\<forall>(w, r) \<in> set rs. vw_video_id w = v \<longrightarrow> (\<exists>e. r = Inl e)" and "jobs_uniq d"
  shows "\<exists>n' d2. write_mirrors None rs n ([], d) = (Inr (n', False), [], d2) \<and> copyable_row d2 v k \<and> jobs_uniq d2"
  using assms
proof (induction rs arbitrary: n d)
  case (Cons x rs)
  obtain w r where x: "x = (w, r)" by (cases x)
  have "copyable_row (mirror_write (w, r) d) v k"
    using Cons.prems(1,2) x mirror_write_other(1) [of v w] mirror_write_failed [of d w k]
    by (cases "vw_video_id w = v") auto
  with Cons.IH [OF this, of "n + 1"] Cons.prems(2) mirror_write_uniq [OF Cons.prems(3)] show ?case
    by (simp add: x run_bnd mirror_write_step reached_def)
qed auto

lemma mirror_write_removes:
  "copyable_row (mirror_write (w, Inr u) d) v k \<longleftrightarrow> copyable_row d v k \<and> v \<noteq> vw_video_id w"
proof (cases "v = vw_video_id w")
  case True
  have "vi_storj_key q \<noteq> None" if "row_of vi_video_id v (video_index (mirror_write (w, Inr u) d)) = Some q" for q
    using that True unfolding mirror_write_row by (auto dest: row_of_id)
  with True show ?thesis by (auto simp: copyable_row_def)
qed (simp add: mirror_write_other)

lemma write_mirrors_ok:
  assumes "distinct (map (vw_video_id \<circ> fst) rs)" and "jobs_uniq d"
    and "\<forall>(w, r) \<in> set rs. r = Inr () \<and> copyable_row d (vw_video_id w) (vw_hetzner_key w)"
  shows "\<exists>d2. write_mirrors None rs n ([], d) = (Inr (n + length rs, False), [], d2) \<and> jobs_uniq d2 \<and>
     (\<forall>v k. copyable_row d2 v k \<longleftrightarrow> copyable_row d v k \<and> v \<notin> (vw_video_id \<circ> fst) ` set rs) \<and>
     (\<forall>w \<in> fst ` set rs. mirrored_row d2 (vw_video_id w) (vw_hetzner_key w)) \<and>
     (\<forall>v k. v \<notin> (vw_video_id \<circ> fst) ` set rs \<longrightarrow> mirrored_row d2 v k = mirrored_row d v k)"
  using assms
proof (induction rs arbitrary: n d)
  case (Cons x rs)
  obtain w where x: "x = (w, Inr ())" using Cons.prems(3) by (cases x) auto
  let ?d = "mirror_write (w, Inr ()) d"
  have c: "copyable_row d (vw_video_id w) (vw_hetzner_key w)" using Cons.prems(3) x by simp
  have u: "jobs_uniq ?d" by (rule mirror_write_uniq [OF Cons.prems(2)])
  have fresh: "vw_video_id w \<notin> (vw_video_id \<circ> fst) ` set rs" using Cons.prems(1) x by (auto simp: comp_def)
  then have "\<forall>(w', r) \<in> set rs. r = Inr () \<and> copyable_row ?d (vw_video_id w') (vw_hetzner_key w')"
    using Cons.prems(3) by (force simp: mirror_write_removes)
  from Cons.IH [OF _ u this, of "n + 1"] Cons.prems(1) obtain d2 where
    run: "write_mirrors None rs (n + 1) ([], ?d) = (Inr (n + 1 + length rs, False), [], d2)" and "jobs_uniq d2"
    and cp: "\<forall>v k. copyable_row d2 v k \<longleftrightarrow> copyable_row ?d v k \<and> v \<notin> (vw_video_id \<circ> fst) ` set rs"
    and ok: "\<forall>w \<in> fst ` set rs. mirrored_row d2 (vw_video_id w) (vw_hetzner_key w)"
    and keep: "\<forall>v k. v \<notin> (vw_video_id \<circ> fst) ` set rs \<longrightarrow> mirrored_row d2 v k = mirrored_row ?d v k"
    by auto
  moreover have "mirrored_row d2 (vw_video_id w) (vw_hetzner_key w)"
    using keep fresh mirror_write_copied [OF c] by blast
  moreover have "\<forall>v k. v \<notin> (vw_video_id \<circ> fst) ` set (x # rs) \<longrightarrow> mirrored_row d2 v k = mirrored_row d v k"
    using keep x mirror_write_other(2) by auto
  moreover have "write_mirrors None (x # rs) n ([], d) = (Inr (n + length (x # rs), False), [], d2)"
    using run mirror_write_step [of w "Inr ()" d] by (simp add: x run_bnd reached_def)
  ultimately show ?case
    using x by (intro exI [of _ d2]) (simp add: mirror_write_removes)
qed simp

lemma mirror_loop_ok:
  assumes "0 < mc_page_size c" and "mc_cancel c = None" and "mc_limit c = None"
    and "\<And>w round. copyable_row d (vw_video_id w) (vw_hetzner_key w) \<Longrightarrow> copy_row c round w = Inr ()"
    and "jobs_uniq d" and "length (mirror_candidates d) < fuel"
  shows "\<exists>d2. mirror_loop c fuel round n ([], d) = (Inr (Some (n + length (mirror_candidates d))), [], d2) \<and>
     mirror_candidates d2 = [] \<and> (\<forall>w \<in> set (mirror_candidates d). mirrored_row d2 (vw_video_id w) (vw_hetzner_key w)) \<and>
     (\<forall>v k. v \<notin> vw_video_id ` set (mirror_candidates d) \<longrightarrow> mirrored_row d2 v k = mirrored_row d v k)"
  using assms(4-6)
proof (induction fuel arbitrary: round n d)
  case (Suc fuel)
  let ?cs = "mirror_candidates d"
  let ?rows = "limit_rows (mc_page_size c) ?cs"
  let ?rs = "completed (mc_order c) (map (\<lambda>row. (row, copy_row c round row)) ?rows)"
  have fetch: "fetch_pending_mirror_batch (mc_page_size c) ([], d) = (Inr ?rows, [], d)"
    using assms(1) by (simp add: fetch_pending_mirror_batch_def run_stmt)
  show ?case
  proof (cases "?cs = []")
    case True
    then show ?thesis
      using assms(2) fetch by (simp add: is_cancelled_def run_bnd run_map_err limit_rows_def)
  next
    case False
    then have rows: "?rows \<noteq> []" using assms(1) by (simp add: limit_rows_def)
    have sub: "set ?rows \<subseteq> set ?cs" by (auto simp: limit_rows_def dest: in_set_takeD)
    have "distinct (map vw_video_id ?rows)"
      using copyable_distinct [OF Suc.prems(2)] unfolding limit_rows_def take_map [symmetric] by (rule distinct_take)
    then have dist: "distinct (map (vw_video_id \<circ> fst) ?rs)" by (simp add: completed_distinct comp_def)
    have all: "\<forall>(w, r) \<in> set ?rs. r = Inr () \<and> copyable_row d (vw_video_id w) (vw_hetzner_key w)"
      using sub Suc.prems(1) copyable_iff [OF Suc.prems(2)] by auto
    have ids: "(vw_video_id \<circ> fst) ` set ?rs = vw_video_id ` set ?rows" "fst ` set ?rs = set ?rows"
      by (auto simp: image_image)
    from write_mirrors_ok [OF dist Suc.prems(2) all, of n, unfolded ids completed_length length_map]
    obtain d2 where w: "write_mirrors None ?rs n ([], d) = (Inr (n + length ?rows, False), [], d2)"
      and u: "jobs_uniq d2"
      and cp: "\<forall>v k. copyable_row d2 v k \<longleftrightarrow> copyable_row d v k \<and> v \<notin> vw_video_id ` set ?rows"
      and ok: "\<forall>w \<in> set ?rows. mirrored_row d2 (vw_video_id w) (vw_hetzner_key w)"
      and keep: "\<forall>v k. v \<notin> vw_video_id ` set ?rows \<longrightarrow> mirrored_row d2 v k = mirrored_row d v k" by blast
    have inj: "inj_on vw_video_id (set ?cs)" using copyable_distinct [OF Suc.prems(2)] by (simp add: distinct_map)
    have cs2: "set (mirror_candidates d2) = set ?cs - set ?rows"
    proof (rule set_eqI)
      fix x
      have "x \<in> set (mirror_candidates d2) \<longleftrightarrow> x \<in> set ?cs \<and> vw_video_id x \<notin> vw_video_id ` set ?rows"
        unfolding copyable_iff [OF u] copyable_iff [OF Suc.prems(2)] using cp by blast
      moreover have "vw_video_id x \<in> vw_video_id ` set ?rows \<longleftrightarrow> x \<in> set ?rows" if "x \<in> set ?cs"
        using inj that sub by (rule inj_on_image_mem_iff)
      ultimately show "x \<in> set (mirror_candidates d2) \<longleftrightarrow> x \<in> set ?cs - set ?rows" by blast
    qed
    have d1: "distinct ?cs" "distinct ?rows" "distinct (mirror_candidates d2)"
      using copyable_distinct [OF Suc.prems(2)] copyable_distinct [OF u] by (auto simp: distinct_map limit_rows_def)
    have "card (set (mirror_candidates d2)) + card (set ?rows) = card (set ?cs)"
      unfolding cs2 using sub card_mono [OF finite_set sub] by (simp add: card_Diff_subset)
    then have len: "length (mirror_candidates d2) + length ?rows = length ?cs"
      unfolding distinct_card [OF d1(1)] distinct_card [OF d1(2)] distinct_card [OF d1(3)] .
    then have "length (mirror_candidates d2) < fuel" using Suc.prems(3) rows by (cases ?rows) auto
    moreover have "copy_row c round w = Inr ()" if "copyable_row d2 (vw_video_id w) (vw_hetzner_key w)" for w round
      using that cp Suc.prems(1) by blast
    ultimately obtain d3 where
      loop: "mirror_loop c fuel (round + 1) (n + length ?rows) ([], d2) =
         (Inr (Some (n + length ?rows + length (mirror_candidates d2))), [], d3)"
      and none: "mirror_candidates d3 = []"
      and ok3: "\<forall>w \<in> set (mirror_candidates d2). mirrored_row d3 (vw_video_id w) (vw_hetzner_key w)"
      and keep3: "\<forall>v k. v \<notin> vw_video_id ` set (mirror_candidates d2) \<longrightarrow> mirrored_row d3 v k = mirrored_row d2 v k"
      using Suc.IH [OF _ u] by blast
    have "mirror_loop c (Suc fuel) round n ([], d) = (Inr (Some (n + length ?cs)), [], d3)"
      using loop rows w assms(2,3) len by (simp add: is_cancelled_def run_bnd run_map_err fetch ac_simps)
    moreover have "mirrored_row d3 (vw_video_id w) (vw_hetzner_key w)" if "w \<in> set ?cs" for w
    proof (cases "w \<in> set ?rows")
      case True
      then have "vw_video_id w \<notin> vw_video_id ` set (mirror_candidates d2)"
        using cs2 inj sub by (auto simp: inj_on_def)
      with True ok keep3 show ?thesis by blast
    qed (use that cs2 ok3 in blast)
    moreover have "mirrored_row d3 v k = mirrored_row d v k" if "v \<notin> vw_video_id ` set ?cs" for v k
      using that keep keep3 cs2 sub by (metis Diff_subset image_mono subsetD)
    ultimately show ?thesis using none by blast
  qed
qed simp

text \<open>When every copy succeeds the copying loop ends: each video that was waiting is handled once, is
  \<open>mirrored\<close> with a Storj key equal to its Hetzner key and no error, and nothing is left to fetch.\<close>

lemma mirror_completes:
  assumes "db_ok d" and "0 < mc_page_size c" and "mc_cancel c = None" and "mc_limit c = None"
    and "\<And>w round. w \<in> set (mirror_candidates d) \<Longrightarrow>
       mirror_one (mc_env c round) (vw_hetzner_key w) (mc_bucket c) (mc_grant c) = Inr ()"
    and "length (mirror_candidates d) < fuel"
  shows "\<exists>d2. mirror_run c fuel ([], d) = (Inr (Some (length (mirror_candidates d))), [], d2) \<and>
     mirror_candidates d2 = [] \<and> (\<forall>w \<in> set (mirror_candidates d). mirrored_row d2 (vw_video_id w) (vw_hetzner_key w))"
proof -
  have u: "jobs_uniq d" using assms(1) by (simp add: db_ok_defs)
  have "copy_row c round w = Inr ()" if "copyable_row d (vw_video_id w) (vw_hetzner_key w)" for w round
    using that assms(5) copyable_iff [OF u] by (simp add: copy_row_def)
  from mirror_loop_ok [OF assms(2-4) this u assms(6), of 0 0] show ?thesis
    by (auto simp: mirror_run_def run_bnd run_map_err run_exec)
qed

text \<open>C40. A video whose copy fails every time keeps the loop going for ever: it stays in the fetched set,
  whatever happens to the others, because the copying job counts no retries. No amount of fuel is enough.\<close>

theorem failing_copy_never_ends:
  assumes "db_ok d" and "copyable_row d v k" and "0 < mc_page_size c" and "mc_cancel c = None" and "mc_limit c = None"
    and "\<And>round. \<exists>e. mirror_one (mc_env c round) k (mc_bucket c) (mc_grant c) = Inl e"
  shows "result_of (mirror_run c fuel) ([], d) = Inr None"
proof -
  have "result_of (mirror_loop c fuel round n) ([], d) = Inr None"
    if "jobs_uniq d" "copyable_row d v k" for d round n
    using that
  proof (induction fuel arbitrary: round n d)
    case 0
    then show ?case by (simp add: result_of_def)
  next
    case (Suc fuel)
    let ?rows = "limit_rows (mc_page_size c) (mirror_candidates d)"
    let ?rs = "completed (mc_order c) (map (\<lambda>row. (row, copy_row c round row)) ?rows)"
    have "\<lparr>vw_video_id = v, vw_hetzner_key = k\<rparr> \<in> set (mirror_candidates d)"
      using Suc.prems by (simp add: copyable_iff)
    then have rows: "?rows \<noteq> []" using assms(3) by (auto simp: limit_rows_def)
    have fetch: "fetch_pending_mirror_batch (mc_page_size c) ([], d) = (Inr ?rows, [], d)"
      using assms(3) by (simp add: fetch_pending_mirror_batch_def run_stmt)
    have "r = copy_row c round w \<and> w \<in> set (mirror_candidates d)" if "(w, r) \<in> set ?rs" for w r
      using that by (auto simp: limit_rows_def dest: in_set_takeD)
    then have "\<exists>e. r = Inl e" if "(w, r) \<in> set ?rs" "vw_video_id w = v" for w r
    proof -
      from that \<open>\<And>w r. (w, r) \<in> set ?rs \<Longrightarrow> _\<close> have r: "r = copy_row c round w" "w \<in> set (mirror_candidates d)" by blast+
      then have "copyable_row d v (vw_hetzner_key w)" using copyable_iff [OF Suc.prems(1), of w] that(2) by simp
      with Suc.prems(2) have "vw_hetzner_key w = k" by (auto simp: copyable_row_def)
      with r(1) assms(6) [of round] show ?thesis by (simp add: copy_row_def)
    qed
    then have "\<forall>(w, r) \<in> set ?rs. vw_video_id w = v \<longrightarrow> (\<exists>e. r = Inl e)" by blast
    from write_mirrors_failing [OF Suc.prems(2) this Suc.prems(1), of n] obtain n' d2 where
      w: "write_mirrors None ?rs n ([], d) = (Inr (n', False), [], d2)" and "copyable_row d2 v k" "jobs_uniq d2"
      by blast
    with Suc.IH have "result_of (mirror_loop c fuel (round + 1) n') ([], d2) = Inr None" by blast
    with w rows show ?case
      using assms(4,5) by (simp add: result_of_def is_cancelled_def run_bnd run_map_err fetch)
  qed
  with assms(1,2) show ?thesis
    by (simp add: mirror_run_def result_of_def run_bnd run_map_err run_exec db_ok_defs)
qed

definition demo_mirror :: "process_outcome \<Rightarrow> mirror_config" where
  "demo_mirror out = \<lparr>mc_env = (\<lambda>_. \<lparr>me_tempfile = (\<lambda>_. None), me_download = (\<lambda>k. Inr ''/tmp/x''),
       me_exists = (\<lambda>_. Inr True), me_uplink = (\<lambda>_. out)\<rparr>),
     mc_order = rev, mc_cancel = None, mc_limit = None, mc_page_size = 100, mc_bucket = ''sfw'', mc_grant = ''g''\<rparr>"

lemma demo_mirror_one:
  "mirror_one (mc_env (demo_mirror (Exited True e)) n) k b g = Inr ()"
  "mirror_one (mc_env (demo_mirror (Exited False e)) n) k b g = Inl (''uplink cp to sj://'' @ b @ ''/'' @ k @ '' failed: '' @ e)"
  by (auto simp: demo_mirror_def mirror_one_def copy_object_def uplink_cp_def split: option.split)

lemma one_job_copyable: "copyable_row (one_job_db MPhashComputed h) ''u/v'' ''u/v.mp4''"
  by (simp add: copyable_row_def one_job_db_def row_of_def index_row_def)

lemma one_job_candidates:
  "mirror_candidates (one_job_db MPhashComputed h) = [\<lparr>vw_video_id = ''u/v'', vw_hetzner_key = ''u/v.mp4''\<rparr>]"
  by (simp add: mirror_candidates_def joined_def one_job_db_def row_of_def index_row_def List.map_filter_simps)

lemma mirror_completes_witness:
  "\<exists>d2. mirror_run (demo_mirror (Exited True [])) 2 ([], one_job_db MPhashComputed (Some ''h'')) = (Inr (Some 1), [], d2) \<and>
     mirrored_row d2 ''u/v'' ''u/v.mp4''"
  using mirror_completes [OF one_job_ok, of "demo_mirror (Exited True [])" MPhashComputed "Some ''h''" 2]
  by (simp add: one_job_candidates demo_mirror_one(1)) (auto simp: demo_mirror_def)

theorem failing_copy_never_ends_witness:
  "result_of (mirror_run (demo_mirror (Exited False ''denied'')) 1000) ([], one_job_db MPhashComputed (Some ''h'')) = Inr None"
  by (rule failing_copy_never_ends [OF one_job_ok one_job_copyable])
     (use demo_mirror_one(2) in \<open>auto simp: demo_mirror_def\<close>)

end
