(* ===== verification/Sweep_Worker.thy ===== *)
theory Sweep_Worker
  imports Sweep_Lease PHash_Job Media_Import Mirror_Jobs
begin

text \<open>
  The sweep worker (\<open>jobs/worker.rs\<close>): one pass elects the box by the lease, drains when something is
  eligible and runs discovery (both scans and the import) when it is due. The keep-alive task renews the
  lease every third of the time to live while the work runs; the work itself neither reads nor writes the
  lease, so the model lets the clock advance and the renewals happen after it (\<open>beats\<close> of them). The two
  flags are the atomics that keep a manual job and the worker apart: whether they are held when the pass
  comes to them is a parameter, and the value after the pass is part of the result.
\<close>

section \<open>The building blocks\<close>

text \<open>Times in microseconds; an interval that \<open>chrono\<close> cannot represent saturates to its maximum
  (\<open>i64::MAX\<close> milliseconds).\<close>

definition duration_max :: int where
  "duration_max = (2 ^ 63 - 1) * 1000"

definition discovery_due :: "int option \<Rightarrow> int \<Rightarrow> int \<Rightarrow> bool" where
  "discovery_due prev interval now = (case prev of
       None \<Rightarrow> True
     | Some l \<Rightarrow> now - l \<ge> (if interval \<le> duration_max then interval else duration_max))"

fun renew_beats :: "string \<Rightarrow> int \<Rightarrow> nat \<Rightarrow> (pgdb, 'e, unit) proc" where
  "renew_beats owner ttl 0 = ret ()"
| "renew_beats owner ttl (Suc n) =
     bnd (on_db (\<lambda>d. d\<lparr>now_us := now_us d + ttl div 3\<rparr>)) (\<lambda>_.
     bnd (attempt (acquire_or_renew_lease owner ttl)) (\<lambda>_.
     renew_beats owner ttl n))"

definition with_heartbeat_renew :: "string \<Rightarrow> int \<Rightarrow> nat \<Rightarrow> (pgdb, 'e, 'a) proc \<Rightarrow> (pgdb, 'e, 'a) proc" where
  "with_heartbeat_renew owner ttl beats fut =
     bnd fut (\<lambda>x. bnd (renew_beats owner ttl beats) (\<lambda>_. ret x))"

text \<open>The flag is taken for the run and released after it; with the result its value afterwards.\<close>

definition cas_guarded :: "bool \<Rightarrow> (pgdb, 'e, 'a) proc \<Rightarrow> (pgdb, 'e, 'a option \<times> bool) proc" where
  "cas_guarded held f = (if held then ret (None, held) else bnd f (\<lambda>x. ret (Some x, False)))"

section \<open>One pass\<close>

record pass_config =
  pw_me :: string
  pw_ttl :: int
  pw_discovery_interval :: int
  pw_drain_held :: bool
  pw_import_held :: bool
  pw_drain_beats :: nat
  pw_discovery_beats :: nat

definition run_one_pass :: "pass_config \<Rightarrow> unit pg \<Rightarrow> unit pg \<Rightarrow> unit pg" where
  "run_one_pass c drain discovery =
     bnd (acquire_or_renew_lease (pw_me c) (pw_ttl c)) (\<lambda>owner.
     if \<not> owner then ret ()
     else bnd (any_eligible_for_hash HASH_KIND HASH_VERSION INPUT_MEDIA_VERSION) (\<lambda>eligible.
     bnd (if eligible
          then bnd (with_heartbeat_renew (pw_me c) (pw_ttl c) (pw_drain_beats c)
                      (cas_guarded (pw_drain_held c) drain)) (\<lambda>_. ret ())
          else ret ()) (\<lambda>_.
     bnd get_last_discovery_at (\<lambda>prev.
     bnd get_db (\<lambda>d.
     if discovery_due prev (pw_discovery_interval c) (now_us d)
     then bnd (with_heartbeat_renew (pw_me c) (pw_ttl c) (pw_discovery_beats c)
                 (cas_guarded (pw_import_held c) discovery)) (\<lambda>(ran, _).
          if ran \<noteq> None
          then bnd get_db (\<lambda>d2. set_last_discovery_at (pw_me c) (now_us d2))
          else ret ())
     else ret ())))))"

section \<open>The production pass\<close>

text \<open>What the pass's two closures run: the drain over all shards, without a limit; both scans in full,
  then, on a connection of its own, the import. Each error is logged and swallowed.\<close>

record 'f sweep_worker =
  sw_pass :: pass_config
  sw_drain :: "'f drain_config"
  sw_fuel :: nat
  sw_run_ids :: "string \<times> string"
  sw_hetzner :: listing
  sw_storj :: listing
  sw_temp_prefix :: string
  sw_sfw_bucket :: string
  sw_batch :: int
  sw_cancel_import :: "nat option"
  sw_cancelled :: bool

definition swallow :: "(pgdb, 'e, 'a) proc \<Rightarrow> (pgdb, 'f, unit) proc" where
  "swallow m = bnd (attempt m) (\<lambda>_. ret ())"

definition sweep_drain :: "'f sweep_worker \<Rightarrow> unit pg" where
  "sweep_drain w = swallow (phash_run ((sw_drain w)\<lparr>dc_limit := None, dc_shard := None\<rparr>) (sw_fuel w)
     (fst (sw_run_ids w)) ''sweep_drain'')"

definition sweep_discovery :: "'f sweep_worker \<Rightarrow> unit pg" where
  "sweep_discovery w =
     bnd (swallow (scan_hetzner (sw_temp_prefix w) (sw_hetzner w) (sw_cancelled w) None None True)) (\<lambda>_.
     bnd (swallow (scan_storj (sw_storj w) (sw_cancelled w) None None True)) (\<lambda>_.
     bnd (attempt (exec id)) (\<lambda>conn. case conn of
         Inl (PgError _) \<Rightarrow> ret ()
       | Inr _ \<Rightarrow> swallow (import_current_video_index (sw_sfw_bucket w) (snd (sw_run_ids w)) (sw_batch w) None
                       (sw_cancel_import w) (sw_fuel w) ''sweep_discovery''))))"

definition run_pass :: "'f sweep_worker \<Rightarrow> unit pg" where
  "run_pass w = bnd (exec id) (\<lambda>_. run_one_pass (sw_pass w) (sweep_drain w) (sweep_discovery w))"

text \<open>The loop with the passes it gets to run before the shutdown token fires; a failing pass is logged
  and the loop goes on. At the end the lease is released as far as that works.\<close>

fun worker_passes :: "'f sweep_worker list \<Rightarrow> int \<Rightarrow> (pgdb, 'e, unit) proc" where
  "worker_passes [] pause = ret ()"
| "worker_passes (w # ws) pause =
     bnd (attempt (run_pass w)) (\<lambda>_.
     bnd (on_db (\<lambda>d. d\<lparr>now_us := now_us d + pause\<rparr>)) (\<lambda>_.
     worker_passes ws pause))"

definition worker_run :: "'f sweep_worker list \<Rightarrow> int \<Rightarrow> string \<Rightarrow> (pgdb, 'e, unit) proc" where
  "worker_run ws pause me =
     bnd (worker_passes ws pause) (\<lambda>_.
     bnd (attempt (exec id)) (\<lambda>conn. case conn of
         Inl (PgError _) \<Rightarrow> ret ()
       | Inr _ \<Rightarrow> swallow (release_lease me)))"

section \<open>Integrity under faults\<close>

lemma safe_renew_beats [safe_intros]: "safe (renew_beats b ttl n :: (pgdb, 'e, unit) proc)"
  by (induction n) (auto intro!: safe_intros safe_on_db)

lemma safe_with_heartbeat [safe_intros]: "safe fut \<Longrightarrow> safe (with_heartbeat_renew b ttl n fut)"
  unfolding with_heartbeat_renew_def by (intro safe_intros)

lemma safe_cas_guarded [safe_intros]: "safe f \<Longrightarrow> safe (cas_guarded held f)"
  unfolding cas_guarded_def by (intro safe_intros)

lemma safe_swallow [safe_intros]: "safe m \<Longrightarrow> safe (swallow m)"
  unfolding swallow_def by (intro safe_intros)

lemma safe_connect [safe_intros]: "safe (exec (id :: pgdb \<Rightarrow> pgdb))"
  by (rule safe_exec) simp_all

lemma safe_eligible [safe_intros]: "safe (any_eligible_for_hash k v i)"
  unfolding any_eligible_for_hash_def by (rule safe_query)

lemma safe_run_one_pass [safe_intros]:
  assumes "safe drain" and "safe discovery"
  shows "safe (run_one_pass c drain discovery)"
  unfolding run_one_pass_def using assms by (intro safe_intros) (auto intro!: safe_intros)

lemma safe_run_pass [safe_intros]: "safe (run_pass w)"
  unfolding run_pass_def sweep_drain_def sweep_discovery_def
  by (intro safe_intros) (auto intro!: safe_intros split: pg_error.split)

lemma safe_worker_passes [safe_intros]: "safe (worker_passes ws pause :: (pgdb, 'e, unit) proc)"
  by (induction ws) (auto intro!: safe_intros safe_on_db)

lemma safe_worker_run: "safe (worker_run ws pause me :: (pgdb, 'e, unit) proc)"
  unfolding worker_run_def
  by (intro safe_intros) (auto intro!: safe_intros split: pg_error.split)

end
