(* ===== verification/Scan_Props.thy ===== *)
theory Scan_Props
  imports Mirror_Jobs
begin

text \<open>
  The two scans share one loop; what the loop needs from the write of one key is the interface
  \<open>key_scan\<close>, interpreted for the full scan of each store. A full scan enters every listed video and
  loses nothing.
\<close>

locale key_scan =
  fixes video_of :: "string \<Rightarrow> string option"
    and put :: "string \<Rightarrow> string \<Rightarrow> unit job"
    and eff :: "string \<Rightarrow> string \<Rightarrow> pgdb \<Rightarrow> pgdb"
    and entered :: "string \<Rightarrow> string \<Rightarrow> pgdb \<Rightarrow> bool"
    and kept :: "pgdb \<Rightarrow> pgdb \<Rightarrow> bool"
  assumes put_run: "put v key ([], d) = (Inr (), [], eff v key d)"
    and key_inj: "video_of key = Some v \<Longrightarrow> video_of key' = Some v \<Longrightarrow> key = key'"
    and enters: "entered v key (eff v key d)"
    and enters_other: "v \<noteq> v' \<Longrightarrow> entered v key d \<Longrightarrow> entered v key (eff v' key' d)"
    and eff_size: "length (video_index (eff v key d)) \<le> Suc (length (video_index d))"
    and eff_kept: "kept d (eff v key d)"
    and kept_refl: "kept d d"
    and kept_trans: "kept d d1 \<Longrightarrow> kept d1 d2 \<Longrightarrow> kept d d2"
begin

lemma scan_keys_run:
  "\<exists>n' d'. scan_keys video_of put None keys n ([], d) = (Inr n', [], d') \<and> n' = n + length (filter (\<lambda>k. video_of k \<noteq> None) keys) \<and>
     kept d d' \<and> length (video_index d') \<le> length (video_index d) + length keys \<and>
     (\<forall>key v. video_of key = Some v \<and> (key \<in> set keys \<or> entered v key d) \<longrightarrow> entered v key d')"
proof (induction keys arbitrary: n d)
  case Nil
  then show ?case using kept_refl by auto
next
  case (Cons key keys)
  show ?case
  proof (cases "video_of key")
    case None
    with Cons.IH [of n d] show ?thesis by (fastforce simp: le_Suc_eq)
  next
    case (Some v)
    let ?d = "eff v key d"
    from Cons.IH [of "n + 1" ?d] obtain n' d' where
      run: "scan_keys video_of put None keys (n + 1) ([], ?d) = (Inr n', [], d')"
      and n: "n' = n + 1 + length (filter (\<lambda>k. video_of k \<noteq> None) keys)" and k: "kept ?d d'"
      and len: "length (video_index d') \<le> length (video_index ?d) + length keys"
      and e: "\<And>key' w. video_of key' = Some w \<Longrightarrow> key' \<in> set keys \<or> entered w key' ?d \<Longrightarrow> entered w key' d'"
      by blast
    have "entered w key' d'" if "video_of key' = Some w" "key' \<in> set (key # keys) \<or> entered w key' d" for key' w
    proof (cases "w = v")
      case True
      with that(1) Some key_inj have "key' = key" by blast
      with True enters e that(1) show ?thesis by blast
    next
      case False
      with that Some enters_other e show ?thesis by auto
    qed
    moreover have "kept d d'" using kept_trans [OF eff_kept k] .
    moreover have "length (video_index d') \<le> length (video_index d) + length (key # keys)"
      using len eff_size [of v key d] by simp
    ultimately show ?thesis using run n Some by (auto simp: run_bnd put_run reached_def)
  qed
qed

lemma full_scan_run:
  assumes "ls prefix None = Inr keys"
  shows "\<exists>n' d'. scan_run store max_of video_of put ls False None prefix True ([], d) = (Inr n', [], d') \<and>
     n' = length (filter (\<lambda>k. video_of k \<noteq> None) keys) \<and>
     kept d d' \<and> length (video_index d') \<le> length (video_index d) + length keys \<and>
     (\<forall>key \<in> set keys. \<forall>v. video_of key = Some v \<longrightarrow> entered v key d')"
  using scan_keys_run [of keys 0 d] assms
  by (fastforce simp: scan_run_def run_bnd run_map_err run_exec)

end

section \<open>What a scan enters and keeps\<close>

definition hetzner_entered :: "string \<Rightarrow> string \<Rightarrow> pgdb \<Rightarrow> bool" where
  "hetzner_entered v key d \<longleftrightarrow> (\<exists>r j. row_of vi_video_id v (video_index d) = Some r \<and> vi_hetzner_key r = Some key \<and>
     row_of mj_video_id v (mirror_jobs d) = Some j \<and> mj_status j \<noteq> MFailed \<and>
     (mj_status j = MPending \<longrightarrow> vi_phash r = None))"

definition storj_entered :: "string \<Rightarrow> string \<Rightarrow> pgdb \<Rightarrow> bool" where
  "storj_entered v key d \<longleftrightarrow> (\<exists>r. row_of vi_video_id v (video_index d) = Some r \<and> vi_storj_key r = Some key) \<and>
     (\<forall>j. row_of mj_video_id v (mirror_jobs d) = Some j \<longrightarrow> mj_status j \<noteq> MFailed)"

text \<open>Rows stay, keys and hashes of a row stay known, a job that is past hashing keeps its status, and the
  runs are not touched.\<close>

definition scan_kept :: "pgdb \<Rightarrow> pgdb \<Rightarrow> bool" where
  "scan_kept d d' \<longleftrightarrow> job_runs d' = job_runs d \<and>
     (\<forall>v r. row_of vi_video_id v (video_index d) = Some r \<longrightarrow> (\<exists>r'. row_of vi_video_id v (video_index d') = Some r' \<and>
        vi_phash r' = vi_phash r \<and> (vi_hetzner_key r \<noteq> None \<longrightarrow> vi_hetzner_key r' \<noteq> None) \<and>
        (vi_storj_key r \<noteq> None \<longrightarrow> vi_storj_key r' \<noteq> None))) \<and>
     (\<forall>v j. row_of mj_video_id v (mirror_jobs d) = Some j \<longrightarrow> (\<exists>j'. row_of mj_video_id v (mirror_jobs d') = Some j' \<and>
        (mj_status j \<noteq> MPending \<and> mj_status j \<noteq> MFailed \<longrightarrow> mj_status j' = mj_status j)))"

lemma scan_kept_trans: "scan_kept d d1 \<Longrightarrow> scan_kept d1 d2 \<Longrightarrow> scan_kept d d2"
  unfolding scan_kept_def by (intro conjI; metis)

definition hetzner_effect :: "string \<Rightarrow> string \<Rightarrow> string \<Rightarrow> pgdb \<Rightarrow> pgdb" where
  "hetzner_effect temp_prefix v key d = db_after (upsert_hetzner_key_with_reset v key (contains key temp_prefix)) ([], d)"

definition storj_effect :: "string \<Rightarrow> string \<Rightarrow> pgdb \<Rightarrow> pgdb" where
  "storj_effect v key d = db_after (upsert_storj_key_with_reset v key) ([], d)"

lemma hetzner_index:
  "row_of vi_video_id w (video_index (hetzner_effect tp v key d)) =
     (if w = v then Some (case row_of vi_video_id v (video_index d) of
          None \<Rightarrow> index_row (now_us d) v None (Some key) | Some r \<Rightarrow> r\<lparr>vi_hetzner_key := Some key\<rparr>)
      else row_of vi_video_id w (video_index d))"
  by (auto simp: hetzner_effect_def db_after_def upsert_hetzner_key_with_reset_def run_exec put_hetzner_key_def
      row_of_upsert split: option.splits)

lemma hetzner_job:
  "row_of mj_video_id w (mirror_jobs (hetzner_effect tp v key d)) =
     (if w \<noteq> v then row_of mj_video_id w (mirror_jobs d)
      else let st = entry_status v (put_hetzner_key v key d); t = contains key tp in
        Some (case row_of mj_video_id v (mirror_jobs d) of
          None \<Rightarrow> \<lparr>mj_video_id = v, mj_is_temp = t, mj_retry_count = 0, mj_status = st, mj_error_message = None,
                 mj_updated_at = now_us d\<rparr>
        | Some j \<Rightarrow> touch (now_us d) (j\<lparr>mj_is_temp := t,
            mj_status := (if mj_status j = MFailed \<or> mj_status j = MPending then st else mj_status j),
            mj_retry_count := (if mj_status j = MFailed then 0 else mj_retry_count j),
            mj_error_message := (if mj_status j = MFailed then None else mj_error_message j)\<rparr>)))"
  by (auto simp: hetzner_effect_def db_after_def upsert_hetzner_key_with_reset_def run_exec put_mirror_job_def Let_def
      row_of_upsert split: option.splits)

lemma entry_status_put:
  "entry_status v (put_hetzner_key v key d) =
     (case row_of vi_video_id v (video_index d) of
        Some r \<Rightarrow> if vi_phash r \<noteq> None then MPhashComputed else MPending | None \<Rightarrow> MPending)"
  by (auto simp: entry_status_def put_hetzner_key_def row_of_upsert index_row_def split: option.splits)

lemma storj_index:
  "row_of vi_video_id w (video_index (storj_effect v key d)) =
     (if w = v then Some (case row_of vi_video_id v (video_index d) of
          None \<Rightarrow> index_row (now_us d) v (Some key) None | Some r \<Rightarrow> r\<lparr>vi_storj_key := Some key\<rparr>)
      else row_of vi_video_id w (video_index d))"
  by (auto simp: storj_effect_def db_after_def upsert_storj_key_with_reset_def run_exec put_storj_key_def
      row_of_upsert split: option.splits)

lemma storj_job:
  "row_of mj_video_id w (mirror_jobs (storj_effect v key d)) =
     map_option (\<lambda>j. if mj_video_id j = v then touch (now_us d) (reset_failed j) else j)
       (row_of mj_video_id w (mirror_jobs d))"
  by (simp add: storj_effect_def db_after_def upsert_storj_key_with_reset_def run_exec update_jobs_def row_of_update)

section \<open>The two scans\<close>

lemma hetzner_video_eq: "hetzner_video key = Some v \<Longrightarrow> key = v @ ''.mp4''"
  by (auto simp: hetzner_video_def video_id_from_key_def split: if_splits)

lemma hetzner_effect_size: "length (video_index (hetzner_effect tp v key d)) \<le> Suc (length (video_index d))"
  by (auto simp: hetzner_effect_def db_after_def upsert_hetzner_key_with_reset_def run_exec put_mirror_job_def Let_def
      put_hetzner_key_def upsert_def update_where_def)

lemma storj_effect_size: "length (video_index (storj_effect v key d)) \<le> Suc (length (video_index d))"
  by (auto simp: storj_effect_def db_after_def upsert_storj_key_with_reset_def run_exec update_jobs_def
      put_storj_key_def upsert_def update_where_def)

lemma effect_runs:
  "job_runs (hetzner_effect tp v key d) = job_runs d" "job_runs (storj_effect v key d) = job_runs d"
  by (auto simp: hetzner_effect_def storj_effect_def db_after_def upsert_hetzner_key_with_reset_def
      upsert_storj_key_with_reset_def run_exec put_mirror_job_def put_hetzner_key_def put_storj_key_def
      update_jobs_def Let_def)

lemma hetzner_enters: "hetzner_entered v key (hetzner_effect tp v key d)"
  by (auto simp: hetzner_entered_def hetzner_index hetzner_job entry_status_put Let_def touch_def index_row_def
      split: option.splits)

lemma hetzner_enters_other:
  "v \<noteq> v' \<Longrightarrow> hetzner_entered v key d \<Longrightarrow> hetzner_entered v key (hetzner_effect tp v' key' d)"
  by (simp add: hetzner_entered_def hetzner_index hetzner_job)

lemma reset_status: "mj_status (touch t (reset_failed j)) \<noteq> MFailed"
  by (simp add: touch_def reset_failed_def)

lemma storj_enters: "storj_entered v key (storj_effect v key d)"
proof -
  have "mj_status j \<noteq> MFailed" if "row_of mj_video_id v (mirror_jobs (storj_effect v key d)) = Some j" for j
  proof -
    from that obtain z where "row_of mj_video_id v (mirror_jobs d) = Some z"
      and "j = (if mj_video_id z = v then touch (now_us d) (reset_failed z) else z)"
      by (auto simp: storj_job)
    then show ?thesis by (metis reset_status row_of_id)
  qed
  then show ?thesis by (simp add: storj_entered_def storj_index index_row_def split: option.split)
qed

lemma storj_enters_other:
  "v \<noteq> v' \<Longrightarrow> storj_entered v key d \<Longrightarrow> storj_entered v key (storj_effect v' key' d)"
  by (auto simp: storj_entered_def storj_index storj_job touch_def reset_failed_def split: option.splits)

lemma hetzner_kept: "scan_kept d (hetzner_effect tp v key d)"
  by (auto simp: scan_kept_def effect_runs hetzner_index hetzner_job Let_def touch_def)

lemma storj_kept: "scan_kept d (storj_effect v key d)"
  by (auto simp: scan_kept_def effect_runs storj_index storj_job touch_def reset_failed_def)

lemma scan_kept_refl: "scan_kept d d"
  by (simp add: scan_kept_def)

lemma full_puts_run:
  "upsert_hetzner_key_with_reset v key t ([], d) = (Inr (), [], db_after (upsert_hetzner_key_with_reset v key t) ([], d))"
  "upsert_storj_key_with_reset v key ([], d) = (Inr (), [], db_after (upsert_storj_key_with_reset v key) ([], d))"
  by (simp_all add: db_after_def upsert_hetzner_key_with_reset_def upsert_storj_key_with_reset_def run_exec)

interpretation hz: key_scan hetzner_video
  "\<lambda>v key. map_err (put_error True key) (upsert_hetzner_key_with_reset v key (contains key tp))"
  "hetzner_effect tp" hetzner_entered scan_kept for tp
proof unfold_locales
  show "map_err (put_error True key) (upsert_hetzner_key_with_reset v key (contains key tp)) ([], d) =
      (Inr (), [], hetzner_effect tp v key d)" for v key d
    by (simp add: run_map_err full_puts_run(1) hetzner_effect_def)
qed (auto simp: hetzner_enters hetzner_enters_other hetzner_effect_size hetzner_kept scan_kept_refl
  dest: hetzner_video_eq intro: scan_kept_trans)

interpretation sj: key_scan video_id_from_key
  "\<lambda>v key. map_err (put_error True key) (upsert_storj_key_with_reset v key)" storj_effect storj_entered scan_kept
proof unfold_locales
  show "map_err (put_error True key) (upsert_storj_key_with_reset v key) ([], d) = (Inr (), [], storj_effect v key d)"
    for v key d
    by (simp add: run_map_err full_puts_run(2) storj_effect_def)
qed (auto simp: storj_enters storj_enters_other storj_effect_size storj_kept scan_kept_refl video_id_from_key_def
  intro: scan_kept_trans)

text \<open>A full scan of Hetzner enters every listed video, whatever order the listing has: it counts them, the
  index knows the key of each, each has a job that is not failed and, if it is pending, has a hash to come;
  and nothing known is lost (rows, keys, hashes, the progress of jobs past hashing).\<close>

lemma full_hetzner_scan:
  assumes "ls prefix None = Inr keys"
  shows "\<exists>d'. scan_hetzner tp ls False None prefix True ([], d) =
      (Inr (length (filter (\<lambda>k. hetzner_video k \<noteq> None) keys)), [], d') \<and> scan_kept d d' \<and>
     length (video_index d') \<le> length (video_index d) + length keys \<and>
     (\<forall>key \<in> set keys. \<forall>v. hetzner_video key = Some v \<longrightarrow> hetzner_entered v key d')"
  using hz.full_scan_run [where ls = ls and max_of = get_max_hetzner_key and store = "''Hetzner''" and prefix = prefix
      and keys = keys and d = d and tp = tp] assms
  unfolding scan_hetzner_def if_True by auto

lemma scan_storj_full:
  assumes "ls prefix None = Inr keys"
  shows "\<exists>n d'. scan_storj ls False None prefix True ([], d) = (Inr n, [], d') \<and> scan_kept d d' \<and>
     length (video_index d') \<le> length (video_index d) + length keys \<and>
     (\<forall>key \<in> set keys. \<forall>v. video_id_from_key key = Some v \<longrightarrow> storj_entered v key d')"
  using sj.full_scan_run [where ls = ls and max_of = get_max_storj_key and store = "''Storj''" and prefix = prefix
      and keys = keys and d = d] assms
  unfolding scan_storj_def if_True by auto

end
