(* ===== verification/Sweep_Worker_Props.thy ===== *)
theory Sweep_Worker_Props
  imports Sweep_Worker Scan_Props Media_Import_Props Mirror_Props
begin

text \<open>
  What the sweep worker promises: a box without the lease does nothing, the keep-alive task holds the
  lease through failing renewals, a pass leaves the lease and the cadence as its documentation says, and
  discovery brings every listed video into the master table.
\<close>

section \<open>The lease through a pass\<close>

text \<open>At most two renewals in a row fail.\<close>

fun tolerable :: "nat \<Rightarrow> fault_plan \<Rightarrow> bool" where
  "tolerable k [] = True"
| "tolerable k (None # p) = tolerable 0 p"
| "tolerable k (Some e # p) = (k < 2 \<and> tolerable (Suc k) p)"

lemma renew_beats_hold:
  assumes "sweep_lease d = Some l" and "ls_owner l = b" and "now_us d = ls_heartbeat l + int k * (ttl div 3)"
    and "tolerable k p" and "k \<le> 2"
  shows "\<exists>r q d' l' k'. renew_beats b ttl n (p, d) = (r, q, d') \<and> sweep_lease d' = Some l' \<and> ls_owner l' = b \<and>
     k' \<le> 2 \<and> now_us d' = ls_heartbeat l' + int k' * (ttl div 3)"
  using assms
proof (induction n arbitrary: p d l k)
  case 0
  then show ?case by auto
next
  case (Suc n)
  let ?d = "d\<lparr>now_us := now_us d + ttl div 3\<rparr>"
  show ?case
  proof (cases "\<exists>e q. p = Some e # q")
    case True
    then obtain e q where p: "p = Some e # q" by blast
    then have "tolerable (Suc k) q" "Suc k \<le> 2" using Suc.prems(4) by auto
    moreover have "now_us ?d = ls_heartbeat l + int (Suc k) * (ttl div 3)"
      using Suc.prems(3) by (simp add: algebra_simps)
    ultimately show ?thesis
      using Suc.IH [of ?d l "Suc k" q] Suc.prems(1,2)
      by (simp add: p run_bnd run_attempt acquire_or_renew_lease_def stmt_def)
  next
    case False
    then have p: "p = [] \<or> (\<exists>q. p = None # q)" by (metis list.exhaust option.exhaust)
    let ?d2 = "?d\<lparr>sweep_lease := Some (l\<lparr>ls_owner := b, ls_heartbeat := now_us ?d\<rparr>)\<rparr>"
    have "tolerable 0 (tl p)" using Suc.prems(4) p by auto
    then show ?thesis
      using Suc.IH [of ?d2 "l\<lparr>ls_owner := b, ls_heartbeat := now_us ?d\<rparr>" 0 "tl p"] Suc.prems(1,2) p
      by (auto simp: run_bnd run_attempt acquire_or_renew_lease_def stmt_def)
  qed
qed

text \<open>The keep-alive task holds the lease: while at most two of its renewals fail in a row, no peer can
  take the lease from the box at any moment up to the next renewal, however long the work runs.\<close>

lemma heartbeat_holds_lease:
  assumes "sweep_lease d = Some l" and "ls_owner l = b" and "ls_heartbeat l = now_us d"
    and "tolerable 0 p" and "c \<noteq> b" and "0 \<le> x" and "x \<le> ttl div 3"
  shows "\<exists>r q d'. (renew_beats b ttl n :: (pgdb, 'e, unit) proc) (p, d) = (r, q, d') \<and>
     \<not> can_acquire c ttl (d'\<lparr>now_us := now_us d' + x\<rparr>)"
proof -
  have "now_us d = ls_heartbeat l + int 0 * (ttl div 3)" using assms(3) by simp
  from renew_beats_hold [OF assms(1,2) this assms(4), of n] obtain r :: "'e + unit" and q d' l' k' where
    run: "renew_beats b ttl n (p, d) = (r, q, d')" and l': "sweep_lease d' = Some l'" "ls_owner l' = b"
    and k': "k' \<le> 2" and now: "now_us d' = ls_heartbeat l' + int k' * (ttl div 3)" by blast
  have "int k' * (ttl div 3) \<le> 2 * (ttl div 3)"
    using k' assms(6,7) by (intro mult_right_mono) auto
  then have "now_us d' + x - ls_heartbeat l' \<le> ttl" using now assms(7) by linarith
  with l' assms(5) have "\<not> can_acquire c ttl (d'\<lparr>now_us := now_us d' + x\<rparr>)"
    by (auto simp: can_acquire_def)
  with run show ?thesis by blast
qed

lemma heartbeat_holds_lease_witness:
  "\<exists>r q d'. renew_beats ''a'' 60 3 ([None, Some (PgError ''x''), Some (PgError ''x'')],
      (empty_db 5)\<lparr>sweep_lease := Some \<lparr>ls_owner = ''a'', ls_heartbeat = 5, ls_last_discovery_at = None\<rparr>\<rparr>) = (r, q, d') \<and>
     \<not> can_acquire ''b'' 60 (d'\<lparr>now_us := now_us d' + 20\<rparr>)"
  using heartbeat_holds_lease [of "(empty_db 5)\<lparr>sweep_lease := Some \<lparr>ls_owner = ''a'', ls_heartbeat = 5,
      ls_last_discovery_at = None\<rparr>\<rparr>" "\<lparr>ls_owner = ''a'', ls_heartbeat = 5, ls_last_discovery_at = None\<rparr>" "''a''"
      "[None, Some (PgError ''x''), Some (PgError ''x'')]" "''b''" 20 60 3]
  by (simp add: empty_db_def)

text \<open>Only the elected box works: when a peer holds a lease that is not stale, or the election itself
  fails, a pass runs neither the drain nor discovery and leaves the database as it is.\<close>

lemma unelected_pass_is_void:
  assumes "\<not> can_acquire (pw_me c) (pw_ttl c) d"
  shows "db_after (run_one_pass c drain discovery) (p, d) = d"
  using assms
  by (cases p rule: list.exhaust [case_product option.exhaust])
     (auto simp: run_one_pass_def db_after_def run_bnd acquire_or_renew_lease_def stmt_def can_acquire_def
      split: option.splits list.splits)

section \<open>The work leaves the lease alone\<close>

text \<open>\<open>aloof m\<close>: \<open>m\<close> neither touches the lease nor the clock, under any faults, and meets no fault of its own.\<close>

definition aloof :: "(pgdb, 'e, 'a) proc \<Rightarrow> bool" where
  "aloof m \<longleftrightarrow> (\<forall>p d r q d'. m (p, d) = (r, q, d') \<longrightarrow>
     sweep_lease d' = sweep_lease d \<and> now_us d' = now_us d \<and> (p = [] \<longrightarrow> q = []))"

named_theorems aloof_intros "procedures that leave lease and clock alone"

lemma aloofD: "aloof m \<Longrightarrow> m (p, d) = (r, q, d') \<Longrightarrow>
    sweep_lease d' = sweep_lease d \<and> now_us d' = now_us d \<and> (p = [] \<longrightarrow> q = [])"
  by (auto simp: aloof_def)

lemma aloofI: "(\<And>p d r q d'. m (p, d) = (r, q, d') \<Longrightarrow>
    sweep_lease d' = sweep_lease d \<and> now_us d' = now_us d \<and> (p = [] \<longrightarrow> q = [])) \<Longrightarrow> aloof m"
  by (auto simp: aloof_def)

lemma aloof_stmt: "(\<And>d x d'. f d = Inr (x, d') \<Longrightarrow> sweep_lease d' = sweep_lease d \<and> now_us d' = now_us d) \<Longrightarrow> aloof (stmt f)"
  by (auto simp: aloof_def stmt_def split: list.splits option.splits sum.splits)

lemma aloof_exec [aloof_intros]:
  "(\<And>d. sweep_lease (f d) = sweep_lease d) \<Longrightarrow> (\<And>d. now_us (f d) = now_us d) \<Longrightarrow> aloof (exec f)"
  unfolding exec_def by (rule aloof_stmt) auto

lemma aloof_pres [aloof_intros]: "aloof (ret x)" "aloof (raise e)" "aloof get_db"
  by (simp_all add: aloof_def)

lemma aloof_query [aloof_intros]: "aloof (query q)"
  unfolding query_def by (rule aloof_stmt) auto

lemma aloof_bnd [aloof_intros]:
  assumes "aloof m" and "\<And>x. aloof (k x)"
  shows "aloof (bnd m k)"
proof (rule aloofI)
  fix p d r q d'
  assume run: "bnd m k (p, d) = (r, q, d')"
  obtain r1 p1 d1 where m: "m (p, d) = (r1, p1, d1)" by (metis prod_cases3)
  from run m aloofD [OF assms(1) m]
  show "sweep_lease d' = sweep_lease d \<and> now_us d' = now_us d \<and> (p = [] \<longrightarrow> q = [])"
    by (cases r1) (auto simp: bnd_def dest: aloofD [OF assms(2)])
qed

lemma aloof_comb [aloof_intros]: "aloof m \<Longrightarrow> aloof (attempt m)" "aloof m \<Longrightarrow> aloof (map_err g m)"
  by (auto simp: aloof_def attempt_def map_err_def split: prod.splits sum.splits)

lemma aloof_for_each [aloof_intros]: "(\<And>x c. aloof (body x c)) \<Longrightarrow> aloof (for_each body xs c)"
  by (induction xs arbitrary: c) (auto intro: aloof_intros)

lemma aloof_tx_run [aloof_intros]:
  assumes "aloof m"
  shows "aloof (tx_run end_tx rollback_tx m)"
proof (rule aloofI)
  fix p d r q d'
  assume run: "tx_run end_tx rollback_tx m (p, d) = (r, q, d')"
  have ex: "aloof (exec id)" "aloof (exec end_tx)" by (intro aloof_intros; simp add: end_tx_def)+
  obtain r1 p1 d1 where b: "exec id (p, d) = (r1, p1, d1)" by (metis prod_cases3)
  obtain r2 p2 d2 where m: "m (p1, d) = (r2, p2, d2)" by (metis prod_cases3)
  obtain r3 p3 d3 where c: "exec end_tx (p2, d2) = (r3, p3, d3)" by (metis prod_cases3)
  from run b m c aloofD [OF ex(1) b] aloofD [OF assms m] aloofD [OF ex(2) c]
  show "sweep_lease d' = sweep_lease d \<and> now_us d' = now_us d \<and> (p = [] \<longrightarrow> q = [])"
    by (cases r1; cases r2; cases r3) (auto simp: tx_run_def rollback_tx_def)
qed

lemma aloof_cases [aloof_intros]:
  "(b \<Longrightarrow> aloof m) \<Longrightarrow> (\<not> b \<Longrightarrow> aloof k) \<Longrightarrow> aloof (if b then m else k)"
  "aloof m1 \<Longrightarrow> (\<And>y. aloof (k1 y)) \<Longrightarrow> aloof (case x1 of None \<Rightarrow> m1 | Some y \<Rightarrow> k1 y)"
  "(\<And>y. aloof (m2 y)) \<Longrightarrow> (\<And>y. aloof (k2 y)) \<Longrightarrow> aloof (case x2 of Inl y \<Rightarrow> m2 y | Inr y \<Rightarrow> k2 y)"
  "(\<And>a b. aloof (k3 a b)) \<Longrightarrow> aloof (case x3 of (a, b) \<Rightarrow> k3 a b)"
  "(\<And>t. aloof (k4 t)) \<Longrightarrow> aloof (case x4 of PgError t \<Rightarrow> k4 t)"
  by (auto split: option.split sum.split prod.split pg_error.split)

lemma aloof_transaction [aloof_intros]: "aloof m \<Longrightarrow> aloof (transaction m)"
  unfolding tx_try_def by (intro aloof_intros)

lemma aloof_repo [aloof_intros]:
  "aloof (upsert_hash_record_txn h)" "aloof (append_feed_event_txn i)" "aloof (upsert_servable_video_txn v)"
  "aloof (update_job_run_totals run t)"
  unfolding upsert_hash_record_txn_def append_code insert_feed_row_def upsert_servable_video_txn_def
    insert_source_row_def update_job_run_totals_def
  by (intro aloof_intros aloof_stmt; auto simp: Let_def split: if_splits option.splits prod.splits)+

lemma aloof_drain_stmts [aloof_intros]:
  "aloof (record_row_failure_txn run v ph e)" "aloof (insert_job_run run by')" "aloof (complete_job_run s st)"
  "aloof (mark_job_run_failed run e)" "aloof (videos_missing_canonical_phash ht kd ver imv after lim shard)"
  unfolding record_row_failure_txn_def insert_job_run_def complete_job_run_def mark_job_run_failed_def
    videos_missing_canonical_phash_def
  by (intro aloof_intros aloof_stmt; auto simp: Let_def split: if_splits option.splits sum.splits prod.splits)+

lemma aloof_persist_stream [aloof_intros]: "aloof (persist_stream env cancel run rows s k)"
proof (induction rows arbitrary: s k)
  case (Cons row rows)
  then show ?case unfolding persist_stream.simps persist_one_def
    by (intro aloof_intros; auto simp: clear_failures_def)
qed (simp add: aloof_intros)

lemma aloof_drain_loop [aloof_intros]: "aloof (drain_loop c run fuel after s k)"
proof (induction fuel arbitrary: after s k)
  case (Suc fuel)
  then show ?case unfolding drain_loop.simps Let_def by (intro aloof_intros; blast)
qed (simp add: aloof_intros)

lemma aloof_phash_run [aloof_intros]: "aloof (phash_run c fuel run by')"
  unfolding phash_run_def run_inner_def by (intro aloof_intros; simp)

lemma aloof_import_stmts [aloof_intros]:
  "aloof (record_import_failure_txn run v ph e)" "aloof (insert_import_run run by')" "aloof (complete_import_run si st)"
  "aloof (mark_import_run_failed run e)" "aloof (fetch_missing_legacy_rows_after after lim)"
  unfolding record_import_failure_txn_def insert_import_run_def complete_import_run_def mark_import_run_failed_def
    fetch_missing_legacy_rows_after_def
  by (intro aloof_intros aloof_stmt; auto simp: Let_def split: if_splits option.splits)+

lemma aloof_import_one [aloof_intros]: "aloof (import_one_row_txn sfw row run)"
  unfolding import_one_row_txn_def import_media_row_txn_def import_hash_txn_def
  by (intro aloof_intros; simp)

lemma aloof_import_rows [aloof_intros]: "aloof (import_rows sfw run rows s k)"
proof (induction rows arbitrary: s k)
  case (Cons row rows)
  then show ?case unfolding import_rows.simps by (intro aloof_intros; blast)
qed (simp add: aloof_intros)

lemma aloof_import_page [aloof_intros]: "aloof (import_page sfw run page s k)"
  unfolding import_page_def import_batch_def by (intro aloof_intros)

lemma aloof_import_loop [aloof_intros]: "aloof (import_loop sfw run batch lim cancel fuel after s k polls)"
proof (induction fuel arbitrary: after s k polls)
  case (Suc fuel)
  then show ?case unfolding import_loop.simps Let_def by (intro aloof_intros; blast)
qed (simp add: aloof_intros)

lemma aloof_import [aloof_intros]: "aloof (import_current_video_index sfw run batch lim cancel fuel by')"
  unfolding import_current_video_index_def import_inner_def Let_def by (intro aloof_intros)

lemma put_lease [simp]:
  "sweep_lease (put_storj_key v k d) = sweep_lease d" "sweep_lease (put_hetzner_key v k d) = sweep_lease d"
  "sweep_lease (put_mirror_job v t f d) = sweep_lease d" "sweep_lease (update_jobs P g d) = sweep_lease d"
  "now_us (put_mirror_job v t f d) = now_us d"
  by (simp_all add: put_storj_key_def put_hetzner_key_def put_mirror_job_def update_jobs_def Let_def)

lemma aloof_scan_stmts [aloof_intros]:
  "aloof (upsert_storj_key v k)" "aloof (upsert_storj_key_with_reset v k)"
  "aloof (upsert_hetzner_key v k b)" "aloof (upsert_hetzner_key_with_reset v k b)"
  "aloof (get_max_storj_key pre)" "aloof (get_max_hetzner_key pre)"
  unfolding upsert_storj_key_def upsert_storj_key_with_reset_def upsert_hetzner_key_def
    upsert_hetzner_key_with_reset_def get_max_storj_key_def get_max_hetzner_key_def
  by (intro aloof_intros; simp)+

lemma aloof_scan_keys [aloof_intros]:
  "(\<And>v k. aloof (put v k)) \<Longrightarrow> aloof (scan_keys video_of put lim keys n)"
proof (induction keys arbitrary: n)
  case (Cons key keys)
  then show ?case unfolding scan_keys.simps by (intro aloof_intros; blast)
qed (simp add: aloof_intros)

lemma aloof_scans [aloof_intros]:
  "aloof (scan_storj ls cancelled lim prefix full_scan)" "aloof (scan_hetzner temp ls cancelled lim prefix full_scan)"
  unfolding scan_storj_def scan_hetzner_def scan_run_def by (intro aloof_intros; simp)+

lemma aloof_work: "aloof (sweep_drain w)" "aloof (sweep_discovery w)"
  unfolding sweep_drain_def sweep_discovery_def swallow_def by (intro aloof_intros; simp)+

section \<open>A whole pass\<close>

text \<open>\<open>fresh me last d\<close>: the box holds the lease with a heartbeat of now and the given cadence.\<close>

definition fresh :: "string \<Rightarrow> int option \<Rightarrow> pgdb \<Rightarrow> bool" where
  "fresh me ld d \<longleftrightarrow> sweep_lease d = Some \<lparr>ls_owner = me, ls_heartbeat = now_us d, ls_last_discovery_at = ld\<rparr>"

lemma renew_fresh:
  "fresh me ld d \<Longrightarrow> \<exists>d'. renew_beats me ttl n ([], d) = (Inr (), [], d') \<and> fresh me ld d' \<and>
     now_us d' = now_us d + int n * (ttl div 3)"
proof (induction n arbitrary: d)
  case (Suc n)
  let ?d = "d\<lparr>now_us := now_us d + ttl div 3,
     sweep_lease := Some \<lparr>ls_owner = me, ls_heartbeat = now_us d + ttl div 3, ls_last_discovery_at = ld\<rparr>\<rparr>"
  have "fresh me ld ?d" by (simp add: fresh_def)
  from Suc.IH [OF this] Suc.prems show ?case
    by (auto simp: run_bnd run_attempt acquire_or_renew_lease_def run_stmt fresh_def algebra_simps)
qed simp

lemma swallow_run:
  assumes "aloof m" and "fresh me ld d"
  shows "\<exists>d'. swallow m ([], d) = (Inr (), [], d') \<and> fresh me ld d' \<and> now_us d' = now_us d"
proof -
  obtain r q d' where m: "m ([], d) = (r, q, d')" by (metis prod_cases3)
  from aloofD [OF assms(1) m] assms(2) m show ?thesis
    by (auto simp: swallow_def run_bnd run_attempt fresh_def)
qed

lemma drain_fresh:
  "fresh me ld d \<Longrightarrow> \<exists>d'. sweep_drain w ([], d) = (Inr (), [], d') \<and> fresh me ld d' \<and> now_us d' = now_us d"
  unfolding sweep_drain_def by (rule swallow_run [OF aloof_phash_run])

lemma discovery_fresh:
  assumes "fresh me ld d"
  shows "\<exists>d'. sweep_discovery w ([], d) = (Inr (), [], d') \<and> fresh me ld d' \<and> now_us d' = now_us d"
proof -
  from swallow_run [OF aloof_scans(2) assms] obtain d1 where
    1: "swallow (scan_hetzner (sw_temp_prefix w) (sw_hetzner w) (sw_cancelled w) None None True) ([], d) =
       ((Inr () :: pg_error + unit), [], d1)" "fresh me ld d1" "now_us d1 = now_us d" by blast
  from swallow_run [OF aloof_scans(1) 1(2)] obtain d2 where
    2: "swallow (scan_storj (sw_storj w) (sw_cancelled w) None None True) ([], d1) =
       ((Inr () :: pg_error + unit), [], d2)" "fresh me ld d2" "now_us d2 = now_us d1" by blast
  from swallow_run [OF aloof_import 2(2)] obtain d3 where
    "swallow (import_current_video_index (sw_sfw_bucket w) (snd (sw_run_ids w)) (sw_batch w) None
       (sw_cancel_import w) (sw_fuel w) ''sweep_discovery'') ([], d2) = ((Inr () :: pg_error + unit), [], d3)"
    "fresh me ld d3" "now_us d3 = now_us d2" by blast
  with 1 2 show ?thesis by (simp add: sweep_discovery_def run_bnd run_attempt run_exec)
qed

lemma guarded_fresh:
  fixes f :: "(pgdb, 'e, unit) proc"
  assumes "\<And>d. fresh me ld d \<Longrightarrow> \<exists>d'. f ([], d) = (Inr (), [], d') \<and> fresh me ld d' \<and> now_us d' = now_us d"
    and "fresh me ld d"
  shows "\<exists>d'. with_heartbeat_renew me ttl n (cas_guarded held f) ([], d) =
      (Inr (if held then None else Some (), held), [], d') \<and> fresh me ld d' \<and>
     now_us d' = now_us d + int n * (ttl div 3)"
proof -
  have renew: "\<exists>d'. (renew_beats me ttl n :: (pgdb, 'e, unit) proc) ([], e) = (Inr (), [], d') \<and> fresh me ld d' \<and>
     now_us d' = now_us e + int n * (ttl div 3)" if "fresh me ld e" for e
    using that by (rule renew_fresh)
  obtain d1 where f: "f ([], d) = (Inr (), [], d1)" "fresh me ld d1" "now_us d1 = now_us d"
    using assms by blast
  show ?thesis
    using renew [OF assms(2)] renew [OF f(2)] f(1,3)
    by (cases held) (auto simp: with_heartbeat_renew_def cas_guarded_def run_bnd)
qed

definition after_drain :: "'f sweep_worker \<Rightarrow> pgdb \<Rightarrow> int" where
  "after_drain w d = now_us d + (if eligible_exists HASH_KIND HASH_VERSION INPUT_MEDIA_VERSION d
     then int (pw_drain_beats (sw_pass w)) * (pw_ttl (sw_pass w) div 3) else 0)"

text \<open>What a pass of the elected box leaves, without faults: it holds the lease with a heartbeat of
  now, although drain and discovery ran for any length of time; the cadence is the current time if
  discovery was due (at the time the drain had ended) and the import flag was free, and what it was
  otherwise.\<close>

lemma elected_pass_exact:
  assumes "can_acquire (pw_me (sw_pass w)) (pw_ttl (sw_pass w)) d"
  shows "\<exists>d'. run_pass w ([], d) = (Inr (), [], d') \<and> sweep_lease d' = Some \<lparr>ls_owner = pw_me (sw_pass w),
      ls_heartbeat = now_us d', ls_last_discovery_at =
        (if discovery_due (cadence d) (pw_discovery_interval (sw_pass w)) (after_drain w d) \<and>
            \<not> pw_import_held (sw_pass w) then Some (now_us d') else cadence d)\<rparr>"
proof -
  let ?c = "sw_pass w"
  let ?me = "pw_me ?c" and ?ttl = "pw_ttl ?c" and ?ld = "cadence d"
  define d0 where "d0 = d\<lparr>sweep_lease := Some \<lparr>ls_owner = ?me, ls_heartbeat = now_us d, ls_last_discovery_at = ?ld\<rparr>\<rparr>"
  let ?el = "eligible_exists HASH_KIND HASH_VERSION INPUT_MEDIA_VERSION d"
  have acq: "acquire_or_renew_lease ?me ?ttl ([], d) = (Inr True, [], d0)"
    using assms by (cases "sweep_lease d")
      (auto simp: acquire_or_renew_lease_def run_stmt can_acquire_def cadence_def d0_def)
  have el: "eligible_exists HASH_KIND HASH_VERSION INPUT_MEDIA_VERSION d0 = ?el"
    by (simp add: d0_def eligible_exists_def has_hash_def not_backing_off_def)
  have f0: "fresh ?me ?ld d0" by (simp add: d0_def fresh_def)
  from guarded_fresh [where f = "sweep_drain w" and ttl = ?ttl and n = "pw_drain_beats ?c" and held = "pw_drain_held ?c",
      OF drain_fresh f0]
  obtain d1 where drain: "(if ?el then bnd (with_heartbeat_renew ?me ?ttl (pw_drain_beats ?c)
        (cas_guarded (pw_drain_held ?c) (sweep_drain w))) (\<lambda>_. ret ()) else ret ()) ([], d0) = (Inr (), [], d1)"
    and f1: "fresh ?me ?ld d1" and t1: "now_us d1 = after_drain w d"
    using f0 by (cases ?el) (auto simp: run_bnd after_drain_def d0_def)
  have last1: "get_last_discovery_at ([], d1) = (Inr ?ld, [], d1)"
    using f1 by (simp add: get_last_discovery_at_def run_query fresh_def)
  from guarded_fresh [where f = "sweep_discovery w" and ttl = ?ttl and n = "pw_discovery_beats ?c" and held = "pw_import_held ?c",
      OF discovery_fresh f1]
  obtain d2 where disc: "with_heartbeat_renew ?me ?ttl (pw_discovery_beats ?c)
        (cas_guarded (pw_import_held ?c) (sweep_discovery w)) ([], d1) =
        (Inr (if pw_import_held ?c then None else Some (), pw_import_held ?c), [], d2)"
    and f2: "fresh ?me ?ld d2" by blast
  have set2: "set_last_discovery_at ?me (now_us d2) ([], d2) =
      (Inr (), [], d2\<lparr>sweep_lease := Some \<lparr>ls_owner = ?me, ls_heartbeat = now_us d2, ls_last_discovery_at = Some (now_us d2)\<rparr>\<rparr>)"
    using f2 by (simp add: set_last_discovery_at_def run_exec fresh_def)
  have pass: "run_pass w ([], d) =
      (if discovery_due ?ld (pw_discovery_interval ?c) (now_us d1)
       then if pw_import_held ?c then (Inr (), [], d2) else set_last_discovery_at ?me (now_us d2) ([], d2)
       else (Inr (), [], d1))"
    using drain by (simp add: run_pass_def run_one_pass_def run_bnd run_exec acq any_eligible_for_hash_def run_query
        el last1 disc)
  show ?thesis
    using pass set2 f1 f2 t1 by (auto simp: fresh_def)
qed

definition idle_worker :: "bool \<Rightarrow> nat sweep_worker" where
  "idle_worker held = \<lparr>sw_pass = \<lparr>pw_me = ''box-a'', pw_ttl = 60, pw_discovery_interval = 1000, pw_drain_held = False,
       pw_import_held = held, pw_drain_beats = 2, pw_discovery_beats = 3\<rparr>,
     sw_drain = \<lparr>dc_env = no_env, dc_hashtext = (\<lambda>_. 0), dc_order = rev, dc_cancel = None, dc_limit = None,
       dc_shard = None, dc_page_size = 10\<rparr>,
     sw_fuel = 9, sw_run_ids = (''r1'', ''r2''), sw_hetzner = (\<lambda>_ _. Inr [''u/v.mp4'']), sw_storj = (\<lambda>_ _. Inr []),
     sw_temp_prefix = ''temp/'', sw_sfw_bucket = ''sfw'', sw_batch = 10, sw_cancel_import = None, sw_cancelled = False\<rparr>"

lemma elected_pass_exact_witness:
  "\<exists>d'. run_pass (idle_worker False) ([], empty_db 5) = (Inr (), [], d') \<and>
     cadence d' = Some (now_us d')"
  using elected_pass_exact [of "idle_worker False" "empty_db 5"]
  by (auto simp: can_acquire_def empty_db_def cadence_def discovery_due_def)
     (simp add: idle_worker_def)

section \<open>Discovery end to end\<close>

lemma entered_hetzner_known:
  assumes "hetzner_entered v key d" and "scan_kept d d'"
  shows "\<exists>r \<in> set (video_index d'). vi_video_id r = v \<and> vi_hetzner_key r \<noteq> None"
proof -
  from assms(1) obtain r where "row_of vi_video_id v (video_index d) = Some r" "vi_hetzner_key r \<noteq> None"
    by (auto simp: hetzner_entered_def)
  with assms(2) obtain r' where "row_of vi_video_id v (video_index d') = Some r'" "vi_hetzner_key r' \<noteq> None"
    unfolding scan_kept_def by blast
  then show ?thesis by (auto dest: row_of_SomeD)
qed

lemma entered_storj_known:
  assumes "storj_entered v key d"
  shows "\<exists>r \<in> set (video_index d). vi_video_id r = v \<and> vi_storj_key r \<noteq> None"
  using assms by (auto simp: storj_entered_def dest: row_of_SomeD)

text \<open>C9. Discovery brings every listed video into the master table: both scans enter the videos of their
  listings, and the import that follows finds them all, whatever the legacy tables held before.\<close>

theorem discovery_reaches_master:
  assumes ok: "db_ok d" and run: "\<not> has_key jr_id (snd (sw_run_ids w)) (job_runs d)" and batch: "0 < sw_batch w"
    and live: "\<not> sw_cancelled w" "sw_cancel_import w = None"
    and hk: "sw_hetzner w None None = Inr hk" and sk: "sw_storj w None None = Inr sk"
    and fuel: "length (video_index d) + length hk + length sk < sw_fuel w"
  shows "\<exists>d'. sweep_discovery w ([], d) = (Inr (), [], d') \<and>
     (\<forall>key \<in> set hk. \<forall>v. hetzner_video key = Some v \<longrightarrow> in_master v d') \<and>
     (\<forall>key \<in> set sk. \<forall>v. video_id_from_key key = Some v \<longrightarrow> in_master v d')"
proof -
  from hz.full_scan_run [where ls = "sw_hetzner w" and max_of = get_max_hetzner_key and store = "''Hetzner''" and prefix = None
      and keys = hk and d = d and tp = "sw_temp_prefix w"] hk live(1) obtain n1 d1 where
    h: "scan_hetzner (sw_temp_prefix w) (sw_hetzner w) (sw_cancelled w) None None True ([], d) = (Inr n1, [], d1)"
    and k1: "scan_kept d d1" and l1: "length (video_index d1) \<le> length (video_index d) + length hk"
    and e1: "\<And>key v. key \<in> set hk \<Longrightarrow> hetzner_video key = Some v \<Longrightarrow> hetzner_entered v key d1"
    unfolding scan_hetzner_def if_True by auto
  from scan_storj_full [where ls = "sw_storj w" and prefix = None and keys = sk and d = d1] sk live(1) obtain n2 d2 where
    s: "scan_storj (sw_storj w) (sw_cancelled w) None None True ([], d1) = (Inr n2, [], d2)"
    and k2: "scan_kept d1 d2" and l2: "length (video_index d2) \<le> length (video_index d1) + length sk"
    and e2: "\<And>key v. key \<in> set sk \<Longrightarrow> video_id_from_key key = Some v \<Longrightarrow> storj_entered v key d2"
    by auto
  have ok2: "db_ok d2"
    using safe_run [OF safe_scans(2) h ok] safe_run [OF safe_scans(1) s] by blast
  have run2: "\<not> has_key jr_id (snd (sw_run_ids w)) (job_runs d2)"
    using run k1 k2 by (simp add: scan_kept_def)
  from import_run_completes [OF ok2 run2 batch, of "sw_fuel w" "sw_sfw_bucket w" "''sweep_discovery''"] fuel l1 l2
  obtain t d3 where
    i: "import_current_video_index (sw_sfw_bucket w) (snd (sw_run_ids w)) (sw_batch w) None (sw_cancel_import w) (sw_fuel w)
        ''sweep_discovery'' ([], d2) = (Inr (Some t), [], d3)"
    and m: "\<forall>v \<in> set (video_index d2). vi_storj_key v \<noteq> None \<or> vi_hetzner_key v \<noteq> None \<longrightarrow>
        in_master (vi_video_id v) d3"
    unfolding live(2) by (meson le_trans add_le_mono order_refl le_less_trans)
  have "sweep_discovery w ([], d) = (Inr (), [], d3)"
    by (simp add: sweep_discovery_def swallow_def run_bnd run_attempt run_exec h s i)
  moreover have "in_master v d3" if "key \<in> set hk" "hetzner_video key = Some v" for key v
    using m entered_hetzner_known [OF e1 k2] that by blast
  moreover have "in_master v d3" if "key \<in> set sk" "video_id_from_key key = Some v" for key v
    using m entered_storj_known [OF e2] that by blast
  ultimately show ?thesis by blast
qed

theorem discovery_reaches_master_witness:
  "\<exists>d'. sweep_discovery (idle_worker False) ([], empty_db 5) = (Inr (), [], d') \<and> in_master ''u/v'' d'"
proof -
  let ?w = "idle_worker False"
  have v: "hetzner_video ''u/v.mp4'' = Some ''u/v''"
    by (simp add: hetzner_video_def video_id_from_key_def strip_suffix_def ends_with_def)
  have "sw_hetzner ?w None None = Inr [''u/v.mp4'']" "sw_storj ?w None None = Inr []" "\<not> sw_cancelled ?w"
    "sw_cancel_import ?w = None" "0 < sw_batch ?w" "sw_fuel ?w = 9"
    by (simp_all add: idle_worker_def)
  moreover have "video_index (empty_db 5) = []" "job_runs (empty_db 5) = []" by (simp_all add: empty_db_def)
  ultimately show ?thesis
    using discovery_reaches_master [of "empty_db 5" ?w "[''u/v.mp4'']" "[]"] v by (auto simp: has_key_def)
qed

end
