(* ===== verification/Ingest.thy ===== *)
theory Ingest
  imports Media_Import_Props PHash_Job
begin

text \<open>
  The registration of a finished upload (\<open>jobs/ingest.rs\<close>): the storage triple read from the bucket url, the
  master row, and the best-effort hook of the completion callback. A registered video waits for its hash;
  unlike an imported one it is not announced in the feed.
\<close>

section \<open>The source of an upload\<close>

record upload_source =
  vs_storage_provider :: string
  vs_bucket :: string
  vs_object_key :: string

datatype resolve_error = UnknownSource string

definition sfw_marker :: string where
  "sfw_marker = ''/yral-sfw/''"

definition resolve_source :: "string \<Rightarrow> resolve_error + upload_source" where
  "resolve_source bucket_url = (case split_once sfw_marker bucket_url of
       None \<Rightarrow> Inl (UnknownSource bucket_url)
     | Some (_, tail) \<Rightarrow> (let key = trim_char CHR ''/'' (take_until {CHR ''?'', CHR ''#''} tail)
         in if key = [] then Inl (UnknownSource bucket_url)
            else Inr \<lparr>vs_storage_provider = ''storj'', vs_bucket = ''yral-sfw'', vs_object_key = key\<rparr>))"

section \<open>The master row\<close>

definition ingest_input :: "string \<Rightarrow> upload_source \<Rightarrow> servable_video_input" where
  "ingest_input v src = \<lparr>sv_video_id = v, sv_publisher_user_id = None, sv_post_id = None,
     sv_source_kind = ''videogen'', sv_source_ref = Some v, sv_servable_status = ''servable'', sv_nsfw_state = None,
     sv_storage_provider = Some (vs_storage_provider src), sv_bucket = Some (vs_bucket src),
     sv_object_key = Some (vs_object_key src), sv_canonical_url = None, sv_thumbnail_key = None,
     sv_duration_ms = None, sv_width = None, sv_height = None, sv_fps = None, sv_container = None,
     sv_video_codec = None, sv_audio_codec = None, sv_moov_atom_front = None,
     sv_canonical_encoding_version = None, sv_discovered_from = ''videogen_completion''\<rparr>"

definition register_master_row :: "string \<Rightarrow> upload_source \<Rightarrow> unit pg" where
  "register_master_row v src = bnd (transaction (upsert_servable_video_txn (ingest_input v src))) (\<lambda>_. ret ())"

text \<open>Every failure is logged and swallowed; the first statement is the connection.\<close>

definition on_video_ingested :: "string \<Rightarrow> string \<Rightarrow> (pgdb, 'e, unit) proc" where
  "on_video_ingested v bucket_url = (case resolve_source bucket_url of
       Inl _ \<Rightarrow> ret ()
     | Inr src \<Rightarrow> bnd (attempt (exec id)) (\<lambda>conn. case conn of
           Inl (PgError _) \<Rightarrow> ret ()
         | Inr _ \<Rightarrow> bnd (attempt (register_master_row v src)) (\<lambda>r. case r of Inl (PgError _) \<Rightarrow> ret () | Inr _ \<Rightarrow> ret ())))"

section \<open>Lemmas\<close>

lemma split_once_at:
  assumes "m \<noteq> []" and "\<not> contains (p @ butlast m) m"
  shows "split_once m (p @ m @ t) = Some (p, t)"
  using assms(2)
proof (induction p)
  case Nil
  then show ?case by (simp add: split_once.simps)
next
  case (Cons c p)
  have "\<not> starts_with (c # p @ m @ t) m"
  proof
    assume "starts_with (c # p @ m @ t) m"
    moreover have "take (length m) (c # p @ m @ t) = take (length m) (c # p @ butlast m)"
    proof -
      have "c # p @ m @ t = (c # p @ butlast m) @ last m # t" using assms(1) by simp
      moreover have "length m \<le> length (c # p @ butlast m)" by simp
      ultimately show ?thesis by (metis take_all take_append diff_is_0_eq take0 append_Nil2)
    qed
    ultimately have "take (length m) (c # p @ butlast m) = m" by (simp add: starts_with_def)
    then have "c # p @ butlast m = [] @ m @ drop (length m) (c # p @ butlast m)"
      by (metis append_Nil append_take_drop_id)
    with Cons.prems show False unfolding contains_iff append_Cons by blast
  qed
  moreover have "\<not> contains (p @ butlast m) m"
    using Cons.prems unfolding contains_iff by (metis append_Cons)
  ultimately show ?case using Cons.IH by (simp add: split_once.simps [of m "c # _"])
qed

lemma safe_register [safe_intros]: "safe (register_master_row v src)"
  unfolding register_master_row_def by (intro safe_intros)

lemma safe_ingest [safe_intros]: "safe (on_video_ingested v url)"
  unfolding on_video_ingested_def
  by (intro safe_intros safe_exec; auto intro!: safe_intros split: pg_error.split)

lemma ingest_run:
  assumes "resolve_source url = Inr src"
  shows "on_video_ingested v url ([], d) =
     (Inr (), [], end_tx (put_master (ingest_input v src) (put_source (ingest_input v src) d)))"
  using assms
  by (simp add: on_video_ingested_def register_master_row_def run_simps upsert_servable_run)

lemma resolve_storage:
  "resolve_source url = Inr src \<Longrightarrow> vs_storage_provider src = ''storj'' \<and> vs_bucket src = ''yral-sfw''"
  by (auto simp: resolve_source_def Let_def split: option.splits if_splits)

lemma ingested_row:
  "\<exists>r. row_of sv_video_id v (servable_videos (put_master (ingest_input v src) d)) = Some r \<and>
     sv_storage_provider r = Some (vs_storage_provider src) \<and> sv_bucket r = Some (vs_bucket src) \<and>
     sv_object_key r = Some (vs_object_key src)"
  by (auto simp: put_master_row ingest_input_def settle_def sv_fresh_def sv_apply_def
      servable_video_material_matches_def opt_eq_matches_def servable_video_input.defs servable_video.defs
      split: option.splits)

text \<open>A finished upload whose url can be read waits for its hash: after the hook the drain's selection holds
  the video with the storage triple of the url, even if the master table knew it from elsewhere. Nothing is
  appended to the feed.\<close>

lemma ingested_video_awaits_hash:
  assumes "resolve_source url = Inr src" and "\<not> has_hash kind ver imv d v" and "not_backing_off d v"
    and "in_shard hashtext shard v"
  shows "\<exists>d'. on_video_ingested v url ([], d) = (Inr (), [], d') \<and> feed_rows d' = feed_rows d \<and>
     (\<exists>r \<in> set (missing_rows hashtext kind ver imv None shard d'). mh_video_id r = v \<and>
        mh_storage_provider r = Some ''storj'' \<and> mh_bucket r = Some ''yral-sfw'' \<and>
        mh_object_key r = Some (vs_object_key src))"
proof -
  let ?d = "end_tx (put_master (ingest_input v src) (put_source (ingest_input v src) d))"
  obtain r where r: "row_of sv_video_id v (servable_videos ?d) = Some r"
    and st: "sv_storage_provider r = Some ''storj''" "sv_bucket r = Some ''yral-sfw''"
      "sv_object_key r = Some (vs_object_key src)"
    using ingested_row [of v src "put_source (ingest_input v src) d"] resolve_storage [OF assms(1)]
    by (auto simp: end_tx_def)
  then have m: "r \<in> set (servable_videos ?d)" "sv_video_id r = v" by (auto dest: row_of_SomeD)
  have "\<not> has_hash kind ver imv ?d v" "not_backing_off ?d v"
    using assms(2,3) by (auto simp: has_hash_def not_backing_off_def end_tx_def put_master_def split: option.split)
  with m assms(4) have "to_missing_row r \<in> set (missing_rows hashtext kind ver imv None shard ?d)"
    by (auto simp: missing_rows_def beyond_def)
  with m(2) st have "\<exists>r \<in> set (missing_rows hashtext kind ver imv None shard ?d). mh_video_id r = v \<and>
      mh_storage_provider r = Some ''storj'' \<and> mh_bucket r = Some ''yral-sfw'' \<and>
      mh_object_key r = Some (vs_object_key src)"
    by (intro bexI [of _ "to_missing_row r"]) (simp_all add: to_missing_row_def)
  moreover have "feed_rows ?d = feed_rows d" by (simp add: end_tx_def)
  ultimately show ?thesis unfolding ingest_run [OF assms(1)] by blast
qed

lemma ingested_video_awaits_hash_witness:
  "\<exists>d'. on_video_ingested ''v'' ''https://x/raw/t/yral-sfw/u/v.mp4?a=1'' ([], empty_db 5) = (Inr (), [], d') \<and>
     (\<exists>r \<in> set (missing_rows (\<lambda>_. 0) HASH_KIND HASH_VERSION INPUT_MEDIA_VERSION None None d').
        mh_object_key r = Some ''u/v.mp4'')"
proof -
  have "resolve_source ''https://x/raw/t/yral-sfw/u/v.mp4?a=1'' =
      Inr \<lparr>vs_storage_provider = ''storj'', vs_bucket = ''yral-sfw'', vs_object_key = ''u/v.mp4''\<rparr>" by code_simp
  from ingested_video_awaits_hash [OF this, of HASH_KIND HASH_VERSION INPUT_MEDIA_VERSION "empty_db 5" "''v''" "\<lambda>_. 0" None]
  show ?thesis
    by (auto simp: has_hash_def has_key_def empty_db_def not_backing_off_def in_shard_def)
qed

end
