(* ===== verification/Request_Store.thy ===== *)
theory Request_Store
  imports Media_Schema
begin

text \<open>
  The store of video generation requests (\<open>videogen/request_store.rs\<close>): its statements, the best-effort
  wrappers around them, the machine of all callers, and what the module promises: a closed request stays as
  it was closed, and a caller reaches no request but its own.
\<close>

section \<open>Numbers of the environment\<close>

text \<open>\<open>str::parse::<i64>\<close>: an optional sign and decimal digits, in range.\<close>

definition is_digit :: "char \<Rightarrow> bool" where
  "is_digit c \<longleftrightarrow> 48 \<le> (of_char c :: nat) \<and> (of_char c :: nat) \<le> 57"

definition read_digits :: "string \<Rightarrow> int option" where
  "read_digits s = (if s \<noteq> [] \<and> list_all is_digit s
     then Some (foldl (\<lambda>n c. 10 * n + (of_char c - 48)) 0 s) else None)"

definition parse_i64 :: "string \<Rightarrow> int option" where
  "parse_i64 s = (case (case s of
         c # t \<Rightarrow> if c = CHR ''-'' then map_option uminus (read_digits t)
                  else if c = CHR ''+'' then read_digits t else read_digits s
       | [] \<Rightarrow> None) of
       None \<Rightarrow> None | Some n \<Rightarrow> if - (2 ^ 63) \<le> n \<and> n < 2 ^ 63 then Some n else None)"

definition wrap_i64 :: "int \<Rightarrow> int" where
  "wrap_i64 n = (n + 2 ^ 63) mod 2 ^ 64 - 2 ^ 63"

definition read_positive_env :: "string option \<Rightarrow> int option" where
  "read_positive_env var = (case Option.bind var parse_i64 of
       Some n \<Rightarrow> if n > 0 then Some n else None | None \<Rightarrow> None)"

definition STALE_MARGIN_SECS :: int where "STALE_MARGIN_SECS = 600"
definition DEFAULT_GENERATION_TIMEOUT_SECS :: int where "DEFAULT_GENERATION_TIMEOUT_SECS = 1800"
definition DEFAULT_RETENTION_DAYS :: int where "DEFAULT_RETENTION_DAYS = 30"
definition IN_PROGRESS_LIMIT :: nat where "IN_PROGRESS_LIMIT = 50"

text \<open>The sum wraps, as in a release build.\<close>

definition stale_after_secs_from :: "int option \<Rightarrow> int option \<Rightarrow> int" where
  "stale_after_secs_from explicit generation_timeout = (case explicit of
       Some n \<Rightarrow> n
     | None \<Rightarrow> wrap_i64 ((case generation_timeout of None \<Rightarrow> DEFAULT_GENERATION_TIMEOUT_SECS | Some t \<Rightarrow> t) +
                 STALE_MARGIN_SECS))"

definition stale_after_secs :: "string option \<Rightarrow> string option \<Rightarrow> int" where
  "stale_after_secs stale_var timeout_var =
     stale_after_secs_from (read_positive_env stale_var) (read_positive_env timeout_var)"

definition retention_days :: "string option \<Rightarrow> int" where
  "retention_days var = (case read_positive_env var of None \<Rightarrow> DEFAULT_RETENTION_DAYS | Some n \<Rightarrow> n)"

section \<open>The statements\<close>

record new_request =
  nr_principal :: string
  nr_request_id :: string
  nr_model_id :: string
  nr_prompt :: string

record in_progress_row =
  ip_counter :: int
  ip_model_id :: string
  ip_prompt :: string
  ip_created_at :: string

definition pending_row :: "new_request \<Rightarrow> pgdb \<Rightarrow> videogen_request" where
  "pending_row req d = \<lparr>vr_counter = request_seq d, vr_principal = nr_principal req, vr_request_id = nr_request_id req,
     vr_model_id = nr_model_id req, vr_prompt = nr_prompt req, vr_status = RPending, vr_video_id = None,
     vr_bucket_url = None, vr_failure_reason = None, vr_created_at = now_us d, vr_updated_at = now_us d\<rparr>"

definition insert_pending :: "new_request \<Rightarrow> int pg" where
  "insert_pending req = stmt (\<lambda>d. Inr (request_seq d,
     d\<lparr>videogen_requests := videogen_requests d @ [pending_row req d], request_seq := request_seq d + 1\<rparr>))"

text \<open>Every update goes through the trigger that sets \<open>updated_at\<close>. The result is the number of rows.\<close>

definition update_requests :: "(videogen_request \<Rightarrow> bool) \<Rightarrow> (videogen_request \<Rightarrow> videogen_request) \<Rightarrow> pgdb \<Rightarrow> int \<times> pgdb" where
  "update_requests P f d = (count_where P (videogen_requests d),
     d\<lparr>videogen_requests := update_where P (\<lambda>r. (f r)\<lparr>vr_updated_at := now_us d\<rparr>) (videogen_requests d)\<rparr>)"

definition open_request :: "string \<Rightarrow> int \<Rightarrow> videogen_request \<Rightarrow> bool" where
  "open_request user counter r \<longleftrightarrow>
     vr_principal r = user \<and> vr_counter r = counter \<and> vr_status r = RPending"

definition mark_complete :: "string \<Rightarrow> int \<Rightarrow> string \<Rightarrow> string \<Rightarrow> int pg" where
  "mark_complete user counter video_id bucket_url = stmt (\<lambda>d. Inr (update_requests (open_request user counter)
     (\<lambda>r. r\<lparr>vr_status := RComplete, vr_video_id := Some video_id, vr_bucket_url := Some bucket_url\<rparr>) d))"

definition mark_failed :: "string \<Rightarrow> int \<Rightarrow> string \<Rightarrow> int pg" where
  "mark_failed user counter reason = stmt (\<lambda>d. Inr (update_requests (open_request user counter)
     (\<lambda>r. r\<lparr>vr_status := RFailed, vr_failure_reason := Some reason\<rparr>) d))"

text \<open>\<open>now() - n * interval\<close>: the product must be an interval (64 bits of microseconds, 32 bits of days) and
  the difference a timestamp (from Julian day 0 on), or the statement fails.\<close>

definition time_error :: "string \<Rightarrow> pg_error" where
  "time_error what = PgError (what @ '' out of range'')"

definition first_timestamp :: int where
  "first_timestamp = - 210866803200000000"

definition before_now :: "bool \<Rightarrow> int \<Rightarrow> pgdb \<Rightarrow> pg_error + int" where
  "before_now fits us d = (if \<not> fits then Inl (time_error ''interval'')
     else if now_us d - us < first_timestamp then Inl (time_error ''timestamp'')
     else Inr (now_us d - us))"

definition seconds_ago :: "int \<Rightarrow> pgdb \<Rightarrow> pg_error + int" where
  "seconds_ago s d = before_now (- (2 ^ 63) \<le> s * 1000000 \<and> s * 1000000 < 2 ^ 63) (s * 1000000) d"

definition days_ago :: "int \<Rightarrow> pgdb \<Rightarrow> pg_error + int" where
  "days_ago n d = before_now (- (2 ^ 31) \<le> n \<and> n < 2 ^ 31) (n * 86400000000) d"

definition stale_reason :: "int \<Rightarrow> string" where
  "stale_reason s = ''no completion callback within '' @ show_int s @ ''s''"

definition expire_stale_for_principal :: "string \<Rightarrow> int \<Rightarrow> int pg" where
  "expire_stale_for_principal user secs = stmt (\<lambda>d. case seconds_ago secs d of
       Inl e \<Rightarrow> Inl e
     | Inr t \<Rightarrow> Inr (update_requests
         (\<lambda>r. vr_principal r = user \<and> vr_status r = RPending \<and> vr_created_at r < t)
         (\<lambda>r. r\<lparr>vr_status := RFailed, vr_failure_reason := Some (stale_reason secs)\<rparr>) d))"

definition purge_for_principal :: "string \<Rightarrow> int \<Rightarrow> int pg" where
  "purge_for_principal user days = stmt (\<lambda>d. case days_ago days d of
       Inl e \<Rightarrow> Inl e
     | Inr t \<Rightarrow> (let P = (\<lambda>r. vr_principal r = user \<and> vr_created_at r < t)
         in Inr (count_where P (videogen_requests d),
              d\<lparr>videogen_requests := delete_where P (videogen_requests d)\<rparr>)))"

text \<open>The rendering of a time as RFC 3339 text is \<open>chrono\<close>'s, a parameter.\<close>

definition to_in_progress :: "(int \<Rightarrow> string) \<Rightarrow> videogen_request \<Rightarrow> in_progress_row" where
  "to_in_progress rfc3339 r = \<lparr>ip_counter = vr_counter r, ip_model_id = vr_model_id r, ip_prompt = vr_prompt r,
     ip_created_at = rfc3339 (vr_created_at r)\<rparr>"

definition pending_rows :: "string \<Rightarrow> pgdb \<Rightarrow> videogen_request list" where
  "pending_rows user d = take IN_PROGRESS_LIMIT (sort_key (\<lambda>r. - vr_created_at r)
     (filter (\<lambda>r. vr_principal r = user \<and> vr_status r = RPending) (videogen_requests d)))"

definition list_pending :: "(int \<Rightarrow> string) \<Rightarrow> string \<Rightarrow> in_progress_row list pg" where
  "list_pending rfc3339 user = query (\<lambda>d. map (to_in_progress rfc3339) (pending_rows user d))"

section \<open>The best-effort wrappers\<close>

text \<open>The first statement stands for the connection.\<close>

definition record_pending_best_effort :: "new_request \<Rightarrow> (pgdb, 'e, int option) proc" where
  "record_pending_best_effort req = bnd (attempt (exec id)) (\<lambda>conn. case conn of
       Inl (PgError _) \<Rightarrow> ret None
     | Inr _ \<Rightarrow> bnd (attempt (insert_pending req)) (\<lambda>r. case r of
           Inl (PgError _) \<Rightarrow> ret None
         | Inr counter \<Rightarrow> ret (Some counter)))"

datatype terminal = TComplete string string | TFailed string

definition saturate_i64 :: "64 word \<Rightarrow> int" where
  "saturate_i64 n = (if uint n < 2 ^ 63 then uint n else 2 ^ 63 - 1)"

definition record_terminal_best_effort :: "string \<Rightarrow> 64 word \<Rightarrow> terminal \<Rightarrow> (pgdb, 'e, unit) proc" where
  "record_terminal_best_effort user counter t = bnd (attempt (exec id)) (\<lambda>conn. case conn of
       Inl (PgError _) \<Rightarrow> ret ()
     | Inr _ \<Rightarrow> bnd (attempt (case t of
           TComplete video_id bucket_url \<Rightarrow> mark_complete user (saturate_i64 counter) video_id bucket_url
         | TFailed reason \<Rightarrow> mark_failed user (saturate_i64 counter) reason)) (\<lambda>_. ret ()))"

section \<open>Integrity under faults\<close>

definition store_ok :: "pgdb \<Rightarrow> bool" where
  "store_ok d \<longleftrightarrow> uniq vr_counter (videogen_requests d) \<and> (\<forall>r \<in> set (videogen_requests d). vr_counter r < request_seq d)"

lemma store_ok_insert:
  "store_ok d \<Longrightarrow> store_ok (d\<lparr>videogen_requests := videogen_requests d @ [pending_row req d],
     request_seq := request_seq d + 1\<rparr>)"
  by (auto simp: store_ok_def uniq_snoc pending_row_def has_key_def)

lemma store_ok_update:
  assumes "store_ok d" and "\<And>r. vr_counter (f r) = vr_counter r"
  shows "store_ok (snd (update_requests P f d))"
  using assms by (auto simp: store_ok_def update_requests_def update_where_def intro!: uniq_update_where [unfolded update_where_def])

lemma store_ok_delete: "store_ok d \<Longrightarrow> store_ok (d\<lparr>videogen_requests := delete_where P (videogen_requests d)\<rparr>)"
  by (auto simp: store_ok_def delete_where_def intro: uniq_delete_where [unfolded delete_where_def])

lemma db_ok_store:
  "db_ok d \<Longrightarrow> store_ok d"
  "db_ok d \<Longrightarrow> store_ok (d\<lparr>videogen_requests := rs, request_seq := n\<rparr>) \<Longrightarrow>
   db_ok (d\<lparr>videogen_requests := rs, request_seq := n\<rparr>)"
  "db_ok d \<Longrightarrow> store_ok (d\<lparr>videogen_requests := rs\<rparr>) \<Longrightarrow> db_ok (d\<lparr>videogen_requests := rs\<rparr>)"
  by (simp_all add: db_ok_defs store_ok_def)

lemma safe_insert_pending [safe_intros]: "safe (insert_pending req)"
  unfolding insert_pending_def
  by (rule safe_stmt) (auto intro!: db_ok_store(2) store_ok_insert dest: db_ok_store(1))

lemma safe_update_requests:
  assumes "db_ok d" and "\<And>r. vr_counter (f r) = vr_counter r" and "update_requests P f d = (n, d')"
  shows "db_ok d' \<and> feed_seq d \<le> feed_seq d' \<and> request_seq d \<le> request_seq d'"
  using store_ok_update [OF db_ok_store(1) [OF assms(1)] assms(2), of P] assms(1,3)
  by (auto simp: update_requests_def intro!: db_ok_store(3))

lemma safe_marks [safe_intros]: "safe (mark_complete user c v u)" "safe (mark_failed user c e)"
  unfolding mark_complete_def mark_failed_def
  by (rule safe_stmt; (erule safe_update_requests)?; simp)+

lemma safe_sweeps [safe_intros]: "safe (expire_stale_for_principal user secs)" "safe (purge_for_principal user days)"
proof -
  show "safe (expire_stale_for_principal user secs)"
    unfolding expire_stale_for_principal_def
    by (rule safe_stmt, split sum.split_asm, simp) (erule safe_update_requests; simp)
  show "safe (purge_for_principal user days)"
    unfolding purge_for_principal_def
    by (rule safe_stmt) (auto simp: Let_def split: sum.splits intro!: db_ok_store(3) store_ok_delete dest: db_ok_store(1))
qed

lemma safe_best_effort [safe_intros]:
  "safe (record_pending_best_effort req)" "safe (record_terminal_best_effort user c t)"
  unfolding record_pending_best_effort_def record_terminal_best_effort_def
  by (intro safe_intros safe_exec; auto intro!: safe_intros split: sum.split pg_error.split terminal.split)+

section \<open>The machine of all callers\<close>

text \<open>A step is one call of one user, under any faults, or the passing of time.\<close>

inductive store_step :: "string \<Rightarrow> pgdb \<Rightarrow> pgdb \<Rightarrow> bool" where
  submit: "record_pending_best_effort req (p, d) = (r :: unit + int option, q, d') \<Longrightarrow> store_step (nr_principal req) d d'"
| close: "record_terminal_best_effort user c t (p, d) = (r :: unit + unit, q, d') \<Longrightarrow> store_step user d d'"
| expire: "expire_stale_for_principal user secs (p, d) = (r, q, d') \<Longrightarrow> store_step user d d'"
| purge: "purge_for_principal user days (p, d) = (r', q, d') \<Longrightarrow> store_step user d d'"
| poll: "list_pending rfc3339 user (p, d) = (r'', q, d') \<Longrightarrow> store_step user d d'"
| tick: "store_step user d (d\<lparr>now_us := t\<rparr>)"

inductive_cases store_step_cases: "store_step user d d'"

text \<open>A row says what its status promises.\<close>

definition request_ok :: "videogen_request \<Rightarrow> bool" where
  "request_ok r \<longleftrightarrow> (case vr_status r of
       RPending \<Rightarrow> vr_video_id r = None \<and> vr_bucket_url r = None \<and> vr_failure_reason r = None
     | RComplete \<Rightarrow> vr_video_id r \<noteq> None \<and> vr_bucket_url r \<noteq> None \<and> vr_failure_reason r = None
     | RFailed \<Rightarrow> vr_video_id r = None \<and> vr_bucket_url r = None \<and> vr_failure_reason r \<noteq> None)"

definition closes :: "videogen_request \<Rightarrow> videogen_request \<Rightarrow> bool" where
  "closes r0 r \<longleftrightarrow> vr_status r0 = RPending \<and> vr_status r \<noteq> RPending \<and> vr_counter r = vr_counter r0 \<and>
     vr_principal r = vr_principal r0 \<and> vr_request_id r = vr_request_id r0 \<and> vr_model_id r = vr_model_id r0 \<and>
     vr_prompt r = vr_prompt r0 \<and> vr_created_at r = vr_created_at r0"

text \<open>What a user's calls can make of the table: every row is an old one, a pending one of the user that was
  closed, or a new one of the user.\<close>

definition evolves :: "string \<Rightarrow> pgdb \<Rightarrow> pgdb \<Rightarrow> bool" where
  "evolves user d d' \<longleftrightarrow> store_ok d' \<and> (\<forall>r \<in> set (videogen_requests d'). request_ok r) \<and> request_seq d \<le> request_seq d' \<and>
     filter (\<lambda>r. vr_principal r \<noteq> user) (videogen_requests d') = filter (\<lambda>r. vr_principal r \<noteq> user) (videogen_requests d) \<and>
     (\<forall>r \<in> set (videogen_requests d'). r \<in> set (videogen_requests d) \<or>
        vr_principal r = user \<and> ((\<exists>r0 \<in> set (videogen_requests d). closes r0 r) \<or> request_seq d \<le> vr_counter r))"

lemma closes_closed: "closes r0 r1 \<Longrightarrow> closes r1 r \<Longrightarrow> False"
  by (simp add: closes_def)

lemma evolves_trans:
  assumes 1: "evolves user d d1" and 2: "evolves user d1 d2"
  shows "evolves user d d2"
proof -
  have "r \<in> set (videogen_requests d) \<or> vr_principal r = user \<and>
      ((\<exists>r0 \<in> set (videogen_requests d). closes r0 r) \<or> request_seq d \<le> vr_counter r)"
    if r: "r \<in> set (videogen_requests d2)" for r
  proof -
    from 2 r consider "r \<in> set (videogen_requests d1)"
      | r1 where "r1 \<in> set (videogen_requests d1)" "closes r1 r" "vr_principal r = user"
      | "request_seq d1 \<le> vr_counter r" "vr_principal r = user"
      unfolding evolves_def by blast
    then show ?thesis
    proof cases
      case 1
      with assms(1) show ?thesis unfolding evolves_def by blast
    next
      case 2
      then have "vr_counter r = vr_counter r1" by (simp add: closes_def)
      with 2 assms(1) closes_closed [OF _ 2(2)] show ?thesis unfolding evolves_def by metis
    next
      case 3
      with assms(1) show ?thesis unfolding evolves_def by auto
    qed
  qed
  with assms show ?thesis unfolding evolves_def by auto
qed

definition rows_ok :: "pgdb \<Rightarrow> bool" where
  "rows_ok d \<longleftrightarrow> store_ok d \<and> (\<forall>r \<in> set (videogen_requests d). request_ok r)"

lemma evolves_refl: "rows_ok d \<Longrightarrow> evolves user d d"
  by (simp add: evolves_def rows_ok_def)

lemma evolves_ok: "evolves user d d' \<Longrightarrow> rows_ok d'"
  by (simp add: evolves_def rows_ok_def)

lemma evolves_insert:
  assumes "rows_ok d"
  shows "evolves (nr_principal req) d (d\<lparr>videogen_requests := videogen_requests d @ [pending_row req d],
     request_seq := request_seq d + 1\<rparr>)"
  using assms store_ok_insert [of d req] by (auto simp: evolves_def rows_ok_def pending_row_def request_ok_def)

lemma evolves_update:
  assumes "rows_ok d" and P: "\<And>r. P r \<Longrightarrow> vr_principal r = user \<and> vr_status r = RPending"
    and f: "\<And>r. request_ok r \<Longrightarrow> P r \<Longrightarrow> closes r (f r) \<and> request_ok (f r)"
    and key: "\<And>r. vr_counter (f r) = vr_counter r" "\<And>r. vr_principal (f r) = vr_principal r"
  shows "evolves user d (snd (update_requests P f d))"
proof -
  have "store_ok (snd (update_requests P f d))"
    using assms(1) key(1) by (intro store_ok_update) (auto simp: rows_ok_def)
  moreover have "filter (\<lambda>r. vr_principal r \<noteq> user) (update_where P (\<lambda>r. (f r)\<lparr>vr_updated_at := now_us d\<rparr>) rs) =
      filter (\<lambda>r. vr_principal r \<noteq> user) rs" for rs
    by (induction rs) (auto simp: update_where_def key(2) dest: P)
  moreover have "closes r ((f r)\<lparr>vr_updated_at := t\<rparr>) \<and> request_ok ((f r)\<lparr>vr_updated_at := t\<rparr>)"
    if "request_ok r" "P r" for r t
    using f [OF that] by (simp add: closes_def request_ok_def split: request_status.splits)
  ultimately show ?thesis
    using assms(1) P by (auto simp: evolves_def rows_ok_def update_requests_def update_where_def key(2)) blast
qed

lemma evolves_delete:
  assumes "rows_ok d" and P: "\<And>r. P r \<Longrightarrow> vr_principal r = user"
  shows "evolves user d (d\<lparr>videogen_requests := delete_where P (videogen_requests d)\<rparr>)"
proof -
  have "filter (\<lambda>r. vr_principal r \<noteq> user) (delete_where P rs) = filter (\<lambda>r. vr_principal r \<noteq> user) rs" for rs
    by (induction rs) (auto simp: delete_where_def dest: P)
  then show ?thesis
    using assms(1) store_ok_delete [of d P] by (auto simp: evolves_def rows_ok_def delete_where_def)
qed

lemma evolves_stmt:
  assumes "\<And>d x d'. rows_ok d \<Longrightarrow> f d = Inr (x, d') \<Longrightarrow> evolves user d d'"
  shows "preserves (evolves user d0) (stmt f)"
  using assms by (intro pres_stmt) (blast intro: evolves_trans evolves_ok)

lemma evolves_exec_id: "preserves (evolves user d0) (exec id)"
  by (rule pres_exec) simp

lemma evolves_insert_pending: "preserves (evolves (nr_principal req) d0) (insert_pending req)"
  unfolding insert_pending_def by (rule evolves_stmt) (auto intro: evolves_insert)

lemma evolves_updateI:
  assumes "\<And>r. P r \<Longrightarrow> vr_principal r = user \<and> vr_status r = RPending"
    and "\<And>r. request_ok r \<Longrightarrow> P r \<Longrightarrow> closes r (f r) \<and> request_ok (f r)"
    and "\<And>r. vr_counter (f r) = vr_counter r" "\<And>r. vr_principal (f r) = vr_principal r"
    and "rows_ok d" and "Inr (update_requests P f d) = (Inr (n, d') :: pg_error + int \<times> pgdb)"
  shows "evolves user d d'"
proof -
  have "evolves user d (snd (update_requests P f d))"
    by (rule evolves_update [where P = P and f = f, OF assms(5)]) (use assms in auto)
  with assms(6) show ?thesis by simp
qed

lemma evolves_marks:
  "preserves (evolves user d0) (mark_complete user c v u)"
  "preserves (evolves user d0) (mark_failed user c e)"
  unfolding mark_complete_def mark_failed_def
  by (rule evolves_stmt, erule (1) evolves_updateI [rotated 4]; auto simp: open_request_def closes_def request_ok_def)+

lemma evolves_expire: "preserves (evolves user d0) (expire_stale_for_principal user secs)"
  unfolding expire_stale_for_principal_def
  by (rule evolves_stmt, split sum.split_asm, simp, erule (1) evolves_updateI [rotated 4];
      auto simp: closes_def request_ok_def)

lemma evolves_purge: "preserves (evolves user d0) (purge_for_principal user days)"
  unfolding purge_for_principal_def
  by (rule evolves_stmt) (auto simp: Let_def split: sum.splits intro: evolves_delete)

lemma evolves_record_pending:
  "preserves (evolves (nr_principal req) d0) (record_pending_best_effort req)"
  unfolding record_pending_best_effort_def
  by (intro pres_bnd pres_attempt evolves_exec_id) (auto intro!: pres evolves_insert_pending split: sum.split pg_error.split)

lemma evolves_record_terminal:
  "preserves (evolves user d0) (record_terminal_best_effort user c t)"
  unfolding record_terminal_best_effort_def
  by (intro pres_bnd pres_attempt evolves_exec_id)
     (auto intro!: pres evolves_marks split: sum.split pg_error.split terminal.split)

lemma step_evolves:
  assumes "store_step user d d'" and "rows_ok d"
  shows "evolves user d d'"
proof -
  have start: "evolves user d d" using assms(2) by (rule evolves_refl)
  from assms(1) show ?thesis
  proof (cases rule: store_step.cases)
    case submit
    with start show ?thesis by (metis evolves_record_pending preserves_run)
  next
    case close
    with start show ?thesis by (metis evolves_record_terminal preserves_run)
  next
    case expire
    with start show ?thesis by (metis evolves_expire preserves_run)
  next
    case purge
    with start show ?thesis by (metis evolves_purge preserves_run)
  next
    case poll
    with start show ?thesis unfolding list_pending_def by (metis pres_query preserves_run)
  next
    case (tick t)
    with assms(2) show ?thesis by (simp add: evolves_def rows_ok_def store_ok_def)
  qed
qed

section \<open>The life of a request\<close>

inductive store_run :: "string list \<Rightarrow> pgdb \<Rightarrow> pgdb \<Rightarrow> bool" where
  store_nil: "store_run [] d d"
| store_snoc: "store_run users d d' \<Longrightarrow> store_step user d' d'' \<Longrightarrow> store_run (users @ [user]) d d''"

fun row_moves :: "videogen_request option \<Rightarrow> videogen_request option \<Rightarrow> bool" where
  "row_moves x None = True"
| "row_moves None (Some r') = False"
| "row_moves (Some r) (Some r') = (r' = r \<or> closes r r')"

lemma row_moves_refl: "row_moves x x"
  by (cases x) simp_all

lemma row_moves_trans: "row_moves x y \<Longrightarrow> row_moves y z \<Longrightarrow> row_moves x z"
  by (cases x; cases y; cases z) (auto dest: closes_closed)

lemma evolves_moves:
  assumes ev: "evolves user d d'" and ok: "rows_ok d" and c: "c < request_seq d"
  shows "row_moves (row_of vr_counter c (videogen_requests d)) (row_of vr_counter c (videogen_requests d'))"
proof (cases "row_of vr_counter c (videogen_requests d')")
  case (Some r')
  then have r': "r' \<in> set (videogen_requests d')" "vr_counter r' = c" by (auto dest: row_of_SomeD)
  have u: "uniq vr_counter (videogen_requests d)" using ok by (simp add: rows_ok_def store_ok_def)
  from ev r' c consider "r' \<in> set (videogen_requests d)"
    | r0 where "r0 \<in> set (videogen_requests d)" "closes r0 r'"
    unfolding evolves_def by force
  then show ?thesis
  proof cases
    case 1
    with u r' have "row_of vr_counter c (videogen_requests d) = Some r'" by (simp add: row_of_Some_iff)
    with Some show ?thesis by simp
  next
    case 2
    with r' have "vr_counter r0 = c" by (simp add: closes_def)
    with 2 u have "row_of vr_counter c (videogen_requests d) = Some r0" by (simp add: row_of_Some_iff)
    with Some 2 show ?thesis by simp
  qed
qed simp

lemma store_run_keeps:
  assumes "store_run users d d'" and "rows_ok d" and "c < request_seq d"
  shows "rows_ok d' \<and> request_seq d \<le> request_seq d' \<and>
     row_moves (row_of vr_counter c (videogen_requests d)) (row_of vr_counter c (videogen_requests d')) \<and>
     filter (\<lambda>r. vr_principal r \<notin> set users) (videogen_requests d') =
     filter (\<lambda>r. vr_principal r \<notin> set users) (videogen_requests d)"
  using assms
proof (induction rule: store_run.induct)
  case (store_snoc users d d' user d'')
  then have ev: "evolves user d' d''" and IH: "rows_ok d'" "request_seq d \<le> request_seq d'"
      "row_moves (row_of vr_counter c (videogen_requests d)) (row_of vr_counter c (videogen_requests d'))"
      "filter (\<lambda>r. vr_principal r \<notin> set users) (videogen_requests d') =
       filter (\<lambda>r. vr_principal r \<notin> set users) (videogen_requests d)"
    by (auto intro: step_evolves)
  have split: "filter (\<lambda>r. vr_principal r \<notin> set (users @ [user])) rs =
      filter (\<lambda>r. vr_principal r \<notin> set users) (filter (\<lambda>r. vr_principal r \<noteq> user) rs)" for rs
    by (auto simp: filter_filter intro!: filter_cong)
  have split': "filter (\<lambda>r. vr_principal r \<notin> set (users @ [user])) rs =
      filter (\<lambda>r. vr_principal r \<noteq> user) (filter (\<lambda>r. vr_principal r \<notin> set users) rs)" for rs
    by (auto simp: filter_filter intro!: filter_cong)
  have eq: "filter (\<lambda>r. vr_principal r \<noteq> user) (videogen_requests d'') =
      filter (\<lambda>r. vr_principal r \<noteq> user) (videogen_requests d')"
    using ev by (simp add: evolves_def)
  have "filter (\<lambda>r. vr_principal r \<notin> set (users @ [user])) (videogen_requests d'') =
      filter (\<lambda>r. vr_principal r \<notin> set (users @ [user])) (videogen_requests d')"
    unfolding split eq ..
  also have "\<dots> = filter (\<lambda>r. vr_principal r \<notin> set (users @ [user])) (videogen_requests d)"
    unfolding split' IH(4) ..
  finally show ?case
    using evolves_moves [OF ev IH(1)] IH store_snoc.prems evolves_ok [OF ev] ev
    by (auto simp: evolves_def intro: row_moves_trans)
qed (simp add: row_moves_refl)

text \<open>C17. The life of a request, over every sequence of calls of any users under any faults: a request keeps its
  identity, is closed at most once and never reopened or altered after that, never comes back once deleted,
  and no call of another user touches it; each row holds what its status promises.\<close>

theorem request_history:
  assumes "store_run us (empty_db t) d" and "store_run users d d'" and "c < request_seq d"
  shows "row_moves (row_of vr_counter c (videogen_requests d)) (row_of vr_counter c (videogen_requests d')) \<and>
     filter (\<lambda>r. vr_principal r \<notin> set users) (videogen_requests d') =
     filter (\<lambda>r. vr_principal r \<notin> set users) (videogen_requests d) \<and>
     (\<forall>r \<in> set (videogen_requests d'). request_ok r)"
proof -
  have "rows_ok (empty_db t)" by (simp add: rows_ok_def store_ok_def empty_db_def)
  with assms(1) have "rows_ok d" using store_run_keeps [of us "empty_db t" d 0] by (simp add: empty_db_def)
  from store_run_keeps [OF assms(2) this assms(3)] show ?thesis by (simp add: rows_ok_def)
qed

lemma one_request:
  "record_pending_best_effort req ([], d) = (Inr (Some (request_seq d)), [],
     d\<lparr>videogen_requests := videogen_requests d @ [pending_row req d], request_seq := request_seq d + 1\<rparr>)"
  by (simp add: record_pending_best_effort_def run_simps insert_pending_def)

definition demo_request :: new_request where
  "demo_request = \<lparr>nr_principal = ''alice'', nr_request_id = ''r'', nr_model_id = ''ltx2'', nr_prompt = ''sun''\<rparr>"

definition demo_submitted :: pgdb where
  "demo_submitted = (empty_db 5)\<lparr>videogen_requests := [pending_row demo_request (empty_db 5)], request_seq := 2\<rparr>"

theorem request_history_witness:
  "\<exists>d'. store_run [''alice''] demo_submitted d' \<and>
     row_moves (Some (pending_row demo_request (empty_db 5))) (row_of vr_counter 1 (videogen_requests d'))"
proof -
  have new: "(record_pending_best_effort demo_request :: (pgdb, unit, int option) proc) ([], empty_db 5) =
      (Inr (Some 1), [], demo_submitted)"
    by (simp add: one_request) (simp add: empty_db_def demo_submitted_def)
  have 1: "store_run [''alice''] (empty_db 5) demo_submitted"
    using store_snoc [OF store_nil submit [OF new]] by (simp add: demo_request_def)
  obtain d' where "mark_failed ''alice'' 1 ''x'' ([], demo_submitted) = (Inr 1, [], d')"
    by (simp add: mark_failed_def run_simps update_requests_def demo_submitted_def open_request_def pending_row_def
        demo_request_def count_where_def empty_db_def)
  then have "(record_terminal_best_effort ''alice'' 1 (TFailed ''x'') :: (pgdb, unit, unit) proc) ([], demo_submitted) =
      (Inr (), [], d')"
    by (simp add: record_terminal_best_effort_def run_simps saturate_i64_def)
  from store_snoc [OF store_nil close [OF this]] have 2: "store_run [''alice''] demo_submitted d'" by simp
  have "row_of vr_counter 1 (videogen_requests demo_submitted) = Some (pending_row demo_request (empty_db 5))"
    by (simp add: demo_submitted_def row_of_def pending_row_def empty_db_def)
  with request_history [OF 1 2, of 1] 2 show ?thesis by (auto simp: demo_submitted_def)
qed

end
