(* ===== verification/Hmac.thy ===== *)
theory Hmac
  imports Request_Store
begin

text \<open>
  The signature of the completion callback (\<open>videogen/hmac.rs\<close>): the key registry and its parser, the signed
  message and its check. HMAC-SHA256 and the hexadecimal decoding are parameters. The message determines
  what it was made of, so a signature is good for one timestamp and one body only.
\<close>

section \<open>The key registry\<close>

record hmac_key =
  hk_id :: string
  hk_bytes :: string

datatype hmac_error =
    EmptyRegistry | InvalidKeyEntry | EmptyKeyId | EmptyKey | DuplicateKeyId string
  | UnknownKeyId | TimestampOutsideSkew | InvalidSignature

type_synonym registry = "(string \<times> hmac_key) list"

definition registry_get :: "registry \<Rightarrow> string \<Rightarrow> hmac_key option" where
  "registry_get keys key_id = map_of keys key_id"

fun parse_entries :: "string list \<Rightarrow> registry \<Rightarrow> hmac_error + registry" where
  "parse_entries [] keys = (if keys = [] then Inl EmptyRegistry else Inr keys)"
| "parse_entries (entry # entries) keys = (case split_once '':'' entry of
       None \<Rightarrow> Inl InvalidKeyEntry
     | Some (ident, encoded_key) \<Rightarrow>
         if trim ident = [] then Inl EmptyKeyId
         else if registry_get keys (trim ident) \<noteq> None then Inl (DuplicateKeyId (trim ident))
         else if trim encoded_key = [] then Inl EmptyKey
         else parse_entries entries ((trim ident, \<lparr>hk_id = trim ident, hk_bytes = trim encoded_key\<rparr>) # keys))"

definition parse_registry :: "string \<Rightarrow> hmac_error + registry" where
  "parse_registry input = parse_entries (filter (\<lambda>e. e \<noteq> []) (map trim (split_on CHR '','' input))) []"

definition from_service_token :: "string \<Rightarrow> hmac_error + registry" where
  "from_service_token token = (if token = [] then Inl EmptyKey
     else Inr [(''v1'', \<lparr>hk_id = ''v1'', hk_bytes = token\<rparr>)])"

section \<open>Signing and checking\<close>

definition signature_message :: "string \<Rightarrow> string \<Rightarrow> int \<Rightarrow> string \<Rightarrow> string" where
  "signature_message meth path timestamp body_hash_hex =
     meth @ [CHR 0x0A] @ path @ [CHR 0x0A] @ show_int timestamp @ [CHR 0x0A] @ body_hash_hex"

text \<open>The cryptography: the tag of a message under a key, the decoding of a hexadecimal text, and the
  hexadecimal SHA-256 of a text.\<close>

record crypto =
  cr_mac :: "string \<Rightarrow> string \<Rightarrow> string"
  cr_unhex :: "string \<Rightarrow> string option"
  cr_sha256_hex :: "string \<Rightarrow> string"

definition abs_diff :: "int \<Rightarrow> int \<Rightarrow> int" where
  "abs_diff a b = \<bar>a - b\<bar>"

definition verify_completion_signature ::
  "crypto \<Rightarrow> registry \<Rightarrow> string \<Rightarrow> string \<Rightarrow> string \<Rightarrow> int \<Rightarrow> string \<Rightarrow> string \<Rightarrow> int \<Rightarrow> int \<Rightarrow> hmac_error + unit" where
  "verify_completion_signature cr keys key_id meth path timestamp body_hash_hex signature_hex now_ts skew =
     (case registry_get keys key_id of
        None \<Rightarrow> Inl UnknownKeyId
      | Some key \<Rightarrow>
          if abs_diff now_ts timestamp > max skew 0 then Inl TimestampOutsideSkew
          else (case cr_unhex cr signature_hex of
             None \<Rightarrow> Inl InvalidSignature
           | Some sig \<Rightarrow>
               if sig = cr_mac cr (hk_bytes key) (signature_message meth path timestamp body_hash_hex)
               then Inr () else Inl InvalidSignature))"

section \<open>Lemmas\<close>

lemma parse_entries_keys:
  "parse_entries es keys = Inr ks \<Longrightarrow> distinct (map fst keys) \<Longrightarrow> (\<forall>(i, k) \<in> set keys. hk_id k = i \<and> hk_bytes k \<noteq> []) \<Longrightarrow>
   ks \<noteq> [] \<and> distinct (map fst ks) \<and> (\<forall>(i, k) \<in> set ks. hk_id k = i \<and> hk_bytes k \<noteq> [])"
proof (induction es arbitrary: keys)
  case (Cons e es)
  from Cons.prems(1) obtain a b where "split_once '':'' e = Some (a, b)" and new: "registry_get keys (trim a) = None"
      and "trim b \<noteq> []"
    and rest: "parse_entries es ((trim a, \<lparr>hk_id = trim a, hk_bytes = trim b\<rparr>) # keys) = Inr ks"
    by (auto split: option.splits if_splits)
  with Cons.prems(2,3) show ?case
    by (intro Cons.IH [OF rest]) (auto simp: registry_get_def map_of_eq_None_iff)
qed (auto split: if_splits)

text \<open>A registry that parses has at least one key, no id twice, and no empty key: a callback can never be
  checked against an empty secret.\<close>

lemma parsed_registry_sound:
  assumes "parse_registry input = Inr ks"
  shows "ks \<noteq> [] \<and> distinct (map fst ks) \<and> (\<forall>(i, k) \<in> set ks. hk_id k = i \<and> hk_bytes k \<noteq> [])"
  using parse_entries_keys [of _ "[]"] assms by (simp add: parse_registry_def)

lemma show_int_no_newline: "CHR 0x0A \<notin> set (show_int i)"
  by (auto simp: show_int_def dest!: show_nat_digits split: if_splits)

lemma show_int_inj: "show_int a = show_int b \<Longrightarrow> a = b"
proof -
  assume eq: "show_int a = show_int b"
  have no_minus: "show_nat n \<noteq> ''-'' @ t" for n t
    using show_nat_digits [of "CHR ''-''" n] by auto
  show "a = b"
    using eq no_minus no_minus [symmetric] by (auto simp: show_int_def dest!: show_nat_inj split: if_splits)
qed

lemma append_sep_eq:
  "x @ c # t = x' @ c # t' \<Longrightarrow> c \<notin> set x \<Longrightarrow> c \<notin> set x' \<Longrightarrow> x = x' \<and> t = t'"
  by (induction x arbitrary: x') (auto simp: Cons_eq_append_conv append_eq_Cons_conv)

lemma signature_message_inj:
  assumes "signature_message meth path t h = signature_message meth path t' h'"
  shows "t = t' \<and> h = h'"
  using assms append_sep_eq [of "show_int t" "CHR 0x0A" h "show_int t'" h'] show_int_no_newline
  by (auto simp: signature_message_def dest: show_int_inj)

lemma verified_signature:
  "verify_completion_signature cr keys key_id meth path ts bh sig now_ts skew = Inr () \<longleftrightarrow>
     (\<exists>key. registry_get keys key_id = Some key \<and> abs_diff now_ts ts \<le> max skew 0 \<and>
        cr_unhex cr sig = Some (cr_mac cr (hk_bytes key) (signature_message meth path ts bh)))"
  by (auto simp: verify_completion_signature_def not_less split: option.splits)

end
