(* ===== verification/Videogen_World.thy ===== *)
theory Videogen_World
  imports Ingest Hmac Mirror_Jobs
begin

text \<open>
  What the two halves of video generation share: the correlation key, the upload destination, the request to
  the GPU provider, and the world they change: the database, the input images staged in the bucket and the
  calls sent to other services.
\<close>

section \<open>Shared data\<close>

record request_key =
  rk_principal :: string
  rk_counter :: "64 word"

record upload_destination =
  ud_video_id :: string
  ud_object_key :: string
  ud_upload_url :: string
  ud_expires_at :: int
  ud_bucket_url :: "string option"
  ud_encrypted_identity :: "string option"

record vast_request =
  vq_request_id :: string
  vq_request_key :: request_key
  vq_user_principal :: string
  vq_model_id :: string
  vq_workflow_json :: json
  vq_input :: json
  vq_callback_url :: string
  vq_upload_url_refresh_url :: "string option"
  vq_upload_destination :: upload_destination
  vq_staged_image_key :: "string option"

record draft_request =
  dq_request_id :: string
  dq_request_key :: request_key
  dq_user_principal :: string
  dq_video_id :: string
  dq_object_key :: string
  dq_encrypted_identity :: "string option"

text \<open>The post a draft registers: id and video uid, creator (status \<open>Draft\<close>, no tags, no text).\<close>

record post_details =
  pd_id :: string
  pd_video_uid :: string
  pd_creator_principal :: string

section \<open>The world\<close>

datatype sent =
    SentDraft string post_details
  | SentRelease request_key string string
  | SentSubmit vast_request

record vg_world =
  gw_db :: pgdb
  gw_staged :: "string list"
  gw_sent :: "sent list"

type_synonym ('e, 'a) vg = "(vg_world, 'e, 'a) proc"

text \<open>A procedure of the database runs on the database of the world.\<close>

definition on_store :: "(pgdb, 'e, 'a) proc \<Rightarrow> ('e, 'a) vg" where
  "on_store m = (\<lambda>(p, w). case m (p, gw_db w) of (r, q, d) \<Rightarrow> (r, q, w\<lparr>gw_db := d\<rparr>))"

definition send :: "sent \<Rightarrow> ('e, unit) vg" where
  "send s = on_db (\<lambda>w. w\<lparr>gw_sent := gw_sent w @ [s]\<rparr>)"

definition try_result :: "'e + 'a \<Rightarrow> ('e, 'a) vg" where
  "try_result r = (case r of Inl e \<Rightarrow> raise e | Inr x \<Rightarrow> ret x)"

lemma run_on_store [run_simps]:
  "on_store m (p, w) = (case m (p, gw_db w) of (r, q, d) \<Rightarrow> (r, q, w\<lparr>gw_db := d\<rparr>))"
  by (simp add: on_store_def)

lemma run_send [run_simps]: "send s (p, w) = (Inr (), p, w\<lparr>gw_sent := gw_sent w @ [s]\<rparr>)"
  by (simp add: send_def)

lemma run_try [run_simps]: "try_result r (p, w) = (r, p, w)"
  by (simp add: try_result_def split: sum.split)

text \<open>\<open>Result::map_err\<close>.\<close>

definition map_left :: "('e \<Rightarrow> 'f) \<Rightarrow> 'e + 'a \<Rightarrow> 'f + 'a" where
  "map_left g r = (case r of Inl e \<Rightarrow> Inl (g e) | Inr x \<Rightarrow> Inr x)"

lemma map_left_Inr: "map_left g r = Inr y \<longleftrightarrow> r = Inr y"
  by (simp add: map_left_def split: sum.split)

section \<open>Staged images\<close>

text \<open>\<open>uplink rm\<close> of a staged input image, in a task of its own whose failure is only logged.\<close>

record bucket =
  bk_name :: string
  bk_grant :: string
  bk_uplink :: program

definition remove_staged :: "bucket \<Rightarrow> string \<Rightarrow> ('e, unit) vg" where
  "remove_staged b key = on_db (\<lambda>w. case uplink_rm (bk_uplink b) (''sj://'' @ bk_name b @ ''/'' @ key) (bk_grant b) of
       Inl _ \<Rightarrow> w
     | Inr _ \<Rightarrow> w\<lparr>gw_staged := filter (\<lambda>k. k \<noteq> key) (gw_staged w)\<rparr>)"

definition remove_staged_opt :: "bucket \<Rightarrow> string option \<Rightarrow> ('e, unit) vg" where
  "remove_staged_opt b key = (case key of None \<Rightarrow> ret () | Some k \<Rightarrow> remove_staged b k)"

section \<open>Releasing an upload destination\<close>

text \<open>Without an endpoint the release is skipped; with one the request is posted (\<open>f\<close> is its answer).\<close>

datatype release_mode = DisabledNoEndpoint | Endpoint "request_key \<Rightarrow> string \<Rightarrow> string \<Rightarrow> string + unit"

definition release_from_env :: "string option \<Rightarrow> (string \<Rightarrow> request_key \<Rightarrow> string \<Rightarrow> string \<Rightarrow> string + unit) \<Rightarrow> release_mode" where
  "release_from_env var post = (case var of
       None \<Rightarrow> DisabledNoEndpoint | Some url \<Rightarrow> if url = [] then DisabledNoEndpoint else Endpoint (post url))"

definition release :: "release_mode \<Rightarrow> request_key \<Rightarrow> string \<Rightarrow> string \<Rightarrow> ('e, string + unit) vg" where
  "release mode key video_id object_key = (case mode of
       DisabledNoEndpoint \<Rightarrow> ret (Inr ())
     | Endpoint post \<Rightarrow> bnd (send (SentRelease key video_id object_key)) (\<lambda>_. ret (post key video_id object_key)))"

end
