(* ===== verification/Completion.thy ===== *)
theory Completion
  imports Videogen_World
begin

text \<open>
  The completion callback of video generation (\<open>routes/videogen/complete.rs\<close>, with the in-process draft
  client of \<open>routes/upload/draft_client.rs\<close>): the signature is checked before anything else, then a success
  registers the draft, the master row and closes the request, and a failure releases the upload destination
  and closes the request. The JSON parser, the cryptography, the canister call that registers a post and
  the release endpoint are parameters.
\<close>

section \<open>Requests and answers\<close>

datatype completion_status = CSuccess | CFailure

record complete_request =
  cq_request_key :: request_key
  cq_user_principal :: string
  cq_request_id :: string
  cq_status :: completion_status
  cq_bucket_url :: "string option"
  cq_video_id :: "string option"
  cq_object_key :: "string option"
  cq_failure_reason :: "string option"
  cq_encrypted_identity :: "string option"
  cq_staged_image_key :: "string option"

text \<open>Status code, error code and message.\<close>

datatype completion_error = CompletionError nat string string

definition unauthorized :: "string \<Rightarrow> completion_error" where
  "unauthorized msg = CompletionError 401 ''unauthorized'' msg"

definition bad_request :: "string \<Rightarrow> completion_error" where
  "bad_request msg = CompletionError 400 ''bad_request'' msg"

definition conflict :: "string \<Rightarrow> completion_error" where
  "conflict msg = CompletionError 409 ''conflict'' msg"

definition unavailable :: "string \<Rightarrow> completion_error" where
  "unavailable msg = CompletionError 503 ''internal_error'' msg"

datatype draft_error = DraftUnavailable string | DraftRejected string

definition draft_error_text :: "draft_error \<Rightarrow> string" where
  "draft_error_text e = (case e of
       DraftUnavailable m \<Rightarrow> ''draft service unavailable: '' @ m
     | DraftRejected m \<Rightarrow> ''draft service rejected request: '' @ m)"

section \<open>The dependencies\<close>

record completion_env =
  ce_crypto :: crypto
  ce_token :: "string option"
  ce_keys :: "string option"
  ce_skew :: int
  ce_now :: int
  ce_parse :: "string \<Rightarrow> string + complete_request"
  ce_release :: release_mode
  ce_principal :: "string \<Rightarrow> string + string"
  ce_decrypt :: "string \<Rightarrow> string + string"
  ce_update_metadata :: "string \<Rightarrow> post_details \<Rightarrow> string + unit"
  ce_bucket :: bucket

definition hmac_error_text :: "hmac_error \<Rightarrow> string" where
  "hmac_error_text e = (case e of
       EmptyRegistry \<Rightarrow> ''hmac key registry is empty''
     | InvalidKeyEntry \<Rightarrow> ''invalid hmac key entry''
     | EmptyKeyId \<Rightarrow> ''hmac key id is empty''
     | EmptyKey \<Rightarrow> ''hmac key must not be empty''
     | DuplicateKeyId i \<Rightarrow> ''duplicate hmac key id: '' @ i
     | UnknownKeyId \<Rightarrow> ''unknown hmac key id''
     | TimestampOutsideSkew \<Rightarrow> ''timestamp is outside allowed skew''
     | InvalidSignature \<Rightarrow> ''signature is invalid'')"

definition hmac_registry :: "completion_env \<Rightarrow> string + registry" where
  "hmac_registry env = (case ce_token env of
       Some token \<Rightarrow> map_left hmac_error_text (from_service_token token)
     | None \<Rightarrow> (case ce_keys env of
         None \<Rightarrow> Inl ''VIDEOGEN_SERVICE_AUTH_TOKEN or VIDEOGEN_COMPLETION_HMAC_KEYS is required''
       | Some keys \<Rightarrow> map_left hmac_error_text (parse_registry keys)))"

section \<open>The signature\<close>

type_synonym headers = "string \<Rightarrow> string option"

definition header_or :: "headers \<Rightarrow> string \<Rightarrow> string \<Rightarrow> completion_error + string" where
  "header_or headers name msg = (case headers name of None \<Rightarrow> Inl (unauthorized msg) | Some v \<Rightarrow> Inr v)"

definition and_then :: "'e + 'a \<Rightarrow> ('a \<Rightarrow> 'e + 'b) \<Rightarrow> 'e + 'b" where
  "and_then r k = (case r of Inl e \<Rightarrow> Inl e | Inr x \<Rightarrow> k x)"

definition verify_error :: "hmac_error \<Rightarrow> completion_error" where
  "verify_error e = unauthorized (case e of
       UnknownKeyId \<Rightarrow> ''unknown key id''
     | TimestampOutsideSkew \<Rightarrow> ''timestamp outside allowed skew''
     | InvalidSignature \<Rightarrow> ''invalid signature''
     | _ \<Rightarrow> hmac_error_text e)"

definition verify_hmac :: "completion_env \<Rightarrow> headers \<Rightarrow> string \<Rightarrow> string \<Rightarrow> completion_error + unit" where
  "verify_hmac env headers raw_body path =
     and_then (header_or headers ''x-key-id'' ''missing X-Key-Id header'') (\<lambda>key_id.
     and_then (header_or headers ''x-timestamp'' ''missing X-Timestamp header'') (\<lambda>timestamp_str.
     and_then (header_or headers ''x-body-sha256'' ''missing X-Body-SHA256 header'') (\<lambda>body_hash.
     and_then (header_or headers ''authorization'' ''missing Authorization header'') (\<lambda>auth.
     and_then (case parse_i64 timestamp_str of None \<Rightarrow> Inl (unauthorized ''invalid X-Timestamp'') | Some t \<Rightarrow> Inr t) (\<lambda>timestamp.
     and_then (case strip_prefix ''HMAC-SHA256 '' auth of
         None \<Rightarrow> Inl (unauthorized ''Authorization must be HMAC-SHA256 <hex>'') | Some s \<Rightarrow> Inr s) (\<lambda>sig_hex.
     if cr_sha256_hex (ce_crypto env) raw_body \<noteq> body_hash then Inl (unauthorized ''body SHA-256 mismatch'')
     else and_then (map_left (\<lambda>e. unavailable (''HMAC registry error: '' @ e)) (hmac_registry env)) (\<lambda>keys.
       map_left verify_error (verify_completion_signature (ce_crypto env) keys key_id ''POST'' path timestamp
         body_hash sig_hex (ce_now env) (ce_skew env)))))))))"

section \<open>The draft\<close>

definition draft_post_details :: "completion_env \<Rightarrow> string \<Rightarrow> string \<Rightarrow> draft_error + post_details" where
  "draft_post_details env video_id user = (case ce_principal env user of
       Inl e \<Rightarrow> Inl (DraftRejected (''invalid user principal: '' @ e))
     | Inr p \<Rightarrow> Inr \<lparr>pd_id = video_id, pd_video_uid = video_id, pd_creator_principal = p\<rparr>)"

definition create_draft :: "completion_env \<Rightarrow> draft_request \<Rightarrow> (draft_error, unit) vg" where
  "create_draft env req = (case dq_encrypted_identity req of
       None \<Rightarrow> ret ()
     | Some blob \<Rightarrow> (case ce_decrypt env blob of
         Inl e \<Rightarrow> raise (DraftUnavailable (''identity decrypt failed: '' @ e))
       | Inr wire \<Rightarrow> (case draft_post_details env (dq_video_id req) (dq_user_principal req) of
           Inl e \<Rightarrow> raise e
         | Inr details \<Rightarrow> bnd (send (SentDraft wire details)) (\<lambda>_.
             case ce_update_metadata env wire details of
               Inl e \<Rightarrow> raise (DraftUnavailable e) | Inr _ \<Rightarrow> ret ()))))"

section \<open>The handler\<close>

definition close_request :: "request_key \<Rightarrow> terminal \<Rightarrow> ('e, unit) vg" where
  "close_request key outcome = on_store (record_terminal_best_effort (rk_principal key) (rk_counter key) outcome)"

definition required :: "'a option \<Rightarrow> string \<Rightarrow> completion_error + 'a" where
  "required field msg = (case field of None \<Rightarrow> Inl (bad_request msg) | Some x \<Rightarrow> Inr x)"

definition handle_success_completion :: "completion_env \<Rightarrow> complete_request \<Rightarrow> (completion_error, nat) vg" where
  "handle_success_completion env req =
     bnd (try_result (required (cq_bucket_url req) ''bucket_url required for success'')) (\<lambda>bucket_url.
     bnd (try_result (required (cq_video_id req) ''video_id required for success'')) (\<lambda>video_id.
     bnd (try_result (required (cq_object_key req) ''object_key required for success'')) (\<lambda>object_key.
     bnd (map_err (\<lambda>e. unavailable (''draft service: '' @ draft_error_text e)) (create_draft env
         \<lparr>dq_request_id = cq_request_id req, dq_request_key = cq_request_key req,
          dq_user_principal = cq_user_principal req, dq_video_id = video_id, dq_object_key = object_key,
          dq_encrypted_identity = cq_encrypted_identity req\<rparr>)) (\<lambda>_.
     bnd (on_store (on_video_ingested video_id bucket_url)) (\<lambda>_.
     bnd (close_request (cq_request_key req) (TComplete video_id bucket_url)) (\<lambda>_.
     ret 200))))))"

definition release_upload_destination :: "completion_env \<Rightarrow> request_key \<Rightarrow> string option \<Rightarrow> string option \<Rightarrow> ('e, string + unit) vg" where
  "release_upload_destination env key video_id object_key = (case (video_id, object_key) of
       (Some v, Some k) \<Rightarrow> release (ce_release env) key v k
     | _ \<Rightarrow> ret (Inr ()))"

definition handle_failure_completion :: "completion_env \<Rightarrow> complete_request \<Rightarrow> (completion_error, nat) vg" where
  "handle_failure_completion env req =
     bnd (release_upload_destination env (cq_request_key req) (cq_video_id req) (cq_object_key req)) (\<lambda>_.
     bnd (close_request (cq_request_key req) (TFailed (case cq_failure_reason req of
         None \<Rightarrow> ''unknown failure reason'' | Some r \<Rightarrow> r))) (\<lambda>_.
     ret 200))"

text \<open>The deletion of the staged image is spawned whatever the result was; it happens at the end.\<close>

definition complete_with_dependencies :: "completion_env \<Rightarrow> headers \<Rightarrow> string \<Rightarrow> string \<Rightarrow> (completion_error, nat) vg" where
  "complete_with_dependencies env headers raw_body path =
     bnd (try_result (verify_hmac env headers raw_body path)) (\<lambda>_.
     bnd (try_result (map_left (\<lambda>e. bad_request (''invalid JSON body: '' @ e)) (ce_parse env raw_body))) (\<lambda>req.
     if cq_user_principal req \<noteq> rk_principal (cq_request_key req)
     then raise (conflict ''user_principal does not match request_key.principal'')
     else bnd (attempt (case cq_status req of
             CSuccess \<Rightarrow> handle_success_completion env req
           | CFailure \<Rightarrow> handle_failure_completion env req)) (\<lambda>result.
       bnd (remove_staged_opt (ce_bucket env) (cq_staged_image_key req)) (\<lambda>_.
       try_result result))))"

text \<open>The configuration is read first; without one nothing is done.\<close>

definition complete_video :: "string + completion_env \<Rightarrow> headers \<Rightarrow> string \<Rightarrow> (completion_error, nat) vg" where
  "complete_video config headers body = (case config of
       Inl e \<Rightarrow> raise (unavailable (''videogen config error: '' @ e))
     | Inr env \<Rightarrow> complete_with_dependencies env headers body ''/api/v2/videogen/complete'')"

section \<open>Only signed callbacks act\<close>

lemma and_then_Inr: "and_then r k = Inr y \<longleftrightarrow> (\<exists>x. r = Inr x \<and> k x = Inr y)"
  by (simp add: and_then_def split: sum.split)

lemma header_or_Inr: "header_or headers name msg = Inr v \<longleftrightarrow> headers name = Some v"
  by (simp add: header_or_def split: option.split)

lemma registry_keys:
  assumes "hmac_registry env = Inr keys" and "registry_get keys i = Some key"
  shows "hk_bytes key \<noteq> []"
proof (cases "ce_token env")
  case None
  with assms(1) obtain ks where "parse_registry ks = Inr keys"
    by (auto simp: hmac_registry_def map_left_Inr split: option.splits)
  from parsed_registry_sound [OF this] assms(2) show ?thesis
    by (auto simp: registry_get_def dest!: map_of_SomeD)
next
  case (Some token)
  with assms show ?thesis
    by (auto simp: hmac_registry_def map_left_Inr from_service_token_def registry_get_def split: if_splits)
qed

lemma verify_hmac_sound:
  assumes "verify_hmac env headers body path = Inr ()"
  shows "\<exists>keys key key_id ts_text ts sig. hmac_registry env = Inr keys \<and>
     headers ''x-key-id'' = Some key_id \<and> registry_get keys key_id = Some key \<and> hk_bytes key \<noteq> [] \<and>
     headers ''x-timestamp'' = Some ts_text \<and> parse_i64 ts_text = Some ts \<and>
     abs_diff (ce_now env) ts \<le> max (ce_skew env) 0 \<and> headers ''authorization'' = Some (''HMAC-SHA256 '' @ sig) \<and>
     cr_unhex (ce_crypto env) sig = Some (cr_mac (ce_crypto env) (hk_bytes key)
       (signature_message ''POST'' path ts (cr_sha256_hex (ce_crypto env) body)))"
  using assms
  by (auto simp: verify_hmac_def and_then_Inr map_left_Inr header_or_Inr verified_signature
      split: option.splits if_splits) (metis registry_keys)

lemma unverified_void:
  assumes "verify_hmac env headers body path = Inl e"
  shows "complete_with_dependencies env headers body path (p, w) = (Inl e, p, w)"
  using assms by (simp add: complete_with_dependencies_def run_bnd run_try)

text \<open>C16. Only a signed callback acts: if a request to the completion route changes anything or is answered with
  200, it names a key of the registry, its timestamp is within the allowed skew, and it carries the tag of
  the method, the route, that timestamp and the hash of the body it was sent with under a key that is not
  empty. This holds under any database faults.\<close>

theorem only_signed_completions_act:
  assumes "complete_video (Inr env) headers body (p, w) = (r, q, w')" and "w' \<noteq> w \<or> r = Inr 200"
  shows "\<exists>keys key key_id ts_text ts sig. hmac_registry env = Inr keys \<and>
     headers ''x-key-id'' = Some key_id \<and> registry_get keys key_id = Some key \<and> hk_bytes key \<noteq> [] \<and>
     headers ''x-timestamp'' = Some ts_text \<and> parse_i64 ts_text = Some ts \<and>
     abs_diff (ce_now env) ts \<le> max (ce_skew env) 0 \<and> headers ''authorization'' = Some (''HMAC-SHA256 '' @ sig) \<and>
     cr_unhex (ce_crypto env) sig = Some (cr_mac (ce_crypto env) (hk_bytes key)
       (signature_message ''POST'' ''/api/v2/videogen/complete'' ts (cr_sha256_hex (ce_crypto env) body)))"
proof (cases "verify_hmac env headers body ''/api/v2/videogen/complete''")
  case (Inl e)
  with assms show ?thesis by (simp add: complete_video_def unverified_void)
next
  case (Inr u)
  then show ?thesis using verify_hmac_sound by simp
qed

section \<open>What a success does\<close>

definition wf_success :: "complete_request \<Rightarrow> string \<Rightarrow> string \<Rightarrow> bool" where
  "wf_success req v u \<longleftrightarrow> cq_status req = CSuccess \<and> cq_video_id req = Some v \<and> cq_bucket_url req = Some u \<and>
     cq_object_key req \<noteq> None \<and> cq_user_principal req = rk_principal (cq_request_key req)"

lemma success_run:
  assumes "verify_hmac env headers body ''/api/v2/videogen/complete'' = Inr ()" and "ce_parse env body = Inr req"
    and "wf_success req v u"
    and draft: "create_draft env \<lparr>dq_request_id = cq_request_id req, dq_request_key = cq_request_key req,
          dq_user_principal = cq_user_principal req, dq_video_id = v, dq_object_key = the (cq_object_key req),
          dq_encrypted_identity = cq_encrypted_identity req\<rparr> ([], w) = (Inr (), [], w1)"
    and ingest: "(on_video_ingested v u :: (pgdb, completion_error, unit) proc) ([], gw_db w1) = (Inr (), [], d2)"
    and close: "(record_terminal_best_effort (rk_principal (cq_request_key req)) (rk_counter (cq_request_key req))
          (TComplete v u) :: (pgdb, completion_error, unit) proc) ([], d2) = (Inr (), [], d3)"
  shows "\<exists>w'. complete_video (Inr env) headers body ([], w) = (Inr 200, [], w') \<and> gw_db w' = d3 \<and>
     gw_sent w' = gw_sent w1"
  using assms
  by (auto simp: complete_video_def complete_with_dependencies_def run_simps map_left_def wf_success_def
      handle_success_completion_def required_def close_request_def remove_staged_opt_def remove_staged_def
      split: option.split sum.split)

section \<open>The answers of the handler\<close>

text \<open>All errors of a procedure satisfy \<open>E\<close>, in every state and under every fault.\<close>

definition raises :: "('e \<Rightarrow> bool) \<Rightarrow> ('d, 'e, 'a) proc \<Rightarrow> bool" where
  "raises E m \<longleftrightarrow> (\<forall>s e. fst (m s) = Inl e \<longrightarrow> E e)"

named_theorems raises_intros "the errors of procedures"

lemma raises_basic [raises_intros]:
  "raises E (ret x)" "raises E (attempt n)" "E e \<Longrightarrow> raises E (raise e)" "raises E (remove_staged_opt b key)" "raises E (send c)"
  by (auto simp: raises_def ret_def attempt_def raise_def remove_staged_opt_def remove_staged_def send_def on_db_def
      split: prod.splits option.splits sum.splits)

lemma raises_store [raises_intros]:
  assumes "raises E m"
  shows "raises E (on_store m)"
  unfolding raises_def
proof (intro allI impI)
  fix s e
  assume "fst (on_store m s) = Inl e"
  then have "fst (m (fst s, gw_db (snd s))) = Inl e" by (auto simp: on_store_def split: prod.splits)
  with assms show "E e" by (auto simp: raises_def)
qed

lemma raises_try [raises_intros]: "(\<And>e. x = Inl e \<Longrightarrow> E e) \<Longrightarrow> raises E (try_result x)"
  by (auto simp: raises_def try_result_def ret_def raise_def split: sum.splits)

lemma raises_map [raises_intros]: "(\<And>e. E (g e)) \<Longrightarrow> raises E (map_err g m)"
  by (auto simp: raises_def map_err_def split: prod.splits sum.splits)

lemma raises_bnd [raises_intros]:
  assumes "raises E m" and "\<And>x. raises E (k x)"
  shows "raises E (bnd m k)"
  unfolding raises_def
proof (intro allI impI)
  fix s e
  assume "fst (bnd m k s) = Inl e"
  then consider "fst (m s) = Inl e" | x t where "fst (k x t) = Inl e"
    by (auto simp: bnd_def split: prod.splits sum.splits)
  then show "E e"
  proof cases
    case 1
    with assms(1) show ?thesis unfolding raises_def by blast
  next
    case 2
    with assms(2) show ?thesis unfolding raises_def by blast
  qed
qed

lemma raises_ingest [raises_intros]: "raises E (on_video_ingested v url)"
  unfolding on_video_ingested_def by (auto intro!: raises_intros split: sum.split pg_error.split)

lemma raises_close [raises_intros]: "raises E (close_request key outcome)"
  unfolding close_request_def record_terminal_best_effort_def
  by (auto intro!: raises_intros split: sum.split pg_error.split)

lemma raises_release [raises_intros]: "raises E (release mode key v okey)"
  unfolding release_def by (auto intro!: raises_intros split: release_mode.split)

text \<open>The answers the handler can give: neither a 202, nor a conflict with a request that is closed already.\<close>

definition known_answer :: "completion_error \<Rightarrow> bool" where
  "known_answer e = (case e of CompletionError status _ msg \<Rightarrow> status \<in> {400, 401, 503} \<or>
     status = 409 \<and> msg = ''user_principal does not match request_key.principal'')"

lemma known_answers:
  "known_answer (unauthorized m)" "known_answer (bad_request m)" "known_answer (unavailable m)"
  "known_answer (conflict ''user_principal does not match request_key.principal'')"
  by (simp_all add: known_answer_def unauthorized_def bad_request_def unavailable_def conflict_def)

lemma hmac_answers: "verify_hmac env headers body path = Inl e \<Longrightarrow> known_answer e"
  by (auto simp: verify_hmac_def and_then_def header_or_def map_left_def verify_error_def known_answers
      split: option.splits sum.splits if_splits)

lemma handler_answers:
  "raises known_answer (handle_success_completion env req)" "raises known_answer (handle_failure_completion env req)"
  unfolding handle_success_completion_def handle_failure_completion_def release_upload_destination_def
  by (auto simp: required_def known_answers intro!: raises_intros split: option.splits)

lemma raises_attempt:
  assumes "raises E m" and "\<And>r. (\<And>e. r = Inl e \<Longrightarrow> E e) \<Longrightarrow> raises F (k r)"
  shows "raises F (bnd (attempt m) k)"
  unfolding raises_def
proof (intro allI impI)
  fix s e
  assume "fst (bnd (attempt m) k s) = Inl e"
  then have "fst (k (fst (m s)) (snd (m s))) = Inl e" by (simp add: bnd_def attempt_def split_beta)
  moreover have "\<And>e. fst (m s) = Inl e \<Longrightarrow> E e" using assms(1) unfolding raises_def by blast
  ultimately show "F e" using assms(2) unfolding raises_def by blast
qed

lemma completion_answers: "raises known_answer (complete_video config headers body)"
  unfolding complete_video_def complete_with_dependencies_def
  by (auto simp: known_answers hmac_answers map_left_def intro!: raises_intros raises_attempt [of known_answer] handler_answers
      split: sum.splits completion_status.split)

end
