(* ===== verification/Generate.thy ===== *)
theory Generate
  imports Videogen_World
begin

text \<open>
  The submission of a video generation (\<open>routes/videogen/generate.rs\<close>, with the helpers of
  \<open>videogen/fingerprint.rs\<close> and \<open>videogen/moderation.rs\<close>): the authentication gate, validation, the staging
  of an input image, moderation with its retries, the record of the request, the upload destination and
  the submission to the GPU provider, with the rollback of each failing stage. Cryptography, encodings, the
  moderation service, the canister behind the upload url and the provider are parameters.
\<close>

section \<open>Requests\<close>

datatype upload_handling = HClient | HServerDraft

datatype token_type = Sats | Dolr | Free | YralProSubscription

text \<open>A base64 image has its data and its mime type.\<close>

datatype image_source = Base64Image string string | UrlImage string

record generate_body =
  gb_user_id :: string
  gb_prompt :: string
  gb_model_id :: string
  gb_token_type :: "token_type option"
  gb_negative_prompt :: "string option"
  gb_image :: "image_source option"
  gb_aspect_ratio :: "string option"
  gb_duration_seconds :: "8 word option"
  gb_resolution :: "string option"
  gb_generate_audio :: "bool option"
  gb_seed :: "64 word option"
  gb_extra_params :: "(string \<times> json) list"

record generate_request = generate_body +
  gr_identity_principal :: string
  gr_upload_handling :: upload_handling
  gr_identity_wire :: string

record generate_response =
  gp_operation_id :: string
  gp_provider :: string
  gp_request_key :: request_key

section \<open>Errors\<close>

datatype image_stage_error = StageTimeout | StageFailed string

datatype workflow_error = WUnsupported string | WUnavailable string

datatype vast_error = BuildRequest string | SerializeRequest string | RequestFailed string

datatype generate_error =
    IdentityMismatch
  | InvalidInput string
  | EModeration string
  | EUploadDestination string
  | EImageStage image_stage_error
  | EWorkflow workflow_error
  | EVast vast_error

datatype video_gen_error =
    VProviderError string | VInvalidInput string | VAuthError | VNetworkError string | VUnsupportedModel string

definition stage_error_text :: "image_stage_error \<Rightarrow> string" where
  "stage_error_text e = (case e of StageTimeout \<Rightarrow> ''image staging timed out''
     | StageFailed m \<Rightarrow> ''image staging failed: '' @ m)"

definition workflow_error_text :: "workflow_error \<Rightarrow> string" where
  "workflow_error_text e = (case e of WUnsupported m \<Rightarrow> ''unsupported workflow: '' @ m
     | WUnavailable m \<Rightarrow> ''workflow unavailable: '' @ m)"

definition destination_error_text :: "string \<Rightarrow> string" where
  "destination_error_text m = ''upload destination unavailable: '' @ m"

definition vast_error_text :: "vast_error \<Rightarrow> string" where
  "vast_error_text e = (case e of
       BuildRequest m \<Rightarrow> ''failed to build Vast submit request: '' @ m
     | SerializeRequest m \<Rightarrow> ''failed to serialize Vast submit request: '' @ m
     | RequestFailed m \<Rightarrow> ''Vast submit request failed: '' @ m)"

text \<open>Status code and body of the answer.\<close>

definition http_error_of :: "generate_error \<Rightarrow> nat \<times> video_gen_error" where
  "http_error_of e = (case e of
       IdentityMismatch \<Rightarrow> (401, VAuthError)
     | InvalidInput m \<Rightarrow> (400, VInvalidInput m)
     | EModeration _ \<Rightarrow> (400, VInvalidInput ''Invalid input prompt'')
     | EImageStage s \<Rightarrow> (503, VNetworkError (stage_error_text s))
     | EVast v \<Rightarrow> (503, VNetworkError (vast_error_text v))
     | EUploadDestination m \<Rightarrow> (503, VNetworkError (destination_error_text m))
     | EWorkflow (WUnsupported m) \<Rightarrow> (400, VUnsupportedModel m)
     | EWorkflow (WUnavailable m) \<Rightarrow> (503, VProviderError m))"

section \<open>The dependencies\<close>

datatype http_reply = NoReply string | Reply nat string "string + json"

datatype moderation_mode = Remote | MockAllow

text \<open>\<open>ge_stage_timeout\<close> says whether the copy of an input image is given up, and if so whether the object
  arrives in the bucket all the same. The moderation service may answer every attempt differently.\<close>

record generate_env =
  ge_principal :: "string \<Rightarrow> string + string"
  ge_unbase64 :: "string \<Rightarrow> string + string"
  ge_sha256_hex :: "string \<Rightarrow> string"
  ge_json_text :: "json \<Rightarrow> string"
  ge_mode :: moderation_mode
  ge_secret :: "string option"
  ge_detect :: "nat \<Rightarrow> string \<Rightarrow> json \<Rightarrow> http_reply"
  ge_status_text :: "nat \<Rightarrow> string"
  ge_request_id :: string
  ge_image_id :: string
  ge_elapsed_nanos :: "nat option"
  ge_share_url :: "string option"
  ge_bucket :: bucket
  ge_tempfile :: "string option"
  ge_temp_path :: "string \<Rightarrow> string"
  ge_stage_timeout :: "bool option"
  ge_public_base :: "string option"
  ge_upload_url :: "string \<Rightarrow> string \<Rightarrow> string + string \<times> string"
  ge_expires_at :: int
  ge_encrypt :: "string \<Rightarrow> string option"
  ge_submit :: "vast_request \<Rightarrow> vast_error + string \<times> string"
  ge_release :: release_mode

record generate_config =
  gc_callback_url :: string
  gc_upload_url_refresh_url :: "string option"

definition eq_ignore_ascii_case :: "string \<Rightarrow> string \<Rightarrow> bool" where
  "eq_ignore_ascii_case a b \<longleftrightarrow> to_lower a = to_lower b"

definition from_runtime_config :: "string option \<Rightarrow> string option \<Rightarrow> generate_config" where
  "from_runtime_config public_base refresh_var = (let
       base = trim_end_char CHR ''/'' (case public_base of
          None \<Rightarrow> ''https://storage-interface.prakash.yral.com'' | Some b \<Rightarrow> b);
       enabled = (case refresh_var of None \<Rightarrow> False | Some v \<Rightarrow> eq_ignore_ascii_case v ''true'' \<or> v = ''1'')
     in \<lparr>gc_callback_url = base @ ''/api/v2/videogen/complete'',
         gc_upload_url_refresh_url = (if enabled then Some (base @ ''/api/v2/videogen/upload-url/refresh'') else None)\<rparr>)"

section \<open>The authentication gate\<close>

definition anonymous_principal :: string where
  "anonymous_principal = ''2vxsx-fae''"

definition try_into_generate_request :: "(string \<Rightarrow> string + string) \<Rightarrow> generate_body \<Rightarrow> string \<Rightarrow> upload_handling option \<Rightarrow>
    generate_error + generate_request" where
  "try_into_generate_request verify body wire handling = (case verify wire of
       Inl _ \<Rightarrow> Inl IdentityMismatch
     | Inr sender \<Rightarrow>
         if sender = anonymous_principal then Inl IdentityMismatch
         else (case handling of
             None \<Rightarrow> Inl (InvalidInput ''upload_handling must be ServerDraft'')
           | Some h \<Rightarrow> Inr (generate_body.extend body (generate_request.fields sender h wire))))"

section \<open>Fingerprint\<close>

record fingerprint_input =
  fp_principal :: string
  fp_model_id :: string
  fp_prompt :: string
  fp_negative_prompt :: "string option"
  fp_aspect_ratio :: string
  fp_duration :: nat
  fp_resolution :: string
  fp_seed :: "int option"
  fp_generate_audio :: bool
  fp_upload_handling :: string
  fp_token_type :: string
  fp_image :: "image_source option"

definition or_else :: "'a option \<Rightarrow> 'a \<Rightarrow> 'a" where
  "or_else x y = (case x of None \<Rightarrow> y | Some z \<Rightarrow> z)"

definition token_type_debug :: "token_type \<Rightarrow> string" where
  "token_type_debug t = (case t of Sats \<Rightarrow> ''Sats'' | Dolr \<Rightarrow> ''Dolr'' | Free \<Rightarrow> ''Free''
     | YralProSubscription \<Rightarrow> ''YralProSubscription'')"

definition fingerprint_input_of :: "('b generate_body_scheme) \<Rightarrow> fingerprint_input" where
  "fingerprint_input_of r = \<lparr>fp_principal = gb_user_id r, fp_model_id = gb_model_id r, fp_prompt = gb_prompt r,
     fp_negative_prompt = gb_negative_prompt r, fp_aspect_ratio = or_else (gb_aspect_ratio r) ''16:9'',
     fp_duration = unat (or_else (gb_duration_seconds r) 5), fp_resolution = or_else (gb_resolution r) ''720p'',
     fp_seed = map_option sint (gb_seed r), fp_generate_audio = or_else (gb_generate_audio r) False,
     fp_upload_handling = ''ServerDraft'', fp_token_type = token_type_debug (or_else (gb_token_type r) Free),
     fp_image = gb_image r\<rparr>"

datatype fingerprint_error = InvalidBase64Image

definition compute_image_identity :: "generate_env \<Rightarrow> image_source option \<Rightarrow> fingerprint_error + string \<times> string option" where
  "compute_image_identity env img = (case img of
       None \<Rightarrow> Inr (''none'', None)
     | Some (Base64Image data _) \<Rightarrow> (case ge_unbase64 env data of
         Inl _ \<Rightarrow> Inl InvalidBase64Image | Inr bytes \<Rightarrow> Inr (''base64'', Some (ge_sha256_hex env bytes)))
     | Some (UrlImage ref) \<Rightarrow> Inr (''reference'', Some (ge_sha256_hex env ref)))"

definition canonical_json :: "fingerprint_input \<Rightarrow> string \<Rightarrow> string option \<Rightarrow> json" where
  "canonical_json i ident_type ident = JObj [
     (''aspect_ratio'', JStr (fp_aspect_ratio i)), (''duration'', JInt (int (fp_duration i))),
     (''fingerprint_version'', JInt 1), (''generate_audio'', JBool (fp_generate_audio i)),
     (''image_identity'', json_opt ident), (''image_identity_type'', JStr ident_type),
     (''model_id'', JStr (fp_model_id i)), (''negative_prompt'', json_opt (fp_negative_prompt i)),
     (''principal'', JStr (fp_principal i)), (''prompt'', JStr (fp_prompt i)),
     (''resolution'', JStr (fp_resolution i)), (''seed'', (case fp_seed i of None \<Rightarrow> JNull | Some n \<Rightarrow> JInt n)),
     (''token_type'', JStr (fp_token_type i)), (''upload_handling'', JStr (fp_upload_handling i))]"

definition compute_request_fingerprint :: "generate_env \<Rightarrow> fingerprint_input \<Rightarrow> fingerprint_error + string" where
  "compute_request_fingerprint env i = (case compute_image_identity env (fp_image i) of
       Inl e \<Rightarrow> Inl e
     | Inr (t, ident) \<Rightarrow> Inr (ge_sha256_hex env (ge_json_text env (canonical_json i t ident))))"

section \<open>Moderation\<close>

datatype moderation_subject = TextOnly | ImageUrl string

datatype moderation_decision = Safe | Unsafe

datatype attempt_error = Retryable string | Terminal string

definition MODERATION_MAX_ATTEMPTS :: nat where "MODERATION_MAX_ATTEMPTS = 3"

definition is_nsfw :: "json \<Rightarrow> bool" where
  "is_nsfw body = (case body of JObj kvs \<Rightarrow> map_of kvs ''is_nsfw'' = Some (JBool True) | _ \<Rightarrow> False)"

definition moderate_once :: "generate_env \<Rightarrow> string \<Rightarrow> json \<Rightarrow> nat \<Rightarrow> attempt_error + moderation_decision" where
  "moderate_once env path body attempt_no = (case ge_detect env attempt_no path body of
       NoReply e \<Rightarrow> Inl (Retryable e)
     | Reply status text parsed \<Rightarrow>
         if \<not> (200 \<le> status \<and> status < 300)
         then (let e = ''moderation service returned '' @ ge_status_text env status @ '': '' @ text
           in Inl (if (500 \<le> status \<and> status < 600) \<or> status = 429 then Retryable e else Terminal e))
         else (case parsed of Inl e \<Rightarrow> Inl (Retryable e) | Inr j \<Rightarrow> Inr (if is_nsfw j then Unsafe else Safe)))"

text \<open>The retry loop; the last argument is the error recorded last.\<close>

fun moderation_attempts :: "(nat \<Rightarrow> attempt_error + moderation_decision) \<Rightarrow> nat list \<Rightarrow> string \<Rightarrow>
    string + moderation_decision" where
  "moderation_attempts once [] last_err = Inl last_err"
| "moderation_attempts once (a # as) last_err = (case once a of
       Inr decision \<Rightarrow> Inr decision
     | Inl (Terminal e) \<Rightarrow> Inl e
     | Inl (Retryable e) \<Rightarrow> moderation_attempts once as e)"

definition moderate :: "generate_env \<Rightarrow> string \<Rightarrow> moderation_subject \<Rightarrow> string + moderation_decision" where
  "moderate env prompt subject = (if ge_mode env = MockAllow then Inr Safe
     else (case ge_secret env of
         None \<Rightarrow> Inl ''MODERATION_HMAC_SECRET is required''
       | Some _ \<Rightarrow> (let (path, body) = (case subject of
             TextOnly \<Rightarrow> (''/v1/text/detect'', JObj [(''text'', JStr prompt)])
           | ImageUrl url \<Rightarrow> (''/v1/images/detect-url'', JObj [(''image_url'', JStr url), (''prompt'', JStr prompt)]))
         in moderation_attempts (moderate_once env path body) [1..<Suc MODERATION_MAX_ATTEMPTS] [])))"

section \<open>Staging an image\<close>

definition image_extension :: "string \<Rightarrow> string" where
  "image_extension mime = (if mime = ''image/jpeg'' \<or> mime = ''image/jpg'' then ''jpg''
     else if mime = ''image/webp'' then ''webp'' else ''png'')"

definition staged_key :: "generate_env \<Rightarrow> string \<Rightarrow> string \<Rightarrow> string" where
  "staged_key env user mime = ''_input/'' @ user @ ''/'' @ ge_image_id env @ ''.'' @ image_extension mime"

definition put_staged :: "string \<Rightarrow> ('e, unit) vg" where
  "put_staged key = on_db (\<lambda>w. w\<lparr>gw_staged := gw_staged w @ [key]\<rparr>)"

definition stage_image :: "generate_env \<Rightarrow> image_source option \<Rightarrow> string \<Rightarrow>
    (image_stage_error, (string \<times> string option) option) vg" where
  "stage_image env img user = (case img of
       None \<Rightarrow> ret None
     | Some (UrlImage url) \<Rightarrow> ret (Some (url, None))
     | Some (Base64Image data mime) \<Rightarrow> (case ge_unbase64 env data of
         Inl e \<Rightarrow> raise (StageFailed e)
       | Inr bytes \<Rightarrow> (case ge_share_url env of
           None \<Rightarrow> raise (StageFailed ''SFW_SHARE_EU1_URL is required'')
         | Some base \<Rightarrow> (case ge_tempfile env of
             Some e \<Rightarrow> raise (StageFailed e)
           | None \<Rightarrow> (let key = staged_key env user mime;
                 cp = uplink_cp (bk_uplink (ge_bucket env)) (ge_temp_path env bytes)
                   (''sj://'' @ bk_name (ge_bucket env) @ ''/'' @ key) (bk_grant (ge_bucket env))
               in case ge_stage_timeout env of
                   Some late \<Rightarrow> bnd (if late then put_staged key else ret ()) (\<lambda>_. raise StageTimeout)
                 | None \<Rightarrow> (case cp of
                     Inl e \<Rightarrow> raise (StageFailed e)
                   | Inr _ \<Rightarrow> bnd (put_staged key) (\<lambda>_.
                       ret (Some (trim_end_char CHR ''/'' base @ ''/'' @ key, Some key)))))))))"

section \<open>Validation\<close>

text \<open>Texts are UTF-8: characters are the bytes that do not continue one, and the white space of Unicode
  takes up to three bytes.\<close>

definition char_count :: "string \<Rightarrow> nat" where
  "char_count s = length (filter (\<lambda>c. \<not> (128 \<le> (of_char c :: nat) \<and> (of_char c :: nat) < 192)) s)"

fun blank_bytes :: "nat list \<Rightarrow> bool" where
  "blank_bytes (b1 # b2 # b3 # bs) =
     (if b1 \<in> {9, 10, 11, 12, 13, 32} then blank_bytes (b2 # b3 # bs)
      else if b1 = 0xC2 \<and> b2 \<in> {0x85, 0xA0} then blank_bytes (b3 # bs)
      else if (b1 = 0xE1 \<and> b2 = 0x9A \<and> b3 = 0x80) \<or> (b1 = 0xE2 \<and> b2 = 0x80 \<and> (0x80 \<le> b3 \<and> b3 \<le> 0x8A \<or>
           b3 \<in> {0xA8, 0xA9, 0xAF})) \<or> (b1 = 0xE2 \<and> b2 = 0x81 \<and> b3 = 0x9F) \<or> (b1 = 0xE3 \<and> b2 = 0x80 \<and> b3 = 0x80)
      then blank_bytes bs else False)"
| "blank_bytes [b1, b2] = (b1 \<in> {9, 10, 11, 12, 13, 32} \<and> b2 \<in> {9, 10, 11, 12, 13, 32} \<or> b1 = 0xC2 \<and> b2 \<in> {0x85, 0xA0})"
| "blank_bytes [b1] = (b1 \<in> {9, 10, 11, 12, 13, 32})"
| "blank_bytes [] = True"

definition blank :: "string \<Rightarrow> bool" where
  "blank s = blank_bytes (map of_char s)"

definition MAX_PROMPT_CHARS :: nat where "MAX_PROMPT_CHARS = 2000"

definition check_request :: "generate_env \<Rightarrow> generate_request \<Rightarrow> generate_error + generate_request" where
  "check_request env r = (case ge_principal env (gb_user_id r) of
       Inl e \<Rightarrow> Inl (InvalidInput (''Invalid user_id: '' @ e))
     | Inr claimed \<Rightarrow>
         if gr_identity_principal r \<noteq> claimed then Inl IdentityMismatch
         else if gr_upload_handling r \<noteq> HServerDraft
         then Inl (InvalidInput ''Only ServerDraft upload_handling is supported'')
         else if gb_model_id r \<noteq> ''ltx2'' then Inl (EWorkflow (WUnsupported (gb_model_id r)))
         else if blank (gb_prompt r) then Inl (InvalidInput ''Prompt must not be empty'')
         else if char_count (gb_prompt r) > MAX_PROMPT_CHARS
         then Inl (InvalidInput (''Prompt must be at most '' @ show_nat MAX_PROMPT_CHARS @ '' characters''))
         else Inr (r\<lparr>gb_user_id := claimed\<rparr>))"

end
