(* ===== verification/Generate_Flow.thy ===== *)
theory Generate_Flow
  imports Generate "HOL-Library.AList"
begin

text \<open>
  The submission of a generation, continued: the workflow graph sent to the provider, the request, the
  stages of \<open>generate_inner\<close> with their rollbacks, and what is left behind when a stage fails.
\<close>

section \<open>The workflow\<close>

type_synonym workflow_node = "string \<times> string \<times> (string \<times> json) list"

definition link :: "string \<Rightarrow> int \<Rightarrow> json" where
  "link n i = JArr [JStr n, JInt i]"

text \<open>Identifier, class and inputs of each node, in the order of the source. Objects are lists of pairs and
  count as equal up to order.\<close>

definition ltx2_nodes :: "string \<Rightarrow> bool \<Rightarrow> string \<Rightarrow> int \<Rightarrow> workflow_node list" where
  "ltx2_nodes prompt is_t2v img dur = [
     (''267:236'', ''CheckpointLoaderSimple'', [(''ckpt_name'', JStr ''ltx-2.3-22b-dev-fp8.safetensors'')]),
     (''267:243'', ''LTXAVTextEncoderLoader'', [(''text_encoder'', JStr ''gemma_3_12B_it_fp4_mixed.safetensors''),
      (''ckpt_name'', JStr ''ltx-2.3-22b-dev-fp8.safetensors''), (''device'', JStr ''default'')]),
     (''267:221'', ''LTXVAudioVAELoader'', [(''ckpt_name'', JStr ''ltx-2.3-22b-dev-fp8.safetensors'')]),
     (''267:232'', ''LoraLoaderModelOnly'', [(''lora_name'', JStr ''ltx-2.3-22b-distilled-lora-384.safetensors''),
      (''strength_model'', JFloat 0x3FE0000000000000), (''model'', link ''267:236'' 0)]),
     (''267:233'', ''LatentUpscaleModelLoader'', [(''model_name'', JStr ''ltx-2.3-spatial-upscaler-x2-1.1.safetensors'')]),
     (''267:201'', ''PrimitiveBoolean'', [(''value'', JBool is_t2v)]),
     (''267:260'', ''PrimitiveInt'', [(''value'', JInt 25)]),
     (''267:225'', ''PrimitiveInt'', [(''value'', JInt dur)]),
     (''267:257'', ''PrimitiveInt'', [(''value'', JInt 720)]),
     (''267:258'', ''PrimitiveInt'', [(''value'', JInt 1280)]),
     (''267:261'', ''ComfyMathExpression'', [(''expression'', JStr ''a''), (''values.a'', link ''267:260'' 0)]),
     (''267:277'', ''ComfyMathExpression'', [(''expression'', JStr ''a * b + 1''),
      (''values.a'', link ''267:225'' 0), (''values.b'', link ''267:260'' 0)]),
     (''267:256'', ''ComfyMathExpression'', [(''expression'', JStr ''a/2''), (''values.a'', link ''267:257'' 0)]),
     (''267:259'', ''ComfyMathExpression'', [(''expression'', JStr ''a/2''), (''values.a'', link ''267:258'' 0)]),
     (''267:266'', ''PrimitiveStringMultiline'', [(''value'', JStr prompt)]),
     (''267:240'', ''CLIPTextEncode'', [(''text'', link ''267:266'' 0), (''clip'', link ''267:243'' 0)]),
     (''267:247'', ''CLIPTextEncode'', [(''text'', JStr ''pc game, console game, video game, cartoon, childish, ugly''),
      (''clip'', link ''267:243'' 0)]),
     (''267:239'', ''LTXVConditioning'', [(''frame_rate'', link ''267:261'' 0),
      (''positive'', link ''267:240'' 0), (''negative'', link ''267:247'' 0)]),
     (''267:214'', ''LTXVEmptyLatentAudio'', [(''frames_number'', link ''267:277'' 1),
      (''frame_rate'', link ''267:261'' 1), (''batch_size'', JInt 1), (''audio_vae'', link ''267:221'' 0)]),
     (''267:276'', ''LoadImage'', [(''image'', JStr img)]),
     (''267:238'', ''ResizeImageMaskNode'', [(''resize_type'', JStr ''scale dimensions''),
      (''resize_type.width'', link ''267:257'' 0), (''resize_type.height'', link ''267:258'' 0),
      (''resize_type.crop'', JStr ''center''), (''scale_method'', JStr ''lanczos''),
      (''input'', link ''267:276'' 0)]),
     (''267:235'', ''ResizeImagesByLongerEdge'', [(''longer_edge'', JInt 1536), (''images'', link ''267:238'' 0)]),
     (''267:248'', ''LTXVPreprocess'', [(''img_compression'', JInt 18), (''image'', link ''267:235'' 0)]),
     (''267:228'', ''EmptyLTXVLatentVideo'', [(''width'', link ''267:256'' 1), (''height'', link ''267:259'' 1),
      (''length'', link ''267:277'' 1), (''batch_size'', JInt 1)]),
     (''267:249'', ''LTXVImgToVideoInplace'', [(''strength'', JFloat 0x3FE6666666666666),
      (''bypass'', link ''267:201'' 0), (''vae'', link ''267:236'' 2), (''image'', link ''267:248'' 0),
      (''latent'', link ''267:228'' 0)]),
     (''267:222'', ''LTXVConcatAVLatent'', [(''video_latent'', link ''267:249'' 0),
      (''audio_latent'', link ''267:214'' 0)]),
     (''267:237'', ''RandomNoise'', [(''noise_seed'', JInt 0)]),
     (''267:209'', ''KSamplerSelect'', [(''sampler_name'', JStr ''euler_ancestral_cfg_pp'')]),
     (''267:252'', ''ManualSigmas'', [(''sigmas'', JStr ''1.0, 0.99375, 0.9875, 0.98125, 0.975, 0.909375, 0.725, 0.421875, 0.0'')]),
     (''267:231'', ''CFGGuider'', [(''cfg'', JInt 1), (''model'', link ''267:232'' 0),
      (''positive'', link ''267:239'' 0), (''negative'', link ''267:239'' 1)]),
     (''267:215'', ''SamplerCustomAdvanced'', [(''noise'', link ''267:237'' 0), (''guider'', link ''267:231'' 0),
      (''sampler'', link ''267:209'' 0), (''sigmas'', link ''267:252'' 0), (''latent_image'', link ''267:222'' 0)]),
     (''267:217'', ''LTXVSeparateAVLatent'', [(''av_latent'', link ''267:215'' 0)]),
     (''267:253'', ''LTXVLatentUpsampler'', [(''samples'', link ''267:217'' 0),
      (''upscale_model'', link ''267:233'' 0), (''vae'', link ''267:236'' 2)]),
     (''267:230'', ''LTXVImgToVideoInplace'', [(''strength'', JFloat 0x3FF0000000000000),
      (''bypass'', link ''267:201'' 0), (''vae'', link ''267:236'' 2), (''image'', link ''267:248'' 0),
      (''latent'', link ''267:253'' 0)]),
     (''267:229'', ''LTXVConcatAVLatent'', [(''video_latent'', link ''267:230'' 0),
      (''audio_latent'', link ''267:217'' 1)]),
     (''267:212'', ''LTXVCropGuides'', [(''positive'', link ''267:239'' 0), (''negative'', link ''267:239'' 1),
      (''latent'', link ''267:217'' 0)]),
     (''267:216'', ''RandomNoise'', [(''noise_seed'', JInt 0)]),
     (''267:246'', ''KSamplerSelect'', [(''sampler_name'', JStr ''euler_cfg_pp'')]),
     (''267:211'', ''ManualSigmas'', [(''sigmas'', JStr ''0.85, 0.7250, 0.4219, 0.0'')]),
     (''267:213'', ''CFGGuider'', [(''cfg'', JInt 1), (''model'', link ''267:232'' 0),
      (''positive'', link ''267:212'' 0), (''negative'', link ''267:212'' 1)]),
     (''267:219'', ''SamplerCustomAdvanced'', [(''noise'', link ''267:216'' 0), (''guider'', link ''267:213'' 0),
      (''sampler'', link ''267:246'' 0), (''sigmas'', link ''267:211'' 0), (''latent_image'', link ''267:229'' 0)]),
     (''267:218'', ''LTXVSeparateAVLatent'', [(''av_latent'', link ''267:219'' 0)]),
     (''267:251'', ''VAEDecodeTiled'', [(''tile_size'', JInt 768), (''overlap'', JInt 64),
      (''temporal_size'', JInt 4096), (''temporal_overlap'', JInt 4), (''samples'', link ''267:218'' 0),
      (''vae'', link ''267:236'' 2)]),
     (''267:220'', ''LTXVAudioVAEDecode'', [(''samples'', link ''267:218'' 1), (''audio_vae'', link ''267:221'' 0)]),
     (''267:242'', ''CreateVideo'', [(''fps'', link ''267:261'' 0), (''images'', link ''267:251'' 0),
      (''audio'', link ''267:220'' 0)]),
     (''75'', ''SaveVideo'', [(''filename_prefix'', JStr ''video/ltx2-3''), (''format'', JStr ''auto''),
      (''codec'', JStr ''auto''), (''video-preview'', JStr ''''), (''video'', link ''267:242'' 0)])]"

definition MAX_DURATION_SECS :: "8 word" where "MAX_DURATION_SECS = 15"

definition build_ltx2_workflow :: "('b generate_body_scheme) \<Rightarrow> string option \<Rightarrow> json" where
  "build_ltx2_workflow r staged_url = JObj (map
     (\<lambda>(n, cls, inputs). (n, JObj [(''inputs'', JObj inputs), (''class_type'', JStr cls)]))
     (ltx2_nodes (gb_prompt r) (staged_url = None) (or_else staged_url ''example.png'')
        (uint (case gb_duration_seconds r of
           None \<Rightarrow> MAX_DURATION_SECS | Some d \<Rightarrow> if d \<le> MAX_DURATION_SECS then d else MAX_DURATION_SECS))))"

definition workflow_json :: "('b generate_body_scheme) \<Rightarrow> string option \<Rightarrow> workflow_error + json" where
  "workflow_json r staged_url = (if gb_model_id r \<noteq> ''ltx2'' then Inl (WUnsupported (gb_model_id r))
     else Inr (build_ltx2_workflow r staged_url))"

section \<open>The request to the provider\<close>

text \<open>The caller's extra parameters are entered last and replace what is there.\<close>

definition vast_input :: "('b generate_body_scheme) \<Rightarrow> string option \<Rightarrow> json" where
  "vast_input r staged_url = (let
       base = [(''prompt'', JStr (gb_prompt r)), (''negative_prompt'', json_opt (gb_negative_prompt r)),
         (''aspect_ratio'', JStr (or_else (gb_aspect_ratio r) ''16:9'')),
         (''duration_seconds'', JInt (uint (or_else (gb_duration_seconds r) 5))),
         (''resolution'', JStr (or_else (gb_resolution r) ''720p'')),
         (''generate_audio'', JBool (or_else (gb_generate_audio r) False)),
         (''seed'', (case gb_seed r of None \<Rightarrow> JNull | Some n \<Rightarrow> JInt (uint n)))];
       staged = (case staged_url of None \<Rightarrow> base | Some url \<Rightarrow> AList.update ''image_url'' (JStr url) base)
     in JObj (fold (\<lambda>(k, v). AList.update k v) (gb_extra_params r) staged))"

definition is_accepted_status :: "string \<Rightarrow> bool" where
  "is_accepted_status status \<longleftrightarrow> status = ''submitted'' \<or> status = ''queued''"

definition operation_id :: "request_key \<Rightarrow> string" where
  "operation_id key = rk_principal key @ ''_'' @ show_nat (unat (rk_counter key))"

text \<open>Nanoseconds since 1970, truncated to 64 bits, or the maximum if the clock is before; never 0.\<close>

definition fallback_counter :: "nat option \<Rightarrow> 64 word" where
  "fallback_counter elapsed = max (case elapsed of None \<Rightarrow> - 1 | Some n \<Rightarrow> of_nat n) 1"

section \<open>The stages\<close>

definition mark_request_failed :: "request_key \<Rightarrow> string \<Rightarrow> ('e, unit) vg" where
  "mark_request_failed key reason = on_store (record_terminal_best_effort (rk_principal key) (rk_counter key) (TFailed reason))"

definition fail_after_submit :: "generate_env \<Rightarrow> request_key \<Rightarrow> upload_destination option \<Rightarrow> string \<Rightarrow> ('e, unit) vg" where
  "fail_after_submit env key dest reason = bnd (mark_request_failed key reason) (\<lambda>_. case dest of
       None \<Rightarrow> ret ()
     | Some d \<Rightarrow> bnd (release (ge_release env) key (ud_video_id d) (ud_object_key d)) (\<lambda>_. ret ()))"

text \<open>A stage whose error is recorded before it is returned.\<close>

definition or_fail :: "generate_env \<Rightarrow> request_key \<Rightarrow> ('e \<Rightarrow> string) \<Rightarrow> ('e \<Rightarrow> generate_error) \<Rightarrow> ('e, 'a) vg \<Rightarrow>
    (generate_error, 'a) vg" where
  "or_fail env key reason err m = bnd (attempt m) (\<lambda>x. case x of
       Inl e \<Rightarrow> bnd (fail_after_submit env key None (reason e)) (\<lambda>_. raise (err e))
     | Inr y \<Rightarrow> ret y)"

definition split_staged :: "(string \<times> string option) option \<Rightarrow> string option \<times> string option" where
  "split_staged x = (case x of None \<Rightarrow> (None, None) | Some (url, key) \<Rightarrow> (Some url, key))"

definition pre_stage :: "generate_env \<Rightarrow> generate_request \<Rightarrow> (generate_error, string option \<times> string option) vg" where
  "pre_stage env r = (case gb_image r of
       Some (Base64Image _ _) \<Rightarrow> bnd (map_err EImageStage (stage_image env (gb_image r) (gb_user_id r)))
         (\<lambda>x. ret (split_staged x))
     | _ \<Rightarrow> ret (None, None))"

definition moderation_subject_of :: "generate_request \<Rightarrow> string option \<Rightarrow> moderation_subject" where
  "moderation_subject_of r staged_url = (case gb_image r of
       None \<Rightarrow> TextOnly
     | Some (UrlImage url) \<Rightarrow> ImageUrl url
     | Some (Base64Image _ _) \<Rightarrow> (case staged_url of Some url \<Rightarrow> ImageUrl url | None \<Rightarrow> TextOnly))"

definition run_moderation :: "generate_env \<Rightarrow> generate_request \<Rightarrow> string option \<Rightarrow> string option \<Rightarrow> (generate_error, unit) vg" where
  "run_moderation env r url skey = (case moderate env (gb_prompt r) (moderation_subject_of r url) of
       Inl e \<Rightarrow> bnd (remove_staged_opt (ge_bucket env) skey) (\<lambda>_. raise (EModeration e))
     | Inr Unsafe \<Rightarrow> bnd (remove_staged_opt (ge_bucket env) skey) (\<lambda>_.
         raise (InvalidInput ''Content violates safety guidelines''))
     | Inr Safe \<Rightarrow> ret ())"

definition record_pending :: "generate_env \<Rightarrow> generate_request \<Rightarrow> ('e, request_key) vg" where
  "record_pending env r = bnd (on_store (record_pending_best_effort \<lparr>nr_principal = gb_user_id r,
       nr_request_id = ge_request_id env, nr_model_id = gb_model_id r, nr_prompt = gb_prompt r\<rparr>)) (\<lambda>recorded.
     ret \<lparr>rk_principal = gb_user_id r, rk_counter = (case recorded of
       Some counter \<Rightarrow> word_of_int counter | None \<Rightarrow> fallback_counter (ge_elapsed_nanos env))\<rparr>)"

definition reserve_upload_destination :: "generate_env \<Rightarrow> string \<Rightarrow> string + upload_destination" where
  "reserve_upload_destination env user = (case ge_public_base env of
       None \<Rightarrow> Inl ''PUBLIC_BASE_URL not set''
     | Some base \<Rightarrow> (case ge_upload_url env base user of
         Inl e \<Rightarrow> Inl e
       | Inr (video_id, url) \<Rightarrow> Inr \<lparr>ud_video_id = video_id, ud_object_key = video_id @ ''.mp4'',
           ud_upload_url = url, ud_expires_at = ge_expires_at env,
           ud_bucket_url = map_option (\<lambda>share. share @ ''/'' @ user @ ''/'' @ video_id @ ''.mp4'') (ge_share_url env),
           ud_encrypted_identity = None\<rparr>))"

definition submit_vast :: "generate_env \<Rightarrow> request_key \<Rightarrow> vast_request \<Rightarrow> (generate_error, unit) vg" where
  "submit_vast env key vq = bnd (send (SentSubmit vq)) (\<lambda>_. case ge_submit env vq of
       Inl e \<Rightarrow> bnd (fail_after_submit env key (Some (vq_upload_destination vq))
           (''Vast submit failed: '' @ vast_error_text e)) (\<lambda>_. raise (EVast e))
     | Inr (echoed, status) \<Rightarrow>
         if echoed = vq_request_id vq \<and> is_accepted_status status then ret ()
         else (let reason = ''Vast did not accept request: status='' @ status @ '', echoed_request_id_matches='' @
             (if echoed = vq_request_id vq then ''true'' else ''false'')
           in bnd (fail_after_submit env key (Some (vq_upload_destination vq)) reason) (\<lambda>_. raise (EVast (RequestFailed reason)))))"

section \<open>The submission\<close>

definition submit_recorded :: "generate_env \<Rightarrow> generate_config \<Rightarrow> generate_request \<Rightarrow> request_key \<Rightarrow>
    string option \<times> string option \<Rightarrow> (generate_error, generate_response) vg" where
  "submit_recorded env cfg r key staged =
     bnd (or_fail env key (\<lambda>e. ''workflow selection failed: '' @ workflow_error_text e) EWorkflow
       (try_result (workflow_json r (fst staged)))) (\<lambda>workflow.
     bnd (or_fail env key (\<lambda>e. ''upload destination reservation failed: '' @ destination_error_text e) EUploadDestination
       (try_result (reserve_upload_destination env (gb_user_id r)))) (\<lambda>dest.
     bnd (submit_vast env key \<lparr>vq_request_id = ge_request_id env, vq_request_key = key,
         vq_user_principal = gb_user_id r, vq_model_id = gb_model_id r, vq_workflow_json = workflow,
         vq_input = vast_input r (fst staged), vq_callback_url = gc_callback_url cfg,
         vq_upload_url_refresh_url = gc_upload_url_refresh_url cfg,
         vq_upload_destination = dest\<lparr>ud_encrypted_identity := ge_encrypt env (gr_identity_wire r)\<rparr>,
         vq_staged_image_key = snd staged\<rparr>) (\<lambda>_.
     ret \<lparr>gp_operation_id = operation_id key, gp_provider = ''Ltx2'', gp_request_key = key\<rparr>)))"

text \<open>A base64 image is staged already; for any other the staging passes its url through.\<close>

definition late_stage :: "generate_env \<Rightarrow> generate_request \<Rightarrow> request_key \<Rightarrow> string option \<Rightarrow> string option \<Rightarrow>
    (generate_error, string option \<times> string option) vg" where
  "late_stage env r key url skey = (if url \<noteq> None then ret (url, skey)
     else or_fail env key (\<lambda>e. ''image staging failed: '' @ stage_error_text e) EImageStage
       (bnd (stage_image env (gb_image r) (gb_user_id r)) (\<lambda>x. ret (split_staged x))))"

definition generate_inner :: "generate_env \<Rightarrow> generate_config \<Rightarrow> generate_request \<Rightarrow> (generate_error, generate_response) vg" where
  "generate_inner env cfg request =
     bnd (try_result (check_request env request)) (\<lambda>r.
     bnd (try_result (map_left (\<lambda>_. InvalidInput ''image base64 is invalid'')
         (compute_request_fingerprint env (fingerprint_input_of r)))) (\<lambda>_.
     bnd (pre_stage env r) (\<lambda>(url, skey).
     bnd (run_moderation env r url skey) (\<lambda>_.
     bnd (record_pending env r) (\<lambda>key.
     bnd (late_stage env r key url skey) (\<lambda>staged.
     submit_recorded env cfg r key staged))))))"

definition generate_with_dependencies :: "generate_env \<Rightarrow> generate_config \<Rightarrow> generate_request \<Rightarrow>
    (nat \<times> video_gen_error, generate_response) vg" where
  "generate_with_dependencies env cfg request = map_err http_error_of (generate_inner env cfg request)"

text \<open>The handler: the identity first, then the configuration, then the submission.\<close>

definition generate_video :: "string + generate_env \<times> generate_config \<Rightarrow> (string \<Rightarrow> string + string) \<Rightarrow>
    generate_body \<Rightarrow> string \<Rightarrow> upload_handling option \<Rightarrow> (nat \<times> video_gen_error, generate_response) vg" where
  "generate_video config verify body wire handling =
     bnd (map_err http_error_of (try_result (try_into_generate_request verify body wire handling))) (\<lambda>request.
     case config of
       Inl e \<Rightarrow> raise (503, VProviderError (''Videogen configuration error: '' @ e))
     | Inr (env, cfg) \<Rightarrow> generate_with_dependencies env cfg request)"

end
