(* ===== verification/Generate_Props.thy ===== *)
theory Generate_Props
  imports Completion Generate_Flow
begin

text \<open>
  What the submission of a generation promises: nothing happens for a request that is not authenticated, valid
  and moderated; a submission that fails leaves no pending request; and an accepted one is completed by its
  callback, whatever other users do in between.
\<close>

section \<open>Stages that touch neither the database nor other services\<close>

definition quiet :: "('e, 'a) vg \<Rightarrow> bool" where
  "quiet m \<longleftrightarrow> (\<forall>p w r q w'. m (p, w) = (r, q, w') \<longrightarrow> q = p \<and> gw_db w' = gw_db w \<and> gw_sent w' = gw_sent w)"

named_theorems quiet_intros "stages that touch neither the database nor other services"

lemma quietD: "quiet m \<Longrightarrow> m (p, w) = (r, q, w') \<Longrightarrow> q = p \<and> gw_db w' = gw_db w \<and> gw_sent w' = gw_sent w"
  by (auto simp: quiet_def)

lemma bnd_cases:
  assumes "bnd m k s = (r, q, w')"
  obtains (fail) e where "m s = (Inl e, q, w')" "r = Inl e"
    | (go) x p1 w1 where "m s = (Inr x, p1, w1)" "k x (p1, w1) = (r, q, w')"
  using assms by (cases "m s" rule: prod_cases3; cases "fst (m s)") (auto simp: run_bnd)

lemma quiet_basic [quiet_intros]: "quiet (ret x)" "quiet (raise e)" "quiet (try_result y)" "quiet (put_staged key)"
  by (auto simp: quiet_def put_staged_def try_result_def split: sum.splits)

lemma quietI: "(\<And>p w r q w'. m (p, w) = (r, q, w') \<Longrightarrow> q = p \<and> gw_db w' = gw_db w \<and> gw_sent w' = gw_sent w) \<Longrightarrow> quiet m"
  by (simp add: quiet_def)

lemma quiet_bnd [quiet_intros]:
  assumes "quiet m" and "\<And>x. quiet (k x)"
  shows "quiet (bnd m k)"
proof (rule quietI)
  fix p w r q w'
  assume "bnd m k (p, w) = (r, q, w')"
  then show "q = p \<and> gw_db w' = gw_db w \<and> gw_sent w' = gw_sent w"
    by (cases rule: bnd_cases) (auto dest!: quietD [OF assms(1)] quietD [OF assms(2)])
qed

lemma quiet_map_err [quiet_intros]: "quiet m \<Longrightarrow> quiet (map_err g m)"
  unfolding quiet_def [of "map_err g m"]
  by (auto simp: run_map_err split: prod.splits sum.splits dest: quietD)

lemma quiet_remove [quiet_intros]: "quiet (remove_staged_opt b key)"
  by (auto simp: quiet_def remove_staged_opt_def remove_staged_def split: option.splits sum.splits)

lemma quiet_stage [quiet_intros]: "quiet (stage_image env img user)"
  unfolding stage_image_def Let_def
  by (auto intro!: quiet_intros split: option.split image_source.split sum.split)

lemma quiet_pre_stage [quiet_intros]: "quiet (pre_stage env r)"
  unfolding pre_stage_def by (auto intro!: quiet_intros split: option.split image_source.split)

lemma quiet_moderation [quiet_intros]: "quiet (run_moderation env r url skey)"
  unfolding run_moderation_def by (auto intro!: quiet_intros split: sum.split moderation_decision.split)

lemma moderated:
  "run_moderation env r url skey (p, w) = (Inr u, q, w') \<Longrightarrow>
   moderate env (gb_prompt r) (moderation_subject_of r url) = Inr Safe"
  by (auto simp: run_moderation_def run_bnd split: sum.splits moderation_decision.splits prod.splits)

text \<open>What has to be moderated for an image: nothing but the prompt where there is none; the address where one is
  given; and for an image in the body the address of its copy in the bucket, under the sender's own staging key, which
  has been uploaded from the decoded bytes.\<close>

definition staged_copy :: "generate_env \<Rightarrow> string \<Rightarrow> string \<Rightarrow> string \<Rightarrow> string \<Rightarrow> bool" where
  "staged_copy env user data mime url \<longleftrightarrow> (\<exists>bytes share. ge_unbase64 env data = Inr bytes \<and> ge_share_url env = Some share \<and>
     uplink_cp (bk_uplink (ge_bucket env)) (ge_temp_path env bytes)
       (''sj://'' @ bk_name (ge_bucket env) @ ''/'' @ staged_key env user mime) (bk_grant (ge_bucket env)) = Inr () \<and>
     url = trim_end_char CHR ''/'' share @ ''/'' @ staged_key env user mime)"

definition covers :: "generate_env \<Rightarrow> string \<Rightarrow> image_source option \<Rightarrow> moderation_subject \<Rightarrow> bool" where
  "covers env user img subject \<longleftrightarrow> (case img of
       None \<Rightarrow> subject = TextOnly
     | Some (UrlImage url) \<Rightarrow> subject = ImageUrl url
     | Some (Base64Image data mime) \<Rightarrow> (\<exists>url. subject = ImageUrl url \<and> staged_copy env user data mime url))"

lemma stage_image_Inr:
  assumes "stage_image env (Some (Base64Image data mime)) user (p, w) = (Inr x, q, w')"
  shows "\<exists>url. x = Some (url, Some (staged_key env user mime)) \<and> staged_copy env user data mime url"
  using assms
  by (auto simp: stage_image_def staged_copy_def Let_def raise_def ret_iff bnd_Inr_iff split: sum.splits option.splits)

lemma pre_stage_covers:
  assumes "pre_stage env r (p, w) = (Inr (url, skey), q, w')"
  shows "covers env (gb_user_id r) (gb_image r) (moderation_subject_of r url)"
  using assms
  by (auto simp: pre_stage_def covers_def moderation_subject_of_def bnd_Inr_iff ret_iff split_staged_def run_map_err
      split: option.splits image_source.splits sum.splits prod.splits dest!: stage_image_Inr)

text \<open>An answer of the moderation service that calls a prompt and its image harmless.\<close>

definition cleared :: "(nat \<Rightarrow> string \<Rightarrow> json \<Rightarrow> http_reply) \<Rightarrow> string \<Rightarrow> moderation_subject \<Rightarrow> bool" where
  "cleared detect prompt subject \<longleftrightarrow> (\<exists>n status t parsed. 1 \<le> n \<and> n \<le> MODERATION_MAX_ATTEMPTS \<and> 200 \<le> status \<and> status < 300 \<and>
     \<not> is_nsfw parsed \<and> (case subject of
         TextOnly \<Rightarrow> detect n ''/v1/text/detect'' (JObj [(''text'', JStr prompt)]) = Reply status t (Inr parsed)
       | ImageUrl url \<Rightarrow> detect n ''/v1/images/detect-url'' (JObj [(''image_url'', JStr url), (''prompt'', JStr prompt)]) =
           Reply status t (Inr parsed)))"

lemma attempts_Inr: "moderation_attempts once as err = Inr d \<Longrightarrow> \<exists>a \<in> set as. once a = Inr d"
  by (induction as arbitrary: err) (auto split: sum.splits attempt_error.splits)

lemma once_safe: "moderate_once env path body n = Inr Safe \<Longrightarrow>
    \<exists>status t parsed. ge_detect env n path body = Reply status t (Inr parsed) \<and> 200 \<le> status \<and> status < 300 \<and> \<not> is_nsfw parsed"
  by (auto simp: moderate_once_def Let_def split: http_reply.splits if_splits sum.splits)

lemma remote_safe:
  assumes "moderate env prompt subject = Inr Safe" and "ge_mode env = Remote"
  shows "cleared (ge_detect env) prompt subject"
proof -
  have once: "\<exists>n status t parsed. 1 \<le> n \<and> n \<le> MODERATION_MAX_ATTEMPTS \<and> 200 \<le> status \<and> status < 300 \<and> \<not> is_nsfw parsed \<and>
      ge_detect env n path body = Reply status t (Inr parsed)"
    if "moderation_attempts (moderate_once env path body) [1..<Suc MODERATION_MAX_ATTEMPTS] [] = Inr Safe" for path body
  proof -
    from attempts_Inr [OF that] obtain n where "n \<in> set [1..<Suc MODERATION_MAX_ATTEMPTS]" "moderate_once env path body n = Inr Safe" by blast
    moreover from once_safe [OF this(2)] obtain status t parsed where "ge_detect env n path body = Reply status t (Inr parsed)"
      "200 \<le> status" "status < 300" "\<not> is_nsfw parsed" by blast
    ultimately show ?thesis by (intro exI [of _ n] exI [of _ status] exI [of _ t] exI [of _ parsed]) auto
  qed
  from assms show ?thesis
    by (cases subject) (auto simp: moderate_def cleared_def simp del: upt_Suc dest!: once [simplified One_nat_def] split: option.splits)
qed

section \<open>Nothing without authentication, validation and moderation\<close>

lemma checked:
  assumes "check_request env req = Inr r"
  shows "ge_principal env (gb_user_id req) = Inr (gr_identity_principal req) \<and>
     r = req\<lparr>gb_user_id := gr_identity_principal req\<rparr> \<and> gr_upload_handling req = HServerDraft \<and>
     gb_model_id req = ''ltx2'' \<and> \<not> blank (gb_prompt req) \<and> char_count (gb_prompt req) \<le> MAX_PROMPT_CHARS"
  using assms by (auto simp: check_request_def split: sum.splits if_splits)

lemma inner_gate:
  assumes run: "generate_inner env cfg req (p, w) = (r, q, w')"
    and act: "gw_db w' \<noteq> gw_db w \<or> gw_sent w' \<noteq> gw_sent w \<or> q \<noteq> p \<or> (\<exists>resp. r = Inr resp)"
  shows "\<exists>r' subject. check_request env req = Inr r' \<and> covers env (gb_user_id r') (gb_image r') subject \<and>
     moderate env (gb_prompt r') subject = Inr Safe"
proof -
  let ?goal = ?thesis
  from run show ?goal
    unfolding generate_inner_def
  proof (cases rule: bnd_cases)
    case fail
    with act quietD [OF quiet_basic(3)] show ?goal by blast
  next
    case (go r' p1 w1)
    then have r': "check_request env req = Inr r'" "p1 = p" "w1 = w" by (auto simp: run_try)
    from go(2) show ?goal
    proof (cases rule: bnd_cases)
      case fail
      with act r' quietD [OF quiet_basic(3)] show ?goal by blast
    next
      case (go fp p2 w2)
      then have w2: "p2 = p" "w2 = w" using r' by (auto simp: run_try)
      from go(2) show ?goal
      proof (cases rule: bnd_cases)
        case fail
        with act w2 quietD [OF quiet_pre_stage] show ?goal by blast
      next
        case (go us p3 w3)
        obtain url skey where us: "us = (url, skey)" by (cases us)
        note us_run = go(1) [unfolded us]
        from quietD [OF quiet_pre_stage go(1)] w2
        have w3: "p3 = p" "gw_db w3 = gw_db w" "gw_sent w3 = gw_sent w" by auto
        from go(2)[unfolded us prod.case] show ?goal
        proof (cases rule: bnd_cases)
          case fail
          with act w3 quietD [OF quiet_moderation fail(1)] show ?goal by auto
        next
          case (go u p4 w4)
          with moderated pre_stage_covers [OF us_run] r' show ?goal by blast
        qed
      qed
    qed
  qed
qed

lemma video_gate:
  assumes "generate_video (Inr (env, cfg)) verify body wire handling (p, w) = (r, q, w')"
    and "gw_db w' \<noteq> gw_db w \<or> gw_sent w' \<noteq> gw_sent w \<or> (\<exists>resp. r = Inr resp)"
  shows "\<exists>req r' subject. try_into_generate_request verify body wire handling = Inr req \<and> check_request env req = Inr r' \<and>
     covers env (gb_user_id r') (gb_image r') subject \<and> moderate env (gb_prompt r') subject = Inr Safe"
proof -
  from assms(1) show ?thesis
    unfolding generate_video_def
  proof (cases rule: bnd_cases)
    case fail
    with assms(2) show ?thesis by (auto simp: run_map_err run_try split: sum.splits)
  next
    case (go req p1 w1)
    then have req: "try_into_generate_request verify body wire handling = Inr req" and w1: "p1 = p" "w1 = w"
      by (auto simp: run_map_err run_try split: sum.splits)
    from go(2) w1 obtain r1 where inner: "generate_inner env cfg req (p, w) = (r1, q, w')"
      and "(\<exists>x. r = Inr x) \<longrightarrow> (\<exists>x. r1 = Inr x)"
      by (auto simp: generate_with_dependencies_def run_map_err split: prod.splits sum.splits)
    with assms(2) have "gw_db w' \<noteq> gw_db w \<or> gw_sent w' \<noteq> gw_sent w \<or> q \<noteq> p \<or> (\<exists>resp. r1 = Inr resp)" by blast
    from inner_gate [OF inner this] req show ?thesis by blast
  qed
qed

text \<open>What the gate says of the caller and of the body.\<close>

lemma gate_body:
  assumes "try_into_generate_request verify body wire handling = Inr req" and "check_request env req = Inr r'"
  shows "\<exists>sender. verify wire = Inr sender \<and> sender \<noteq> anonymous_principal \<and> ge_principal env (gb_user_id body) = Inr sender \<and>
     gb_model_id body = ''ltx2'' \<and> handling = Some HServerDraft \<and> \<not> blank (gb_prompt body) \<and>
     char_count (gb_prompt body) \<le> MAX_PROMPT_CHARS \<and> gb_prompt r' = gb_prompt body \<and> gb_image r' = gb_image body \<and>
     gb_user_id r' = sender"
proof -
  from assms(1) obtain sender h where "verify wire = Inr sender" "sender \<noteq> anonymous_principal"
    "handling = Some h" "req = generate_body.extend body (generate_request.fields sender h wire)"
    by (auto simp: try_into_generate_request_def split: sum.splits if_splits option.splits)
  with checked [OF assms(2)] show ?thesis
    by (intro exI [of _ sender]) (auto simp: generate_body.defs generate_request.defs)
qed


section \<open>A failing submission\<close>

definition recorded :: "new_request \<Rightarrow> pgdb \<Rightarrow> pgdb" where
  "recorded req d = d\<lparr>videogen_requests := videogen_requests d @ [pending_row req d], request_seq := request_seq d + 1\<rparr>"

definition failed_db :: "request_key \<Rightarrow> string \<Rightarrow> pgdb \<Rightarrow> pgdb" where
  "failed_db key reason d = snd (update_requests (open_request (rk_principal key) (saturate_i64 (rk_counter key)))
     (\<lambda>r. r\<lparr>vr_status := RFailed, vr_failure_reason := Some reason\<rparr>) d)"

definition release_calls :: "generate_env \<Rightarrow> request_key \<Rightarrow> upload_destination option \<Rightarrow> sent list" where
  "release_calls env key dest = (case (dest, ge_release env) of
       (Some d, Endpoint _) \<Rightarrow> [SentRelease key (ud_video_id d) (ud_object_key d)] | _ \<Rightarrow> [])"

lemma record_pending_run:
  "record_pending env r ([], w) =
     (Inr \<lparr>rk_principal = gb_user_id r, rk_counter = word_of_int (request_seq (gw_db w))\<rparr>, [],
      w\<lparr>gw_db := recorded \<lparr>nr_principal = gb_user_id r, nr_request_id = ge_request_id env, nr_model_id = gb_model_id r,
         nr_prompt = gb_prompt r\<rparr> (gw_db w)\<rparr>)"
  by (simp add: record_pending_def run_simps one_request recorded_def)

lemma mark_request_failed_run:
  "mark_request_failed key reason ([], w) = (Inr (), [], w\<lparr>gw_db := failed_db key reason (gw_db w)\<rparr>)"
  by (simp add: mark_request_failed_def run_simps record_terminal_best_effort_def mark_failed_def failed_db_def
      split: prod.split)

lemma fail_after_submit_run:
  "fail_after_submit env key dest reason ([], w) =
     (Inr (), [], w\<lparr>gw_db := failed_db key reason (gw_db w), gw_sent := gw_sent w @ release_calls env key dest\<rparr>)"
  by (simp add: fail_after_submit_def run_simps mark_request_failed_run release_def release_calls_def
      split: option.split release_mode.split)

lemma saturate_counter: "0 \<le> n \<Longrightarrow> n < 2 ^ 63 \<Longrightarrow> saturate_i64 (word_of_int n) = n"
  by (simp add: saturate_i64_def uint_word_of_int)

lemma failed_recorded:
  assumes "store_ok d" and "0 \<le> request_seq d" and "request_seq d < 2 ^ 63"
    and "key = \<lparr>rk_principal = nr_principal req, rk_counter = word_of_int (request_seq d)\<rparr>"
  shows "videogen_requests (failed_db key reason (recorded req d)) = videogen_requests d @
     [(pending_row req d)\<lparr>vr_status := RFailed, vr_failure_reason := Some reason, vr_updated_at := now_us d\<rparr>]"
proof -
  have "\<not> open_request (nr_principal req) (request_seq d) r" if "r \<in> set (videogen_requests d)" for r
    using assms(1) that by (auto simp: store_ok_def open_request_def)
  moreover have "open_request (nr_principal req) (request_seq d) (pending_row req d)"
    by (simp add: open_request_def pending_row_def)
  ultimately show ?thesis
    using assms by (simp add: failed_db_def recorded_def update_requests_def update_where_def saturate_counter map_idI)
qed

text \<open>How a world looks after a failure was recorded for the request of \<open>key\<close>.\<close>

definition rolled_back :: "generate_env \<Rightarrow> request_key \<Rightarrow> vg_world \<Rightarrow> vg_world \<Rightarrow> bool" where
  "rolled_back env key w w' \<longleftrightarrow> (\<exists>reason. gw_db w' = failed_db key reason (gw_db w)) \<and>
     (gw_sent w' = gw_sent w \<or> (\<exists>vq. vq_request_key vq = key \<and>
        gw_sent w' = gw_sent w @ SentSubmit vq # release_calls env key (Some (vq_upload_destination vq))))"

lemma or_fail_cases:
  assumes "or_fail env key reason err m ([], w) = (r, q, w')" and "quiet m"
  shows "(\<exists>y. r = Inr y \<and> q = [] \<and> gw_db w' = gw_db w \<and> gw_sent w' = gw_sent w) \<or>
     (\<exists>e. r = Inl e \<and> rolled_back env key w w')"
proof (cases "m ([], w)" rule: prod_cases3)
  case (fields x p1 w1)
  with quietD [OF assms(2) this] assms(1) show ?thesis
    by (cases x) (auto simp: or_fail_def run_bnd run_attempt fail_after_submit_run rolled_back_def release_calls_def)
qed

lemma submit_vast_cases:
  assumes "submit_vast env key vq ([], w) = (r, q, w')" and "vq_request_key vq = key"
  shows "(r = Inr () \<and> q = [] \<and> gw_db w' = gw_db w \<and> gw_sent w' = gw_sent w @ [SentSubmit vq] \<and>
       (\<exists>status. ge_submit env vq = Inr (vq_request_id vq, status) \<and> is_accepted_status status)) \<or>
     (\<exists>e. r = Inl e \<and> rolled_back env key w w')"
  using assms
  by (auto simp: submit_vast_def run_bnd run_send fail_after_submit_run rolled_back_def Let_def
      split: sum.splits prod.splits if_splits)

definition submitted :: "generate_env \<Rightarrow> request_key \<Rightarrow> vg_world \<Rightarrow> vg_world \<Rightarrow> bool" where
  "submitted env key w w' \<longleftrightarrow> gw_db w' = gw_db w \<and> (\<exists>vq. vq_request_key vq = key \<and>
     vq_request_id vq = ge_request_id env \<and> gw_sent w' = gw_sent w @ [SentSubmit vq] \<and>
     (\<exists>status. ge_submit env vq = Inr (vq_request_id vq, status) \<and> is_accepted_status status))"

lemma submit_recorded_cases:
  assumes "submit_recorded env cfg r key staged ([], w) = (res, q, w')"
  shows "(res = Inr \<lparr>gp_operation_id = operation_id key, gp_provider = ''Ltx2'', gp_request_key = key\<rparr> \<and> q = [] \<and>
       submitted env key w w') \<or> (\<exists>e. res = Inl e \<and> rolled_back env key w w')"
  using assms unfolding submit_recorded_def
proof (cases rule: bnd_cases)
  case fail
  with or_fail_cases [OF fail(1)] show ?thesis by (auto intro: quiet_intros)
next
  case (go wf p1 w1)
  with or_fail_cases [OF go(1)] have w1: "p1 = []" "gw_db w1 = gw_db w" "gw_sent w1 = gw_sent w"
    by (auto intro: quiet_intros)
  from go(2) [unfolded w1] show ?thesis
  proof (cases rule: bnd_cases)
    case fail
    with or_fail_cases [OF fail(1)] w1 show ?thesis by (auto intro: quiet_intros simp: rolled_back_def)
  next
    case (go dest p2 w2)
    with or_fail_cases [OF go(1)] w1 have w2: "p2 = []" "gw_db w2 = gw_db w" "gw_sent w2 = gw_sent w"
      by (auto intro: quiet_intros)
    from go(2) [unfolded w2] show ?thesis
    proof (cases rule: bnd_cases)
      case fail
      with submit_vast_cases [OF fail(1)] w2 show ?thesis by (auto simp: rolled_back_def)
    next
      case (go u p3 w3)
      with submit_vast_cases [OF go(1)] w2 show ?thesis by (auto simp: submitted_def)
    qed
  qed
qed

definition request_of :: "generate_env \<Rightarrow> generate_request \<Rightarrow> new_request" where
  "request_of env r = \<lparr>nr_principal = gb_user_id r, nr_request_id = ge_request_id env, nr_model_id = gb_model_id r,
     nr_prompt = gb_prompt r\<rparr>"

definition key_of :: "generate_request \<Rightarrow> pgdb \<Rightarrow> request_key" where
  "key_of r d = \<lparr>rk_principal = gb_user_id r, rk_counter = word_of_int (request_seq d)\<rparr>"

lemma late_stage_cases:
  assumes "late_stage env r key url skey ([], w) = (res, q, w')"
  shows "((\<exists>y. res = Inr y) \<and> q = [] \<and> gw_db w' = gw_db w \<and> gw_sent w' = gw_sent w) \<or>
     (\<exists>e. res = Inl e \<and> rolled_back env key w w')"
proof -
  have "quiet (bnd (stage_image env (gb_image r) (gb_user_id r)) (\<lambda>x. ret (split_staged x)))"
    by (intro quiet_intros)
  with assms show ?thesis by (cases url) (auto simp: late_stage_def dest!: or_fail_cases)
qed

lemma after_record_cases:
  assumes "bnd (late_stage env r key url skey) (submit_recorded env cfg r key) ([], w) = (res, q, w')"
  shows "(res = Inr \<lparr>gp_operation_id = operation_id key, gp_provider = ''Ltx2'', gp_request_key = key\<rparr> \<and> q = [] \<and>
       submitted env key w w') \<or> (\<exists>e. res = Inl e \<and> rolled_back env key w w')"
  using assms
proof (cases rule: bnd_cases)
  case fail
  with late_stage_cases [OF fail(1)] show ?thesis by auto
next
  case (go staged p1 w1)
  with late_stage_cases [OF go(1)] submit_recorded_cases [of env cfg r key staged w1] show ?thesis
    by (auto simp: submitted_def rolled_back_def)
qed

lemma generate_inner_cases:
  assumes "generate_inner env cfg req ([], w) = (res, q, w')"
  shows "((\<exists>e. res = Inl e) \<and> gw_db w' = gw_db w \<and> gw_sent w' = gw_sent w) \<or>
     (\<exists>r. check_request env req = Inr r \<and> (let key = key_of r (gw_db w);
          w1 = w\<lparr>gw_db := recorded (request_of env r) (gw_db w)\<rparr> in
        (res = Inr \<lparr>gp_operation_id = operation_id key, gp_provider = ''Ltx2'', gp_request_key = key\<rparr> \<and> q = [] \<and>
          submitted env key w1 w') \<or> ((\<exists>e. res = Inl e) \<and> rolled_back env key w1 w')))"
  using assms unfolding generate_inner_def
proof (cases rule: bnd_cases)
  case fail
  then show ?thesis by (auto simp: run_try)
next
  case (go r p1 w1)
  then have r: "check_request env req = Inr r" "p1 = []" "w1 = w" by (auto simp: run_try)
  from go(2) [unfolded r(2,3)] show ?thesis
  proof (cases rule: bnd_cases)
    case fail
    then show ?thesis by (auto simp: run_try)
  next
    case (go fp p2 w2)
    then have "p2 = []" "w2 = w" by (auto simp: run_try)
    note w2 = this
    from go(2) [unfolded w2] show ?thesis
    proof (cases rule: bnd_cases)
      case fail
      with quietD [OF quiet_pre_stage] show ?thesis by blast
    next
      case (go us p3 w3)
      obtain url skey where us: "us = (url, skey)" by (cases us)
      from quietD [OF quiet_pre_stage go(1)]
      have w3: "p3 = []" "gw_db w3 = gw_db w" "gw_sent w3 = gw_sent w" by auto
      from go(2) [unfolded us prod.case w3(1)] show ?thesis
      proof (cases rule: bnd_cases)
        case fail
        with quietD [OF quiet_moderation fail(1)] w3 show ?thesis by auto
      next
        case (go u p4 w4)
        from quietD [OF quiet_moderation go(1)] w3
        have w4: "p4 = []" "gw_db w4 = gw_db w" "gw_sent w4 = gw_sent w" by auto
        let ?key = "key_of r (gw_db w)" and ?w = "w4\<lparr>gw_db := recorded (request_of env r) (gw_db w)\<rparr>"
        have "bnd (late_stage env r ?key url skey) (submit_recorded env cfg r ?key) ([], ?w) = (res, q, w')"
          using go(2) by (simp add: run_bnd [of "record_pending env r"] w4(1,2) record_pending_run request_of_def key_of_def)
        from after_record_cases [OF this] show ?thesis
          using r(1) w4(3) by (auto simp: Let_def submitted_def rolled_back_def)
      qed
    qed
  qed
qed

lemma rolled_back_releases:
  assumes "rolled_back env key w w'"
  shows "\<exists>calls. gw_sent w' = gw_sent w @ calls \<and> (\<forall>vq. SentSubmit vq \<in> set calls \<longrightarrow>
     (case ge_release env of DisabledNoEndpoint \<Rightarrow> True
      | Endpoint _ \<Rightarrow> SentRelease (vq_request_key vq) (ud_video_id (vq_upload_destination vq))
          (ud_object_key (vq_upload_destination vq)) \<in> set calls))"
proof (cases "gw_sent w' = gw_sent w")
  case True
  then show ?thesis by (intro exI [of _ "[]"]) simp
next
  case False
  with assms obtain vq where "vq_request_key vq = key"
    and "gw_sent w' = gw_sent w @ SentSubmit vq # release_calls env key (Some (vq_upload_destination vq))"
    by (auto simp: rolled_back_def)
  then show ?thesis
    by (intro exI [of _ "SentSubmit vq # release_calls env key (Some (vq_upload_destination vq))"])
       (auto simp: release_calls_def split: release_mode.splits)
qed

text \<open>C18. A submission that fails leaves nothing behind it, without database faults: if it was recorded, its row is
  closed as failed with the reason, no other row is touched, and a destination that was handed to the
  provider is released.\<close>

theorem failed_generation_rolls_back:
  assumes "generate_inner env cfg req ([], w) = (Inl e, q, w')" and "store_ok (gw_db w)"
    and "0 \<le> request_seq (gw_db w)" and "request_seq (gw_db w) < 2 ^ 63"
  shows "\<exists>closed calls. videogen_requests (gw_db w') = videogen_requests (gw_db w) @ closed \<and>
     (\<forall>r \<in> set closed. vr_status r = RFailed \<and> vr_failure_reason r \<noteq> None) \<and> gw_sent w' = gw_sent w @ calls \<and>
     (\<forall>vq. SentSubmit vq \<in> set calls \<longrightarrow> (case ge_release env of DisabledNoEndpoint \<Rightarrow> True
        | Endpoint _ \<Rightarrow> SentRelease (vq_request_key vq) (ud_video_id (vq_upload_destination vq))
            (ud_object_key (vq_upload_destination vq)) \<in> set calls))"
  using generate_inner_cases [OF assms(1)]
proof (elim disjE exE conjE)
  assume "gw_db w' = gw_db w" and "gw_sent w' = gw_sent w"
  then show ?thesis by (intro exI [of _ "[]"]) auto
next
  fix r
  assume "let key = key_of r (gw_db w); w1 = w\<lparr>gw_db := recorded (request_of env r) (gw_db w)\<rparr>
    in (Inl e = Inr \<lparr>gp_operation_id = operation_id key, gp_provider = ''Ltx2'', gp_request_key = key\<rparr> \<and> q = [] \<and>
        submitted env key w1 w') \<or> ((\<exists>e'. (Inl e :: generate_error + generate_response) = Inl e') \<and> rolled_back env key w1 w')"
  then have rb: "rolled_back env (key_of r (gw_db w)) (w\<lparr>gw_db := recorded (request_of env r) (gw_db w)\<rparr>) w'"
    by (simp add: Let_def)
  then obtain reason where db: "gw_db w' = failed_db (key_of r (gw_db w)) reason (recorded (request_of env r) (gw_db w))"
    by (auto simp: rolled_back_def)
  have "videogen_requests (gw_db w') = videogen_requests (gw_db w) @ [(pending_row (request_of env r) (gw_db w))
      \<lparr>vr_status := RFailed, vr_failure_reason := Some reason, vr_updated_at := now_us (gw_db w)\<rparr>]"
    unfolding db by (rule failed_recorded [OF assms(2-4)]) (simp add: key_of_def request_of_def)
  moreover from rb obtain calls where "gw_sent w' = gw_sent w @ calls"
    and "\<forall>vq. SentSubmit vq \<in> set calls \<longrightarrow> (case ge_release env of DisabledNoEndpoint \<Rightarrow> True
        | Endpoint _ \<Rightarrow> SentRelease (vq_request_key vq) (ud_video_id (vq_upload_destination vq))
            (ud_object_key (vq_upload_destination vq)) \<in> set calls)"
    using rolled_back_releases [OF rb] by auto
  ultimately show ?thesis by fastforce
qed

section \<open>From the submission to the callback\<close>

lemma create_draft_db: "create_draft env dq (p, w) = (r, q, w') \<Longrightarrow> gw_db w' = gw_db w"
  by (auto simp: create_draft_def run_bnd run_send split: option.splits sum.splits prod.splits)

definition completed_db :: "request_key \<Rightarrow> string \<Rightarrow> string \<Rightarrow> pgdb \<Rightarrow> pgdb" where
  "completed_db key v u d = snd (update_requests (open_request (rk_principal key) (saturate_i64 (rk_counter key)))
     (\<lambda>r. r\<lparr>vr_status := RComplete, vr_video_id := Some v, vr_bucket_url := Some u\<rparr>) d)"

lemma close_complete_run:
  "(record_terminal_best_effort (rk_principal key) (rk_counter key) (TComplete v u) :: (pgdb, 'e, unit) proc) ([], d) =
     (Inr (), [], completed_db key v u d)"
  by (simp add: run_simps record_terminal_best_effort_def mark_complete_def completed_db_def split: prod.split)

lemma ingested_requests:
  "videogen_requests (end_tx (put_master (ingest_input v src) (put_source (ingest_input v src) d))) = videogen_requests d"
  by (simp add: end_tx_def put_master_def put_source_def split: option.split)

lemma ingested_in_master: "in_master v (end_tx (put_master (ingest_input v src) d))"
proof -
  have "in_master v (end_tx d') = in_master v d'" for d' by (simp add: in_master_def end_tx_def)
  then show ?thesis by (simp add: put_master_has ingest_input_def)
qed

lemma pending_survives:
  assumes ok: "rows_ok d" and run: "store_run users (recorded req d) d2" and "nr_principal req \<notin> set users"
  shows "row_of vr_counter (request_seq d) (videogen_requests d2) = Some (pending_row req d)"
proof -
  have "rows_ok (recorded req d)" using evolves_ok [OF evolves_insert [OF ok, of req]] by (simp add: recorded_def)
  from store_run_keeps [OF run this, of 0] store_run_keeps [OF run this, of "request_seq d"]
  have d2: "rows_ok d2" "filter (\<lambda>r. vr_principal r \<notin> set users) (videogen_requests d2) =
      filter (\<lambda>r. vr_principal r \<notin> set users) (videogen_requests (recorded req d))"
    by (simp_all add: recorded_def)
  have "pending_row req d \<in> set (filter (\<lambda>r. vr_principal r \<notin> set users) (videogen_requests (recorded req d)))"
    using assms(3) by (simp add: recorded_def pending_row_def)
  then have "pending_row req d \<in> set (videogen_requests d2)" unfolding d2(2) [symmetric] by simp
  with d2(1) show ?thesis by (simp add: rows_ok_def store_ok_def row_of_Some_iff) (simp add: pending_row_def)
qed

lemma completed_row:
  assumes "row_of vr_counter c (videogen_requests d) = Some r" and "open_request (rk_principal key) c r"
    and "saturate_i64 (rk_counter key) = c"
  shows "row_of vr_counter c (videogen_requests (completed_db key v u d)) =
     Some (r\<lparr>vr_status := RComplete, vr_video_id := Some v, vr_bucket_url := Some u, vr_updated_at := now_us d\<rparr>)"
  using assms by (simp add: completed_db_def update_requests_def row_of_update)

lemma accepted_cases:
  assumes "generate_inner env cfg req ([], w) = (Inr resp, q, w1)"
  shows "\<exists>r. check_request env req = Inr r \<and> gp_request_key resp = key_of r (gw_db w) \<and>
     gw_db w1 = recorded (request_of env r) (gw_db w)"
  using generate_inner_cases [OF assms] by (auto simp: Let_def submitted_def)

text \<open>From the submission to the callback: an accepted generation is pending under the key that was answered,
  whatever other users do to the store until its callback arrives; a signed success callback with that key
  is answered with 200, closes the request with the video and its url, and puts the video into the master
  table.\<close>

lemma accepted_generation_completes:
  assumes gen: "generate_inner env cfg req ([], w) = (Inr resp, q, w1)"
    and ok: "rows_ok (gw_db w)" "0 \<le> request_seq (gw_db w)" "request_seq (gw_db w) < 2 ^ 63"
    and others: "store_run users (gw_db w1) (gw_db w2)" "rk_principal (gp_request_key resp) \<notin> set users"
    and signed: "verify_hmac cenv headers body ''/api/v2/videogen/complete'' = Inr ()" "ce_parse cenv body = Inr creq"
    and creq: "cq_request_key creq = gp_request_key resp" "wf_success creq v u" "resolve_source u = Inr src"
    and draft: "create_draft cenv \<lparr>dq_request_id = cq_request_id creq, dq_request_key = cq_request_key creq,
          dq_user_principal = cq_user_principal creq, dq_video_id = v, dq_object_key = the (cq_object_key creq),
          dq_encrypted_identity = cq_encrypted_identity creq\<rparr> ([], w2) = (Inr (), [], w3)"
  shows "\<exists>r w4. row_of vr_counter (request_seq (gw_db w)) (videogen_requests (gw_db w2)) = Some r \<and>
     vr_status r = RPending \<and> vr_principal r = rk_principal (gp_request_key resp) \<and>
     complete_video (Inr cenv) headers body ([], w2) = (Inr 200, [], w4) \<and> gw_sent w4 = gw_sent w3 \<and> in_master v (gw_db w4) \<and>
     row_of vr_counter (request_seq (gw_db w)) (videogen_requests (gw_db w4)) = Some (r\<lparr>vr_status := RComplete,
       vr_video_id := Some v, vr_bucket_url := Some u, vr_updated_at := now_us (gw_db w2)\<rparr>)"
proof -
  from accepted_cases [OF gen] obtain r where key: "gp_request_key resp = key_of r (gw_db w)"
    and w1: "gw_db w1 = recorded (request_of env r) (gw_db w)" by blast
  let ?c = "request_seq (gw_db w)" and ?row = "pending_row (request_of env r) (gw_db w)" and ?k = "gp_request_key resp"
  have row: "row_of vr_counter ?c (videogen_requests (gw_db w2)) = Some ?row"
    using pending_survives [OF ok(1) others(1) [unfolded w1]] others(2) by (simp add: key key_of_def request_of_def)
  have open': "open_request (rk_principal ?k) ?c ?row"
    by (simp add: open_request_def pending_row_def key key_of_def request_of_def)
  have sat: "saturate_i64 (rk_counter ?k) = ?c" by (simp add: key key_of_def saturate_counter [OF ok(2,3)])
  define d where "d = end_tx (put_master (ingest_input v src) (put_source (ingest_input v src) (gw_db w2)))"
  have "(on_video_ingested v u :: (pgdb, completion_error, unit) proc) ([], gw_db w3) = (Inr (), [], d)"
    using ingest_run [OF creq(3), of v "gw_db w3"] create_draft_db [OF draft] by (simp add: d_def)
  from success_run [OF signed creq(2) draft this close_complete_run] obtain w4 where
    fin: "complete_video (Inr cenv) headers body ([], w2) = (Inr 200, [], w4)" "gw_db w4 = completed_db ?k v u d" "gw_sent w4 = gw_sent w3"
    unfolding creq(1) by blast
  have rows: "videogen_requests d = videogen_requests (gw_db w2)" "now_us d = now_us (gw_db w2)"
    by (simp_all add: d_def ingested_requests) (simp add: end_tx_def put_master_def split: option.split)
  have "in_master v (gw_db w4)"
    using ingested_in_master [of v src] by (simp add: fin(2) completed_db_def update_requests_def in_master_def d_def)
  with fin row open' completed_row [OF _ open' sat, of d v u] rows show ?thesis
    by (intro exI [of _ ?row] exI [of _ w4]) (simp add: open_request_def)
qed

section \<open>What a failure leaves in the bucket, and what the caller can override\<close>

text \<open>An input image is staged before moderation and removed again when moderation refuses; every later failure
  leaves it there.\<close>

lemma rejected_submission_leaks_image:
  assumes "check_request env req = Inr r" and "gb_image r = Some (Base64Image data mime)"
    and "compute_request_fingerprint env (fingerprint_input_of r) = Inr fp"
    and "stage_image env (gb_image r) (gb_user_id r) ([], w) =
      (Inr (Some (url, Some skey)), [], w\<lparr>gw_staged := gw_staged w @ [skey]\<rparr>)"
    and "moderate env (gb_prompt r) (ImageUrl url) = Inr Safe"
    and "ge_public_base env = None" and "gb_model_id r = ''ltx2''"
  shows "\<exists>q w'. generate_inner env cfg req ([], w) = (Inl (EUploadDestination ''PUBLIC_BASE_URL not set''), q, w') \<and>
     skey \<in> set (gw_staged w')"
  using assms
  by (simp add: generate_inner_def run_simps map_left_def pre_stage_def split_staged_def run_moderation_def
      moderation_subject_of_def record_pending_run late_stage_def submit_recorded_def or_fail_def workflow_json_def
      reserve_upload_destination_def fail_after_submit_run)

lemma updates_last: "distinct (map fst xs) \<Longrightarrow> (k, x) \<in> set xs \<Longrightarrow>
    map_of (fold (\<lambda>(k, v). AList.update k v) xs base) k = Some x"
proof (induction xs arbitrary: base)
  case (Cons y ys)
  have keep: "k \<notin> fst ` set zs \<Longrightarrow> map_of (fold (\<lambda>(k, v). AList.update k v) zs b) k = map_of b k" for zs b
    by (induction zs arbitrary: b) (auto simp: update_conv')
  from Cons show ?case by (cases y) (auto simp: keep update_conv')
qed simp

text \<open>The prompt that was moderated is not the prompt in \<open>input\<close> when the caller's extra parameters name one.\<close>

lemma extra_params_replace_prompt:
  assumes "distinct (map fst (gb_extra_params r))" and "(''prompt'', x) \<in> set (gb_extra_params r)"
  shows "\<exists>kvs. vast_input r url = JObj kvs \<and> map_of kvs ''prompt'' = Some x"
  using updates_last [OF assms] by (auto simp: vast_input_def Let_def)

section \<open>The workflow graph\<close>

fun link_target :: "json \<Rightarrow> string option" where
  "link_target (JArr [JStr n, JInt i]) = Some n"
| "link_target _ = None"

fun links_back :: "string list \<Rightarrow> workflow_node list \<Rightarrow> bool" where
  "links_back seen [] = True"
| "links_back seen ((n, cls, inputs) # nodes) = (n \<notin> set seen \<and>
     list_all (\<lambda>(k, v). case link_target v of None \<Rightarrow> True | Some m \<Rightarrow> m \<in> set seen) inputs \<and>
     links_back (n # seen) nodes)"

text \<open>The workflow sent to the provider is a closed, acyclic graph for every request: each node has an
  identifier of its own, and each link names a node before it.\<close>

lemma workflow_is_acyclic: "links_back [] (ltx2_nodes prompt is_t2v img dur)"
  by (simp add: ltx2_nodes_def link_def)

section \<open>A concrete generation\<close>

definition demo_genv :: generate_env where
  "demo_genv = \<lparr>ge_principal = Inr, ge_unbase64 = Inr, ge_sha256_hex = id, ge_json_text = (\<lambda>_. ''json''),
     ge_mode = MockAllow, ge_secret = None, ge_detect = (\<lambda>_ _ _. NoReply ''timeout''), ge_status_text = show_nat,
     ge_request_id = ''req-1'', ge_image_id = ''img-1'', ge_elapsed_nanos = None,
     ge_share_url = Some ''https://share/yral-sfw'',
     ge_bucket = \<lparr>bk_name = ''yral-videos'', bk_grant = ''grant'', bk_uplink = (\<lambda>_. Exited True [])\<rparr>, ge_tempfile = None,
     ge_temp_path = id, ge_stage_timeout = None, ge_public_base = Some ''https://public'',
     ge_upload_url = (\<lambda>base user. Inr (''vid'', base)), ge_expires_at = 900, ge_encrypt = (\<lambda>_. None),
     ge_submit = (\<lambda>vq. Inr (vq_request_id vq, ''queued'')), ge_release = DisabledNoEndpoint\<rparr>"

definition demo_body :: "image_source option \<Rightarrow> generate_body" where
  "demo_body img = \<lparr>gb_user_id = ''alice'', gb_prompt = ''sun'', gb_model_id = ''ltx2'', gb_token_type = None,
     gb_negative_prompt = None, gb_image = img, gb_aspect_ratio = None, gb_duration_seconds = None,
     gb_resolution = None, gb_generate_audio = None, gb_seed = None, gb_extra_params = []\<rparr>"

definition demo_generate :: "image_source option \<Rightarrow> generate_request" where
  "demo_generate img = generate_body.extend (demo_body img) (generate_request.fields ''alice'' HServerDraft ''wire'')"

definition demo_cfg :: generate_config where
  "demo_cfg = \<lparr>gc_callback_url = ''https://public/cb'', gc_upload_url_refresh_url = None\<rparr>"

definition demo_world :: vg_world where
  "demo_world = \<lparr>gw_db = empty_db 5, gw_staged = [], gw_sent = []\<rparr>"

lemma demo_checked: "check_request demo_genv (demo_generate img) = Inr (demo_generate img)"
proof -
  have "blank_bytes (map of_char ''sun'') = False" by code_simp
  moreover have "char_count ''sun'' = 3" by code_simp
  ultimately show ?thesis
    by (simp add: check_request_def demo_genv_def demo_generate_def demo_body_def generate_body.defs generate_request.defs
        blank_def MAX_PROMPT_CHARS_def)
qed

lemma demo_genv_simps:
  "ge_mode demo_genv = MockAllow" "ge_public_base demo_genv = Some ''https://public''" "ge_unbase64 demo_genv = Inr"
  "ge_share_url demo_genv = Some ''https://share/yral-sfw''" "ge_upload_url demo_genv = (\<lambda>base user. Inr (''vid'', base))"
  "ge_submit demo_genv = (\<lambda>vq. Inr (vq_request_id vq, ''queued''))" "ge_stage_timeout demo_genv = None"
  "ge_tempfile demo_genv = None" "ge_image_id demo_genv = ''img-1''" "ge_release demo_genv = DisabledNoEndpoint"
  "ge_bucket demo_genv = \<lparr>bk_name = ''yral-videos'', bk_grant = ''grant'', bk_uplink = (\<lambda>_. Exited True [])\<rparr>"
  "ge_temp_path demo_genv = id"
  by (simp_all add: demo_genv_def)

lemma demo_generate_simps:
  "gb_user_id (demo_generate img) = ''alice''" "gb_model_id (demo_generate img) = ''ltx2''"
  "gb_image (demo_generate img) = img" "gb_prompt (demo_generate img) = ''sun''"
  by (simp_all add: demo_generate_def demo_body_def generate_body.defs generate_request.defs)

lemmas demo_simps = demo_genv_simps demo_generate_simps demo_checked

lemma demo_accepted:
  "\<exists>w1. generate_inner demo_genv demo_cfg (demo_generate None) ([], demo_world) =
     (Inr \<lparr>gp_operation_id = ''alice_1'', gp_provider = ''Ltx2'',
        gp_request_key = \<lparr>rk_principal = ''alice'', rk_counter = 1\<rparr>\<rparr>, [], w1)"
proof -
  obtain res q w1 where run: "generate_inner demo_genv demo_cfg (demo_generate None) ([], demo_world) = (res, q, w1)"
    by (metis prod_cases3)
  have "\<exists>x. res = Inr x"
    using run
    by (auto simp: generate_inner_def run_simps map_left_def pre_stage_def run_moderation_def
        moderation_subject_of_def record_pending_run late_stage_def submit_recorded_def or_fail_def workflow_json_def
        compute_request_fingerprint_def compute_image_identity_def fingerprint_input_of_def stage_image_def
        reserve_upload_destination_def submit_vast_def is_accepted_status_def moderate_def demo_simps split_staged_def)
  with generate_inner_cases [OF run] have "res = Inr \<lparr>gp_operation_id = operation_id (key_of (demo_generate None) (empty_db 5)),
      gp_provider = ''Ltx2'', gp_request_key = key_of (demo_generate None) (empty_db 5)\<rparr>" and "q = []"
    by (auto simp: Let_def demo_checked demo_world_def)
  moreover have "key_of (demo_generate None) (empty_db 5) = \<lparr>rk_principal = ''alice'', rk_counter = 1\<rparr>"
    by (simp add: key_of_def demo_simps empty_db_def)
  moreover have "operation_id \<lparr>rk_principal = ''alice'', rk_counter = 1\<rparr> = ''alice_1''" by code_simp
  ultimately show ?thesis using run by auto
qed

text \<open>An image in the body is staged, and its copy is what is moderated.\<close>

lemma demo_image_accepted:
  "\<exists>resp q w1. generate_inner demo_genv demo_cfg (demo_generate (Some (Base64Image ''data'' ''image/png''))) ([], demo_world) =
     (Inr resp, q, w1)"
proof -
  let ?r = "demo_generate (Some (Base64Image ''data'' ''image/png''))"
  obtain res q w1 where run: "generate_inner demo_genv demo_cfg ?r ([], demo_world) = (res, q, w1)"
    by (metis prod_cases3)
  have "\<exists>x. res = Inr x"
    using run
    by (auto simp: generate_inner_def run_simps map_left_def pre_stage_def run_moderation_def
        moderation_subject_of_def record_pending_run late_stage_def submit_recorded_def or_fail_def workflow_json_def
        compute_request_fingerprint_def compute_image_identity_def fingerprint_input_of_def stage_image_def uplink_cp_def
        Let_def put_staged_def reserve_upload_destination_def submit_vast_def is_accepted_status_def moderate_def demo_simps
        split_staged_def)
  with run show ?thesis by blast
qed


lemma rows_ok_empty: "rows_ok (empty_db t)"
  by (simp add: rows_ok_def store_ok_def empty_db_def)

lemma demo_leak:
  "\<exists>q w'. generate_inner (demo_genv\<lparr>ge_public_base := None\<rparr>) demo_cfg (demo_generate (Some (Base64Image ''data'' ''image/png'')))
       ([], demo_world) = (Inl (EUploadDestination ''PUBLIC_BASE_URL not set''), q, w') \<and>
     ''_input/alice/img-1.png'' \<in> set (gw_staged w')"
proof -
  let ?env = "demo_genv\<lparr>ge_public_base := None\<rparr>" and ?r = "demo_generate (Some (Base64Image ''data'' ''image/png''))"
  have key: "staged_key ?env ''alice'' ''image/png'' = ''_input/alice/img-1.png''"
    by (simp add: staged_key_def image_extension_def demo_simps)
  have "check_request ?env ?r = Inr ?r" using demo_checked by (simp add: check_request_def)
  moreover have "stage_image ?env (gb_image ?r) (gb_user_id ?r) ([], demo_world) =
      (Inr (Some (trim_end_char CHR ''/'' ''https://share/yral-sfw'' @ ''/'' @ ''_input/alice/img-1.png'', Some ''_input/alice/img-1.png'')), [],
       demo_world\<lparr>gw_staged := gw_staged demo_world @ [''_input/alice/img-1.png'']\<rparr>)"
    by (simp add: stage_image_def demo_simps key uplink_cp_def Let_def run_simps put_staged_def)
  moreover have "\<exists>fp. compute_request_fingerprint ?env (fingerprint_input_of ?r) = Inr fp"
    by (simp add: compute_request_fingerprint_def compute_image_identity_def fingerprint_input_of_def demo_simps)
  ultimately show ?thesis
    by (auto simp: demo_simps moderate_def intro!: rejected_submission_leaks_image)
qed

theorem failed_generation_rolls_back_witness:
  "\<exists>e q w' closed. generate_inner (demo_genv\<lparr>ge_public_base := None\<rparr>) demo_cfg
       (demo_generate (Some (Base64Image ''data'' ''image/png''))) ([], demo_world) = (Inl e, q, w') \<and>
     videogen_requests (gw_db w') = closed \<and> (\<forall>r \<in> set closed. vr_status r = RFailed)"
proof -
  obtain q w' where run: "generate_inner (demo_genv\<lparr>ge_public_base := None\<rparr>) demo_cfg
      (demo_generate (Some (Base64Image ''data'' ''image/png''))) ([], demo_world) =
      (Inl (EUploadDestination ''PUBLIC_BASE_URL not set''), q, w')" using demo_leak by blast
  have "store_ok (gw_db demo_world)" "request_seq (gw_db demo_world) = 1" "videogen_requests (gw_db demo_world) = []"
    by (simp_all add: demo_world_def store_ok_def empty_db_def)
  with failed_generation_rolls_back [OF run] run show ?thesis by fastforce
qed

definition demo_callback :: complete_request where
  "demo_callback = \<lparr>cq_request_key = \<lparr>rk_principal = ''alice'', rk_counter = 1\<rparr>, cq_user_principal = ''alice'',
     cq_request_id = ''req-1'', cq_status = CSuccess, cq_bucket_url = Some ''https://s/yral-sfw/alice/vid.mp4'',
     cq_video_id = Some ''vid'', cq_object_key = Some ''vid.mp4'', cq_failure_reason = None,
     cq_encrypted_identity = None, cq_staged_image_key = None\<rparr>"

definition demo_cenv :: completion_env where
  "demo_cenv = \<lparr>ce_crypto = \<lparr>cr_mac = (\<lambda>k m. k @ m), cr_unhex = Some, cr_sha256_hex = id\<rparr>, ce_token = Some ''secret'',
     ce_keys = None, ce_skew = 300, ce_now = 1000, ce_parse = (\<lambda>_. Inr demo_callback), ce_release = DisabledNoEndpoint,
     ce_principal = Inr, ce_decrypt = Inr, ce_update_metadata = (\<lambda>_ _. Inr ()),
     ce_bucket = \<lparr>bk_name = ''yral-videos'', bk_grant = ''grant'', bk_uplink = (\<lambda>_. Exited True [])\<rparr>\<rparr>"

definition demo_headers :: headers where
  "demo_headers = [''x-key-id'' \<mapsto> ''v1'', ''x-timestamp'' \<mapsto> ''900'', ''x-body-sha256'' \<mapsto> ''body'',
     ''authorization'' \<mapsto> ''HMAC-SHA256 '' @ ''secret'' @
        signature_message ''POST'' ''/api/v2/videogen/complete'' 900 ''body'']"

lemma demo_signed: "verify_hmac demo_cenv demo_headers ''body'' ''/api/v2/videogen/complete'' = Inr ()"
proof -
  have "parse_i64 ''900'' = Some 900" by code_simp
  moreover have "strip_prefix ''HMAC-SHA256 '' (''HMAC-SHA256 '' @ t) = Some t" for t by simp
  ultimately show ?thesis
    by (simp add: verify_hmac_def demo_headers_def and_then_def header_or_def demo_cenv_def hmac_registry_def
        from_service_token_def map_left_def verify_completion_signature_def registry_get_def abs_diff_def
        del: strip_prefix_Some append.simps)
qed

lemma demo_source: "resolve_source ''https://s/yral-sfw/alice/vid.mp4'' =
    Inr \<lparr>vs_storage_provider = ''storj'', vs_bucket = ''yral-sfw'', vs_object_key = ''alice/vid.mp4''\<rparr>"
  by code_simp

lemma demo_wf: "wf_success demo_callback ''vid'' ''https://s/yral-sfw/alice/vid.mp4''"
  by (simp add: wf_success_def demo_callback_def)

lemma demo_parse: "ce_parse demo_cenv body = Inr demo_callback"
  by (simp add: demo_cenv_def)

lemma demo_draft: "dq_encrypted_identity dq = cq_encrypted_identity demo_callback \<Longrightarrow>
    create_draft demo_cenv dq ([], w) = (Inr (), [], w)"
  by (simp add: create_draft_def demo_callback_def)

theorem only_signed_completions_act_witness:
  "\<exists>ts_text sig. demo_headers ''x-timestamp'' = Some ts_text \<and>
     demo_headers ''authorization'' = Some (''HMAC-SHA256 '' @ sig) \<and> parse_i64 ts_text \<noteq> None"
proof -
  obtain w' where run: "complete_video (Inr demo_cenv) demo_headers ''body'' ([], demo_world) = (Inr 200, [], w')"
    using success_run [OF demo_signed demo_parse demo_wf demo_draft ingest_run [OF demo_source] close_complete_run] by auto
  from only_signed_completions_act [OF run] show ?thesis by blast
qed

lemma accepted_generation_completes_witness:
  "\<exists>resp w1 w4. generate_inner demo_genv demo_cfg (demo_generate None) ([], demo_world) = (Inr resp, [], w1) \<and>
     complete_video (Inr demo_cenv) demo_headers ''body'' ([], w1) = (Inr 200, [], w4) \<and> in_master ''vid'' (gw_db w4)"
proof -
  obtain w1 where gen: "generate_inner demo_genv demo_cfg (demo_generate None) ([], demo_world) =
     (Inr \<lparr>gp_operation_id = ''alice_1'', gp_provider = ''Ltx2'',
        gp_request_key = \<lparr>rk_principal = ''alice'', rk_counter = 1\<rparr>\<rparr>, [], w1)" using demo_accepted by blast
  have db: "rows_ok (gw_db demo_world)" "0 \<le> request_seq (gw_db demo_world)" "request_seq (gw_db demo_world) < 2 ^ 63"
    using rows_ok_empty by (simp_all add: demo_world_def) (simp_all add: empty_db_def)
  from accepted_generation_completes [OF gen db store_nil _ demo_signed demo_parse _ demo_wf demo_source demo_draft] gen
  show ?thesis by (auto simp: demo_callback_def)
qed

end
