(* ===== verification/Drafts.thy ===== *)
theory Drafts
  imports Generate_Props
begin

text \<open>
  The list of a user's generations in progress (\<open>routes/videogen/drafts.rs\<close>): the identity is checked, the
  user's stale rows are closed and its old rows deleted as far as that works, and what is pending is listed.
  The verification of the identity, the principals of the canister library and the rendering of times are
  parameters.
\<close>

record in_progress_item =
  it_operation_id :: string
  it_status :: string
  it_created_at :: string
  it_provider :: "string option"
  it_model_id :: string
  it_prompt :: string
  it_thumbnail_url :: "string option"

definition provider_from_model_id :: "string \<Rightarrow> string option" where
  "provider_from_model_id m = map_of [(''lumalabs'', ''LumaLabs''), (''ltx2'', ''Ltx2''), (''wan2_5'', ''Wan25''),
     (''wan2_5_fast'', ''Wan25Fast''), (''talkinghead'', ''TalkingHead''), (''speech_to_video'', ''SpeechToVideo''),
     (''inttest'', ''IntTest'')] m"

definition to_response :: "string \<Rightarrow> in_progress_row list \<Rightarrow> in_progress_item list" where
  "to_response user rows = map (\<lambda>row. \<lparr>it_operation_id = user @ ''_'' @ show_int (ip_counter row),
     it_status = ''in_progress'', it_created_at = ip_created_at row,
     it_provider = provider_from_model_id (ip_model_id row), it_model_id = ip_model_id row,
     it_prompt = ip_prompt row, it_thumbnail_url = None\<rparr>) rows"

text \<open>What the handler finds around it; the three variables are those of the environment.\<close>

record drafts_env =
  df_verify :: "string \<Rightarrow> string + string"
  df_principal :: "string \<Rightarrow> string + string"
  df_stale_var :: "string option"
  df_timeout_var :: "string option"
  df_retention_var :: "string option"
  df_rfc3339 :: "int \<Rightarrow> string"

definition drafts_caller :: "drafts_env \<Rightarrow> string \<Rightarrow> string \<Rightarrow> (nat \<times> string) + string" where
  "drafts_caller env wire user_id = (case df_verify env wire of
       Inl _ \<Rightarrow> Inl (401, ''Invalid delegated identity'')
     | Inr identity \<Rightarrow> (case df_principal env user_id of
         Inl e \<Rightarrow> Inl (400, ''Invalid user_id: '' @ e)
       | Inr claimed \<Rightarrow>
           if identity \<noteq> claimed then Inl (401, ''user_id does not match delegated identity'')
           else if identity = anonymous_principal then Inl (401, ''anonymous identity cannot list drafts'')
           else Inr claimed))"

definition get_in_progress_drafts :: "drafts_env \<Rightarrow> string \<Rightarrow> string \<Rightarrow> (pgdb, nat \<times> string, in_progress_item list) proc" where
  "get_in_progress_drafts env wire user_id = (case drafts_caller env wire user_id of
       Inl e \<Rightarrow> raise e
     | Inr user \<Rightarrow>
         bnd (map_err (\<lambda>_. (503, ''Request store unavailable'')) (exec id)) (\<lambda>_.
         bnd (attempt (expire_stale_for_principal user (stale_after_secs (df_stale_var env) (df_timeout_var env)))) (\<lambda>_.
         bnd (attempt (purge_for_principal user (retention_days (df_retention_var env)))) (\<lambda>_.
         bnd (map_err (\<lambda>_. (503, ''Request store unavailable'')) (list_pending (df_rfc3339 env) user)) (\<lambda>rows.
         ret (to_response user rows))))))"

section \<open>What is listed\<close>

definition listed_item :: "drafts_env \<Rightarrow> string \<Rightarrow> videogen_request \<Rightarrow> in_progress_item" where
  "listed_item env user r = \<lparr>it_operation_id = user @ ''_'' @ show_int (vr_counter r), it_status = ''in_progress'',
     it_created_at = df_rfc3339 env (vr_created_at r), it_provider = provider_from_model_id (vr_model_id r),
     it_model_id = vr_model_id r, it_prompt = vr_prompt r, it_thumbnail_url = None\<rparr>"

lemma response_items: "to_response user (map (to_in_progress (df_rfc3339 env)) rs) = map (listed_item env user) rs"
  by (simp add: to_response_def to_in_progress_def listed_item_def)

text \<open>The rows that count as in progress: pending, not stale, within the retention.\<close>

definition in_progress :: "string \<Rightarrow> int \<Rightarrow> int \<Rightarrow> videogen_request \<Rightarrow> bool" where
  "in_progress user stale_before old_before r \<longleftrightarrow> vr_principal r = user \<and> vr_status r = RPending \<and>
     stale_before \<le> vr_created_at r \<and> old_before \<le> vr_created_at r"

lemma swept_pending:
  "filter (\<lambda>r. vr_principal r = user \<and> vr_status r = RPending) (delete_where
     (\<lambda>r. vr_principal r = user \<and> vr_created_at r < old) (update_where
       (\<lambda>r. vr_principal r = user \<and> vr_status r = RPending \<and> vr_created_at r < stale)
       (\<lambda>r. r\<lparr>vr_status := RFailed, vr_failure_reason := Some e, vr_updated_at := t\<rparr>) rows)) =
   filter (in_progress user stale old) rows"
  by (induction rows) (auto simp: delete_where_def update_where_def in_progress_def)

text \<open>The list of a caller whose identity verifies, is not anonymous and is the user it asks for: without
  faults it is exactly the caller's requests that are pending, not stale and within the retention, newest
  first, at most fifty.\<close>

lemma drafts_list_exact:
  assumes "drafts_caller env wire user_id = Inr user"
    and "seconds_ago (stale_after_secs (df_stale_var env) (df_timeout_var env)) d = Inr stale"
    and "days_ago (retention_days (df_retention_var env)) d = Inr old"
  shows "\<exists>d'. get_in_progress_drafts env wire user_id ([], d) = (Inr (map (listed_item env user)
     (take 50 (sort_key (\<lambda>r. - vr_created_at r) (filter (in_progress user stale old) (videogen_requests d))))), [], d')"
proof -
  let ?d1 = "d\<lparr>videogen_requests := update_where
      (\<lambda>r. vr_principal r = user \<and> vr_status r = RPending \<and> vr_created_at r < stale)
      (\<lambda>r. r\<lparr>vr_status := RFailed, vr_failure_reason :=
         Some (stale_reason (stale_after_secs (df_stale_var env) (df_timeout_var env))), vr_updated_at := now_us d\<rparr>)
      (videogen_requests d)\<rparr>"
  have now: "days_ago (retention_days (df_retention_var env)) ?d1 = Inr old"
    using assms(3) by (simp add: days_ago_def before_now_def split: if_splits)
  have 1: "\<exists>n. expire_stale_for_principal user (stale_after_secs (df_stale_var env) (df_timeout_var env)) ([], d) =
      (Inr n, [], ?d1)"
    using assms(2) by (simp add: expire_stale_for_principal_def run_stmt update_requests_def)
  have 2: "\<exists>n. purge_for_principal user (retention_days (df_retention_var env)) ([], ?d1) =
      (Inr n, [], ?d1\<lparr>videogen_requests := delete_where (\<lambda>r. vr_principal r = user \<and> vr_created_at r < old)
        (videogen_requests ?d1)\<rparr>)"
    using now by (simp add: purge_for_principal_def run_stmt Let_def)
  from 1 2 show ?thesis
    using assms(1)
    by (auto simp: get_in_progress_drafts_def run_simps list_pending_def pending_rows_def swept_pending response_items
        IN_PROGRESS_LIMIT_def)
qed

definition demo_drafts :: drafts_env where
  "demo_drafts = \<lparr>df_verify = (\<lambda>_. Inr ''alice''), df_principal = Inr, df_stale_var = None, df_timeout_var = None,
     df_retention_var = None, df_rfc3339 = show_int\<rparr>"

lemma drafts_list_exact_witness:
  "\<exists>i d'. get_in_progress_drafts demo_drafts ''wire'' ''alice'' ([], demo_submitted) = (Inr [i], [], d') \<and>
     it_operation_id i = ''alice_1''"
proof -
  have "stale_after_secs None None = 2400" by code_simp
  then have 1: "seconds_ago (stale_after_secs (df_stale_var demo_drafts) (df_timeout_var demo_drafts)) demo_submitted =
      Inr (5 - 2400000000)"
    by (simp add: demo_drafts_def seconds_ago_def before_now_def first_timestamp_def) (simp add: demo_submitted_def empty_db_def)
  have 2: "days_ago (retention_days (df_retention_var demo_drafts)) demo_submitted = Inr (5 - 2592000000000)"
    by (simp add: demo_drafts_def retention_days_def read_positive_env_def DEFAULT_RETENTION_DAYS_def days_ago_def
        before_now_def first_timestamp_def) (simp add: demo_submitted_def empty_db_def)
  have "drafts_caller demo_drafts ''wire'' ''alice'' = Inr ''alice''"
    by (simp add: drafts_caller_def demo_drafts_def anonymous_principal_def)
  from drafts_list_exact [OF this 1 2] have "\<exists>d'. get_in_progress_drafts demo_drafts ''wire'' ''alice'' ([], demo_submitted) =
      (Inr [listed_item demo_drafts ''alice'' (pending_row demo_request (empty_db 5))], [], d')"
    by (simp add: demo_submitted_def in_progress_def pending_row_def demo_request_def empty_db_def)
  moreover have "show_int 1 = ''1''" by code_simp
  ultimately show ?thesis by (auto simp: listed_item_def pending_row_def empty_db_def)
qed

end
