(* ===== verification/Backfill_Plan.thy ===== *)
theory Backfill_Plan
  imports Prelude
begin

text \<open>
  The library half of the thumbnail backfill tool (\<open>crates/backfill-thumbnails/src/lib.rs\<close>): its options, the
  manifest of what earlier runs finished, and the plan of a run. The tokenising of the command line
  (\<open>clap\<close>) and the two date parsers of \<open>chrono\<close> are parameters. An instant is a number of nanoseconds since
  the epoch.
\<close>

section \<open>Options\<close>

datatype backend_kind = KStorj | KHetzner

datatype scope = ScopeStorj | ScopeHetzner

fun scope_str :: "scope \<Rightarrow> string" where
  "scope_str ScopeStorj = ''storj''"
| "scope_str ScopeHetzner = ''hetzner''"

fun scope_backend :: "scope \<Rightarrow> backend_kind" where
  "scope_backend ScopeStorj = KStorj"
| "scope_backend ScopeHetzner = KHetzner"

definition scope_from_str :: "string \<Rightarrow> string + scope" where
  "scope_from_str s = (if s = ''storj'' then Inr ScopeStorj
     else if s = ''hetzner'' then Inr ScopeHetzner
     else Inl (''unsupported scope: '' @ s))"

datatype command_kind = SeedTestData | RunBackfill | VerifyThumbs | AuditBackfill

fun command_str :: "command_kind \<Rightarrow> string" where
  "command_str SeedTestData = ''seed-test-data''"
| "command_str RunBackfill = ''run''"
| "command_str VerifyThumbs = ''verify''"
| "command_str AuditBackfill = ''audit''"

record cli_options =
  co_command :: command_kind
  co_scope :: scope
  co_manifest_dir :: string
  co_prefix :: "string option"
  co_bucket_override :: "string option"
  co_cutoff_before :: "int option"
  co_execute :: bool
  co_download_concurrency :: nat
  co_ffmpeg_concurrency :: nat
  co_upload_concurrency :: nat
  co_verify_sample :: "nat option"
  co_thumbnail_seek :: "string option"
  co_seed_count :: nat

record raw_common =
  ra_scope :: scope
  ra_manifest_dir :: string
  ra_prefix :: "string option"
  ra_bucket_override :: "string option"

record raw_concurrency =
  rn_download :: nat
  rn_ffmpeg :: nat
  rn_upload :: nat

datatype raw_command =
    RawSeedTestData raw_common nat
  | RawRun raw_common string bool raw_concurrency "string option"
  | RawVerify raw_common string raw_concurrency "nat option"
  | RawAudit raw_common string

datatype cli_error = MissingRequiredArgument string | ValueValidation string | ClapError string

text \<open>The two parsers of \<open>chrono\<close>: RFC 3339 to an instant, and \<open>%Y-%m-%d\<close> to the number of its day.\<close>

record date_parsers =
  dp_rfc3339 :: "string \<Rightarrow> int option"
  dp_ymd :: "string \<Rightarrow> string + int"

text \<open>A date without a time stands for 23:59:59 of that day.\<close>

definition parse_cutoff :: "date_parsers \<Rightarrow> string \<Rightarrow> string + int" where
  "parse_cutoff dp s = (case dp_rfc3339 dp s of
       Some t \<Rightarrow> Inr t
     | None \<Rightarrow> (case dp_ymd dp s of
           Inl e \<Rightarrow> Inl (''invalid cutoff value: '' @ e)
         | Inr day \<Rightarrow> Inr ((day * 86400 + 86399) * 1000000000)))"

definition parse_cutoff_arg :: "date_parsers \<Rightarrow> string \<Rightarrow> cli_error + int" where
  "parse_cutoff_arg dp s = (case parse_cutoff dp s of Inl m \<Rightarrow> Inl (ValueValidation m) | Inr t \<Rightarrow> Inr t)"

definition validate_scope_bucket :: "scope \<Rightarrow> string option \<Rightarrow> cli_error + unit" where
  "validate_scope_bucket s b = (if s = ScopeStorj \<and> b = None
     then Inl (MissingRequiredArgument ''--bucket is required for storj scope'') else Inr ())"

definition options_of :: "raw_common \<Rightarrow> command_kind \<Rightarrow> int option \<Rightarrow> cli_options" where
  "options_of c k cutoff = \<lparr>co_command = k, co_scope = ra_scope c, co_manifest_dir = ra_manifest_dir c,
     co_prefix = ra_prefix c, co_bucket_override = ra_bucket_override c, co_cutoff_before = cutoff,
     co_execute = False, co_download_concurrency = 8, co_ffmpeg_concurrency = 1, co_upload_concurrency = 8,
     co_verify_sample = None, co_thumbnail_seek = None, co_seed_count = 3\<rparr>"

definition with_concurrency :: "raw_concurrency \<Rightarrow> cli_options \<Rightarrow> cli_options" where
  "with_concurrency n o1 = o1\<lparr>co_download_concurrency := rn_download n,
     co_ffmpeg_concurrency := rn_ffmpeg n, co_upload_concurrency := rn_upload n\<rparr>"

definition checked :: "date_parsers \<Rightarrow> raw_common \<Rightarrow> string \<Rightarrow> (int \<Rightarrow> cli_options) \<Rightarrow> cli_error + cli_options" where
  "checked dp c cutoff f = (case validate_scope_bucket (ra_scope c) (ra_bucket_override c) of
       Inl e \<Rightarrow> Inl e
     | Inr _ \<Rightarrow> (case parse_cutoff_arg dp cutoff of Inl e \<Rightarrow> Inl e | Inr t \<Rightarrow> Inr (f t)))"

fun into_cli_options :: "date_parsers \<Rightarrow> raw_command \<Rightarrow> cli_error + cli_options" where
  "into_cli_options dp (RawSeedTestData c n) =
     (case validate_scope_bucket (ra_scope c) (ra_bucket_override c) of
        Inl e \<Rightarrow> Inl e
      | Inr _ \<Rightarrow> Inr ((options_of c SeedTestData None)\<lparr>co_seed_count := n\<rparr>))"
| "into_cli_options dp (RawRun c cutoff ex n seek) = checked dp c cutoff (\<lambda>t.
     (with_concurrency n (options_of c RunBackfill (Some t)))\<lparr>co_execute := ex, co_thumbnail_seek := seek\<rparr>)"
| "into_cli_options dp (RawVerify c cutoff n sample) = checked dp c cutoff (\<lambda>t.
     (with_concurrency n (options_of c VerifyThumbs (Some t)))\<lparr>co_verify_sample := sample\<rparr>)"
| "into_cli_options dp (RawAudit c cutoff) = checked dp c cutoff (\<lambda>t. options_of c AuditBackfill (Some t))"

definition parse_cli_args :: "(string list \<Rightarrow> cli_error + raw_command) \<Rightarrow> date_parsers \<Rightarrow> string list \<Rightarrow>
    cli_error + cli_options" where
  "parse_cli_args clap dp args = (case clap args of Inl e \<Rightarrow> Inl e | Inr c \<Rightarrow> into_cli_options dp c)"

section \<open>The manifest\<close>

datatype manifest_status = Completed | Failed | StSkipRemoteExists | StSkipManifestDone

record manifest_entry =
  me_backend :: backend_kind
  me_bucket :: string
  me_source_video_key :: string
  me_staged_thumbnail_key :: string
  me_status :: manifest_status

type_synonym manifest_index = "(backend_kind \<times> string \<times> string) set"

definition from_entries :: "manifest_entry list \<Rightarrow> manifest_index" where
  "from_entries es = set (map (\<lambda>e. (me_backend e, me_bucket e, me_staged_thumbnail_key e))
     (filter (\<lambda>e. me_status e = Completed) es))"

definition should_skip_completed :: "manifest_index \<Rightarrow> backend_kind \<Rightarrow> string \<Rightarrow> string \<Rightarrow> bool" where
  "should_skip_completed m kind bucket k \<longleftrightarrow> (kind, bucket, k) \<in> m"

section \<open>The plan\<close>

record object_info =
  oi_key :: string
  oi_last_modified :: int

datatype planned_action =
    Process (pa_video: string) (pa_staged: string)
  | SkipRemoteExists (pa_video: string) (pa_staged: string)
  | SkipManifestDone (pa_video: string) (pa_staged: string)

definition is_video_key :: "string \<Rightarrow> bool" where
  "is_video_key k \<longleftrightarrow> ends_with k ''.mp4''"

definition staged_thumbnail_key :: "string \<Rightarrow> string option" where
  "staged_thumbnail_key k = map_option (\<lambda>video_id. video_id @ ''-thumbnail.png'') (strip_suffix ''.mp4'' k)"

definition is_before_cutoff :: "int \<Rightarrow> int \<Rightarrow> bool" where
  "is_before_cutoff last_modified cutoff \<longleftrightarrow> last_modified \<le> cutoff"

definition has_prefix :: "string option \<Rightarrow> string \<Rightarrow> bool" where
  "has_prefix prefix k = (case prefix of None \<Rightarrow> True | Some p \<Rightarrow> starts_with k p)"

definition plan_one :: "backend_kind \<Rightarrow> string set \<Rightarrow> manifest_index \<Rightarrow> string \<Rightarrow> int \<Rightarrow> string option \<Rightarrow>
    object_info \<Rightarrow> planned_action option" where
  "plan_one kind remote m bucket cutoff prefix v =
     (if \<not> is_video_key (oi_key v) then None
      else if \<not> is_before_cutoff (oi_last_modified v) cutoff then None
      else if \<not> has_prefix prefix (oi_key v) then None
      else case staged_thumbnail_key (oi_key v) of
        None \<Rightarrow> None
      | Some staged \<Rightarrow>
          if staged \<in> remote then Some (SkipRemoteExists (oi_key v) staged)
          else if should_skip_completed m kind bucket staged then Some (SkipManifestDone (oi_key v) staged)
          else Some (Process (oi_key v) staged))"

fun build_run_plan :: "backend_kind \<Rightarrow> object_info list \<Rightarrow> string set \<Rightarrow> manifest_index \<Rightarrow> string \<Rightarrow> int \<Rightarrow>
    string option \<Rightarrow> planned_action list" where
  "build_run_plan kind [] remote m bucket cutoff prefix = []"
| "build_run_plan kind (v # vs) remote m bucket cutoff prefix =
     (case plan_one kind remote m bucket cutoff prefix v of
        None \<Rightarrow> build_run_plan kind vs remote m bucket cutoff prefix
      | Some a \<Rightarrow> a # build_run_plan kind vs remote m bucket cutoff prefix)"

section \<open>Lemmas\<close>

text \<open>The staged key names its video.\<close>

lemma staged_key_video [simp]: "staged_thumbnail_key (v @ ''.mp4'') = Some (v @ ''-thumbnail.png'')"
proof -
  have "strip_suffix ''.mp4'' (v @ ''.mp4'') = Some v" unfolding strip_suffix_Some ..
  then show ?thesis by (simp add: staged_thumbnail_key_def)
qed

lemma staged_key_Some:
  "staged_thumbnail_key k = Some s \<longleftrightarrow> (\<exists>v. k = v @ ''.mp4'' \<and> s = v @ ''-thumbnail.png'')"
  by (auto simp: staged_thumbnail_key_def)

lemma staged_key_inj: "staged_thumbnail_key a = Some s \<Longrightarrow> staged_thumbnail_key b = Some s \<Longrightarrow> a = b"
  by (auto simp: staged_key_Some)

lemma video_key_iff: "is_video_key k \<longleftrightarrow> (\<exists>v. k = v @ ''.mp4'')"
  unfolding is_video_key_def strip_suffix_Some [symmetric] by (simp add: strip_suffix_def)

lemma video_has_staged: "is_video_key k \<Longrightarrow> \<exists>s. staged_thumbnail_key k = Some s"
  by (auto simp: video_key_iff)

lemma staged_not_video: "\<not> is_video_key (v @ ''-thumbnail.png'')"
  by (auto simp: video_key_iff append_eq_append_conv2 append_eq_Cons_conv Cons_eq_append_conv)

text \<open>What a run has to look at.\<close>

definition candidate :: "int \<Rightarrow> string option \<Rightarrow> object_info \<Rightarrow> bool" where
  "candidate cutoff prefix v \<longleftrightarrow> is_video_key (oi_key v) \<and> is_before_cutoff (oi_last_modified v) cutoff \<and>
     has_prefix prefix (oi_key v)"

lemma plan_one_Some:
  "plan_one kind remote m bucket cutoff prefix v = Some a \<longleftrightarrow>
     candidate cutoff prefix v \<and> (\<exists>s. staged_thumbnail_key (oi_key v) = Some s \<and>
       a = (if s \<in> remote then SkipRemoteExists (oi_key v) s
            else if should_skip_completed m kind bucket s then SkipManifestDone (oi_key v) s
            else Process (oi_key v) s))"
  by (auto simp: plan_one_def candidate_def split: option.splits dest: video_has_staged)

lemma plan_one_None:
  "plan_one kind remote m bucket cutoff prefix v = None \<longleftrightarrow> \<not> candidate cutoff prefix v"
  using video_has_staged [of "oi_key v"]
  by (auto simp: plan_one_def candidate_def)

lemma plan_is_filter:
  "map pa_video (build_run_plan kind vs remote m bucket cutoff prefix) =
     map oi_key (filter (candidate cutoff prefix) vs)"
  by (induction vs) (auto simp: plan_one_None plan_one_Some split: option.split)

lemma in_plan:
  "a \<in> set (build_run_plan kind vs remote m bucket cutoff prefix) \<longleftrightarrow>
     (\<exists>v \<in> set vs. plan_one kind remote m bucket cutoff prefix v = Some a)"
  by (induction vs) (auto split: option.split)

lemma process_planned:
  "Process v s \<in> set (build_run_plan kind vs remote m bucket cutoff prefix) \<longleftrightarrow>
     staged_thumbnail_key v = Some s \<and> s \<notin> remote \<and> \<not> should_skip_completed m kind bucket s \<and>
     (\<exists>o1 \<in> set vs. oi_key o1 = v \<and> candidate cutoff prefix o1)"
  unfolding in_plan plan_one_Some by (auto split: if_splits)

end
