(* ===== verification/Backfill_Store.thy ===== *)
theory Backfill_Store
  imports Backfill_Plan PHash_Job
begin

text \<open>
  The two object stores of the backfill tool (\<open>crates/backfill-thumbnails/src/backend.rs\<close>), the thumbnail
  extractor (\<open>src/thumbnail.rs\<close>), and the world a run works on: the objects of the bucket and the files of
  the working directory. A call to the store, or a write, is a statement that the fault plan can make fail.
  What \<open>uplink ls\<close> prints, the S3 client's listing, \<open>serde_json\<close>, the timestamp parsers and \<open>ffmpeg\<close>
  are parameters.
\<close>

section \<open>The world\<close>

record stored_object =
  so_key :: string
  so_modified :: "int option"
  so_data :: string

record bf_world =
  bw_objects :: "stored_object list"
  bw_files :: "string \<rightharpoonup> string"

type_synonym ('e, 'a) bf = "(bf_world, 'e, 'a) proc"

definition object_at :: "bf_world \<Rightarrow> string \<Rightarrow> stored_object option" where
  "object_at w k = find (\<lambda>o1. so_key o1 = k) (bw_objects w)"

definition put_object :: "int \<Rightarrow> string \<Rightarrow> string \<Rightarrow> bf_world \<Rightarrow> bf_world" where
  "put_object now k data w = w\<lparr>bw_objects := filter (\<lambda>o1. so_key o1 \<noteq> k) (bw_objects w) @
     [\<lparr>so_key = k, so_modified = Some now, so_data = data\<rparr>]\<rparr>"

section \<open>Listing\<close>

record uplink_record =
  ur_kind :: string
  ur_created :: string
  ur_key :: string

record uplink_parsers =
  up_json :: "string \<Rightarrow> uplink_record option"
  up_plain :: "string \<Rightarrow> int option"
  up_rfc3339 :: "string \<Rightarrow> int option"

definition parse_uplink_timestamp :: "uplink_parsers \<Rightarrow> string \<Rightarrow> int option" where
  "parse_uplink_timestamp up created = (case up_plain up created of
       Some t \<Rightarrow> Some t
     | None \<Rightarrow> (case up_plain up (case strip_suffix '' UTC'' created of None \<Rightarrow> created | Some s \<Rightarrow> s) of
           Some t \<Rightarrow> Some t
         | None \<Rightarrow> up_rfc3339 up created))"

definition parse_uplink_ls_json_line :: "uplink_parsers \<Rightarrow> string \<Rightarrow> string + object_info option" where
  "parse_uplink_ls_json_line up line = (case up_json up line of
       None \<Rightarrow> Inl ''invalid JSON''
     | Some r \<Rightarrow>
         if ur_kind r \<noteq> ''OBJ'' then Inr None
         else (case parse_uplink_timestamp up (ur_created r) of
             None \<Rightarrow> Inl ''unparseable timestamp''
           | Some t \<Rightarrow> Inr (Some \<lparr>oi_key = ur_key r, oi_last_modified = t\<rparr>)))"

text \<open>\<open>str::lines\<close> ends a line at a newline, with a carriage return before it; the text after the last
  newline is a line only when there is some.\<close>

definition str_lines :: "string \<Rightarrow> string list" where
  "str_lines s = (let ls = split_on CHR 0x0A s in
     map (\<lambda>l. case strip_suffix [CHR 0x0D] l of None \<Rightarrow> l | Some t \<Rightarrow> t) (butlast ls) @
     (if last ls = [] then [] else [last ls]))"

definition ls_entry :: "uplink_parsers \<Rightarrow> string \<Rightarrow> object_info option" where
  "ls_entry up line = (if trim line = [] then None
     else case parse_uplink_ls_json_line up (trim line) of Inr (Some info) \<Rightarrow> Some info | _ \<Rightarrow> None)"

definition parse_uplink_ls_json_output :: "uplink_parsers \<Rightarrow> string \<Rightarrow> object_info list" where
  "parse_uplink_ls_json_output up out = List.map_filter (ls_entry up) (str_lines out)"

definition storj_target :: "string \<Rightarrow> string option \<Rightarrow> string" where
  "storj_target bucket prefix = (case prefix of
       Some p \<Rightarrow> if p \<noteq> [] then ''sj://'' @ bucket @ ''/'' @ p else ''sj://'' @ bucket
     | None \<Rightarrow> ''sj://'' @ bucket)"

section \<open>Backends\<close>

text \<open>\<open>sb_ls args objects\<close> is what \<open>uplink\<close> prints for a bucket with these objects; the listing of the S3 client
  gives keys with their optional times.\<close>

record storj_backend =
  sb_bucket :: string
  sb_access_grant :: string
  sb_ls :: "string list \<Rightarrow> stored_object list \<Rightarrow> string"
  sb_parsers :: uplink_parsers

record hetzner_backend =
  hb_bucket :: string
  hb_list :: "string option \<Rightarrow> stored_object list \<Rightarrow> (string \<times> int option) list"

datatype backend = Storj storj_backend | Hetzner hetzner_backend

fun backend_kind_of :: "backend \<Rightarrow> backend_kind" where
  "backend_kind_of (Storj b) = KStorj"
| "backend_kind_of (Hetzner b) = KHetzner"

fun bucket_name :: "backend \<Rightarrow> string" where
  "bucket_name (Storj b) = sb_bucket b"
| "bucket_name (Hetzner b) = hb_bucket b"

definition storj_ls_args :: "storj_backend \<Rightarrow> string option \<Rightarrow> string list" where
  "storj_ls_args b prefix = [''ls'', ''-r'', ''--utc'', ''-o'', ''json'', ''--analytics=false'',
     ''--interactive=false'', ''--access'', sb_access_grant b, storj_target (sb_bucket b) prefix]"

fun listing :: "backend \<Rightarrow> string option \<Rightarrow> stored_object list \<Rightarrow> object_info list" where
  "listing (Storj b) prefix objects =
     parse_uplink_ls_json_output (sb_parsers b) (sb_ls b (storj_ls_args b prefix) objects)"
| "listing (Hetzner b) prefix objects = List.map_filter
     (\<lambda>(k, m). map_option (\<lambda>t. \<lparr>oi_key = k, oi_last_modified = t\<rparr>) m) (hb_list b prefix objects)"

definition list_objects :: "backend \<Rightarrow> string option \<Rightarrow> (pg_error, object_info list) bf" where
  "list_objects b prefix = query (\<lambda>w. listing b prefix (bw_objects w))"

definition download_object :: "string \<Rightarrow> (pg_error, string) bf" where
  "download_object k = stmt (\<lambda>w. case object_at w k of
       None \<Rightarrow> Inl (PgError (''no such object: '' @ k)) | Some o1 \<Rightarrow> Inr (so_data o1, w))"

definition upload_object :: "int \<Rightarrow> string \<Rightarrow> string \<Rightarrow> (pg_error, unit) bf" where
  "upload_object now k data = exec (put_object now k data)"

text \<open>Choosing the backend: the grant of the environment and the required bucket for Storj, the default bucket
  of the client for Hetzner.\<close>

record backend_env =
  ev_storj_grant :: "string option"
  ev_uplink_ls :: "string list \<Rightarrow> stored_object list \<Rightarrow> string"
  ev_parsers :: uplink_parsers
  ev_default_bucket :: string
  ev_s3_list :: "string option \<Rightarrow> stored_object list \<Rightarrow> (string \<times> int option) list"

definition resolve_storj_bucket :: "string option \<Rightarrow> string + string" where
  "resolve_storj_bucket b = (case b of
       None \<Rightarrow> Inl ''--bucket is required for storj scope'' | Some x \<Rightarrow> Inr x)"

definition resolve_storj_access_grant :: "backend_env \<Rightarrow> string + string" where
  "resolve_storj_access_grant env = (case ev_storj_grant env of
       None \<Rightarrow> Inl ''STORJ_ACCESS_GRANT must be set'' | Some g \<Rightarrow> Inr g)"

definition from_scope :: "backend_env \<Rightarrow> scope \<Rightarrow> string option \<Rightarrow> string + backend" where
  "from_scope env s b = (case scope_backend s of
       KStorj \<Rightarrow> (case resolve_storj_bucket b of
           Inl e \<Rightarrow> Inl e
         | Inr bucket \<Rightarrow> (case resolve_storj_access_grant env of
             Inl e \<Rightarrow> Inl e
           | Inr grant \<Rightarrow> Inr (Storj \<lparr>sb_bucket = bucket, sb_access_grant = grant,
               sb_ls = ev_uplink_ls env, sb_parsers = ev_parsers env\<rparr>)))
     | KHetzner \<Rightarrow> Inr (Hetzner \<lparr>hb_bucket = (case b of None \<Rightarrow> ev_default_bucket env | Some x \<Rightarrow> x),
           hb_list = ev_s3_list env\<rparr>))"

text \<open>What both stores document of a listing: the objects below the prefix, each with its time, in some order.\<close>

definition info_of :: "stored_object \<Rightarrow> object_info option" where
  "info_of o1 = map_option (\<lambda>t. \<lparr>oi_key = so_key o1, oi_last_modified = t\<rparr>) (so_modified o1)"

definition lists_faithfully :: "backend \<Rightarrow> bool" where
  "lists_faithfully b \<longleftrightarrow> (\<forall>prefix objects. set (listing b prefix objects) =
     set (List.map_filter info_of (filter (\<lambda>o1. has_prefix prefix (so_key o1)) objects)))"

section \<open>Thumbnails\<close>

text \<open>\<open>ffmpeg\<close> with its arguments on the given input: whether it started, its exit status, and the output file it
  left.\<close>

type_synonym ffmpeg = "string list \<Rightarrow> string \<Rightarrow> string + bool \<times> string option"

definition extract_thumbnail_from_video_path :: "ffmpeg \<Rightarrow> string \<Rightarrow> string \<Rightarrow> string \<Rightarrow> string option \<Rightarrow> string + string option" where
  "extract_thumbnail_from_video_path ff input video out seek =
     (case ff ([''-y''] @ (case seek of None \<Rightarrow> [] | Some s \<Rightarrow> [''-ss'', s]) @
         [''-i'', input, ''-vframes'', ''1'', ''-f'', ''image2'', out]) video of
        Inl e \<Rightarrow> Inl e
      | Inr (ok, file) \<Rightarrow> if \<not> ok \<or> file = None then Inl ''Thumbnail extraction failed'' else Inr file)"

definition extract_thumbnail_with_seek :: "ffmpeg \<Rightarrow> string \<Rightarrow> string \<Rightarrow> string option \<Rightarrow> string + string" where
  "extract_thumbnail_with_seek ff dir video seek =
     (case extract_thumbnail_from_video_path ff (dir @ ''/input.mp4'') video (dir @ ''/thumbnail.png'') seek of
        Inl e \<Rightarrow> Inl e
      | Inr None \<Rightarrow> Inl ''No such file or directory''
      | Inr (Some png) \<Rightarrow> Inr png)"

definition extract_thumbnail :: "ffmpeg \<Rightarrow> string \<Rightarrow> string \<Rightarrow> string + string" where
  "extract_thumbnail ff dir video = extract_thumbnail_with_seek ff dir video None"

section \<open>Files\<close>

text \<open>A write can fail after part of the bytes have reached the file: \<open>torn e\<close> says how many when it fails with \<open>e\<close>.\<close>

type_synonym torn = "pg_error \<Rightarrow> nat"

definition contents :: "bf_world \<Rightarrow> string \<Rightarrow> string" where
  "contents w path = (case bw_files w path of None \<Rightarrow> [] | Some c \<Rightarrow> c)"

definition put_file :: "string \<Rightarrow> string \<Rightarrow> bf_world \<Rightarrow> bf_world" where
  "put_file path c w = w\<lparr>bw_files := (bw_files w)(path \<mapsto> c)\<rparr>"

definition write_torn :: "torn \<Rightarrow> (nat \<Rightarrow> bf_world \<Rightarrow> bf_world) \<Rightarrow> nat \<Rightarrow> (pg_error, unit) bf" where
  "write_torn torn f n = (\<lambda>(p, w). case p of
       Some e # p' \<Rightarrow> (Inl e, p', f (min (torn e) n) w)
     | _ \<Rightarrow> (Inr (), tl p, f n w))"

text \<open>\<open>append_jsonl\<close>: the lock is held from the opening of the file to the end of the write, so lines of two tasks
  do not mix.\<close>

definition append_jsonl :: "torn \<Rightarrow> (json \<Rightarrow> string) \<Rightarrow> string \<Rightarrow> json \<Rightarrow> (pg_error, unit) bf" where
  "append_jsonl torn ser path v = (let line = ser v @ [CHR 0x0A] in
     write_torn torn (\<lambda>n w. put_file path (contents w path @ take n line) w) (length line))"

text \<open>\<open>write_json\<close> truncates the file first.\<close>

definition write_json :: "torn \<Rightarrow> (json \<Rightarrow> string) \<Rightarrow> string \<Rightarrow> json \<Rightarrow> (pg_error, unit) bf" where
  "write_json torn pretty path v =
     write_torn torn (\<lambda>n w. put_file path (take n (pretty v)) w) (length (pretty v))"

section \<open>Lemmas\<close>

lemma object_at_put [simp]:
  "object_at (put_object now k data w) x =
     (if x = k then Some \<lparr>so_key = k, so_modified = Some now, so_data = data\<rparr> else object_at w x)"
proof -
  have other: "find (\<lambda>o1. so_key o1 = x) (filter (\<lambda>o1. so_key o1 \<noteq> k) os @ [n]) =
      (if x = k then find (\<lambda>o1. so_key o1 = x) [n] else find (\<lambda>o1. so_key o1 = x) (os @ [n]))" for os n
    by (induction os) auto
  have app: "find Q (os @ [n]) = (case find Q os of None \<Rightarrow> find Q [n] | Some y \<Rightarrow> Some y)" for Q os and n :: 'z
    by (induction os) auto
  show ?thesis by (simp add: object_at_def put_object_def other) (simp add: app split: option.split)
qed

lemma object_frames [simp]:
  "bw_files (put_object now k data w) = bw_files w" "bw_objects (put_file path c w) = bw_objects w"
  "object_at (put_file path c w) x = object_at w x"
  by (simp_all add: put_object_def put_file_def object_at_def)

lemma set_put_object:
  "o1 \<in> set (bw_objects (put_object now k data w)) \<longleftrightarrow>
     so_key o1 \<noteq> k \<and> o1 \<in> set (bw_objects w) \<or> o1 = \<lparr>so_key = k, so_modified = Some now, so_data = data\<rparr>"
  by (auto simp: put_object_def)

lemma contents_put [simp]: "contents (put_file path c w) x = (if x = path then c else contents w x)"
  by (simp add: contents_def put_file_def)

lemma contents_put_object [simp]: "contents (put_object now k data w) x = contents w x"
  by (simp add: contents_def)

lemma object_at_Some: "object_at w k = Some o1 \<Longrightarrow> o1 \<in> set (bw_objects w) \<and> so_key o1 = k"
  by (auto simp: object_at_def find_Some_iff)

lemma object_at_None: "object_at w k = None \<longleftrightarrow> (\<forall>o1 \<in> set (bw_objects w). so_key o1 \<noteq> k)"
  by (auto simp: object_at_def find_None_iff)

lemma run_write_torn [run_simps]: "write_torn torn f n ([], w) = (Inr (), [], f n w)"
  by (simp add: write_torn_def)

end
