(* ===== verification/Backfill_Run.thy ===== *)
theory Backfill_Run
  imports Backfill_Store
begin

text \<open>
  The commands of the backfill tool (\<open>crates/backfill-thumbnails/src/main.rs\<close>). The tasks of a run are small
  state machines with one stage per await; a schedule says which task moves next, so every interleaving that
  the semaphores admit is one of the schedules, and a process that is killed is a schedule that stops early.
  The tasks of a verification only read the store; they run in the order in which they complete.
\<close>

section \<open>Environment and reports\<close>

record bf_env =
  be_backend :: backend
  be_now :: int
  be_ffmpeg :: ffmpeg
  be_tmp :: string
  be_torn :: torn
  be_ser :: "json \<Rightarrow> string"
  be_pretty :: "json \<Rightarrow> string"
  be_entry :: "string \<Rightarrow> string + manifest_entry"
  be_rfc3339 :: "int \<Rightarrow> string"
  be_decode_png :: "string \<Rightarrow> string + (nat \<times> nat) \<times> string"
  be_schedule :: "nat list"
  be_verify_order :: "(string \<times> string) list \<Rightarrow> (string \<times> string) list"
  be_seed_video :: "string + string"
  be_seed_time :: "nat \<Rightarrow> int"

record command_summary =
  cs_run_id :: string
  cs_command :: string
  cs_scope :: string
  cs_bucket :: string
  cs_cutoff :: string
  cs_execute :: bool
  cs_total_objects :: nat
  cs_candidate_videos :: nat
  cs_existing_staged_objects :: nat
  cs_planned_process :: nat
  cs_skip_remote_exists :: nat
  cs_skip_manifest_done :: nat
  cs_completed :: nat
  cs_failed :: nat
  cs_dry_run :: nat
  cs_verified_pass :: nat
  cs_verified_fail :: nat
  cs_verified_skip :: nat
  cs_seeded :: nat

definition new_summary :: "bf_env \<Rightarrow> cli_options \<Rightarrow> string \<Rightarrow> command_summary" where
  "new_summary env cli run_id = \<lparr>cs_run_id = run_id, cs_command = command_str (co_command cli),
     cs_scope = scope_str (co_scope cli), cs_bucket = bucket_name (be_backend env), cs_cutoff = [],
     cs_execute = False, cs_total_objects = 0, cs_candidate_videos = 0, cs_existing_staged_objects = 0,
     cs_planned_process = 0, cs_skip_remote_exists = 0, cs_skip_manifest_done = 0, cs_completed = 0, cs_failed = 0,
     cs_dry_run = 0, cs_verified_pass = 0, cs_verified_fail = 0, cs_verified_skip = 0, cs_seeded = 0\<rparr>"

definition json_nat :: "nat \<Rightarrow> json" where
  "json_nat n = JInt (int n)"

definition summary_json :: "command_summary \<Rightarrow> json" where
  "summary_json s = JObj ([(''run_id'', JStr (cs_run_id s)), (''command'', JStr (cs_command s)),
     (''scope'', JStr (cs_scope s)), (''bucket'', JStr (cs_bucket s))] @
     (if cs_cutoff s = [] then [] else [(''cutoff'', JStr (cs_cutoff s))]) @
     [(''execute'', JBool (cs_execute s)), (''total_objects'', json_nat (cs_total_objects s)),
      (''candidate_videos'', json_nat (cs_candidate_videos s)),
      (''existing_staged_objects'', json_nat (cs_existing_staged_objects s)),
      (''planned_process'', json_nat (cs_planned_process s)),
      (''skip_remote_exists'', json_nat (cs_skip_remote_exists s)),
      (''skip_manifest_done'', json_nat (cs_skip_manifest_done s)),
      (''completed'', json_nat (cs_completed s)), (''failed'', json_nat (cs_failed s)),
      (''dry_run'', json_nat (cs_dry_run s)), (''verified_pass'', json_nat (cs_verified_pass s)),
      (''verified_fail'', json_nat (cs_verified_fail s)), (''verified_skip'', json_nat (cs_verified_skip s)),
      (''seeded'', json_nat (cs_seeded s))])"

fun kind_json :: "backend_kind \<Rightarrow> json" where
  "kind_json KStorj = JStr ''Storj''"
| "kind_json KHetzner = JStr ''Hetzner''"

fun status_json :: "manifest_status \<Rightarrow> json" where
  "status_json Completed = JStr ''Completed''"
| "status_json Failed = JStr ''Failed''"
| "status_json StSkipRemoteExists = JStr ''SkipRemoteExists''"
| "status_json StSkipManifestDone = JStr ''SkipManifestDone''"

definition entry_json :: "manifest_entry \<Rightarrow> json" where
  "entry_json e = JObj [(''backend'', kind_json (me_backend e)), (''bucket'', JStr (me_bucket e)),
     (''source_video_key'', JStr (me_source_video_key e)),
     (''staged_thumbnail_key'', JStr (me_staged_thumbnail_key e)), (''status'', status_json (me_status e))]"

definition failure_json :: "string \<Rightarrow> string \<Rightarrow> string \<Rightarrow> json" where
  "failure_json video staged e = JObj [(''video_key'', JStr video), (''staged_thumbnail_key'', JStr staged),
     (''error'', JStr e)]"

definition verify_json :: "string \<Rightarrow> string \<Rightarrow> string \<Rightarrow> string \<Rightarrow> json" where
  "verify_json video staged status detail = JObj [(''video_key'', JStr video),
     (''staged_thumbnail_key'', JStr staged), (''status'', JStr status), (''detail'', JStr detail)]"

section \<open>The manifest file\<close>

text \<open>An undecodable line is forgiven only when it is the last one and no newline ends it.\<close>

fun parse_lines :: "(string \<Rightarrow> string + manifest_entry) \<Rightarrow> bool \<Rightarrow> nat \<Rightarrow> string list \<Rightarrow> string + manifest_entry list" where
  "parse_lines de ended i [] = Inr []"
| "parse_lines de ended i (line # rest) =
     (if line = [] then parse_lines de ended (i + 1) rest
      else case de line of
        Inr e \<Rightarrow> (case parse_lines de ended (i + 1) rest of Inl x \<Rightarrow> Inl x | Inr es \<Rightarrow> Inr (e # es))
      | Inl err \<Rightarrow>
          if rest = [] \<and> \<not> ended then parse_lines de ended (i + 1) rest
          else Inl (''invalid manifest line '' @ show_nat (i + 1) @ '': '' @ err))"

definition parse_manifest_entries :: "(string \<Rightarrow> string + manifest_entry) \<Rightarrow> string \<Rightarrow> string + manifest_entry list" where
  "parse_manifest_entries de bytes =
     parse_lines de (bytes \<noteq> [] \<and> last bytes = CHR 0x0A) 0 (split_on CHR 0x0A bytes)"

definition fails_with :: "string \<Rightarrow> (pg_error, 'a) bf \<Rightarrow> (string, 'a) bf" where
  "fails_with context m = map_err (\<lambda>e. context @ error_text e) m"

definition load_manifest_entries :: "bf_env \<Rightarrow> string \<Rightarrow> (string, manifest_entry list) bf" where
  "load_manifest_entries env path =
     bnd (attempt (query (\<lambda>w. bw_files w path \<noteq> None))) (\<lambda>exists.
     if exists \<noteq> (Inr True :: pg_error + bool) then ret []
     else bnd (fails_with (''read manifest '' @ path @ '': '') (query (\<lambda>w. contents w path))) (\<lambda>content.
     case parse_manifest_entries (be_entry env) content of
       Inl e \<Rightarrow> raise (''parse manifest '' @ path @ '': '' @ e)
     | Inr es \<Rightarrow> ret es))"

section \<open>Paths\<close>

definition sanitize_path_component :: "string \<Rightarrow> string" where
  "sanitize_path_component s = map (\<lambda>c.
     if c \<in> set ''abcdefghijklmnopqrstuvwxyzABCDEFGHIJKLMNOPQRSTUVWXYZ0123456789.-_'' then c else CHR ''_'') s"

definition path_join :: "string \<Rightarrow> string \<Rightarrow> string" where
  "path_join a b = (if starts_with b ''/'' \<or> a = [] then b
     else if ends_with a ''/'' then a @ b else a @ ''/'' @ b)"

definition state_dir_for_scope_and_bucket :: "string \<Rightarrow> scope \<Rightarrow> string \<Rightarrow> string" where
  "state_dir_for_scope_and_bucket dir s bucket =
     path_join (path_join dir (scope_str s)) (sanitize_path_component bucket)"

section \<open>The run command\<close>

definition is_staged_key :: "string \<Rightarrow> bool" where
  "is_staged_key k \<longleftrightarrow> ends_with k ''-thumbnail.png'' \<and> \<not> ends_with k ''-bak-thumbnail.png''"

definition remote_staged :: "object_info list \<Rightarrow> string set" where
  "remote_staged objects = set (filter is_staged_key (map oi_key objects))"

definition videos_in :: "object_info list \<Rightarrow> object_info list" where
  "videos_in objects = filter (\<lambda>o1. is_video_key (oi_key o1)) objects"

datatype task_stage =
    TDownload
  | TExtract string
  | TUpload string
  | TRecord
  | TFail string
  | TReport string
  | TDone bool
  | TBroken string

record task =
  tk_video :: string
  tk_staged :: string
  tk_stage :: task_stage

definition settled :: "task \<Rightarrow> bool" where
  "settled t \<longleftrightarrow> (case tk_stage t of TDone _ \<Rightarrow> True | TBroken _ \<Rightarrow> True | _ \<Rightarrow> False)"

definition manifest_line :: "bf_env \<Rightarrow> task \<Rightarrow> manifest_status \<Rightarrow> manifest_entry" where
  "manifest_line env t status = \<lparr>me_backend = backend_kind_of (be_backend env),
     me_bucket = bucket_name (be_backend env), me_source_video_key = tk_video t,
     me_staged_thumbnail_key = tk_staged t, me_status = status\<rparr>"

definition append_line :: "bf_env \<Rightarrow> string \<Rightarrow> json \<Rightarrow> task_stage \<Rightarrow> (string, task_stage) bf" where
  "append_line env path v next = bnd (attempt (append_jsonl (be_torn env) (be_ser env) path v)) (\<lambda>r.
     ret (case r of Inl e \<Rightarrow> TBroken (error_text e) | Inr _ \<Rightarrow> next))"

definition next_stage :: "bf_env \<Rightarrow> string \<Rightarrow> string \<Rightarrow> string option \<Rightarrow> task \<Rightarrow> (string, task_stage) bf" where
  "next_stage env manifest failures seek t = (case tk_stage t of
       TDownload \<Rightarrow> bnd (attempt (download_object (tk_video t))) (\<lambda>r.
         ret (case r of Inl e \<Rightarrow> TFail (error_text e) | Inr data \<Rightarrow> TExtract data))
     | TExtract data \<Rightarrow> ret (case extract_thumbnail_with_seek (be_ffmpeg env) (be_tmp env) data seek of
           Inl e \<Rightarrow> TFail (''extract first-frame thumbnail: '' @ e) | Inr png \<Rightarrow> TUpload png)
     | TUpload png \<Rightarrow> bnd (attempt (upload_object (be_now env) (tk_staged t) png)) (\<lambda>r.
         ret (case r of Inl e \<Rightarrow> TFail (''upload staged thumbnail: '' @ error_text e) | Inr _ \<Rightarrow> TRecord))
     | TRecord \<Rightarrow> append_line env manifest (entry_json (manifest_line env t Completed)) (TDone True)
     | TFail e \<Rightarrow> append_line env manifest (entry_json (manifest_line env t Failed)) (TReport e)
     | TReport e \<Rightarrow> append_line env failures (failure_json (tk_video t) (tk_staged t) e) (TDone False)
     | s \<Rightarrow> ret s)"

type_synonym run_state = "task list \<times> (string + bool) list"

definition note_joined :: "task_stage \<Rightarrow> (string + bool) list \<Rightarrow> (string + bool) list" where
  "note_joined s joined = (case s of
       TDone ok \<Rightarrow> joined @ [Inr ok] | TBroken e \<Rightarrow> joined @ [Inl e] | _ \<Rightarrow> joined)"

definition move_task :: "bf_env \<Rightarrow> string \<Rightarrow> string \<Rightarrow> string option \<Rightarrow> nat \<Rightarrow> run_state \<Rightarrow> (string, run_state) bf" where
  "move_task env manifest failures seek i st = (case st of (ts, joined) \<Rightarrow>
     if length ts \<le> i \<or> settled (ts ! i) then ret st
     else bnd (next_stage env manifest failures seek (ts ! i)) (\<lambda>s.
       ret (ts[i := (ts ! i)\<lparr>tk_stage := s\<rparr>], note_joined s joined)))"

definition tasks_of :: "planned_action list \<Rightarrow> task list" where
  "tasks_of plan = List.map_filter (\<lambda>a. case a of
     Process v s \<Rightarrow> Some \<lparr>tk_video = v, tk_staged = s, tk_stage = TDownload\<rparr> | _ \<Rightarrow> None) plan"

text \<open>The join loop: the first broken task ends it, a task that reported itself is counted.\<close>

fun join_all :: "(string + bool) list \<Rightarrow> command_summary \<Rightarrow> string + command_summary" where
  "join_all [] s = Inr s"
| "join_all (Inl e # rest) s = Inl e"
| "join_all (Inr ok # rest) s = join_all rest
     (if ok then s\<lparr>cs_completed := cs_completed s + 1\<rparr> else s\<lparr>cs_failed := cs_failed s + 1\<rparr>)"

definition count_actions :: "planned_action list \<Rightarrow> command_summary \<Rightarrow> command_summary" where
  "count_actions plan s = fold (\<lambda>a s. case a of
       Process _ _ \<Rightarrow> s\<lparr>cs_planned_process := cs_planned_process s + 1\<rparr>
     | SkipRemoteExists _ _ \<Rightarrow> s\<lparr>cs_skip_remote_exists := cs_skip_remote_exists s + 1\<rparr>
     | SkipManifestDone _ _ \<Rightarrow> s\<lparr>cs_skip_manifest_done := cs_skip_manifest_done s + 1\<rparr>) plan s"

definition need_cutoff :: "cli_options \<Rightarrow> (string, int) bf" where
  "need_cutoff cli = (case co_cutoff_before cli of
       None \<Rightarrow> raise (command_str (co_command cli) @ '' command requires cutoff_before'') | Some t \<Rightarrow> ret t)"

definition save_summary :: "bf_env \<Rightarrow> string \<Rightarrow> command_summary \<Rightarrow> (string, command_summary option) bf" where
  "save_summary env path s = bnd (fails_with (''write json file '' @ path @ '': '')
     (write_json (be_torn env) (be_pretty env) path (summary_json s))) (\<lambda>_. ret (Some s))"

text \<open>The first part of a run: listing, manifest, plan. The result \<open>None\<close> of the command is a process that ended
  before its tasks were joined.\<close>

definition plan_run :: "bf_env \<Rightarrow> cli_options \<Rightarrow> string \<Rightarrow> string \<Rightarrow>
    (string, planned_action list \<times> command_summary) bf" where
  "plan_run env cli run_id manifest =
     bnd (fails_with [] (list_objects (be_backend env) (co_prefix cli))) (\<lambda>objects.
     bnd (need_cutoff cli) (\<lambda>cutoff.
     bnd (load_manifest_entries env manifest) (\<lambda>entries.
     let plan = build_run_plan (backend_kind_of (be_backend env)) (videos_in objects) (remote_staged objects)
           (from_entries entries) (bucket_name (be_backend env)) cutoff (co_prefix cli);
         s = (new_summary env cli run_id)\<lparr>cs_cutoff := be_rfc3339 env cutoff, cs_execute := co_execute cli,
           cs_total_objects := length objects, cs_candidate_videos := length (videos_in objects),
           cs_existing_staged_objects := card (remote_staged objects)\<rparr>
     in ret (plan, count_actions plan s))))"

definition execute_run :: "bf_env \<Rightarrow> cli_options \<Rightarrow> string \<Rightarrow> string \<Rightarrow> string \<Rightarrow> string \<Rightarrow>
    (string, command_summary option) bf" where
  "execute_run env cli run_id manifest summary_path failures =
     bnd (plan_run env cli run_id manifest) (\<lambda>(plan, s).
     if \<not> co_execute cli then save_summary env summary_path (s\<lparr>cs_dry_run := cs_planned_process s\<rparr>)
     else bnd (for_each (move_task env manifest failures (co_thumbnail_seek cli)) (be_schedule env)
            (tasks_of plan, [])) (\<lambda>(ts, joined).
       case join_all joined s of
         Inl e \<Rightarrow> raise e
       | Inr s' \<Rightarrow> if list_all settled ts then save_summary env summary_path s' else ret None))"

section \<open>The other commands\<close>

definition compare_png_pixels :: "bf_env \<Rightarrow> string \<Rightarrow> string \<Rightarrow> string + bool" where
  "compare_png_pixels env expected actual = (case be_decode_png env expected of
       Inl e \<Rightarrow> Inl (''decode expected png: '' @ e)
     | Inr (de, pe) \<Rightarrow> (case be_decode_png env actual of
         Inl e \<Rightarrow> Inl (''decode staged png: '' @ e)
       | Inr (da, pa) \<Rightarrow> Inr (de = da \<and> pe = pa)))"

definition verify_one :: "bf_env \<Rightarrow> string \<Rightarrow> string \<Rightarrow> (string, bool) bf" where
  "verify_one env video staged =
     bnd (fails_with [] (download_object video)) (\<lambda>data.
     bnd (fails_with [] (download_object staged)) (\<lambda>png.
     case extract_thumbnail (be_ffmpeg env) (be_tmp env) data of
       Inl e \<Rightarrow> raise (''extract expected first-frame thumbnail: '' @ e)
     | Inr expected \<Rightarrow> (case compare_png_pixels env expected png of Inl e \<Rightarrow> raise e | Inr b \<Rightarrow> ret b)))"

definition verify_task :: "bf_env \<Rightarrow> string \<Rightarrow> string \<times> string \<Rightarrow> command_summary \<Rightarrow> (string, command_summary) bf" where
  "verify_task env path c s = (case c of (video, staged) \<Rightarrow>
     bnd (attempt (verify_one env video staged)) (\<lambda>r.
     let (status, detail) = (case r of
           Inr True \<Rightarrow> (''PASS'', ''staged thumbnail matches decoded first-frame pixels'')
         | Inr False \<Rightarrow> (''FAIL'', ''staged thumbnail differs from decoded first-frame pixels'')
         | Inl e \<Rightarrow> (''SKIP'', e))
     in bnd (fails_with [] (append_jsonl (be_torn env) (be_ser env) path (verify_json video staged status detail))) (\<lambda>_.
        ret (if status = ''PASS'' then s\<lparr>cs_verified_pass := cs_verified_pass s + 1\<rparr>
             else if status = ''FAIL'' then s\<lparr>cs_verified_fail := cs_verified_fail s + 1\<rparr>
             else s\<lparr>cs_verified_skip := cs_verified_skip s + 1\<rparr>))))"

definition verify_candidates :: "cli_options \<Rightarrow> int \<Rightarrow> object_info list \<Rightarrow> (string \<times> string) list" where
  "verify_candidates cli cutoff objects =
     (let cs = List.map_filter (\<lambda>o1. case staged_thumbnail_key (oi_key o1) of
              None \<Rightarrow> None
            | Some staged \<Rightarrow> if staged \<in> remote_staged objects then Some (oi_key o1, staged) else None)
          (filter (\<lambda>o1. is_video_key (oi_key o1) \<and> oi_last_modified o1 \<le> cutoff \<and>
             has_prefix (co_prefix cli) (oi_key o1)) objects)
      in case co_verify_sample cli of None \<Rightarrow> cs | Some n \<Rightarrow> take n cs)"

definition execute_verify :: "bf_env \<Rightarrow> cli_options \<Rightarrow> string \<Rightarrow> string \<Rightarrow> string \<Rightarrow> (string, command_summary option) bf" where
  "execute_verify env cli run_id summary_path verify_path =
     bnd (fails_with [] (list_objects (be_backend env) (co_prefix cli))) (\<lambda>objects.
     bnd (need_cutoff cli) (\<lambda>cutoff.
     let cs = verify_candidates cli cutoff objects;
         s = (new_summary env cli run_id)\<lparr>cs_cutoff := be_rfc3339 env cutoff, cs_total_objects := length objects,
           cs_candidate_videos := length cs, cs_existing_staged_objects := card (remote_staged objects)\<rparr>
     in bnd (for_each (verify_task env verify_path) (completed (be_verify_order env) cs) s) (\<lambda>s'.
        save_summary env summary_path s')))"

record audit_report =
  ar_scope :: string
  ar_bucket :: string
  ar_total_objects :: nat
  ar_total_candidates_before_cutoff :: nat
  ar_total_existing_staged :: nat
  ar_manifest_completed :: nat
  ar_manifest_failed :: nat
  ar_remaining_work :: nat

definition report_json :: "audit_report \<Rightarrow> json" where
  "report_json r = JObj [(''scope'', JStr (ar_scope r)), (''bucket'', JStr (ar_bucket r)),
     (''total_objects'', json_nat (ar_total_objects r)),
     (''total_candidates_before_cutoff'', json_nat (ar_total_candidates_before_cutoff r)),
     (''total_existing_staged'', json_nat (ar_total_existing_staged r)),
     (''manifest_completed'', json_nat (ar_manifest_completed r)),
     (''manifest_failed'', json_nat (ar_manifest_failed r)), (''remaining_work'', json_nat (ar_remaining_work r))]"

definition entries_with :: "bf_env \<Rightarrow> manifest_status \<Rightarrow> manifest_entry list \<Rightarrow> nat" where
  "entries_with env status es = length (filter (\<lambda>e. me_backend e = backend_kind_of (be_backend env) \<and>
     me_bucket e = bucket_name (be_backend env) \<and> me_status e = status) es)"

definition remaining_staged :: "int \<Rightarrow> string option \<Rightarrow> object_info list \<Rightarrow> string list" where
  "remaining_staged cutoff prefix objects = filter (\<lambda>k. k \<notin> remote_staged objects)
     (List.map_filter (\<lambda>o1. staged_thumbnail_key (oi_key o1))
       (filter (\<lambda>o1. oi_last_modified o1 \<le> cutoff \<and> has_prefix prefix (oi_key o1)) (videos_in objects)))"

definition audit_of :: "bf_env \<Rightarrow> cli_options \<Rightarrow> int \<Rightarrow> object_info list \<Rightarrow> manifest_entry list \<Rightarrow> audit_report" where
  "audit_of env cli cutoff objects entries = \<lparr>ar_scope = scope_str (co_scope cli),
     ar_bucket = bucket_name (be_backend env), ar_total_objects = length objects,
     ar_total_candidates_before_cutoff = length (filter (\<lambda>o1. oi_last_modified o1 \<le> cutoff \<and>
        has_prefix (co_prefix cli) (oi_key o1)) (videos_in objects)),
     ar_total_existing_staged = card (remote_staged objects),
     ar_manifest_completed = entries_with env Completed entries,
     ar_manifest_failed = entries_with env Failed entries,
     ar_remaining_work = length (remaining_staged cutoff (co_prefix cli) objects)\<rparr>"

definition execute_audit :: "bf_env \<Rightarrow> cli_options \<Rightarrow> string \<Rightarrow> string \<Rightarrow> string \<Rightarrow> (string, command_summary option) bf" where
  "execute_audit env cli run_id summary_path audit_path =
     bnd (fails_with [] (list_objects (be_backend env) (co_prefix cli))) (\<lambda>objects.
     bnd (need_cutoff cli) (\<lambda>cutoff.
     bnd (load_manifest_entries env (path_join (state_dir_for_scope_and_bucket (co_manifest_dir cli) (co_scope cli)
        (bucket_name (be_backend env))) ''manifest.jsonl'')) (\<lambda>entries.
     let r = audit_of env cli cutoff objects entries
     in bnd (fails_with (''write json file '' @ audit_path @ '': '')
          (write_json (be_torn env) (be_pretty env) audit_path (report_json r))) (\<lambda>_.
        save_summary env summary_path ((new_summary env cli run_id)\<lparr>cs_cutoff := be_rfc3339 env cutoff,
          cs_total_objects := ar_total_objects r, cs_candidate_videos := ar_total_candidates_before_cutoff r,
          cs_existing_staged_objects := ar_total_existing_staged r, cs_planned_process := ar_remaining_work r,
          cs_completed := ar_manifest_completed r, cs_failed := ar_manifest_failed r\<rparr>)))))"

definition seed_one :: "bf_env \<Rightarrow> string \<Rightarrow> string \<Rightarrow> nat \<Rightarrow> nat \<Rightarrow> (string, nat) bf" where
  "seed_one env video old_thumbnail i n =
     (let stem = ''test-user/seed-video-'' @ show_int (be_seed_time env i) @ ''-'' @ show_nat i
      in bnd (fails_with [] (upload_object (be_now env) (stem @ ''.mp4'') video)) (\<lambda>_.
         bnd (fails_with [] (upload_object (be_now env) (stem @ ''_thumbnail.png'') old_thumbnail)) (\<lambda>_.
         ret (n + 1))))"

definition execute_seed_test_data :: "bf_env \<Rightarrow> cli_options \<Rightarrow> string \<Rightarrow> string \<Rightarrow> (string, command_summary option) bf" where
  "execute_seed_test_data env cli run_id summary_path = (case be_seed_video env of
       Inl e \<Rightarrow> raise e
     | Inr video \<Rightarrow> (case extract_thumbnail_with_seek (be_ffmpeg env) (be_tmp env) video (Some ''00:00:01'') of
         Inl e \<Rightarrow> raise (''generate old-style thumbnail from second frame: '' @ e)
       | Inr old_thumbnail \<Rightarrow>
           bnd (for_each (seed_one env video old_thumbnail) [1..<Suc (co_seed_count cli)] 0) (\<lambda>seeded.
           save_summary env summary_path ((new_summary env cli run_id)\<lparr>cs_execute := True, cs_seeded := seeded\<rparr>))))"

section \<open>The program\<close>

definition labelled :: "string \<Rightarrow> nat \<Rightarrow> string" where
  "labelled label n = label @ '': '' @ show_nat n"

definition summary_lines :: "command_summary \<Rightarrow> string list" where
  "summary_lines s =
     (if cs_command s = ''seed-test-data'' then [labelled ''Seeded'' (cs_seeded s)]
      else if cs_command s = ''run'' then
        [''Cutoff: '' @ cs_cutoff s, ''Mode: '' @ (if cs_execute s then ''execute'' else ''dry-run''),
         labelled ''Total objects'' (cs_total_objects s), labelled ''Candidate videos'' (cs_candidate_videos s),
         labelled ''Existing staged -thumbnail.png'' (cs_existing_staged_objects s),
         labelled ''Planned process'' (cs_planned_process s),
         labelled ''Skip remote exists'' (cs_skip_remote_exists s),
         labelled ''Skip manifest done'' (cs_skip_manifest_done s)] @
        (if cs_execute s then [labelled ''Completed'' (cs_completed s), labelled ''Failed'' (cs_failed s)]
         else [labelled ''Dry-run candidates'' (cs_dry_run s)])
      else if cs_command s = ''verify'' then
        [''Cutoff: '' @ cs_cutoff s, labelled ''Total objects'' (cs_total_objects s),
         labelled ''Candidates checked'' (cs_candidate_videos s), labelled ''PASS'' (cs_verified_pass s),
         labelled ''FAIL'' (cs_verified_fail s), labelled ''SKIP'' (cs_verified_skip s),
         ''Note: verify only checks videos that already have a staged thumbnail. Run audit to confirm remaining count.'']
      else if cs_command s = ''audit'' then
        [''Cutoff: '' @ cs_cutoff s, labelled ''Total objects'' (cs_total_objects s),
         labelled ''Candidate videos before cutoff'' (cs_candidate_videos s),
         labelled ''Existing staged -thumbnail.png'' (cs_existing_staged_objects s),
         labelled ''Manifest completed'' (cs_completed s), labelled ''Manifest failed'' (cs_failed s),
         labelled ''Remaining videos to backfill'' (cs_planned_process s)]
      else [])"

fun join_lines :: "string list \<Rightarrow> string" where
  "join_lines [] = []"
| "join_lines [l] = l"
| "join_lines (l # ls) = l @ [CHR 0x0A] @ join_lines ls"

definition render_terminal_summary :: "command_summary \<Rightarrow> string" where
  "render_terminal_summary s = join_lines ([''Command: '' @ cs_command s, ''Scope: '' @ cs_scope s,
     ''Bucket: '' @ cs_bucket s, ''Run ID: '' @ cs_run_id s] @ summary_lines s)"

definition run_command :: "bf_env \<Rightarrow> cli_options \<Rightarrow> string \<Rightarrow> string \<Rightarrow> string \<Rightarrow> (string, command_summary option) bf" where
  "run_command env cli run_id state_dir run_dir = (case co_command cli of
       SeedTestData \<Rightarrow> execute_seed_test_data env cli run_id (path_join run_dir ''summary.json'')
     | RunBackfill \<Rightarrow> execute_run env cli run_id (path_join state_dir ''manifest.jsonl'')
         (path_join run_dir ''summary.json'') (path_join run_dir ''failures.jsonl'')
     | VerifyThumbs \<Rightarrow> execute_verify env cli run_id (path_join run_dir ''summary.json'')
         (path_join run_dir ''verify.jsonl'')
     | AuditBackfill \<Rightarrow> execute_audit env cli run_id (path_join run_dir ''summary.json'')
         (path_join run_dir ''audit.json''))"

text \<open>What the process prints and how it exits; the first statement is the creation of the run directory.\<close>

definition backfill_main :: "bf_env \<Rightarrow> cli_options \<Rightarrow> string \<Rightarrow> (string, (string \<times> (string + unit)) option) bf" where
  "backfill_main env cli run_id =
     (let state_dir = state_dir_for_scope_and_bucket (co_manifest_dir cli) (co_scope cli) (bucket_name (be_backend env));
          run_dir = path_join (path_join state_dir ''runs'') (run_id @ ''-'' @ command_str (co_command cli))
      in bnd (fails_with (''create run dir '' @ run_dir @ '': '') (exec id)) (\<lambda>_.
         bnd (run_command env cli run_id state_dir run_dir) (\<lambda>r. case r of
           None \<Rightarrow> ret None
         | Some s \<Rightarrow> ret (Some (render_terminal_summary s,
             if co_command cli = RunBackfill \<and> co_execute cli \<and> cs_failed s > 0
             then Inl (show_nat (cs_failed s) @ '' backfill items failed'')
             else if co_command cli = VerifyThumbs \<and> cs_verified_fail s > 0
             then Inl (show_nat (cs_verified_fail s) @ '' verification checks failed'')
             else Inr ())))))"

end
