(* ===== verification/Backfill_Manifest.thy ===== *)
theory Backfill_Manifest
  imports Backfill_Run
begin

text \<open>
  The manifest of the backfill tool as a file: what reading gives back of what was appended, and what a line that was
  torn by a crash does to it.
\<close>

section \<open>Splitting at newlines\<close>

lemma split_on_nonempty [simp]: "split_on c s \<noteq> []"
  by (induction s) (auto split: list.split)

lemma split_on_whole: "c \<notin> set s \<Longrightarrow> split_on c s = [s]"
  by (induction s) auto

lemma split_on_first: "c \<notin> set a \<Longrightarrow> split_on c (a @ c # b) = a # split_on c b"
  by (induction a) auto

section \<open>Reading back\<close>

abbreviation nl :: char where
  "nl \<equiv> CHR 0x0A"

text \<open>What \<open>serde_json\<close> promises of the compact form: no raw newline (control characters are escaped), and reading
  it back.\<close>

definition codec_ok :: "bf_env \<Rightarrow> bool" where
  "codec_ok env \<longleftrightarrow> (\<forall>e. nl \<notin> set (be_ser env (entry_json e)) \<and> be_ser env (entry_json e) \<noteq> [] \<and>
     be_entry env (be_ser env (entry_json e)) = Inr e)"

definition line_of :: "bf_env \<Rightarrow> manifest_entry \<Rightarrow> string" where
  "line_of env e = be_ser env (entry_json e) @ [nl]"

definition manifest_text :: "bf_env \<Rightarrow> manifest_entry list \<Rightarrow> string" where
  "manifest_text env es = concat (map (line_of env) es)"

lemma manifest_text_append [simp]: "manifest_text env (es @ fs) = manifest_text env es @ manifest_text env fs"
  by (simp add: manifest_text_def)

lemma manifest_text_Nil [simp]: "manifest_text env [] = []"
  by (simp add: manifest_text_def)

lemma manifest_text_Cons [simp]: "manifest_text env (e # es) = line_of env e @ manifest_text env es"
  by (simp add: manifest_text_def)

lemma codecD:
  assumes "codec_ok env"
  shows "nl \<notin> set (be_ser env (entry_json e))" "be_ser env (entry_json e) \<noteq> []"
    "be_entry env (be_ser env (entry_json e)) = Inr e"
  using assms by (auto simp: codec_ok_def)

lemma split_manifest:
  "codec_ok env \<Longrightarrow> split_on nl (manifest_text env es @ t) =
     map (\<lambda>e. be_ser env (entry_json e)) es @ split_on nl t"
  by (induction es) (simp_all add: line_of_def split_on_first codecD)

lemma parse_lines_prefix:
  "codec_ok env \<Longrightarrow> ls \<noteq> [] \<Longrightarrow> parse_lines (be_entry env) ended i (map (\<lambda>e. be_ser env (entry_json e)) es @ ls) =
     (case parse_lines (be_entry env) ended (i + length es) ls of Inl x \<Rightarrow> Inl x | Inr fs \<Rightarrow> Inr (es @ fs))"
  by (induction es arbitrary: i) (auto simp: codecD split: sum.splits)

text \<open>A manifest whose last line was torn is read up to that line.\<close>

definition undecodable :: "bf_env \<Rightarrow> string \<Rightarrow> bool" where
  "undecodable env s \<longleftrightarrow> (case be_entry env s of Inl _ \<Rightarrow> True | Inr _ \<Rightarrow> False)"

lemma last_of_torn: "t \<noteq> [] \<Longrightarrow> nl \<notin> set t \<Longrightarrow> last (s @ t) \<noteq> nl"
  by (metis last_appendR last_in_set)

lemma parse_torn:
  assumes "codec_ok env" and t: "nl \<notin> set t" "t \<noteq> [] \<Longrightarrow> undecodable env t"
  shows "parse_manifest_entries (be_entry env) (manifest_text env es @ t) = Inr es"
proof (cases "t = []")
  case True
  then show ?thesis using assms(1)
    by (simp add: parse_manifest_entries_def split_manifest [OF assms(1), where t = "[]", simplified]
        parse_lines_prefix)
next
  case False
  with t have u: "undecodable env t" and l: "last (manifest_text env es @ t) \<noteq> nl"
    using last_of_torn by blast+
  show ?thesis using assms(1) False u l t(1)
    by (auto simp: parse_manifest_entries_def split_manifest split_on_whole parse_lines_prefix undecodable_def
        split: sum.splits)
qed

lemma parse_manifest_text:
  "codec_ok env \<Longrightarrow> parse_manifest_entries (be_entry env) (manifest_text env es) = Inr es"
  using parse_torn [of env "[]" es] by simp

text \<open>An entry appended after a torn line merges with it, and the file is unreadable from then on.\<close>

lemma parse_merged:
  assumes c: "codec_ok env" and t: "nl \<notin> set t" "undecodable env (t @ be_ser env (entry_json e))"
  obtains x where "parse_manifest_entries (be_entry env) (manifest_text env es @ t @ line_of env e @ rest) =
      Inl (''invalid manifest line '' @ show_nat (length es + 1) @ x)"
proof -
  let ?l = "t @ be_ser env (entry_json e)"
  from t(2) obtain err where err: "be_entry env ?l = Inl err"
    by (auto simp: undecodable_def split: sum.splits)
  have "split_on nl (?l @ nl # rest) = ?l # split_on nl rest"
    using t(1) codecD(1) [OF c] by (intro split_on_first) auto
  then have "split_on nl (manifest_text env es @ t @ line_of env e @ rest) =
      map (\<lambda>e. be_ser env (entry_json e)) es @ ?l # split_on nl rest"
    using split_manifest [OF c, of es "?l @ nl # rest"] by (simp add: line_of_def)
  then show thesis
    using that [of "'': '' @ err"] c codecD(2) [OF c] err
    by (simp add: parse_manifest_entries_def parse_lines_prefix)
qed

lemma run_load:
  "load_manifest_entries env path ([], w) =
     (if bw_files w path = None then (Inr [], [], w)
      else case parse_manifest_entries (be_entry env) (contents w path) of
        Inl e \<Rightarrow> (Inl (''parse manifest '' @ path @ '': '' @ e), [], w) | Inr es \<Rightarrow> (Inr es, [], w))"
  by (simp add: load_manifest_entries_def fails_with_def run_simps split: sum.split)

lemma run_load_text:
  assumes "codec_ok env" and "contents w path = manifest_text env es"
  shows "load_manifest_entries env path ([], w) = (Inr es, [], w)"
proof (cases "bw_files w path")
  case None
  with assms(2) have "manifest_text env es = []" by (simp add: contents_def)
  then have "es = []" by (cases es) (auto simp: line_of_def)
  with None show ?thesis by (simp add: run_load)
next
  case (Some c)
  with assms show ?thesis by (simp add: run_load parse_manifest_text)
qed

end
