(* ===== verification/Backfill_Machine.thy ===== *)
theory Backfill_Machine
  imports Backfill_Manifest
begin

text \<open>
  The task machine of a run under every schedule and every pattern of failing statements: what it leaves of the
  store, and that the manifest never runs ahead of the uploads.
\<close>

section \<open>What a task has established\<close>

definition thumb_of :: "bf_env \<Rightarrow> string option \<Rightarrow> bf_world \<Rightarrow> string \<Rightarrow> string option" where
  "thumb_of env seek w v = (case object_at w v of
       None \<Rightarrow> None
     | Some o1 \<Rightarrow> (case extract_thumbnail_with_seek (be_ffmpeg env) (be_tmp env) (so_data o1) seek of
         Inl _ \<Rightarrow> None | Inr png \<Rightarrow> Some png))"

text \<open>The staged thumbnail of a video is the one of its content before the run.\<close>

definition uploaded :: "bf_env \<Rightarrow> string option \<Rightarrow> bf_world \<Rightarrow> bf_world \<Rightarrow> string \<Rightarrow> string \<Rightarrow> bool" where
  "uploaded env seek w0 w v s \<longleftrightarrow> (\<exists>png. thumb_of env seek w0 v = Some png \<and>
     object_at w s = Some \<lparr>so_key = s, so_modified = Some (be_now env), so_data = png\<rparr>)"

definition stage_ok :: "bf_env \<Rightarrow> string option \<Rightarrow> bf_world \<Rightarrow> bf_world \<Rightarrow> string \<Rightarrow> string \<Rightarrow> task_stage \<Rightarrow> bool" where
  "stage_ok env seek w0 w v s st = (case st of
       TExtract data \<Rightarrow> (\<exists>o1. object_at w0 v = Some o1 \<and> so_data o1 = data)
     | TUpload png \<Rightarrow> thumb_of env seek w0 v = Some png
     | TRecord \<Rightarrow> uploaded env seek w0 w v s
     | TDone ok \<Rightarrow> ok \<longrightarrow> uploaded env seek w0 w v s
     | _ \<Rightarrow> True)"

text \<open>A chunk of the manifest: what was written of one line, and a line of a finished video only after the upload.\<close>

definition chunk_ok :: "bf_env \<Rightarrow> string option \<Rightarrow> bf_world \<Rightarrow> bf_world \<Rightarrow> task list \<Rightarrow> string \<Rightarrow> bool" where
  "chunk_ok env seek w0 w ts c \<longleftrightarrow> (\<exists>t \<in> set ts. \<exists>status n.
     c = take n (line_of env (manifest_line env t status)) \<and>
     (status = Completed \<longrightarrow> uploaded env seek w0 w (tk_video t) (tk_staged t)))"

definition names :: "task \<Rightarrow> string \<times> string" where
  "names t = (tk_video t, tk_staged t)"

lemma names_eqD: "names t = names t' \<Longrightarrow> tk_video t = tk_video t' \<and> tk_staged t = tk_staged t'"
  by (simp add: names_def)

lemma manifest_line_names: "names t = names t' \<Longrightarrow> manifest_line env t st = manifest_line env t' st"
  by (simp add: names_def manifest_line_def)

definition staged_names :: "task list \<Rightarrow> bool" where
  "staged_names ts \<longleftrightarrow> (\<forall>t \<in> set ts. staged_thumbnail_key (tk_video t) = Some (tk_staged t))"

text \<open>What holds of the world in every state of the machine.\<close>

definition world_ok :: "bf_env \<Rightarrow> string \<Rightarrow> string option \<Rightarrow> bf_world \<Rightarrow> task list \<Rightarrow> bf_world \<Rightarrow> bool" where
  "world_ok env manifest seek w0 ts w \<longleftrightarrow>
     (\<forall>k. k \<notin> tk_staged ` set ts \<longrightarrow> object_at w k = object_at w0 k) \<and>
     (\<forall>o1. so_key o1 \<notin> tk_staged ` set ts \<longrightarrow> o1 \<in> set (bw_objects w) \<longleftrightarrow> o1 \<in> set (bw_objects w0)) \<and>
     (\<exists>cs. contents w manifest = contents w0 manifest @ concat cs \<and>
        (\<forall>c \<in> set cs. chunk_ok env seek w0 w ts c))"

definition machine_ok :: "bf_env \<Rightarrow> string \<Rightarrow> string option \<Rightarrow> bf_world \<Rightarrow> task list \<Rightarrow> bf_world \<Rightarrow> run_state \<Rightarrow> bool" where
  "machine_ok env manifest seek w0 ts w st \<longleftrightarrow>
     map names (fst st) = map names ts \<and> world_ok env manifest seek w0 ts w \<and>
     (\<forall>t \<in> set (fst st). stage_ok env seek w0 w (tk_video t) (tk_staged t) (tk_stage t))"

section \<open>Uploads\<close>

lemma video_unchanged:
  assumes "staged_names ts" and "world_ok env manifest seek w0 ts w" and "is_video_key v"
  shows "object_at w v = object_at w0 v"
proof -
  have "v \<notin> tk_staged ` set ts"
    using assms(1,3) staged_not_video by (auto simp: staged_names_def staged_key_Some)
  then show ?thesis using assms(2) by (simp add: world_ok_def)
qed

lemma task_video_key: "staged_names ts \<Longrightarrow> t \<in> set ts \<Longrightarrow> is_video_key (tk_video t)"
  by (auto simp: staged_names_def staged_key_Some video_key_iff)

text \<open>An upload keeps the uploads there are: two tasks with one staged key have one video.\<close>

lemma uploaded_put:
  assumes "staged_thumbnail_key v = Some s" "staged_thumbnail_key v' = Some s'"
    and "thumb_of env seek w0 v = Some png" and "uploaded env seek w0 w v' s'"
  shows "uploaded env seek w0 (put_object (be_now env) s png w) v' s'"
  using assms staged_key_inj [of v s v'] by (auto simp: uploaded_def)

lemma uploaded_file [simp]: "uploaded env seek w0 (put_file p c w) v s = uploaded env seek w0 w v s"
  by (simp add: uploaded_def)

lemma chunk_file [simp]: "chunk_ok env seek w0 (put_file p c w) ts = chunk_ok env seek w0 w ts"
  by (simp add: chunk_ok_def fun_eq_iff)

lemma stage_file [simp]: "stage_ok env seek w0 (put_file p c w) v s st = stage_ok env seek w0 w v s st"
  by (simp add: stage_ok_def split: task_stage.split)

lemma chunk_put:
  assumes "staged_names ts" "t \<in> set ts" "thumb_of env seek w0 (tk_video t) = Some png" "chunk_ok env seek w0 w ts c"
  shows "chunk_ok env seek w0 (put_object (be_now env) (tk_staged t) png w) ts c"
  using assms uploaded_put [of "tk_video t" "tk_staged t"]
  unfolding chunk_ok_def staged_names_def by metis

lemma stage_put:
  assumes "staged_thumbnail_key v = Some s" "staged_thumbnail_key v' = Some s'"
    and "thumb_of env seek w0 v = Some png" and "stage_ok env seek w0 w v' s' st"
  shows "stage_ok env seek w0 (put_object (be_now env) s png w) v' s' st"
  using assms uploaded_put [OF assms(1-3)] by (auto simp: stage_ok_def split: task_stage.splits)

lemma world_put:
  assumes "staged_names ts" "t \<in> set ts" "thumb_of env seek w0 (tk_video t) = Some png"
    and "world_ok env manifest seek w0 ts w"
  shows "world_ok env manifest seek w0 ts (put_object (be_now env) (tk_staged t) png w)"
  using assms chunk_put [OF assms(1-3)]
  unfolding world_ok_def by (auto simp: set_put_object)

section \<open>Appends\<close>

lemma world_append_manifest:
  assumes "world_ok env manifest seek w0 ts w" and "t \<in> set ts"
    and "status = Completed \<Longrightarrow> uploaded env seek w0 w (tk_video t) (tk_staged t)"
  shows "world_ok env manifest seek w0 ts
     (put_file manifest (contents w manifest @ take n (line_of env (manifest_line env t status))) w)"
proof -
  let ?c = "take n (line_of env (manifest_line env t status))"
  obtain cs where cs: "contents w manifest = contents w0 manifest @ concat cs"
      "\<forall>c \<in> set cs. chunk_ok env seek w0 w ts c"
    using assms(1) by (auto simp: world_ok_def)
  have "chunk_ok env seek w0 w ts ?c" using assms(2,3) by (auto simp: chunk_ok_def)
  then show ?thesis using assms(1) cs
    unfolding world_ok_def by simp (rule exI [of _ "cs @ [?c]"], auto)
qed

lemma world_append_other:
  "world_ok env manifest seek w0 ts w \<Longrightarrow> path \<noteq> manifest \<Longrightarrow>
     world_ok env manifest seek w0 ts (put_file path c w)"
  by (simp add: world_ok_def)

text \<open>One append under the fault plan: part of the line, or all of it.\<close>

lemma append_line_cases:
  obtains n q s where "append_line env path v next (p, w) =
      (Inr s, q, put_file path (contents w path @ take n (be_ser env v @ [nl])) w)"
    and "s = next \<or> (\<exists>e. s = TBroken e)"
proof -
  let ?line = "be_ser env v @ [nl]"
  let ?put = "\<lambda>n. put_file path (contents w path @ take n ?line) w"
  consider e p' where "p = Some e # p'" | "p = [] \<or> (\<exists>p'. p = None # p')" by (cases p rule: fault_cases) auto
  then show thesis
  proof cases
    case 1
    have "append_line env path v next (p, w) =
        (Inr (TBroken (error_text e)), p', ?put (min (be_torn env e) (length ?line)))"
      by (simp add: 1 append_line_def append_jsonl_def write_torn_def Let_def bnd_def attempt_def ret_def)
    then show thesis by (rule that) simp
  next
    case 2
    then have "append_line env path v next (p, w) = (Inr next, tl p, ?put (length ?line))"
      by (auto simp: append_line_def append_jsonl_def write_torn_def Let_def bnd_def attempt_def ret_def)
    then show thesis by (rule that) simp
  qed
qed

section \<open>A step of a task\<close>

lemma next_stage_ok:
  assumes sn: "staged_names ts" and t: "t \<in> set ts" and w: "world_ok env manifest seek w0 ts w"
    and ok: "stage_ok env seek w0 w (tk_video t) (tk_staged t) st" and nm: "failures \<noteq> manifest"
  obtains s q w' where "next_stage env manifest failures seek (t\<lparr>tk_stage := st\<rparr>) (p, w) = (Inr s, q, w')"
    and "world_ok env manifest seek w0 ts w'"
    and "stage_ok env seek w0 w' (tk_video t) (tk_staged t) s"
    and "\<And>t' st'. t' \<in> set ts \<Longrightarrow> stage_ok env seek w0 w (tk_video t') (tk_staged t') st' \<Longrightarrow>
           stage_ok env seek w0 w' (tk_video t') (tk_staged t') st'"
proof (cases st)
  case TDownload
  have v: "object_at w (tk_video t) = object_at w0 (tk_video t)"
    using video_unchanged [OF sn w] task_video_key [OF sn t] by blast
  have "\<exists>s q. next_stage env manifest failures seek (t\<lparr>tk_stage := st\<rparr>) (p, w) = (Inr s, q, w) \<and>
      stage_ok env seek w0 w (tk_video t) (tk_staged t) s"
    using TDownload v by (cases p) (auto simp: next_stage_def download_object_def stmt_def bnd_def attempt_def
        ret_def stage_ok_def split: option.splits sum.splits)
  with w that show thesis by blast
next
  case (TExtract data)
  have "\<exists>s. next_stage env manifest failures seek (t\<lparr>tk_stage := st\<rparr>) (p, w) = (Inr s, p, w) \<and>
      stage_ok env seek w0 w (tk_video t) (tk_staged t) s"
    using TExtract ok by (auto simp: next_stage_def ret_def stage_ok_def thumb_of_def split: sum.splits)
  with w that show thesis by blast
next
  case (TUpload png)
  with ok have png: "thumb_of env seek w0 (tk_video t) = Some png" by (simp add: stage_ok_def)
  have st: "staged_thumbnail_key (tk_video t) = Some (tk_staged t)" using sn t by (simp add: staged_names_def)
  have up: "uploaded env seek w0 (put_object (be_now env) (tk_staged t) png w) (tk_video t) (tk_staged t)"
    using png by (simp add: uploaded_def)
  consider e p' where "p = Some e # p'" | "p = [] \<or> (\<exists>p'. p = None # p')" by (cases p rule: fault_cases) auto
  then show thesis
  proof cases
    case 1
    with TUpload w that show thesis
      by (auto simp: next_stage_def upload_object_def exec_def stmt_def bnd_def attempt_def ret_def stage_ok_def)
  next
    case 2
    show thesis
    proof (rule that)
      show "next_stage env manifest failures seek (t\<lparr>tk_stage := st\<rparr>) (p, w) =
          (Inr TRecord, tl p, put_object (be_now env) (tk_staged t) png w)"
        using 2 TUpload by (auto simp: next_stage_def upload_object_def exec_def stmt_def bnd_def attempt_def ret_def)
      show "world_ok env manifest seek w0 ts (put_object (be_now env) (tk_staged t) png w)"
        by (rule world_put [OF sn t png w])
      show "stage_ok env seek w0 (put_object (be_now env) (tk_staged t) png w) (tk_video t) (tk_staged t) TRecord"
        using up by (simp add: stage_ok_def)
    next
      fix t' st'
      assume "t' \<in> set ts" "stage_ok env seek w0 w (tk_video t') (tk_staged t') st'"
      then show "stage_ok env seek w0 (put_object (be_now env) (tk_staged t) png w) (tk_video t') (tk_staged t') st'"
        using sn by (intro stage_put [OF st _ png]) (auto simp: staged_names_def)
    qed
  qed
next
  case TRecord
  with ok have up: "uploaded env seek w0 w (tk_video t) (tk_staged t)" by (simp add: stage_ok_def)
  obtain n q s where r: "append_line env manifest (entry_json (manifest_line env t Completed)) (TDone True) (p, w) =
        (Inr s, q, put_file manifest (contents w manifest @ take n (line_of env (manifest_line env t Completed))) w)"
      and s: "s = TDone True \<or> (\<exists>e. s = TBroken e)"
    unfolding line_of_def by (rule append_line_cases)
  show thesis
  proof (rule that)
    show "next_stage env manifest failures seek (t\<lparr>tk_stage := st\<rparr>) (p, w) =
        (Inr s, q, put_file manifest (contents w manifest @ take n (line_of env (manifest_line env t Completed))) w)"
      using TRecord r by (simp add: next_stage_def manifest_line_def)
  qed (use s up w t in \<open>auto simp: stage_ok_def [of _ _ _ _ _ _ s] intro!: world_append_manifest\<close>)
next
  case (TFail e)
  obtain n q s where r: "append_line env manifest (entry_json (manifest_line env t Failed)) (TReport e) (p, w) =
        (Inr s, q, put_file manifest (contents w manifest @ take n (line_of env (manifest_line env t Failed))) w)"
      and s: "s = TReport e \<or> (\<exists>e. s = TBroken e)"
    unfolding line_of_def by (rule append_line_cases)
  show thesis
  proof (rule that)
    show "next_stage env manifest failures seek (t\<lparr>tk_stage := st\<rparr>) (p, w) =
        (Inr s, q, put_file manifest (contents w manifest @ take n (line_of env (manifest_line env t Failed))) w)"
      using TFail r by (simp add: next_stage_def manifest_line_def)
  qed (use s w t in \<open>auto simp: stage_ok_def [of _ _ _ _ _ _ s] intro!: world_append_manifest\<close>)
next
  case (TReport e)
  obtain n q s where r: "append_line env failures (failure_json (tk_video t) (tk_staged t) e) (TDone False) (p, w) =
        (Inr s, q, put_file failures (contents w failures @
          take n (be_ser env (failure_json (tk_video t) (tk_staged t) e) @ [nl])) w)"
      and s: "s = TDone False \<or> (\<exists>e. s = TBroken e)"
    by (rule append_line_cases)
  show thesis
  proof (rule that)
    show "next_stage env manifest failures seek (t\<lparr>tk_stage := st\<rparr>) (p, w) =
        (Inr s, q, put_file failures (contents w failures @
          take n (be_ser env (failure_json (tk_video t) (tk_staged t) e) @ [nl])) w)"
      using TReport r by (simp add: next_stage_def)
  qed (use s w nm in \<open>auto simp: stage_ok_def [of _ _ _ _ _ _ s] intro!: world_append_other\<close>)
next
  case (TDone x)
  with w ok that show thesis by (auto simp: next_stage_def ret_def)
next
  case (TBroken x)
  with w that show thesis by (auto simp: next_stage_def ret_def stage_ok_def)
qed

section \<open>The machine\<close>

lemma names_same:
  "map names ts' = map names ts \<Longrightarrow> i < length ts' \<Longrightarrow>
     i < length ts \<and> tk_video (ts' ! i) = tk_video (ts ! i) \<and> tk_staged (ts' ! i) = tk_staged (ts ! i)"
  by (metis length_map nth_map names_eqD)

lemma names_member:
  "map names ts' = map names ts \<Longrightarrow> t' \<in> set ts' \<Longrightarrow>
     \<exists>t \<in> set ts. tk_video t' = tk_video t \<and> tk_staged t' = tk_staged t"
  by (metis in_set_conv_nth names_same)

lemma move_task_ok:
  assumes sn: "staged_names ts" and m: "machine_ok env manifest seek w0 ts w st" and nm: "failures \<noteq> manifest"
  obtains st' q w' where "move_task env manifest failures seek i st (p, w) = (Inr st', q, w')"
    and "machine_ok env manifest seek w0 ts w' st'"
proof -
  obtain ts' joined where st: "st = (ts', joined)" by (cases st)
  have n: "map names ts' = map names ts" and wd: "world_ok env manifest seek w0 ts w"
    and ok: "\<forall>t \<in> set ts'. stage_ok env seek w0 w (tk_video t) (tk_staged t) (tk_stage t)"
    using m st by (auto simp: machine_ok_def)
  show thesis
  proof (cases "length ts' \<le> i \<or> settled (ts' ! i)")
    case True
    then show thesis using that m st by (simp add: move_task_def)
  next
    case False
    let ?t = "ts ! i" and ?st = "tk_stage (ts' ! i)"
    from False have i: "i < length ts'" by simp
    with names_same [OF n] have il: "i < length ts" and v: "tk_video (ts' ! i) = tk_video ?t"
      and s: "tk_staged (ts' ! i) = tk_staged ?t" by auto
    have same: "ts' ! i = ?t\<lparr>tk_stage := ?st\<rparr>" using v s by simp
    have okt: "stage_ok env seek w0 w (tk_video ?t) (tk_staged ?t) ?st" using ok i v s by (metis nth_mem)
    from il have tin: "?t \<in> set ts" by simp
    from next_stage_ok [OF sn tin wd okt nm, of p] obtain sg q w' where
      r: "next_stage env manifest failures seek (?t\<lparr>tk_stage := ?st\<rparr>) (p, w) = (Inr sg, q, w')"
      and wd': "world_ok env manifest seek w0 ts w'" and sok: "stage_ok env seek w0 w' (tk_video ?t) (tk_staged ?t) sg"
      and others: "\<And>t' st'. t' \<in> set ts \<Longrightarrow> stage_ok env seek w0 w (tk_video t') (tk_staged t') st' \<Longrightarrow>
           stage_ok env seek w0 w' (tk_video t') (tk_staged t') st'"
      by blast
    let ?ts' = "ts'[i := (ts' ! i)\<lparr>tk_stage := sg\<rparr>]"
    have "names ((ts' ! i)\<lparr>tk_stage := sg\<rparr>) = names (ts' ! i)" by (simp add: names_def)
    then have "map names ?ts' = map names ts" using n i
      by (metis (no_types, lifting) list_update_id map_update nth_map)
    moreover have "stage_ok env seek w0 w' (tk_video t) (tk_staged t) (tk_stage t)" if "t \<in> set ?ts'" for t
    proof (cases "t = (ts' ! i)\<lparr>tk_stage := sg\<rparr>")
      case True
      with sok v s show ?thesis by simp
    next
      case False
      with that have tin': "t \<in> set ts'" using set_update_subset_insert by fastforce
      then obtain t0 where "t0 \<in> set ts" "tk_video t = tk_video t0" "tk_staged t = tk_staged t0"
        using names_member [OF n] by blast
      with others ok tin' show ?thesis by metis
    qed
    ultimately have "machine_ok env manifest seek w0 ts w' (?ts', note_joined sg joined)"
      using wd' by (simp add: machine_ok_def)
    moreover have "move_task env manifest failures seek i st (p, w) = (Inr (?ts', note_joined sg joined), q, w')"
      using False r same st by (simp add: move_task_def bnd_def)
    ultimately show thesis using that by blast
  qed
qed

lemma schedule_ok:
  assumes "staged_names ts" and "failures \<noteq> manifest" and "machine_ok env manifest seek w0 ts w st"
  obtains st' q w' where "for_each (move_task env manifest failures seek) sched st (p, w) = (Inr st', q, w')"
    and "machine_ok env manifest seek w0 ts w' st'"
  using assms(3)
proof (induction sched arbitrary: st p w thesis)
  case Nil
  then show ?case by simp
next
  case (Cons i sched)
  from move_task_ok [OF assms(1) Cons.prems(2) assms(2), of i p] obtain st1 q1 w1 where
    r: "move_task env manifest failures seek i st (p, w) = (Inr st1, q1, w1)"
    and m: "machine_ok env manifest seek w0 ts w1 st1" by blast
  from Cons.IH [OF _ m] obtain st' q w' where
    "for_each (move_task env manifest failures seek) sched st1 (q1, w1) = (Inr st', q, w')"
    and "machine_ok env manifest seek w0 ts w' st'" by blast
  with r Cons.prems(1) show ?case by (simp add: bnd_def)
qed

lemma machine_start:
  assumes "\<forall>t \<in> set ts. tk_stage t = TDownload"
  shows "machine_ok env manifest seek w0 ts w0 (ts, [])"
proof -
  have "world_ok env manifest seek w0 ts w0"
    unfolding world_ok_def by (auto intro: exI [of _ "[]"])
  with assms show ?thesis by (simp add: machine_ok_def stage_ok_def)
qed

section \<open>A schedule without failures\<close>

definition stage_no :: "bf_env \<Rightarrow> string option \<Rightarrow> bf_world \<Rightarrow> string \<Rightarrow> nat \<Rightarrow> task_stage" where
  "stage_no env seek w0 v k =
     (if k = 0 then TDownload
      else if k = 1 then TExtract (so_data (the (object_at w0 v)))
      else if k = 2 then TUpload (the (thumb_of env seek w0 v))
      else if k = 3 then TRecord else TDone True)"

definition step_effect :: "bf_env \<Rightarrow> string \<Rightarrow> string option \<Rightarrow> bf_world \<Rightarrow> task \<Rightarrow> nat \<Rightarrow> bf_world \<Rightarrow> bf_world" where
  "step_effect env manifest seek w0 t k w =
     (if k = 2 then put_object (be_now env) (tk_staged t) (the (thumb_of env seek w0 (tk_video t))) w
      else if k = 3 then put_file manifest (contents w manifest @ line_of env (manifest_line env t Completed)) w
      else w)"

lemma smooth_stage:
  assumes "thumb_of env seek w0 (tk_video t) \<noteq> None" and "object_at w (tk_video t) = object_at w0 (tk_video t)" and "k < 4"
  shows "next_stage env manifest failures seek (t\<lparr>tk_stage := stage_no env seek w0 (tk_video t) k\<rparr>) ([], w) =
     (Inr (stage_no env seek w0 (tk_video t) (Suc k)), [], step_effect env manifest seek w0 t k w)"
proof -
  from assms(1) obtain o1 png where o1: "object_at w0 (tk_video t) = Some o1"
      and png: "extract_thumbnail_with_seek (be_ffmpeg env) (be_tmp env) (so_data o1) seek = Inr png"
    by (auto simp: thumb_of_def split: option.splits sum.splits)
  from assms(3) consider "k = 0" | "k = 1" | "k = 2" | "k = 3" by linarith
  then show ?thesis
    using o1 png assms(2)
    by cases (simp_all add: next_stage_def stage_no_def step_effect_def thumb_of_def download_object_def
        upload_object_def append_line_def append_jsonl_def line_of_def manifest_line_def run_simps Let_def)
qed

lemma stage_no_settled [simp]: "settled (t\<lparr>tk_stage := stage_no env seek w0 v k\<rparr>) \<longleftrightarrow> 4 \<le> k"
  by (auto simp: settled_def stage_no_def)

text \<open>After the moves \<open>hs\<close> every task is as far as its number of moves; the finished ones are in the manifest.\<close>

definition done_text :: "bf_env \<Rightarrow> task list \<Rightarrow> nat list \<Rightarrow> string" where
  "done_text env ts ds = manifest_text env (map (\<lambda>i. manifest_line env (ts ! i) Completed) ds)"

definition progress :: "bf_env \<Rightarrow> string \<Rightarrow> string option \<Rightarrow> bf_world \<Rightarrow> task list \<Rightarrow> nat list \<Rightarrow> bf_world \<Rightarrow> run_state \<Rightarrow> bool" where
  "progress env manifest seek w0 ts hs w st \<longleftrightarrow>
     machine_ok env manifest seek w0 ts w st \<and> 
     fst st = map (\<lambda>i. (ts ! i)\<lparr>tk_stage := stage_no env seek w0 (tk_video (ts ! i)) (count_list hs i)\<rparr>) [0..<length ts] \<and>
     (\<exists>ds. distinct ds \<and> set ds = {i. i < length ts \<and> 4 \<le> count_list hs i} \<and>
        snd st = map (\<lambda>_. Inr True) ds \<and>
        contents w manifest = contents w0 manifest @ done_text env ts ds)"

lemma stage_no_top: "4 \<le> k \<Longrightarrow> stage_no env seek w0 v k = TDone True"
  by (simp add: stage_no_def)

lemma progress_step:
  assumes sn: "staged_names ts" and nm: "failures \<noteq> manifest"
    and thumbs: "\<forall>t \<in> set ts. thumb_of env seek w0 (tk_video t) \<noteq> None"
    and pr: "progress env manifest seek w0 ts hs w st"
  obtains st' w' where "move_task env manifest failures seek i st ([], w) = (Inr st', [], w')"
    and "progress env manifest seek w0 ts (hs @ [i]) w' st'"
proof -
  let ?at = "\<lambda>hs j. (ts ! j)\<lparr>tk_stage := stage_no env seek w0 (tk_video (ts ! j)) (count_list hs j)\<rparr>"
  obtain ts' joined where st: "st = (ts', joined)" by (cases st)
  have m: "machine_ok env manifest seek w0 ts w st" using pr unfolding progress_def by blast
  have ts': "ts' = map (?at hs) [0..<length ts]" using pr unfolding progress_def st by simp
  from pr st obtain ds where ds: "distinct ds" "set ds = {i. i < length ts \<and> 4 \<le> count_list hs i}"
      "joined = map (\<lambda>_. Inr True) ds" "contents w manifest = contents w0 manifest @ done_text env ts ds"
    by (auto simp: progress_def)
  obtain st1 q w1 where mv: "move_task env manifest failures seek i st ([], w) = (Inr st1, q, w1)"
    and m1: "machine_ok env manifest seek w0 ts w1 st1" by (rule move_task_ok [OF sn m nm])
  show thesis
  proof (cases "length ts \<le> i \<or> 4 \<le> count_list hs i")
    case True
    have mv2: "move_task env manifest failures seek i st ([], w) = (Inr st, [], w)"
      using True by (auto simp: move_task_def st ts')
    have same: "?at hs j = ?at (hs @ [i]) j" if "j < length ts" for j
      using True that by (cases "j = i") (auto simp: stage_no_top)
    have tsn: "ts' = map (?at (hs @ [i])) [0..<length ts]"
      unfolding ts' by (rule map_cong [OF refl], rule same) simp
    have "4 \<le> count_list (hs @ [i]) j \<longleftrightarrow> 4 \<le> count_list hs j" if "j < length ts" for j
      using True that by (cases "j = i") simp_all
    then have dsn: "set ds = {j. j < length ts \<and> 4 \<le> count_list (hs @ [i]) j}" unfolding ds(2) by blast
    have "progress env manifest seek w0 ts (hs @ [i]) w st"
      unfolding progress_def st fst_conv snd_conv
      using m tsn ds(1) dsn ds(3,4) unfolding st by blast
    with mv2 show thesis by (rule that)
  next
    case False
    let ?t = "ts ! i" and ?k = "count_list hs i"
    have t: "?t \<in> set ts" and il: "i < length ts" and k: "?k < 4" using False by auto
    have v: "object_at w (tk_video ?t) = object_at w0 (tk_video ?t)"
      using video_unchanged [OF sn _ task_video_key [OF sn t]] m unfolding machine_ok_def by blast
    let ?s = "stage_no env seek w0 (tk_video ?t) (Suc ?k)"
    let ?w = "step_effect env manifest seek w0 ?t ?k w"
    let ?st = "(ts'[i := ?t\<lparr>tk_stage := ?s\<rparr>], note_joined ?s joined)"
    have at: "ts' ! i = ?at hs i" using il by (simp add: ts')
    have mv2: "move_task env manifest failures seek i st ([], w) = (Inr ?st, [], ?w)"
      using False smooth_stage [OF _ v k, of env seek manifest failures] thumbs t
      by (simp add: move_task_def st ts' at run_simps)
    with mv m1 have mok: "machine_ok env manifest seek w0 ts ?w ?st" by simp
    have tsn: "ts'[i := ?t\<lparr>tk_stage := ?s\<rparr>] = map (?at (hs @ [i])) [0..<length ts]"
      by (rule nth_equalityI) (auto simp: ts' nth_list_update)
    let ?ds = "if ?k = 3 then ds @ [i] else ds"
    have nin: "i \<notin> set ds" using ds(2) k by auto
    have "set ?ds = {j. j < length ts \<and> 4 \<le> count_list (hs @ [i]) j}"
    proof (rule set_eqI)
      fix j
      show "j \<in> set ?ds \<longleftrightarrow> j \<in> {j. j < length ts \<and> 4 \<le> count_list (hs @ [i]) j}"
        using k il by (cases "j = i"; cases "?k = 3") (simp_all add: ds(2))
    qed
    moreover have "note_joined ?s joined = map (\<lambda>_. Inr True) ?ds"
      using k ds(3) by (cases "?k = 3") (simp_all add: note_joined_def stage_no_def)
    moreover have "contents ?w manifest = contents w0 manifest @ done_text env ts ?ds"
      using ds(4) by (cases "?k = 3") (simp_all add: step_effect_def done_text_def)
    moreover have "distinct ?ds" using ds(1) nin by simp
    ultimately have "progress env manifest seek w0 ts (hs @ [i]) ?w ?st"
      using mok tsn unfolding progress_def by (intro conjI exI [of _ ?ds]) simp_all
    with mv2 show thesis by (rule that)
  qed
qed

lemma schedule_progress:
  assumes "staged_names ts" and "failures \<noteq> manifest"
    and "\<forall>t \<in> set ts. thumb_of env seek w0 (tk_video t) \<noteq> None"
    and "progress env manifest seek w0 ts hs w st"
  obtains st' w' where "for_each (move_task env manifest failures seek) sched st ([], w) = (Inr st', [], w')"
    and "progress env manifest seek w0 ts (hs @ sched) w' st'"
  using assms(4)
proof (induction sched arbitrary: st w hs thesis)
  case Nil
  then show ?case by simp
next
  case (Cons i sched)
  from progress_step [OF assms(1-3) Cons.prems(2), of i] obtain st1 w1 where
    r: "move_task env manifest failures seek i st ([], w) = (Inr st1, [], w1)"
    and m: "progress env manifest seek w0 ts (hs @ [i]) w1 st1" by blast
  from Cons.IH [OF _ m] obtain st' w' where
    "for_each (move_task env manifest failures seek) sched st1 ([], w1) = (Inr st', [], w')"
    and "progress env manifest seek w0 ts ((hs @ [i]) @ sched) w' st'" by blast
  with r Cons.prems(1) show ?case by (simp add: bnd_def)
qed

end
