(* ===== verification/Backfill_Props.thy ===== *)
theory Backfill_Props
  imports Backfill_Machine
begin

text \<open>
  The properties of the backfill tool: what a run may change under every schedule and every failure, that a run
  which is allowed to finish leaves nothing to do, what the audit counts, and what a torn manifest line does.
\<close>

section \<open>Paths\<close>

lemma path_join_suffix: "\<exists>d. path_join a b = d @ b"
  by (auto simp: path_join_def)

lemma run_paths:
  "path_join a ''summary.json'' \<noteq> path_join b ''manifest.jsonl''"
  "path_join a ''failures.jsonl'' \<noteq> path_join b ''manifest.jsonl''"
proof -
  obtain d d' e where p: "path_join a ''summary.json'' = d @ ''summary.json''"
      "path_join a ''failures.jsonl'' = d' @ ''failures.jsonl''" "path_join b ''manifest.jsonl'' = e @ ''manifest.jsonl''"
    using path_join_suffix by metis
  have "last (d @ ''summary.json'') \<noteq> last (e @ ''manifest.jsonl'')" by simp
  then show "path_join a ''summary.json'' \<noteq> path_join b ''manifest.jsonl''" unfolding p by metis
  have "rev (d' @ ''failures.jsonl'') ! 6 \<noteq> rev (e @ ''manifest.jsonl'') ! 6" by simp
  then show "path_join a ''failures.jsonl'' \<noteq> path_join b ''manifest.jsonl''" unfolding p by metis
qed

section \<open>The tasks of a plan\<close>

lemma tasks_of_plan:
  "t \<in> set (tasks_of plan) \<longleftrightarrow> tk_stage t = TDownload \<and> Process (tk_video t) (tk_staged t) \<in> set plan"
proof (induction plan)
  case Nil
  then show ?case by (simp add: tasks_of_def List.map_filter_simps)
next
  case (Cons a plan)
  then show ?case by (cases a; cases t) (auto simp: tasks_of_def List.map_filter_simps)
qed

lemma tasks_staged: "staged_names (tasks_of (build_run_plan kind vs remote m bucket cutoff prefix))"
  by (auto simp: staged_names_def tasks_of_plan process_planned)

section \<open>What a run may change\<close>

definition safe_change :: "bf_env \<Rightarrow> cli_options \<Rightarrow> string \<Rightarrow> bf_world \<Rightarrow> bf_world \<Rightarrow> bool" where
  "safe_change env cli manifest w w' \<longleftrightarrow>
     (\<forall>k. object_at w' k \<noteq> object_at w k \<longrightarrow>
        k \<notin> remote_staged (listing (be_backend env) (co_prefix cli) (bw_objects w)) \<and>
        (\<exists>v. staged_thumbnail_key v = Some k \<and>
           v \<in> oi_key ` set (listing (be_backend env) (co_prefix cli) (bw_objects w)))) \<and>
     (\<exists>cs. contents w' manifest = contents w manifest @ concat cs \<and>
        (\<forall>c \<in> set cs. \<exists>t status n. c = take n (line_of env (manifest_line env t status)) \<and>
           (status = Completed \<longrightarrow> uploaded env (co_thumbnail_seek cli) w w' (tk_video t) (tk_staged t))))"

lemma safe_change_refl: "safe_change env cli manifest w w"
  unfolding safe_change_def by (auto intro: exI [of _ "[]"])

lemma safe_change_file:
  "safe_change env cli manifest w w' \<Longrightarrow> path \<noteq> manifest \<Longrightarrow> safe_change env cli manifest w (put_file path c w')"
  by (simp add: safe_change_def)

lemma query_world:
  obtains r q' where "query q (p, w) = (r, q', w)" and "\<And>x. r = Inr x \<Longrightarrow> x = q w"
  by (cases p rule: fault_cases) (auto simp: query_def stmt_def)

lemma save_summary_world:
  obtains r q c where "save_summary env path s (p, w) = (r, q, put_file path c w)"
  by (cases p rule: fault_cases)
    (auto simp: save_summary_def fails_with_def write_json_def write_torn_def bnd_def map_err_def ret_def intro: that)

lemma load_world:
  obtains r q where "load_manifest_entries env path (p, w) = (r, q, w)"
proof -
  have "\<exists>r q. load_manifest_entries env path (p, w) = (r, q, w)"
    unfolding load_manifest_entries_def bnd_def attempt_def fails_with_def map_err_def
    by (rule query_world [of "\<lambda>w. bw_files w path \<noteq> None" p w], simp split del: if_split)
      (auto simp: ret_def raise_def query_def stmt_def split: list.split option.split sum.split)
  with that show thesis by blast
qed

lemma plan_run_cases:
  obtains e q where "plan_run env cli run_id manifest (p, w) = (Inl e, q, w)"
  | es cutoff s q where "plan_run env cli run_id manifest (p, w) =
      (Inr (build_run_plan (backend_kind_of (be_backend env))
         (videos_in (listing (be_backend env) (co_prefix cli) (bw_objects w)))
         (remote_staged (listing (be_backend env) (co_prefix cli) (bw_objects w))) (from_entries es)
         (bucket_name (be_backend env)) cutoff (co_prefix cli), s), q, w)"
proof -
  let ?L = "listing (be_backend env) (co_prefix cli)"
  obtain r q where q: "list_objects (be_backend env) (co_prefix cli) (p, w) = (r, q, w)"
      "\<And>x. r = Inr x \<Longrightarrow> x = ?L (bw_objects w)"
    unfolding list_objects_def using query_world [of "\<lambda>w. ?L (bw_objects w)" p w] by metis
  obtain r2 q2 where l: "load_manifest_entries env manifest (q, w) = (r2, q2, w)" by (rule load_world)
  show thesis
  proof (cases r)
    case (Inl e)
    then show thesis using q that(1) by (simp add: plan_run_def bnd_def fails_with_def map_err_def)
  next
    case (Inr objects)
    then have o1: "objects = ?L (bw_objects w)" using q(2) by blast
    show thesis
    proof (cases "co_cutoff_before cli")
      case None
      then show thesis using q Inr that(1) by (simp add: plan_run_def bnd_def fails_with_def map_err_def need_cutoff_def)
    next
      case (Some cutoff)
      note run = q Inr l o1 Some plan_run_def bnd_def fails_with_def map_err_def need_cutoff_def Let_def
      show thesis
      proof (cases r2)
        case (Inl e)
        show thesis by (rule that(1)) (simp add: run Inl)
      next
        case (Inr es)
        show thesis by (rule that(2)) (simp add: run Inr ret_def)
      qed
    qed
  qed
qed

lemma execute_run_safe:
  assumes nm: "summary_path \<noteq> manifest" "failures \<noteq> manifest"
    and run: "execute_run env cli run_id manifest summary_path failures (p, w) = (r, q, w')"
  shows "safe_change env cli manifest w w'"
proof (cases rule: plan_run_cases [of env cli run_id manifest p w])
  case (1 e q0)
  with run show ?thesis by (simp add: execute_run_def bnd_def safe_change_refl)
next
  case (2 es cutoff s q0)
  let ?objs = "listing (be_backend env) (co_prefix cli) (bw_objects w)"
  let ?plan = "build_run_plan (backend_kind_of (be_backend env)) (videos_in ?objs) (remote_staged ?objs)
      (from_entries es) (bucket_name (be_backend env)) cutoff (co_prefix cli)"
  let ?ts = "tasks_of ?plan"
  let ?seek = "co_thumbnail_seek cli"
  have sn: "staged_names ?ts" by (rule tasks_staged)
  show ?thesis
  proof (cases "co_execute cli")
    case False
    then show ?thesis using run 2 nm save_summary_world [of env summary_path "s\<lparr>cs_dry_run := cs_planned_process s\<rparr>" q0 w]
      by (auto simp: execute_run_def bnd_def intro!: safe_change_file safe_change_refl)
  next
    case True
    have "machine_ok env manifest ?seek w ?ts w (?ts, [])" by (rule machine_start) (simp add: tasks_of_plan)
    from schedule_ok [OF sn nm(2) this, of "be_schedule env" q0] obtain ts' joined q1 w1 where
      r1: "for_each (move_task env manifest failures ?seek) (be_schedule env) (?ts, []) (q0, w) = (Inr (ts', joined), q1, w1)"
      and m: "machine_ok env manifest ?seek w ?ts w1 (ts', joined)" by (metis surj_pair)
    from m have wd: "world_ok env manifest ?seek w ?ts w1" by (simp add: machine_ok_def)
    have planned: "k \<notin> remote_staged ?objs \<and> (\<exists>v. staged_thumbnail_key v = Some k \<and> v \<in> oi_key ` set ?objs)"
      if "k \<in> tk_staged ` set ?ts" for k
      using that by (force simp: tasks_of_plan process_planned videos_in_def)
    have "safe_change env cli manifest w w1"
      using wd planned unfolding world_ok_def safe_change_def chunk_ok_def by (simp, metis)
    moreover have "w' = w1 \<or> (\<exists>c. w' = put_file summary_path c w1)"
      using run 2 True r1 save_summary_world [of env summary_path _ q1 w1]
      by (auto simp: execute_run_def bnd_def ret_def split: sum.splits if_splits) (metis prod.inject)
    ultimately show ?thesis using nm(1) safe_change_file by blast
  qed
qed

text \<open>C19. Whatever fails, whatever order the tasks run in and wherever the process is killed, a run leaves alone
  every object that is not the staged thumbnail of a listed video or is staged already, and it only appends to the
  manifest: parts of lines, and of a line that calls a video completed not one byte before the thumbnail of that
  video's content is in the bucket.\<close>

theorem run_records_only_uploads:
  assumes "co_command cli = RunBackfill" and "backfill_main env cli run_id (p, w) = (r, q, w')"
  shows "safe_change env cli (path_join (state_dir_for_scope_and_bucket (co_manifest_dir cli) (co_scope cli)
     (bucket_name (be_backend env))) ''manifest.jsonl'') w w'"
proof -
  let ?dir = "state_dir_for_scope_and_bucket (co_manifest_dir cli) (co_scope cli) (bucket_name (be_backend env))"
  let ?run = "path_join (path_join ?dir ''runs'') (run_id @ ''-'' @ command_str (co_command cli))"
  let ?cmd = "execute_run env cli run_id (path_join ?dir ''manifest.jsonl'') (path_join ?run ''summary.json'')
      (path_join ?run ''failures.jsonl'')"
  consider e q0 where "exec id (p, w) = (Inl e, q0, w)" | q0 where "exec id (p, w) = (Inr (), q0, w)"
    by (cases p rule: fault_cases) (auto simp: exec_def stmt_def)
  then show ?thesis
  proof cases
    case 1
    with assms(2) show ?thesis by (simp add: backfill_main_def bnd_def fails_with_def map_err_def Let_def safe_change_refl)
  next
    case 2
    obtain r1 q1 w1 where run: "?cmd (q0, w) = (r1, q1, w1)" by (metis surj_pair)
    have "w' = w1"
      using assms 2 run by (auto simp: backfill_main_def bnd_def fails_with_def map_err_def Let_def run_command_def ret_def
          split: sum.splits option.splits)
    then show ?thesis using execute_run_safe [OF run_paths run] by simp
  qed
qed

section \<open>A run that finishes\<close>

lemma count_actions_planned:
  "cs_planned_process (count_actions plan s) = cs_planned_process s + length (tasks_of plan)"
  unfolding count_actions_def
  by (induction plan arbitrary: s) (auto simp: tasks_of_def List.map_filter_simps split: planned_action.split)

lemma count_actions_rest [simp]:
  "cs_completed (count_actions plan s) = cs_completed s" "cs_failed (count_actions plan s) = cs_failed s"
  unfolding count_actions_def by (induction plan arbitrary: s) (auto split: planned_action.split)

lemma join_all_done: "join_all (map (\<lambda>_. Inr True) ds) s = Inr (s\<lparr>cs_completed := cs_completed s + length ds\<rparr>)"
  by (induction ds arbitrary: s) simp_all

lemma tasks_length: "length (tasks_of (build_run_plan kind vs remote m bucket cutoff prefix)) \<le> length vs"
  by (induction vs) (auto simp: tasks_of_def List.map_filter_simps split: option.split planned_action.split)

lemma run_save: "save_summary env path s ([], w) =
    (Inr (Some s), [], put_file path (be_pretty env (summary_json s)) w)"
  by (simp add: save_summary_def fails_with_def write_json_def run_simps)

text \<open>The plan a run makes of a world and the entries it read.\<close>

definition plan_for :: "bf_env \<Rightarrow> cli_options \<Rightarrow> int \<Rightarrow> manifest_entry list \<Rightarrow> bf_world \<Rightarrow> planned_action list" where
  "plan_for env cli cutoff es w = (let objects = listing (be_backend env) (co_prefix cli) (bw_objects w) in
     build_run_plan (backend_kind_of (be_backend env)) (videos_in objects) (remote_staged objects) (from_entries es)
       (bucket_name (be_backend env)) cutoff (co_prefix cli))"

lemma run_plan:
  assumes "load_manifest_entries env manifest ([], w) = (Inr es, [], w)" and "co_cutoff_before cli = Some cutoff"
  obtains s where "plan_run env cli run_id manifest ([], w) = (Inr (plan_for env cli cutoff es w, s), [], w)"
    and "cs_planned_process s = length (tasks_of (plan_for env cli cutoff es w))" and "cs_completed s = 0" "cs_failed s = 0"
  using assms
  by (simp add: plan_run_def list_objects_def fails_with_def need_cutoff_def plan_for_def Let_def run_simps
      count_actions_planned new_summary_def)

text \<open>Every planned video yields a thumbnail, and every task gets its four moves.\<close>

definition smooth :: "bf_env \<Rightarrow> cli_options \<Rightarrow> int \<Rightarrow> manifest_entry list \<Rightarrow> bf_world \<Rightarrow> bool" where
  "smooth env cli cutoff es w \<longleftrightarrow> co_execute cli \<and> co_cutoff_before cli = Some cutoff \<and>
     (\<forall>v s. Process v s \<in> set (plan_for env cli cutoff es w) \<longrightarrow> thumb_of env (co_thumbnail_seek cli) w v \<noteq> None) \<and>
     (\<forall>i < length (tasks_of (plan_for env cli cutoff es w)). 4 \<le> count_list (be_schedule env) i)"

lemma execute_run_smooth:
  assumes nm: "summary_path \<noteq> manifest" "failures \<noteq> manifest"
    and load: "load_manifest_entries env manifest ([], w) = (Inr es, [], w)" and sm: "smooth env cli cutoff es w"
  obtains s w' ds where
    "execute_run env cli run_id manifest summary_path failures ([], w) = (Inr (Some s), [], w')"
    and "cs_completed s = cs_planned_process s" "cs_failed s = 0"
    and "world_ok env manifest (co_thumbnail_seek cli) w (tasks_of (plan_for env cli cutoff es w)) w'"
    and "\<forall>t \<in> set (tasks_of (plan_for env cli cutoff es w)).
           uploaded env (co_thumbnail_seek cli) w w' (tk_video t) (tk_staged t)"
    and "set ds = set (tasks_of (plan_for env cli cutoff es w))"
    and "contents w' manifest = contents w manifest @ manifest_text env (map (\<lambda>t. manifest_line env t Completed) ds)"
proof -
  let ?seek = "co_thumbnail_seek cli" and ?plan = "plan_for env cli cutoff es w"
  let ?ts = "tasks_of ?plan"
  from sm have ex: "co_execute cli" and cut: "co_cutoff_before cli = Some cutoff"
    and moves: "\<forall>i < length ?ts. 4 \<le> count_list (be_schedule env) i" by (auto simp: smooth_def)
  have sn: "staged_names ?ts" unfolding plan_for_def Let_def by (rule tasks_staged)
  have th: "\<forall>t \<in> set ?ts. thumb_of env ?seek w (tk_video t) \<noteq> None"
    using sm tasks_of_plan unfolding smooth_def by blast
  obtain s where s: "plan_run env cli run_id manifest ([], w) = (Inr (?plan, s), [], w)"
      "cs_planned_process s = length ?ts" "cs_completed s = 0" "cs_failed s = 0"
    using run_plan [OF load cut] by metis
  have down: "\<forall>t \<in> set ?ts. tk_stage t = TDownload" by (simp add: tasks_of_plan)
  have "?ts = map (\<lambda>i. (?ts ! i)\<lparr>tk_stage := stage_no env ?seek w (tk_video (?ts ! i)) (count_list [] i)\<rparr>) [0..<length ?ts]"
    by (rule nth_equalityI) (simp_all add: stage_no_def down)
  then have "progress env manifest ?seek w ?ts [] w (?ts, [])"
    using machine_start [OF down] unfolding progress_def by (auto simp: done_text_def intro: exI [of _ "[]"])
  from schedule_progress [OF sn nm(2) th this, of "be_schedule env"] obtain ts' joined w1 where
    r: "for_each (move_task env manifest failures ?seek) (be_schedule env) (?ts, []) ([], w) = (Inr (ts', joined), [], w1)"
    and pr: "progress env manifest ?seek w ?ts (be_schedule env) w1 (ts', joined)" by (metis append_Nil surj_pair)
  from pr obtain ids where m: "machine_ok env manifest ?seek w ?ts w1 (ts', joined)"
    and ts': "ts' = map (\<lambda>i. (?ts ! i)\<lparr>tk_stage := stage_no env ?seek w (tk_video (?ts ! i)) (count_list (be_schedule env) i)\<rparr>) [0..<length ?ts]"
    and ids: "distinct ids" "set ids = {i. i < length ?ts \<and> 4 \<le> count_list (be_schedule env) i}"
      "joined = map (\<lambda>_. Inr True) ids"
    and tx: "contents w1 manifest = contents w manifest @ done_text env ?ts ids"
    unfolding progress_def fst_conv snd_conv by blast
  have all: "set ids = {..<length ?ts}" using ids(2) moves by auto
  then have len: "length ids = length ?ts" using ids(1) distinct_card by fastforce
  have set: "list_all settled ts'" using moves by (auto simp: ts' list_all_iff)
  let ?s = "s\<lparr>cs_completed := cs_completed s + length ids\<rparr>"
  have up: "uploaded env ?seek w w1 (tk_video t) (tk_staged t)" if t: "t \<in> set ?ts" for t
  proof -
    from t obtain i where i: "i < length ?ts" "t = ?ts ! i" by (metis in_set_conv_nth)
    with ts' moves have "t\<lparr>tk_stage := TDone True\<rparr> \<in> set ts'"
      by (auto simp: stage_no_top intro!: image_eqI [of _ _ i])
    with m show ?thesis unfolding machine_ok_def by (fastforce simp: stage_ok_def)
  qed
  show thesis
  proof (rule that)
    show "execute_run env cli run_id manifest summary_path failures ([], w) =
        (Inr (Some ?s), [], put_file summary_path (be_pretty env (summary_json ?s)) w1)"
      by (simp add: execute_run_def run_simps s(1) ex r ids(3) join_all_done set run_save)
    show "cs_completed ?s = cs_planned_process ?s" "cs_failed ?s = 0" using s len by simp_all
    show "world_ok env manifest ?seek w ?ts (put_file summary_path (be_pretty env (summary_json ?s)) w1)"
      using m nm(1) unfolding machine_ok_def by (intro world_append_other) blast+
    show "\<forall>t \<in> set ?ts. uploaded env ?seek w (put_file summary_path (be_pretty env (summary_json ?s)) w1)
        (tk_video t) (tk_staged t)" using up by simp
    show "set (map ((!) ?ts) ids) = set ?ts" 
      unfolding set_map all using nth_image [of "length ?ts" ?ts] by (simp add: atLeast0LessThan)
    show "contents (put_file summary_path (be_pretty env (summary_json ?s)) w1) manifest = contents w manifest @
        manifest_text env (map (\<lambda>t. manifest_line env t Completed) (map ((!) ?ts) ids))"
      using tx nm(1) by (simp add: done_text_def comp_def)
  qed
qed

section \<open>What is left afterwards\<close>

lemma in_listing:
  "lists_faithfully b \<Longrightarrow> x \<in> set (listing b prefix objects) \<longleftrightarrow>
     (\<exists>o1 \<in> set objects. has_prefix prefix (so_key o1) \<and> info_of o1 = Some x)"
  by (auto simp: lists_faithfully_def List.map_filter_def image_iff)

lemma info_of_key: "info_of o1 = Some x \<Longrightarrow> oi_key x = so_key o1"
  by (auto simp: info_of_def)

lemma staged_at:
  "lists_faithfully b \<Longrightarrow> k \<in> remote_staged (listing b prefix objects) \<longleftrightarrow>
     is_staged_key k \<and> (\<exists>o1 \<in> set objects. so_key o1 = k \<and> has_prefix prefix k \<and> so_modified o1 \<noteq> None)"
proof -
  assume ls: "lists_faithfully b"
  have "k \<in> oi_key ` set (listing b prefix objects) \<longleftrightarrow>
      (\<exists>o1 \<in> set objects. so_key o1 = k \<and> has_prefix prefix k \<and> so_modified o1 \<noteq> None)" (is "?l \<longleftrightarrow> ?r")
  proof
    assume ?l
    then obtain x o1 where "x \<in> set (listing b prefix objects)" "oi_key x = k" by blast
    then show ?r using ls by (auto simp: in_listing info_of_def)
  next
    assume ?r
    then obtain o1 m where o1: "o1 \<in> set objects" "so_key o1 = k" "has_prefix prefix k" "so_modified o1 = Some m" by auto
    then have "\<lparr>oi_key = k, oi_last_modified = m\<rparr> \<in> set (listing b prefix objects)"
      using ls by (auto simp: in_listing info_of_def)
    then show ?l by force
  qed
  then show ?thesis by (auto simp: remote_staged_def)
qed

lemma listing_after:
  assumes "lists_faithfully b" and "world_ok env manifest seek w ts w'"
    and "\<And>o1. info_of o1 = Some x \<Longrightarrow> so_key o1 \<notin> tk_staged ` set ts"
  shows "x \<in> set (listing b prefix (bw_objects w')) \<longleftrightarrow> x \<in> set (listing b prefix (bw_objects w))"
  using assms unfolding world_ok_def by (auto simp: in_listing)

lemma entries_done:
  "(kind, b, k) \<in> from_entries (es @ map (\<lambda>t. manifest_line env t Completed) ts) \<longleftrightarrow>
     (kind, b, k) \<in> from_entries es \<or>
     kind = backend_kind_of (be_backend env) \<and> b = bucket_name (be_backend env) \<and> k \<in> tk_staged ` set ts"
  by (auto simp: from_entries_def manifest_line_def)

text \<open>With its entries in the manifest and its thumbnails in the bucket, a finished run has nothing to do again.\<close>

lemma nothing_planned:
  assumes ls: "lists_faithfully (be_backend env)" and wd: "world_ok env manifest seek w (tasks_of plan) w'"
    and plan: "plan = plan_for env cli cutoff es w" and ds: "set ds = set (tasks_of plan)"
  shows "tasks_of (plan_for env cli cutoff (es @ map (\<lambda>t. manifest_line env t Completed) ds) w') = []"
proof (rule ccontr)
  let ?b = "be_backend env" and ?es = "es @ map (\<lambda>t. manifest_line env t Completed) ds"
  let ?L = "\<lambda>w. listing ?b (co_prefix cli) (bw_objects w)"
  assume "tasks_of (plan_for env cli cutoff ?es w') \<noteq> []"
  then obtain t where "t \<in> set (tasks_of (plan_for env cli cutoff ?es w'))" by (meson list.set_sel(1))
  then obtain v s where "Process v s \<in> set (plan_for env cli cutoff ?es w')" by (auto simp: tasks_of_plan)
  then have st: "staged_thumbnail_key v = Some s" and nr: "s \<notin> remote_staged (?L w')"
    and nm: "\<not> should_skip_completed (from_entries ?es) (backend_kind_of ?b) (bucket_name ?b) s"
    and "\<exists>x \<in> set (videos_in (?L w')). oi_key x = v \<and> candidate cutoff (co_prefix cli) x"
    by (auto simp: plan_for_def Let_def process_planned)
  then obtain x where x: "x \<in> set (?L w')" "oi_key x = v" "candidate cutoff (co_prefix cli) x"
    by (auto simp: videos_in_def)
  have sn: "staged_names (tasks_of plan)" unfolding plan plan_for_def Let_def by (rule tasks_staged)
  have vk: "is_video_key v" using x by (simp add: candidate_def)
  have xw: "x \<in> set (?L w)"
  proof -
    have "so_key o1 \<notin> tk_staged ` set (tasks_of plan)" if "info_of o1 = Some x" for o1
      using that vk x(2) sn staged_not_video
      by (auto simp: info_of_key [OF that, symmetric] staged_names_def staged_key_Some)
    from listing_after [OF ls wd this] x(1) show ?thesis by blast
  qed
  have ns: "s \<notin> tk_staged ` set (tasks_of plan)" and ne: "(backend_kind_of ?b, bucket_name ?b, s) \<notin> from_entries es"
    using nm unfolding should_skip_completed_def entries_done ds by auto
  have "s \<notin> remote_staged (?L w)"
  proof
    assume "s \<in> remote_staged (?L w)"
    then show False using nr ns wd unfolding staged_at [OF ls] world_ok_def by blast
  qed
  with st ne xw x vk have "Process v s \<in> set plan"
    by (auto simp: plan plan_for_def Let_def process_planned should_skip_completed_def videos_in_def)
  then have "\<lparr>tk_video = v, tk_staged = s, tk_stage = TDownload\<rparr> \<in> set (tasks_of plan)" by (simp add: tasks_of_plan)
  with ns show False by force
qed

text \<open>C20. A run of which nothing fails and every task gets its four moves, in whatever order, completes every planned
  video, counts none as failed, and leaves nothing to do: a second run plans no video.\<close>

theorem finished_run_leaves_nothing:
  assumes "lists_faithfully (be_backend env)" and "codec_ok env" and "contents w manifest = manifest_text env es"
    and "smooth env cli cutoff es w" and "summary_path \<noteq> manifest" and "failures \<noteq> manifest"
  shows "\<exists>s w' plan s'.
     execute_run env cli run_id manifest summary_path failures ([], w) = (Inr (Some s), [], w') \<and>
     cs_completed s = cs_planned_process s \<and> cs_failed s = 0 \<and>
     (\<forall>v k. Process v k \<in> set (plan_for env cli cutoff es w) \<longrightarrow> uploaded env (co_thumbnail_seek cli) w w' v k) \<and>
     plan_run env cli run_id' manifest ([], w') = (Inr (plan, s'), [], w') \<and> cs_planned_process s' = 0"
proof -
  have cut: "co_cutoff_before cli = Some cutoff" using assms(4) by (simp add: smooth_def)
  obtain s w' ds where run: "execute_run env cli run_id manifest summary_path failures ([], w) = (Inr (Some s), [], w')"
      "cs_completed s = cs_planned_process s" "cs_failed s = 0"
    and wd: "world_ok env manifest (co_thumbnail_seek cli) w (tasks_of (plan_for env cli cutoff es w)) w'"
    and up: "\<forall>t \<in> set (tasks_of (plan_for env cli cutoff es w)).
         uploaded env (co_thumbnail_seek cli) w w' (tk_video t) (tk_staged t)"
    and ds: "set ds = set (tasks_of (plan_for env cli cutoff es w))"
    and tx: "contents w' manifest = contents w manifest @ manifest_text env (map (\<lambda>t. manifest_line env t Completed) ds)"
    by (rule execute_run_smooth [OF assms(5,6) run_load_text [OF assms(2,3)] assms(4)])
  let ?es = "es @ map (\<lambda>t. manifest_line env t Completed) ds"
  have "contents w' manifest = manifest_text env ?es" using tx assms(3) by simp
  then obtain s' where
    second: "plan_run env cli run_id' manifest ([], w') = (Inr (plan_for env cli cutoff ?es w', s'), [], w')"
    and planned: "cs_planned_process s' = length (tasks_of (plan_for env cli cutoff ?es w'))"
    using run_plan [OF run_load_text [OF assms(2)] cut] by metis
  have "uploaded env (co_thumbnail_seek cli) w w' v k" if "Process v k \<in> set (plan_for env cli cutoff es w)" for v k
    using bspec [OF up, of "\<lparr>tk_video = v, tk_staged = k, tk_stage = TDownload\<rparr>"] that by (simp add: tasks_of_plan)
  moreover have "cs_planned_process s' = 0" using planned nothing_planned [OF assms(1) wd refl ds] by simp
  ultimately show ?thesis using run second by blast
qed

text \<open>C22. A crash in the middle of a line of the manifest is survived by the next run alone: that run ignores the torn
  line, but what it appends merges with it, and from then on every run fails on the manifest, however often it is
  started.\<close>

theorem torn_line_blocks_all_later_runs:
  assumes codec: "codec_ok env" and tx: "contents w manifest = manifest_text env es @ t"
    and t: "t \<noteq> []" "nl \<notin> set t" "undecodable env t" "\<And>e. undecodable env (t @ be_ser env (entry_json e))"
    and sm: "smooth env cli cutoff es w" and some: "tasks_of (plan_for env cli cutoff es w) \<noteq> []"
    and nm: "summary_path \<noteq> manifest" "failures \<noteq> manifest"
  shows "\<exists>s w'. execute_run env cli run_id manifest summary_path failures ([], w) = (Inr (Some s), [], w') \<and>
     cs_failed s = 0 \<and>
     (\<forall>cli' run_id'. co_cutoff_before cli' \<noteq> None \<longrightarrow>
        (\<exists>e. execute_run env cli' run_id' manifest summary_path failures ([], w') =
           (Inl (''parse manifest '' @ manifest @ '': invalid manifest line '' @ show_nat (length es + 1) @ e), [], w')))"
proof -
  have ex: "bw_files w manifest \<noteq> None" using tx t(1) by (cases "bw_files w manifest") (auto simp: contents_def)
  have load: "load_manifest_entries env manifest ([], w) = (Inr es, [], w)"
    using ex parse_torn [OF codec t(2)] t(3) by (auto simp: run_load tx)
  obtain s w' ds where run: "execute_run env cli run_id manifest summary_path failures ([], w) = (Inr (Some s), [], w')"
      "cs_failed s = 0"
    and ds: "set ds = set (tasks_of (plan_for env cli cutoff es w))"
    and tx': "contents w' manifest = contents w manifest @ manifest_text env (map (\<lambda>t. manifest_line env t Completed) ds)"
    by (rule execute_run_smooth [OF nm load sm])
  from some ds obtain d ds' where "ds = d # ds'" by (cases ds) auto
  with tx tx' have merged: "contents w' manifest = manifest_text env es @ t @ line_of env (manifest_line env d Completed) @
      manifest_text env (map (\<lambda>t. manifest_line env t Completed) ds')"
    by simp
  then have ex': "bw_files w' manifest \<noteq> None"
    using t(1) by (cases "bw_files w' manifest") (auto simp: contents_def)
  obtain e where "parse_manifest_entries (be_entry env) (contents w' manifest) =
      Inl (''invalid manifest line '' @ show_nat (length es + 1) @ e)"
    unfolding merged by (rule parse_merged [OF codec t(2) t(4)])
  then have bad: "load_manifest_entries env manifest ([], w') =
      (Inl (''parse manifest '' @ manifest @ '': invalid manifest line '' @ show_nat (length es + 1) @ e), [], w')"
    using ex' by (simp add: run_load)
  have "execute_run env cli' run_id' manifest summary_path failures ([], w') =
      (Inl (''parse manifest '' @ manifest @ '': invalid manifest line '' @ show_nat (length es + 1) @ e), [], w')"
    if "co_cutoff_before cli' \<noteq> None" for cli' run_id'
    using that bad by (auto simp: execute_run_def plan_run_def list_objects_def fails_with_def need_cutoff_def run_simps)
  with run show ?thesis by blast
qed

section \<open>The audit\<close>

lemma plan_staged_left:
  "map pa_staged (filter (\<lambda>a. case a of SkipRemoteExists _ _ \<Rightarrow> False | _ \<Rightarrow> True)
      (build_run_plan kind (videos_in objects) (remote_staged objects) m bucket cutoff prefix)) =
   remaining_staged cutoff prefix objects"
proof -
  have "map pa_staged (filter (\<lambda>a. case a of SkipRemoteExists _ _ \<Rightarrow> False | _ \<Rightarrow> True)
      (build_run_plan kind (filter (\<lambda>o1. is_video_key (oi_key o1)) vs) R m bucket cutoff prefix)) =
    filter (\<lambda>k. k \<notin> R) (List.map_filter (\<lambda>o1. staged_thumbnail_key (oi_key o1))
       (filter (\<lambda>o1. oi_last_modified o1 \<le> cutoff \<and> has_prefix prefix (oi_key o1))
          (filter (\<lambda>o1. is_video_key (oi_key o1)) vs)))" for R vs
    by (induction vs) (auto simp: plan_one_def is_before_cutoff_def List.map_filter_simps dest: video_has_staged
        split: option.splits)
  then show ?thesis by (simp add: remaining_staged_def videos_in_def)
qed

lemma count_actions_left:
  "cs_planned_process (count_actions plan s) + cs_skip_manifest_done (count_actions plan s) =
     cs_planned_process s + cs_skip_manifest_done s +
     length (filter (\<lambda>a. case a of SkipRemoteExists _ _ \<Rightarrow> False | _ \<Rightarrow> True) plan)"
  unfolding count_actions_def by (induction plan arbitrary: s) (auto split: planned_action.split)

text \<open>The remaining work of an audit is what a run of the same listing would plan or skip because of its
  manifest, whatever the manifest says.\<close>

lemma audit_counts_planned_work:
  "ar_remaining_work (audit_of env cli cutoff objects entries) =
     (let s = count_actions (build_run_plan (backend_kind_of (be_backend env)) (videos_in objects)
        (remote_staged objects) (from_entries es) (bucket_name (be_backend env)) cutoff (co_prefix cli))
        (new_summary env cli run_id)
      in cs_planned_process s + cs_skip_manifest_done s)"
  using arg_cong [OF plan_staged_left [of "backend_kind_of (be_backend env)" objects "from_entries es"
      "bucket_name (be_backend env)" cutoff "co_prefix cli"], of length]
  by (simp add: audit_of_def Let_def count_actions_left new_summary_def)

text \<open>The staged thumbnail of a video whose name ends in \<open>-bak\<close> is never counted as present: without a manifest the
  video is processed in every run, and the audit never reaches zero.\<close>

lemma bak_video_never_staged:
  "staged_thumbnail_key (v @ ''-bak.mp4'') = Some s \<Longrightarrow> s \<notin> remote_staged objects"
  by (auto simp: staged_key_Some remote_staged_def is_staged_key_def ends_with_def)

section \<open>A concrete tool\<close>

text \<open>A codec for the manifest: five fields with escapes, separated by commas.\<close>

definition bs :: char where "bs = CHR 0x5C"

fun esc :: "string \<Rightarrow> string" where
  "esc [] = []"
| "esc (c # r) = (if c = nl then [bs, CHR ''n''] else if c = CHR '','' then [bs, CHR ''c'']
     else if c = bs then [bs, bs] else [c]) @ esc r"

fun unesc :: "string \<Rightarrow> string" where
  "unesc [] = []"
| "unesc [c] = [c]"
| "unesc (c # d # r) = (if c = bs then (if d = CHR ''n'' then nl else if d = CHR ''c'' then CHR '','' else d) # unesc r
     else c # unesc (d # r))"

lemma unesc_plain: "c \<noteq> bs \<Longrightarrow> unesc (c # r) = c # unesc r"
  by (cases r) simp_all

lemma unesc_esc [simp]: "unesc (esc s) = s"
  by (induction s) (simp_all add: unesc_plain bs_def)

lemma esc_chars: "nl \<notin> set (esc s) \<and> CHR '','' \<notin> set (esc s)"
  by (induction s) (auto simp: bs_def)

definition demo_ser :: "json \<Rightarrow> string" where
  "demo_ser j = (case j of
       JObj [(_, JStr a), (_, JStr b), (_, JStr c), (_, JStr d), (_, JStr e)] \<Rightarrow>
         esc a @ '','' @ esc b @ '','' @ esc c @ '','' @ esc d @ '','' @ esc e
     | _ \<Rightarrow> ''x'')"

definition demo_kind :: "string \<Rightarrow> backend_kind option" where
  "demo_kind s = (if s = ''Storj'' then Some KStorj else if s = ''Hetzner'' then Some KHetzner else None)"

definition demo_status :: "string \<Rightarrow> manifest_status option" where
  "demo_status s = (if s = ''Completed'' then Some Completed else if s = ''Failed'' then Some Failed
     else if s = ''SkipRemoteExists'' then Some StSkipRemoteExists
     else if s = ''SkipManifestDone'' then Some StSkipManifestDone else None)"

definition demo_entry :: "string \<Rightarrow> string + manifest_entry" where
  "demo_entry s = (case map unesc (split_on CHR '','' s) of
       [a, b, c, d, e] \<Rightarrow> (case (demo_kind a, demo_status e) of
           (Some k, Some st) \<Rightarrow> Inr \<lparr>me_backend = k, me_bucket = b, me_source_video_key = c,
             me_staged_thumbnail_key = d, me_status = st\<rparr>
         | _ \<Rightarrow> Inl ''unknown variant'')
     | _ \<Rightarrow> Inl ''expected value'')"

definition demo_bf :: bf_env where
  "demo_bf = \<lparr>be_backend = Hetzner \<lparr>hb_bucket = ''b'', hb_list = (\<lambda>prefix os.
       map (\<lambda>o1. (so_key o1, so_modified o1)) (filter (\<lambda>o1. has_prefix prefix (so_key o1)) os))\<rparr>,
     be_now = 20, be_ffmpeg = (\<lambda>args video. Inr (True, Some (''png'' @ video))), be_tmp = ''/tmp/t'',
     be_torn = (\<lambda>_. 1), be_ser = demo_ser, be_pretty = (\<lambda>_. ''{}''), be_entry = demo_entry,
     be_rfc3339 = (\<lambda>_. ''t''), be_decode_png = (\<lambda>s. Inr ((1, 1), s)), be_schedule = [0, 1, 0, 1, 0, 1, 1, 0],
     be_verify_order = rev, be_seed_video = Inl ''none'', be_seed_time = int\<rparr>"

definition demo_cli :: cli_options where
  "demo_cli = (options_of \<lparr>ra_scope = ScopeHetzner, ra_manifest_dir = ''m'', ra_prefix = None,
     ra_bucket_override = None\<rparr> RunBackfill (Some 10))\<lparr>co_execute := True\<rparr>"

definition demo_world :: "string option \<Rightarrow> bf_world" where
  "demo_world torn = \<lparr>bw_objects = [\<lparr>so_key = ''u/a.mp4'', so_modified = Some 5, so_data = ''A''\<rparr>,
     \<lparr>so_key = ''u/b.mp4'', so_modified = Some 6, so_data = ''B''\<rparr>], bw_files = (\<lambda>p. if p = ''m.jsonl'' then torn else None)\<rparr>"

lemma demo_lists: "lists_faithfully (be_backend demo_bf)"
  by (simp add: lists_faithfully_def demo_bf_def List.map_filter_def info_of_def comp_def filter_map)

lemma demo_codec: "codec_ok demo_bf"
proof -
  have "be_entry demo_bf (be_ser demo_bf (entry_json e)) = Inr e" for e
    using esc_chars by (cases "me_backend e"; cases "me_status e")
      (simp_all add: demo_bf_def demo_ser_def demo_entry_def entry_json_def split_on_first split_on_whole demo_kind_def
        demo_status_def bs_def)
  moreover have "nl \<notin> set (be_ser demo_bf (entry_json e)) \<and> be_ser demo_bf (entry_json e) \<noteq> []" for e
    using esc_chars by (cases "me_backend e"; cases "me_status e") (simp_all add: demo_bf_def demo_ser_def entry_json_def bs_def)
  ultimately show ?thesis by (simp add: codec_ok_def)
qed

lemma demo_plan:
  "plan_for demo_bf demo_cli 10 [] (demo_world torn) =
     [Process ''u/a.mp4'' ''u/a-thumbnail.png'', Process ''u/b.mp4'' ''u/b-thumbnail.png'']"
  by code_simp

lemma demo_smooth: "smooth demo_bf demo_cli 10 [] (demo_world torn)"
  unfolding smooth_def demo_plan
  by (simp add: demo_cli_def options_of_def demo_bf_def thumb_of_def demo_world_def object_at_def tasks_of_def
      List.map_filter_simps extract_thumbnail_with_seek_def extract_thumbnail_from_video_path_def less_Suc_eq numeral_2_eq_2)

theorem run_records_only_uploads_witness:
  "\<exists>r q w'. backfill_main demo_bf demo_cli ''r1'' ([None, None, None, Some (PgError ''lost'')], demo_world None) = (r, q, w') \<and>
     safe_change demo_bf demo_cli (path_join (state_dir_for_scope_and_bucket (co_manifest_dir demo_cli) (co_scope demo_cli)
       (bucket_name (be_backend demo_bf))) ''manifest.jsonl'') (demo_world None) w'"
proof -
  obtain r q w' where run:
    "backfill_main demo_bf demo_cli ''r1'' ([None, None, None, Some (PgError ''lost'')], demo_world None) = (r, q, w')"
    by (metis surj_pair)
  have "co_command demo_cli = RunBackfill" by (simp add: demo_cli_def options_of_def)
  from run_records_only_uploads [OF this run] run show ?thesis by blast
qed

theorem finished_run_leaves_nothing_witness:
  "\<exists>s w' plan s'.
     execute_run demo_bf demo_cli ''r1'' ''m.jsonl'' ''s.json'' ''f.jsonl'' ([], demo_world None) = (Inr (Some s), [], w') \<and>
     cs_completed s = cs_planned_process s \<and> cs_failed s = 0 \<and>
     (\<forall>v k. Process v k \<in> set (plan_for demo_bf demo_cli 10 [] (demo_world None)) \<longrightarrow>
        uploaded demo_bf (co_thumbnail_seek demo_cli) (demo_world None) w' v k) \<and>
     plan_run demo_bf demo_cli ''r2'' ''m.jsonl'' ([], w') = (Inr (plan, s'), [], w') \<and> cs_planned_process s' = 0"
  by (rule finished_run_leaves_nothing [OF demo_lists demo_codec _ demo_smooth])
    (simp_all add: demo_world_def contents_def)

lemma demo_torn: "undecodable demo_bf ''{''" "undecodable demo_bf (''{'' @ be_ser demo_bf (entry_json e))"
proof -
  show "undecodable demo_bf ''{''" by (simp add: undecodable_def demo_bf_def demo_entry_def)
  show "undecodable demo_bf (''{'' @ be_ser demo_bf (entry_json e))"
    using esc_chars by (cases "me_backend e"; cases "me_status e")
      (simp_all add: undecodable_def demo_bf_def demo_ser_def demo_entry_def entry_json_def split_on_first split_on_whole
        demo_kind_def demo_status_def bs_def)
qed

theorem torn_line_blocks_all_later_runs_witness:
  "\<exists>s w'. execute_run demo_bf demo_cli ''r1'' ''m.jsonl'' ''s.json'' ''f.jsonl'' ([], demo_world (Some ''{'')) =
       (Inr (Some s), [], w') \<and> cs_failed s = 0 \<and>
     (\<forall>cli' run_id'. co_cutoff_before cli' \<noteq> None \<longrightarrow>
        (\<exists>e. execute_run demo_bf cli' run_id' ''m.jsonl'' ''s.json'' ''f.jsonl'' ([], w') =
           (Inl (''parse manifest '' @ ''m.jsonl'' @ '': invalid manifest line '' @ show_nat (length ([] :: manifest_entry list) + 1) @ e),
            [], w')))"
proof (rule torn_line_blocks_all_later_runs [OF demo_codec _ _ _ demo_torn(1) demo_torn(2) demo_smooth])
  show "contents (demo_world (Some ''{'')) ''m.jsonl'' = manifest_text demo_bf [] @ ''{''"
    by (simp add: contents_def demo_world_def)
  show "tasks_of (plan_for demo_bf demo_cli 10 [] (demo_world (Some ''{''))) \<noteq> []"
    unfolding demo_plan by (simp add: tasks_of_def List.map_filter_simps)
qed simp_all

end
