(* ===== verification/S3_Client.thy ===== *)
theory S3_Client
  imports Pg_Session Paged_Scan "HOL-Library.AList" "HOL-Library.Multiset"
begin

text \<open>
  The S3 client (\<open>src/s3_client.rs\<close>). The bucket is a list of objects under distinct keys; each request is a
  statement that the fault plan can make fail, and each operation of the client retries its request. The service
  answers as documented: a put stores, a get returns, a delete removes (and succeeds without the object), a listing
  gives the keys in byte order behind the start or the continuation token, in pages of a size the service chooses.
  The delays between attempts carry no state.
\<close>

record s3_object =
  so3_data :: string
  so3_type :: string
  so3_metadata :: "(string \<times> string) list"
  so3_modified :: int

record s3_world =
  s3_objects :: "(string \<times> s3_object) list"
  s3_files :: "string \<rightharpoonup> string"
  s3_now :: int

type_synonym ('x, 'a) s3 = "('x s3_world_scheme, pg_error, 'a) proc"

section \<open>Retries\<close>

definition MAX_RETRIES :: nat where
  "MAX_RETRIES = 3"

fun retry_s3_op :: "nat \<Rightarrow> ('d, 'e, 'a) proc \<Rightarrow> ('d, 'e, 'a) proc" where
  "retry_s3_op 0 m = m"
| "retry_s3_op (Suc n) m = bnd (attempt m) (\<lambda>r. case r of Inr x \<Rightarrow> ret x | Inl _ \<Rightarrow> retry_s3_op n m)"

definition retrying :: "('d, 'e, 'a) proc \<Rightarrow> ('d, 'e, 'a) proc" where
  "retrying m = retry_s3_op MAX_RETRIES m"

section \<open>Requests\<close>

definition put_s3 :: "string \<Rightarrow> string \<Rightarrow> string \<Rightarrow> (string \<times> string) list \<Rightarrow> 'x s3_world_scheme \<Rightarrow> 'x s3_world_scheme" where
  "put_s3 key data ty metadata w = w\<lparr>s3_objects := AList.update key
     \<lparr>so3_data = data, so3_type = ty, so3_metadata = metadata, so3_modified = s3_now w\<rparr> (s3_objects w)\<rparr>"

definition s3_at :: "'x s3_world_scheme \<Rightarrow> string \<Rightarrow> s3_object option" where
  "s3_at w key = map_of (s3_objects w) key"

definition delete_s3 :: "string \<Rightarrow> 'x s3_world_scheme \<Rightarrow> 'x s3_world_scheme" where
  "delete_s3 key w = w\<lparr>s3_objects := AList.delete key (s3_objects w)\<rparr>"

definition get_request :: "string \<Rightarrow> ('x, string) s3" where
  "get_request key = stmt (\<lambda>w. case s3_at w key of
     None \<Rightarrow> Inl (PgError ''NoSuchKey'') | Some o1 \<Rightarrow> Inr (so3_data o1, w))"

section \<open>Objects\<close>

definition s3_upload_video :: "string \<Rightarrow> string \<Rightarrow> (string \<times> string) list \<Rightarrow> ('x, unit) s3" where
  "s3_upload_video key data metadata = retrying (exec (put_s3 key data ''video/mp4'' metadata))"

definition hls_content_type :: "string \<Rightarrow> string" where
  "hls_content_type key = (if ends_with key ''.m3u8'' then ''application/vnd.apple.mpegurl''
     else if ends_with key ''.ts'' then ''video/mp2t'' else ''application/octet-stream'')"

definition s3_upload_hls_segment :: "string \<Rightarrow> string \<Rightarrow> (string \<times> string) list \<Rightarrow> ('x, unit) s3" where
  "s3_upload_hls_segment key data metadata = retrying (exec (put_s3 key data (hls_content_type key) metadata))"

definition s3_upload_thumbnail :: "string \<Rightarrow> string \<Rightarrow> ('x, unit) s3" where
  "s3_upload_thumbnail key data = retrying (exec (put_s3 key data ''image/png'' []))"

definition s3_upload_png_object :: "string \<Rightarrow> string \<Rightarrow> ('x, unit) s3" where
  "s3_upload_png_object key data = retrying (exec (put_s3 key data ''image/png'' []))"

definition s3_download_video :: "string \<Rightarrow> ('x, string) s3" where
  "s3_download_video key = retrying (get_request key)"

definition s3_download_thumbnail :: "string \<Rightarrow> ('x, string) s3" where
  "s3_download_thumbnail key = retrying (get_request key)"

definition s3_download_object :: "string \<Rightarrow> ('x, string) s3" where
  "s3_download_object key = retrying (get_request key)"

definition s3_delete_video :: "string \<Rightarrow> ('x, unit) s3" where
  "s3_delete_video key = retrying (exec (delete_s3 key))"

definition s3_delete_thumbnail :: "string \<Rightarrow> ('x, unit) s3" where
  "s3_delete_thumbnail key = retrying (exec (delete_s3 key))"

text \<open>An error whose text names a missing object counts as an answer.\<close>

definition head_request :: "string \<Rightarrow> ('x, bool) s3" where
  "head_request key = bnd (attempt (query (\<lambda>w. s3_at w key \<noteq> None))) (\<lambda>r. case r of
       Inr b \<Rightarrow> ret b
     | Inl e \<Rightarrow> if contains (error_text e) ''NotFound'' \<or> contains (error_text e) ''404'' then ret False else raise e)"

definition s3_object_exists :: "string \<Rightarrow> ('x, bool) s3" where
  "s3_object_exists key = retrying (head_request key)"

text \<open>The download into an open file: every attempt starts with an empty file; \<open>torn e\<close> is what an attempt that fails
  with \<open>e\<close> has written.\<close>

definition write_s3_file :: "string \<Rightarrow> string \<Rightarrow> 'x s3_world_scheme \<Rightarrow> 'x s3_world_scheme" where
  "write_s3_file path c w = w\<lparr>s3_files := (s3_files w)(path \<mapsto> c)\<rparr>"

definition download_attempt :: "(pg_error \<Rightarrow> nat) \<Rightarrow> string \<Rightarrow> string \<Rightarrow> ('x, unit) s3" where
  "download_attempt torn key path = (\<lambda>(p, w). case p of
       Some e # p' \<Rightarrow> (Inl e, p', write_s3_file path
          (case s3_at w key of None \<Rightarrow> [] | Some o1 \<Rightarrow> take (torn e) (so3_data o1)) w)
     | _ \<Rightarrow> (case s3_at w key of
          None \<Rightarrow> (Inl (PgError ''NoSuchKey''), tl p, write_s3_file path [] w)
        | Some o1 \<Rightarrow> (Inr (), tl p, write_s3_file path (so3_data o1) w)))"

definition s3_download_to_file :: "(pg_error \<Rightarrow> nat) \<Rightarrow> string \<Rightarrow> string \<Rightarrow> ('x, unit) s3" where
  "s3_download_to_file torn key path = retrying (download_attempt torn key path)"

section \<open>Listing\<close>

record s3_object_info =
  si_key :: string
  si_last_modified :: "int option"
  si_size :: "int option"

text \<open>The times of a listing are whole seconds.\<close>

definition info_of_object :: "string \<times> s3_object \<Rightarrow> s3_object_info" where
  "info_of_object x = \<lparr>si_key = fst x, si_last_modified = Some (so3_modified (snd x) div 1000000000 * 1000000000),
     si_size = Some (int (length (so3_data (snd x))))\<rparr>"

definition has_s3_prefix :: "string option \<Rightarrow> string \<Rightarrow> bool" where
  "has_s3_prefix prefix k = (case prefix of None \<Rightarrow> True | Some p \<Rightarrow> starts_with k p)"

definition s3_behind :: "string option \<Rightarrow> (string \<times> s3_object) list \<Rightarrow> string option \<Rightarrow> (string \<times> s3_object) list" where
  "s3_behind prefix objects a =
     filter (\<lambda>x. has_s3_prefix prefix (fst x) \<and> past a (fst x)) (sort_key fst objects)"

text \<open>One answer of the service: the continuation token, which wins over the start, is the last key handed out.\<close>

definition list_objects_v2 :: "nat \<Rightarrow> string option \<Rightarrow> string option \<Rightarrow> string option \<Rightarrow>
    (string \<times> s3_object) list \<Rightarrow> (string \<times> s3_object) list \<times> string option" where
  "list_objects_v2 page_size prefix token start_after objects =
     (let left = s3_behind prefix objects (case token of Some t \<Rightarrow> Some t | None \<Rightarrow> start_after);
          page = take page_size left
      in (page, if length left \<le> page_size then None else Some (fst (last page))))"

definition list_objects_page :: "nat \<Rightarrow> string option \<Rightarrow> string option \<Rightarrow> string option \<Rightarrow>
    ('x, s3_object_info list \<times> string option) s3" where
  "list_objects_page page_size prefix token start_after =
     bnd (retrying (query (\<lambda>w. list_objects_v2 page_size prefix token start_after (s3_objects w)))) (\<lambda>(items, next).
     ret (map info_of_object items, next))"

text \<open>The loop over the pages, with fuel; the start goes with the first request only.\<close>

fun list_pages :: "nat \<Rightarrow> nat \<Rightarrow> string option \<Rightarrow> string option \<Rightarrow> string option \<Rightarrow> ('x, s3_object_info list option) s3" where
  "list_pages page_size 0 prefix token start_after = ret None"
| "list_pages page_size (Suc fuel) prefix token start_after =
     bnd (list_objects_page page_size prefix token start_after) (\<lambda>(items, next). case next of
       None \<Rightarrow> ret (Some items)
     | Some t \<Rightarrow> bnd (list_pages page_size fuel prefix (Some t) None) (\<lambda>rest.
         ret (map_option (\<lambda>more. items @ more) rest)))"

definition s3_list_objects :: "nat \<Rightarrow> nat \<Rightarrow> string option \<Rightarrow> string option \<Rightarrow> ('x, s3_object_info list option) s3" where
  "s3_list_objects page_size fuel prefix start_after = list_pages page_size fuel prefix None start_after"

section \<open>Retries under faults\<close>

lemma s3_at_put [simp]:
  "s3_at (put_s3 key data ty md w) k = (if k = key
     then Some \<lparr>so3_data = data, so3_type = ty, so3_metadata = md, so3_modified = s3_now w\<rparr> else s3_at w k)"
  by (simp add: s3_at_def put_s3_def update_conv')

lemma s3_at_delete [simp]: "s3_at (delete_s3 key w) k = (if k = key then None else s3_at w k)"
  by (simp add: s3_at_def delete_s3_def delete_conv')

lemma retry_run: "m ([], w) = (Inr x, [], w') \<Longrightarrow> retry_s3_op n m ([], w) = (Inr x, [], w')"
  by (cases n) (simp_all add: run_simps)

text \<open>A write survives as many failures in a row as it has retries; one more, and it fails without an effect.\<close>

lemma retry_survives:
  assumes "length es \<le> n"
  shows "retry_s3_op n (exec f) (map Some es @ None # q, w) = (Inr (), q, f w)"
  using assms
proof (induction n arbitrary: es)
  case 0
  then show ?case by (simp add: exec_def stmt_def)
next
  case (Suc n)
  then show ?case by (cases es) (simp_all add: exec_def stmt_def run_bnd run_attempt)
qed

lemma retry_gives_up:
  "length es = Suc n \<Longrightarrow> retry_s3_op n (exec f) (map Some es @ q, w) = (Inl (last es), q, w)"
proof (induction n arbitrary: es)
  case 0
  then show ?case by (auto simp: length_Suc_conv exec_def stmt_def)
next
  case (Suc n)
  then obtain e es' where es: "es = e # es'" "length es' = Suc n" by (auto simp: length_Suc_conv)
  then have "es' \<noteq> []" by auto
  with Suc.IH [OF es(2)] es(1) show ?case by (simp add: exec_def stmt_def run_bnd run_attempt)
qed

text \<open>A retried request leaves what one request leaves.\<close>

lemma retry_exec_cases:
  obtains q where "retry_s3_op n (exec f) (p, w) = (Inr (), q, f w)"
  | e q where "retry_s3_op n (exec f) (p, w) = (Inl e, q, w)"
proof (induction n arbitrary: p thesis)
  case 0
  show ?case
  proof (cases "exec f (p, w)")
    case (fields r q w')
    then show ?thesis using 0 by (cases p rule: fault_cases) (auto simp: exec_def stmt_def)
  qed
next
  case (Suc n)
  consider q where "exec f (p, w) = (Inr (), q, f w)" | e q where "exec f (p, w) = (Inl e, q, w)"
    by (cases p rule: fault_cases) (auto simp: exec_def stmt_def)
  then show ?case
  proof cases
    case 1
    then show ?thesis using Suc.prems(1) by (simp add: run_bnd run_attempt)
  next
    case (2 e q)
    show ?thesis
      by (rule Suc.IH [of q]) (use 2 Suc.prems in \<open>simp_all add: run_bnd run_attempt\<close>)
  qed
qed

lemma retry_query_cases:
  obtains q where "retry_s3_op n (query f) (p, w) = (Inr (f w), q, w)"
  | e q where "retry_s3_op n (query f) (p, w) = (Inl e, q, w)"
proof (induction n arbitrary: p thesis)
  case 0
  show ?case
  proof (cases "query f (p, w)")
    case (fields r q w')
    then show ?thesis using 0 by (cases p rule: fault_cases) (auto simp: query_def stmt_def)
  qed
next
  case (Suc n)
  consider q where "query f (p, w) = (Inr (f w), q, w)" | e q where "query f (p, w) = (Inl e, q, w)"
    by (cases p rule: fault_cases) (auto simp: query_def stmt_def)
  then show ?case
  proof cases
    case 1
    then show ?thesis using Suc.prems(1) by (simp add: run_bnd run_attempt)
  next
    case (2 e q)
    show ?thesis
      by (rule Suc.IH [of q]) (use 2 Suc.prems in \<open>simp_all add: run_bnd run_attempt\<close>)
  qed
qed

section \<open>The pages of a listing\<close>

lemma s3_strict:
  assumes "distinct (map fst objects)"
  shows "sorted_wrt (<) (map fst (s3_behind prefix objects a))"
proof -
  have "distinct (map fst (sort_key fst objects))"
    using assms by (metis distinct_map mset_eq_imp_distinct_iff mset_map mset_sort)
  then have "sorted_wrt (<) (map fst (sort_key fst objects))"
    by (simp add: strict_sorted_iff)
  then show ?thesis unfolding s3_behind_def by (simp add: sorted_wrt_map sorted_wrt_filter)
qed

interpretation s3_scan: paged_scan "\<lambda>objects a n. take n (s3_behind prefix objects a)" fst "s3_behind prefix"
    "\<lambda>objects. distinct (map fst objects)" for prefix
proof
  show "sorted_wrt (<) (map fst (s3_behind prefix objects a))" if "distinct (map fst objects)" for objects a
    using that by (rule s3_strict)
  show "past a (fst r)" if "r \<in> set (s3_behind prefix objects a)" for r a objects
    using that by (simp add: s3_behind_def)
  show "s3_behind prefix objects (Some k) = filter (\<lambda>r. k < fst r) (s3_behind prefix objects a)"
    if "past a k" for a k objects
    using that by (auto simp: s3_behind_def past_def intro!: filter_cong split: option.splits)
qed simp

lemma page_run:
  obtains q where "list_objects_page page_size prefix token start_after (p, w) =
      (Inr (map_prod (map info_of_object) id (list_objects_v2 page_size prefix token start_after (s3_objects w))), q, w)"
    and "p = [] \<Longrightarrow> q = []"
  | e q where "list_objects_page page_size prefix token start_after (p, w) = (Inl e, q, w)" and "p \<noteq> []"
proof (cases "p = []")
  case True
  show ?thesis
    by (rule that(1) [of "[]"]) (simp_all add: True list_objects_page_def retrying_def run_bnd
        retry_run [where m = "query f" for f, OF run_query] map_prod_def split: prod.split)
next
  case False
  show ?thesis
    by (rule retry_query_cases [of MAX_RETRIES "\<lambda>w. list_objects_v2 page_size prefix token start_after (s3_objects w)" p w])
      (insert False that, simp_all add: list_objects_page_def retrying_def run_bnd map_prod_def split: prod.splits)
qed

lemma list_pages_complete:
  assumes "0 < page_size" and "distinct (map fst (s3_objects w))"
    and "length (s3_behind prefix (s3_objects w) (case token of Some t \<Rightarrow> Some t | None \<Rightarrow> start_after)) < fuel"
  shows "\<exists>r q. list_pages page_size fuel prefix token start_after (p, w) = (r, q, w) \<and>
     (r = Inr (Some (map info_of_object
        (s3_behind prefix (s3_objects w) (case token of Some t \<Rightarrow> Some t | None \<Rightarrow> start_after)))) \<or>
      p \<noteq> [] \<and> (\<exists>e. r = Inl e))"
  using assms(3)
proof (induction fuel arbitrary: token start_after p)
  case 0
  then show ?case by simp
next
  case (Suc fuel)
  let ?a = "case token of Some t \<Rightarrow> Some t | None \<Rightarrow> start_after"
  let ?left = "s3_behind prefix (s3_objects w) ?a"
  let ?page = "take page_size ?left"
  show ?case
  proof (cases rule: page_run [of page_size prefix token start_after p w])
    case (2 e q)
    then show ?thesis by (simp add: run_bnd)
  next
    case (1 q)
    show ?thesis
    proof (cases "length ?left \<le> page_size")
      case True
      with 1 show ?thesis by (simp add: run_bnd list_objects_v2_def Let_def)
    next
      case False
      let ?t = "fst (last ?page)"
      have ne: "?page \<noteq> []" using False assms(1) by auto
      have rest: "s3_behind prefix (s3_objects w) (Some ?t) = drop page_size ?left"
        using s3_scan.todo_after_page [OF assms(2), where a = ?a and n = page_size and prefix = prefix] ne by simp
      have "length (s3_behind prefix (s3_objects w) (Some ?t)) < fuel"
        unfolding rest using Suc.prems assms(1) False by simp
      then obtain r q' where r: "list_pages page_size fuel prefix (Some ?t) None (q, w) = (r, q', w)"
        "r = Inr (Some (map info_of_object (drop page_size ?left))) \<or> q \<noteq> [] \<and> (\<exists>e. r = Inl e)"
        using Suc.IH [where token = "Some ?t" and start_after = None and p = q] rest by auto
      have whole: "map info_of_object ?page @ map info_of_object (drop page_size ?left) = map info_of_object ?left"
        by (metis append_take_drop_id map_append)
      from r(2) show ?thesis
      proof
        assume "r = Inr (Some (map info_of_object (drop page_size ?left)))"
        with 1(1) False r(1) whole show ?thesis by (simp add: run_bnd list_objects_v2_def Let_def)
      next
        assume "q \<noteq> [] \<and> (\<exists>e. r = Inl e)"
        with 1 False r(1) show ?thesis by (auto simp: run_bnd list_objects_v2_def Let_def)
      qed
    qed
  qed
qed

text \<open>Listing a bucket ends, for every page size the service chooses, and gives every object below the prefix and
  behind the start exactly once, in key order; when requests fail it gives this list or an error, never a part of
  it.\<close>

lemma s3_listing_complete:
  assumes "0 < page_size" and "distinct (map fst (s3_objects w))" and "length (s3_objects w) < fuel"
  shows "\<exists>r q. s3_list_objects page_size fuel prefix start_after (p, w) = (r, q, w) \<and>
     (r = Inr (Some (map info_of_object (s3_behind prefix (s3_objects w) start_after))) \<or> p \<noteq> [] \<and> (\<exists>e. r = Inl e)) \<and>
     sorted_wrt (<) (map fst (s3_behind prefix (s3_objects w) start_after)) \<and>
     set (s3_behind prefix (s3_objects w) start_after) =
       {x \<in> set (s3_objects w). has_s3_prefix prefix (fst x) \<and> past start_after (fst x)}"
proof -
  have "length (s3_behind prefix (s3_objects w) start_after) < fuel"
    using assms(3) length_filter_le [of _ "sort_key fst (s3_objects w)"] le_less_trans
    unfolding s3_behind_def by fastforce
  then show ?thesis
    using list_pages_complete [OF assms(1,2), where prefix = prefix and token = None and start_after = start_after
        and fuel = fuel and p = p] s3_strict [OF assms(2), of prefix start_after]
    by (auto simp: s3_list_objects_def s3_behind_def)
qed

lemma s3_listing_complete_witness:
  "\<exists>r q. s3_list_objects 1 3 None None ([Some (PgError ''503'')], \<lparr>s3_objects = [(''b'', \<lparr>so3_data = ''x'', so3_type = [],
       so3_metadata = [], so3_modified = 0\<rparr>), (''a'', \<lparr>so3_data = [], so3_type = [], so3_metadata = [], so3_modified = 5\<rparr>)],
       s3_files = (\<lambda>_. None), s3_now = 1\<rparr>) = (r, q, \<lparr>s3_objects = [(''b'', \<lparr>so3_data = ''x'', so3_type = [],
       so3_metadata = [], so3_modified = 0\<rparr>), (''a'', \<lparr>so3_data = [], so3_type = [], so3_metadata = [], so3_modified = 5\<rparr>)],
       s3_files = (\<lambda>_. None), s3_now = 1\<rparr>)"
  using s3_listing_complete [of 1 "\<lparr>s3_objects = [(''b'', \<lparr>so3_data = ''x'', so3_type = [],
       so3_metadata = [], so3_modified = 0\<rparr>), (''a'', \<lparr>so3_data = [], so3_type = [], so3_metadata = [], so3_modified = 5\<rparr>)],
       s3_files = (\<lambda>_. None), s3_now = 1\<rparr>" 3 None None "[Some (PgError ''503'')]"] by auto

end
