(* ===== verification/Mp4_Boxes.thy ===== *)
theory Mp4_Boxes
  imports Prelude
begin

text \<open>
  Fast start of MP4 files (\<open>src/transcode.rs\<close>): the walk over the top-level boxes that says whether the index
  (\<open>moov\<close>) stands before the media data (\<open>mdat\<close>), and the remux with \<open>ffmpeg\<close>, a parameter that gives what the
  remux of a file leaves. Offsets are natural numbers, with the overflow of \<open>usize\<close> (64 bits) written out.
\<close>

datatype moov_position = BeforeMdat | AfterMdat

datatype faststart_outcome = AlreadyFaststart | Remuxed

record faststart_result =
  fr_data :: string
  fr_outcome :: faststart_outcome

section \<open>The walk\<close>

definition be_value :: "string \<Rightarrow> nat" where
  "be_value bs = foldl (\<lambda>n c. n * 256 + of_char c) 0 bs"

definition slice :: "string \<Rightarrow> nat \<Rightarrow> nat \<Rightarrow> string" where
  "slice data from n = take n (drop from data)"

text \<open>The size of the box at an offset and the length of its header.\<close>

definition box_header :: "string \<Rightarrow> nat \<Rightarrow> string + nat \<times> nat" where
  "box_header data offset = (let size32 = be_value (slice data offset 4) in
     if size32 = 0 then Inr (length data - offset, 8)
     else if size32 = 1 then
       (if length data < offset + 16 then Inl ''truncated MP4 large-size box''
        else Inr (be_value (slice data (offset + 8) 8), 16))
     else Inr (size32, 8))"

lemma box_header_size: "box_header data offset = Inr (n, header) \<Longrightarrow> 8 \<le> header"
  by (auto simp: box_header_def Let_def split: if_splits)

function mp4_scan :: "string \<Rightarrow> nat \<Rightarrow> nat option \<Rightarrow> nat option \<Rightarrow> string + moov_position" where
  "mp4_scan data offset moov mdat =
     (if length data < offset + 8 then Inl ''MP4 is missing top-level moov or mdat box''
      else case box_header data offset of
        Inl e \<Rightarrow> Inl e
      | Inr (n, header) \<Rightarrow>
          if 2 ^ 64 \<le> offset + n then Inl ''MP4 box offset overflow''
          else if n < header \<or> length data < offset + n then Inl ''invalid MP4 top-level box size''
          else (let box_type = slice data (offset + 4) 4;
                    moov' = (if box_type = ''moov'' then Some offset else moov);
                    mdat' = (if box_type = ''mdat'' then Some offset else mdat)
                in case (moov', mdat') of
                     (Some a, Some b) \<Rightarrow> Inr (if a < b then BeforeMdat else AfterMdat)
                   | _ \<Rightarrow> mp4_scan data (offset + n) moov' mdat'))"
  by pat_completeness auto

termination
  by (relation "measure (\<lambda>(data, offset, _, _). length data - offset)") (auto dest: box_header_size)

declare mp4_scan.simps [simp del]

definition mp4_moov_position :: "string \<Rightarrow> string + moov_position" where
  "mp4_moov_position data = mp4_scan data 0 None None"

section \<open>Remuxing\<close>

definition faststart_args :: "string \<Rightarrow> string \<Rightarrow> string list" where
  "faststart_args input out = [''-y'', ''-v'', ''error'', ''-i'', input, ''-c'', ''copy'', ''-movflags'', ''+faststart'', out]"

text \<open>\<open>ff args video\<close>: an error of starting it, or exit status, error output and the file it left.\<close>

type_synonym remuxer = "string list \<Rightarrow> string \<Rightarrow> string + bool \<times> string \<times> string option"

definition run_ffmpeg_faststart :: "remuxer \<Rightarrow> string \<Rightarrow> string \<Rightarrow> string \<Rightarrow> string + string option" where
  "run_ffmpeg_faststart ff input out video = (case ff (faststart_args input out) video of
       Inl e \<Rightarrow> Inl e
     | Inr (ok, stderr, file) \<Rightarrow> if ok then Inr file else Inl (''ffmpeg faststart remux failed: '' @ stderr))"

definition remux_faststart :: "remuxer \<Rightarrow> string \<Rightarrow> string \<Rightarrow> string + faststart_result" where
  "remux_faststart ff dir video = (case run_ffmpeg_faststart ff (dir @ ''/input.mp4'') (dir @ ''/output.mp4'') video of
       Inl e \<Rightarrow> Inl e
     | Inr None \<Rightarrow> Inl ''No such file or directory''
     | Inr (Some data) \<Rightarrow> (case mp4_moov_position data of
           Inl e \<Rightarrow> Inl e
         | Inr BeforeMdat \<Rightarrow> Inr \<lparr>fr_data = data, fr_outcome = Remuxed\<rparr>
         | Inr AfterMdat \<Rightarrow> Inl ''ffmpeg faststart output still has moov after mdat''))"

definition ensure_faststart_mp4 :: "remuxer \<Rightarrow> string \<Rightarrow> string \<Rightarrow> string + faststart_result" where
  "ensure_faststart_mp4 ff dir video =
     (if mp4_moov_position video = Inr BeforeMdat then Inr \<lparr>fr_data = video, fr_outcome = AlreadyFaststart\<rparr>
      else remux_faststart ff dir video)"

section \<open>Files as lists of boxes\<close>

text \<open>A box with a 32 bit or a 64 bit size, and the file that a list of boxes is written to.\<close>

record mp4_box =
  bx_large :: bool
  bx_type :: string
  bx_payload :: string

fun be_bytes :: "nat \<Rightarrow> nat \<Rightarrow> string" where
  "be_bytes 0 n = []"
| "be_bytes (Suc k) n = be_bytes k (n div 256) @ [char_of (n mod 256)]"

definition box_size :: "mp4_box \<Rightarrow> nat" where
  "box_size b = (if bx_large b then 16 else 8) + length (bx_payload b)"

definition write_box :: "mp4_box \<Rightarrow> string" where
  "write_box b = (if bx_large b then be_bytes 4 1 @ bx_type b @ be_bytes 8 (box_size b) @ bx_payload b
     else be_bytes 4 (box_size b) @ bx_type b @ bx_payload b)"

definition box_ok :: "mp4_box \<Rightarrow> bool" where
  "box_ok b \<longleftrightarrow> length (bx_type b) = 4 \<and> (bx_large b \<or> box_size b < 2 ^ 32)"

definition write_boxes :: "mp4_box list \<Rightarrow> string" where
  "write_boxes bs = concat (map write_box bs)"

text \<open>The order of the boxes, read off the list.\<close>

fun moov_order :: "mp4_box list \<Rightarrow> bool \<Rightarrow> bool \<Rightarrow> moov_position option" where
  "moov_order [] moov mdat = None"
| "moov_order (b # bs) moov mdat =
     (if bx_type b = ''moov'' then (if mdat then Some AfterMdat else moov_order bs True mdat)
      else if bx_type b = ''mdat'' then (if moov then Some BeforeMdat else moov_order bs moov True)
      else moov_order bs moov mdat)"

section \<open>Lemmas\<close>

lemma be_bytes_length [simp]: "length (be_bytes k n) = k"
  by (induction k arbitrary: n) simp_all

lemma be_value_snoc: "be_value (bs @ [c]) = be_value bs * 256 + of_char c"
  by (simp add: be_value_def)

lemma be_value_bytes: "n < 256 ^ k \<Longrightarrow> be_value (be_bytes k n) = n"
proof (induction k arbitrary: n)
  case 0
  then show ?case by (simp add: be_value_def)
next
  case (Suc k)
  then have "n div 256 < 256 ^ k" by (simp add: less_mult_imp_div_less mult.commute)
  with Suc.IH show ?case by (simp add: be_value_snoc)
qed

lemma write_box_length: "box_ok b \<Longrightarrow> length (write_box b) = box_size b"
  by (simp add: write_box_def box_size_def box_ok_def)

lemma box_size_pos: "8 \<le> box_size b" "(if bx_large b then 16 else 8) \<le> box_size b"
  by (simp_all add: box_size_def)

text \<open>The header of a written box is read back.\<close>

lemma read_box:
  assumes ok: "box_ok b" and small: "length pre + box_size b < 2 ^ 64" and data: "data = pre @ write_box b @ post"
  shows "box_header data (length pre) = Inr (box_size b, if bx_large b then 16 else 8)"
    and "slice data (length pre + 4) 4 = bx_type b"
proof -
  have ty: "length (bx_type b) = 4" using ok by (simp add: box_ok_def)
  show "slice data (length pre + 4) 4 = bx_type b"
    using ty by (simp add: data slice_def write_box_def)
  show "box_header data (length pre) = Inr (box_size b, if bx_large b then 16 else 8)"
  proof (cases "bx_large b")
    case True
    have "slice data (length pre) 4 = be_bytes 4 1" "slice data (length pre + 8) 8 = be_bytes 8 (box_size b)"
      using ty True by (simp_all add: data slice_def write_box_def)
    moreover have "be_value (be_bytes 4 1) = 1" "be_value (be_bytes 8 (box_size b)) = box_size b"
      using small by (auto intro!: be_value_bytes)
    moreover have "length pre + 16 \<le> length data" using ty True by (simp add: data write_box_def)
    ultimately show ?thesis using True by (simp add: box_header_def)
  next
    case False
    have "slice data (length pre) 4 = be_bytes 4 (box_size b)"
      using False by (simp add: data slice_def write_box_def)
    moreover have "be_value (be_bytes 4 (box_size b)) = box_size b"
      using ok False by (auto simp: box_ok_def intro!: be_value_bytes)
    moreover have "box_size b \<noteq> 0" "box_size b \<noteq> 1" using box_size_pos [of b] by simp_all
    ultimately show ?thesis using False by (simp add: box_header_def)
  qed
qed

text \<open>What the walk has seen before it comes to the boxes that are left.\<close>

lemma scan_boxes:
  assumes "list_all box_ok bs" and "length pre + length (write_boxes bs) < 2 ^ 64"
    and "\<And>a. moov = Some a \<Longrightarrow> a < length pre" "\<And>a. mdat = Some a \<Longrightarrow> a < length pre"
    and "moov = None \<or> mdat = None"
  shows "mp4_scan (pre @ write_boxes bs) (length pre) moov mdat =
     (case moov_order bs (moov \<noteq> None) (mdat \<noteq> None) of
        Some r \<Rightarrow> Inr r | None \<Rightarrow> Inl ''MP4 is missing top-level moov or mdat box'')"
  using assms
proof (induction bs arbitrary: pre moov mdat)
  case Nil
  then show ?case by (simp add: mp4_scan.simps write_boxes_def)
next
  case (Cons b bs)
  let ?data = "pre @ write_box b @ write_boxes bs"
  let ?moov = "if bx_type b = ''moov'' then Some (length pre) else moov"
  let ?mdat = "if bx_type b = ''mdat'' then Some (length pre) else mdat"
  have ok: "box_ok b" "list_all box_ok bs" using Cons.prems(1) by simp_all
  have len: "length pre + box_size b + length (write_boxes bs) < 2 ^ 64"
    using Cons.prems(2) ok by (simp add: write_boxes_def write_box_length)
  then have small: "length pre + box_size b < 2 ^ 64" by simp
  have hd: "box_header ?data (length pre) = Inr (box_size b, if bx_large b then 16 else 8)"
    "slice ?data (length pre + 4) 4 = bx_type b"
    using read_box [OF ok(1) small refl] by simp_all
  have total: "length ?data = length pre + box_size b + length (write_boxes bs)"
    using ok by (simp add: write_box_length)
  have step: "mp4_scan ?data (length pre) moov mdat = (case (?moov, ?mdat) of
       (Some a, Some b) \<Rightarrow> Inr (if a < b then BeforeMdat else AfterMdat)
     | _ \<Rightarrow> mp4_scan ?data (length pre + box_size b) ?moov ?mdat)"
    using hd total small box_size_pos [of b] by (subst mp4_scan.simps) (simp add: Let_def)
  have rest: "mp4_scan ?data (length pre + box_size b) m d =
      (case moov_order bs (m \<noteq> None) (d \<noteq> None) of
         Some r \<Rightarrow> Inr r | None \<Rightarrow> Inl ''MP4 is missing top-level moov or mdat box'')"
    if "m = None \<or> d = None" "\<And>a. m = Some a \<Longrightarrow> a \<le> length pre" "\<And>a. d = Some a \<Longrightarrow> a \<le> length pre" for m d
  proof -
    have "mp4_scan ((pre @ write_box b) @ write_boxes bs) (length (pre @ write_box b)) m d =
      (case moov_order bs (m \<noteq> None) (d \<noteq> None) of
         Some r \<Rightarrow> Inr r | None \<Rightarrow> Inl ''MP4 is missing top-level moov or mdat box'')"
      by (rule Cons.IH) (use that ok len box_size_pos [of b] in \<open>fastforce simp: write_box_length\<close>)+
    then show ?thesis using ok by (simp add: write_box_length)
  qed
  have bound: "a < length pre" if "moov = Some a \<or> mdat = Some a" for a using Cons.prems(3,4) that by blast
  show ?case
    using Cons.prems(5) step rest [of ?moov ?mdat] bound
    by (cases moov; cases mdat; auto simp: write_boxes_def less_imp_le)
qed

text \<open>C37. On every file that is a sequence of well-formed boxes, with 32 bit or 64 bit sizes and of less than
  2^64 bytes, the walk gives the order in which \<open>moov\<close> and \<open>mdat\<close> first both occur, and its error when one is
  missing.\<close>

theorem moov_position_exact:
  assumes "list_all box_ok bs" and "length (write_boxes bs) < 2 ^ 64"
  shows "mp4_moov_position (write_boxes bs) = (case moov_order bs False False of
     Some r \<Rightarrow> Inr r | None \<Rightarrow> Inl ''MP4 is missing top-level moov or mdat box'')"
  using scan_boxes [of bs "[]" None None] assms by (simp add: mp4_moov_position_def)

theorem moov_position_exact_witness:
  "mp4_moov_position (write_boxes [\<lparr>bx_large = False, bx_type = ''ftyp'', bx_payload = ''isom''\<rparr>,
     \<lparr>bx_large = True, bx_type = ''mdat'', bx_payload = ''x''\<rparr>, \<lparr>bx_large = False, bx_type = ''moov'', bx_payload = []\<rparr>]) =
   Inr AfterMdat"
  by (subst moov_position_exact)
    (simp_all add: box_ok_def box_size_def write_boxes_def write_box_def)

lemma ensure_faststart_Inr:
  "ensure_faststart_mp4 ff dir video = Inr r \<Longrightarrow> mp4_moov_position (fr_data r) = Inr BeforeMdat"
  by (auto simp: ensure_faststart_mp4_def remux_faststart_def split: if_splits sum.splits option.splits moov_position.splits)

end
