(* ===== verification/Raw_Store.thy ===== *)
theory Raw_Store
  imports S3_Client Mp4_Boxes Backfill_Store
begin

text \<open>
  The stores behind the raw video routes (\<open>routes/duplicate.rs\<close>, \<open>routes/duplicate_hls.rs\<close>,
  \<open>routes/move2nsfw.rs\<close>): the S3 bucket, the objects of Storj under their \<open>sj://\<close> urls, and the temporary files,
  with the uploads and downloads the routes make. A call of \<open>uplink cp\<close> is read from its arguments as the program
  documents them. A call that fails may leave part of the bytes at its target.
\<close>

section \<open>The world\<close>

record storj_copy =
  sc_data :: string
  sc_metadata :: "string option"
  sc_expires :: "string option"

record rw_world = s3_world +
  rw_storj :: "string \<rightharpoonup> storj_copy"

type_synonym ('e, 'a) rw = "(rw_world, 'e, 'a) proc"

text \<open>\<open>re_cut e\<close>: how much a transfer that fails with \<open>e\<close> has left at its target, if anything; \<open>re_spawn e\<close>: the process
  could not be started or waited for, instead of ending with a bad status.\<close>

record raw_env =
  re_sfw_bucket :: string
  re_sfw_grant :: string
  re_nsfw_bucket :: string
  re_nsfw_grant :: string
  re_cut :: "pg_error \<Rightarrow> nat option"
  re_spawn :: "pg_error \<Rightarrow> bool"
  re_json :: "(string \<times> string) list \<Rightarrow> string"
  re_now :: string
  re_ffmpeg :: ffmpeg
  re_remux :: remuxer
  re_tmp :: string
  re_order :: "nat list \<Rightarrow> nat list"

datatype raw_error = EIo string | EHyper string | ES3 string

definition raw_error_response :: "raw_error \<Rightarrow> nat \<times> json" where
  "raw_error_response e = (500, JObj [(''message'', JStr (case e of
       ES3 _ \<Rightarrow> ''S3 storage operation failed. Check server logs.''
     | _ \<Rightarrow> ''Internal server error. Check server logs.''))])"

section \<open>The copies of uplink\<close>

record cp_call =
  cc_metadata :: "string option"
  cc_expires :: "string option"
  cc_access :: "string option"
  cc_paths :: "string list"

definition cp_arg :: "string \<Rightarrow> cp_call \<Rightarrow> cp_call" where
  "cp_arg a c = (case strip_prefix ''--metadata='' a of
       Some m \<Rightarrow> c\<lparr>cc_metadata := Some m\<rparr>
     | None \<Rightarrow> if starts_with a ''--'' then c else c\<lparr>cc_paths := cc_paths c @ [a]\<rparr>)"

fun parse_cp :: "string list \<Rightarrow> cp_call \<Rightarrow> cp_call" where
  "parse_cp [] c = c"
| "parse_cp [a] c = cp_arg a c"
| "parse_cp (a # v # rest) c =
     (if a = ''--expires'' then parse_cp rest (c\<lparr>cc_expires := Some v\<rparr>)
      else if a = ''--access'' then parse_cp rest (c\<lparr>cc_access := Some v\<rparr>)
      else parse_cp (v # rest) (cp_arg a c))"

definition no_call :: cp_call where
  "no_call = \<lparr>cc_metadata = None, cc_expires = None, cc_access = None, cc_paths = []\<rparr>"

text \<open>From standard input to a url, or from a url to a file; \<open>keep\<close> is applied to the bytes that arrive.\<close>

definition cp_effect :: "cp_call \<Rightarrow> string \<Rightarrow> (string \<Rightarrow> string) \<Rightarrow> rw_world \<Rightarrow> pg_error + rw_world" where
  "cp_effect c stdin keep w = (case cc_paths c of
       [src, dst] \<Rightarrow>
         if src = ''-'' then Inr (w\<lparr>rw_storj := (rw_storj w)(dst \<mapsto>
           \<lparr>sc_data = keep stdin, sc_metadata = cc_metadata c, sc_expires = cc_expires c\<rparr>)\<rparr>)
         else (case rw_storj w src of
             None \<Rightarrow> Inl (PgError (''object not found: '' @ src))
           | Some o1 \<Rightarrow> Inr (write_s3_file dst (keep (sc_data o1)) w))
     | _ \<Rightarrow> Inl (PgError ''usage: uplink cp SOURCE DESTINATION''))"

definition run_cp :: "raw_env \<Rightarrow> string list \<Rightarrow> string \<Rightarrow> (pg_error, unit) rw" where
  "run_cp env args stdin = (\<lambda>(p, w). let c = parse_cp (tl args) no_call in case p of
       Some e # p' \<Rightarrow> (Inl e, p', case re_cut env e of
           None \<Rightarrow> w
         | Some n \<Rightarrow> (case cp_effect c stdin (take n) w of Inl _ \<Rightarrow> w | Inr w' \<Rightarrow> w'))
     | _ \<Rightarrow> (case cp_effect c stdin (\<lambda>x. x) w of
           Inl e \<Rightarrow> (Inl e, tl p, w) | Inr w' \<Rightarrow> (Inr (), tl p, w')))"

definition cp_args :: "string list \<Rightarrow> string \<Rightarrow> string \<Rightarrow> string \<Rightarrow> string list" where
  "cp_args extra grant src dst = [''cp'', ''--interactive=false'', ''--analytics=false'', ''--progress=false''] @
     extra @ [''--access'', grant, src, dst]"

definition storj_side :: "raw_env \<Rightarrow> bool \<Rightarrow> string \<times> string" where
  "storj_side env is_nsfw = (if is_nsfw then (re_nsfw_bucket env, re_nsfw_grant env)
     else (re_sfw_bucket env, re_sfw_grant env))"

definition object_key :: "string \<Rightarrow> string \<Rightarrow> string \<Rightarrow> string" where
  "object_key user video ext = user @ ''/'' @ video @ ext"

definition storj_url :: "string \<Rightarrow> string \<Rightarrow> string" where
  "storj_url bucket key = ''sj://'' @ bucket @ ''/'' @ key"

section \<open>Uploads\<close>

text \<open>\<open>try_join!\<close>: the uploads run side by side and end in some order; the first error is the result. An upload that is
  cut off by the error of another is one that fails.\<close>

definition in_order :: "(nat list \<Rightarrow> nat list) \<Rightarrow> 'a list \<Rightarrow> 'a list" where
  "in_order order xs = map ((!) xs) (completed order [0..<length xs])"

fun run_all :: "('d, 'e, unit) proc list \<Rightarrow> 'e option \<Rightarrow> ('d, 'e, unit) proc" where
  "run_all [] err = (case err of None \<Rightarrow> ret () | Some e \<Rightarrow> raise e)"
| "run_all (m # ms) err = bnd (attempt m) (\<lambda>r. run_all ms (case (err, r) of (None, Inl e) \<Rightarrow> Some e | _ \<Rightarrow> err))"

definition try_join :: "raw_env \<Rightarrow> ('d, 'e, unit) proc list \<Rightarrow> ('d, 'e, unit) proc" where
  "try_join env ms = run_all (in_order (re_order env) ms) None"

definition io :: "(pg_error, 'a) rw \<Rightarrow> (raw_error, 'a) rw" where
  "io m = map_err (\<lambda>e. EIo (error_text e)) m"

definition as_s3 :: "(pg_error, 'a) rw \<Rightarrow> (raw_error, 'a) rw" where
  "as_s3 m = map_err (\<lambda>e. ES3 (error_text e)) m"

definition metadata_arg :: "raw_env \<Rightarrow> (string \<times> string) list \<Rightarrow> string" where
  "metadata_arg env metadata = ''--metadata='' @ re_json env metadata"

definition upload_to_storj :: "raw_env \<Rightarrow> string \<Rightarrow> string \<Rightarrow> (string \<times> string) list \<Rightarrow> string \<Rightarrow> bool \<Rightarrow> (raw_error, unit) rw" where
  "upload_to_storj env user video metadata data is_nsfw = (case storj_side env is_nsfw of (bucket, grant) \<Rightarrow>
     io (run_cp env (cp_args [metadata_arg env metadata] grant ''-''
       (storj_url bucket (object_key user video ''.mp4''))) data))"

definition upload_to_storj_with_ttl :: "raw_env \<Rightarrow> string \<Rightarrow> string \<Rightarrow> (string \<times> string) list \<Rightarrow> string \<Rightarrow> string \<Rightarrow> bool \<Rightarrow>
    (raw_error, unit) rw" where
  "upload_to_storj_with_ttl env user video metadata data expires is_nsfw = (case storj_side env is_nsfw of (bucket, grant) \<Rightarrow>
     io (run_cp env (cp_args [metadata_arg env metadata, ''--expires'', expires] grant ''-''
       (storj_url bucket (object_key user video ''.mp4''))) data))"

text \<open>A thumbnail goes to both of its names; both uploads are waited for before an error is looked at.\<close>

definition both_thumbnails :: "(string \<Rightarrow> ('d, 'e, unit) proc) \<Rightarrow> ('d, 'e, unit) proc" where
  "both_thumbnails up = bnd (attempt (up ''_thumbnail.png'')) (\<lambda>under. bnd (attempt (up ''-thumbnail.png'')) (\<lambda>dash.
     case under of Inl e \<Rightarrow> raise e | Inr _ \<Rightarrow> (case dash of Inl e \<Rightarrow> raise e | Inr _ \<Rightarrow> ret ())))"

definition upload_thumbnail_to_storj :: "raw_env \<Rightarrow> string \<Rightarrow> string \<Rightarrow> string \<Rightarrow> bool \<Rightarrow> (raw_error, unit) rw" where
  "upload_thumbnail_to_storj env user video data is_nsfw = (case storj_side env is_nsfw of (bucket, grant) \<Rightarrow>
     both_thumbnails (\<lambda>ext. io (run_cp env (cp_args [] grant ''-'' (storj_url bucket (object_key user video ext))) data)))"

definition upload_thumbnail_to_storj_with_ttl :: "raw_env \<Rightarrow> string \<Rightarrow> string \<Rightarrow> string \<Rightarrow> string \<Rightarrow> bool \<Rightarrow> (raw_error, unit) rw" where
  "upload_thumbnail_to_storj_with_ttl env user video data expires is_nsfw = (case storj_side env is_nsfw of (bucket, grant) \<Rightarrow>
     both_thumbnails (\<lambda>ext. io (run_cp env (cp_args [''--expires'', expires] grant ''-''
       (storj_url bucket (object_key user video ext))) data)))"

definition upload_to_s3 :: "string \<Rightarrow> string \<Rightarrow> (string \<times> string) list \<Rightarrow> string \<Rightarrow> (raw_error, unit) rw" where
  "upload_to_s3 user video metadata data = as_s3 (s3_upload_video (object_key user video ''.mp4'') data metadata)"

definition upload_thumbnail_to_s3 :: "string \<Rightarrow> string \<Rightarrow> string \<Rightarrow> (raw_error, unit) rw" where
  "upload_thumbnail_to_s3 user video data =
     both_thumbnails (\<lambda>ext. as_s3 (s3_upload_thumbnail (object_key user video ext) data))"

section \<open>Lemmas\<close>

lemma parse_cp_flags [simp]:
  "parse_cp (tl (cp_args [] g s d)) no_call = parse_cp [s, d] \<lparr>cc_metadata = None, cc_expires = None, cc_access = Some g, cc_paths = []\<rparr>"
  "parse_cp (tl (cp_args [metadata_arg env m] g s d)) no_call =
     parse_cp [s, d] \<lparr>cc_metadata = Some (re_json env m), cc_expires = None, cc_access = Some g, cc_paths = []\<rparr>"
  "parse_cp (tl (cp_args [''--expires'', x] g s d)) no_call =
     parse_cp [s, d] \<lparr>cc_metadata = None, cc_expires = Some x, cc_access = Some g, cc_paths = []\<rparr>"
  "parse_cp (tl (cp_args [metadata_arg env m, ''--expires'', x] g s d)) no_call =
     parse_cp [s, d] \<lparr>cc_metadata = Some (re_json env m), cc_expires = Some x, cc_access = Some g, cc_paths = []\<rparr>"
  by (simp_all add: cp_args_def cp_arg_def no_call_def metadata_arg_def strip_prefix_def starts_with_def)

lemma url_is_path: "cp_arg (storj_url b k) c = c\<lparr>cc_paths := cc_paths c @ [storj_url b k]\<rparr>"
  by (simp add: cp_arg_def storj_url_def strip_prefix_def starts_with_def)

lemma parse_upload:
  "parse_cp [''-'', storj_url b k] c = c\<lparr>cc_paths := cc_paths c @ [''-'', storj_url b k]\<rparr>"
  by (simp add: cp_arg_def storj_url_def strip_prefix_def starts_with_def)

lemma parse_download:
  assumes "take 1 path = ''/''"
  shows "parse_cp [storj_url b k, path] c = c\<lparr>cc_paths := cc_paths c @ [storj_url b k, path]\<rparr>"
proof -
  from assms obtain r where "path = CHR ''/'' # r" by (cases path) auto
  then show ?thesis by (simp add: cp_arg_def storj_url_def strip_prefix_def starts_with_def)
qed

text \<open>Uploads to different buckets have different targets.\<close>

lemma storj_url_bucket:
  assumes "CHR ''/'' \<notin> set a" "CHR ''/'' \<notin> set b" and "storj_url a k = storj_url b k'"
  shows "a = b"
proof -
  have "takeWhile (\<lambda>c. c \<noteq> CHR ''/'') (x @ CHR ''/'' # y) = x" if "CHR ''/'' \<notin> set x" for x y
    using that by (subst takeWhile_append2) auto
  from this [OF assms(1), of k] this [OF assms(2), of k'] show ?thesis
    using assms(3) by (simp add: storj_url_def)
qed

lemma in_order_set [simp]: "set (in_order order xs) = set xs"
  unfolding in_order_def set_map completed_set set_upt using nth_image [of "length xs" xs] by simp

end
