(* ===== verification/Raw_Upload.thy ===== *)
theory Raw_Upload
  imports Raw_Store
begin

text \<open>
  The raw video routes: the staged upload and its finalisation (\<open>routes/duplicate.rs\<close>), HLS files
  (\<open>routes/duplicate_hls.rs\<close>) and the move of a video to the NSFW bucket (\<open>routes/move2nsfw.rs\<close>).
\<close>

section \<open>Upload\<close>

record raw_params =
  rp_user :: string
  rp_video :: string
  rp_nsfw :: bool

definition try_raw :: "'e + 'a \<Rightarrow> ('e, 'a) rw" where
  "try_raw r = (case r of Inl e \<Rightarrow> raise e | Inr x \<Rightarrow> ret x)"

text \<open>The parts of a multipart body as they are read: an error, or a name with its bytes.\<close>

type_synonym multipart = "(string + string option \<times> (string + string)) list"

fun find_file :: "multipart \<Rightarrow> raw_error + string option" where
  "find_file [] = Inr None"
| "find_file (Inl e # parts) = Inl (EIo (''multipart field error: '' @ e))"
| "find_file (Inr (name, bytes) # parts) =
     (if name = Some ''file''
      then (case bytes of Inl e \<Rightarrow> Inl (EIo (''multipart read error: '' @ e)) | Inr b \<Rightarrow> Inr (Some b))
      else find_file parts)"

definition ensure_uploaded_video_faststart :: "raw_env \<Rightarrow> string \<Rightarrow> string" where
  "ensure_uploaded_video_faststart env data = (case ensure_faststart_mp4 (re_remux env) (re_tmp env) data of
       Inl _ \<Rightarrow> data | Inr r \<Rightarrow> fr_data r)"

definition PENDING_UPLOAD_TTL_HOURS :: nat where
  "PENDING_UPLOAD_TTL_HOURS = 1"

definition pending_metadata :: "raw_env \<Rightarrow> (string \<times> string) list" where
  "pending_metadata env = [(''_pending'', ''true''), (''_uploaded_at'', re_now env)]"

definition pending_expiry :: string where
  "pending_expiry = ''+'' @ show_nat PENDING_UPLOAD_TTL_HOURS @ ''h''"

definition staged_uploads :: "raw_env \<Rightarrow> raw_params \<Rightarrow> string \<Rightarrow> string \<Rightarrow> (raw_error, unit) rw list" where
  "staged_uploads env prm data thumb =
     [upload_to_storj_with_ttl env (rp_user prm) (rp_video prm) (pending_metadata env) data pending_expiry (rp_nsfw prm),
      upload_thumbnail_to_storj_with_ttl env (rp_user prm) (rp_video prm) thumb pending_expiry (rp_nsfw prm)] @
     (if rp_nsfw prm then [] else
     [upload_to_s3 (rp_user prm) (rp_video prm) (pending_metadata env) data,
      upload_thumbnail_to_s3 (rp_user prm) (rp_video prm) thumb])"

definition pending_json :: json where
  "pending_json = JObj [(''status'', JStr ''pending''), (''expires_in_hours'', JInt (int PENDING_UPLOAD_TTL_HOURS)),
     (''message'', JStr ''Video uploaded successfully. Call /duplicate_raw/finalize to complete the upload.'')]"

definition handler_raw_upload_initial :: "raw_env \<Rightarrow> raw_params \<Rightarrow> multipart \<Rightarrow> (raw_error, json) rw" where
  "handler_raw_upload_initial env prm parts =
     bnd (try_raw (find_file parts)) (\<lambda>file. case file of
       None \<Rightarrow> raise (EIo ''missing 'file' field in multipart upload'')
     | Some body \<Rightarrow>
         let data = ensure_uploaded_video_faststart env body in
         case extract_thumbnail (re_ffmpeg env) (re_tmp env) data of
           Inl e \<Rightarrow> raise (EIo e)
         | Inr thumb \<Rightarrow> bnd (try_join env (staged_uploads env prm data thumb)) (\<lambda>_. ret pending_json))"

section \<open>Finalisation\<close>

definition max_retries :: nat where
  "max_retries = 3"

text \<open>The attempts of a download: a success ends them, a bad status is remembered, a process that cannot be run ends the
  request.\<close>

fun download_attempts :: "raw_env \<Rightarrow> string list \<Rightarrow> nat \<Rightarrow> string \<Rightarrow> (raw_error, string) rw" where
  "download_attempts env args 0 last_error = ret last_error"
| "download_attempts env args (Suc n) last_error = bnd (attempt (run_cp env args [])) (\<lambda>r. case r of
       Inr _ \<Rightarrow> ret last_error
     | Inl e \<Rightarrow> if re_spawn env e then raise (EIo (error_text e)) else download_attempts env args n (error_text e))"

definition file_exists :: "string \<Rightarrow> (raw_error, bool) rw" where
  "file_exists path = bnd (attempt (query (\<lambda>w. s3_files w path \<noteq> None))) (\<lambda>r. case r of
       Inl (PgError _) \<Rightarrow> ret False | Inr b \<Rightarrow> ret b)"

definition download_or_fail :: "raw_env \<Rightarrow> string \<Rightarrow> string \<Rightarrow> string \<Rightarrow> string \<Rightarrow> (raw_error, unit) rw" where
  "download_or_fail env grant src path what =
     bnd (download_attempts env (cp_args [] grant src path) max_retries []) (\<lambda>last_error.
     bnd (file_exists path) (\<lambda>ok. if ok then ret ()
       else raise (EIo (''Failed to download '' @ what @ '' from Storj after '' @ show_nat max_retries @
         '' retries. Last error: '' @ last_error))))"

definition read_file :: "string \<Rightarrow> (raw_error, string) rw" where
  "read_file path = io (stmt (\<lambda>w. case s3_files w path of
       None \<Rightarrow> Inl (PgError ''No such file or directory'') | Some c \<Rightarrow> Inr (c, w)))"

definition remove_file :: "string \<Rightarrow> (raw_error, unit) rw" where
  "remove_file path = bnd (attempt (exec (\<lambda>w. w\<lparr>s3_files := (s3_files w)(path := None)\<rparr>))) (\<lambda>r. case r of
       Inl (PgError _) \<Rightarrow> ret () | Inr _ \<Rightarrow> ret ())"

definition temp_video_file :: "raw_params \<Rightarrow> string" where
  "temp_video_file prm = ''/tmp/storj-finalize-'' @ rp_user prm @ ''-'' @ rp_video prm @ ''.mp4''"

definition temp_thumbnail_file :: "raw_params \<Rightarrow> string" where
  "temp_thumbnail_file prm = ''/tmp/storj-finalize-'' @ rp_user prm @ ''-'' @ rp_video prm @ ''_thumbnail.png''"

definition final_uploads :: "raw_env \<Rightarrow> raw_params \<Rightarrow> (string \<times> string) list \<Rightarrow> string \<Rightarrow> string \<Rightarrow> (raw_error, unit) rw list" where
  "final_uploads env prm metadata data thumb =
     [upload_to_storj env (rp_user prm) (rp_video prm) metadata data (rp_nsfw prm),
      upload_thumbnail_to_storj env (rp_user prm) (rp_video prm) thumb (rp_nsfw prm)] @
     (if rp_nsfw prm then [] else
     [upload_to_s3 (rp_user prm) (rp_video prm) metadata data,
      upload_thumbnail_to_s3 (rp_user prm) (rp_video prm) thumb])"

definition completed_json :: json where
  "completed_json = JObj [(''status'', JStr ''completed''),
     (''message'', JStr ''Video finalized successfully with metadata.'')]"

definition handler_raw_finalize :: "raw_env \<Rightarrow> raw_params \<Rightarrow> (string \<times> string) list \<Rightarrow> (raw_error, json) rw" where
  "handler_raw_finalize env prm metadata = (case storj_side env (rp_nsfw prm) of (bucket, grant) \<Rightarrow>
     bnd (download_or_fail env grant (storj_url bucket (object_key (rp_user prm) (rp_video prm) ''.mp4''))
        (temp_video_file prm) ''video'') (\<lambda>_.
     bnd (download_or_fail env grant (storj_url bucket (object_key (rp_user prm) (rp_video prm) ''_thumbnail.png''))
        (temp_thumbnail_file prm) ''thumbnail'') (\<lambda>_.
     bnd (read_file (temp_video_file prm)) (\<lambda>data.
     bnd (read_file (temp_thumbnail_file prm)) (\<lambda>thumb.
     bnd (try_join env (final_uploads env prm metadata data thumb)) (\<lambda>_.
     bnd (remove_file (temp_video_file prm)) (\<lambda>_.
     bnd (remove_file (temp_thumbnail_file prm)) (\<lambda>_.
     ret completed_json))))))))"

section \<open>HLS files\<close>

record hls_params =
  hp_video :: string
  hp_nsfw :: bool
  hp_file :: string
  hp_metadata :: "(string \<times> string) list"

definition hls_key :: "hls_params \<Rightarrow> string" where
  "hls_key h = hp_video h @ ''/hls/'' @ hp_file h"

definition upload_hls_to_storj :: "raw_env \<Rightarrow> hls_params \<Rightarrow> string \<Rightarrow> (raw_error, unit) rw" where
  "upload_hls_to_storj env h data = (case storj_side env (hp_nsfw h) of (bucket, grant) \<Rightarrow>
     io (run_cp env (cp_args [metadata_arg env (hp_metadata h)] grant ''-'' (storj_url bucket (hls_key h))) data))"

definition upload_hls_to_s3 :: "hls_params \<Rightarrow> string \<Rightarrow> (raw_error, unit) rw" where
  "upload_hls_to_s3 h data = as_s3 (s3_upload_hls_segment (hls_key h) data (hp_metadata h))"

definition hls_handler :: "raw_env \<Rightarrow> hls_params \<Rightarrow> string + string \<Rightarrow> (raw_error, unit) rw" where
  "hls_handler env h body = (case body of
       Inl e \<Rightarrow> raise (EHyper e)
     | Inr data \<Rightarrow> try_join env (upload_hls_to_storj env h data #
         (if hp_nsfw h then [] else [upload_hls_to_s3 h data])))"

section \<open>The move to NSFW\<close>

definition message_json :: "string \<Rightarrow> json" where
  "message_json m = JObj [(''message'', JStr m)]"

definition nsfw_upload :: "raw_env \<Rightarrow> string \<Rightarrow> string \<Rightarrow> (pg_error, unit) rw" where
  "nsfw_upload env key data =
     run_cp env (cp_args [] (re_nsfw_grant env) ''-'' (storj_url (re_nsfw_bucket env) key)) data"

text \<open>A thumbnail upload that ends with a bad status is passed over.\<close>

definition nsfw_thumbnail :: "raw_env \<Rightarrow> string \<Rightarrow> string \<Rightarrow> (raw_error, unit) rw" where
  "nsfw_thumbnail env key data = bnd (attempt (nsfw_upload env key data)) (\<lambda>r. case r of
       Inl e \<Rightarrow> if re_spawn env e then raise (EIo (error_text e)) else ret () | Inr _ \<Rightarrow> ret ())"

definition move_to_nsfw :: "raw_env \<Rightarrow> string \<Rightarrow> string \<Rightarrow> (raw_error, nat \<times> json) rw" where
  "move_to_nsfw env user video =
     bnd (as_s3 (s3_download_video (object_key user video ''.mp4''))) (\<lambda>data.
     bnd (attempt (s3_download_thumbnail (object_key user video ''_thumbnail.png''))) (\<lambda>thumb.
     bnd (attempt (nsfw_upload env (object_key user video ''.mp4'') data)) (\<lambda>r. case r of
       Inl e \<Rightarrow> if re_spawn env e then raise (EIo (error_text e))
         else ret (500, message_json ''Failed to upload video to Storj NSFW bucket. Check server logs.'')
     | Inr _ \<Rightarrow>
         bnd (case thumb of
             Inl (PgError _) \<Rightarrow> ret ()
           | Inr t \<Rightarrow> bnd (nsfw_thumbnail env (object_key user video ''_thumbnail.png'') t) (\<lambda>_.
               nsfw_thumbnail env (object_key user video ''-thumbnail.png'') t)) (\<lambda>_.
         bnd (as_s3 (s3_delete_video (object_key user video ''.mp4''))) (\<lambda>_.
         bnd (case thumb of
             Inl (PgError _) \<Rightarrow> ret ()
           | Inr _ \<Rightarrow> bnd (attempt (s3_delete_thumbnail (object_key user video ''_thumbnail.png''))) (\<lambda>d. case d of
               Inl (PgError _) \<Rightarrow> ret () | Inr _ \<Rightarrow> ret ())) (\<lambda>_.
         ret (200, message_json ''moved'')))))))"

end
