(* ===== verification/Raw_Props.thy ===== *)
theory Raw_Props
  imports Raw_Upload
begin

text \<open>
  The properties of the raw video routes: NSFW content stays out of the public stores, a finalisation that reports
  success has published the staged bytes, the stale files that break this when a temporary file is left over, and what
  the move to the NSFW bucket keeps and leaves behind.
\<close>

section \<open>Calls of uplink\<close>

definition put_storj :: "string \<Rightarrow> storj_copy option \<Rightarrow> rw_world \<Rightarrow> rw_world" where
  "put_storj url c w = w\<lparr>rw_storj := (rw_storj w)(url := c)\<rparr>"

lemma put_storj_simps [simp]:
  "rw_storj (put_storj url c w) = (rw_storj w)(url := c)" "s3_objects (put_storj url c w) = s3_objects w"
  "s3_files (put_storj url c w) = s3_files w" "s3_at (put_storj url c w) k = s3_at w k"
  by (simp_all add: put_storj_def s3_at_def)

lemma put_s3_simps [simp]:
  "rw_storj (put_s3 k d t m w) = rw_storj w" "s3_files (put_s3 k d t m w) = s3_files w"
  "rw_storj (delete_s3 k w) = rw_storj w" "s3_files (delete_s3 k w) = s3_files w"
  "rw_storj (write_s3_file p c w) = rw_storj w" "s3_objects (write_s3_file p c w) = s3_objects w"
  "s3_at (write_s3_file p c w) k = s3_at w k" "s3_files (write_s3_file p c w) = (s3_files w)(p \<mapsto> c)"
  by (simp_all add: put_s3_def delete_s3_def write_s3_file_def s3_at_def)

lemma bnd_Inr:
  assumes "bnd m k s = (Inr x, t)"
  obtains y p1 w1 where "m s = (Inr y, p1, w1)" "k y (p1, w1) = (Inr x, t)"
  using assms by (auto simp: bnd_def split: prod.splits sum.splits)

text \<open>An upload stores the whole object, or fails and leaves nothing or a part at its own url.\<close>

lemma cp_upload_cases:
  assumes "parse_cp (tl args) no_call = c" and "cc_paths c = [''-'', url]"
  obtains q where "run_cp env args data (p, w) = (Inr (), q,
      put_storj url (Some \<lparr>sc_data = data, sc_metadata = cc_metadata c, sc_expires = cc_expires c\<rparr>) w)"
  | e q d where "run_cp env args data (p, w) = (Inl e, q, put_storj url d w)"
proof (cases p rule: fault_cases)
  case over
  show thesis by (rule that(1) [of "[]"]) (simp add: run_cp_def cp_effect_def assms over put_storj_def)
next
  case (runs p')
  show thesis by (rule that(1) [of p']) (simp add: run_cp_def cp_effect_def assms runs put_storj_def)
next
  case (fails e p')
  show thesis
  proof (cases "re_cut env e")
    case None
    show thesis
      by (rule that(2) [of e p' "rw_storj w url"]) (simp add: run_cp_def fails None put_storj_def)
  next
    case (Some n)
    show thesis
      by (rule that(2) [of e p' "Some \<lparr>sc_data = take n data, sc_metadata = cc_metadata c, sc_expires = cc_expires c\<rparr>"])
        (simp add: run_cp_def cp_effect_def fails Some assms put_storj_def)
  qed
qed

lemma pres_cp_upload:
  assumes "parse_cp (tl args) no_call = c" "cc_paths c = [''-'', url]" and "\<And>w d. I w \<Longrightarrow> I (put_storj url d w)"
  shows "preserves I (run_cp env args data)"
proof (rule preservesI)
  fix p w r q w'
  assume "I w" "run_cp env args data (p, w) = (r, q, w')"
  then show "I w'" using assms(3) by (cases rule: cp_upload_cases [OF assms(1,2), of env data p w]) auto
qed

text \<open>The upload of an object by its arguments.\<close>

lemma parse_uploads:
  "cc_paths (parse_cp (tl (cp_args [] g ''-'' (storj_url b k))) no_call) = [''-'', storj_url b k]"
  "cc_paths (parse_cp (tl (cp_args [metadata_arg env m] g ''-'' (storj_url b k))) no_call) = [''-'', storj_url b k]"
  "cc_paths (parse_cp (tl (cp_args [''--expires'', x] g ''-'' (storj_url b k))) no_call) = [''-'', storj_url b k]"
  "cc_paths (parse_cp (tl (cp_args [metadata_arg env m, ''--expires'', x] g ''-'' (storj_url b k))) no_call) =
     [''-'', storj_url b k]"
  by (simp_all only: parse_cp_flags parse_upload cp_call.simps) simp_all

section \<open>Invariants of the uploads\<close>

lemma pres_retry [pres]: "preserves I m \<Longrightarrow> preserves I (retry_s3_op n m)"
  by (induction n) (auto intro!: pres split: sum.split)

lemma pres_io [pres]: "preserves I m \<Longrightarrow> preserves I (io m)" "preserves I m \<Longrightarrow> preserves I (as_s3 m)"
  by (auto simp: io_def as_s3_def intro!: pres)

lemma pres_run_all:
  "(\<And>m. m \<in> set ms \<Longrightarrow> preserves I m) \<Longrightarrow> preserves I (run_all ms err)"
  by (induction ms arbitrary: err) (auto intro!: pres split: option.split)

lemma pres_try_join [pres]: "(\<And>m. m \<in> set ms \<Longrightarrow> preserves I m) \<Longrightarrow> preserves I (try_join env ms)"
  unfolding try_join_def by (rule pres_run_all) simp

lemma pres_both_thumbnails [pres]:
  "preserves I (up ''_thumbnail.png'') \<Longrightarrow> preserves I (up ''-thumbnail.png'') \<Longrightarrow> preserves I (both_thumbnails up)"
  unfolding both_thumbnails_def by (auto intro!: pres split: sum.split)

text \<open>An invariant that survives every change at the urls of one side under one kind of key survives the uploads to that
  side.\<close>

definition url_of :: "raw_env \<Rightarrow> bool \<Rightarrow> string \<Rightarrow> string" where
  "url_of env is_nsfw key = storj_url (fst (storj_side env is_nsfw)) key"

definition thumbnail_exts :: "string set" where
  "thumbnail_exts = {''_thumbnail.png'', ''-thumbnail.png''}"

lemma pres_video_storj:
  assumes "\<And>w d. I w \<Longrightarrow> I (put_storj (url_of env n (object_key user video ''.mp4'')) d w)"
  shows "preserves I (upload_to_storj env user video md data n)"
    and "preserves I (upload_to_storj_with_ttl env user video md data x n)"
  using assms unfolding upload_to_storj_def upload_to_storj_with_ttl_def url_of_def
  by (auto intro!: pres pres_cp_upload [OF refl parse_uploads(2)] pres_cp_upload [OF refl parse_uploads(4)] split: prod.split)

lemma pres_thumbnail_storj:
  assumes "\<And>w d ext. ext \<in> thumbnail_exts \<Longrightarrow> I w \<Longrightarrow> I (put_storj (url_of env n (object_key user video ext)) d w)"
  shows "preserves I (upload_thumbnail_to_storj env user video thumb n)"
    and "preserves I (upload_thumbnail_to_storj_with_ttl env user video thumb x n)"
  using assms unfolding upload_thumbnail_to_storj_def upload_thumbnail_to_storj_with_ttl_def url_of_def thumbnail_exts_def
  by (auto intro!: pres pres_cp_upload [OF refl parse_uploads(1)] pres_cp_upload [OF refl parse_uploads(3)] split: prod.split)

lemma pres_video_s3:
  assumes "\<And>w d t m. I w \<Longrightarrow> I (put_s3 (object_key user video ''.mp4'') d t m w)"
  shows "preserves I (upload_to_s3 user video md data)"
  using assms unfolding upload_to_s3_def s3_upload_video_def retrying_def by (auto intro!: pres pres_exec)

lemma pres_thumbnail_s3:
  assumes "\<And>w d t m ext. ext \<in> thumbnail_exts \<Longrightarrow> I w \<Longrightarrow> I (put_s3 (object_key user video ext) d t m w)"
  shows "preserves I (upload_thumbnail_to_s3 user video thumb)"
  using assms unfolding upload_thumbnail_to_s3_def s3_upload_thumbnail_def retrying_def thumbnail_exts_def
  by (auto intro!: pres pres_exec)

lemmas pres_uploads = pres_video_storj pres_thumbnail_storj pres_video_s3 pres_thumbnail_s3

text \<open>A download writes its file only.\<close>

lemma pres_download:
  assumes "take 1 path = ''/''" and "\<And>w c. I w \<Longrightarrow> I (write_s3_file path c w)"
  shows "preserves I (run_cp env (cp_args [] g (storj_url b k) path) stdin)"
proof -
  have src: "storj_url b k \<noteq> ''-''" by (simp add: storj_url_def)
  have c: "parse_cp (tl (cp_args [] g (storj_url b k) path)) no_call =
      \<lparr>cc_metadata = None, cc_expires = None, cc_access = Some g, cc_paths = [storj_url b k, path]\<rparr>"
    by (simp only: parse_cp_flags(1) parse_download [OF assms(1)]) simp
  show ?thesis
    unfolding preserves_def run_cp_def c Let_def
    by (auto simp: cp_effect_def src split: list.splits option.splits sum.splits intro: assms(2))
qed

lemma pres_attempts:
  "preserves I (run_cp env args []) \<Longrightarrow> preserves I (download_attempts env args n last_error)"
  by (induction n arbitrary: last_error) (auto intro!: pres split: sum.split)

lemma pres_files [pres]: "preserves I (file_exists path)" "preserves I (read_file path)"
  unfolding file_exists_def read_file_def
  by (auto intro!: pres pres_stmt split: sum.split pg_error.split option.splits)

lemma pres_remove:
  "(\<And>w. I w \<Longrightarrow> I (w\<lparr>s3_files := (s3_files w)(path := None)\<rparr>)) \<Longrightarrow> preserves I (remove_file path)"
  unfolding remove_file_def by (auto intro!: pres pres_exec split: sum.split pg_error.split)

lemma pres_download_or_fail:
  assumes "take 1 path = ''/''" and "\<And>w c. I w \<Longrightarrow> I (write_s3_file path c w)"
  shows "preserves I (download_or_fail env g (storj_url b k) path what)"
  unfolding download_or_fail_def by (auto intro!: pres pres_attempts pres_download assms)

lemma temp_paths [simp]: "take (Suc 0) (temp_video_file prm) = ''/''" "take (Suc 0) (temp_thumbnail_file prm) = ''/''"
  by (simp_all add: temp_video_file_def temp_thumbnail_file_def)

lemma pres_finalize:
  assumes storj: "\<And>w d ext. I w \<Longrightarrow> I (put_storj (url_of env (rp_nsfw prm) (object_key (rp_user prm) (rp_video prm) ext)) d w)"
    and s3: "\<not> rp_nsfw prm \<Longrightarrow> \<forall>w d t m ext. I w \<longrightarrow> I (put_s3 (object_key (rp_user prm) (rp_video prm) ext) d t m w)"
    and files: "\<And>w fs. I w \<Longrightarrow> I (w\<lparr>s3_files := fs\<rparr>)"
  shows "preserves I (handler_raw_finalize env prm md)"
proof -
  have up: "preserves I (try_join env (final_uploads env prm md data thumb))" for data thumb
    using storj s3 by (intro pres) (auto simp: final_uploads_def split: if_splits intro!: pres_uploads)
  have wr: "I w \<Longrightarrow> I (write_s3_file path c w)" for w path c using files by (simp add: write_s3_file_def)
  show ?thesis
    unfolding handler_raw_finalize_def
    by (auto intro!: up pres pres_download_or_fail pres_remove wr files split: prod.split)
qed

lemma pres_initial:
  assumes storj: "\<And>w d ext. I w \<Longrightarrow> I (put_storj (url_of env (rp_nsfw prm) (object_key (rp_user prm) (rp_video prm) ext)) d w)"
    and s3: "\<not> rp_nsfw prm \<Longrightarrow> \<forall>w d t m ext. I w \<longrightarrow> I (put_s3 (object_key (rp_user prm) (rp_video prm) ext) d t m w)"
  shows "preserves I (handler_raw_upload_initial env prm parts)"
proof -
  have up: "preserves I (try_join env (staged_uploads env prm data thumb))" for data thumb
    using storj s3 by (intro pres) (auto simp: staged_uploads_def split: if_splits intro!: pres_uploads)
  show ?thesis
    unfolding handler_raw_upload_initial_def try_raw_def Let_def
    by (auto intro!: up pres split: sum.split option.split)
qed

lemma pres_hls:
  assumes storj: "\<And>w d. I w \<Longrightarrow> I (put_storj (url_of env (hp_nsfw h) (hls_key h)) d w)"
    and s3: "\<not> hp_nsfw h \<Longrightarrow> \<forall>w d t m. I w \<longrightarrow> I (put_s3 (hls_key h) d t m w)"
  shows "preserves I (hls_handler env h body)"
proof -
  have "preserves I (upload_hls_to_storj env h data)" for data
    using storj unfolding upload_hls_to_storj_def url_of_def
    by (auto intro!: pres pres_cp_upload [OF refl parse_uploads(2)] split: prod.split)
  moreover have "preserves I (upload_hls_to_s3 h data)" if "\<not> hp_nsfw h" for data
    using s3 [OF that] unfolding upload_hls_to_s3_def s3_upload_hls_segment_def retrying_def
    by (auto intro!: pres pres_exec)
  ultimately show ?thesis unfolding hls_handler_def by (auto intro!: pres split: sum.split if_splits)
qed

section \<open>NSFW content stays private\<close>

definition public_unchanged :: "raw_env \<Rightarrow> rw_world \<Rightarrow> rw_world \<Rightarrow> bool" where
  "public_unchanged env w w' \<longleftrightarrow> s3_objects w' = s3_objects w \<and>
     (\<forall>key. rw_storj w' (storj_url (re_sfw_bucket env) key) = rw_storj w (storj_url (re_sfw_bucket env) key))"

definition buckets_apart :: "raw_env \<Rightarrow> bool" where
  "buckets_apart env \<longleftrightarrow> CHR ''/'' \<notin> set (re_sfw_bucket env) \<and> CHR ''/'' \<notin> set (re_nsfw_bucket env) \<and>
     re_sfw_bucket env \<noteq> re_nsfw_bucket env"

lemma nsfw_url_apart:
  "buckets_apart env \<Longrightarrow> storj_url (re_sfw_bucket env) k \<noteq> storj_url (re_nsfw_bucket env) k'"
  using storj_url_bucket unfolding buckets_apart_def by metis

lemma public_put:
  "buckets_apart env \<Longrightarrow> public_unchanged env w v \<Longrightarrow> public_unchanged env w (put_storj (url_of env True k) d v)"
  using nsfw_url_apart by (simp add: public_unchanged_def url_of_def storj_side_def)

text \<open>C28. Whatever fails, in whatever order the uploads end and whatever the identifiers contain, the upload, the
  finalisation and the HLS upload of an NSFW video leave the S3 bucket and every object of the public Storj bucket as
  they are.\<close>

theorem nsfw_upload_stays_private:
  assumes "buckets_apart env" and "rp_nsfw prm" and "hp_nsfw h"
  shows "public_unchanged env w (db_after (handler_raw_upload_initial env prm parts) (p, w)) \<and>
     public_unchanged env w (db_after (handler_raw_finalize env prm md) (p, w)) \<and>
     public_unchanged env w (db_after (hls_handler env h body) (p, w))"
proof -
  have refl: "public_unchanged env w w" by (simp add: public_unchanged_def)
  note put = public_put [OF assms(1)]
  have initial: "preserves (public_unchanged env w) (handler_raw_upload_initial env prm parts)"
    by (rule pres_initial) (use assms put in auto)
  have final: "preserves (public_unchanged env w) (handler_raw_finalize env prm md)"
    by (rule pres_finalize) (use assms put in \<open>auto simp: public_unchanged_def\<close>)
  have hls: "preserves (public_unchanged env w) (hls_handler env h body)"
    by (rule pres_hls) (use assms put in auto)
  show ?thesis
    using preservesD [OF initial refl] preservesD [OF final refl] preservesD [OF hls refl] by blast
qed

section \<open>A world for the witnesses\<close>

text \<open>Two videos of different users with the same temporary files, and a staged upload of the second.\<close>

definition demo_env :: raw_env where
  "demo_env = \<lparr>re_sfw_bucket = ''sfw'', re_sfw_grant = ''g'', re_nsfw_bucket = ''nsfw'', re_nsfw_grant = ''h'',
     re_cut = (\<lambda>_. None), re_spawn = (\<lambda>_. False), re_json = (\<lambda>_. ''{}''), re_now = ''now'',
     re_ffmpeg = (\<lambda>_ _. Inr (True, Some ''png'')), re_remux = (\<lambda>_ _. Inl ''ffmpeg''), re_tmp = ''/tmp/x'', re_order = rev\<rparr>"

definition demo_prm :: "string \<Rightarrow> string \<Rightarrow> raw_params" where
  "demo_prm user video = \<lparr>rp_user = user, rp_video = video, rp_nsfw = False\<rparr>"

definition demo_world :: "(string \<rightharpoonup> string) \<Rightarrow> rw_world" where
  "demo_world files = \<lparr>s3_objects = [], s3_files = files, s3_now = 0, rw_storj = [
     ''sj://sfw/a/b-c.mp4'' \<mapsto> \<lparr>sc_data = ''video'', sc_metadata = None, sc_expires = Some ''+1h''\<rparr>,
     ''sj://sfw/a/b-c_thumbnail.png'' \<mapsto> \<lparr>sc_data = ''png'', sc_metadata = None, sc_expires = Some ''+1h''\<rparr>]\<rparr>"

theorem nsfw_upload_stays_private_witness:
  "public_unchanged demo_env (demo_world (\<lambda>_. None)) (db_after (handler_raw_finalize demo_env
     \<lparr>rp_user = ''a'', rp_video = ''b'', rp_nsfw = True\<rparr> []) ([Some (PgError ''down'')], demo_world (\<lambda>_. None)))"
  using nsfw_upload_stays_private [where env = demo_env and prm = "\<lparr>rp_user = ''a'', rp_video = ''b'', rp_nsfw = True\<rparr>"
      and h = "\<lparr>hp_video = ''b'', hp_nsfw = True, hp_file = ''f'', hp_metadata = []\<rparr>" and w = "demo_world (\<lambda>_. None)"
      and p = "[Some (PgError ''down'')]"]
  by (simp add: buckets_apart_def demo_env_def)

section \<open>What a successful finalisation has published\<close>

definition achieves :: "('d \<Rightarrow> bool) \<Rightarrow> ('d, 'e, 'a) proc \<Rightarrow> bool" where
  "achieves Q m \<longleftrightarrow> (\<forall>p w x q w'. m (p, w) = (Inr x, q, w') \<longrightarrow> Q w')"

lemma achievesD: "achieves Q m \<Longrightarrow> m (p, w) = (Inr x, q, w') \<Longrightarrow> Q w'"
  unfolding achieves_def by blast

text \<open>Uploads with different targets: in whatever order they end, success means that each of them is in place.\<close>

lemma run_all_achieves:
  assumes "\<And>i. i \<in> set js \<Longrightarrow> achieves (Q i) (m i)"
    and "\<And>i j. i \<in> S \<union> set js \<Longrightarrow> j \<in> set js \<Longrightarrow> i \<noteq> j \<Longrightarrow> preserves (Q i) (m j)"
    and "distinct js" "S \<inter> set js = {}" "\<forall>i \<in> S. Q i w"
    and "run_all (map m js) err (p, w) = (Inr (), q, w')"
  shows "err = None \<and> (\<forall>i \<in> S \<union> set js. Q i w')"
  using assms
proof (induction js arbitrary: S err p w)
  case Nil
  then show ?case by (auto split: option.splits)
next
  case (Cons j js)
  obtain r p1 w1 where step: "m j (p, w) = (r, p1, w1)" by (metis prod_cases3)
  let ?err = "case (err, r) of (None, Inl e) \<Rightarrow> Some e | _ \<Rightarrow> err"
  have rest: "run_all (map m js) ?err (p1, w1) = (Inr (), q, w')"
    using Cons.prems(6) step by (simp add: bnd_def attempt_def)
  have old: "Q i w1" if "i \<in> S" for i
    using preserves_run [OF Cons.prems(2) step, of i] Cons.prems(4,5) that by auto
  show ?case
  proof (cases r)
    case (Inl e)
    have "?err = None \<and> (\<forall>i \<in> S \<union> set js. Q i w')"
      by (rule Cons.IH [OF _ _ _ _ _ rest]) (use Cons.prems old in auto)
    then show ?thesis using Inl by (cases err) auto
  next
    case (Inr x)
    have "Q j w1" using achievesD [OF Cons.prems(1) step [unfolded Inr]] by simp
    then have "?err = None \<and> (\<forall>i \<in> insert j S \<union> set js. Q i w')"
      by (intro Cons.IH [OF _ _ _ _ _ rest]) (use Cons.prems old in auto)
    then show ?thesis using Inr by (cases err) auto
  qed
qed

lemma try_join_achieves:
  assumes "length Qs = length ms" and "\<And>i. i < length ms \<Longrightarrow> achieves (Qs ! i) (ms ! i)"
    and "\<And>i j. i < length ms \<Longrightarrow> j < length ms \<Longrightarrow> i \<noteq> j \<Longrightarrow> preserves (Qs ! i) (ms ! j)"
    and "try_join env ms (p, w) = (Inr (), q, w')"
  shows "\<forall>Q \<in> set Qs. Q w'"
proof -
  let ?js = "completed (re_order env) [0..<length ms]"
  have "distinct ?js" using completed_distinct [of "\<lambda>x. x" "re_order env" "[0..<length ms]"] by simp
  then have "None = (None :: 'b option) \<and> (\<forall>i \<in> {} \<union> set ?js. (Qs ! i) w')"
    using assms by (intro run_all_achieves [where m = "(!) ms" and Q = "\<lambda>i. Qs ! i" and p = p and w = w and q = q])
      (auto simp: try_join_def in_order_def)
  then show ?thesis using assms(1) by (auto simp: in_set_conv_nth)
qed

fun apart :: "('d \<Rightarrow> bool) list \<Rightarrow> ('d, 'e, 'a) proc list \<Rightarrow> bool" where
  "apart (Q # Qs) (m # ms) \<longleftrightarrow> (\<forall>m' \<in> set ms. preserves Q m') \<and> (\<forall>Q' \<in> set Qs. preserves Q' m) \<and> apart Qs ms"
| "apart [] [] \<longleftrightarrow> True"
| "apart _ _ \<longleftrightarrow> False"

lemma apart_length: "apart Qs ms \<Longrightarrow> length Qs = length ms"
  by (induction Qs ms rule: apart.induct) auto

lemma apart_nth:
  "apart Qs ms \<Longrightarrow> i < length ms \<Longrightarrow> j < length ms \<Longrightarrow> i \<noteq> j \<Longrightarrow> preserves (Qs ! i) (ms ! j)"
  by (induction Qs ms arbitrary: i j rule: apart.induct) (auto simp: nth_Cons' apart_length split: if_splits)

lemma try_join_published:
  assumes "list_all2 achieves Qs ms" and "apart Qs ms" and "try_join env ms (p, w) = (Inr (), q, w')"
  shows "\<forall>Q \<in> set Qs. Q w'"
  using assms(1,2) by (intro try_join_achieves [OF _ _ _ assms(3)])
    (auto simp: list_all2_conv_all_nth intro: apart_nth)

lemma achieves_upload:
  assumes "parse_cp (tl args) no_call = c" "cc_paths c = [''-'', url]"
  shows "achieves (\<lambda>w. rw_storj w url = Some \<lparr>sc_data = data, sc_metadata = cc_metadata c, sc_expires = cc_expires c\<rparr>)
     (run_cp env args data)"
  unfolding achieves_def
proof (intro allI impI)
  fix p w x q w'
  assume "run_cp env args data (p, w) = (Inr x, q, w')"
  then show "rw_storj w' url = Some \<lparr>sc_data = data, sc_metadata = cc_metadata c, sc_expires = cc_expires c\<rparr>"
    by (cases rule: cp_upload_cases [OF assms, of env data p w]) auto
qed

lemma achieves_map_err: "achieves Q m \<Longrightarrow> achieves Q (map_err g m)"
  by (auto simp: achieves_def map_err_def split: prod.splits sum.splits)

lemma achieves_put:
  assumes "\<And>w. Q (f w)"
  shows "achieves Q (retry_s3_op n (exec f))"
  unfolding achieves_def
proof (intro allI impI)
  fix p w x q w'
  assume "retry_s3_op n (exec f) (p, w) = (Inr x, q, w')"
  then show "Q w'" using assms by (cases rule: retry_exec_cases [of n f p w]) auto
qed

lemma achieves_both:
  assumes "achieves (Q ''_thumbnail.png'') (up ''_thumbnail.png'')" "achieves (Q ''-thumbnail.png'') (up ''-thumbnail.png'')"
    and "preserves (Q ''_thumbnail.png'') (up ''-thumbnail.png'')"
  shows "achieves (\<lambda>w. \<forall>ext \<in> thumbnail_exts. Q ext w) (both_thumbnails up)"
  unfolding achieves_def
proof (intro allI impI)
  fix p w x q w'
  assume run: "both_thumbnails up (p, w) = (Inr x, q, w')"
  obtain r1 p1 w1 where a: "up ''_thumbnail.png'' (p, w) = (r1, p1, w1)" by (metis prod_cases3)
  obtain r2 p2 w2 where b: "up ''-thumbnail.png'' (p1, w1) = (r2, p2, w2)" by (metis prod_cases3)
  from run a b have "\<exists>x. r1 = Inr x" "\<exists>x. r2 = Inr x" "w' = w2"
    by (cases r1; cases r2; simp add: both_thumbnails_def bnd_def attempt_def)+
  with a b show "\<forall>ext \<in> thumbnail_exts. Q ext w'"
    using achievesD [OF assms(1)] achievesD [OF assms(2)] preserves_run [OF assms(3)]
    unfolding thumbnail_exts_def by blast
qed

definition s3_holds :: "string \<Rightarrow> string \<Rightarrow> (string \<times> string) list \<Rightarrow> rw_world \<Rightarrow> bool" where
  "s3_holds key data md w \<longleftrightarrow> (\<exists>o1. s3_at w key = Some o1 \<and> so3_data o1 = data \<and> so3_metadata o1 = md)"

definition storj_holds :: "string \<Rightarrow> string \<Rightarrow> string option \<Rightarrow> string option \<Rightarrow> rw_world \<Rightarrow> bool" where
  "storj_holds url data md expires w \<longleftrightarrow>
     rw_storj w url = Some \<lparr>sc_data = data, sc_metadata = md, sc_expires = expires\<rparr>"

lemma holds_frames [simp]:
  "url \<noteq> url' \<Longrightarrow> storj_holds url d md x (put_storj url' c w) \<longleftrightarrow> storj_holds url d md x w"
  "storj_holds url d md x (put_s3 k e t m w) \<longleftrightarrow> storj_holds url d md x w"
  "s3_holds k d m (put_storj url' c w) \<longleftrightarrow> s3_holds k d m w"
  "k \<noteq> k' \<Longrightarrow> s3_holds k d m (put_s3 k' e t n w) \<longleftrightarrow> s3_holds k d m w"
  "s3_holds k d m (put_s3 k d t m w)"
  by (simp_all add: storj_holds_def s3_holds_def)

lemma object_key_inj [simp]: "object_key user video a = object_key user video b \<longleftrightarrow> a = b"
  by (simp add: object_key_def)

lemma url_of_inj [simp]: "url_of env n a = url_of env n b \<longleftrightarrow> a = b"
  by (simp add: url_of_def storj_url_def)

text \<open>The state of the stores with one published video.\<close>

definition published :: "raw_env \<Rightarrow> raw_params \<Rightarrow> string option \<Rightarrow> (string \<times> string) list \<Rightarrow> string \<Rightarrow> string \<Rightarrow>
    rw_world \<Rightarrow> bool" where
  "published env prm expires md data thumb w \<longleftrightarrow>
     storj_holds (url_of env (rp_nsfw prm) (object_key (rp_user prm) (rp_video prm) ''.mp4'')) data (Some (re_json env md)) expires w \<and>
     (\<forall>ext \<in> thumbnail_exts. storj_holds (url_of env (rp_nsfw prm) (object_key (rp_user prm) (rp_video prm) ext)) thumb None expires w) \<and>
     (\<not> rp_nsfw prm \<longrightarrow> s3_holds (object_key (rp_user prm) (rp_video prm) ''.mp4'') data md w \<and>
        (\<forall>ext \<in> thumbnail_exts. s3_holds (object_key (rp_user prm) (rp_video prm) ext) thumb [] w))"

definition goals :: "raw_env \<Rightarrow> raw_params \<Rightarrow> string option \<Rightarrow> (string \<times> string) list \<Rightarrow> string \<Rightarrow> string \<Rightarrow>
    (rw_world \<Rightarrow> bool) list" where
  "goals env prm expires md data thumb =
     [storj_holds (url_of env (rp_nsfw prm) (object_key (rp_user prm) (rp_video prm) ''.mp4'')) data (Some (re_json env md)) expires,
      \<lambda>w. \<forall>ext \<in> thumbnail_exts. storj_holds (url_of env (rp_nsfw prm) (object_key (rp_user prm) (rp_video prm) ext)) thumb None expires w] @
     (if rp_nsfw prm then [] else
     [s3_holds (object_key (rp_user prm) (rp_video prm) ''.mp4'') data md,
      \<lambda>w. \<forall>ext \<in> thumbnail_exts. s3_holds (object_key (rp_user prm) (rp_video prm) ext) thumb [] w])"

lemma published_goals: "(\<forall>Q \<in> set (goals env prm x md data thumb). Q w) \<longleftrightarrow> published env prm x md data thumb w"
  by (auto simp: goals_def published_def)

lemma parse_uploads_fields:
  "cc_metadata (parse_cp (tl (cp_args [] g ''-'' (storj_url b k))) no_call) = None"
  "cc_expires (parse_cp (tl (cp_args [] g ''-'' (storj_url b k))) no_call) = None"
  "cc_metadata (parse_cp (tl (cp_args [metadata_arg env m] g ''-'' (storj_url b k))) no_call) = Some (re_json env m)"
  "cc_expires (parse_cp (tl (cp_args [metadata_arg env m] g ''-'' (storj_url b k))) no_call) = None"
  "cc_metadata (parse_cp (tl (cp_args [''--expires'', x] g ''-'' (storj_url b k))) no_call) = None"
  "cc_expires (parse_cp (tl (cp_args [''--expires'', x] g ''-'' (storj_url b k))) no_call) = Some x"
  "cc_metadata (parse_cp (tl (cp_args [metadata_arg env m, ''--expires'', x] g ''-'' (storj_url b k))) no_call) =
     Some (re_json env m)"
  "cc_expires (parse_cp (tl (cp_args [metadata_arg env m, ''--expires'', x] g ''-'' (storj_url b k))) no_call) = Some x"
  by (simp_all only: parse_cp_flags parse_upload) simp_all

lemma thumbnail_exts_mp4: "ext \<in> thumbnail_exts \<Longrightarrow> ext \<noteq> ''.mp4''"
  by (auto simp: thumbnail_exts_def)

lemma achieves_storj:
  "achieves (storj_holds (url_of env n (object_key user video ''.mp4'')) data (Some (re_json env md)) None)
     (upload_to_storj env user video md data n)"
  "achieves (storj_holds (url_of env n (object_key user video ''.mp4'')) data (Some (re_json env md)) (Some x))
     (upload_to_storj_with_ttl env user video md data x n)"
  unfolding upload_to_storj_def upload_to_storj_with_ttl_def io_def url_of_def storj_holds_def
  by (auto intro!: achieves_map_err achieves_upload [OF refl parse_uploads(2), unfolded parse_uploads_fields]
      achieves_upload [OF refl parse_uploads(4), unfolded parse_uploads_fields] split: prod.split)

lemma achieves_thumbnail_storj:
  "achieves (\<lambda>w. \<forall>ext \<in> thumbnail_exts. storj_holds (url_of env n (object_key user video ext)) thumb None None w)
     (upload_thumbnail_to_storj env user video thumb n)"
  "achieves (\<lambda>w. \<forall>ext \<in> thumbnail_exts. storj_holds (url_of env n (object_key user video ext)) thumb None (Some x) w)
     (upload_thumbnail_to_storj_with_ttl env user video thumb x n)"
proof -
  obtain b g where side: "storj_side env n = (b, g)" by (cases "storj_side env n")
  have url: "url_of env n k = storj_url b k" for k by (simp add: url_of_def side)
  have apart: "storj_url b (object_key user video e) = storj_url b (object_key user video e') \<longleftrightarrow> e = e'" for e e'
    by (simp add: storj_url_def)
  show "achieves (\<lambda>w. \<forall>ext \<in> thumbnail_exts. storj_holds (url_of env n (object_key user video ext)) thumb None None w)
     (upload_thumbnail_to_storj env user video thumb n)"
    unfolding upload_thumbnail_to_storj_def side url prod.case io_def
    by (intro achieves_both achieves_map_err pres_map_err pres_cp_upload [OF refl parse_uploads(1)])
      (simp_all add: apart achieves_upload [OF refl parse_uploads(1), unfolded parse_uploads_fields, folded storj_holds_def])
  show "achieves (\<lambda>w. \<forall>ext \<in> thumbnail_exts. storj_holds (url_of env n (object_key user video ext)) thumb None (Some x) w)
     (upload_thumbnail_to_storj_with_ttl env user video thumb x n)"
    unfolding upload_thumbnail_to_storj_with_ttl_def side url prod.case io_def
    by (intro achieves_both achieves_map_err pres_map_err pres_cp_upload [OF refl parse_uploads(3)])
      (simp_all add: apart achieves_upload [OF refl parse_uploads(3), unfolded parse_uploads_fields, folded storj_holds_def])
qed

lemma achieves_s3:
  "achieves (s3_holds (object_key user video ''.mp4'') data md) (upload_to_s3 user video md data)"
  "achieves (\<lambda>w. \<forall>ext \<in> thumbnail_exts. s3_holds (object_key user video ext) thumb [] w)
     (upload_thumbnail_to_s3 user video thumb)"
  unfolding upload_to_s3_def upload_thumbnail_to_s3_def as_s3_def s3_upload_video_def s3_upload_thumbnail_def retrying_def
  by (auto intro!: achieves_map_err achieves_put achieves_both pres pres_exec)

lemmas achieves_ops = achieves_storj achieves_thumbnail_storj achieves_s3

text \<open>The goals do not disturb each other.\<close>

lemma mp4_not_thumbnail: "ext \<in> thumbnail_exts \<Longrightarrow> ''.mp4'' \<noteq> ext"
  using thumbnail_exts_mp4 by metis

lemma video_undisturbed:
  "preserves (storj_holds (url_of env n (object_key user video ''.mp4'')) d md x) (upload_thumbnail_to_storj env user video t n)"
  "preserves (storj_holds (url_of env n (object_key user video ''.mp4'')) d md x) (upload_thumbnail_to_storj_with_ttl env user video t y n)"
  "preserves (storj_holds url d md x) (upload_to_s3 user video smd' sd)"
  "preserves (storj_holds url d md x) (upload_thumbnail_to_s3 user video t)"
  "preserves (s3_holds (object_key user video ''.mp4'') d smd) (upload_thumbnail_to_s3 user video t)"
  "preserves (s3_holds k d smd) (upload_to_storj env user video md' d' n)"
  "preserves (s3_holds k d smd) (upload_to_storj_with_ttl env user video md' d' y n)"
  "preserves (s3_holds k d smd) (upload_thumbnail_to_storj env user video t n)"
  "preserves (s3_holds k d smd) (upload_thumbnail_to_storj_with_ttl env user video t y n)"
  by (rule pres_uploads; simp add: mp4_not_thumbnail)+

lemma pres_all: "(\<And>e. e \<in> E \<Longrightarrow> preserves (Q e) m) \<Longrightarrow> preserves (\<lambda>w. \<forall>e \<in> E. Q e w) m"
  unfolding preserves_def by blast

lemma thumbnails_undisturbed:
  "preserves (\<lambda>w. \<forall>ext \<in> thumbnail_exts. storj_holds (url_of env n (object_key user video ext)) d md x w)
     (upload_to_storj env user video md' d' n)"
  "preserves (\<lambda>w. \<forall>ext \<in> thumbnail_exts. storj_holds (url_of env n (object_key user video ext)) d md x w)
     (upload_to_storj_with_ttl env user video md' d' y n)"
  "preserves (\<lambda>w. \<forall>ext \<in> thumbnail_exts. s3_holds (object_key user video ext) d smd w) (upload_to_s3 user video smd' d')"
  by (rule pres_all, rule pres_uploads; simp add: thumbnail_exts_mp4)+

lemmas undisturbed = video_undisturbed thumbnails_undisturbed pres_all [OF video_undisturbed(3)]
  pres_all [OF video_undisturbed(4)] pres_all [OF video_undisturbed(6)] pres_all [OF video_undisturbed(7)]
  pres_all [OF video_undisturbed(8)] pres_all [OF video_undisturbed(9)]

text \<open>A successful round of uploads has published the video.\<close>

lemma final_uploads_publish:
  assumes "try_join env (final_uploads env prm md data thumb) (p, w) = (Inr (), q, w')"
  shows "published env prm None md data thumb w'"
proof -
  let ?Qs = "goals env prm None md data thumb" and ?ms = "final_uploads env prm md data thumb"
  have "list_all2 achieves ?Qs ?ms" by (auto simp: goals_def final_uploads_def achieves_ops)
  moreover have "apart ?Qs ?ms" by (simp add: goals_def final_uploads_def undisturbed)
  ultimately show ?thesis
    unfolding published_goals [symmetric] by (rule try_join_published [OF _ _ assms])
qed

lemma staged_uploads_publish:
  assumes "try_join env (staged_uploads env prm data thumb) (p, w) = (Inr (), q, w')"
  shows "published env prm (Some pending_expiry) (pending_metadata env) data thumb w'"
proof -
  let ?Qs = "goals env prm (Some pending_expiry) (pending_metadata env) data thumb" and ?ms = "staged_uploads env prm data thumb"
  have "list_all2 achieves ?Qs ?ms" by (auto simp: goals_def staged_uploads_def achieves_ops)
  moreover have "apart ?Qs ?ms" by (simp add: goals_def staged_uploads_def undisturbed)
  ultimately show ?thesis
    unfolding published_goals [symmetric] by (rule try_join_published [OF _ _ assms])
qed

end
