(* ===== verification/Raw_Final.thy ===== *)
theory Raw_Final
  imports Raw_Props
begin

text \<open>
  The finalisation of a staged upload (\<open>routes/duplicate.rs\<close>): what a reported success has published, the way from the
  upload to it, and the stale temporary file that it can publish instead.
\<close>

section \<open>Downloads\<close>

text \<open>A download that leaves nothing when it fails.\<close>

definition clean_failures :: "raw_env \<Rightarrow> bool" where
  "clean_failures env \<longleftrightarrow> (\<forall>e. re_cut env e = None)"

lemma parse_cp_download:
  assumes "take 1 path = ''/''"
  shows "parse_cp (tl (cp_args [] g (storj_url b k) path)) no_call =
    \<lparr>cc_metadata = None, cc_expires = None, cc_access = Some g, cc_paths = [storj_url b k, path]\<rparr>"
  by (simp only: parse_cp_flags(1) parse_download [OF assms]) simp

lemma url_not_stdin [simp]: "storj_url b k \<noteq> ''-''"
  by (simp add: storj_url_def)

lemma run_download:
  assumes "take 1 path = ''/''"
  shows "run_cp env (cp_args [] g (storj_url b k) path) [] ([], w) = (case rw_storj w (storj_url b k) of
      None \<Rightarrow> (Inl (PgError (''object not found: '' @ storj_url b k)), [], w)
    | Some o1 \<Rightarrow> (Inr (), [], write_s3_file path (sc_data o1) w))"
    and "run_cp env (cp_args [] g (storj_url b k) path) [] (None # p, w) = (case rw_storj w (storj_url b k) of
      None \<Rightarrow> (Inl (PgError (''object not found: '' @ storj_url b k)), p, w)
    | Some o1 \<Rightarrow> (Inr (), p, write_s3_file path (sc_data o1) w))"
    and "clean_failures env \<Longrightarrow>
      run_cp env (cp_args [] g (storj_url b k) path) [] (Some e # p, w) = (Inl e, p, w)"
  unfolding run_cp_def parse_cp_download [OF assms]
  by (simp_all add: cp_effect_def clean_failures_def split: option.split)

text \<open>What a download may leave in its file: the object, or the part of it that a failing transfer has brought.\<close>

definition arrived :: "raw_env \<Rightarrow> rw_world \<Rightarrow> string \<Rightarrow> string \<Rightarrow> bool" where
  "arrived env w url data \<longleftrightarrow> (\<exists>o1. rw_storj w url = Some o1 \<and>
     (data = sc_data o1 \<or> (\<exists>e n. re_cut env e = Some n \<and> data = take n (sc_data o1))))"

lemma run_download_effect:
  assumes "take 1 path = ''/''" and "run_cp env (cp_args [] g (storj_url b k) path) [] (p, w) = (r, q, w')"
  shows "w' = w \<or> (\<exists>data. arrived env w (storj_url b k) data \<and> w' = write_s3_file path data w)"
proof (cases p rule: fault_cases)
  case (fails e p')
  with assms(2) show ?thesis
    unfolding run_cp_def parse_cp_download [OF assms(1)]
    by (auto simp: cp_effect_def arrived_def split: option.splits)
qed (use assms(2) in \<open>auto simp: run_download [OF assms(1)] arrived_def split: option.splits\<close>)

lemma write_twice [simp]: "write_s3_file path x (write_s3_file path y w) = write_s3_file path x w"
  by (simp add: write_s3_file_def)

lemma arrived_write [simp]: "arrived env (write_s3_file path x w) url data = arrived env w url data"
  by (simp add: arrived_def)

lemma other_file [simp]: "s3_files (write_s3_file path x w) path' = (if path' = path then Some x else s3_files w path')"
  by (simp add: write_s3_file_def)

lemma attempts_world:
  assumes "take 1 path = ''/''"
    and "download_attempts env (cp_args [] g (storj_url b k) path) n le (p, w) = (r, q, w')"
  shows "w' = w \<or> (\<exists>data. arrived env w (storj_url b k) data \<and> w' = write_s3_file path data w)"
  using assms(2)
proof (induction n arbitrary: le p w)
  case 0
  then show ?case by simp
next
  case (Suc n)
  obtain r1 p1 w1 where run: "run_cp env (cp_args [] g (storj_url b k) path) [] (p, w) = (r1, p1, w1)" by (metis prod_cases3)
  note first = run_download_effect [OF assms(1) run]
  show ?case
  proof (cases "\<exists>e. r1 = Inl e \<and> \<not> re_spawn env e")
    case True
    then obtain e where "download_attempts env (cp_args [] g (storj_url b k) path) n (error_text e) (p1, w1) = (r, q, w')"
      using Suc.prems by (auto simp: run_bnd run_attempt run)
    from Suc.IH [OF this] first show ?thesis by auto
  next
    case False
    with Suc.prems have "w' = w1" by (auto simp: run_bnd run_attempt run split: sum.splits)
    with first show ?thesis by simp
  qed
qed

lemma file_exists_run:
  "file_exists path (p, w) = (Inr b, q, w') \<Longrightarrow> w' = w \<and> (b \<longrightarrow> s3_files w path \<noteq> None)"
  by (cases p rule: fault_cases) (auto simp: file_exists_def run_bnd run_attempt query_def stmt_def split: pg_error.splits)

text \<open>What is in the file of a download that counts as done: what a transfer has brought, or the file that was there before.\<close>

definition fetched :: "raw_env \<Rightarrow> rw_world \<Rightarrow> string \<Rightarrow> string \<Rightarrow> string \<Rightarrow> bool" where
  "fetched env w url path data \<longleftrightarrow> arrived env w url data \<or> s3_files w path = Some data"

lemma download_gives:
  assumes "take 1 path = ''/''" and "download_or_fail env g (storj_url b k) path what (p, w) = (Inr x, q, w')"
  obtains data where "fetched env w (storj_url b k) path data" "w' = write_s3_file path data w \<or> w' = w" "s3_files w' path = Some data"
proof -
  from assms(2) obtain le p1 w1 where
    a: "download_attempts env (cp_args [] g (storj_url b k) path) max_retries [] (p, w) = (Inr le, p1, w1)"
    and c: "\<exists>p2. file_exists path (p1, w1) = (Inr True, p2, w')"
    unfolding download_or_fail_def by (auto elim!: bnd_Inr split: if_splits)
  from c file_exists_run obtain data where "w' = w1" "s3_files w' path = Some data" by blast
  then have held: "s3_files w' path = Some data" and w': "w' = w1" by simp_all
  from attempts_world [OF assms(1) a] show ?thesis
  proof (elim disjE exE conjE)
    assume "w1 = w"
    with that [of data] held w' show ?thesis by (simp add: fetched_def)
  next
    fix got
    assume "arrived env w (storj_url b k) got" "w1 = write_s3_file path got w"
    with that [of got] w' show ?thesis by (simp add: fetched_def write_s3_file_def)
  qed
qed

text \<open>No temporary files are there.\<close>

definition no_temp_files :: "raw_params \<Rightarrow> rw_world \<Rightarrow> bool" where
  "no_temp_files prm w \<longleftrightarrow> s3_files w (temp_video_file prm) = None \<and> s3_files w (temp_thumbnail_file prm) = None"

text \<open>Where failing transfers leave nothing and no file was there, a download brings the object.\<close>

lemma fetched_clean:
  "clean_failures env \<Longrightarrow> s3_files w path = None \<Longrightarrow>
   fetched env w url path data \<longleftrightarrow> (\<exists>o1. rw_storj w url = Some o1 \<and> data = sc_data o1)"
  by (simp add: fetched_def arrived_def clean_failures_def)

lemma read_file_Inr:
  "read_file path (p, w) = (Inr c, q, w') \<Longrightarrow> w' = w \<and> s3_files w path = Some c"
  by (cases p rule: fault_cases)
    (auto simp: read_file_def io_def run_map_err stmt_def split: option.splits)

lemma remove_file_run:
  "remove_file path (p, w) = (r, q, w') \<Longrightarrow> r = Inr () \<and> (\<exists>fs. w' = w\<lparr>s3_files := fs\<rparr>)"
  by (cases p rule: fault_cases)
    (auto simp: remove_file_def run_bnd run_attempt exec_def stmt_def split: pg_error.splits intro: exI [of _ "s3_files w"])

lemma published_files [simp]: "published env prm x md d t (w\<lparr>s3_files := fs\<rparr>) = published env prm x md d t w"
  by (simp add: published_def storj_holds_def s3_holds_def s3_at_def)

lemma temp_files_apart [simp]: "temp_thumbnail_file prm \<noteq> temp_video_file prm" "temp_video_file prm \<noteq> temp_thumbnail_file prm"
  by (simp_all add: temp_thumbnail_file_def temp_video_file_def)

section \<open>A reported success\<close>

text \<open>The part of the handler behind the two downloads publishes what the two files hold.\<close>

definition publish_files :: "raw_env \<Rightarrow> raw_params \<Rightarrow> (string \<times> string) list \<Rightarrow> (raw_error, json) rw" where
  "publish_files env prm metadata =
     bnd (read_file (temp_video_file prm)) (\<lambda>data.
     bnd (read_file (temp_thumbnail_file prm)) (\<lambda>thumb.
     bnd (try_join env (final_uploads env prm metadata data thumb)) (\<lambda>_.
     bnd (remove_file (temp_video_file prm)) (\<lambda>_.
     bnd (remove_file (temp_thumbnail_file prm)) (\<lambda>_.
     ret completed_json)))))"

lemma publish_files_Inr:
  assumes "publish_files env prm md (p, w) = (Inr r, q, w')"
  shows "\<exists>d t. s3_files w (temp_video_file prm) = Some d \<and> s3_files w (temp_thumbnail_file prm) = Some t \<and>
    published env prm None md d t w' \<and> r = completed_json"
proof -
  from assms obtain d p1 w1 t p2 w2 p3 w3 p4 w4 where
    a: "read_file (temp_video_file prm) (p, w) = (Inr d, p1, w1)" and
    b: "read_file (temp_thumbnail_file prm) (p1, w1) = (Inr t, p2, w2)" and
    c: "try_join env (final_uploads env prm md d t) (p2, w2) = (Inr (), p3, w3)" and
    e: "remove_file (temp_video_file prm) (p3, w3) = (Inr (), p4, w4)" and
    f: "remove_file (temp_thumbnail_file prm) (p4, w4) = (Inr (), q, w')" and r: "r = completed_json"
    unfolding publish_files_def by (auto elim!: bnd_Inr)
  from remove_file_run [OF e] remove_file_run [OF f] obtain fs gs where "w' = w3\<lparr>s3_files := fs, s3_files := gs\<rparr>"
    by auto
  then show ?thesis
    using read_file_Inr [OF a] read_file_Inr [OF b] final_uploads_publish [OF c] r by auto
qed

lemma finalize_split:
  assumes "storj_side env (rp_nsfw prm) = (b, g)"
  shows "handler_raw_finalize env prm md =
     bnd (download_or_fail env g (storj_url b (object_key (rp_user prm) (rp_video prm) ''.mp4'')) (temp_video_file prm) ''video'') (\<lambda>_.
     bnd (download_or_fail env g (storj_url b (object_key (rp_user prm) (rp_video prm) ''_thumbnail.png''))
        (temp_thumbnail_file prm) ''thumbnail'') (\<lambda>_. publish_files env prm md))"
  by (simp add: handler_raw_finalize_def publish_files_def assms)

text \<open>What a finalisation may publish as the video and the thumbnail of an upload.\<close>

definition fetched_pair :: "raw_env \<Rightarrow> raw_params \<Rightarrow> rw_world \<Rightarrow> string \<Rightarrow> string \<Rightarrow> bool" where
  "fetched_pair env prm w data thumb \<longleftrightarrow>
     fetched env w (url_of env (rp_nsfw prm) (object_key (rp_user prm) (rp_video prm) ''.mp4'')) (temp_video_file prm) data \<and>
     fetched env w (url_of env (rp_nsfw prm) (object_key (rp_user prm) (rp_video prm) ''_thumbnail.png'')) (temp_thumbnail_file prm) thumb"

text \<open>A finalisation that reports success has published one video and one thumbnail: under the caller's metadata, without an
  expiry, both names of the thumbnail included, and for a public video in S3 too. This holds whichever of its downloads,
  uploads and file operations fail, and in whatever order the uploads end. What it has published was fetched from the
  staged objects, or was found in the temporary files.\<close>

lemma finalize_Inr:
  assumes "handler_raw_finalize env prm md (p, w) = (Inr r, q, w')"
  shows "\<exists>data thumb. fetched_pair env prm w data thumb \<and> published env prm None md data thumb w' \<and> r = completed_json"
proof -
  obtain b g where side: "storj_side env (rp_nsfw prm) = (b, g)" by (cases "storj_side env (rp_nsfw prm)")
  let ?v = "storj_url b (object_key (rp_user prm) (rp_video prm) ''.mp4'')"
  let ?t = "storj_url b (object_key (rp_user prm) (rp_video prm) ''_thumbnail.png'')"
  from assms [unfolded finalize_split [OF side]] obtain p1 w1 p2 w2 where
    a: "download_or_fail env g ?v (temp_video_file prm) ''video'' (p, w) = (Inr (), p1, w1)" and
    c: "download_or_fail env g ?t (temp_thumbnail_file prm) ''thumbnail'' (p1, w1) = (Inr (), p2, w2)" and
    e: "publish_files env prm md (p2, w2) = (Inr r, q, w')"
    by (auto elim!: bnd_Inr)
  have paths: "take 1 (temp_video_file prm) = ''/''" "take 1 (temp_thumbnail_file prm) = ''/''"
    by (simp_all add: temp_video_file_def temp_thumbnail_file_def)
  obtain data where v: "fetched env w ?v (temp_video_file prm) data" "w1 = write_s3_file (temp_video_file prm) data w \<or> w1 = w"
    "s3_files w1 (temp_video_file prm) = Some data" by (rule download_gives [OF paths(1) a])
  obtain thumb where t: "fetched env w1 ?t (temp_thumbnail_file prm) thumb"
    "w2 = write_s3_file (temp_thumbnail_file prm) thumb w1 \<or> w2 = w1" "s3_files w2 (temp_thumbnail_file prm) = Some thumb"
    by (rule download_gives [OF paths(2) c])
  have "fetched env w ?t (temp_thumbnail_file prm) thumb"
    using t(1) v(2) by (auto simp: fetched_def)
  moreover have "s3_files w2 (temp_video_file prm) = Some data" using v(3) t(2) by auto
  ultimately show ?thesis
    using publish_files_Inr [OF e] v(1) t(3) by (auto simp: fetched_pair_def url_of_def side)
qed

text \<open>The video and its thumbnail are in Storj, whether they are still staged or were finalised before.\<close>

definition in_storj :: "raw_env \<Rightarrow> raw_params \<Rightarrow> string \<Rightarrow> string \<Rightarrow> rw_world \<Rightarrow> bool" where
  "in_storj env prm data thumb w \<longleftrightarrow> (\<exists>v t.
     rw_storj w (url_of env (rp_nsfw prm) (object_key (rp_user prm) (rp_video prm) ''.mp4'')) = Some v \<and> sc_data v = data \<and>
     rw_storj w (url_of env (rp_nsfw prm) (object_key (rp_user prm) (rp_video prm) ''_thumbnail.png'')) = Some t \<and> sc_data t = thumb)"

lemma fetched_pair_clean:
  "clean_failures env \<Longrightarrow> no_temp_files prm w \<Longrightarrow> fetched_pair env prm w data thumb \<longleftrightarrow> in_storj env prm data thumb w"
  by (auto simp: fetched_pair_def no_temp_files_def fetched_clean in_storj_def)

section \<open>From the upload to the finalisation\<close>

definition succeeds :: "('d, 'e, unit) proc \<Rightarrow> bool" where
  "succeeds m \<longleftrightarrow> (\<forall>w. \<exists>w'. m ([], w) = (Inr (), [], w'))"

lemma succeedsE:
  assumes "succeeds m"
  obtains w' where "m ([], w) = (Inr (), [], w')"
  using assms unfolding succeeds_def by blast

lemma succeeds_run_all: "(\<And>m. m \<in> set ms \<Longrightarrow> succeeds m) \<Longrightarrow> succeeds (run_all ms None)"
proof (induction ms)
  case Nil
  show ?case by (simp add: succeeds_def)
next
  case (Cons m ms)
  then have ms: "succeeds m" "succeeds (run_all ms None)" by simp_all
  show ?case
    unfolding succeeds_def
  proof
    fix w
    obtain w1 where a: "m ([], w) = (Inr (), [], w1)" using ms(1) by (rule succeedsE)
    obtain w2 where "run_all ms None ([], w1) = (Inr (), [], w2)" using ms(2) by (rule succeedsE)
    then show "\<exists>w'. run_all (m # ms) None ([], w) = (Inr (), [], w')"
      by (simp add: run_bnd run_attempt a)
  qed
qed

lemma succeeds_try_join: "(\<And>m. m \<in> set ms \<Longrightarrow> succeeds m) \<Longrightarrow> succeeds (try_join env ms)"
  unfolding try_join_def by (rule succeeds_run_all) simp

lemma succeeds_upload:
  "cc_paths (parse_cp (tl args) no_call) = [''-'', url] \<Longrightarrow> succeeds (run_cp env args data)"
  by (simp add: succeeds_def run_cp_def cp_effect_def Let_def)

lemma succeeds_map_err:
  assumes "succeeds m"
  shows "succeeds (map_err g m)"
  unfolding succeeds_def
proof
  fix w
  obtain w1 where "m ([], w) = (Inr (), [], w1)" using assms by (rule succeedsE)
  then show "\<exists>w'. map_err g m ([], w) = (Inr (), [], w')" by (simp add: run_map_err)
qed

lemma succeeds_put: "succeeds (retrying (exec f))"
  by (simp add: succeeds_def retrying_def retry_run [where m = "exec f", OF run_exec])

lemma succeeds_both:
  assumes "succeeds (up ''_thumbnail.png'')" "succeeds (up ''-thumbnail.png'')"
  shows "succeeds (both_thumbnails up)"
  unfolding succeeds_def
proof
  fix w
  obtain w1 where a: "up ''_thumbnail.png'' ([], w) = (Inr (), [], w1)" using assms(1) by (rule succeedsE)
  obtain w2 where b: "up ''-thumbnail.png'' ([], w1) = (Inr (), [], w2)" using assms(2) by (rule succeedsE)
  show "\<exists>w'. both_thumbnails up ([], w) = (Inr (), [], w')"
    by (simp add: both_thumbnails_def run_bnd run_attempt a b)
qed

lemma succeeds_uploads:
  "succeeds (upload_to_storj env user video md data n)" "succeeds (upload_to_storj_with_ttl env user video md data x n)"
  "succeeds (upload_thumbnail_to_storj env user video thumb n)"
  "succeeds (upload_thumbnail_to_storj_with_ttl env user video thumb x n)"
  "succeeds (upload_to_s3 user video md data)" "succeeds (upload_thumbnail_to_s3 user video thumb)"
  unfolding upload_to_storj_def upload_to_storj_with_ttl_def upload_thumbnail_to_storj_def
    upload_thumbnail_to_storj_with_ttl_def upload_to_s3_def upload_thumbnail_to_s3_def io_def as_s3_def
    s3_upload_video_def s3_upload_thumbnail_def
  by (auto intro!: succeeds_map_err succeeds_both succeeds_put succeeds_upload [OF parse_uploads(1)]
      succeeds_upload [OF parse_uploads(2)] succeeds_upload [OF parse_uploads(3)] succeeds_upload [OF parse_uploads(4)]
      split: prod.split)

lemma succeeds_joins:
  "succeeds (try_join env (staged_uploads env prm data thumb))" "succeeds (try_join env (final_uploads env prm md data thumb))"
  by (rule succeeds_try_join; auto simp: staged_uploads_def final_uploads_def succeeds_uploads split: if_splits)+

lemma publish_files_run:
  assumes "s3_files w (temp_video_file prm) = Some d" "s3_files w (temp_thumbnail_file prm) = Some t"
  shows "\<exists>w'. publish_files env prm md ([], w) = (Inr completed_json, [], w') \<and>
     s3_files w' (temp_video_file prm) = None \<and> s3_files w' (temp_thumbnail_file prm) = None"
proof -
  obtain w1 where "try_join env (final_uploads env prm md d t) ([], w) = (Inr (), [], w1)"
    by (rule succeedsE [OF succeeds_joins(2)])
  then show ?thesis
    by (simp add: publish_files_def read_file_def io_def remove_file_def run_bnd run_map_err run_attempt run_stmt run_exec assms)
qed

lemma download_or_fail_run:
  assumes "take 1 path = ''/''" and "rw_storj w (storj_url b k) = Some o1"
  shows "download_or_fail env g (storj_url b k) path what ([], w) = (Inr (), [], write_s3_file path (sc_data o1) w)"
  by (simp add: download_or_fail_def max_retries_def numeral_3_eq_3 run_bnd run_attempt run_download [OF assms(1)] assms(2)
      file_exists_def run_query)

lemma finalize_run:
  assumes "storj_side env (rp_nsfw prm) = (b, g)"
    and "rw_storj w (storj_url b (object_key (rp_user prm) (rp_video prm) ''.mp4'')) = Some v"
    and "rw_storj w (storj_url b (object_key (rp_user prm) (rp_video prm) ''_thumbnail.png'')) = Some t"
  shows "\<exists>w'. handler_raw_finalize env prm md ([], w) = (Inr completed_json, [], w') \<and>
     published env prm None md (sc_data v) (sc_data t) w' \<and>
     s3_files w' (temp_video_file prm) = None \<and> s3_files w' (temp_thumbnail_file prm) = None"
proof -
  let ?w = "write_s3_file (temp_thumbnail_file prm) (sc_data t) (write_s3_file (temp_video_file prm) (sc_data v) w)"
  have "handler_raw_finalize env prm md ([], w) = publish_files env prm md ([], ?w)"
    by (simp add: finalize_split [OF assms(1)] run_bnd download_or_fail_run assms(2,3))
  moreover obtain w' where w': "publish_files env prm md ([], ?w) = (Inr completed_json, [], w')"
    "s3_files w' (temp_video_file prm) = None" "s3_files w' (temp_thumbnail_file prm) = None"
    using publish_files_run [where w = ?w and prm = prm and d = "sc_data v" and t = "sc_data t"] by auto
  ultimately show ?thesis using publish_files_Inr [OF w'(1)] by auto
qed

text \<open>An upload and its finalisation without faults, whatever the order in which the uploads end: the upload stages
  the video (with its index in front) and its thumbnail under an expiry, and the finalisation leaves the same bytes in
  every store, without the expiry and under the caller's metadata, and no temporary file.\<close>

lemma upload_then_finalize:
  assumes "find_file parts = Inr (Some body)"
    and "extract_thumbnail (re_ffmpeg env) (re_tmp env) (ensure_uploaded_video_faststart env body) = Inr thumb"
  shows "\<exists>w1 w2. handler_raw_upload_initial env prm parts ([], w) = (Inr pending_json, [], w1) \<and>
     published env prm (Some pending_expiry) (pending_metadata env) (ensure_uploaded_video_faststart env body) thumb w1 \<and>
     handler_raw_finalize env prm md ([], w1) = (Inr completed_json, [], w2) \<and>
     published env prm None md (ensure_uploaded_video_faststart env body) thumb w2 \<and>
     s3_files w2 (temp_video_file prm) = None \<and> s3_files w2 (temp_thumbnail_file prm) = None"
proof -
  obtain b g where side: "storj_side env (rp_nsfw prm) = (b, g)" by (cases "storj_side env (rp_nsfw prm)")
  let ?data = "ensure_uploaded_video_faststart env body"
  obtain w1 where w1: "try_join env (staged_uploads env prm ?data thumb) ([], w) = (Inr (), [], w1)"
    by (rule succeedsE [OF succeeds_joins(1)])
  have up: "handler_raw_upload_initial env prm parts ([], w) = (Inr pending_json, [], w1)"
    by (simp add: handler_raw_upload_initial_def assms run_bnd w1 try_raw_def Let_def)
  note staged = staged_uploads_publish [OF w1]
  then have objects: "rw_storj w1 (storj_url b (object_key (rp_user prm) (rp_video prm) ''.mp4'')) =
       Some \<lparr>sc_data = ?data, sc_metadata = Some (re_json env (pending_metadata env)), sc_expires = Some pending_expiry\<rparr>"
    "rw_storj w1 (storj_url b (object_key (rp_user prm) (rp_video prm) ''_thumbnail.png'')) =
       Some \<lparr>sc_data = thumb, sc_metadata = None, sc_expires = Some pending_expiry\<rparr>"
    by (simp_all add: published_def storj_holds_def url_of_def side thumbnail_exts_def)
  show ?thesis
    using up staged finalize_run [OF side objects, where md = md] by auto
qed

section \<open>Stale temporary files\<close>

text \<open>The temporary files are not made fresh, and their presence is taken for a download: when all three attempts of
  both downloads fail and the files are there already, the finalisation publishes them and reports success.\<close>

lemma stale_files_are_published:
  assumes "clean_failures env" and "\<not> re_spawn env e"
    and "s3_files w (temp_video_file prm) = Some d" and "s3_files w (temp_thumbnail_file prm) = Some t"
  shows "\<exists>w'. handler_raw_finalize env prm md (replicate 3 (Some e) @ None # replicate 3 (Some e), w) =
     (Inr completed_json, [], w') \<and> published env prm None md d t w'"
proof -
  obtain b g where side: "storj_side env (rp_nsfw prm) = (b, g)" by (cases "storj_side env (rp_nsfw prm)")
  have dl: "download_or_fail env g (storj_url b k) path what (replicate 3 (Some e) @ p, w) = (Inr (), tl p, w)"
    if "take 1 path = ''/''" "s3_files w path \<noteq> None" "p = [] \<or> (\<exists>q. p = None # q)" for k path what p
    using that(2,3) assms(2)
    by (auto simp: download_or_fail_def max_retries_def numeral_3_eq_3 run_bnd run_attempt run_download [OF that(1)] assms(1)
        file_exists_def query_def stmt_def split: list.splits)
  have "handler_raw_finalize env prm md (replicate 3 (Some e) @ None # replicate 3 (Some e), w) = publish_files env prm md ([], w)"
    using dl [where p = "None # replicate 3 (Some e)"] dl [where p = "[]"] assms(3,4)
    by (simp add: finalize_split [OF side] run_bnd)
  moreover obtain w' where "publish_files env prm md ([], w) = (Inr completed_json, [], w')"
    using publish_files_run [OF assms(3,4)] by blast
  ultimately show ?thesis using publish_files_Inr [of env prm md "[]" w] assms(3,4) by fastforce
qed

section \<open>Witnesses\<close>

lemma demo_clean: "clean_failures demo_env"
  by (simp add: clean_failures_def demo_env_def)

lemma upload_then_finalize_witness:
  "\<exists>w1. handler_raw_upload_initial demo_env (demo_prm ''a'' ''b'') [Inr (Some ''x'', Inl ''e''), Inr (Some ''file'', Inr ''video'')]
     ([], demo_world (\<lambda>_. None)) = (Inr pending_json, [], w1)"
  using upload_then_finalize [where env = demo_env and prm = "demo_prm ''a'' ''b''" and body = "''video''" and thumb = "''png''"
      and parts = "[Inr (Some ''x'', Inl ''e''), Inr (Some ''file'', Inr ''video'')]" and w = "demo_world (\<lambda>_. None)"]
  by (auto simp: demo_env_def extract_thumbnail_def extract_thumbnail_with_seek_def extract_thumbnail_from_video_path_def)

lemma stale_files_are_published_witness:
  "temp_video_file (demo_prm ''a'' ''b-c'') = temp_video_file (demo_prm ''a-b'' ''c'') \<and>
   (\<exists>w'. handler_raw_finalize demo_env (demo_prm ''a'' ''b-c'') [] (replicate 3 (Some (PgError ''timeout'')) @ None #
       replicate 3 (Some (PgError ''timeout'')), demo_world [temp_video_file (demo_prm ''a-b'' ''c'') \<mapsto> ''theirs'',
       temp_thumbnail_file (demo_prm ''a-b'' ''c'') \<mapsto> ''their png'']) = (Inr completed_json, [], w') \<and>
     published demo_env (demo_prm ''a'' ''b-c'') None [] ''theirs'' ''their png'' w')"
proof -
  have same: "temp_video_file (demo_prm ''a'' ''b-c'') = temp_video_file (demo_prm ''a-b'' ''c'')"
    "temp_thumbnail_file (demo_prm ''a'' ''b-c'') = temp_thumbnail_file (demo_prm ''a-b'' ''c'')"
    by (simp_all add: temp_video_file_def temp_thumbnail_file_def demo_prm_def)
  show ?thesis
    unfolding same [symmetric]
    using stale_files_are_published [OF demo_clean, where prm = "demo_prm ''a'' ''b-c''" and e = "PgError ''timeout''" and md = "[]"
        and d = "''theirs''" and t = "''their png''" and w = "demo_world [temp_video_file (demo_prm ''a'' ''b-c'') \<mapsto> ''theirs'',
       temp_thumbnail_file (demo_prm ''a'' ''b-c'') \<mapsto> ''their png'']"]
    by (simp add: demo_world_def demo_env_def)
qed

end
