(* ===== verification/Raw_Move.thy ===== *)
theory Raw_Move
  imports Raw_Props
begin

text \<open>
  The move of a video to the NSFW bucket (\<open>routes/move2nsfw.rs\<close>): it never loses the video, and what of it stays
  public.
\<close>

section \<open>The steps of a move\<close>

lemma get_request_cases:
  obtains o1 q where "s3_at w key = Some o1" "get_request key (p, w) = (Inr (so3_data o1), q, w)"
  | e q where "get_request key (p, w) = (Inl e, q, w)"
  by (cases p rule: fault_cases; cases "s3_at w key") (auto simp: get_request_def stmt_def)

lemma download_cases:
  obtains o1 q where "s3_at w key = Some o1" "retry_s3_op n (get_request key) (p, w) = (Inr (so3_data o1), q, w)"
  | e q where "retry_s3_op n (get_request key) (p, w) = (Inl e, q, w)"
proof (induction n arbitrary: p thesis)
  case 0
  then show ?case using get_request_cases [of w key p] by (metis retry_s3_op.simps(1))
next
  case (Suc n)
  show ?case
  proof (cases rule: get_request_cases [of w key p])
    case (1 o1 q)
    then show ?thesis using Suc.prems(1) by (simp add: run_bnd run_attempt)
  next
    case (2 e q)
    show ?thesis
      by (rule Suc.IH [of q]) (use 2 Suc.prems in \<open>simp_all add: run_bnd run_attempt\<close>)
  qed
qed

lemma nsfw_upload_cases:
  obtains q where "nsfw_upload env key data (p, w) =
      (Inr (), q, put_storj (url_of env True key) (Some \<lparr>sc_data = data, sc_metadata = None, sc_expires = None\<rparr>) w)"
  | e q d where "nsfw_upload env key data (p, w) = (Inl e, q, put_storj (url_of env True key) d w)"
  using cp_upload_cases [OF refl parse_uploads(1), where env = env and data = data and p = p and w = w]
  by (metis nsfw_upload_def parse_uploads_fields(1,2) url_of_def storj_side_def fst_conv)

definition move_thumbnails :: "raw_env \<Rightarrow> string \<Rightarrow> string \<Rightarrow> pg_error + string \<Rightarrow> (raw_error, unit) rw" where
  "move_thumbnails env user video thumb = (case thumb of
       Inl (PgError _) \<Rightarrow> ret ()
     | Inr t \<Rightarrow> bnd (nsfw_thumbnail env (object_key user video ''_thumbnail.png'') t) (\<lambda>_.
         nsfw_thumbnail env (object_key user video ''-thumbnail.png'') t))"

definition drop_thumbnail :: "string \<Rightarrow> string \<Rightarrow> pg_error + string \<Rightarrow> (raw_error, unit) rw" where
  "drop_thumbnail user video thumb = (case thumb of
       Inl (PgError _) \<Rightarrow> ret ()
     | Inr _ \<Rightarrow> bnd (attempt (s3_delete_thumbnail (object_key user video ''_thumbnail.png''))) (\<lambda>d. case d of
         Inl (PgError _) \<Rightarrow> ret () | Inr _ \<Rightarrow> ret ()))"

definition move_deletes :: "string \<Rightarrow> string \<Rightarrow> pg_error + string \<Rightarrow> (raw_error, nat \<times> json) rw" where
  "move_deletes user video thumb =
     bnd (as_s3 (s3_delete_video (object_key user video ''.mp4''))) (\<lambda>_.
     bnd (drop_thumbnail user video thumb) (\<lambda>_.
     ret (200, message_json ''moved'')))"

lemma move_split:
  "move_to_nsfw env user video =
     bnd (as_s3 (s3_download_video (object_key user video ''.mp4''))) (\<lambda>data.
     bnd (attempt (s3_download_thumbnail (object_key user video ''_thumbnail.png''))) (\<lambda>thumb.
     bnd (attempt (nsfw_upload env (object_key user video ''.mp4'') data)) (\<lambda>r. case r of
       Inl e \<Rightarrow> if re_spawn env e then raise (EIo (error_text e))
         else ret (500, message_json ''Failed to upload video to Storj NSFW bucket. Check server logs.'')
     | Inr _ \<Rightarrow> bnd (move_thumbnails env user video thumb) (\<lambda>_. move_deletes user video thumb))))"
  unfolding move_to_nsfw_def move_thumbnails_def move_deletes_def drop_thumbnail_def by (rule refl)

lemma pres_nsfw_thumbnail:
  assumes "\<And>w d. I w \<Longrightarrow> I (put_storj (url_of env True key) d w)"
  shows "preserves I (nsfw_thumbnail env key data)" "preserves I (nsfw_upload env key data)"
proof -
  show up: "preserves I (nsfw_upload env key data)"
    using assms unfolding nsfw_upload_def url_of_def storj_side_def
    by (auto intro: pres_cp_upload [OF refl parse_uploads(1)])
  show "preserves I (nsfw_thumbnail env key data)"
    unfolding nsfw_thumbnail_def by (auto intro!: pres up split: sum.split)
qed

lemma pres_move_thumbnails:
  assumes "\<And>w d ext. ext \<in> thumbnail_exts \<Longrightarrow> I w \<Longrightarrow> I (put_storj (url_of env True (object_key user video ext)) d w)"
  shows "preserves I (move_thumbnails env user video thumb)"
  using assms unfolding move_thumbnails_def thumbnail_exts_def
  by (auto intro!: pres pres_nsfw_thumbnail split: sum.split pg_error.split)

lemma pres_drop_thumbnail:
  "(\<And>w. I w \<Longrightarrow> I (delete_s3 (object_key user video ''_thumbnail.png'') w)) \<Longrightarrow> preserves I (drop_thumbnail user video thumb)"
  unfolding drop_thumbnail_def s3_delete_thumbnail_def retrying_def
  by (auto intro!: pres pres_exec split: sum.split pg_error.split)

lemma pres_move_deletes:
  assumes "\<And>w. I w \<Longrightarrow> I (delete_s3 (object_key user video ''.mp4'') w)"
    and "\<And>w. I w \<Longrightarrow> I (delete_s3 (object_key user video ''_thumbnail.png'') w)"
  shows "preserves I (move_deletes user video thumb)"
  using assms unfolding move_deletes_def s3_delete_video_def retrying_def
  by (auto intro!: pres pres_exec pres_drop_thumbnail)

text \<open>How far a move comes: it ends before the upload, at the upload, or behind it with the copy in place.\<close>

lemma move_cases:
  assumes "move_to_nsfw env user video (p, w) = (r, q, w')"
  obtains (early) e where "r = Inl e" "w' = w"
  | (upload) d where "w' = put_storj (url_of env True (object_key user video ''.mp4'')) d w"
      "(\<exists>e. r = Inl e) \<or> (\<exists>m. r = Inr (500, m))"
  | (copied) o1 thumb p1 where "s3_at w (object_key user video ''.mp4'') = Some o1"
      "bnd (move_thumbnails env user video thumb) (\<lambda>_. move_deletes user video thumb)
         (p1, put_storj (url_of env True (object_key user video ''.mp4''))
            (Some \<lparr>sc_data = so3_data o1, sc_metadata = None, sc_expires = None\<rparr>) w) = (r, q, w')"
proof (cases rule: download_cases [of w "object_key user video ''.mp4''" MAX_RETRIES p])
  case (2 e q)
  then show thesis
    using assms early [of "ES3 (error_text e)"] by (auto simp: move_split run_bnd run_map_err as_s3_def s3_download_video_def retrying_def)
next
  case (1 o1 p1)
  obtain th p2 where th: "s3_download_thumbnail (object_key user video ''_thumbnail.png'') (p1, w) = (th, p2, w)"
    unfolding s3_download_thumbnail_def retrying_def by (meson download_cases)
  note run = assms [unfolded move_split run_bnd run_map_err run_attempt as_s3_def s3_download_video_def retrying_def]
  show thesis
  proof (cases rule: nsfw_upload_cases [of env "object_key user video ''.mp4''" "so3_data o1" p2 w])
    case up: (1 p3)
    show thesis by (rule copied [of o1 th p3]) (use run 1 th up in \<open>simp_all add: run_bnd run_attempt\<close>)
  next
    case up: (2 e p3 d)
    show thesis by (rule upload [of d]) (use run 1 th up in \<open>auto simp: run_bnd run_attempt split: if_splits\<close>)
  qed
qed

section \<open>What a move keeps\<close>

definition moved_copy :: "raw_env \<Rightarrow> string \<Rightarrow> string \<Rightarrow> string \<Rightarrow> rw_world \<Rightarrow> bool" where
  "moved_copy env user video data w \<longleftrightarrow> storj_holds (url_of env True (object_key user video ''.mp4'')) data None None w"

lemma pres_copied:
  "preserves (moved_copy env user video data)
     (bnd (move_thumbnails env user video thumb) (\<lambda>_. move_deletes user video thumb))"
  by (intro pres_bnd pres_move_thumbnails pres_move_deletes)
    (auto simp: moved_copy_def storj_holds_def delete_s3_def thumbnail_exts_def)

text \<open>C29. A move never loses the video: whatever fails, the object is still in S3, or the NSFW bucket holds its bytes;
  and after a reported success it is in the NSFW bucket and no longer in S3.\<close>

theorem move_keeps_video:
  assumes "s3_at w (object_key user video ''.mp4'') = Some o1"
    and "move_to_nsfw env user video (p, w) = (r, q, w')"
  shows "(s3_at w' (object_key user video ''.mp4'') = Some o1 \<or> moved_copy env user video (so3_data o1) w') \<and>
     ((\<exists>m. r = Inr (200, m)) \<longrightarrow>
        s3_at w' (object_key user video ''.mp4'') = None \<and> moved_copy env user video (so3_data o1) w')"
  using assms(2)
proof (cases rule: move_cases)
  case (copied o2 thumb p1)
  let ?w = "put_storj (url_of env True (object_key user video ''.mp4'')) (Some \<lparr>sc_data = so3_data o1, sc_metadata = None, sc_expires = None\<rparr>) w"
  have copy: "moved_copy env user video (so3_data o1) w'"
    by (rule preserves_run [OF pres_copied copied(2)]) (use copied(1) assms(1) in \<open>simp add: moved_copy_def storj_holds_def\<close>)
  have "s3_at w' (object_key user video ''.mp4'') = None" if r: "r = Inr (200, m)" for m
  proof -
    from copied(2) r obtain p2 w2 p3 w3 p4 where
      d: "as_s3 (s3_delete_video (object_key user video ''.mp4'')) (p2, w2) = (Inr (), p3, w3)" and
      rest: "drop_thumbnail user video thumb (p3, w3) = (Inr (), p4, w')"
      by (auto simp: move_deletes_def elim!: bnd_Inr)
    have "s3_at w3 (object_key user video ''.mp4'') = None"
      using d by (cases rule: retry_exec_cases [of MAX_RETRIES "delete_s3 (object_key user video ''.mp4'')" p2 w2])
        (auto simp: as_s3_def run_map_err s3_delete_video_def retrying_def)
    then show ?thesis
      by (rule preserves_run [OF pres_drop_thumbnail rest, rotated]) simp
  qed
  with copy show ?thesis by blast
qed (use assms(1) in auto)

text \<open>A move does not touch the public Storj bucket, to which the upload had written the video and its thumbnails,
  nor the second thumbnail in S3: whatever it reports, these stay as they were.\<close>

lemma move_leaves_public_copies:
  assumes "buckets_apart env"
  shows "rw_storj (db_after (move_to_nsfw env user video) (p, w)) (storj_url (re_sfw_bucket env) key) =
       rw_storj w (storj_url (re_sfw_bucket env) key) \<and>
     s3_at (db_after (move_to_nsfw env user video) (p, w)) (object_key user video ''-thumbnail.png'') =
       s3_at w (object_key user video ''-thumbnail.png'')"
proof -
  let ?I = "\<lambda>w'. rw_storj w' (storj_url (re_sfw_bucket env) key) = rw_storj w (storj_url (re_sfw_bucket env) key) \<and>
     s3_at w' (object_key user video ''-thumbnail.png'') = s3_at w (object_key user video ''-thumbnail.png'')"
  have put: "?I v \<Longrightarrow> ?I (put_storj (url_of env True k) d v)" for k d v
    using nsfw_url_apart [OF assms] by (simp add: url_of_def storj_side_def)
  obtain r q w' where run: "move_to_nsfw env user video (p, w) = (r, q, w')" by (metis prod_cases3)
  from run have "?I w'"
  proof (cases rule: move_cases)
    case (copied o1 thumb p1)
    have "preserves ?I (bnd (move_thumbnails env user video thumb) (\<lambda>_. move_deletes user video thumb))"
      by (intro pres_bnd pres_move_thumbnails pres_move_deletes) (use put in auto)
    from preserves_run [OF this copied(2)] show ?thesis using put [of w] by blast
  qed (use put [of w] in auto)
  with run show ?thesis by (simp add: db_after_def)
qed

theorem move_keeps_video_witness:
  "let w = put_s3 ''a/b.mp4'' ''bytes'' ''video/mp4'' [] (demo_world (\<lambda>_. None));
       w' = db_after (move_to_nsfw demo_env ''a'' ''b'') (replicate 6 (Some (PgError ''down'')), w)
   in s3_at w' ''a/b.mp4'' \<noteq> None \<or> moved_copy demo_env ''a'' ''b'' ''bytes'' w'"
proof -
  let ?w = "put_s3 ''a/b.mp4'' ''bytes'' ''video/mp4'' [] (demo_world (\<lambda>_. None))"
  obtain r q w' where run: "move_to_nsfw demo_env ''a'' ''b'' (replicate 6 (Some (PgError ''down'')), ?w) = (r, q, w')"
    by (metis prod_cases3)
  have "s3_at ?w (object_key ''a'' ''b'' ''.mp4'') =
      Some \<lparr>so3_data = ''bytes'', so3_type = ''video/mp4'', so3_metadata = [], so3_modified = 0\<rparr>"
    by (simp add: object_key_def demo_world_def)
  from move_keeps_video [OF this run] run show ?thesis
    by (auto simp: db_after_def Let_def object_key_def)
qed

lemma move_leaves_public_copies_witness:
  "rw_storj (db_after (move_to_nsfw demo_env ''a'' ''b-c'') ([], put_s3 ''a/b-c.mp4'' ''video'' ''video/mp4'' [] (demo_world (\<lambda>_. None))))
     ''sj://sfw/a/b-c.mp4'' \<noteq> None"
  using move_leaves_public_copies [where env = demo_env and user = "''a''" and video = "''b-c''" and p = "[]"
      and w = "put_s3 ''a/b-c.mp4'' ''video'' ''video/mp4'' [] (demo_world (\<lambda>_. None))" and key = "''a/b-c.mp4''"]
  by (simp add: buckets_apart_def demo_env_def demo_world_def storj_url_def)

end
