(* ===== verification/Service_Http.thy ===== *)
theory Service_Http
  imports Hmac Request_Store
begin

text \<open>
  The requests of the operators: the guard of the signed routes (\<open>authorize\<close> in \<open>src/main.rs\<close>), the reading of query
  parameters, and the signing side of the client (\<open>crates/mirror-client/src/lib.rs\<close>). The cryptography and the
  percent-encoding of queries are parameters.
\<close>

section \<open>Requests\<close>

text \<open>Header names are in lower case, as the HTTP library hands them out; the query is as it stands in the request. The
  body is \<open>None\<close> when it is no JSON.\<close>

record http_request =
  hq_method :: string
  hq_path :: string
  hq_query :: "string option"
  hq_headers :: "(string \<times> string) list"
  hq_body :: "json option"

definition header :: "http_request \<Rightarrow> string \<Rightarrow> string option" where
  "header r name = map_of (hq_headers r) name"

text \<open>\<open>HeaderValue::to_str\<close>: visible ASCII and tabs only.\<close>

definition header_str :: "string \<Rightarrow> string option" where
  "header_str v = (if list_all (\<lambda>c. c = CHR 0x09 \<or> 32 \<le> (of_char c :: nat) \<and> (of_char c :: nat) < 127) v then Some v else None)"

section \<open>The guard\<close>

fun query_credentials :: "string list \<Rightarrow> string option \<times> string option \<Rightarrow> string option \<times> string option" where
  "query_credentials [] (ts, sig) = (ts, sig)"
| "query_credentials (pair # pairs) (ts, sig) = query_credentials pairs (case split_once ''='' pair of
       None \<Rightarrow> (ts, sig)
     | Some (k, v) \<Rightarrow> if k = ''timestamp'' then (Some v, sig) else if k = ''sig'' then (ts, Some v) else (ts, sig))"

definition credentials :: "http_request \<Rightarrow> nat + string \<times> string" where
  "credentials r = (case (header r ''x-timestamp'', header r ''authorization'') of
       (Some ts_hdr, Some auth_hdr) \<Rightarrow>
         (case header_str ts_hdr of None \<Rightarrow> Inl 400 | Some ts \<Rightarrow>
         (case header_str auth_hdr of None \<Rightarrow> Inl 400 | Some auth \<Rightarrow>
         (case strip_prefix ''HMAC-SHA256 '' auth of None \<Rightarrow> Inl 401 | Some sig \<Rightarrow> Inr (ts, sig))))
     | _ \<Rightarrow> (case query_credentials (split_on (CHR ''&'') (case hq_query r of None \<Rightarrow> [] | Some q \<Rightarrow> q)) (None, None) of
           (Some t, Some s) \<Rightarrow> Inr (t, s) | _ \<Rightarrow> Inl 401))"

definition request_message :: "string \<Rightarrow> string \<Rightarrow> string \<Rightarrow> string" where
  "request_message meth path ts = meth @ [CHR 0x0A] @ path @ [CHR 0x0A] @ ts"

text \<open>The distance of the clocks is computed in 64 bits, with the wrap-around of a release build.\<close>

definition outside_window :: "int \<Rightarrow> int \<Rightarrow> bool" where
  "outside_window now_ts ts \<longleftrightarrow> 300 < wrap_i64 \<bar>wrap_i64 (now_ts - ts)\<bar>"

definition authorize :: "crypto \<Rightarrow> string \<Rightarrow> int \<Rightarrow> http_request \<Rightarrow> nat + unit" where
  "authorize cr secret now_ts r = (case credentials r of
       Inl status \<Rightarrow> Inl status
     | Inr (ts_str, sig_hex) \<Rightarrow> (case parse_i64 ts_str of
         None \<Rightarrow> Inl 400
       | Some ts \<Rightarrow>
           if outside_window now_ts ts then Inl 401
           else (case cr_unhex cr sig_hex of
             None \<Rightarrow> Inl 400
           | Some sig \<Rightarrow> if sig = cr_mac cr secret (request_message (hq_method r) (hq_path r) ts_str)
               then Inr () else Inl 401)))"

section \<open>Query parameters\<close>

text \<open>A query as the extractor reads it: pairs, each part decoded by \<open>dec\<close>. A field that is given twice is an error, a
  missing one is \<open>None\<close>, and a number is read by its \<open>FromStr\<close>.\<close>

definition form_pairs :: "(string \<Rightarrow> string) \<Rightarrow> string option \<Rightarrow> (string \<times> string) list" where
  "form_pairs dec q = map (\<lambda>p. case split_once ''='' p of Some (k, v) \<Rightarrow> (dec k, dec v) | None \<Rightarrow> (dec p, []))
     (filter (\<lambda>p. p \<noteq> []) (split_on (CHR ''&'') (case q of None \<Rightarrow> [] | Some s \<Rightarrow> s)))"

definition field_with :: "(string \<Rightarrow> 'a option) \<Rightarrow> (string \<times> string) list \<Rightarrow> string \<Rightarrow> 'a option option" where
  "field_with parse pairs name = (case map snd (filter (\<lambda>p. fst p = name) pairs) of
       [] \<Rightarrow> Some None
     | [v] \<Rightarrow> map_option Some (parse v)
     | _ \<Rightarrow> None)"

definition parse_u64 :: "string \<Rightarrow> nat option" where
  "parse_u64 s = (case read_digits (case s of c # t \<Rightarrow> if c = CHR ''+'' then t else s | [] \<Rightarrow> []) of
       None \<Rightarrow> None | Some n \<Rightarrow> if n < 2 ^ 64 then Some (nat n) else None)"

definition parse_bool :: "string \<Rightarrow> bool option" where
  "parse_bool s = (if s = ''true'' then Some True else if s = ''false'' then Some False else None)"

section \<open>The client's side\<close>

record mirror_client =
  mk_base_url :: string
  mk_secret :: string

definition new_client :: "string \<Rightarrow> string \<Rightarrow> mirror_client" where
  "new_client base_url secret = \<lparr>mk_base_url = trim_end_char (CHR ''/'') base_url, mk_secret = secret\<rparr>"

definition sign :: "crypto \<Rightarrow> (string \<Rightarrow> string) \<Rightarrow> mirror_client \<Rightarrow> nat \<Rightarrow> string \<Rightarrow> string \<Rightarrow> string \<times> string" where
  "sign cr hex client now_ts meth path = (let ts = show_nat now_ts in
     (ts, hex (cr_mac cr (mk_secret client) (request_message meth path ts))))"

text \<open>The pairs of \<open>RequestBuilder::query\<close> as they stand in the url, each part encoded by \<open>enc\<close>.\<close>

fun join_amp :: "string list \<Rightarrow> string" where
  "join_amp [] = []"
| "join_amp [p] = p"
| "join_amp (p # q # ps) = p @ ''&'' @ join_amp (q # ps)"

definition query_string :: "(string \<Rightarrow> string) \<Rightarrow> (string \<times> string) list \<Rightarrow> string option" where
  "query_string enc pairs = (if pairs = [] then None else Some (join_amp (map (\<lambda>(k, v). enc k @ ''='' @ enc v) pairs)))"

text \<open>A request with the signature in its headers. The client signs the path it was given; \<open>route\<close> is what arrives of that path
  at the service, after the encoding of the url.\<close>

definition signed_request :: "crypto \<Rightarrow> (string \<Rightarrow> string) \<Rightarrow> (string \<Rightarrow> string) \<Rightarrow> (string \<Rightarrow> string) \<Rightarrow> mirror_client \<Rightarrow> nat \<Rightarrow>
    string \<Rightarrow> string \<Rightarrow> (string \<times> string) list \<Rightarrow> json option \<Rightarrow> http_request" where
  "signed_request cr hex enc route client now_ts meth path pairs body = (case sign cr hex client now_ts meth path of (ts, sig) \<Rightarrow>
     \<lparr>hq_method = meth, hq_path = route path, hq_query = query_string enc pairs,
      hq_headers = [(''x-timestamp'', ts), (''authorization'', ''HMAC-SHA256 '' @ sig)], hq_body = body\<rparr>)"

text \<open>The request behind a signed url: the url with its query, without headers.\<close>

definition signed_url :: "crypto \<Rightarrow> (string \<Rightarrow> string) \<Rightarrow> mirror_client \<Rightarrow> nat \<Rightarrow> string \<Rightarrow> string \<Rightarrow> string" where
  "signed_url cr hex client now_ts meth path = (case sign cr hex client now_ts meth path of (ts, sig) \<Rightarrow>
     mk_base_url client @ path @ ''?timestamp='' @ ts @ ''&sig='' @ sig)"

definition url_request :: "crypto \<Rightarrow> (string \<Rightarrow> string) \<Rightarrow> mirror_client \<Rightarrow> nat \<Rightarrow> string \<Rightarrow> string \<Rightarrow> http_request" where
  "url_request cr hex client now_ts meth path = (case sign cr hex client now_ts meth path of (ts, sig) \<Rightarrow>
     \<lparr>hq_method = meth, hq_path = path, hq_query = Some (''timestamp='' @ ts @ ''&sig='' @ sig), hq_headers = [], hq_body = None\<rparr>)"

section \<open>Reading back numbers\<close>

lemma read_digits_append:
  assumes "read_digits s = Some n" and "is_digit c"
  shows "read_digits (s @ [c]) = Some (10 * n + (of_char c - 48))"
  using assms by (auto simp: read_digits_def split: if_splits)

lemma digit_char_is_digit: "n < 10 \<Longrightarrow> is_digit (digit_char n)"
  by (simp add: is_digit_def digit_char_code)

lemma digit_char_int: "n < 10 \<Longrightarrow> (of_char (digit_char n) :: int) = 48 + int n"
  using digit_char_code [of n] by (metis of_nat_add of_nat_numeral of_nat_of_char)

lemma read_show_nat [simp]: "read_digits (show_nat n) = Some (int n)"
proof (induction n rule: show_nat.induct)
  case (1 n)
  show ?case
  proof (cases "n < 10")
    case True
    then show ?thesis by (simp add: show_nat.simps [of n] read_digits_def digit_char_is_digit digit_char_int)
  next
    case False
    have "read_digits (show_nat (n div 10) @ [digit_char (n mod 10)]) =
        Some (10 * int (n div 10) + (of_char (digit_char (n mod 10)) - 48))"
      using 1 False by (intro read_digits_append) (simp_all add: digit_char_is_digit)
    moreover have "10 * int (n div 10) + int (n mod 10) = int n" by presburger
    ultimately show ?thesis using False by (simp add: show_nat.simps [of n] digit_char_int)
  qed
qed

lemma show_nat_head: "\<exists>c t. show_nat n = c # t \<and> is_digit c"
  by (metis list.set_intros(1) neq_Nil_conv show_nat_digits show_nat_nonempty is_digit_def)

lemma parse_u64_show [simp]: "n < 2 ^ 64 \<Longrightarrow> parse_u64 (show_nat n) = Some n"
proof -
  obtain c t where "show_nat n = c # t" "is_digit c" using show_nat_head by blast
  moreover from this have "c \<noteq> CHR ''+''" by (auto simp: is_digit_def)
  moreover assume "n < 2 ^ 64"
  ultimately show ?thesis using read_show_nat [of n] by (simp add: parse_u64_def)
qed

lemma parse_i64_show_nat [simp]: "n < 2 ^ 63 \<Longrightarrow> parse_i64 (show_nat n) = Some (int n)"
proof -
  obtain c t where "show_nat n = c # t" "is_digit c" using show_nat_head by blast
  moreover from this have "c \<noteq> CHR ''+''" "c \<noteq> CHR ''-''" by (auto simp: is_digit_def)
  moreover assume "n < 2 ^ 63"
  ultimately show ?thesis using read_show_nat [of n] by (simp add: parse_i64_def)
qed

section \<open>What the guard lets through\<close>

lemma authorize_Inr:
  "authorize cr secret now_ts r = Inr () \<longleftrightarrow> (\<exists>ts_str sig_hex ts. credentials r = Inr (ts_str, sig_hex) \<and>
     parse_i64 ts_str = Some ts \<and> \<not> outside_window now_ts ts \<and>
     cr_unhex cr sig_hex = Some (cr_mac cr secret (request_message (hq_method r) (hq_path r) ts_str)))"
  by (auto simp: authorize_def split: sum.splits prod.splits option.splits if_splits)

lemma parse_i64_range: "parse_i64 s = Some n \<Longrightarrow> - (2 ^ 63) \<le> n \<and> n < 2 ^ 63"
  by (auto simp: parse_i64_def split: option.splits if_splits)

text \<open>The window of 300 seconds holds, but for one point: the distance \<open>- 2 ^ 63\<close> has no absolute value in 64 bits, so the
  timestamp that lies \<open>2 ^ 63\<close> seconds back counts as close.\<close>

lemma window_exact:
  assumes "0 \<le> now_ts" "now_ts < 2 ^ 62" "- (2 ^ 63) \<le> ts" "ts < 2 ^ 63"
  shows "\<not> outside_window now_ts ts \<longleftrightarrow> \<bar>now_ts - ts\<bar> \<le> 300 \<or> ts = now_ts - 2 ^ 63"
proof (cases "now_ts - ts < 2 ^ 63")
  case True
  then have "wrap_i64 (now_ts - ts) = now_ts - ts"
    using assms unfolding wrap_i64_def by (subst mod_pos_pos_trivial) auto
  moreover have "wrap_i64 \<bar>now_ts - ts\<bar> = \<bar>now_ts - ts\<bar>"
    using assms True unfolding wrap_i64_def by (subst mod_pos_pos_trivial) auto
  ultimately show ?thesis using True by (auto simp: outside_window_def)
next
  case False
  let ?x = "now_ts - ts - 2 ^ 64"
  have "wrap_i64 (now_ts - ts) = ?x"
  proof -
    have "(now_ts - ts + 2 ^ 63) mod 2 ^ 64 = (now_ts - ts + 2 ^ 63 - 2 ^ 64) mod 2 ^ 64"
      by (metis minus_mod_self2)
    also have "\<dots> = now_ts - ts + 2 ^ 63 - 2 ^ 64"
      using assms False by (intro mod_pos_pos_trivial) auto
    finally show ?thesis by (simp add: wrap_i64_def)
  qed
  moreover have "wrap_i64 \<bar>?x\<bar> = (if ?x = - (2 ^ 63) then - (2 ^ 63) else - ?x)"
  proof (cases "?x = - (2 ^ 63)")
    case True
    then show ?thesis by (simp add: wrap_i64_def)
  next
    case ne: False
    have "\<bar>?x\<bar> = - ?x" using assms False by auto
    moreover have "(- ?x + 2 ^ 63) mod 2 ^ 64 = - ?x + 2 ^ 63"
      using assms False ne by (intro mod_pos_pos_trivial) auto
    ultimately show ?thesis using ne by (simp add: wrap_i64_def)
  qed
  ultimately show ?thesis using assms False by (auto simp: outside_window_def)
qed

text \<open>What passes the guard carries a signature of its own method, path and timestamp, inside the window.\<close>

lemma authorized_is_signed:
  assumes "authorize cr secret now_ts r = Inr ()" and "0 \<le> now_ts" "now_ts < 2 ^ 62"
  shows "\<exists>ts_str sig_hex ts. credentials r = Inr (ts_str, sig_hex) \<and> parse_i64 ts_str = Some ts \<and>
     (\<bar>now_ts - ts\<bar> \<le> 300 \<or> ts = now_ts - 2 ^ 63) \<and>
     cr_unhex cr sig_hex = Some (cr_mac cr secret (request_message (hq_method r) (hq_path r) ts_str))"
proof -
  from assms(1) obtain ts_str sig_hex ts where "credentials r = Inr (ts_str, sig_hex)" and ts: "parse_i64 ts_str = Some ts"
    and "\<not> outside_window now_ts ts"
    and "cr_unhex cr sig_hex = Some (cr_mac cr secret (request_message (hq_method r) (hq_path r) ts_str))"
    unfolding authorize_Inr by blast
  with window_exact [OF assms(2,3)] parse_i64_range [OF ts] show ?thesis by blast
qed

section \<open>What the client sends\<close>

text \<open>The hexadecimal text of a tag: its decoding gives the tag back, and it has visible characters only.\<close>

definition hex_ok :: "crypto \<Rightarrow> (string \<Rightarrow> string) \<Rightarrow> bool" where
  "hex_ok cr hex \<longleftrightarrow> (\<forall>b. cr_unhex cr (hex b) = Some b \<and> list_all (\<lambda>c. is_digit c \<or> c \<in> set ''abcdef'') (hex b))"

text \<open>The encoding of a query: it can be read back and leaves no separator.\<close>

definition codec_ok :: "(string \<Rightarrow> string) \<Rightarrow> (string \<Rightarrow> string) \<Rightarrow> bool" where
  "codec_ok enc dec \<longleftrightarrow> (\<forall>s. dec (enc s) = s \<and> CHR ''&'' \<notin> set (enc s) \<and> CHR ''='' \<notin> set (enc s))"

lemma split_on_no_sep: "c \<notin> set s \<Longrightarrow> split_on c s = [s]"
  by (induction s) auto

lemma split_on_append: "c \<notin> set p \<Longrightarrow> split_on c (p @ c # s) = p # split_on c s"
  by (induction p) auto

lemma split_join_amp:
  "ps \<noteq> [] \<Longrightarrow> \<forall>p \<in> set ps. CHR ''&'' \<notin> set p \<Longrightarrow> split_on (CHR ''&'') (join_amp ps) = ps"
  by (induction ps rule: join_amp.induct) (auto simp: split_on_no_sep split_on_append)

lemma split_once_eq: "CHR ''='' \<notin> set k \<Longrightarrow> split_once ''='' (k @ CHR ''='' # v) = Some (k, v)"
  by (induction k) (auto simp: starts_with_def split_once.simps)

lemma form_of_query:
  assumes "codec_ok enc dec"
  shows "form_pairs dec (query_string enc pairs) = pairs"
proof (cases "pairs = []")
  case True
  then show ?thesis by (simp add: form_pairs_def query_string_def)
next
  case False
  let ?part = "\<lambda>(k, v). enc k @ ''='' @ enc v"
  have "\<forall>p \<in> set (map ?part pairs). CHR ''&'' \<notin> set p"
    using assms by (auto simp: codec_ok_def)
  then have "split_on (CHR ''&'') (join_amp (map ?part pairs)) = map ?part pairs"
    using False by (intro split_join_amp) auto
  moreover have "filter (\<lambda>p. p \<noteq> []) (map ?part pairs) = map ?part pairs"
    by (auto simp: filter_id_conv)
  moreover have "map (\<lambda>p. case split_once ''='' p of Some (k, v) \<Rightarrow> (dec k, dec v) | None \<Rightarrow> (dec p, [])) (map ?part pairs) = pairs"
    using assms by (intro map_idI [of pairs, THEN trans [rotated]]) (auto simp: split_once_eq codec_ok_def intro!: nth_equalityI)
  ultimately show ?thesis using False by (simp add: form_pairs_def query_string_def)
qed

lemma client_credentials:
  assumes "hex_ok cr hex"
  shows "credentials (signed_request cr hex enc route client now_ts meth path pairs body) = Inr (sign cr hex client now_ts meth path)"
proof -
  let ?sig = "hex (cr_mac cr (mk_secret client) (request_message meth path (show_nat now_ts)))"
  have sig: "list_all (\<lambda>c. c = CHR 0x09 \<or> 32 \<le> (of_char c :: nat) \<and> (of_char c :: nat) < 127) ?sig"
    using assms unfolding hex_ok_def by (elim allE [of _ "cr_mac cr (mk_secret client) (request_message meth path (show_nat now_ts))"])
      (auto simp: list_all_iff is_digit_def)
  then have "header_str (''HMAC-SHA256 '' @ ?sig) = Some (''HMAC-SHA256 '' @ ?sig)"
    by (simp add: header_str_def)
  moreover have "header_str (show_nat now_ts) = Some (show_nat now_ts)"
    by (auto simp: header_str_def list_all_iff dest: show_nat_digits)
  ultimately show ?thesis
    by (simp add: signed_request_def sign_def credentials_def header_def Let_def strip_prefix_def starts_with_def)
qed

text \<open>What the client signs with the secret of the server, the server lets through for 300 seconds, whatever query is
  added.\<close>

lemma client_is_authorized:
  assumes "hex_ok cr hex" and "route path = path" and "sent_at < 2 ^ 62" and "\<bar>now_ts - int sent_at\<bar> \<le> 300" "0 \<le> now_ts" "now_ts < 2 ^ 62"
  shows "authorize cr (mk_secret client) now_ts (signed_request cr hex enc route client sent_at meth path pairs body) = Inr ()"
proof -
  have "parse_i64 (show_nat sent_at) = Some (int sent_at)" using assms(3) by simp
  moreover have "\<not> outside_window now_ts (int sent_at)"
    using assms(3-6) by (subst window_exact) auto
  ultimately show ?thesis
    using assms(1,2) client_credentials [OF assms(1), of enc route client sent_at meth path pairs body]
    unfolding authorize_Inr by (auto simp: sign_def signed_request_def Let_def hex_ok_def)
qed

text \<open>So is the request of a signed url, whose credentials are in the query: the tag in hexadecimal has no separator.\<close>

lemma hex_no_sep:
  assumes "hex_ok cr hex" and "\<not> is_digit c" "c \<notin> set ''abcdef''"
  shows "c \<notin> set (hex b)"
  using assms unfolding hex_ok_def list_all_iff by blast

lemma show_nat_no_sep: "\<not> is_digit c \<Longrightarrow> c \<notin> set (show_nat n)"
  using show_nat_digits [of c n] by (auto simp: is_digit_def)

lemma signed_url_is_authorized:
  assumes "hex_ok cr hex" and "sent_at < 2 ^ 62" and "\<bar>now_ts - int sent_at\<bar> \<le> 300" "0 \<le> now_ts" "now_ts < 2 ^ 62"
  shows "authorize cr (mk_secret client) now_ts (url_request cr hex client sent_at meth path) = Inr ()"
proof -
  let ?sig = "hex (cr_mac cr (mk_secret client) (request_message meth path (show_nat sent_at)))"
  have sep: "CHR ''&'' \<notin> set ?sig" "CHR ''&'' \<notin> set (show_nat sent_at)"
    by (rule hex_no_sep [OF assms(1)] show_nat_no_sep, simp_all add: is_digit_def)+
  then have "split_on (CHR ''&'') (''timestamp='' @ show_nat sent_at @ CHR ''&'' # ''sig='' @ ?sig) =
      [''timestamp='' @ show_nat sent_at, ''sig='' @ ?sig]"
    using split_on_append [of "CHR ''&''" "''timestamp='' @ show_nat sent_at" "''sig='' @ ?sig"]
      split_on_no_sep [of "CHR ''&''" "''sig='' @ ?sig"] by simp
  moreover have "split_once ''='' (''timestamp='' @ show_nat sent_at) = Some (''timestamp'', show_nat sent_at)"
    "split_once ''='' (''sig='' @ ?sig) = Some (''sig'', ?sig)"
    using split_once_eq [of "''timestamp''"] split_once_eq [of "''sig''"] by simp_all
  ultimately have "credentials (url_request cr hex client sent_at meth path) = Inr (show_nat sent_at, ?sig)"
    by (simp add: credentials_def header_def url_request_def sign_def Let_def)
  moreover have "\<not> outside_window now_ts (int sent_at)" using assms(2-5) by (subst window_exact) auto
  ultimately show ?thesis
    using assms(1,2) unfolding authorize_Inr by (auto simp: url_request_def sign_def Let_def hex_ok_def)
qed

section \<open>A codec\<close>

text \<open>Hexadecimal text is a codec for queries and tags.\<close>

definition nibble :: "nat \<Rightarrow> char" where
  "nibble n = ''0123456789abcdef'' ! n"

definition unnibble :: "char \<Rightarrow> nat" where
  "unnibble c = (if is_digit c then of_char c - 48 else of_char c - 87)"

fun demo_hex :: "string \<Rightarrow> string" where
  "demo_hex [] = []"
| "demo_hex (c # s) = nibble (of_char c div 16) # nibble (of_char c mod 16) # demo_hex s"

fun demo_unhex :: "string \<Rightarrow> string" where
  "demo_unhex (a # b # s) = char_of (16 * unnibble a + unnibble b) # demo_unhex s"
| "demo_unhex _ = []"

lemma nibble_cases:
  assumes "n < 16"
  shows "unnibble (nibble n) = n \<and> (is_digit (nibble n) \<or> nibble n \<in> set ''abcdef'')"
proof -
  have "n \<in> {0..<16}" using assms by simp
  then show ?thesis
    unfolding upt_conv_Cons atLeastLessThan_upt [of 0 16]
    by (auto simp: nibble_def unnibble_def is_digit_def upt_rec)
qed

lemma high_nibble: "(of_char c :: nat) div 16 < 16"
  by (simp add: less_mult_imp_div_less)

lemma demo_hex_back: "demo_unhex (demo_hex s) = s"
proof (induction s)
  case (Cons c s)
  have "16 * (of_char c div 16) + of_char c mod 16 = (of_char c :: nat)" by simp
  then show ?case
    using Cons high_nibble [of c] nibble_cases [of "of_char c div 16"] nibble_cases [of "of_char c mod 16"] by simp
qed simp

lemma demo_hex_digits: "list_all (\<lambda>c. is_digit c \<or> c \<in> set ''abcdef'') (demo_hex s)"
proof (induction s)
  case (Cons c s)
  then show ?case
    using high_nibble [of c] nibble_cases [of "of_char c div 16"] nibble_cases [of "of_char c mod 16"] by simp
qed simp

definition demo_crypto :: crypto where
  "demo_crypto = \<lparr>cr_mac = (\<lambda>k m. k @ m), cr_unhex = (\<lambda>s. Some (demo_unhex s)), cr_sha256_hex = demo_hex\<rparr>"

lemma demo_query_codec: "codec_ok demo_hex demo_unhex"
proof -
  have "CHR ''&'' \<notin> set (demo_hex s)" "CHR ''='' \<notin> set (demo_hex s)" for s
    using demo_hex_digits [of s] by (auto simp: list_all_iff is_digit_def)
  then show ?thesis by (simp add: codec_ok_def demo_hex_back)
qed

lemma demo_hex_ok: "hex_ok demo_crypto demo_hex"
  unfolding hex_ok_def using demo_hex_digits by (simp add: demo_crypto_def demo_hex_back)

end
