(* ===== verification/Job_Control.thy ===== *)
theory Job_Control
  imports Service_Http
begin

text \<open>
  The control of the background jobs: the handlers that start, cancel and report them (\<open>routes/mirror.rs\<close>,
  \<open>routes/media.rs\<close>, \<open>routes/chain.rs\<close>) over the flags and cancellation tokens of \<open>AppState\<close> (\<open>src/main.rs\<close>), and the
  machine of all handlers and tasks with their interleavings. A started job is its call with the token it was given;
  what the call does is modelled with the job.
\<close>

section \<open>State\<close>

datatype job_kind = ScanStorj | ScanHetzner | PhashBackfill | MirrorCopy | Pipeline | MediaImport | MediaPhash | ChainSnapshot

datatype token_slot = MirrorSlot | MediaSlot

fun slot_of :: "job_kind \<Rightarrow> token_slot" where
  "slot_of MediaImport = MediaSlot"
| "slot_of MediaPhash = MediaSlot"
| "slot_of ChainSnapshot = MediaSlot"
| "slot_of _ = MirrorSlot"

text \<open>A started job with the arguments its handler took from the request.\<close>

datatype job_call =
    RunScan job_kind "nat option" "string option" bool
  | RunBackfill job_kind "nat option"
  | RunImport string "int option"
  | RunMediaPhash "int option" string "(int \<times> int) option"
  | RunSnapshot string "nat option"

fun kind_of :: "job_call \<Rightarrow> job_kind" where
  "kind_of (RunScan k _ _ _) = k"
| "kind_of (RunBackfill k _) = k"
| "kind_of (RunImport _ _) = MediaImport"
| "kind_of (RunMediaPhash _ _ _) = MediaPhash"
| "kind_of (RunSnapshot _ _) = ChainSnapshot"

text \<open>The flags, the token in each slot, the tokens that are cancelled, and the tasks. \<open>js_claimed\<close> are the handlers that
  have taken their flag and not yet spawned their task, \<open>js_swapped\<close> the tokens that a cancel has taken out of their slot
  and not yet cancelled.\<close>

record job_state =
  js_running :: "job_kind set"
  js_slot :: "token_slot \<Rightarrow> nat"
  js_cancelled :: "nat set"
  js_next :: nat
  js_claimed :: "job_call list"
  js_swapped :: "nat list"
  js_tasks :: "(job_call \<times> nat) list"

definition initial_jobs :: job_state where
  "initial_jobs = \<lparr>js_running = {}, js_slot = (\<lambda>s. case s of MirrorSlot \<Rightarrow> 0 | MediaSlot \<Rightarrow> 1), js_cancelled = {},
     js_next = 2, js_claimed = [], js_swapped = [], js_tasks = []\<rparr>"

section \<open>Atomic steps\<close>

text \<open>\<open>compare_exchange(false, true)\<close>.\<close>

definition claim :: "job_call \<Rightarrow> job_state \<Rightarrow> job_state option" where
  "claim c s = (if kind_of c \<in> js_running s then None
     else Some (s\<lparr>js_running := insert (kind_of c) (js_running s), js_claimed := c # js_claimed s\<rparr>))"

definition release_job :: "job_call \<Rightarrow> job_state \<Rightarrow> job_state" where
  "release_job c s = s\<lparr>js_running := js_running s - {kind_of c}\<rparr>"

text \<open>The clone of the token and the spawn; the pipeline gives up when its token is cancelled.\<close>

definition launch :: "job_call \<Rightarrow> job_state \<Rightarrow> nat \<times> job_state" where
  "launch c s = (let t = js_slot s (slot_of (kind_of c)); s1 = s\<lparr>js_claimed := remove1 c (js_claimed s)\<rparr> in
     if kind_of c = Pipeline \<and> t \<in> js_cancelled s then (409, release_job c s1)
     else (202, s1\<lparr>js_tasks := (c, t) # js_tasks s\<rparr>))"

text \<open>The end of a task, also by a panic: its guard is dropped.\<close>

definition finish_task :: "job_call \<times> nat \<Rightarrow> job_state \<Rightarrow> job_state" where
  "finish_task x s = release_job (fst x) (s\<lparr>js_tasks := remove1 x (js_tasks s)\<rparr>)"

definition swap_token :: "token_slot \<Rightarrow> job_state \<Rightarrow> job_state" where
  "swap_token sl s = s\<lparr>js_slot := (js_slot s)(sl := js_next s), js_next := js_next s + 1,
     js_swapped := js_slot s sl # js_swapped s\<rparr>"

definition cancel_token :: "nat \<Rightarrow> job_state \<Rightarrow> job_state" where
  "cancel_token t s = s\<lparr>js_swapped := remove1 t (js_swapped s), js_cancelled := insert t (js_cancelled s)\<rparr>"

section \<open>Handlers\<close>

definition start_job :: "job_call \<Rightarrow> job_state \<Rightarrow> nat \<times> job_state" where
  "start_job c s = (case claim c s of None \<Rightarrow> (409, s) | Some s1 \<Rightarrow> launch c s1)"

record job_params =
  jp_limit :: "nat option"
  jp_prefix :: "string option"
  jp_full_scan :: "bool option"

definition or_false :: "bool option \<Rightarrow> bool" where
  "or_false b = (case b of None \<Rightarrow> False | Some x \<Rightarrow> x)"

definition scan_call :: "job_kind \<Rightarrow> job_params \<Rightarrow> job_call" where
  "scan_call k q = RunScan k (jp_limit q) (jp_prefix q) (or_false (jp_full_scan q))"

definition scan_storj_handler :: "job_params \<Rightarrow> job_state \<Rightarrow> nat \<times> job_state" where
  "scan_storj_handler q = start_job (scan_call ScanStorj q)"

definition scan_hetzner_handler :: "job_params \<Rightarrow> job_state \<Rightarrow> nat \<times> job_state" where
  "scan_hetzner_handler q = start_job (scan_call ScanHetzner q)"

definition phash_backfill_handler :: "job_params \<Rightarrow> job_state \<Rightarrow> nat \<times> job_state" where
  "phash_backfill_handler q = start_job (RunBackfill PhashBackfill (jp_limit q))"

definition mirror_handler :: "job_params \<Rightarrow> job_state \<Rightarrow> nat \<times> job_state" where
  "mirror_handler q = start_job (RunBackfill MirrorCopy (jp_limit q))"

definition run_pipeline_handler :: "job_params \<Rightarrow> job_state \<Rightarrow> nat \<times> job_state" where
  "run_pipeline_handler q = start_job (scan_call Pipeline q)"

text \<open>The label of who asked: at most 256 characters, and a default for none. In UTF-8 a character begins with a byte that does
  not continue one.\<close>

fun take_chars :: "nat \<Rightarrow> string \<Rightarrow> string" where
  "take_chars n [] = []"
| "take_chars n (c # s) = (if 128 \<le> (of_char c :: nat) \<and> (of_char c :: nat) < 192 then c # take_chars n s
     else (case n of 0 \<Rightarrow> [] | Suc k \<Rightarrow> c # take_chars k s))"

definition requested_by :: "string \<Rightarrow> string option \<Rightarrow> string" where
  "requested_by dflt label = (case label of None \<Rightarrow> dflt
     | Some s \<Rightarrow> let t = take_chars 256 s in if t = [] then dflt else t)"

record import_params =
  ip_requested_by :: "string option"
  ip_limit :: "int option"

definition import_video_index :: "import_params \<Rightarrow> job_state \<Rightarrow> nat \<times> job_state" where
  "import_video_index q = start_job (RunImport (requested_by ''media_import_api'' (ip_requested_by q)) (ip_limit q))"

record phash_params =
  pq_limit :: "int option"
  pq_requested_by :: "string option"
  pq_shard :: "int option"
  pq_of :: "int option"

definition parse_shard :: "int option \<Rightarrow> int option \<Rightarrow> unit + (int \<times> int) option" where
  "parse_shard shard shards = (case (shard, shards) of
       (None, None) \<Rightarrow> Inr None
     | (Some idx, Some n) \<Rightarrow> if 1 \<le> n \<and> 0 \<le> idx \<and> idx < n then Inr (Some (n, idx)) else Inl ()
     | _ \<Rightarrow> Inl ())"

definition run_phash :: "phash_params \<Rightarrow> job_state \<Rightarrow> nat \<times> job_state" where
  "run_phash q s = (case parse_shard (pq_shard q) (pq_of q) of
       Inl _ \<Rightarrow> (400, s)
     | Inr shard \<Rightarrow> start_job (RunMediaPhash (pq_limit q) (requested_by ''media_phash_api'' (pq_requested_by q)) shard) s)"

record snapshot_params =
  sp_requested_by :: "string option"
  sp_limit :: "nat option"

definition chain_snapshot_start :: "snapshot_params \<Rightarrow> job_state \<Rightarrow> nat \<times> job_state" where
  "chain_snapshot_start q = start_job (RunSnapshot (requested_by ''chain_snapshot_api'' (sp_requested_by q)) (sp_limit q))"

text \<open>Cancelling a slot; \<open>cancel_all\<close> answers with the jobs it finds running, without the pipeline.\<close>

definition cancel_slot :: "token_slot \<Rightarrow> job_state \<Rightarrow> job_state" where
  "cancel_slot sl s = cancel_token (js_slot s sl) (swap_token sl s)"

definition cancel_all :: "job_state \<Rightarrow> json \<times> job_state" where
  "cancel_all s = (let s1 = cancel_slot MirrorSlot s in
     (JObj [(''message'', JStr ''cancellation signal sent''),
        (''jobs_running_at_cancel'', JArr (map (\<lambda>(name, k). JStr name) (filter (\<lambda>(name, k). k \<in> js_running s1)
          [(''scan-storj'', ScanStorj), (''scan-hetzner'', ScanHetzner), (''phash'', PhashBackfill), (''mirror'', MirrorCopy)])))], s1))"

definition cancel_media_jobs :: "job_state \<Rightarrow> json \<times> job_state" where
  "cancel_media_jobs s = (JObj [(''message'', JStr ''media jobs cancellation requested''),
     (''cancelled'', JArr [JStr ''media_import'', JStr ''media_phash''])], cancel_slot MediaSlot s)"

definition job_status :: "job_state \<Rightarrow> json" where
  "job_status s = JObj [(''scan_storj'', JBool (ScanStorj \<in> js_running s)), (''scan_hetzner'', JBool (ScanHetzner \<in> js_running s)),
     (''phash'', JBool (PhashBackfill \<in> js_running s)), (''mirror'', JBool (MirrorCopy \<in> js_running s)),
     (''pipeline'', JBool (Pipeline \<in> js_running s))]"

definition media_jobs_status :: "job_state \<Rightarrow> json" where
  "media_jobs_status s = JObj [(''import_running'', JBool (MediaImport \<in> js_running s)),
     (''phash_running'', JBool (MediaPhash \<in> js_running s))]"

section \<open>Tuning\<close>

record job_config =
  jc_phash_concurrency :: nat
  jc_mirror_concurrency :: nat
  jc_scan_page_size :: int

record config_update =
  cu_phash_concurrency :: "nat option"
  cu_mirror_concurrency :: "nat option"
  cu_scan_page_size :: "int option"

definition config_json :: "job_config \<Rightarrow> json" where
  "config_json c = JObj [(''phash_concurrency'', JInt (int (jc_phash_concurrency c))),
     (''mirror_concurrency'', JInt (int (jc_mirror_concurrency c))), (''scan_page_size'', JInt (jc_scan_page_size c))]"

definition or_old :: "'a option \<Rightarrow> 'a \<Rightarrow> 'a" where
  "or_old new old = (case new of None \<Rightarrow> old | Some x \<Rightarrow> x)"

definition update_config :: "config_update \<Rightarrow> job_config \<Rightarrow> json \<times> job_config" where
  "update_config u c = (let c1 = \<lparr>jc_phash_concurrency = or_old (cu_phash_concurrency u) (jc_phash_concurrency c),
       jc_mirror_concurrency = or_old (cu_mirror_concurrency u) (jc_mirror_concurrency c),
       jc_scan_page_size = or_old (cu_scan_page_size u) (jc_scan_page_size c)\<rparr> in (config_json c1, c1))"

section \<open>The machine\<close>

text \<open>Any number of requests run at once: a handler takes its flag, then its token; a cancel takes a token out of its slot,
  then cancels it; a task ends at any time. The sweep worker takes the flags of the media jobs the same way.\<close>

inductive job_step :: "job_state \<Rightarrow> job_state \<Rightarrow> bool" where
  step_claim: "claim c s = Some s1 \<Longrightarrow> job_step s s1"
| step_launch: "c \<in> set (js_claimed s) \<Longrightarrow> job_step s (snd (launch c s))"
| step_finish: "x \<in> set (js_tasks s) \<Longrightarrow> job_step s (finish_task x s)"
| step_swap: "job_step s (swap_token sl s)"
| step_cancel: "t \<in> set (js_swapped s) \<Longrightarrow> job_step s (cancel_token t s)"

inductive_cases job_stepE: "job_step s s1"

inductive job_reachable :: "job_state \<Rightarrow> bool" where
  reach_init: "job_reachable initial_jobs"
| reach_step: "job_reachable s \<Longrightarrow> job_step s s1 \<Longrightarrow> job_reachable s1"

definition holders :: "job_state \<Rightarrow> job_kind list" where
  "holders s = map kind_of (js_claimed s) @ map (kind_of \<circ> fst) (js_tasks s)"

text \<open>A flag is up for exactly one handler or task. A token in a slot is live; every task has the token of its slot or one
  that is on its way out.\<close>

definition flags_ok :: "job_state \<Rightarrow> bool" where
  "flags_ok s \<longleftrightarrow> distinct (holders s) \<and> js_running s = set (holders s)"

definition dead_tokens :: "job_state \<Rightarrow> nat set" where
  "dead_tokens s = set (js_swapped s) \<union> js_cancelled s"

definition tokens_ok :: "job_state \<Rightarrow> bool" where
  "tokens_ok s \<longleftrightarrow> js_slot s MirrorSlot \<noteq> js_slot s MediaSlot \<and>
     (\<forall>t \<in> {js_slot s MirrorSlot, js_slot s MediaSlot}. t < js_next s \<and> t \<notin> dead_tokens s) \<and>
     (\<forall>t \<in> dead_tokens s. t < js_next s) \<and>
     (\<forall>x \<in> set (js_tasks s). snd x = js_slot s (slot_of (kind_of (fst x))) \<or> snd x \<in> dead_tokens s)"

lemma claim_Some: "claim c s = Some s1 \<longleftrightarrow> kind_of c \<notin> js_running s \<and>
    s1 = s\<lparr>js_running := insert (kind_of c) (js_running s), js_claimed := c # js_claimed s\<rparr>"
  by (auto simp: claim_def)

lemma flags_ok_claim:
  assumes "flags_ok s" and "claim c s = Some s1"
  shows "flags_ok s1"
proof -
  have "holders s1 = kind_of c # holders s" "js_running s1 = insert (kind_of c) (js_running s)" "kind_of c \<notin> js_running s"
    using assms(2) by (simp_all add: claim_Some holders_def)
  then show ?thesis using assms(1) by (simp add: flags_ok_def)
qed

lemma live_slot: "tokens_ok s \<Longrightarrow> js_slot s sl \<notin> dead_tokens s \<and> js_slot s sl < js_next s"
  by (cases sl) (simp_all add: tokens_ok_def)

lemma launch_live:
  assumes "tokens_ok s"
  shows "launch c s = (202, s\<lparr>js_claimed := remove1 c (js_claimed s), js_tasks := (c, js_slot s (slot_of (kind_of c))) # js_tasks s\<rparr>)"
  using live_slot [OF assms, of "slot_of (kind_of c)"] by (simp add: launch_def Let_def dead_tokens_def)

lemma flags_ok_launch:
  assumes "flags_ok s" and "tokens_ok s" and "c \<in> set (js_claimed s)"
  shows "flags_ok (snd (launch c s))"
proof -
  obtain xs ys where split: "js_claimed s = xs @ c # ys" "c \<notin> set xs" by (meson assms(3) split_list_first)
  then have "remove1 c (js_claimed s) = xs @ ys" by (simp add: remove1_append)
  then show ?thesis
    using assms(1) split by (auto simp: flags_ok_def launch_live [OF assms(2)] holders_def)
qed

lemma flags_ok_finish:
  assumes "flags_ok s" and "x \<in> set (js_tasks s)"
  shows "flags_ok (finish_task x s)"
proof -
  obtain xs ys where split: "js_tasks s = xs @ x # ys" "x \<notin> set xs" by (meson assms(2) split_list_first)
  then have "remove1 x (js_tasks s) = xs @ ys" by (simp add: remove1_append)
  then show ?thesis
    using assms(1) split by (auto simp: flags_ok_def finish_task_def release_job_def holders_def)
qed

lemma flags_ok_tokens: "flags_ok (swap_token sl s) = flags_ok s" "flags_ok (cancel_token t s) = flags_ok s"
  by (simp_all add: flags_ok_def holders_def swap_token_def cancel_token_def)

lemma tokens_ok_claim: "tokens_ok s \<Longrightarrow> claim c s = Some s1 \<Longrightarrow> tokens_ok s1"
  by (simp add: tokens_ok_def claim_Some dead_tokens_def)

lemma tokens_ok_launch: "tokens_ok s \<Longrightarrow> tokens_ok (snd (launch c s))"
  by (simp add: launch_live) (auto simp: tokens_ok_def dead_tokens_def)

lemma tokens_ok_finish: "tokens_ok s \<Longrightarrow> tokens_ok (finish_task x s)"
  by (auto simp: tokens_ok_def finish_task_def release_job_def dead_tokens_def dest: notin_set_remove1 set_mp [OF set_remove1_subset])

lemma dead_swap: "dead_tokens (swap_token sl s) = insert (js_slot s sl) (dead_tokens s)"
  by (auto simp: dead_tokens_def swap_token_def)

lemma dead_cancel: "t \<in> set (js_swapped s) \<Longrightarrow> dead_tokens (cancel_token t s) = dead_tokens s"
  unfolding dead_tokens_def cancel_token_def
  by (cases "t \<in> set (remove1 t (js_swapped s))") (auto dest: set_mp [OF set_remove1_subset])

lemma tokens_ok_swap:
  assumes "tokens_ok s"
  shows "tokens_ok (swap_token sl s)"
proof -
  note live = live_slot [OF assms]
  have fresh: "js_next s \<notin> insert (js_slot s sl) (dead_tokens s)"
    using assms live [of sl] by (auto simp: tokens_ok_def)
  have "snd x = js_slot (swap_token sl s) (slot_of (kind_of (fst x))) \<or> snd x \<in> insert (js_slot s sl) (dead_tokens s)"
    if "x \<in> set (js_tasks s)" for x
    using assms that by (auto simp: tokens_ok_def swap_token_def)
  moreover have "js_next (swap_token sl s) = js_next s + 1" "js_tasks (swap_token sl s) = js_tasks s"
    "js_slot (swap_token sl s) = (js_slot s)(sl := js_next s)"
    by (simp_all add: swap_token_def)
  ultimately show ?thesis
    using assms fresh live [of MirrorSlot] live [of MediaSlot]
    unfolding tokens_ok_def dead_swap by (cases sl) (simp_all add: less_Suc_eq)
qed

lemma tokens_ok_cancel:
  assumes "tokens_ok s" and "t \<in> set (js_swapped s)"
  shows "tokens_ok (cancel_token t s)"
proof -
  have "js_next (cancel_token t s) = js_next s" "js_tasks (cancel_token t s) = js_tasks s" "js_slot (cancel_token t s) = js_slot s"
    by (simp_all add: cancel_token_def)
  then show ?thesis using assms(1) unfolding tokens_ok_def dead_cancel [OF assms(2)] by simp
qed

lemma reachable_ok: "job_reachable s \<Longrightarrow> flags_ok s \<and> tokens_ok s"
proof (induction rule: job_reachable.induct)
  case reach_init
  show ?case
    by (simp add: flags_ok_def tokens_ok_def initial_jobs_def holders_def dead_tokens_def)
next
  case (reach_step s s1)
  then have ok: "flags_ok s" "tokens_ok s" by simp_all
  from reach_step(2) show ?case
    by (cases rule: job_step.cases)
      (use ok in \<open>auto simp: flags_ok_tokens intro: flags_ok_claim flags_ok_launch flags_ok_finish tokens_ok_claim
         tokens_ok_launch tokens_ok_finish tokens_ok_swap tokens_ok_cancel\<close>)
qed

lemma start_job_status:
  assumes "flags_ok s" and "tokens_ok s"
  shows "fst (start_job c s) = (if kind_of c \<in> set (holders s) then 409 else 202)"
proof (cases "claim c s")
  case None
  then show ?thesis using assms(1) by (auto simp: start_job_def claim_def flags_ok_def split: if_splits)
next
  case (Some s1)
  then show ?thesis
    using launch_live [OF tokens_ok_claim [OF assms(2) Some], of c] assms(1)
    by (auto simp: start_job_def claim_def flags_ok_def split: if_splits)
qed

text \<open>C34. However requests, tasks and cancels interleave, a flag is up exactly while one handler or task of its kind is
  there, so no kind of job runs twice and none is blocked after its task has ended; and a started job is answered with
  202, the pipeline too, since a token in its slot is never cancelled.\<close>

theorem job_flags_exact:
  assumes "job_reachable s"
  shows "distinct (holders s) \<and> (k \<in> js_running s \<longleftrightarrow> k \<in> set (holders s)) \<and>
     (c \<in> set (js_claimed s) \<longrightarrow> fst (launch c s) = 202) \<and>
     fst (start_job c s) = (if kind_of c \<in> set (holders s) then 409 else 202)"
proof -
  have ok: "flags_ok s" "tokens_ok s" using reachable_ok [OF assms] by simp_all
  show ?thesis using ok start_job_status [OF ok] launch_live [OF ok(2), of c] by (simp add: flags_ok_def)
qed

text \<open>C35. A cancel reaches every task of its slot that runs when it swaps the token, and none else: when both of its steps
  are done, their tokens are cancelled; the tasks of the other slot keep a live token if they had one; and a job that is
  started then gets a live token.\<close>

theorem cancel_reaches_running_tasks:
  assumes "job_reachable s"
  shows "(\<forall>(c, t) \<in> set (js_tasks s). slot_of (kind_of c) = sl \<and> js_swapped s = [] \<longrightarrow> t \<in> js_cancelled (cancel_slot sl s)) \<and>
     (\<forall>(c, t) \<in> set (js_tasks s). slot_of (kind_of c) \<noteq> sl \<and> t \<notin> js_cancelled s \<longrightarrow> t \<notin> js_cancelled (cancel_slot sl s)) \<and>
     js_slot (cancel_slot sl s) sl \<notin> js_cancelled (cancel_slot sl s) \<and> job_reachable (cancel_slot sl s)"
proof -
  have ok: "tokens_ok s" using reachable_ok [OF assms] by simp
  have swapped: "job_reachable (swap_token sl s)" by (rule reach_step [OF assms step_swap])
  have "js_slot s sl \<in> set (js_swapped (swap_token sl s))" by (simp add: swap_token_def)
  from reach_step [OF swapped step_cancel [OF this]] have reach: "job_reachable (cancel_slot sl s)"
    by (simp add: cancel_slot_def)
  have canc: "js_cancelled (cancel_slot sl s) = insert (js_slot s sl) (js_cancelled s)"
    by (simp add: cancel_slot_def cancel_token_def swap_token_def)
  have "t \<noteq> js_slot s sl" if "(c, t) \<in> set (js_tasks s)" "slot_of (kind_of c) \<noteq> sl" for c t
  proof -
    have "t = js_slot s (slot_of (kind_of c)) \<or> t \<in> dead_tokens s" using ok that(1) by (auto simp: tokens_ok_def)
    moreover have "js_slot s (slot_of (kind_of c)) \<noteq> js_slot s sl"
      using ok that(2) by (cases sl; cases "slot_of (kind_of c)") (auto simp: tokens_ok_def)
    ultimately show ?thesis using live_slot [OF ok, of sl] by metis
  qed
  moreover have "t = js_slot s (slot_of (kind_of c)) \<or> t \<in> js_cancelled s" if "(c, t) \<in> set (js_tasks s)" "js_swapped s = []" for c t
    using ok that by (auto simp: tokens_ok_def dead_tokens_def)
  moreover have "js_slot (cancel_slot sl s) sl \<notin> js_cancelled (cancel_slot sl s)"
    using live_slot [OF conjunct2 [OF reachable_ok [OF reach]], of sl] by (simp add: dead_tokens_def)
  ultimately show ?thesis using reach by (auto simp: canc)
qed

theorem job_flags_exact_witness:
  "fst (start_job (RunBackfill MirrorCopy None) initial_jobs) = 202"
  using job_flags_exact [OF reach_init, where c = "RunBackfill MirrorCopy None"] by (simp add: holders_def initial_jobs_def)

theorem cancel_reaches_running_tasks_witness:
  "let s = snd (start_job (RunBackfill MirrorCopy None) (snd (start_job (RunImport ''me'' None) initial_jobs)))
   in (\<forall>(c, t) \<in> set (js_tasks s). slot_of (kind_of c) = MirrorSlot \<longrightarrow> t \<in> js_cancelled (cancel_slot MirrorSlot s)) \<and>
     map snd (js_tasks s) = [0, 1]"
proof -
  let ?c = "RunImport ''me'' None" and ?d = "RunBackfill MirrorCopy None"
  let ?s = "snd (start_job ?d (snd (start_job ?c initial_jobs)))"
  obtain s1 where s1: "claim ?c initial_jobs = Some s1" by (simp add: claim_def initial_jobs_def)
  then have c: "?c \<in> set (js_claimed s1)" by (simp add: claim_Some)
  have r2: "job_reachable (snd (launch ?c s1))"
    by (rule reach_step [OF reach_step [OF reach_init step_claim [OF s1]] step_launch [OF c]])
  obtain s3 where s3: "claim ?d (snd (launch ?c s1)) = Some s3"
    using s1 by (auto simp: claim_def initial_jobs_def launch_def Let_def)
  then have d: "?d \<in> set (js_claimed s3)" by (simp add: claim_Some)
  have "?s = snd (launch ?d s3)" using s1 s3 by (simp add: start_job_def)
  then have "job_reachable ?s"
    using reach_step [OF reach_step [OF r2 step_claim [OF s3]] step_launch [OF d]] by simp
  from cancel_reaches_running_tasks [OF this, of MirrorSlot] show ?thesis
    by (simp add: Let_def start_job_def claim_def initial_jobs_def launch_def)
qed

end
