(* ===== verification/Job_Routes.thy ===== *)
theory Job_Routes
  imports Job_Control Media_Repo Feed Sweep_Lease Chain_Repo Mirror_Db
begin

text \<open>
  The handlers that read the database for an operator (\<open>routes/mirror.rs\<close>, \<open>routes/media.rs\<close>, \<open>routes/chain.rs\<close>), and
  the two that write: the retry of failed videos and the remediation of the chain audit. A handler is a procedure whose
  error is the status of its answer; its first statement is the connection. Rendering a time is a parameter.
\<close>

type_synonym 'a route = "(pgdb, nat, 'a) proc"

definition or_500 :: "(pgdb, 'e, 'a) proc \<Rightarrow> 'a route" where
  "or_500 m = map_err (\<lambda>_. 500) m"

definition connected :: "'a route \<Rightarrow> 'a route" where
  "connected m = bnd (or_500 (exec id)) (\<lambda>_. m)"

definition json_int_opt :: "(int \<Rightarrow> string) \<Rightarrow> int option \<Rightarrow> json" where
  "json_int_opt rfc t = json_opt (map_option rfc t)"

definition json_or_null :: "json option \<Rightarrow> json" where
  "json_or_null j = (case j of None \<Rightarrow> JNull | Some x \<Rightarrow> x)"

section \<open>The mirror\<close>

definition video_entry :: "duplicate_video \<Rightarrow> json" where
  "video_entry v = (case v of (i, s, h) \<Rightarrow>
     JObj [(''video_id'', JStr i), (''storj_key'', json_opt s), (''hetzner_key'', json_opt h)])"

definition duplicate_entry :: "duplicate_phash \<Rightarrow> json" where
  "duplicate_entry g = JObj [(''phash'', JStr (dp_phash g)), (''hash_kind'', JStr (dp_hash_kind g)),
     (''hash_version'', JStr (dp_hash_version g)), (''videos'', JArr (map video_entry (dp_videos g)))]"

definition audit :: "json route" where
  "audit = connected (bnd (or_500 get_audit_stats) (\<lambda>s. bnd (or_500 get_duplicate_phashes) (\<lambda>dups.
     ret (JObj [(''total'', JInt (as_total s)), (''phash_computed'', JInt (as_phash_computed s)),
       (''mirrored'', JInt (as_mirrored s)), (''missing_storj'', JInt (as_missing_storj s)),
       (''missing_hetzner'', JInt (as_missing_hetzner s)), (''cleanup_pending'', JInt (as_cleanup_pending s)),
       (''failed'', JInt (as_failed s)), (''error_count'', JInt (as_error_count s)),
       (''status_breakdown'', JObj (map (\<lambda>(l, n). (l, JInt n)) (as_status_breakdown s))),
       (''duplicate_phashes'', JArr (map duplicate_entry dups))]))))"

definition failed_jobs :: "json route" where
  "failed_jobs = connected (bnd (or_500 get_failed_jobs) (\<lambda>jobs.
     ret (JObj [(''count'', JInt (int (length jobs))), (''jobs'', JArr (map (\<lambda>(v, e).
       JObj [(''video_id'', JStr v), (''error_message'', json_opt e)]) jobs))])))"

definition retry_failed :: "json route" where
  "retry_failed = connected (bnd (or_500 reset_failed_to_retry) (\<lambda>n. ret (JObj [(''reset_count'', JInt n)])))"

definition duplicate_group :: "duplicate_phash \<Rightarrow> json" where
  "duplicate_group g = JObj [(''phash'', JStr (dp_phash g)), (''hash_kind'', JStr (dp_hash_kind g)),
     (''hash_version'', JStr (dp_hash_version g)), (''count'', JInt (int (length (dp_videos g)))),
     (''videos'', JArr (map video_entry (dp_videos g)))]"

definition video_duplicates :: "string \<Rightarrow> json route" where
  "video_duplicates v = connected (bnd (or_500 (get_duplicates_for_video v)) (\<lambda>g.
     ret (case g of None \<Rightarrow> JNull | Some d \<Rightarrow> duplicate_group d)))"

definition duplicates :: "json route" where
  "duplicates = connected (bnd (or_500 get_duplicate_phashes) (\<lambda>gs.
     ret (JObj [(''total_groups'', JInt (int (length gs))),
       (''total_duplicate_videos'', JInt (int (sum_list (map (\<lambda>g. length (dp_videos g)) gs)))),
       (''groups'', JArr (map duplicate_group gs))])))"

section \<open>The media index\<close>

definition missing_phash_audit :: "json route" where
  "missing_phash_audit = connected (bnd (or_500 canonical_phash_coverage) (\<lambda>s.
     ret (JObj [(''total_servable'', JInt (total_servable s)), (''with_canonical_phash'', JInt (with_canonical_phash s)),
       (''missing_canonical_phash'', JInt (missing_canonical_phash s))])))"

definition feed_event_json :: "(int \<Rightarrow> string) \<Rightarrow> feed_event \<Rightarrow> json" where
  "feed_event_json rfc e = JObj [(''cursor'', JInt (fe_cursor e)), (''event_kind'', JStr (kind_as_str (fe_event_kind e))),
     (''video_id'', JStr (fe_video_id e)), (''hash_kind'', json_opt (fe_hash_kind e)),
     (''hash_version'', json_opt (fe_hash_version e)), (''input_media_version'', json_opt (fe_input_media_version e)),
     (''payload'', fe_payload e), (''created_at'', JStr (rfc (fe_created_at e)))]"

definition feed_events :: "(int \<Rightarrow> string) \<Rightarrow> int option \<Rightarrow> int option \<Rightarrow> json route" where
  "feed_events rfc after lim = connected (bnd
     (map_err (\<lambda>e. case e of InvalidLimit _ _ \<Rightarrow> 400 | _ \<Rightarrow> 500)
       (list_feed_events_after (or_old after 0) (or_old lim 100))) (\<lambda>es.
     ret (JObj [(''events'', JArr (map (feed_event_json rfc) es))])))"

definition clamp :: "int \<Rightarrow> int \<Rightarrow> int \<Rightarrow> int" where
  "clamp lo hi n = min hi (max lo n)"

definition job_run_view :: "(int \<Rightarrow> string) \<Rightarrow> media_job_run \<Rightarrow> json" where
  "job_run_view rfc r = JObj [(''job_kind'', JStr (jr_job_kind r)), (''status'', JStr (jr_status r)),
     (''requested_by'', JStr (jr_requested_by r)), (''started_at'', JStr (rfc (jr_started_at r))),
     (''finished_at'', json_int_opt rfc (jr_finished_at r)), (''totals'', json_or_null (jr_totals r)),
     (''error_message'', json_opt (jr_error_message r))]"

definition media_jobs_runs :: "(int \<Rightarrow> string) \<Rightarrow> string option \<Rightarrow> int option \<Rightarrow> json route" where
  "media_jobs_runs rfc job_kind lim = connected (bnd (or_500 (recent_job_runs job_kind (clamp 1 100 (or_old lim 20)))) (\<lambda>rows.
     ret (JObj [(''runs'', JArr (map (job_run_view rfc) rows))])))"

definition sweep_status_view :: "(int \<Rightarrow> string) \<Rightarrow> lease_row option \<Rightarrow> json" where
  "sweep_status_view rfc lease = (case lease of
       Some l \<Rightarrow> JObj [(''owner'', JStr (ls_owner l)), (''heartbeat'', JStr (rfc (ls_heartbeat l))),
         (''last_discovery_at'', json_int_opt rfc (ls_last_discovery_at l))]
     | None \<Rightarrow> JObj [(''owner'', JNull), (''heartbeat'', JNull), (''last_discovery_at'', JNull)])"

definition media_sweep_status :: "(int \<Rightarrow> string) \<Rightarrow> json route" where
  "media_sweep_status rfc = connected (bnd (or_500 read_lease) (\<lambda>l. ret (sweep_status_view rfc l)))"

definition media_jobs_failures :: "string option \<Rightarrow> int option \<Rightarrow> json route" where
  "media_jobs_failures job_kind lim = connected (bnd (or_500 (failure_summary job_kind (clamp 1 100 (or_old lim 20)))) (\<lambda>gs.
     ret (JObj [(''failures'', JArr (map (\<lambda>g. JObj [(''phase'', JStr (fg_phase g)), (''count'', JInt (fg_count g)),
       (''samples'', JArr (map JStr (fg_samples g)))]) gs))])))"

section \<open>The chain\<close>

text \<open>The rate of \<open>m\<close> matches among \<open>n\<close> samples is below one half: for the counts that occur, the double quotient
  decides this exactly. Without a sample the rate is one.\<close>

definition rate_below_half :: "int \<times> int \<Rightarrow> bool" where
  "rate_below_half r = (case r of (m, n) \<Rightarrow> n \<noteq> 0 \<and> 2 * m < n)"

record remediated =
  rm_b_failures_cleared :: int
  rm_import_triggered :: bool

definition chain_audit_json :: "(int \<Rightarrow> string) \<Rightarrow> snapshot_freshness \<Rightarrow> chain_audit_report \<Rightarrow> (string \<times> string) list \<Rightarrow>
    (string \<times> int) list \<Rightarrow> remediated option \<Rightarrow> json" where
  "chain_audit_json txt fresh rep d_sample worst rem =
     JObj [(''total_expected'', JInt (total_expected rep)), (''category_a'', JInt (category_a rep)),
       (''category_b'', JInt (category_b rep)), (''category_c'', JInt (category_c rep)), (''category_d'', JInt (category_d rep)),
       (''category_e'', JInt (category_e rep)), (''excluded_by_status'', JInt (excluded_by_status rep)),
       (''b_backing_off'', JInt (b_backing_off rep)),
       (''d_sample'', JArr (map (\<lambda>(v, c). JObj [(''video_uid'', JStr v), (''creator_principal'', JStr c)]) d_sample)),
       (''worst_creators'', JArr (map (\<lambda>(c, n). JObj [(''creator_principal'', JStr c), (''non_clean'', JInt n)]) worst)),
       (''remediated'', case rem of None \<Rightarrow> JNull | Some r \<Rightarrow> JObj [(''b_failures_cleared'', JInt (rm_b_failures_cleared r)),
          (''import_triggered'', JBool (rm_import_triggered r))]),
       (''snapshot_run_id'', json_opt (sf_run_id fresh)), (''snapshot_status'', json_opt (sf_status fresh)),
       (''snapshot_newest_fetched_at'', json_int_opt txt (sf_newest_fetched_at fresh))]"

text \<open>The import of the remediation is started like one that was asked for; the job state goes in and comes out.\<close>

definition remediate_import :: "int \<Rightarrow> job_state \<Rightarrow> bool \<times> job_state" where
  "remediate_import c s = (if 0 < c
     then (case start_job (RunImport ''chain_audit_remediate'' None) s of (st, s1) \<Rightarrow> (st = 202, s1)) else (False, s))"

definition chain_audit_handler :: "(int \<Rightarrow> string) \<Rightarrow> bool \<Rightarrow> job_state \<Rightarrow> (json \<times> job_state) route" where
  "chain_audit_handler txt remediate s = connected (
     bnd (or_500 snapshot_freshness_of) (\<lambda>fresh.
     bnd (or_500 (join_key_match_counts 200)) (\<lambda>rate.
     if rate_below_half rate then raise 422
     else bnd (or_500 chain_audit) (\<lambda>rep.
     bnd (or_500 (category_d_sample 100)) (\<lambda>d_sample.
     bnd (or_500 (worst_creators 50)) (\<lambda>worst.
     if remediate
     then bnd (or_500 (category_b_video_ids 100000)) (\<lambda>ids.
          bnd (or_500 (clear_phash_failures ids)) (\<lambda>cleared.
          case remediate_import (category_c rep) s of (triggered, s1) \<Rightarrow>
          ret (chain_audit_json txt fresh rep d_sample worst
             (Some \<lparr>rm_b_failures_cleared = cleared, rm_import_triggered = triggered\<rparr>), s1)))
     else ret (chain_audit_json txt fresh rep d_sample worst None, s)))))))"

definition chain_snapshot_status :: "(int \<Rightarrow> string) \<Rightarrow> json route" where
  "chain_snapshot_status rfc = connected (bnd (or_500 (query (\<lambda>d.
       case sort_key (\<lambda>r. - jr_started_at r) (filter (\<lambda>r. jr_job_kind r = ''chain_snapshot'') (job_runs d)) of
         [] \<Rightarrow> None | r # _ \<Rightarrow> Some r))) (\<lambda>row. ret (case row of
       Some r \<Rightarrow> JObj [(''id'', JStr (jr_id r)), (''status'', JStr (jr_status r)), (''started_at'', JStr (rfc (jr_started_at r))),
         (''finished_at'', json_int_opt rfc (jr_finished_at r)), (''totals'', json_or_null (jr_totals r)),
         (''cursor'', json_or_null (jr_cursor r))]
     | None \<Rightarrow> JObj [(''status'', JStr ''none'')])))"

definition chain_diagnose :: "json route" where
  "chain_diagnose = connected (bnd (or_500 (join_key_diag_of 500)) (\<lambda>d.
     ret (JObj [(''total_nonstale'', JInt (jd_total_nonstale d)), (''sampled'', JInt (jd_sampled d)),
       (''in_master'', JInt (jd_in_master d)), (''in_index'', JInt (jd_in_index d)),
       (''examples'', JArr (map (\<lambda>e. JObj [(''video_uid'', JStr (de_video_uid e)), (''status'', JStr (de_status e)),
          (''in_master'', JBool (de_in_master e)), (''in_index'', JBool (de_in_index e))]) (jd_examples d)))])))"

end
