(* ===== verification/Mirror_Client.thy ===== *)
theory Mirror_Client
  imports Job_Routes "HOL-Library.Monad_Syntax"
begin

text \<open>
  The operators' client (\<open>crates/mirror-client\<close>): the request each method sends, the reading of each answer
  (\<open>src/lib.rs\<close>), and the command line (\<open>src/main.rs\<close>) up to the request it sends. Printing is left out. A method is its
  request together with the reading of the answer; the HTTP library and the JSON parser stand between the two.
\<close>

section \<open>Calls\<close>

datatype mirror_error = AlreadyRunning | Unauthorized | ServerError nat string | HttpError

text \<open>An answer: its status, its body as JSON when it is JSON, and as text.\<close>

record http_response =
  rp_status :: nat
  rp_json :: "json option"
  rp_text :: string

type_synonym 'a client_call = "http_request \<times> (http_response \<Rightarrow> mirror_error + 'a)"

text \<open>What a call needs beside its arguments: the cryptography, the encodings of the url, the client and its clock.\<close>

record client_env =
  cl_crypto :: crypto
  cl_hex :: "string \<Rightarrow> string"
  cl_enc :: "string \<Rightarrow> string"
  cl_route :: "string \<Rightarrow> string"
  cl_client :: mirror_client
  cl_now :: nat

definition client_request :: "client_env \<Rightarrow> string \<Rightarrow> string \<Rightarrow> (string \<times> string) list \<Rightarrow> json option \<Rightarrow> http_request" where
  "client_request env = signed_request (cl_crypto env) (cl_hex env) (cl_enc env) (cl_route env) (cl_client env) (cl_now env)"

definition opt_pair :: "string \<Rightarrow> ('a \<Rightarrow> string) \<Rightarrow> 'a option \<Rightarrow> (string \<times> string) list" where
  "opt_pair name shw v = (case v of None \<Rightarrow> [] | Some x \<Rightarrow> [(name, shw x)])"

definition show_bool :: "bool \<Rightarrow> string" where
  "show_bool b = (if b then ''true'' else ''false'')"

definition post_job :: "client_env \<Rightarrow> string \<Rightarrow> nat option \<Rightarrow> string option \<Rightarrow> bool option \<Rightarrow> (int \<times> int) option \<Rightarrow> unit client_call" where
  "post_job env path lim prefix full_scan shard =
     (client_request env ''POST'' path (opt_pair ''limit'' show_nat lim @ opt_pair ''prefix'' id prefix @
        opt_pair ''full_scan'' show_bool full_scan @
        (case shard of None \<Rightarrow> [] | Some (n, idx) \<Rightarrow> [(''shard'', show_int idx), (''of'', show_int n)])) None,
      \<lambda>resp. if rp_status resp = 202 then Inr () else if rp_status resp = 409 then Inl AlreadyRunning
        else if rp_status resp = 401 \<or> rp_status resp = 403 then Inl Unauthorized
        else Inl (ServerError (rp_status resp) (rp_text resp)))"

text \<open>The other methods: \<open>200\<close> with a body that can be read.\<close>

definition json_answer :: "(json \<Rightarrow> 'a option) \<Rightarrow> http_response \<Rightarrow> mirror_error + 'a" where
  "json_answer decode resp = (if rp_status resp = 200
       then (case Option.bind (rp_json resp) decode of None \<Rightarrow> Inl HttpError | Some x \<Rightarrow> Inr x)
     else if rp_status resp = 401 \<or> rp_status resp = 403 then Inl Unauthorized
     else Inl (ServerError (rp_status resp) (rp_text resp)))"

section \<open>Reading answers\<close>

text \<open>The derived readers: a field of a structure by its name, \<open>Option\<close> fields also when they are missing or null.\<close>

definition obj_field :: "json \<Rightarrow> string \<Rightarrow> json option" where
  "obj_field j name = (case j of JObj kvs \<Rightarrow> map_of kvs name | _ \<Rightarrow> None)"

definition as_i64 :: "json \<Rightarrow> int option" where
  "as_i64 j = (case j of JInt n \<Rightarrow> if - (2 ^ 63) \<le> n \<and> n < 2 ^ 63 then Some n else None | _ \<Rightarrow> None)"

definition as_usize :: "json \<Rightarrow> nat option" where
  "as_usize j = (case j of JInt n \<Rightarrow> if 0 \<le> n \<and> n < 2 ^ 64 then Some (nat n) else None | _ \<Rightarrow> None)"

definition as_string :: "json \<Rightarrow> string option" where
  "as_string j = (case j of JStr s \<Rightarrow> Some s | _ \<Rightarrow> None)"

definition as_bool :: "json \<Rightarrow> bool option" where
  "as_bool j = (case j of JBool b \<Rightarrow> Some b | _ \<Rightarrow> None)"

definition as_vec :: "(json \<Rightarrow> 'a option) \<Rightarrow> json \<Rightarrow> 'a list option" where
  "as_vec f j = (case j of JArr js \<Rightarrow> those (map f js) | _ \<Rightarrow> None)"

definition as_counts :: "json \<Rightarrow> (string \<times> int) list option" where
  "as_counts j = (case j of JObj kvs \<Rightarrow> those (map (\<lambda>(k, v). map_option (Pair k) (as_i64 v)) kvs) | _ \<Rightarrow> None)"

definition need :: "json \<Rightarrow> string \<Rightarrow> (json \<Rightarrow> 'a option) \<Rightarrow> 'a option" where
  "need j name f = Option.bind (obj_field j name) f"

definition opt_of :: "(json \<Rightarrow> 'a option) \<Rightarrow> json \<Rightarrow> 'a option option" where
  "opt_of f j = (if j = JNull then Some None else map_option Some (f j))"

definition may :: "json \<Rightarrow> string \<Rightarrow> (json \<Rightarrow> 'a option) \<Rightarrow> 'a option option" where
  "may j name f = (case obj_field j name of None \<Rightarrow> Some None | Some x \<Rightarrow> opt_of f x)"

definition read_coverage :: "json \<Rightarrow> coverage_stats option" where
  "read_coverage j = do {
     a \<leftarrow> need j ''total_servable'' as_i64; b \<leftarrow> need j ''with_canonical_phash'' as_i64;
     c \<leftarrow> need j ''missing_canonical_phash'' as_i64;
     Some \<lparr>total_servable = a, with_canonical_phash = b, missing_canonical_phash = c\<rparr> }"

definition read_media_status :: "json \<Rightarrow> (bool \<times> bool) option" where
  "read_media_status j = do {
     i \<leftarrow> need j ''import_running'' as_bool; p \<leftarrow> need j ''phash_running'' as_bool; Some (i, p) }"

record sweep_status =
  ss_owner :: "string option"
  ss_heartbeat :: "string option"
  ss_last_discovery_at :: "string option"

definition read_sweep :: "json \<Rightarrow> sweep_status option" where
  "read_sweep j = do {
     ow \<leftarrow> may j ''owner'' as_string; h \<leftarrow> may j ''heartbeat'' as_string; l \<leftarrow> may j ''last_discovery_at'' as_string;
     Some \<lparr>ss_owner = ow, ss_heartbeat = h, ss_last_discovery_at = l\<rparr> }"

record client_feed_event =
  cf_cursor :: int
  cf_event_kind :: string
  cf_video_id :: string
  cf_hash_kind :: "string option"
  cf_hash_version :: "string option"
  cf_input_media_version :: "string option"
  cf_payload :: json
  cf_created_at :: string

definition read_feed_event :: "json \<Rightarrow> client_feed_event option" where
  "read_feed_event j = do {
     c \<leftarrow> need j ''cursor'' as_i64; k \<leftarrow> need j ''event_kind'' as_string; v \<leftarrow> need j ''video_id'' as_string;
     hk \<leftarrow> may j ''hash_kind'' as_string; hv \<leftarrow> may j ''hash_version'' as_string;
     imv \<leftarrow> may j ''input_media_version'' as_string; p \<leftarrow> need j ''payload'' Some; t \<leftarrow> need j ''created_at'' as_string;
     Some \<lparr>cf_cursor = c, cf_event_kind = k, cf_video_id = v, cf_hash_kind = hk, cf_hash_version = hv,
       cf_input_media_version = imv, cf_payload = p, cf_created_at = t\<rparr> }"

definition read_feed :: "json \<Rightarrow> client_feed_event list option" where
  "read_feed j = need j ''events'' (as_vec read_feed_event)"

definition read_cancel :: "json \<Rightarrow> (string \<times> string list) option" where
  "read_cancel j = do {
     m \<leftarrow> need j ''message'' as_string; r \<leftarrow> need j ''jobs_running_at_cancel'' (as_vec as_string); Some (m, r) }"

record job_flags =
  jf_scan_storj :: bool
  jf_scan_hetzner :: bool
  jf_phash :: bool
  jf_mirror :: bool
  jf_pipeline :: bool

text \<open>\<open>pipeline\<close> has a default for servers that do not send it.\<close>

definition read_job_status :: "json \<Rightarrow> job_flags option" where
  "read_job_status j = do {
     a \<leftarrow> need j ''scan_storj'' as_bool; b \<leftarrow> need j ''scan_hetzner'' as_bool; c \<leftarrow> need j ''phash'' as_bool;
     d \<leftarrow> need j ''mirror'' as_bool;
     e \<leftarrow> (case obj_field j ''pipeline'' of None \<Rightarrow> Some False | Some x \<Rightarrow> as_bool x);
     Some \<lparr>jf_scan_storj = a, jf_scan_hetzner = b, jf_phash = c, jf_mirror = d, jf_pipeline = e\<rparr> }"

definition read_config :: "json \<Rightarrow> job_config option" where
  "read_config j = do {
     a \<leftarrow> need j ''phash_concurrency'' as_usize; b \<leftarrow> need j ''mirror_concurrency'' as_usize;
     c \<leftarrow> need j ''scan_page_size'' as_i64;
     Some \<lparr>jc_phash_concurrency = a, jc_mirror_concurrency = b, jc_scan_page_size = c\<rparr> }"

definition read_video_entry :: "json \<Rightarrow> duplicate_video option" where
  "read_video_entry j = do {
     i \<leftarrow> need j ''video_id'' as_string; s \<leftarrow> may j ''storj_key'' as_string; h \<leftarrow> may j ''hetzner_key'' as_string;
     Some (i, s, h) }"

definition read_duplicate :: "json \<Rightarrow> duplicate_phash option" where
  "read_duplicate j = do {
     p \<leftarrow> need j ''phash'' as_string; k \<leftarrow> need j ''hash_kind'' as_string; v \<leftarrow> need j ''hash_version'' as_string;
     vs \<leftarrow> need j ''videos'' (as_vec read_video_entry);
     Some \<lparr>dp_phash = p, dp_hash_kind = k, dp_hash_version = v, dp_videos = vs\<rparr> }"

definition read_audit :: "json \<Rightarrow> (audit_stats \<times> duplicate_phash list) option" where
  "read_audit j = do {
     t \<leftarrow> need j ''total'' as_i64; p \<leftarrow> need j ''phash_computed'' as_i64; m \<leftarrow> need j ''mirrored'' as_i64;
     ms \<leftarrow> need j ''missing_storj'' as_i64; mh \<leftarrow> need j ''missing_hetzner'' as_i64;
     c \<leftarrow> need j ''cleanup_pending'' as_i64; f \<leftarrow> need j ''failed'' as_i64; e \<leftarrow> need j ''error_count'' as_i64;
     b \<leftarrow> need j ''status_breakdown'' as_counts; d \<leftarrow> need j ''duplicate_phashes'' (as_vec read_duplicate);
     Some (\<lparr>as_total = t, as_phash_computed = p, as_mirrored = m, as_missing_storj = ms, as_missing_hetzner = mh,
       as_cleanup_pending = c, as_failed = f, as_error_count = e, as_status_breakdown = b\<rparr>, d) }"

text \<open>A group also carries its count.\<close>

definition read_group :: "json \<Rightarrow> (nat \<times> duplicate_phash) option" where
  "read_group j = do { n \<leftarrow> need j ''count'' as_usize; g \<leftarrow> read_duplicate j; Some (n, g) }"

definition read_duplicates :: "json \<Rightarrow> (nat \<times> nat \<times> (nat \<times> duplicate_phash) list) option" where
  "read_duplicates j = do {
     n \<leftarrow> need j ''total_groups'' as_usize; v \<leftarrow> need j ''total_duplicate_videos'' as_usize;
     gs \<leftarrow> need j ''groups'' (as_vec read_group); Some (n, v, gs) }"

definition read_failed_job :: "json \<Rightarrow> (string \<times> string option) option" where
  "read_failed_job j = do { v \<leftarrow> need j ''video_id'' as_string; e \<leftarrow> may j ''error_message'' as_string; Some (v, e) }"

definition read_failed_jobs :: "json \<Rightarrow> (nat \<times> (string \<times> string option) list) option" where
  "read_failed_jobs j = do { n \<leftarrow> need j ''count'' as_usize; js \<leftarrow> need j ''jobs'' (as_vec read_failed_job); Some (n, js) }"

definition read_retry :: "json \<Rightarrow> int option" where
  "read_retry j = need j ''reset_count'' as_i64"

record client_job_run =
  cj_job_kind :: string
  cj_status :: string
  cj_requested_by :: string
  cj_started_at :: string
  cj_finished_at :: "string option"
  cj_totals :: "json option"
  cj_error_message :: "string option"

definition read_run :: "json \<Rightarrow> client_job_run option" where
  "read_run j = do {
     k \<leftarrow> need j ''job_kind'' as_string; s \<leftarrow> need j ''status'' as_string; r \<leftarrow> need j ''requested_by'' as_string;
     t \<leftarrow> need j ''started_at'' as_string; f \<leftarrow> may j ''finished_at'' as_string; tot \<leftarrow> may j ''totals'' Some;
     e \<leftarrow> may j ''error_message'' as_string;
     Some \<lparr>cj_job_kind = k, cj_status = s, cj_requested_by = r, cj_started_at = t, cj_finished_at = f, cj_totals = tot,
       cj_error_message = e\<rparr> }"

definition read_runs :: "json \<Rightarrow> client_job_run list option" where
  "read_runs j = need j ''runs'' (as_vec read_run)"

definition read_failure_group :: "json \<Rightarrow> failure_group option" where
  "read_failure_group j = do {
     p \<leftarrow> need j ''phase'' as_string; n \<leftarrow> need j ''count'' as_i64; s \<leftarrow> need j ''samples'' (as_vec as_string);
     Some \<lparr>fg_phase = p, fg_count = n, fg_samples = s\<rparr> }"

definition read_failures :: "json \<Rightarrow> failure_group list option" where
  "read_failures j = need j ''failures'' (as_vec read_failure_group)"

record client_chain_audit =
  cc_total_expected :: int
  cc_category_a :: int
  cc_category_b :: int
  cc_category_c :: int
  cc_category_d :: int
  cc_category_e :: int
  cc_excluded_by_status :: int
  cc_b_backing_off :: int
  cc_d_sample :: "(string \<times> string) list"
  cc_worst_creators :: "(string \<times> int) list"
  cc_remediated :: "json option"
  cc_snapshot_run_id :: "string option"
  cc_snapshot_status :: "string option"
  cc_snapshot_newest_fetched_at :: "string option"

definition read_chain_audit :: "json \<Rightarrow> client_chain_audit option" where
  "read_chain_audit j = do {
     t \<leftarrow> need j ''total_expected'' as_i64; a \<leftarrow> need j ''category_a'' as_i64; b \<leftarrow> need j ''category_b'' as_i64;
     c \<leftarrow> need j ''category_c'' as_i64; d \<leftarrow> need j ''category_d'' as_i64; e \<leftarrow> need j ''category_e'' as_i64;
     x \<leftarrow> need j ''excluded_by_status'' as_i64; bb \<leftarrow> need j ''b_backing_off'' as_i64;
     ds \<leftarrow> need j ''d_sample'' (as_vec (\<lambda>v. do {
       u \<leftarrow> need v ''video_uid'' as_string; cp \<leftarrow> need v ''creator_principal'' as_string; Some (u, cp) }));
     ws \<leftarrow> need j ''worst_creators'' (as_vec (\<lambda>v. do {
       cp \<leftarrow> need v ''creator_principal'' as_string; n \<leftarrow> need v ''non_clean'' as_i64; Some (cp, n) }));
     r \<leftarrow> may j ''remediated'' Some; i \<leftarrow> may j ''snapshot_run_id'' as_string; s \<leftarrow> may j ''snapshot_status'' as_string;
     f \<leftarrow> may j ''snapshot_newest_fetched_at'' as_string;
     Some \<lparr>cc_total_expected = t, cc_category_a = a, cc_category_b = b, cc_category_c = c, cc_category_d = d,
       cc_category_e = e, cc_excluded_by_status = x, cc_b_backing_off = bb, cc_d_sample = ds, cc_worst_creators = ws,
       cc_remediated = r, cc_snapshot_run_id = i, cc_snapshot_status = s, cc_snapshot_newest_fetched_at = f\<rparr> }"

section \<open>The methods\<close>

text \<open>A request without parameters and the reading of its answer.\<close>

definition plain_call :: "client_env \<Rightarrow> string \<Rightarrow> string \<Rightarrow> (json \<Rightarrow> 'a option) \<Rightarrow> 'a client_call" where
  "plain_call env meth path decode = (client_request env meth path [] None, json_answer decode)"

definition client_scan_storj :: "client_env \<Rightarrow> nat option \<Rightarrow> string option \<Rightarrow> bool option \<Rightarrow> unit client_call" where
  "client_scan_storj env lim prefix full_scan = post_job env ''/mirror/jobs/scan-storj'' lim prefix full_scan None"

definition client_scan_hetzner :: "client_env \<Rightarrow> nat option \<Rightarrow> string option \<Rightarrow> bool option \<Rightarrow> unit client_call" where
  "client_scan_hetzner env lim prefix full_scan = post_job env ''/mirror/jobs/scan-hetzner'' lim prefix full_scan None"

definition client_phash_backfill :: "client_env \<Rightarrow> nat option \<Rightarrow> unit client_call" where
  "client_phash_backfill env lim = post_job env ''/mirror/jobs/phash'' lim None None None"

definition client_mirror :: "client_env \<Rightarrow> nat option \<Rightarrow> unit client_call" where
  "client_mirror env lim = post_job env ''/mirror/jobs/mirror'' lim None None None"

definition trigger_pipeline :: "client_env \<Rightarrow> nat option \<Rightarrow> string option \<Rightarrow> bool option \<Rightarrow> unit client_call" where
  "trigger_pipeline env lim prefix full_scan = post_job env ''/mirror/jobs/run-pipeline'' lim prefix full_scan None"

definition client_audit :: "client_env \<Rightarrow> (audit_stats \<times> duplicate_phash list) client_call" where
  "client_audit env = plain_call env ''GET'' ''/mirror/audit'' read_audit"

definition client_duplicates :: "client_env \<Rightarrow> (nat \<times> nat \<times> (nat \<times> duplicate_phash) list) client_call" where
  "client_duplicates env = plain_call env ''GET'' ''/mirror/duplicates'' read_duplicates"

definition client_failed_jobs :: "client_env \<Rightarrow> (nat \<times> (string \<times> string option) list) client_call" where
  "client_failed_jobs env = plain_call env ''GET'' ''/mirror/jobs/failed'' read_failed_jobs"

definition client_retry_failed :: "client_env \<Rightarrow> int client_call" where
  "client_retry_failed env = plain_call env ''POST'' ''/mirror/jobs/retry-failed'' read_retry"

definition client_video_duplicates :: "client_env \<Rightarrow> string \<Rightarrow> (nat \<times> duplicate_phash) option client_call" where
  "client_video_duplicates env video_id = plain_call env ''GET'' (''/mirror/duplicates/'' @ video_id) (opt_of read_group)"

definition client_cancel_all :: "client_env \<Rightarrow> (string \<times> string list) client_call" where
  "client_cancel_all env = plain_call env ''POST'' ''/mirror/jobs/cancel'' read_cancel"

definition client_job_status :: "client_env \<Rightarrow> job_flags client_call" where
  "client_job_status env = plain_call env ''GET'' ''/mirror/jobs/status'' read_job_status"

definition config_get :: "client_env \<Rightarrow> job_config client_call" where
  "config_get env = plain_call env ''GET'' ''/mirror/config'' read_config"

definition media_import :: "client_env \<Rightarrow> nat option \<Rightarrow> unit client_call" where
  "media_import env lim = post_job env ''/media/import/video-index'' lim None None None"

definition media_phash :: "client_env \<Rightarrow> nat option \<Rightarrow> (int \<times> int) option \<Rightarrow> unit client_call" where
  "media_phash env lim shard = post_job env ''/media/phash/run'' lim None None shard"

definition media_cancel :: "client_env \<Rightarrow> json client_call" where
  "media_cancel env = plain_call env ''POST'' ''/media/jobs/cancel'' Some"

definition media_status :: "client_env \<Rightarrow> (bool \<times> bool) client_call" where
  "media_status env = plain_call env ''GET'' ''/media/jobs/status'' read_media_status"

definition media_sweep :: "client_env \<Rightarrow> sweep_status client_call" where
  "media_sweep env = plain_call env ''GET'' ''/media/sweep/status'' read_sweep"

definition media_audit :: "client_env \<Rightarrow> coverage_stats client_call" where
  "media_audit env = plain_call env ''GET'' ''/media/audit/missing-phash'' read_coverage"

definition media_feed :: "client_env \<Rightarrow> int option \<Rightarrow> nat option \<Rightarrow> client_feed_event list client_call" where
  "media_feed env after lim = (client_request env ''GET'' ''/media/feed/events''
     (opt_pair ''after'' show_int after @ opt_pair ''limit'' show_nat lim) None, json_answer read_feed)"

definition media_runs :: "client_env \<Rightarrow> string option \<Rightarrow> nat option \<Rightarrow> client_job_run list client_call" where
  "media_runs env job_kind lim = (client_request env ''GET'' ''/media/jobs/runs''
     (opt_pair ''job_kind'' id job_kind @ opt_pair ''limit'' show_nat lim) None, json_answer read_runs)"

definition media_failures :: "client_env \<Rightarrow> string option \<Rightarrow> nat option \<Rightarrow> failure_group list client_call" where
  "media_failures env job_kind lim = (client_request env ''GET'' ''/media/jobs/failures''
     (opt_pair ''job_kind'' id job_kind @ opt_pair ''limit'' show_nat lim) None, json_answer read_failures)"

text \<open>The fields that are not set are left out of the body.\<close>

definition update_json :: "config_update \<Rightarrow> json" where
  "update_json u = JObj (
     (case cu_phash_concurrency u of None \<Rightarrow> [] | Some n \<Rightarrow> [(''phash_concurrency'', JInt (int n))]) @
     (case cu_mirror_concurrency u of None \<Rightarrow> [] | Some n \<Rightarrow> [(''mirror_concurrency'', JInt (int n))]) @
     (case cu_scan_page_size u of None \<Rightarrow> [] | Some n \<Rightarrow> [(''scan_page_size'', JInt n)]))"

definition client_config_update :: "client_env \<Rightarrow> config_update \<Rightarrow> job_config client_call" where
  "client_config_update env u = (client_request env ''POST'' ''/mirror/config'' [] (Some (update_json u)), json_answer read_config)"

definition chain_snapshot :: "client_env \<Rightarrow> nat option \<Rightarrow> unit client_call" where
  "chain_snapshot env lim = post_job env ''/chain/snapshot'' lim None None None"

definition chain_status :: "client_env \<Rightarrow> json client_call" where
  "chain_status env = plain_call env ''GET'' ''/chain/snapshot/status'' Some"

definition client_chain_diagnose :: "client_env \<Rightarrow> json client_call" where
  "client_chain_diagnose env = plain_call env ''GET'' ''/chain/diagnose'' Some"

definition SKEW_MESSAGE :: string where
  "SKEW_MESSAGE = ''join-key match rate too low '' @ [CHR 0xE2, CHR 0x80, CHR 0x94] @
     '' snapshot/audit skew; investigate before trusting counts''"

definition client_chain_audit_call :: "client_env \<Rightarrow> bool \<Rightarrow> client_chain_audit client_call" where
  "client_chain_audit_call env remediate = (client_request env ''GET'' ''/chain/audit''
       (if remediate then [(''remediate'', ''true'')] else []) None,
     \<lambda>resp. if rp_status resp = 422 then Inl (ServerError 422 SKEW_MESSAGE) else json_answer read_chain_audit resp)"

text \<open>A call whose request was answered, or failed on the way.\<close>

definition perform :: "'a client_call \<Rightarrow> http_response option \<Rightarrow> mirror_error + 'a" where
  "perform call answer = (case answer of None \<Rightarrow> Inl HttpError | Some resp \<Rightarrow> snd call resp)"

section \<open>The client's own pipeline\<close>

text \<open>The client drives the three jobs itself: it starts one and asks for the status until its flag is down. The list holds the
  answers it gets, one for each request; the outcome is \<open>None\<close> while it waits for more.\<close>

fun poll :: "client_env \<Rightarrow> (job_flags \<Rightarrow> bool) \<Rightarrow> http_response option list \<Rightarrow>
    (mirror_error + http_response option list) option" where
  "poll env flag [] = None"
| "poll env flag (a # answers) = (case perform (client_job_status env) a of
       Inl e \<Rightarrow> Some (Inl e)
     | Inr s \<Rightarrow> if flag s then poll env flag answers else Some (Inr answers))"

definition pipeline_stage :: "client_env \<Rightarrow> unit client_call \<Rightarrow> (job_flags \<Rightarrow> bool) \<Rightarrow> http_response option list \<Rightarrow>
    (mirror_error + http_response option list) option" where
  "pipeline_stage env call flag answers = (case answers of
       [] \<Rightarrow> None
     | a # rest \<Rightarrow> (case perform call a of Inl e \<Rightarrow> Some (Inl e) | Inr _ \<Rightarrow> poll env flag rest))"

definition after_stage :: "(mirror_error + 'a) option \<Rightarrow> ('a \<Rightarrow> (mirror_error + 'b) option) \<Rightarrow> (mirror_error + 'b) option" where
  "after_stage r k = (case r of None \<Rightarrow> None | Some (Inl e) \<Rightarrow> Some (Inl e) | Some (Inr x) \<Rightarrow> k x)"

text \<open>The audit at the end is only printed: its failure is no failure of the pipeline.\<close>

definition client_run_pipeline :: "client_env \<Rightarrow> nat option \<Rightarrow> string option \<Rightarrow> bool option \<Rightarrow> http_response option list \<Rightarrow>
    (mirror_error + unit) option" where
  "client_run_pipeline env lim prefix full_scan answers =
     after_stage (pipeline_stage env (client_scan_hetzner env lim prefix full_scan) jf_scan_hetzner answers) (\<lambda>as1.
     after_stage (pipeline_stage env (client_phash_backfill env lim) jf_phash as1) (\<lambda>as2.
     after_stage (pipeline_stage env (client_mirror env lim) jf_mirror as2) (\<lambda>as3.
     if as3 = [] then None else Some (Inr ()))))"

section \<open>The command line\<close>

text \<open>The word after the first occurrence of a flag: \<open>args.windows(2).find\<close>.\<close>

fun arg_after :: "string \<Rightarrow> string list \<Rightarrow> string option" where
  "arg_after flag (a # b # args) = (if a = flag then Some b else arg_after flag (b # args))"
| "arg_after flag _ = None"

definition parse_limit :: "string list \<Rightarrow> nat option" where
  "parse_limit args = Option.bind (arg_after ''--limit'' args) parse_u64"

definition parse_prefix :: "string list \<Rightarrow> string option" where
  "parse_prefix args = arg_after ''--prefix'' args"

definition parse_full_scan :: "string list \<Rightarrow> bool option" where
  "parse_full_scan args = (if ''--full-scan'' \<in> set args then Some True else None)"

definition parse_after :: "string list \<Rightarrow> int option" where
  "parse_after args = Option.bind (arg_after ''--after'' args) parse_i64"

definition parse_job_kind :: "string list \<Rightarrow> string option" where
  "parse_job_kind args = arg_after ''--job-kind'' args"

definition parse_shard_arg :: "string list \<Rightarrow> int option" where
  "parse_shard_arg args = Option.bind (arg_after ''--shard'' args) parse_i64"

definition parse_of :: "string list \<Rightarrow> int option" where
  "parse_of args = Option.bind (arg_after ''--of'' args) parse_i64"

definition resolve_shard :: "string list \<Rightarrow> string + (int \<times> int) option" where
  "resolve_shard args = (case (parse_shard_arg args, parse_of args) of
       (None, None) \<Rightarrow> Inr None
     | (Some idx, Some n) \<Rightarrow> if 1 \<le> n \<and> 0 \<le> idx \<and> idx < n then Inr (Some (n, idx))
         else Inl ''--shard must satisfy 0 <= shard < of, and of >= 1''
     | _ \<Rightarrow> Inl ''--shard and --of must be provided together'')"

definition config_of_args :: "string list \<Rightarrow> config_update" where
  "config_of_args args = \<lparr>cu_phash_concurrency = Option.bind (arg_after ''--phash'' args) parse_u64,
     cu_mirror_concurrency = Option.bind (arg_after ''--mirror'' args) parse_u64,
     cu_scan_page_size = Option.bind (arg_after ''--page'' args) parse_i64\<rparr>"

text \<open>What a command line leads to: the request of one call, the client's own pipeline, or an exit with an error.\<close>

datatype command =
    Send http_request
  | LocalPipeline "nat option" "string option" "bool option"
  | ExitWith string
  | ExitUsage

definition command_of :: "client_env \<Rightarrow> string list \<Rightarrow> command" where
  "command_of env args = (let cmd = (case args of _ # c # _ \<Rightarrow> c | _ \<Rightarrow> []); lim = parse_limit args;
       prefix = parse_prefix args; full_scan = parse_full_scan args in
     if cmd = ''audit'' then Send (fst (client_audit env))
     else if cmd = ''duplicates'' then Send (fst (client_duplicates env))
     else if cmd = ''failed'' then Send (fst (client_failed_jobs env))
     else if cmd = ''retry-failed'' then Send (fst (client_retry_failed env))
     else if cmd = ''video-duplicates'' then (case arg_after ''--video'' args of
         None \<Rightarrow> ExitWith ''video-duplicates requires --video VIDEO_ID''
       | Some vid \<Rightarrow> Send (fst (client_video_duplicates env vid)))
     else if cmd = ''scan-storj'' then Send (fst (client_scan_storj env lim prefix full_scan))
     else if cmd = ''scan-hetzner'' then Send (fst (client_scan_hetzner env lim prefix full_scan))
     else if cmd = ''phash'' then Send (fst (client_phash_backfill env lim))
     else if cmd = ''mirror'' then Send (fst (client_mirror env lim))
     else if cmd = ''run-pipeline'' then LocalPipeline lim prefix full_scan
     else if cmd = ''run-pipeline-async'' then Send (fst (trigger_pipeline env lim prefix full_scan))
     else if cmd = ''cancel'' then Send (fst (client_cancel_all env))
     else if cmd = ''status'' then Send (fst (client_job_status env))
     else if cmd = ''config'' then Send (fst (config_get env))
     else if cmd = ''config-set'' then Send (fst (client_config_update env (config_of_args args)))
     else if cmd = ''media-import'' then Send (fst (media_import env lim))
     else if cmd = ''media-phash'' then (case resolve_shard args of
         Inl msg \<Rightarrow> ExitWith msg | Inr shard \<Rightarrow> Send (fst (media_phash env lim shard)))
     else if cmd = ''media-cancel'' then Send (fst (media_cancel env))
     else if cmd = ''media-status'' then Send (fst (media_status env))
     else if cmd = ''media-audit'' then Send (fst (media_audit env))
     else if cmd = ''media-sweep'' then Send (fst (media_sweep env))
     else if cmd = ''media-feed'' then Send (fst (media_feed env (parse_after args) lim))
     else if cmd = ''media-runs'' then Send (fst (media_runs env (parse_job_kind args) lim))
     else if cmd = ''media-failures'' then Send (fst (media_failures env (parse_job_kind args) lim))
     else if cmd = ''chain-snapshot'' then Send (fst (chain_snapshot env lim))
     else if cmd = ''chain-status'' then Send (fst (chain_status env))
     else if cmd = ''chain-diagnose'' then Send (fst (client_chain_diagnose env))
     else if cmd = ''chain-audit'' then Send (fst (client_chain_audit_call env (''--remediate'' \<in> set args)))
     else ExitUsage)"

end
