(* ===== verification/Operator_Service.thy ===== *)
theory Operator_Service
  imports Mirror_Client
begin

text \<open>
  The service as the operators' client meets it: the routes of \<open>src/main.rs\<close> under \<open>/mirror\<close>, \<open>/media\<close> and \<open>/chain\<close> with
  their guard and the extraction of their parameters, and the handlers behind them. What a client sends is what a handler
  gets, and what a handler answers is what the client reads.
\<close>

section \<open>Routes\<close>

datatype routed =
    ToScanStorj job_params | ToScanHetzner job_params | ToPhashBackfill job_params | ToMirror job_params
  | ToRunPipeline job_params | ToAudit | ToDuplicates | ToVideoDuplicates string | ToFailedJobs | ToRetryFailed
  | ToCancelAll | ToStatus | ToGetConfig | ToUpdateConfig config_update
  | ToImport import_params | ToMissingPhash | ToFeedEvents "int option" "int option" | ToRunPhash phash_params
  | ToCancelMedia | ToMediaStatus | ToRuns "string option" "int option" | ToFailures "string option" "int option"
  | ToSweepStatus | ToChainSnapshot snapshot_params | ToSnapshotStatus | ToChainAudit bool | ToDiagnose

text \<open>The derived readers of the query structures.\<close>

definition job_params_of :: "(string \<times> string) list \<Rightarrow> job_params option" where
  "job_params_of ps = do {
     l \<leftarrow> field_with parse_u64 ps ''limit''; p \<leftarrow> field_with Some ps ''prefix''; f \<leftarrow> field_with parse_bool ps ''full_scan'';
     Some \<lparr>jp_limit = l, jp_prefix = p, jp_full_scan = f\<rparr> }"

definition import_params_of :: "(string \<times> string) list \<Rightarrow> import_params option" where
  "import_params_of ps = do {
     r \<leftarrow> field_with Some ps ''requested_by''; l \<leftarrow> field_with parse_i64 ps ''limit'';
     Some \<lparr>ip_requested_by = r, ip_limit = l\<rparr> }"

definition feed_params_of :: "(string \<times> string) list \<Rightarrow> (int option \<times> int option) option" where
  "feed_params_of ps = do { a \<leftarrow> field_with parse_i64 ps ''after''; l \<leftarrow> field_with parse_i64 ps ''limit''; Some (a, l) }"

definition phash_params_of :: "(string \<times> string) list \<Rightarrow> phash_params option" where
  "phash_params_of ps = do {
     l \<leftarrow> field_with parse_i64 ps ''limit''; r \<leftarrow> field_with Some ps ''requested_by'';
     s \<leftarrow> field_with parse_i64 ps ''shard''; n \<leftarrow> field_with parse_i64 ps ''of'';
     Some \<lparr>pq_limit = l, pq_requested_by = r, pq_shard = s, pq_of = n\<rparr> }"

definition kind_params_of :: "(string \<times> string) list \<Rightarrow> (string option \<times> int option) option" where
  "kind_params_of ps = do { k \<leftarrow> field_with Some ps ''job_kind''; l \<leftarrow> field_with parse_i64 ps ''limit''; Some (k, l) }"

definition snapshot_params_of :: "(string \<times> string) list \<Rightarrow> snapshot_params option" where
  "snapshot_params_of ps = do {
     r \<leftarrow> field_with Some ps ''requested_by''; l \<leftarrow> field_with parse_u64 ps ''limit'';
     Some \<lparr>sp_requested_by = r, sp_limit = l\<rparr> }"

text \<open>\<open>remediate\<close> is a plain \<open>bool\<close> with a default.\<close>

definition audit_params_of :: "(string \<times> string) list \<Rightarrow> bool option" where
  "audit_params_of ps = map_option or_false (field_with parse_bool ps ''remediate'')"

definition update_of :: "json \<Rightarrow> config_update option" where
  "update_of j = do {
     a \<leftarrow> may j ''phash_concurrency'' as_usize; b \<leftarrow> may j ''mirror_concurrency'' as_usize; c \<leftarrow> may j ''scan_page_size'' as_i64;
     (case j of JObj _ \<Rightarrow> Some \<lparr>cu_phash_concurrency = a, cu_mirror_concurrency = b, cu_scan_page_size = c\<rparr> | _ \<Rightarrow> None) }"

text \<open>A query that cannot be read is a bad request; so is a body that is no JSON, and a JSON body of another shape cannot be
  processed.\<close>

definition with_params :: "('p \<Rightarrow> routed) \<Rightarrow> 'p option \<Rightarrow> nat + routed" where
  "with_params f p = (case p of None \<Rightarrow> Inl 400 | Some x \<Rightarrow> Inr (f x))"

definition update_route :: "json option \<Rightarrow> nat + routed" where
  "update_route body = (case body of None \<Rightarrow> Inl 400 | Some j \<Rightarrow>
     (case update_of j of None \<Rightarrow> Inl 422 | Some u \<Rightarrow> Inr (ToUpdateConfig u)))"

text \<open>The \<open>POST\<close> routes and the \<open>GET\<close> routes by their paths; \<open>ps\<close> are the pairs of the query. The id of a video is one segment
  of the path, decoded by \<open>seg\<close>.\<close>

definition post_route :: "(string \<times> string) list \<Rightarrow> json option \<Rightarrow> string \<Rightarrow> (nat + routed) option" where
  "post_route ps body path = (
     if path = ''/mirror/jobs/scan-storj'' then Some (with_params ToScanStorj (job_params_of ps))
     else if path = ''/mirror/jobs/scan-hetzner'' then Some (with_params ToScanHetzner (job_params_of ps))
     else if path = ''/mirror/jobs/phash'' then Some (with_params ToPhashBackfill (job_params_of ps))
     else if path = ''/mirror/jobs/mirror'' then Some (with_params ToMirror (job_params_of ps))
     else if path = ''/mirror/jobs/run-pipeline'' then Some (with_params ToRunPipeline (job_params_of ps))
     else if path = ''/mirror/jobs/retry-failed'' then Some (Inr ToRetryFailed)
     else if path = ''/mirror/jobs/cancel'' then Some (Inr ToCancelAll)
     else if path = ''/mirror/config'' then Some (update_route body)
     else if path = ''/media/import/video-index'' then Some (with_params ToImport (import_params_of ps))
     else if path = ''/media/phash/run'' then Some (with_params ToRunPhash (phash_params_of ps))
     else if path = ''/media/jobs/cancel'' then Some (Inr ToCancelMedia)
     else if path = ''/chain/snapshot'' then Some (with_params ToChainSnapshot (snapshot_params_of ps))
     else None)"

definition get_route :: "(string \<Rightarrow> string option) \<Rightarrow> (string \<times> string) list \<Rightarrow> string \<Rightarrow> (nat + routed) option" where
  "get_route seg ps path = (
     if path = ''/mirror/audit'' then Some (Inr ToAudit)
     else if path = ''/mirror/duplicates'' then Some (Inr ToDuplicates)
     else if path = ''/mirror/jobs/failed'' then Some (Inr ToFailedJobs)
     else if path = ''/mirror/jobs/status'' then Some (Inr ToStatus)
     else if path = ''/mirror/config'' then Some (Inr ToGetConfig)
     else if path = ''/media/audit/missing-phash'' then Some (Inr ToMissingPhash)
     else if path = ''/media/feed/events'' then Some (with_params (\<lambda>(a, l). ToFeedEvents a l) (feed_params_of ps))
     else if path = ''/media/jobs/status'' then Some (Inr ToMediaStatus)
     else if path = ''/media/jobs/runs'' then Some (with_params (\<lambda>(k, l). ToRuns k l) (kind_params_of ps))
     else if path = ''/media/jobs/failures'' then Some (with_params (\<lambda>(k, l). ToFailures k l) (kind_params_of ps))
     else if path = ''/media/sweep/status'' then Some (Inr ToSweepStatus)
     else if path = ''/chain/snapshot/status'' then Some (Inr ToSnapshotStatus)
     else if path = ''/chain/audit'' then Some (with_params ToChainAudit (audit_params_of ps))
     else if path = ''/chain/diagnose'' then Some (Inr ToDiagnose)
     else (case strip_prefix ''/mirror/duplicates/'' path of
         Some v \<Rightarrow> if v = [] \<or> CHR ''/'' \<in> set v then None else Some (with_params ToVideoDuplicates (seg v))
       | None \<Rightarrow> None))"

text \<open>The guard of a route comes before its methods and its parameters; a path without a route is not found.\<close>

record service_env =
  se_crypto :: crypto
  se_secret :: string
  se_now :: int
  se_dec :: "string \<Rightarrow> string"
  se_seg :: "string \<Rightarrow> string option"

definition serve :: "service_env \<Rightarrow> http_request \<Rightarrow> nat + routed" where
  "serve env r = (let ps = form_pairs (se_dec env) (hq_query r);
       post = post_route ps (hq_body r) (hq_path r); get = get_route (se_seg env) ps (hq_path r) in
     if post = None \<and> get = None then Inl 404
     else (case authorize (se_crypto env) (se_secret env) (se_now env) r of
         Inl status \<Rightarrow> Inl status
       | Inr _ \<Rightarrow> (case (if hq_method r = ''POST'' then post
            else if hq_method r = ''GET'' \<or> hq_method r = ''HEAD'' then get else None) of
           None \<Rightarrow> Inl 405 | Some x \<Rightarrow> x)))"

section \<open>Handlers\<close>

record service_state =
  op_jobs :: job_state
  op_config :: job_config
  op_db :: pgdb

definition only_status :: "nat \<Rightarrow> http_response" where
  "only_status st = \<lparr>rp_status = st, rp_json = None, rp_text = []\<rparr>"

definition ok_json :: "json \<Rightarrow> http_response" where
  "ok_json j = \<lparr>rp_status = 200, rp_json = Some j, rp_text = []\<rparr>"

definition job_answer :: "(job_state \<Rightarrow> nat \<times> job_state) \<Rightarrow> service_state \<Rightarrow> http_response \<times> service_state" where
  "job_answer h s = (case h (op_jobs s) of (st, j) \<Rightarrow> (only_status st, s\<lparr>op_jobs := j\<rparr>))"

definition db_answer :: "json route \<Rightarrow> fault_plan \<Rightarrow> service_state \<Rightarrow> http_response \<times> service_state" where
  "db_answer m p s = (case m (p, op_db s) of
       (Inl st, _, d) \<Rightarrow> (only_status st, s\<lparr>op_db := d\<rparr>)
     | (Inr j, _, d) \<Rightarrow> (ok_json j, s\<lparr>op_db := d\<rparr>))"

text \<open>The answer of a handler; \<open>rfc\<close> and \<open>txt\<close> render times, \<open>p\<close> are the faults of its statements.\<close>

fun handle :: "(int \<Rightarrow> string) \<Rightarrow> (int \<Rightarrow> string) \<Rightarrow> fault_plan \<Rightarrow> routed \<Rightarrow> service_state \<Rightarrow> http_response \<times> service_state" where
  "handle rfc txt p (ToScanStorj q) s = job_answer (scan_storj_handler q) s"
| "handle rfc txt p (ToScanHetzner q) s = job_answer (scan_hetzner_handler q) s"
| "handle rfc txt p (ToPhashBackfill q) s = job_answer (phash_backfill_handler q) s"
| "handle rfc txt p (ToMirror q) s = job_answer (mirror_handler q) s"
| "handle rfc txt p (ToRunPipeline q) s = job_answer (run_pipeline_handler q) s"
| "handle rfc txt p ToAudit s = db_answer audit p s"
| "handle rfc txt p ToDuplicates s = db_answer duplicates p s"
| "handle rfc txt p (ToVideoDuplicates v) s = db_answer (video_duplicates v) p s"
| "handle rfc txt p ToFailedJobs s = db_answer failed_jobs p s"
| "handle rfc txt p ToRetryFailed s = db_answer retry_failed p s"
| "handle rfc txt p ToCancelAll s = (case cancel_all (op_jobs s) of (j, js) \<Rightarrow> (ok_json j, s\<lparr>op_jobs := js\<rparr>))"
| "handle rfc txt p ToStatus s = (ok_json (job_status (op_jobs s)), s)"
| "handle rfc txt p ToGetConfig s = (ok_json (config_json (op_config s)), s)"
| "handle rfc txt p (ToUpdateConfig u) s = (case update_config u (op_config s) of (j, c) \<Rightarrow> (ok_json j, s\<lparr>op_config := c\<rparr>))"
| "handle rfc txt p (ToImport q) s = job_answer (import_video_index q) s"
| "handle rfc txt p ToMissingPhash s = db_answer missing_phash_audit p s"
| "handle rfc txt p (ToFeedEvents a l) s = db_answer (feed_events rfc a l) p s"
| "handle rfc txt p (ToRunPhash q) s = job_answer (run_phash q) s"
| "handle rfc txt p ToCancelMedia s = (case cancel_media_jobs (op_jobs s) of (j, js) \<Rightarrow> (ok_json j, s\<lparr>op_jobs := js\<rparr>))"
| "handle rfc txt p ToMediaStatus s = (ok_json (media_jobs_status (op_jobs s)), s)"
| "handle rfc txt p (ToRuns k l) s = db_answer (media_jobs_runs rfc k l) p s"
| "handle rfc txt p (ToFailures k l) s = db_answer (media_jobs_failures k l) p s"
| "handle rfc txt p ToSweepStatus s = db_answer (media_sweep_status rfc) p s"
| "handle rfc txt p (ToChainSnapshot q) s = job_answer (chain_snapshot_start q) s"
| "handle rfc txt p ToSnapshotStatus s = db_answer (chain_snapshot_status rfc) p s"
| "handle rfc txt p (ToChainAudit remediate) s = (case chain_audit_handler txt remediate (op_jobs s) (p, op_db s) of
       (Inl st, _, d) \<Rightarrow> (only_status st, s\<lparr>op_db := d\<rparr>)
     | (Inr (j, js), _, d) \<Rightarrow> (ok_json j, s\<lparr>op_jobs := js, op_db := d\<rparr>))"
| "handle rfc txt p ToDiagnose s = db_answer chain_diagnose p s"

definition service_answer :: "service_env \<Rightarrow> (int \<Rightarrow> string) \<Rightarrow> (int \<Rightarrow> string) \<Rightarrow> fault_plan \<Rightarrow> http_request \<Rightarrow> service_state \<Rightarrow>
    http_response \<times> service_state" where
  "service_answer env rfc txt p r s = (case serve env r of Inl st \<Rightarrow> (only_status st, s) | Inr c \<Rightarrow> handle rfc txt p c s)"

end
