(* ===== verification/Job_Routes_Props.thy ===== *)
theory Job_Routes_Props
  imports Job_Routes Media_Repo_Props
begin

text \<open>
  The properties of the operators' handlers: the reports change nothing, the chain audit changes nothing unless it is
  asked to and its match gate holds, and a remediation brings the videos without a hash back to the drain.
\<close>

section \<open>Reports\<close>

named_theorems reading "handlers that leave the database as it is"

definition reads :: "(pgdb, 'e, 'a) proc \<Rightarrow> bool" where
  "reads m \<longleftrightarrow> (\<forall>d. preserves (\<lambda>d'. d' = d) m)"

lemma reads_ret [reading]: "reads (ret x)" "reads (raise e)"
  by (auto simp: reads_def intro: pres)

lemma reads_bnd [reading]: "reads m \<Longrightarrow> (\<And>x. reads (k x)) \<Longrightarrow> reads (bnd m k)"
  by (auto simp: reads_def intro!: pres)

lemma reads_map_err [reading]: "reads m \<Longrightarrow> reads (map_err g m)"
  by (auto simp: reads_def intro!: pres)

lemma reads_or_500 [reading]: "reads m \<Longrightarrow> reads (or_500 m)"
  unfolding or_500_def by (rule reads_map_err)

lemma reads_query [reading]: "reads (query q)"
  by (auto simp: reads_def intro: pres)

lemma reads_stmt: "(\<And>d x d'. f d = Inr (x, d') \<Longrightarrow> d' = d) \<Longrightarrow> reads (stmt f)"
  unfolding reads_def by (intro allI pres_stmt) blast

lemma reads_connected [reading]: "reads m \<Longrightarrow> reads (connected m)"
  unfolding connected_def by (intro reading) (simp add: reads_def pres_exec)

lemma reads_for_each [reading]: "(\<And>x c. reads (body x c)) \<Longrightarrow> reads (for_each body xs c)"
  by (induction xs arbitrary: c) (auto intro: reading)

lemma reads_stmts [reading]:
  "reads (recent_job_runs k n)" "reads (join_key_match_counts n)" "reads (category_d_sample n)" "reads (worst_creators n)"
  "reads (category_b_video_ids n)"
  unfolding recent_job_runs_def join_key_match_counts_def category_d_sample_def worst_creators_def category_b_video_ids_def
  by (rule reads_stmt, auto simp: Let_def split: if_splits)+

lemma reads_limited: "reads (stmt (\<lambda>d. if n < 0 then Inl e else Inr (f d, d)))"
  by (rule reads_stmt) (auto split: if_splits)

lemma reads_repo [reading]:
  "reads get_audit_stats" "reads get_failed_jobs" "reads get_duplicate_phashes" "reads (get_duplicates_for_video v)"
  "reads canonical_phash_coverage" "reads (list_feed_events_after a l)" "reads read_lease" "reads (failure_summary k n)"
  "reads snapshot_freshness_of" "reads chain_audit" "reads (join_key_diag_of n)"
  unfolding get_audit_stats_def get_failed_jobs_def get_duplicate_phashes_def get_duplicates_for_video_def
    canonical_phash_coverage_def list_feed_events_after_def read_lease_def failure_summary_def snapshot_freshness_of_def
    chain_audit_def join_key_diag_of_def
  by (auto intro!: reading reads_limited split: sum.split prod.split)

lemma reads_db_after: "reads m \<Longrightarrow> db_after m (p, d) = d"
  unfolding reads_def by (auto dest: preservesD)

text \<open>The reports only read: whatever statement fails, each of them leaves the database as it found it, and the chain
  audit that is not asked to remediate starts no import either.\<close>

lemma reports_only_read:
  "db_after audit (p, d) = d \<and> db_after failed_jobs (p, d) = d \<and> db_after (video_duplicates v) (p, d) = d \<and>
   db_after duplicates (p, d) = d \<and> db_after missing_phash_audit (p, d) = d \<and> db_after (feed_events rfc a l) (p, d) = d \<and>
   db_after (media_jobs_runs rfc k l) (p, d) = d \<and> db_after (media_sweep_status rfc) (p, d) = d \<and>
   db_after (media_jobs_failures k l) (p, d) = d \<and> db_after (chain_snapshot_status rfc) (p, d) = d \<and>
   db_after chain_diagnose (p, d) = d \<and> db_after (chain_audit_handler txt False s) (p, d) = d \<and>
   (case result_of (chain_audit_handler txt False s) (p, d) of Inl _ \<Rightarrow> True | Inr (_, s') \<Rightarrow> s' = s)"
proof -
  have "reads (chain_audit_handler txt False s)"
    unfolding chain_audit_handler_def by (auto intro!: reading)
  then have audit: "db_after (chain_audit_handler txt False s) (p, d) = d" by (rule reads_db_after)
  have "snd x = s" if "chain_audit_handler txt False s (p, d) = (Inr x, q, d')" for x q d'
    using that unfolding chain_audit_handler_def connected_def
    by (auto simp: run_bnd split: prod.splits sum.splits if_splits)
  then have "case result_of (chain_audit_handler txt False s) (p, d) of Inl _ \<Rightarrow> True | Inr (_, s') \<Rightarrow> s' = s"
    by (cases "chain_audit_handler txt False s (p, d)") (auto simp: result_of_def split: sum.split)
  moreover have "reads audit" "reads failed_jobs" "reads (video_duplicates v)" "reads duplicates" "reads missing_phash_audit"
      "reads (feed_events rfc a l)" "reads (media_jobs_runs rfc k l)" "reads (media_sweep_status rfc)"
      "reads (media_jobs_failures k l)" "reads (chain_snapshot_status rfc)" "reads chain_diagnose"
    unfolding audit_def failed_jobs_def video_duplicates_def duplicates_def missing_phash_audit_def feed_events_def
      media_jobs_runs_def media_sweep_status_def media_jobs_failures_def chain_snapshot_status_def chain_diagnose_def
    by (intro reading)+
  ultimately show ?thesis using audit reads_db_after by blast
qed

section \<open>Remediation\<close>

lemma key_hashed_of: "has_hash HASH_KIND HASH_VERSION INPUT_MEDIA_VERSION d v \<Longrightarrow> key_hashed d (video_key v)"
  unfolding has_hash_def has_key_def key_hashed_def list_ex_iff hash_key_def by force

definition category_b_ids :: "pgdb \<Rightarrow> string list" where
  "category_b_ids d = remdups (concat (map (\<lambda>u. if key_hashed d (uid_key u) then []
     else map sv_video_id (filter (\<lambda>m. video_key (sv_video_id m) = uid_key u \<and> sv_servable_status m = ''servable'')
       (servable_videos d))) (expected_uids d)))"

definition cleared :: "string list \<Rightarrow> pgdb \<Rightarrow> pgdb" where
  "cleared ids d = db_after (clear_phash_failures ids) ([], d)"

lemma cleared_eq:
  "servable_videos (cleared ids d) = servable_videos d" "video_hashes (cleared ids d) = video_hashes d" "now_us (cleared ids d) = now_us d"
  "set (job_failures (cleared ids d)) = {f \<in> set (job_failures d). \<not> (jf_job_kind f = JOB_KIND \<and>
     (\<exists>v \<in> set ids. jf_video_id f = Some v))}"
  by (auto simp: cleared_def clear_phash_failures_def db_after_def run_simps Let_def split: option.splits)

text \<open>A remediation whose match gate holds and in which no statement fails deletes the hash failures of every servable
  master row without a hash that stands for an expected post, so that the drain selects each of them again, and starts an
  import exactly when a post waits for one and no import runs.\<close>

lemma remediation_unblocks_drain:
  assumes gate: "join_key_match_counts 200 ([], d) = (Inr rate, [], d)" "\<not> rate_below_half rate"
    and few: "length (category_b_ids d) \<le> 100000"
    and others: "\<And>f. f \<in> set (job_failures d) \<Longrightarrow> jf_job_kind f \<noteq> JOB_KIND \<Longrightarrow> jf_next_retry_at f = None"
  shows "\<exists>j s' d'. chain_audit_handler txt True s ([], d) = (Inr (j, s'), [], d') \<and>
     (\<forall>u \<in> set (expected_uids d). \<forall>v \<in> set (servable_videos d). \<not> key_hashed d (uid_key u) \<and>
        video_key (sv_video_id v) = uid_key u \<and> sv_servable_status v = ''servable'' \<longrightarrow>
        to_missing_row v \<in> set (missing_rows ht HASH_KIND HASH_VERSION INPUT_MEDIA_VERSION None None d')) \<and>
     s' = (if list_ex (is_category d CatC) (expected_uids d) then snd (start_job (RunImport ''chain_audit_remediate'' None) s) else s)"
proof -
  let ?ids = "category_b_ids d"
  have ids: "category_b_video_ids 100000 ([], d) = (Inr ?ids, [], d)"
    using few by (simp add: category_b_video_ids_def run_stmt category_b_ids_def limit_rows_def)
  have clear: "\<exists>n. clear_phash_failures ?ids ([], d) = (Inr n, [], cleared ?ids d)"
    by (simp add: cleared_def clear_phash_failures_def db_after_def run_simps Let_def)
  have fresh: "\<exists>x. snapshot_freshness_of ([], d) = (Inr x, [], d)"
    by (simp add: snapshot_freshness_of_def run_bnd run_query)
  have lims: "\<exists>x. category_d_sample 100 ([], d) = (Inr x, [], d)" "\<exists>x. worst_creators 50 ([], d) = (Inr x, [], d)"
    by (simp_all add: category_d_sample_def worst_creators_def run_stmt)
  obtain rep where rep: "chain_audit ([], d) = (Inr rep, [], d)"
    and c: "0 < category_c rep \<longleftrightarrow> list_ex (is_category d CatC) (expected_uids d)"
    by (auto simp: chain_audit_def run_query Let_def count_where_def list_ex_iff filter_empty_conv)
  obtain j where run: "chain_audit_handler txt True s ([], d) = (Inr (j, snd (remediate_import (category_c rep) s)), [], cleared ?ids d)"
    using fresh lims clear gate ids rep
    by (cases "remediate_import (category_c rep) s")
      (auto simp: chain_audit_handler_def connected_def or_500_def run_bnd run_map_err run_exec)
  have "to_missing_row v \<in> set (missing_rows ht HASH_KIND HASH_VERSION INPUT_MEDIA_VERSION None None (cleared ?ids d))"
    if u: "u \<in> set (expected_uids d)" "\<not> key_hashed d (uid_key u)"
      and v: "v \<in> set (servable_videos d)" "video_key (sv_video_id v) = uid_key u" "sv_servable_status v = ''servable''" for u v
  proof -
    have "sv_video_id v \<in> set ?ids" using u v by (auto simp: category_b_ids_def)
    then have "not_backing_off (cleared ?ids d) (sv_video_id v)"
      using others by (auto simp: not_backing_off_def backing_off_def cleared_eq)
    moreover have "\<not> has_hash HASH_KIND HASH_VERSION INPUT_MEDIA_VERSION (cleared ?ids d) (sv_video_id v)"
      using key_hashed_of [of d "sv_video_id v"] u(2) v(2) by (auto simp: has_hash_def cleared_eq)
    ultimately show ?thesis
      using v(1) by (auto simp: missing_rows_set cleared_eq beyond_def in_shard_def)
  qed
  moreover have "snd (remediate_import (category_c rep) s) =
      (if list_ex (is_category d CatC) (expected_uids d) then snd (start_job (RunImport ''chain_audit_remediate'' None) s) else s)"
    using c by (auto simp: remediate_import_def split: prod.split)
  ultimately show ?thesis using run by blast
qed

text \<open>The gate: below one half nothing is changed and nothing started, whatever is asked.\<close>

lemma closed_gate:
  assumes "join_key_match_counts 200 ([], d) = (Inr rate, [], d)" "rate_below_half rate"
  shows "chain_audit_handler txt remediate s ([], d) = (Inl 422, [], d)"
proof -
  have "\<exists>x. snapshot_freshness_of ([], d) = (Inr x, [], d)"
    by (simp add: snapshot_freshness_of_def run_bnd run_query)
  then show ?thesis
    using assms by (auto simp: chain_audit_handler_def connected_def or_500_def run_bnd run_map_err run_exec)
qed

text \<open>One servable master row without a hash, for a post of the chain, whose hash failure backs off.\<close>

definition stuck_db :: pgdb where
  "stuck_db = one_post_db\<lparr>servable_videos := [sv_fresh 1 (sample_video\<lparr>sv_video_id := ''alice/u-1''\<rparr>)],
     job_failures := [\<lparr>jf_job_run_id = None, jf_job_kind = JOB_KIND, jf_item_key = ''alice/u-1'', jf_video_id = Some ''alice/u-1'',
       jf_phase = ''hash'', jf_source_ref = None, jf_retry_count = 3, jf_last_error = ''e'', jf_next_retry_at = Some 100,
       jf_status = ''pending_retry'', jf_created_at = 1, jf_updated_at = 1\<rparr>]\<rparr>"

lemma stuck_facts:
  "live_posts stuck_db = yral_posts one_post_db" "key_in_master stuck_db (uid_key ''u-1'')" "\<not> key_hashed stuck_db (uid_key ''u-1'')"
  "expected_uids stuck_db = [''u-1'']" "video_key ''alice/u-1'' = uid_key ''u-1''"
proof -
  show live: "live_posts stuck_db = yral_posts one_post_db"
    by (simp add: live_posts_def stuck_db_def one_post_db_def staged_post_def)
  show key: "video_key ''alice/u-1'' = uid_key ''u-1''" by (simp add: video_key_def after_last_slash_def)
  then show "key_in_master stuck_db (uid_key ''u-1'')" by (simp add: key_in_master_def stuck_db_def)
  show "\<not> key_hashed stuck_db (uid_key ''u-1'')" by (simp add: key_hashed_def stuck_db_def one_post_db_def empty_db_def)
  show "expected_uids stuck_db = [''u-1'']"
    by (simp add: expected_uids_def live_uids_def is_expected_def live one_post_db_def staged_post_def expected_status_def)
qed

lemma remediation_unblocks_drain_witness:
  "missing_rows (\<lambda>_. 0) HASH_KIND HASH_VERSION INPUT_MEDIA_VERSION None None stuck_db = [] \<and>
   (\<exists>j s' d'. chain_audit_handler (\<lambda>_. []) True initial_jobs ([], stuck_db) = (Inr (j, s'), [], d') \<and>
      to_missing_row (hd (servable_videos stuck_db)) \<in> set (missing_rows (\<lambda>_. 0) HASH_KIND HASH_VERSION INPUT_MEDIA_VERSION None None d'))"
proof -
  let ?v = "hd (servable_videos stuck_db)"
  have v: "?v \<in> set (servable_videos stuck_db)" "sv_video_id ?v = ''alice/u-1''" "sv_servable_status ?v = ''servable''"
    by (simp_all add: stuck_db_def) (simp add: sv_fresh_def sample_video_def servable_video_input.defs servable_video.defs)
  have "join_key_match_counts 200 ([], stuck_db) = (Inr (1, 1), [], stuck_db)"
    using stuck_facts(1,2) by (simp add: join_key_match_counts_def run_stmt one_post_db_def staged_post_def expected_status_def
        limit_rows_def count_where_def)
  moreover have "length (category_b_ids stuck_db) \<le> 100000"
    using stuck_facts(4) by (simp add: category_b_ids_def stuck_db_def)
  moreover have "jf_next_retry_at f = None" if "f \<in> set (job_failures stuck_db)" "jf_job_kind f \<noteq> JOB_KIND" for f
    using that by (simp add: stuck_db_def)
  ultimately have "\<exists>j s' d'. chain_audit_handler (\<lambda>_. []) True initial_jobs ([], stuck_db) = (Inr (j, s'), [], d') \<and>
      to_missing_row ?v \<in> set (missing_rows (\<lambda>_. 0) HASH_KIND HASH_VERSION INPUT_MEDIA_VERSION None None d')"
    using remediation_unblocks_drain [where d = stuck_db and rate = "(1, 1)" and s = initial_jobs and ht = "\<lambda>_. 0"]
      v stuck_facts(3-5) by (fastforce simp: rate_below_half_def)
  moreover have "missing_rows (\<lambda>_. 0) HASH_KIND HASH_VERSION INPUT_MEDIA_VERSION None None stuck_db = []"
    by (simp add: missing_rows_def stuck_db_def one_post_db_def not_backing_off_def backing_off_def empty_db_def)
  ultimately show ?thesis by blast
qed

end
