(* ===== verification/Operator_Props.thy ===== *)
theory Operator_Props
  imports Operator_Service Job_Routes_Props
begin

text \<open>
  The client and the service together: the job a client asks for is the job that is started, the tuning it sends is the
  tuning it reads back, the reports are read as they were made, and no request without a signature changes anything.
\<close>

section \<open>Texts and numbers\<close>

lemma parse_i64_show_int:
  assumes "- (2 ^ 63) \<le> n" "n < 2 ^ 63"
  shows "parse_i64 (show_int n) = Some n"
proof (cases "n < 0")
  case True
  then show ?thesis using assms read_show_nat [of "nat (- n)"] by (simp add: parse_i64_def show_int_def)
next
  case False
  then show ?thesis using assms parse_i64_show_nat [of "nat n"] by (simp add: show_int_def)
qed

lemma parse_bool_show [simp]: "parse_bool (show_bool b) = Some b"
  by (simp add: parse_bool_def show_bool_def)

lemma field_with_simps [simp]:
  "field_with parse [] name = Some None"
  "k \<noteq> name \<Longrightarrow> field_with parse ((k, v) # ps) name = field_with parse ps name"
  "\<forall>p \<in> set ps. fst p \<noteq> name \<Longrightarrow> field_with parse ((name, v) # ps) name = map_option Some (parse v)"
  by (simp_all add: field_with_def filter_False)

lemma parse_limit_range: "parse_limit args = Some n \<Longrightarrow> n < 2 ^ 64"
  by (auto simp: parse_limit_def parse_u64_def bind_eq_Some_conv split: option.splits if_splits)

section \<open>A request of the client at the service\<close>

text \<open>Client and service fit together: one secret, one cryptography, an encoding of queries that is read back, clocks at most
  five minutes apart, and plain paths that arrive as they are.\<close>

definition plain_path :: "string \<Rightarrow> bool" where
  "plain_path path \<longleftrightarrow> list_all (\<lambda>c. c = CHR ''/'' \<or> c = CHR ''-'' \<or> CHR ''a'' \<le> c \<and> c \<le> CHR ''z'') path"

definition linked :: "client_env \<Rightarrow> service_env \<Rightarrow> bool" where
  "linked env senv \<longleftrightarrow> hex_ok (cl_crypto env) (cl_hex env) \<and> se_crypto senv = cl_crypto env \<and>
     se_secret senv = mk_secret (cl_client env) \<and> codec_ok (cl_enc env) (se_dec senv) \<and>
     (\<forall>path. plain_path path \<longrightarrow> cl_route env path = path) \<and>
     cl_now env < 2 ^ 62 \<and> 0 \<le> se_now senv \<and> se_now senv < 2 ^ 62 \<and> \<bar>se_now senv - int (cl_now env)\<bar> \<le> 300"

lemma serve_client:
  assumes "linked env senv" and "cl_route env path = path"
  shows "serve senv (client_request env meth path ps body) = (let post = post_route ps body path; get = get_route (se_seg senv) ps path in
     if post = None \<and> get = None then Inl 404
     else (case (if meth = ''POST'' then post else if meth = ''GET'' \<or> meth = ''HEAD'' then get else None) of
        None \<Rightarrow> Inl 405 | Some x \<Rightarrow> x))"
proof -
  let ?r = "client_request env meth path ps body"
  have r: "hq_path ?r = path" "hq_method ?r = meth" "hq_body ?r = body" "form_pairs (se_dec senv) (hq_query ?r) = ps"
    using assms by (simp_all add: client_request_def signed_request_def sign_def Let_def linked_def form_of_query)
  have "authorize (se_crypto senv) (se_secret senv) (se_now senv) ?r = Inr ()"
    using assms client_is_authorized [where cr = "cl_crypto env" and hex = "cl_hex env" and client = "cl_client env" and
        sent_at = "cl_now env" and route = "cl_route env" and path = path]
    by (simp add: client_request_def linked_def)
  then show ?thesis unfolding serve_def r Let_def by simp
qed

lemma serve_plain:
  assumes "linked env senv" and "plain_path path"
  shows "serve senv (client_request env meth path ps body) = (let post = post_route ps body path; get = get_route (se_seg senv) ps path in
     if post = None \<and> get = None then Inl 404
     else (case (if meth = ''POST'' then post else if meth = ''GET'' \<or> meth = ''HEAD'' then get else None) of
        None \<Rightarrow> Inl 405 | Some x \<Rightarrow> x))"
  using assms by (intro serve_client) (simp_all add: linked_def)

section \<open>Starting jobs\<close>

datatype job_request =
    AskScanStorj "nat option" "string option" "bool option"
  | AskScanHetzner "nat option" "string option" "bool option"
  | AskPhash "nat option"
  | AskMirror "nat option"
  | AskPipeline "nat option" "string option" "bool option"
  | AskImport "nat option"
  | AskMediaPhash "nat option" "(int \<times> int) option"
  | AskSnapshot "nat option"

fun job_request_call :: "client_env \<Rightarrow> job_request \<Rightarrow> unit client_call" where
  "job_request_call env (AskScanStorj l p f) = client_scan_storj env l p f"
| "job_request_call env (AskScanHetzner l p f) = client_scan_hetzner env l p f"
| "job_request_call env (AskPhash l) = client_phash_backfill env l"
| "job_request_call env (AskMirror l) = client_mirror env l"
| "job_request_call env (AskPipeline l p f) = trigger_pipeline env l p f"
| "job_request_call env (AskImport l) = media_import env l"
| "job_request_call env (AskMediaPhash l sh) = media_phash env l sh"
| "job_request_call env (AskSnapshot l) = chain_snapshot env l"

text \<open>The job each of them stands for.\<close>

fun job_asked :: "job_request \<Rightarrow> job_call" where
  "job_asked (AskScanStorj l p f) = RunScan ScanStorj l p (f = Some True)"
| "job_asked (AskScanHetzner l p f) = RunScan ScanHetzner l p (f = Some True)"
| "job_asked (AskPhash l) = RunBackfill PhashBackfill l"
| "job_asked (AskMirror l) = RunBackfill MirrorCopy l"
| "job_asked (AskPipeline l p f) = RunScan Pipeline l p (f = Some True)"
| "job_asked (AskImport l) = RunImport ''media_import_api'' (map_option int l)"
| "job_asked (AskMediaPhash l sh) = RunMediaPhash (map_option int l) ''media_phash_api'' sh"
| "job_asked (AskSnapshot l) = RunSnapshot ''chain_snapshot_api'' l"

text \<open>The limits a service accepts: 64 bits, without a sign for the mirror and the chain, with one for the media jobs.\<close>

definition under :: "nat \<Rightarrow> nat option \<Rightarrow> bool" where
  "under b l = (case l of None \<Rightarrow> True | Some n \<Rightarrow> n < b)"

fun job_in_range :: "job_request \<Rightarrow> bool" where
  "job_in_range (AskImport l) = under (2 ^ 63) l"
| "job_in_range (AskMediaPhash l sh) = (under (2 ^ 63) l \<and>
     (case sh of None \<Rightarrow> True | Some (n, idx) \<Rightarrow> 1 \<le> n \<and> 0 \<le> idx \<and> idx < n \<and> n < 2 ^ 63))"
| "job_in_range (AskScanStorj l _ _) = under (2 ^ 64) l"
| "job_in_range (AskScanHetzner l _ _) = under (2 ^ 64) l"
| "job_in_range (AskPhash l) = under (2 ^ 64) l"
| "job_in_range (AskMirror l) = under (2 ^ 64) l"
| "job_in_range (AskPipeline l _ _) = under (2 ^ 64) l"
| "job_in_range (AskSnapshot l) = under (2 ^ 64) l"

lemma under_Some [simp]: "under b (Some n) \<longleftrightarrow> n < b" "under b None"
  by (simp_all add: under_def)

lemma or_false_eq: "or_false f = (f = Some True)"
  by (cases f) (auto simp: or_false_def)

definition job_pairs :: "nat option \<Rightarrow> string option \<Rightarrow> bool option \<Rightarrow> (int \<times> int) option \<Rightarrow> (string \<times> string) list" where
  "job_pairs lim prefix full_scan shard = opt_pair ''limit'' show_nat lim @ opt_pair ''prefix'' id prefix @
     opt_pair ''full_scan'' show_bool full_scan @
     (case shard of None \<Rightarrow> [] | Some (n, idx) \<Rightarrow> [(''shard'', show_int idx), (''of'', show_int n)])"

lemma post_job_request: "fst (post_job env path l p f sh) = client_request env ''POST'' path (job_pairs l p f sh) None"
  by (simp add: post_job_def job_pairs_def)

lemma read_job_pairs:
  "under (2 ^ 64) l \<Longrightarrow> field_with parse_u64 (job_pairs l p f sh) ''limit'' = Some l"
  "under (2 ^ 63) l \<Longrightarrow> field_with parse_i64 (job_pairs l p f sh) ''limit'' = Some (map_option int l)"
  "field_with Some (job_pairs l p f sh) ''prefix'' = Some p"
  "field_with parse_bool (job_pairs l p f sh) ''full_scan'' = Some f"
  "field_with Some (job_pairs l p f sh) ''requested_by'' = Some None"
  by (auto simp: job_pairs_def opt_pair_def split: option.splits)

lemma read_job_shard:
  assumes "case sh of None \<Rightarrow> True | Some (n, idx) \<Rightarrow> 1 \<le> n \<and> 0 \<le> idx \<and> idx < n \<and> n < 2 ^ 63"
  shows "field_with parse_i64 (job_pairs l p f sh) ''shard'' = Some (map_option snd sh)"
    "field_with parse_i64 (job_pairs l p f sh) ''of'' = Some (map_option fst sh)"
  using assms by (auto simp: job_pairs_def opt_pair_def parse_i64_show_int split: option.splits)

text \<open>The handler's call that a request arrives as.\<close>

fun job_routed :: "job_request \<Rightarrow> routed" where
  "job_routed (AskScanStorj l p f) = ToScanStorj \<lparr>jp_limit = l, jp_prefix = p, jp_full_scan = f\<rparr>"
| "job_routed (AskScanHetzner l p f) = ToScanHetzner \<lparr>jp_limit = l, jp_prefix = p, jp_full_scan = f\<rparr>"
| "job_routed (AskPhash l) = ToPhashBackfill \<lparr>jp_limit = l, jp_prefix = None, jp_full_scan = None\<rparr>"
| "job_routed (AskMirror l) = ToMirror \<lparr>jp_limit = l, jp_prefix = None, jp_full_scan = None\<rparr>"
| "job_routed (AskPipeline l p f) = ToRunPipeline \<lparr>jp_limit = l, jp_prefix = p, jp_full_scan = f\<rparr>"
| "job_routed (AskImport l) = ToImport \<lparr>ip_requested_by = None, ip_limit = map_option int l\<rparr>"
| "job_routed (AskMediaPhash l sh) = ToRunPhash \<lparr>pq_limit = map_option int l, pq_requested_by = None,
     pq_shard = map_option snd sh, pq_of = map_option fst sh\<rparr>"
| "job_routed (AskSnapshot l) = ToChainSnapshot \<lparr>sp_requested_by = None, sp_limit = l\<rparr>"

lemma job_request_served:
  assumes "linked env senv" and "job_in_range r"
  shows "serve senv (fst (job_request_call env r)) = Inr (job_routed r)"
  using assms(2)
  by (cases r)
    (simp_all add: client_scan_storj_def client_scan_hetzner_def client_phash_backfill_def client_mirror_def trigger_pipeline_def
      media_import_def media_phash_def chain_snapshot_def post_job_request serve_plain [OF assms(1)] plain_path_def
      post_route_def get_route_def with_params_def job_params_of_def import_params_of_def phash_params_of_def
      snapshot_params_of_def read_job_pairs read_job_shard Let_def)

lemma job_request_handled:
  "job_in_range r \<Longrightarrow> handle rfc txt p (job_routed r) s = job_answer (start_job (job_asked r)) s"
  by (cases r) (auto simp: job_answer_def scan_storj_handler_def scan_hetzner_handler_def phash_backfill_handler_def
      mirror_handler_def run_pipeline_handler_def scan_call_def or_false_eq import_video_index_def run_phash_def
      chain_snapshot_start_def requested_by_def parse_shard_def split: option.splits)

lemma job_request_answer:
  "snd (job_request_call env r) resp = (if rp_status resp = 202 then Inr () else if rp_status resp = 409 then Inl AlreadyRunning
     else if rp_status resp = 401 \<or> rp_status resp = 403 then Inl Unauthorized else Inl (ServerError (rp_status resp) (rp_text resp)))"
  by (cases r) (simp_all add: client_scan_storj_def client_scan_hetzner_def client_phash_backfill_def client_mirror_def
      trigger_pipeline_def media_import_def media_phash_def chain_snapshot_def post_job_def)

text \<open>C33. The job a client asks for is the job the service starts: with one secret and clocks five minutes apart, each of the
  eight calls arrives with its limit, prefix, full-scan flag and shard as they were given; the client is told that the job
  is running exactly when one of its kind is, and else the job is started.\<close>

theorem client_starts_jobs:
  assumes "linked env senv" and "job_in_range r" and "job_reachable (op_jobs s)"
  shows "(case service_answer senv rfc txt p (fst (job_request_call env r)) s of (resp, s') \<Rightarrow>
     perform (job_request_call env r) (Some resp) =
       (if kind_of (job_asked r) \<in> set (holders (op_jobs s)) then Inl AlreadyRunning else Inr ()) \<and>
     s' = s\<lparr>op_jobs := snd (start_job (job_asked r) (op_jobs s))\<rparr>)"
proof -
  have ok: "flags_ok (op_jobs s)" "tokens_ok (op_jobs s)" using reachable_ok [OF assms(3)] by simp_all
  obtain st j where start: "start_job (job_asked r) (op_jobs s) = (st, j)" by fastforce
  then have st: "st = (if kind_of (job_asked r) \<in> set (holders (op_jobs s)) then 409 else 202)"
    using start_job_status [OF ok, of "job_asked r"] by simp
  have "service_answer senv rfc txt p (fst (job_request_call env r)) s = (only_status st, s\<lparr>op_jobs := j\<rparr>)"
    by (simp add: service_answer_def job_request_served [OF assms(1,2)] job_request_handled [OF assms(2)] job_answer_def start)
  then show ?thesis by (simp add: start perform_def job_request_answer only_status_def st)
qed

section \<open>Tuning\<close>

lemma fields_of_update:
  "may (update_json u) ''phash_concurrency'' f = (case cu_phash_concurrency u of None \<Rightarrow> Some None | Some n \<Rightarrow> map_option Some (f (JInt (int n))))"
  "may (update_json u) ''mirror_concurrency'' f = (case cu_mirror_concurrency u of None \<Rightarrow> Some None | Some n \<Rightarrow> map_option Some (f (JInt (int n))))"
  "may (update_json u) ''scan_page_size'' g = (case cu_scan_page_size u of None \<Rightarrow> Some None | Some n \<Rightarrow> map_option Some (g (JInt n)))"
  by (auto simp: may_def update_json_def obj_field_def opt_of_def split: option.splits)

definition config_fits :: "job_config \<Rightarrow> bool" where
  "config_fits c \<longleftrightarrow> jc_phash_concurrency c < 2 ^ 64 \<and> jc_mirror_concurrency c < 2 ^ 64 \<and>
     - (2 ^ 63) \<le> jc_scan_page_size c \<and> jc_scan_page_size c < 2 ^ 63"

definition update_fits :: "config_update \<Rightarrow> bool" where
  "update_fits u \<longleftrightarrow> under (2 ^ 64) (cu_phash_concurrency u) \<and> under (2 ^ 64) (cu_mirror_concurrency u) \<and>
     (case cu_scan_page_size u of None \<Rightarrow> True | Some n \<Rightarrow> - (2 ^ 63) \<le> n \<and> n < 2 ^ 63)"

lemma update_read_back: "update_fits u \<Longrightarrow> update_of (update_json u) = Some u"
  unfolding update_of_def fields_of_update
  by (cases u) (auto simp: update_fits_def as_usize_def as_i64_def update_json_def under_def split: option.splits)

lemma config_read_back: "config_fits c \<Longrightarrow> read_config (config_json c) = Some c"
  by (cases c) (simp add: read_config_def config_json_def need_def obj_field_def config_fits_def as_usize_def as_i64_def)

lemma updated_config_fits: "update_fits u \<Longrightarrow> config_fits c \<Longrightarrow> config_fits (snd (update_config u c))"
  by (auto simp: update_fits_def config_fits_def update_config_def Let_def or_old_def under_def split: option.splits)

text \<open>The tuning a client sends is stored field by field, the fields it leaves out stay, and it reads back what is stored
  now: the values go through as they are, a concurrency of zero and a page size below one included.\<close>

lemma tuning_round_trip:
  assumes "linked env senv" and "update_fits u" and "config_fits (op_config s)"
  shows "(case service_answer senv rfc txt p (fst (client_config_update env u)) s of (resp, s') \<Rightarrow>
     perform (client_config_update env u) (Some resp) = Inr (op_config s') \<and>
     op_config s' = \<lparr>jc_phash_concurrency = or_old (cu_phash_concurrency u) (jc_phash_concurrency (op_config s)),
       jc_mirror_concurrency = or_old (cu_mirror_concurrency u) (jc_mirror_concurrency (op_config s)),
       jc_scan_page_size = or_old (cu_scan_page_size u) (jc_scan_page_size (op_config s))\<rparr> \<and>
     s' = s\<lparr>op_config := op_config s'\<rparr>)"
proof -
  have "serve senv (fst (client_config_update env u)) = Inr (ToUpdateConfig u)"
    by (simp add: client_config_update_def serve_plain [OF assms(1)] plain_path_def post_route_def get_route_def update_route_def
        update_read_back [OF assms(2)])
  moreover have "json_answer read_config (ok_json (config_json (snd (update_config u (op_config s))))) = Inr (snd (update_config u (op_config s)))"
    by (simp add: json_answer_def ok_json_def config_read_back updated_config_fits assms)
  ultimately show ?thesis
    by (simp add: service_answer_def perform_def client_config_update_def update_config_def Let_def)
qed

section \<open>The guard\<close>

lemma route_statuses:
  "with_params f q = Inl st \<Longrightarrow> st = 400"
  "update_route body = Inl st \<Longrightarrow> st = 400 \<or> st = 422"
  by (auto simp: with_params_def update_route_def split: option.splits)

lemma post_route_status: "post_route ps body path = Some (Inl st) \<Longrightarrow> st = 400 \<or> st = 422"
  unfolding post_route_def by (auto dest: route_statuses split: if_split_asm)

lemma get_route_status: "get_route seg ps path = Some (Inl st) \<Longrightarrow> st = 400"
  unfolding get_route_def by (auto dest: route_statuses split: if_split_asm option.split_asm)

lemma authorize_status: "authorize cr secret now_ts r = Inl st \<Longrightarrow> st = 400 \<or> st = 401"
  by (auto simp: authorize_def credentials_def split: option.splits sum.splits if_splits prod.splits)

lemma serve_Inl_status: "serve env r = Inl st \<Longrightarrow> st \<in> {400, 401, 404, 405, 422}"
  unfolding serve_def Let_def
  by (auto dest: post_route_status get_route_status authorize_status split: option.split_asm sum.split_asm if_split_asm)

text \<open>C30. Only signed requests act: when a request changes the jobs, the tuning or the database, or is answered with success, it
  carries, in its headers or in its query, a signature of its method, path and timestamp under the secret of the service;
  and the timestamp is at most 300 seconds from the clock of the service, or, since the distance is computed in 64 bits,
  exactly \<open>2 ^ 63\<close> seconds behind it.\<close>

theorem only_signed_requests_act:
  assumes "service_answer env rfc txt p r s = (resp, s')" and "s' \<noteq> s \<or> rp_status resp \<in> {200, 202, 409, 500}"
    and "0 \<le> se_now env" "se_now env < 2 ^ 62"
  shows "\<exists>ts_str sig_hex ts. credentials r = Inr (ts_str, sig_hex) \<and> parse_i64 ts_str = Some ts \<and>
     (\<bar>se_now env - ts\<bar> \<le> 300 \<or> ts = se_now env - 2 ^ 63) \<and>
     cr_unhex (se_crypto env) sig_hex = Some (cr_mac (se_crypto env) (se_secret env) (request_message (hq_method r) (hq_path r) ts_str))"
proof -
  obtain c where "serve env r = Inr c"
    using assms(1,2) serve_Inl_status [of env r] by (cases "serve env r") (auto simp: service_answer_def only_status_def)
  then have "authorize (se_crypto env) (se_secret env) (se_now env) r = Inr ()"
    by (auto simp: serve_def Let_def split: if_splits sum.splits)
  from authorized_is_signed [OF this assms(3,4)] show ?thesis .
qed

section \<open>Lookups by id\<close>

text \<open>The lookup of one video reaches its handler only for an id without a slash: the route takes one segment. The ids of
  videos, a publisher and a post with a slash between them, are answered with 404, signed or not.\<close>

lemma lookup_needs_one_segment:
  assumes "linked env senv" and "cl_route env (''/mirror/duplicates/'' @ v) = ''/mirror/duplicates/'' @ v"
  shows "serve senv (fst (client_video_duplicates env v)) =
     (if v = [] \<or> CHR ''/'' \<in> set v then Inl 404 else with_params ToVideoDuplicates (se_seg senv v))"
  unfolding client_video_duplicates_def plain_call_def fst_conv serve_client [OF assms]
  by (simp add: post_route_def get_route_def strip_prefix_def starts_with_def)

section \<open>Reports\<close>

text \<open>The numbers of an answer are those of its Rust types.\<close>

fun json_fits :: "json \<Rightarrow> bool" where
  "json_fits (JInt n) = (- (2 ^ 63) \<le> n \<and> n < 2 ^ 63)"
| "json_fits (JArr js) = (\<forall>j \<in> set js. json_fits j)"
| "json_fits (JObj kvs) = (\<forall>kv \<in> set kvs. json_fits (snd kv))"
| "json_fits _ = True"

lemma those_map: "\<forall>x \<in> set xs. f (g x) = Some (h x) \<Longrightarrow> those (map f (map g xs)) = Some (map h xs)"
  by (induction xs) simp_all

lemma those_read: "\<forall>x \<in> set xs. f (g x) = Some x \<Longrightarrow> those (map f (map g xs)) = Some xs"
  using those_map [of xs f g id] by simp

lemmas reading_defs = need_def may_def obj_field_def opt_of_def as_vec_def as_string_def as_bool_def as_i64_def as_usize_def as_counts_def

lemma read_json_opt [simp]: "opt_of as_string (json_opt o1) = Some o1"
  by (simp add: opt_of_def json_opt_def as_string_def split: option.split)

lemma read_entry [simp]: "read_video_entry (video_entry v) = Some v"
  by (cases v) (simp add: read_video_entry_def video_entry_def need_def may_def obj_field_def as_string_def)

lemma read_duplicate_entry [simp]: "read_duplicate (duplicate_entry g) = Some g"
  by (cases g) (simp add: read_duplicate_def duplicate_entry_def need_def obj_field_def as_string_def as_vec_def those_read del: map_map)

lemma read_duplicate_group: "json_fits (duplicate_group g) \<Longrightarrow> read_group (duplicate_group g) = Some (length (dp_videos g), g)"
  by (cases g) (simp add: read_group_def read_duplicate_def duplicate_group_def need_def obj_field_def as_string_def as_vec_def
      as_usize_def those_read del: map_map)

lemma read_counts:
  assumes "json_fits (JObj (map (\<lambda>(l, n). (l, JInt n)) xs))"
  shows "as_counts (JObj (map (\<lambda>(l, n). (l, JInt n)) xs)) = Some xs"
  using assms by (induction xs) (auto simp: as_counts_def as_i64_def split: option.splits)

text \<open>What a report answers when no statement fails, as the client reads it.\<close>

definition reported :: "json route \<Rightarrow> pgdb \<Rightarrow> json" where
  "reported m d = (case result_of m ([], d) of Inl _ \<Rightarrow> JNull | Inr j \<Rightarrow> j)"

definition duplicate_list :: "pgdb \<Rightarrow> duplicate_phash list" where
  "duplicate_list d = (case result_of get_duplicate_phashes ([], d) of Inl _ \<Rightarrow> [] | Inr gs \<Rightarrow> gs)"

lemma run_duplicates: "get_duplicate_phashes ([], d) = (Inr (duplicate_list d), [], d)"
  by (simp add: duplicate_list_def result_of_def get_duplicate_phashes_def run_query)

lemma run_report:
  "connected (bnd (or_500 m) k) ([], d) = (case m ([], d) of (Inl _, t) \<Rightarrow> (Inl 500, t) | (Inr x, t) \<Rightarrow> k x t)"
  by (simp add: connected_def or_500_def run_bnd run_map_err run_exec split: prod.split sum.split)

lemma run_or_500: "or_500 m t = (case m t of (Inl _, u) \<Rightarrow> (Inl 500, u) | (Inr x, u) \<Rightarrow> (Inr x, u))"
  by (simp add: or_500_def run_map_err split: prod.split sum.split)

lemma reported_audit:
  "reported audit d = JObj [(''total'', JInt (as_total (audit_counts d))), (''phash_computed'', JInt (as_phash_computed (audit_counts d))),
     (''mirrored'', JInt (as_mirrored (audit_counts d))), (''missing_storj'', JInt (as_missing_storj (audit_counts d))),
     (''missing_hetzner'', JInt (as_missing_hetzner (audit_counts d))), (''cleanup_pending'', JInt (as_cleanup_pending (audit_counts d))),
     (''failed'', JInt (as_failed (audit_counts d))), (''error_count'', JInt (as_error_count (audit_counts d))),
     (''status_breakdown'', JObj (map (\<lambda>(l, n). (l, JInt n)) (status_counts d))),
     (''duplicate_phashes'', JArr (map duplicate_entry (duplicate_list d)))]"
  by (simp add: reported_def result_of_def audit_def run_report get_audit_stats_def run_bnd run_query run_or_500
      run_duplicates run_ret)

lemma audit_read_back:
  assumes "json_fits (reported audit d)"
  shows "read_audit (reported audit d) = Some ((audit_counts d)\<lparr>as_status_breakdown := status_counts d\<rparr>, duplicate_list d)"
  using assms unfolding reported_audit
  by (simp add: read_audit_def need_def obj_field_def as_i64_def read_counts as_vec_def those_read del: map_map)

lemma reported_duplicates:
  "reported duplicates d = JObj [(''total_groups'', JInt (int (length (duplicate_list d)))),
     (''total_duplicate_videos'', JInt (int (sum_list (map (\<lambda>g. length (dp_videos g)) (duplicate_list d))))),
     (''groups'', JArr (map duplicate_group (duplicate_list d)))]"
  by (simp add: reported_def result_of_def duplicates_def run_report run_duplicates run_ret)

lemma duplicates_read_back:
  assumes "json_fits (reported duplicates d)"
  shows "read_duplicates (reported duplicates d) = Some (length (duplicate_list d),
     sum_list (map (\<lambda>g. length (dp_videos g)) (duplicate_list d)), map (\<lambda>g. (length (dp_videos g), g)) (duplicate_list d))"
proof -
  have "as_vec read_group (JArr (map duplicate_group (duplicate_list d))) = Some (map (\<lambda>g. (length (dp_videos g), g)) (duplicate_list d))"
    using assms by (simp add: reported_duplicates as_vec_def those_map read_duplicate_group del: map_map)
  then show ?thesis
    using assms by (simp add: reported_duplicates read_duplicates_def need_def obj_field_def as_usize_def)
qed

lemma failed_jobs_read_back:
  assumes "json_fits (reported failed_jobs d)" and "get_failed_jobs ([], d) = (Inr js, [], d)"
  shows "read_failed_jobs (reported failed_jobs d) = Some (length js, js)"
proof -
  have rep: "reported failed_jobs d = JObj [(''count'', JInt (int (length js))), (''jobs'', JArr (map (\<lambda>(v, e).
      JObj [(''video_id'', JStr v), (''error_message'', json_opt e)]) js))]"
    using assms(2) by (simp add: reported_def result_of_def failed_jobs_def run_report run_ret)
  have "those (map read_failed_job (map (\<lambda>(v, e). JObj [(''video_id'', JStr v), (''error_message'', json_opt e)]) js)) = Some js"
    by (rule those_read) (auto simp: read_failed_job_def need_def may_def obj_field_def as_string_def)
  then show ?thesis
    using assms(1) unfolding rep by (simp add: read_failed_jobs_def need_def obj_field_def as_usize_def as_vec_def del: map_map)
qed

text \<open>What a client gets for a call when no statement of its handler fails.\<close>

definition ask :: "service_env \<Rightarrow> (int \<Rightarrow> string) \<Rightarrow> (int \<Rightarrow> string) \<Rightarrow> service_state \<Rightarrow> 'a client_call \<Rightarrow> mirror_error + 'a" where
  "ask senv rfc txt s call = perform call (Some (fst (service_answer senv rfc txt [] (fst call) s)))"

lemma ask_plain:
  assumes "linked env senv" and "plain_path path" and "post_route [] None path = None" and "get_route (se_seg senv) [] path = Some (Inr c)"
  shows "ask senv rfc txt s (plain_call env ''GET'' path dec) = json_answer dec (fst (handle rfc txt [] c s))"
  using assms by (simp add: ask_def plain_call_def service_answer_def perform_def serve_plain)

lemma report_answer:
  "(\<exists>j. m ([], op_db s) = (Inr j, [], op_db s)) \<Longrightarrow> db_answer m [] s = (ok_json (reported m (op_db s)), s)"
  by (auto simp: db_answer_def reported_def result_of_def)

lemma reports_succeed:
  "\<exists>j. audit ([], d) = (Inr j, [], d)" "\<exists>j. duplicates ([], d) = (Inr j, [], d)" "\<exists>j. failed_jobs ([], d) = (Inr j, [], d)"
  "\<exists>j. media_sweep_status rfc ([], d) = (Inr j, [], d)" "\<exists>j. missing_phash_audit ([], d) = (Inr j, [], d)"
  by (simp_all add: audit_def duplicates_def failed_jobs_def media_sweep_status_def missing_phash_audit_def run_report
      get_audit_stats_def run_bnd run_query run_or_500 run_duplicates run_ret get_failed_jobs_def read_lease_def
      canonical_phash_coverage_def)

lemma answered: "dec j = Some x \<Longrightarrow> json_answer dec (ok_json j) = Inr x"
  by (simp add: json_answer_def ok_json_def)

lemma reported_sweep: "reported (media_sweep_status rfc) d = sweep_status_view rfc (sweep_lease d)"
  by (simp add: reported_def result_of_def media_sweep_status_def run_report read_lease_def run_query run_ret)

lemma sweep_read_back:
  "read_sweep (sweep_status_view rfc l) = Some \<lparr>ss_owner = map_option ls_owner l,
     ss_heartbeat = map_option (\<lambda>x. rfc (ls_heartbeat x)) l,
     ss_last_discovery_at = map_option rfc (Option.bind l ls_last_discovery_at)\<rparr>"
  by (cases l) (simp_all add: read_sweep_def sweep_status_view_def may_def obj_field_def json_int_opt_def opt_of_def as_string_def
      json_opt_def split: option.split)

lemma coverage_read_back:
  assumes "canonical_phash_coverage ([], d) = (Inr c, [], d)" and "json_fits (reported missing_phash_audit d)"
  shows "read_coverage (reported missing_phash_audit d) = Some c"
  using assms by (cases c) (simp add: reported_def result_of_def missing_phash_audit_def run_report run_ret read_coverage_def
      need_def obj_field_def as_i64_def)

lemma flags_read_back:
  "read_job_status (job_status js) = Some \<lparr>jf_scan_storj = (ScanStorj \<in> js_running js), jf_scan_hetzner = (ScanHetzner \<in> js_running js),
     jf_phash = (PhashBackfill \<in> js_running js), jf_mirror = (MirrorCopy \<in> js_running js), jf_pipeline = (Pipeline \<in> js_running js)\<rparr>"
  "read_media_status (media_jobs_status js) = Some (MediaImport \<in> js_running js, MediaPhash \<in> js_running js)"
  by (simp_all add: read_job_status_def job_status_def read_media_status_def media_jobs_status_def need_def obj_field_def as_bool_def)

text \<open>What the client reads is what the service knows: end to end, with working statements, the flags of the jobs, the audit
  with its counts and duplicate groups, the failed videos, the lease of the sweep worker and the coverage come out of the
  client's structures as the repository returned them.\<close>

lemma reports_read_back:
  assumes link: "linked env senv" and d: "d = op_db s"
    and fit: "\<forall>m \<in> {audit, duplicates, failed_jobs, missing_phash_audit}. json_fits (reported m d)"
    and failed: "get_failed_jobs ([], d) = (Inr js, [], d)" and cov: "canonical_phash_coverage ([], d) = (Inr c, [], d)"
  shows "ask senv rfc txt s (client_job_status env) = Inr \<lparr>jf_scan_storj = (ScanStorj \<in> js_running (op_jobs s)),
        jf_scan_hetzner = (ScanHetzner \<in> js_running (op_jobs s)), jf_phash = (PhashBackfill \<in> js_running (op_jobs s)),
        jf_mirror = (MirrorCopy \<in> js_running (op_jobs s)), jf_pipeline = (Pipeline \<in> js_running (op_jobs s))\<rparr> \<and>
     ask senv rfc txt s (client_audit env) = Inr ((audit_counts d)\<lparr>as_status_breakdown := status_counts d\<rparr>, duplicate_list d) \<and>
     ask senv rfc txt s (client_duplicates env) = Inr (length (duplicate_list d),
        sum_list (map (\<lambda>g. length (dp_videos g)) (duplicate_list d)), map (\<lambda>g. (length (dp_videos g), g)) (duplicate_list d)) \<and>
     ask senv rfc txt s (client_failed_jobs env) = Inr (length js, js) \<and>
     ask senv rfc txt s (media_sweep env) = Inr \<lparr>ss_owner = map_option ls_owner (sweep_lease d),
        ss_heartbeat = map_option (\<lambda>x. rfc (ls_heartbeat x)) (sweep_lease d),
        ss_last_discovery_at = map_option rfc (Option.bind (sweep_lease d) ls_last_discovery_at)\<rparr> \<and>
     ask senv rfc txt s (media_audit env) = Inr c"
proof -
  note asks = client_job_status_def client_audit_def client_duplicates_def client_failed_jobs_def media_sweep_def media_audit_def
  note reads = flags_read_back audit_read_back duplicates_read_back failed_jobs_read_back sweep_read_back coverage_read_back
  show ?thesis
    unfolding asks using fit failed cov
    by (simp add: ask_plain [OF link] plain_path_def post_route_def get_route_def report_answer reports_succeed answered reads
        reported_sweep d)
qed

section \<open>Flags that cannot be read\<close>

text \<open>A shard the command line accepts is one the service accepts.\<close>

lemma resolved_shard_is_accepted:
  "resolve_shard args = Inr (Some (n, idx)) \<Longrightarrow> parse_shard (Some idx) (Some n) = Inr (Some (n, idx))"
  by (auto simp: resolve_shard_def parse_shard_def split: option.splits if_splits)

text \<open>Flags with values that are no numbers count as not given: the run is asked for without a limit, over the whole set.\<close>

lemma unreadable_flags_are_dropped:
  assumes "parse_i64 a = None" "parse_i64 b = None" "parse_u64 c = None" and "a \<noteq> ''--of''" "a \<noteq> ''--limit''" "b \<noteq> ''--limit''"
  shows "command_of env [''mirror-client'', ''media-phash'', ''--shard'', a, ''--of'', b, ''--limit'', c] = Send (fst (media_phash env None None))"
  using assms by (simp add: command_of_def resolve_shard_def parse_shard_arg_def parse_of_def parse_limit_def Let_def)

section \<open>The client's pipeline\<close>

lemma poll_exact:
  "poll env flag answers = Some (Inr rest) \<longleftrightarrow> (\<exists>xs a s. answers = xs @ a # rest \<and>
     (\<forall>x \<in> set xs. \<exists>t. perform (client_job_status env) x = Inr t \<and> flag t) \<and> perform (client_job_status env) a = Inr s \<and> \<not> flag s)"
proof (induction answers)
  case (Cons a answers)
  show ?case
  proof (cases "perform (client_job_status env) a")
    case (Inr s)
    show ?thesis
    proof (cases "flag s")
      case True
      then show ?thesis using Inr Cons by (fastforce simp: Cons_eq_append_conv)
    next
      case False
      then show ?thesis using Inr
        by (auto simp: Cons_eq_append_conv)
    qed
  next
    case (Inl e)
    then show ?thesis by (auto simp: Cons_eq_append_conv)
  qed
qed simp

lemma pipeline_stage_exact:
  "pipeline_stage env call flag answers = Some (Inr rest) \<longleftrightarrow>
     (\<exists>a later. answers = a # later \<and> perform call a = Inr () \<and> poll env flag later = Some (Inr rest))"
  by (auto simp: pipeline_stage_def split: list.splits sum.splits)

lemma after_stage_Inr: "after_stage r k = Some (Inr y) \<longleftrightarrow> (\<exists>x. r = Some (Inr x) \<and> k x = Some (Inr y))"
  by (auto simp: after_stage_def split: option.splits sum.splits)

text \<open>The client's pipeline succeeds exactly when each of its three jobs was accepted, and was seen to have ended before the next
  one was asked for.\<close>

lemma client_pipeline_exact:
  "client_run_pipeline env lim prefix full_scan answers = Some (Inr ()) \<longleftrightarrow> (\<exists>a b c as1 as2 as3 as4 as5 rest.
     answers = a # as1 \<and> perform (client_scan_hetzner env lim prefix full_scan) a = Inr () \<and>
     poll env jf_scan_hetzner as1 = Some (Inr (b # as2)) \<and> perform (client_phash_backfill env lim) b = Inr () \<and>
     poll env jf_phash as2 = Some (Inr (c # as3)) \<and> perform (client_mirror env lim) c = Inr () \<and>
     poll env jf_mirror as3 = Some (Inr rest) \<and> rest \<noteq> [])"
  by (auto simp: client_run_pipeline_def after_stage_Inr pipeline_stage_exact)

section \<open>Witnesses\<close>

definition demo_client :: client_env where
  "demo_client = \<lparr>cl_crypto = demo_crypto, cl_hex = demo_hex, cl_enc = demo_hex, cl_route = id,
     cl_client = new_client ''https://storage/'' ''secret'', cl_now = 1000\<rparr>"

definition demo_service :: service_env where
  "demo_service = \<lparr>se_crypto = demo_crypto, se_secret = ''secret'', se_now = 1200, se_dec = demo_unhex, se_seg = Some\<rparr>"

lemma demo_linked: "linked demo_client demo_service"
  using demo_query_codec demo_hex_ok by (simp add: linked_def demo_client_def demo_service_def new_client_def)

definition demo_state :: service_state where
  "demo_state = \<lparr>op_jobs = initial_jobs,
     op_config = \<lparr>jc_phash_concurrency = 10, jc_mirror_concurrency = 10, jc_scan_page_size = 1000\<rparr>, op_db = empty_db 5\<rparr>"

theorem client_starts_jobs_witness:
  "let r = AskMediaPhash (Some 10) (Some (4, 3)); call = job_request_call demo_client r in
   (case service_answer demo_service (\<lambda>_. []) (\<lambda>_. []) [] (fst call) demo_state of (resp, s') \<Rightarrow>
      perform call (Some resp) = Inr () \<and> js_tasks (op_jobs s') = [(RunMediaPhash (Some 10) ''media_phash_api'' (Some (4, 3)), 1)])"
proof -
  have "job_reachable (op_jobs demo_state)" by (simp add: demo_state_def reach_init)
  from client_starts_jobs [OF demo_linked _ this, of "AskMediaPhash (Some 10) (Some (4, 3))" "\<lambda>_. []" "\<lambda>_. []" "[]"]
  show ?thesis
    by (simp add: Let_def demo_state_def holders_def initial_jobs_def start_job_def claim_def launch_def split: prod.splits)
qed

lemma tuning_round_trip_witness:
  "let u = \<lparr>cu_phash_concurrency = Some 0, cu_mirror_concurrency = None, cu_scan_page_size = Some (- 1)\<rparr> in
   (case service_answer demo_service (\<lambda>_. []) (\<lambda>_. []) [] (fst (client_config_update demo_client u)) demo_state of (resp, s') \<Rightarrow>
     perform (client_config_update demo_client u) (Some resp) =
       Inr \<lparr>jc_phash_concurrency = 0, jc_mirror_concurrency = 10, jc_scan_page_size = - 1\<rparr>)"
proof -
  let ?u = "\<lparr>cu_phash_concurrency = Some 0, cu_mirror_concurrency = None, cu_scan_page_size = Some (- 1)\<rparr>"
  have "update_fits ?u" "config_fits (op_config demo_state)"
    by (simp_all add: update_fits_def config_fits_def demo_state_def)
  from tuning_round_trip [OF demo_linked this, of "\<lambda>_. []" "\<lambda>_. []" "[]"] show ?thesis
    by (auto simp: Let_def or_old_def demo_state_def)
qed

theorem only_signed_requests_act_witness:
  "\<exists>ts_str sig_hex ts. credentials (url_request demo_crypto demo_hex (cl_client demo_client) 1000 ''GET'' ''/mirror/jobs/status'') =
       Inr (ts_str, sig_hex) \<and> parse_i64 ts_str = Some ts \<and> (\<bar>1200 - ts\<bar> \<le> 300 \<or> ts = 1200 - 2 ^ 63)"
proof -
  let ?r = "url_request demo_crypto demo_hex (cl_client demo_client) 1000 ''GET'' ''/mirror/jobs/status''"
  have "authorize demo_crypto ''secret'' 1200 ?r = Inr ()"
    using signed_url_is_authorized [of demo_crypto demo_hex 1000 1200 "cl_client demo_client"] demo_linked
    by (simp add: linked_def demo_client_def new_client_def)
  then have "serve demo_service ?r = Inr ToStatus"
    by (simp add: serve_def Let_def demo_service_def url_request_def sign_def post_route_def get_route_def)
  then have "service_answer demo_service (\<lambda>_. []) (\<lambda>_. []) [] ?r demo_state = (ok_json (job_status (op_jobs demo_state)), demo_state)"
    by (simp add: service_answer_def)
  from only_signed_requests_act [OF this] show ?thesis
    by (auto simp: ok_json_def demo_service_def)
qed

lemma lookup_needs_one_segment_witness:
  "serve demo_service (fst (client_video_duplicates demo_client ''alice/u-1'')) = Inl 404"
  using lookup_needs_one_segment [OF demo_linked, of "''alice/u-1''"] by (simp add: demo_client_def)

lemma reports_read_back_witness:
  "ask demo_service (\<lambda>_. []) (\<lambda>_. []) demo_state (client_failed_jobs demo_client) = Inr (0, [])"
proof -
  have failed: "get_failed_jobs ([], empty_db 5) = (Inr [], [], empty_db 5)"
    by (simp add: get_failed_jobs_def run_query empty_db_def)
  obtain c where cov: "canonical_phash_coverage ([], empty_db 5) = (Inr c, [], empty_db 5)"
    by (simp add: canonical_phash_coverage_def run_query)
  have "json_fits (reported audit (empty_db 5))" "json_fits (reported duplicates (empty_db 5))"
    "json_fits (reported failed_jobs (empty_db 5))" "json_fits (reported missing_phash_audit (empty_db 5))"
    by code_simp+
  then have "\<forall>m \<in> {audit, duplicates, failed_jobs, missing_phash_audit}. json_fits (reported m (empty_db 5))" by simp
  from reports_read_back [OF demo_linked _ this failed cov] show ?thesis
    by (simp add: demo_state_def)
qed

end
