(* ===== verification/Pipeline.thy ===== *)
theory Pipeline
  imports Mirror_Props Scan_Props
begin

text \<open>
  The pipeline of the mirror, \<open>run_pipeline\<close> in \<open>routes/mirror.rs\<close>: page by page it lists Hetzner, enters what it finds, and
  runs the hashing and the copying job over everything that waits. Errors of a row or of a job are logged and the pipeline
  goes on. The listing, the jobs' surroundings and the cancellation are parameters for each page.
\<close>

section \<open>The loop\<close>

type_synonym page_listing = "nat \<Rightarrow> string option \<Rightarrow> string option \<Rightarrow> string option \<Rightarrow> string + string list \<times> string option"

record 'f pipeline_config =
  pl_page :: page_listing
  pl_backfill :: "nat \<Rightarrow> 'f backfill_config"
  pl_mirror :: "nat \<Rightarrow> mirror_config"
  pl_cancelled :: "nat \<Rightarrow> bool"
  pl_temp_prefix :: string

definition pipeline_put :: "string \<Rightarrow> bool \<Rightarrow> string \<Rightarrow> string \<Rightarrow> unit pg" where
  "pipeline_put temp_prefix full_scan v key = (if full_scan then upsert_hetzner_key_with_reset v key (contains key temp_prefix)
     else upsert_hetzner_key v key (contains key temp_prefix))"

fun pipeline_upserts :: "string \<Rightarrow> bool \<Rightarrow> string list \<Rightarrow> nat \<Rightarrow> nat job" where
  "pipeline_upserts temp_prefix full_scan [] grand = ret grand"
| "pipeline_upserts temp_prefix full_scan (key # keys) grand = (case hetzner_video key of
       None \<Rightarrow> pipeline_upserts temp_prefix full_scan keys grand
     | Some v \<Rightarrow> bnd (attempt (pipeline_put temp_prefix full_scan v key)) (\<lambda>_.
         pipeline_upserts temp_prefix full_scan keys (grand + 1)))"

text \<open>The token is polled three times for each page. \<open>start_after\<close> counts for the first page only; the jobs have no limit. The
  jobs run with the fuel \<open>jf\<close>, and the result is \<open>None\<close> when a job or the loop has not ended with its fuel.\<close>

fun pipeline_loop :: "'f pipeline_config \<Rightarrow> bool \<Rightarrow> string option \<Rightarrow> nat option \<Rightarrow> nat \<Rightarrow> nat \<Rightarrow> nat \<Rightarrow> string option \<Rightarrow>
    string option \<Rightarrow> nat \<Rightarrow> nat option job" where
  "pipeline_loop c full prefix lim jf 0 page token start grand = ret None"
| "pipeline_loop c full prefix lim jf (Suc fuel) page token start grand =
     (if pl_cancelled c (3 * page) then ret (Some grand)
      else (case pl_page c page prefix token start of
        Inl _ \<Rightarrow> ret (Some grand)
      | Inr (keys, cont) \<Rightarrow> bnd (pipeline_upserts (pl_temp_prefix c) full keys grand) (\<lambda>grand1.
          if pl_cancelled c (3 * page + 1) then ret (Some grand1)
          else bnd (attempt (backfill_run ((pl_backfill c page)\<lparr>bc_limit := None\<rparr>) jf)) (\<lambda>hashed.
            if hashed = Inr None then ret None
            else if pl_cancelled c (3 * page + 2) then ret (Some grand1)
            else bnd (attempt (mirror_run ((pl_mirror c page)\<lparr>mc_limit := None\<rparr>) jf)) (\<lambda>copied.
              if copied = Inr None then ret None
              else if reached lim grand1 then ret (Some grand1)
              else (case cont of
                None \<Rightarrow> ret (Some grand1)
              | Some t \<Rightarrow> pipeline_loop c full prefix lim jf fuel (page + 1) (Some t) None grand1))))))"

definition pipeline_run :: "'f pipeline_config \<Rightarrow> bool \<Rightarrow> string option \<Rightarrow> nat option \<Rightarrow> nat \<Rightarrow> nat \<Rightarrow> nat option job" where
  "pipeline_run c full prefix lim jf fuel = bnd (attempt (exec id)) (\<lambda>con. case con of
       Inl _ \<Rightarrow> ret (Some 0)
     | Inr _ \<Rightarrow> bnd (if full then ret None
           else bnd (attempt (get_max_hetzner_key prefix)) (\<lambda>r. ret (case r of Inl _ \<Rightarrow> None | Inr k \<Rightarrow> k))) (\<lambda>start.
         pipeline_loop c full prefix lim jf fuel 0 None start 0))"

section \<open>More fuel\<close>

lemma backfill_loop_more:
  "backfill_loop c fuel round n s = (Inr (Some x), t) \<Longrightarrow> fuel \<le> fuel' \<Longrightarrow> backfill_loop c fuel' round n s = (Inr (Some x), t)"
proof (induction fuel arbitrary: fuel' round n s)
  case 0
  then show ?case by (cases s) simp
next
  case (Suc fuel)
  then obtain k where k: "fuel' = Suc k" "fuel \<le> k" by (cases fuel') auto
  have "backfill_loop c fuel (round + 1) m u = (Inr (Some x), t) \<Longrightarrow> backfill_loop c k (round + 1) m u = (Inr (Some x), t)" for m u
    using Suc.IH k(2) by blast
  with Suc.prems(1) show ?case
    unfolding k(1) by (auto simp: run_bnd split: if_splits sum.splits prod.splits)
qed

lemma mirror_loop_more:
  "mirror_loop c fuel round n s = (Inr (Some x), t) \<Longrightarrow> fuel \<le> fuel' \<Longrightarrow> mirror_loop c fuel' round n s = (Inr (Some x), t)"
proof (induction fuel arbitrary: fuel' round n s)
  case 0
  then show ?case by (cases s) simp
next
  case (Suc fuel)
  then obtain k where k: "fuel' = Suc k" "fuel \<le> k" by (cases fuel') auto
  have "mirror_loop c fuel (round + 1) m u = (Inr (Some x), t) \<Longrightarrow> mirror_loop c k (round + 1) m u = (Inr (Some x), t)" for m u
    using Suc.IH k(2) by blast
  with Suc.prems(1) show ?case
    unfolding k(1) by (auto simp: run_bnd split: if_splits sum.splits prod.splits)
qed

lemma backfill_run_more:
  "backfill_run c fuel ([], d) = (Inr (Some x), t) \<Longrightarrow> fuel \<le> fuel' \<Longrightarrow> backfill_run c fuel' ([], d) = (Inr (Some x), t)"
  by (simp add: backfill_run_def run_bnd run_map_err run_exec) (erule (1) backfill_loop_more)

lemma mirror_run_more:
  "mirror_run c fuel ([], d) = (Inr (Some x), t) \<Longrightarrow> fuel \<le> fuel' \<Longrightarrow> mirror_run c fuel' ([], d) = (Inr (Some x), t)"
  by (simp add: mirror_run_def run_bnd run_map_err run_exec) (erule (1) mirror_loop_more)

section \<open>What the steps keep\<close>

text \<open>The index knows the key of a video, and the video has a job.\<close>

definition indexed :: "string \<Rightarrow> string \<Rightarrow> pgdb \<Rightarrow> bool" where
  "indexed v key d \<longleftrightarrow> (\<exists>r. row_of vi_video_id v (video_index d) = Some r \<and> vi_hetzner_key r = Some key) \<and>
     (\<exists>j. row_of mj_video_id v (mirror_jobs d) = Some j)"

definition none_pending :: "pgdb \<Rightarrow> bool" where
  "none_pending d \<longleftrightarrow> (\<forall>v. \<not> pending_row d v)"

lemma row_of_update_jobs:
  "(\<And>j. mj_video_id (f j) = mj_video_id j) \<Longrightarrow> row_of mj_video_id v (mirror_jobs (update_jobs P f d)) =
     map_option (\<lambda>j. if P j then touch (now_us d) (f j) else j) (row_of mj_video_id v (mirror_jobs d))"
  by (simp add: update_jobs_def row_of_update)

lemma row_of_update_index:
  "(\<And>r. vi_video_id (f r) = vi_video_id r) \<Longrightarrow> row_of vi_video_id v (video_index (update_index P f d)) =
     map_option (\<lambda>r. if P r then f r else r) (row_of vi_video_id v (video_index d))"
  by (simp add: update_index_def row_of_update)

lemma indexed_update [simp]:
  "(\<And>j. mj_video_id (f j) = mj_video_id j) \<Longrightarrow> indexed v key (update_jobs P f d) = indexed v key d"
  "(\<And>r. vi_video_id (g r) = vi_video_id r) \<Longrightarrow> (\<And>r. vi_hetzner_key (g r) = vi_hetzner_key r) \<Longrightarrow>
     indexed v key (update_index Q g d) = indexed v key d"
  unfolding indexed_def
  by (cases "row_of vi_video_id v (video_index d)"; cases "row_of mj_video_id v (mirror_jobs d)";
      auto simp: row_of_update_jobs row_of_update_index)+

lemma indexed_pres [pres]:
  "preserves (indexed v key) (update_phash_success w h k ver)" "preserves (indexed v key) (update_phash_failure w e m)"
  "preserves (indexed v key) (update_mirror_success w k)" "preserves (indexed v key) (update_error w e)"
  unfolding update_phash_success_def update_phash_failure_def update_mirror_success_def update_error_def
  by (rule pres_exec pres_stmt; auto split: option.splits)+

lemma pres_fetch [pres]:
  "preserves I (fetch_pending_phash_batch n)" "preserves I (fetch_pending_mirror_batch n)"
  unfolding fetch_pending_phash_batch_def fetch_pending_mirror_batch_def by (rule pres_stmt; auto split: if_splits)+

lemma pres_backfill_run:
  assumes "\<And>w h k ver. preserves I (update_phash_success w h k ver)" "\<And>w e m. preserves I (update_phash_failure w e m)"
  shows "preserves I (backfill_run c fuel)"
proof -
  have hashes: "preserves I (write_hashes m lim rs n)" for m lim rs n
    by (induction rs arbitrary: n) (auto intro!: pres assms split: sum.split)
  have "preserves I (backfill_loop c fuel round n)" for round n
    by (induction fuel arbitrary: round n) (auto intro!: pres hashes)
  then show ?thesis unfolding backfill_run_def by (intro pres pres_exec) auto
qed

lemma pres_mirror_run:
  assumes "\<And>w k. preserves I (update_mirror_success w k)" "\<And>w e. preserves I (update_error w e)"
  shows "preserves I (mirror_run c fuel)"
proof -
  have copies: "preserves I (write_mirrors lim rs n)" for lim rs n
    by (induction rs arbitrary: n) (auto intro!: pres assms split: sum.split)
  have "preserves I (mirror_loop c fuel round n)" for round n
    by (induction fuel arbitrary: round n) (auto intro!: pres copies)
  then show ?thesis unfolding mirror_run_def by (intro pres pres_exec) auto
qed

lemma indexed_runs: "preserves (indexed v key) (backfill_run c fuel)" "preserves (indexed v key) (mirror_run c2 fuel)"
  by (intro pres_backfill_run pres_mirror_run indexed_pres)+

lemma none_pending_pres:
  "preserves none_pending (update_mirror_success w k)" "preserves none_pending (update_error w e)"
proof -
  have "none_pending d \<Longrightarrow> none_pending (update_jobs (\<lambda>j. mj_video_id j = w \<and> mj_status j = MPhashComputed)
       (\<lambda>j. j\<lparr>mj_status := MMirrored, mj_error_message := None\<rparr>)
     (update_index (\<lambda>r. vi_video_id r = w) (\<lambda>r. r\<lparr>vi_storj_key := Some k\<rparr>) d))" for d
    by (fastforce simp: none_pending_def pending_row_def row_of_update_jobs row_of_update_index split: if_splits)
  then show "preserves none_pending (update_mirror_success w k)"
    unfolding update_mirror_success_def by (rule pres_exec)
  have "none_pending d \<Longrightarrow> none_pending (update_jobs (\<lambda>j. mj_video_id j = w) (\<lambda>j. j\<lparr>mj_error_message := Some e\<rparr>) d)" for d
    by (fastforce simp: none_pending_def pending_row_def row_of_update_jobs split: if_splits)
  then show "preserves none_pending (update_error w e)"
    unfolding update_error_def by (rule pres_exec)
qed

section \<open>Entering a page\<close>

definition put_effect :: "string \<Rightarrow> bool \<Rightarrow> string \<Rightarrow> string \<Rightarrow> pgdb \<Rightarrow> pgdb" where
  "put_effect tp full v key d = db_after (pipeline_put tp full v key) ([], d)"

lemma put_run: "pipeline_put tp full v key ([], d) = (Inr (), [], put_effect tp full v key d)"
  by (simp add: put_effect_def db_after_def pipeline_put_def upsert_hetzner_key_def upsert_hetzner_key_with_reset_def run_exec)

lemma put_effect_rows:
  "row_of vi_video_id w (video_index (put_effect tp full v key d)) = (if w = v then Some (case row_of vi_video_id v (video_index d) of
      None \<Rightarrow> index_row (now_us d) v None (Some key) | Some r \<Rightarrow> r\<lparr>vi_hetzner_key := Some key\<rparr>)
    else row_of vi_video_id w (video_index d))"
  "\<exists>j. row_of mj_video_id v (mirror_jobs (put_effect tp full v key d)) = Some j"
  "w \<noteq> v \<Longrightarrow> row_of mj_video_id w (mirror_jobs (put_effect tp full v key d)) = row_of mj_video_id w (mirror_jobs d)"
  by (auto simp: put_effect_def db_after_def pipeline_put_def upsert_hetzner_key_def upsert_hetzner_key_with_reset_def run_exec
      put_mirror_job_def put_hetzner_key_def Let_def row_of_upsert touch_def split: option.splits)

lemma put_effect_size: "length (video_index (put_effect tp full v key d)) \<le> Suc (length (video_index d))"
  by (auto simp: put_effect_def db_after_def pipeline_put_def upsert_hetzner_key_def upsert_hetzner_key_with_reset_def run_exec
      put_mirror_job_def Let_def put_hetzner_key_def upsert_def update_where_def)

lemma put_effect_ok: "db_ok d \<Longrightarrow> db_ok (put_effect tp full v key d)"
  using safe_run [where p = "pipeline_put tp full v key" and fp = "[]" and d = d, OF _ put_run]
  by (auto simp: pipeline_put_def intro: safe_intros)

interpretation pl: key_scan hetzner_video "\<lambda>v key. map_err error_text (pipeline_put tp full v key)" "put_effect tp full" indexed
    "\<lambda>d d'. db_ok d \<longrightarrow> db_ok d'" for tp full
proof unfold_locales
  show "map_err error_text (pipeline_put tp full v key) ([], d) = (Inr (), [], put_effect tp full v key d)" for v key d
    by (simp add: run_map_err put_run)
  show "indexed v key (put_effect tp full v key d)" for v key d
    using put_effect_rows(2) [of v tp full key d]
    by (auto simp: indexed_def put_effect_rows(1) index_row_def split: option.splits)
  show "v \<noteq> v' \<Longrightarrow> indexed v key d \<Longrightarrow> indexed v key (put_effect tp full v' key' d)" for v v' key key' d
    by (simp add: indexed_def put_effect_rows)
qed (auto simp: put_effect_size put_effect_ok dest: hetzner_video_eq)

text \<open>Without a fault the pipeline enters a page as the scan does.\<close>

lemma upserts_as_scan:
  "scan_keys hetzner_video (\<lambda>v key. map_err error_text (pipeline_put tp full v key)) None keys n ([], d) = (Inr m, [], d') \<Longrightarrow>
   pipeline_upserts tp full keys n ([], d) = (Inr m, [], d')"
  by (induction keys arbitrary: n d) (simp_all add: run_bnd run_attempt run_map_err put_run reached_def split: option.splits)

lemma pipeline_upserts_run:
  assumes "db_ok d"
  shows "\<exists>d'. pipeline_upserts tp full keys n ([], d) = (Inr (n + length (filter (\<lambda>k. hetzner_video k \<noteq> None) keys)), [], d') \<and> db_ok d' \<and>
     (\<forall>key v. hetzner_video key = Some v \<and> (key \<in> set keys \<or> indexed v key d) \<longrightarrow> indexed v key d')"
  using pl.scan_keys_run [where tp = tp and full = full and keys = keys and n = n and d = d] assms by (blast dest: upserts_as_scan)

section \<open>The pages of a listing\<close>

text \<open>The listing yields these pages, one after the other, up to the one without a continuation.\<close>

fun lists_pages :: "page_listing \<Rightarrow> string option \<Rightarrow> nat \<Rightarrow> string option \<Rightarrow> string option \<Rightarrow> string list list \<Rightarrow> bool" where
  "lists_pages ls prefix page token start [] = False"
| "lists_pages ls prefix page token start (keys # later) = (case ls page prefix token start of
       Inl _ \<Rightarrow> False
     | Inr (ks, cont) \<Rightarrow> ks = keys \<and> (case cont of None \<Rightarrow> later = [] | Some t \<Rightarrow> lists_pages ls prefix (page + 1) (Some t) None later))"

definition working_page :: "'f pipeline_config \<Rightarrow> nat \<Rightarrow> bool" where
  "working_page c page \<longleftrightarrow> 0 < bc_page_size (pl_backfill c page) \<and> bc_cancel (pl_backfill c page) = None \<and>
     0 < mc_page_size (pl_mirror c page) \<and> mc_cancel (pl_mirror c page) = None \<and>
     (\<forall>round w. copy_row (pl_mirror c page) round w = Inr ())"

lemma safe_runs: "safe (backfill_run c fuel)" "safe (mirror_run c2 fuel)"
  unfolding backfill_run_def mirror_run_def by (intro safe_intros safe_exec; simp)+

lemma no_candidates_none_pending: "db_ok d \<Longrightarrow> phash_candidates d = [] \<longleftrightarrow> none_pending d"
proof -
  assume "db_ok d"
  then have "v \<in> vw_video_id ` set (phash_candidates d) \<longleftrightarrow> pending_row d v" for v
    by (intro pending_iff) (simp add: db_ok_defs)
  then have "vw_video_id ` set (phash_candidates d) = {} \<longleftrightarrow> none_pending d"
    unfolding none_pending_def by (metis all_not_in_conv)
  then show ?thesis by simp
qed

lemma copy_row_limit [simp]: "copy_row (c\<lparr>mc_limit := l\<rparr>) round w = copy_row c round w"
  by (simp add: copy_row_def)

text \<open>The two jobs of a page end, with any fuel from some amount on; they leave nothing to hash and nothing to copy.\<close>

lemma page_jobs_run:
  assumes ok: "db_ok d" and work: "working_page c page"
  shows "\<exists>f0 x d1 y d2. (\<forall>jf \<ge> f0. backfill_run ((pl_backfill c page)\<lparr>bc_limit := None\<rparr>) jf ([], d) = (Inr (Some x), [], d1) \<and>
        mirror_run ((pl_mirror c page)\<lparr>mc_limit := None\<rparr>) jf ([], d1) = (Inr (Some y), [], d2)) \<and>
     db_ok d2 \<and> none_pending d2 \<and> mirror_candidates d2 = [] \<and> (\<forall>v key. indexed v key d \<longrightarrow> indexed v key d2)"
proof -
  let ?b = "(pl_backfill c page)\<lparr>bc_limit := None\<rparr>" and ?m = "(pl_mirror c page)\<lparr>mc_limit := None\<rparr>"
  have w: "0 < bc_page_size ?b" "bc_limit ?b = None" "bc_cancel ?b = None" "0 < mc_page_size ?m" "mc_cancel ?m = None"
      "mc_limit ?m = None" "\<And>w round. copy_row ?m round w = Inr ()"
    using work by (simp_all add: working_page_def)
  let ?f = "Suc (backfill_weight (bc_max_retries ?b) d)"
  have u: "jobs_uniq d" using ok by (simp add: db_ok_defs)
  obtain x d1 where loop1: "backfill_loop ?b ?f 0 0 ([], d) = (Inr (Some x), [], d1)" and none: "phash_candidates d1 = []"
    using backfill_loop_run [OF u w(1), of ?f 0 0] w(2,3) by auto
  then have run1: "backfill_run ?b ?f ([], d) = (Inr (Some x), [], d1)"
    by (simp add: backfill_run_def run_bnd run_map_err run_exec)
  have ok1: "db_ok d1" by (rule safe_run [OF safe_runs(1) run1 ok])
  then have u1: "jobs_uniq d1" by (simp add: db_ok_defs)
  let ?g = "Suc (length (mirror_candidates d1))"
  obtain d2 where loop2: "mirror_loop ?m ?g 0 0 ([], d1) = (Inr (Some (0 + length (mirror_candidates d1))), [], d2)"
    and copied: "mirror_candidates d2 = []"
    using mirror_loop_ok [OF w(4-6) w(7) u1, of ?g 0 0] by auto
  then have run2: "mirror_run ?m ?g ([], d1) = (Inr (Some (length (mirror_candidates d1))), [], d2)"
    by (simp add: mirror_run_def run_bnd run_map_err run_exec)
  have "none_pending d1" using no_candidates_none_pending [OF ok1] none by simp
  then have "none_pending d2" by (rule preserves_run [OF pres_mirror_run [OF none_pending_pres] run2])
  moreover have "indexed v key d \<longrightarrow> indexed v key d2" for v key
    using preserves_run [OF indexed_runs(1) run1] preserves_run [OF indexed_runs(2) run2] by blast
  moreover have "db_ok d2" by (rule safe_run [OF safe_runs(2) run2 ok1])
  moreover have "backfill_run ?b jf ([], d) = (Inr (Some x), [], d1) \<and>
      mirror_run ?m jf ([], d1) = (Inr (Some (length (mirror_candidates d1))), [], d2)" if "max ?f ?g \<le> jf" for jf
    using that backfill_run_more [OF run1, of jf] mirror_run_more [OF run2, of jf] by simp
  ultimately show ?thesis using copied
    by (intro exI [of _ "max ?f ?g"] exI [of _ x] exI [of _ d1] exI [of _ "length (mirror_candidates d1)"] exI [of _ d2]) blast
qed

lemma pipeline_loop_completes:
  assumes "lists_pages (pl_page c) prefix page token start pages" and "db_ok d"
    and "\<And>page. working_page c page" and "\<And>k. \<not> pl_cancelled c k"
  shows "\<exists>f0 d2. (\<forall>jf \<ge> f0. pipeline_loop c full prefix None jf (length pages) page token start n ([], d) =
        (Inr (Some (n + length (filter (\<lambda>k. hetzner_video k \<noteq> None) (concat pages)))), [], d2)) \<and>
     db_ok d2 \<and> none_pending d2 \<and> mirror_candidates d2 = [] \<and>
     (\<forall>key v. hetzner_video key = Some v \<and> (key \<in> set (concat pages) \<or> indexed v key d) \<longrightarrow> indexed v key d2)"
  using assms(1,2)
proof (induction pages arbitrary: page token start n d)
  case (Cons keys later)
  then obtain cont where page: "pl_page c page prefix token start = Inr (keys, cont)"
    and rest: "case cont of None \<Rightarrow> later = [] | Some t \<Rightarrow> lists_pages (pl_page c) prefix (page + 1) (Some t) None later"
    by (auto split: sum.splits)
  let ?n = "n + length (filter (\<lambda>k. hetzner_video k \<noteq> None) keys)"
  obtain d0 where put: "pipeline_upserts (pl_temp_prefix c) full keys n ([], d) = (Inr ?n, [], d0)" and ok0: "db_ok d0"
    and in0: "\<forall>key v. hetzner_video key = Some v \<and> (key \<in> set keys \<or> indexed v key d) \<longrightarrow> indexed v key d0"
    using pipeline_upserts_run [OF Cons.prems(2), of "pl_temp_prefix c" full keys n] by blast
  obtain f1 x d1 y d2 where jobs: "\<And>jf. f1 \<le> jf \<Longrightarrow> backfill_run ((pl_backfill c page)\<lparr>bc_limit := None\<rparr>) jf ([], d0) = (Inr (Some x), [], d1) \<and>
        mirror_run ((pl_mirror c page)\<lparr>mc_limit := None\<rparr>) jf ([], d1) = (Inr (Some y), [], d2)"
    and ok2: "db_ok d2" and none: "none_pending d2" "mirror_candidates d2 = []" and in2: "\<And>v key. indexed v key d0 \<Longrightarrow> indexed v key d2"
    using page_jobs_run [OF ok0 assms(3), of page] by blast
  have step: "pipeline_loop c full prefix None jf (Suc fuel) page token start n ([], d) = (case cont of
      None \<Rightarrow> (Inr (Some ?n), [], d2) | Some t \<Rightarrow> pipeline_loop c full prefix None jf fuel (page + 1) (Some t) None ?n ([], d2))"
    if "f1 \<le> jf" for jf fuel
    using jobs [OF that] assms(4) page put by (auto simp: run_bnd run_attempt reached_def split: option.split)
  show ?case
  proof (cases "cont")
    case None
    then have "later = []" using rest by simp
    then show ?thesis using step None ok2 none in0 in2
      by (intro exI [of _ f1] exI [of _ d2]) auto
  next
    case (Some t)
    with rest Cons.IH [OF _ ok2, of "page + 1" "Some t" None ?n] obtain f2 d3 where
      run: "\<And>jf. f2 \<le> jf \<Longrightarrow> pipeline_loop c full prefix None jf (length later) (page + 1) (Some t) None ?n ([], d2) =
        (Inr (Some (?n + length (filter (\<lambda>k. hetzner_video k \<noteq> None) (concat later)))), [], d3)"
      and "db_ok d3" "none_pending d3" "mirror_candidates d3 = []"
      and in3: "\<forall>key v. hetzner_video key = Some v \<and> (key \<in> set (concat later) \<or> indexed v key d2) \<longrightarrow> indexed v key d3"
      by auto
    moreover have "pipeline_loop c full prefix None jf (length (keys # later)) page token start n ([], d) =
        (Inr (Some (n + length (filter (\<lambda>k. hetzner_video k \<noteq> None) (concat (keys # later))))), [], d3)" if "max f1 f2 \<le> jf" for jf
      using step [of jf "length later"] run [of jf] that Some by simp
    moreover have "\<forall>key v. hetzner_video key = Some v \<and> (key \<in> set (concat (keys # later)) \<or> indexed v key d) \<longrightarrow> indexed v key d3"
    proof (intro allI impI)
      fix key v
      assume *: "hetzner_video key = Some v \<and> (key \<in> set (concat (keys # later)) \<or> indexed v key d)"
      then have "key \<in> set (concat later) \<or> indexed v key d2" using in0 in2 by auto
      with * in3 show "indexed v key d3" by blast
    qed
    ultimately show ?thesis by (intro exI [of _ "max f1 f2"] exI [of _ d3]) blast
  qed
qed simp

section \<open>The whole pipeline\<close>

text \<open>C36. When no statement fails, every copy works and nothing is cancelled, the pipeline ends after the last page of the
  listing: it has counted every video listed, each of them is in the index with its key and has a job, and nothing is left
  to hash and nothing to copy, whatever the hashing of each video gave.\<close>

theorem pipeline_completes:
  assumes "db_ok d" and "\<And>page. working_page c page" and "\<And>k. \<not> pl_cancelled c k"
    and "lists_pages (pl_page c) prefix 0 None
       (if full then None else max_key prefix (List.map_filter vi_hetzner_key (video_index d))) pages"
  shows "\<exists>f0 d2. (\<forall>jf \<ge> f0. pipeline_run c full prefix None jf (length pages) ([], d) =
        (Inr (Some (length (filter (\<lambda>k. hetzner_video k \<noteq> None) (concat pages)))), [], d2)) \<and>
     db_ok d2 \<and> phash_candidates d2 = [] \<and> mirror_candidates d2 = [] \<and>
     (\<forall>key \<in> set (concat pages). \<forall>v. hetzner_video key = Some v \<longrightarrow> indexed v key d2)"
proof -
  let ?start = "if full then None else max_key prefix (List.map_filter vi_hetzner_key (video_index d))"
  obtain f0 d2 where "\<forall>jf \<ge> f0. pipeline_loop c full prefix None jf (length pages) 0 None ?start 0 ([], d) =
        (Inr (Some (0 + length (filter (\<lambda>k. hetzner_video k \<noteq> None) (concat pages)))), [], d2)"
    and ok: "db_ok d2" "none_pending d2" "mirror_candidates d2 = []"
    and "\<forall>key v. hetzner_video key = Some v \<and> (key \<in> set (concat pages) \<or> indexed v key d) \<longrightarrow> indexed v key d2"
    using pipeline_loop_completes [where c = c and d = d and n = 0 and full = full, OF assms(4,1-3)] by blast
  moreover from this have "pipeline_run c full prefix None jf (length pages) ([], d) =
        (Inr (Some (length (filter (\<lambda>k. hetzner_video k \<noteq> None) (concat pages)))), [], d2)" if "f0 \<le> jf" for jf
    using that by (auto simp: pipeline_run_def run_bnd run_attempt run_exec get_max_hetzner_key_def run_query)
  ultimately show ?thesis
    using no_candidates_none_pending [OF ok(1)] by (intro exI [of _ f0] exI [of _ d2]) blast
qed

definition demo_pipeline :: "nat pipeline_config" where
  "demo_pipeline = \<lparr>pl_page = (\<lambda>page prefix token start. if page = 0 then Inr ([''u/a.mp4'', ''u/a-thumbnail.png''], Some ''t'')
       else Inr ([''u/b.mp4''], None)),
     pl_backfill = (\<lambda>_. demo_backfill), pl_mirror = (\<lambda>_. demo_mirror (Exited True [])), pl_cancelled = (\<lambda>_. False),
     pl_temp_prefix = ''temp/''\<rparr>"

theorem pipeline_completes_witness:
  "\<exists>f0 d2. pipeline_run demo_pipeline True None None f0 2 ([], one_job_db MPending None) = (Inr (Some 2), [], d2) \<and>
     mirror_candidates d2 = [] \<and> indexed ''u/b'' ''u/b.mp4'' d2"
proof -
  let ?pages = "[[''u/a.mp4'', ''u/a-thumbnail.png''], [''u/b.mp4'']]"
  have "working_page demo_pipeline page" for page
    by (simp add: working_page_def demo_pipeline_def copy_row_def demo_mirror_one(1))
       (simp add: demo_backfill_def demo_mirror_def)
  moreover have "lists_pages (pl_page demo_pipeline) None 0 None
      (if True then None else max_key None (List.map_filter vi_hetzner_key (video_index (one_job_db MPending None)))) ?pages"
    by (simp add: demo_pipeline_def)
  moreover have "\<not> pl_cancelled demo_pipeline k" for k by (simp add: demo_pipeline_def)
  moreover have "hetzner_video ''u/a.mp4'' = Some ''u/a''" "hetzner_video ''u/a-thumbnail.png'' = None"
    "hetzner_video ''u/b.mp4'' = Some ''u/b''" by code_simp+
  ultimately show ?thesis
    using pipeline_completes [OF one_job_ok, where c = demo_pipeline and full = True and prefix = None and pages = ?pages]
    by (fastforce simp: numeral_2_eq_2)
qed

end
