(* ===== verification/User_Upload.thy ===== *)
theory User_Upload
  imports Raw_Final Service_Http Completion
begin

text \<open>
  The uploads of users (\<open>routes/upload\<close>): the address of an upload, the registration of the uploaded video as a post and
  its publication. The service finalises the upload by a request to its own route; the canisters, the verification of a
  delegated identity, the codecs and the random video id are parameters. A principal is its canonical text.
\<close>

section \<open>Errors and answers\<close>

datatype app_error =
    InvalidPrincipal string | UserProfileFetchError string | UserNotFound | StorageError string | InternalError string
  | AgentError string | InvalidDelegatedIdentity string | PostNotFound string | Unauthorized string
  | CanisterError string | SerializationError string

definition app_error_text :: "app_error \<Rightarrow> string" where
  "app_error_text e = (case e of
       InvalidPrincipal m \<Rightarrow> ''Invalid principal: '' @ m
     | UserProfileFetchError m \<Rightarrow> ''Failed to fetch user profile: '' @ m
     | UserNotFound \<Rightarrow> ''User not found''
     | StorageError m \<Rightarrow> ''Storage error: '' @ m
     | InternalError m \<Rightarrow> ''Internal server error: '' @ m
     | AgentError m \<Rightarrow> ''Agent error: '' @ m
     | InvalidDelegatedIdentity m \<Rightarrow> ''Invalid delegated identity: '' @ m
     | PostNotFound m \<Rightarrow> ''Post not found: '' @ m
     | Unauthorized m \<Rightarrow> ''Unauthorized: '' @ m
     | CanisterError m \<Rightarrow> ''Canister error: '' @ m
     | SerializationError m \<Rightarrow> ''Serialization error: '' @ m)"

definition status_code :: "app_error \<Rightarrow> nat" where
  "status_code e = (case e of
       InvalidPrincipal _ \<Rightarrow> 400 | UserProfileFetchError _ \<Rightarrow> 400 | UserNotFound \<Rightarrow> 404 | StorageError _ \<Rightarrow> 503
     | InternalError _ \<Rightarrow> 500 | AgentError _ \<Rightarrow> 502 | InvalidDelegatedIdentity _ \<Rightarrow> 400 | PostNotFound _ \<Rightarrow> 404
     | Unauthorized _ \<Rightarrow> 403 | CanisterError _ \<Rightarrow> 502 | SerializationError _ \<Rightarrow> 500)"

record 'a api_response =
  ar_success :: bool
  ar_data :: "'a option"
  ar_error_message :: "string option"
  ar_status :: nat

definition to_api_response :: "app_error \<Rightarrow> 'a api_response" where
  "to_api_response e = \<lparr>ar_success = False, ar_data = None, ar_error_message = Some (app_error_text e),
     ar_status = status_code e\<rparr>"

definition response_of :: "app_error + 'a \<Rightarrow> 'a api_response" where
  "response_of r = (case r of
       Inr data \<Rightarrow> \<lparr>ar_success = True, ar_data = Some data, ar_error_message = None, ar_status = 200\<rparr>
     | Inl e \<Rightarrow> to_api_response e)"

text \<open>What goes out: the status, and the fields but the status as a JSON object.\<close>

definition into_response :: "('a \<Rightarrow> json) \<Rightarrow> 'a api_response \<Rightarrow> nat \<times> json" where
  "into_response enc a = (ar_status a, JObj [(''success'', JBool (ar_success a)),
     (''data'', case ar_data a of None \<Rightarrow> JNull | Some d \<Rightarrow> enc d),
     (''error_message'', case ar_error_message a of None \<Rightarrow> JNull | Some m \<Rightarrow> JStr m)])"

section \<open>Posts\<close>

text \<open>The two statuses the sources name.\<close>

datatype frontend_status = DraftPost | PublishedPost

record frontend_post =
  fp_id :: string
  fp_video_uid :: string
  fp_creator :: string
  fp_status :: frontend_status
  fp_hashtags :: "string list"
  fp_description :: string

record request_post_details =
  rd_video_uid :: string
  rd_description :: string
  rd_hashtags :: "string list"
  rd_creator :: string
  rd_id :: string

definition from_frontend :: "frontend_post \<Rightarrow> request_post_details" where
  "from_frontend p = \<lparr>rd_video_uid = fp_video_uid p, rd_description = fp_description p, rd_hashtags = fp_hashtags p,
     rd_creator = fp_creator p, rd_id = fp_id p\<rparr>"

definition into_frontend :: "request_post_details \<Rightarrow> frontend_post" where
  "into_frontend d = \<lparr>fp_id = rd_id d, fp_video_uid = rd_video_uid d, fp_creator = rd_creator d, fp_status = DraftPost,
     fp_hashtags = rd_hashtags d, fp_description = rd_description d\<rparr>"

definition request_details_json :: "request_post_details \<Rightarrow> json" where
  "request_details_json d = JObj [(''video_uid'', JStr (rd_video_uid d)), (''description'', JStr (rd_description d)),
     (''hashtags'', JArr (map JStr (rd_hashtags d))), (''creator_principal'', JStr (rd_creator d)), (''id'', JStr (rd_id d))]"

text \<open>What the canister tells of a post.\<close>

record stored_post =
  sp_id :: string
  sp_video_uid :: string
  sp_creator :: string
  sp_hashtags :: "string list"

record update_metadata_request =
  um_wire :: string
  um_meta :: "(string \<times> string) list"
  um_post :: frontend_post

record mark_request =
  mr_post_id :: string
  mr_wire :: string

section \<open>The world\<close>

datatype post_status = Uploaded

datatype notification = VideoUploadedToDraft string string | VideoPublished string string

datatype upload_call =
    AddPost frontend_post
  | UpdatePostStatus string post_status
  | EventPosted json
  | NotificationPosted string json

record up_world =
  uw_store :: rw_world
  uw_calls :: "upload_call list"

type_synonym ('e, 'a) up = "(up_world, 'e, 'a) proc"

definition on_raw :: "('e, 'a) rw \<Rightarrow> ('e, 'a) up" where
  "on_raw m = (\<lambda>(p, w). case m (p, uw_store w) of (r, q, s) \<Rightarrow> (r, q, w\<lparr>uw_store := s\<rparr>))"

definition call :: "upload_call \<Rightarrow> ('e, unit) up" where
  "call c = (\<lambda>(p, w). (Inr (), p, w\<lparr>uw_calls := uw_calls w @ [c]\<rparr>))"

definition try_up :: "'e + 'a \<Rightarrow> ('e, 'a) up" where
  "try_up r = (case r of Inl e \<Rightarrow> raise e | Inr x \<Rightarrow> ret x)"

text \<open>How the request of the service to itself goes: it is not delivered, it is answered, or it is handled and its answer is
  lost. A canister call ends in an error of the agent or in the canister's own answer, an error of which is given as its debug
  text; \<open>ue_debug\<close> is that of a principal. \<open>ue_url\<close> is the normal form of a
  url; the public base is one without query and fragment.\<close>

datatype hop = HopLost string | HopAnswered | HopCut string

record upload_env =
  ue_verify :: "string \<Rightarrow> string + string"
  ue_principal :: "string \<Rightarrow> string + string"
  ue_profile :: "string \<Rightarrow> string + string + unit"
  ue_video_id :: string
  ue_public_base :: "string option"
  ue_url :: "string \<Rightarrow> string"
  ue_encode :: "string \<Rightarrow> string"
  ue_decode :: "string \<Rightarrow> string"
  ue_hop :: hop
  ue_debug :: "string \<Rightarrow> string"
  ue_status_text :: "nat \<Rightarrow> string"
  ue_print :: "json \<Rightarrow> string"
  ue_to_string :: "json \<Rightarrow> string + string"
  ue_add_post :: "frontend_post \<Rightarrow> string + string + unit"
  ue_post_by_id :: "string \<Rightarrow> string + string + stored_post"
  ue_update_status :: "string \<Rightarrow> post_status \<Rightarrow> string + unit"
  ue_events :: bool
  ue_notifications :: bool
  ue_user_info_id :: string
  ue_raw :: raw_env

section \<open>Who sends\<close>

definition verified_sender :: "upload_env \<Rightarrow> string \<Rightarrow> app_error + string" where
  "verified_sender env wire = map_left InvalidDelegatedIdentity (ue_verify env wire)"

section \<open>The address of an upload\<close>

definition raw_pairs :: "string \<Rightarrow> string \<Rightarrow> bool \<Rightarrow> (string \<times> string) list" where
  "raw_pairs user video is_nsfw = [(''publisher_user_id'', user), (''video_id'', video),
     (''is_nsfw'', if is_nsfw then ''true'' else ''false'')]"

definition raw_url :: "upload_env \<Rightarrow> string \<Rightarrow> string \<Rightarrow> string \<Rightarrow> string \<Rightarrow> bool \<Rightarrow> string" where
  "raw_url env route base user video is_nsfw = ue_url env (trim_end_char CHR ''/'' base @ route) @ ''?'' @
     (case query_string (ue_encode env) (raw_pairs user video is_nsfw) of None \<Rightarrow> [] | Some q \<Rightarrow> q)"

definition build_upload_url :: "upload_env \<Rightarrow> string \<Rightarrow> string \<Rightarrow> string \<Rightarrow> bool \<Rightarrow> string" where
  "build_upload_url env base user video is_nsfw = raw_url env ''/duplicate_raw/upload'' base user video is_nsfw"

definition finalize_url :: "upload_env \<Rightarrow> string \<Rightarrow> string \<Rightarrow> string \<Rightarrow> bool \<Rightarrow> string" where
  "finalize_url env base user video is_nsfw = raw_url env ''/duplicate_raw/finalize'' base user video is_nsfw"

record upload_url_response =
  ur_upload_url :: string
  ur_video_id :: string

definition get_upload_url_core :: "upload_env \<Rightarrow> string \<Rightarrow> string \<Rightarrow> app_error + upload_url_response" where
  "get_upload_url_core env base user = (case ue_principal env user of
       Inl e \<Rightarrow> Inl (InvalidPrincipal e)
     | Inr p \<Rightarrow> (case ue_profile env p of
         Inl e \<Rightarrow> Inl (AgentError e)
       | Inr (Inl e) \<Rightarrow> Inl (UserProfileFetchError e)
       | Inr (Inr _) \<Rightarrow> Inr \<lparr>ur_upload_url = build_upload_url env base user (ue_video_id env) False,
           ur_video_id = ue_video_id env\<rparr>))"

definition get_upload_url :: "upload_env \<Rightarrow> string \<Rightarrow> upload_url_response api_response" where
  "get_upload_url env user = (case ue_public_base env of
       None \<Rightarrow> to_api_response (InternalError ''PUBLIC_BASE_URL not set'')
     | Some base \<Rightarrow> response_of (get_upload_url_core env base user))"

section \<open>The routes behind the address\<close>

text \<open>The query of a request to a raw route as the extractor reads it.\<close>

definition raw_params_of :: "(string \<Rightarrow> string) \<Rightarrow> string option \<Rightarrow> raw_params option" where
  "raw_params_of dec q = (let ps = form_pairs dec q in
     case (field_with Some ps ''publisher_user_id'', field_with Some ps ''video_id'', field_with parse_bool ps ''is_nsfw'') of
       (Some (Some user), Some (Some video), Some (Some nsfw)) \<Rightarrow> Some \<lparr>rp_user = user, rp_video = video, rp_nsfw = nsfw\<rparr>
     | _ \<Rightarrow> None)"

definition url_query :: "string \<Rightarrow> string option" where
  "url_query url = map_option snd (split_once ''?'' url)"

definition raw_answer :: "(raw_error, json) rw \<Rightarrow> ('e, nat \<times> json) up" where
  "raw_answer m = bnd (attempt (on_raw m)) (\<lambda>r. ret (case r of Inl e \<Rightarrow> raw_error_response e | Inr j \<Rightarrow> (200, j)))"

definition serve_raw :: "upload_env \<Rightarrow> string \<Rightarrow> (raw_params \<Rightarrow> (raw_error, json) rw) \<Rightarrow> ('e, nat \<times> json) up" where
  "serve_raw env url handler = (case raw_params_of (ue_decode env) (url_query url) of
       None \<Rightarrow> ret (400, JNull) | Some prm \<Rightarrow> raw_answer (handler prm))"

text \<open>A map as it arrives: in the order of its keys.\<close>

definition key_order :: "(string \<times> string) list \<Rightarrow> (string \<times> string) list" where
  "key_order m = sort_key fst m"

definition finalize_via_http :: "upload_env \<Rightarrow> string \<Rightarrow> string \<Rightarrow> string \<Rightarrow> bool \<Rightarrow> (string \<times> string) list \<Rightarrow> (app_error, unit) up" where
  "finalize_via_http env base user video is_nsfw metadata = (case ue_hop env of
       HopLost e \<Rightarrow> raise (StorageError e)
     | hop \<Rightarrow> bnd (serve_raw env (finalize_url env base user video is_nsfw)
           (\<lambda>prm. handler_raw_finalize (ue_raw env) prm (key_order metadata))) (\<lambda>(status, body).
         case hop of HopCut e \<Rightarrow> raise (StorageError e)
         | _ \<Rightarrow> if 200 \<le> status \<and> status < 300 then ret ()
           else raise (StorageError (''finalize returned '' @ ue_status_text env status @ '': '' @ ue_print env body))))"

section \<open>Events and notifications\<close>

text \<open>The parameters of an event are a text, not an object.\<close>

definition upload_successful_event :: "upload_env \<Rightarrow> string \<Rightarrow> nat \<Rightarrow> string \<Rightarrow> string \<Rightarrow> json" where
  "upload_successful_event env video_uid hashtags_len post_id user = JObj [(''event'', JStr ''video_upload_successful''),
     (''params'', JStr (ue_print env (JObj [(''user_id'', JStr user), (''publisher_user_id'', JStr user),
       (''display_name'', JStr []), (''canister_id'', JStr (ue_user_info_id env)), (''creator_category'', JStr ''NA''),
       (''hashtag_count'', JInt (int hashtags_len)), (''is_nsfw'', JBool False), (''is_hot_or_not'', JBool True),
       (''is_filter_used'', JBool False), (''video_id'', JStr video_uid), (''post_id'', JStr post_id), (''country'', JNull)])))]"

definition upload_unsuccessful_event :: "upload_env \<Rightarrow> string \<Rightarrow> nat \<Rightarrow> string \<Rightarrow> json" where
  "upload_unsuccessful_event env error hashtags_len user = JObj [(''event'', JStr ''video_upload_unsuccessful''),
     (''params'', JStr (ue_print env (JObj [(''user_id'', JStr user), (''display_name'', JStr []),
       (''canister_id'', JStr (ue_user_info_id env)), (''creator_category'', JStr ''NA''),
       (''hashtag_count'', JInt (int hashtags_len)), (''is_NSFW'', JBool False), (''is_hotorNot'', JBool True),
       (''fail_reason'', JStr error)])))]"

definition notification_title :: "notification \<Rightarrow> string" where
  "notification_title n = (case n of
       VideoUploadedToDraft _ _ \<Rightarrow> ''Your video was generated and added to Drafts in Profile section!''
     | VideoPublished _ _ \<Rightarrow> ''Your video has been published successfully'')"

definition notification_json :: "notification \<Rightarrow> json" where
  "notification_json n = (case n of
       VideoUploadedToDraft user post \<Rightarrow>
         JObj [(''type'', JStr ''VideoUploadedToDraft''), (''user_principal'', JStr user), (''post_id'', JStr post)]
     | VideoPublished user post \<Rightarrow>
         JObj [(''type'', JStr ''VideoPublished''), (''user_principal'', JStr user), (''post_id'', JStr post)])"

text \<open>Both are best effort: what becomes of the request is only logged.\<close>

definition send_event :: "upload_env \<Rightarrow> json \<Rightarrow> ('e, unit) up" where
  "send_event env body = (if ue_events env then call (EventPosted body) else ret ())"

definition send_notification :: "upload_env \<Rightarrow> notification \<Rightarrow> string \<Rightarrow> ('e, unit) up" where
  "send_notification env n user = (if ue_notifications env
     then call (NotificationPosted (''https://multi-service.naitik.yral.com/api/v1/notifications/'' @ user @ ''/send'')
       (JObj [(''notification'', JObj [(''title'', JStr (notification_title n)), (''body'', JStr [])]),
         (''data'', notification_json n)]))
     else ret ())"

section \<open>Registering a post\<close>

definition authorize_publisher :: "upload_env \<Rightarrow> update_metadata_request \<Rightarrow> app_error + string" where
  "authorize_publisher env req = (case verified_sender env (um_wire req) of
       Inl e \<Rightarrow> Inl e
     | Inr publisher \<Rightarrow> if publisher \<noteq> fp_creator (um_post req)
         then Inl (Unauthorized ''Publisher user id does not match creator principal in post details'')
         else Inr publisher)"

definition inject_post_details :: "upload_env \<Rightarrow> (string \<times> string) list \<Rightarrow> frontend_post \<Rightarrow> app_error + (string \<times> string) list" where
  "inject_post_details env meta post = (case ue_to_string env (request_details_json (from_frontend post)) of
       Inl e \<Rightarrow> Inl (SerializationError e)
     | Inr t \<Rightarrow> Inr ((''post_details'', t) # filter (\<lambda>kv. fst kv \<noteq> ''post_details'') meta))"

definition upload_video_canister :: "upload_env \<Rightarrow> frontend_post \<Rightarrow> (app_error, unit) up" where
  "upload_video_canister env post = bnd (call (AddPost post)) (\<lambda>_. case ue_add_post env post of
       Inl e \<Rightarrow> raise (AgentError e)
     | Inr (Inr _) \<Rightarrow>
         bnd (if fp_status post = PublishedPost
              then send_event env (upload_successful_event env (fp_video_uid post) (length (fp_hashtags post)) (fp_id post) (fp_creator post))
              else ret ()) (\<lambda>_.
         send_notification env (if fp_status post = PublishedPost then VideoPublished (fp_creator post) (fp_id post)
           else VideoUploadedToDraft (fp_creator post) (fp_id post)) (fp_creator post))
     | Inr (Inl error) \<Rightarrow>
         bnd (send_event env (upload_unsuccessful_event env error (length (fp_hashtags post)) (fp_creator post))) (\<lambda>_.
         raise (CanisterError error)))"

definition update_metadata_impl :: "upload_env \<Rightarrow> update_metadata_request \<Rightarrow> (app_error, unit) up" where
  "update_metadata_impl env req =
     bnd (try_up (authorize_publisher env req)) (\<lambda>publisher.
     bnd (try_up (inject_post_details env (um_meta req) (um_post req))) (\<lambda>meta.
     bnd (try_up (case ue_public_base env of
         None \<Rightarrow> Inl (InternalError ''PUBLIC_BASE_URL not set'') | Some base \<Rightarrow> Inr base)) (\<lambda>base.
     bnd (finalize_via_http env base publisher (fp_id (um_post req)) False meta) (\<lambda>_.
     upload_video_canister env (um_post req)))))"

definition update_video_metadata :: "upload_env \<Rightarrow> update_metadata_request \<Rightarrow> ('e, unit api_response) up" where
  "update_video_metadata env req = bnd (attempt (update_metadata_impl env req)) (\<lambda>r. ret (response_of r))"

section \<open>Publishing a post\<close>

definition mark_post_impl :: "upload_env \<Rightarrow> mark_request \<Rightarrow> (app_error, unit) up" where
  "mark_post_impl env req =
     bnd (try_up (verified_sender env (mr_wire req))) (\<lambda>sender.
     bnd (try_up (case ue_post_by_id env (mr_post_id req) of
         Inl e \<Rightarrow> Inl (AgentError e)
       | Inr (Inl e) \<Rightarrow> Inl (PostNotFound (''Error from user post service while fetching post details for post id '' @
           mr_post_id req @ '': '' @ e))
       | Inr (Inr post) \<Rightarrow> Inr post)) (\<lambda>post.
     if sender \<noteq> sp_creator post
     then raise (Unauthorized (''The sender of the delegated identity is not the creator of the post. Sender: '' @
       ue_debug env sender @ '', Post Creator: '' @ ue_debug env (sp_creator post)))
     else bnd (call (UpdatePostStatus (mr_post_id req) Uploaded)) (\<lambda>_.
       bnd (try_up (map_left AgentError (ue_update_status env (mr_post_id req) Uploaded))) (\<lambda>_.
       bnd (send_event env (upload_successful_event env (sp_video_uid post) (length (sp_hashtags post)) (sp_id post) (sp_creator post))) (\<lambda>_.
       send_notification env (VideoPublished (sp_creator post) (mr_post_id req)) (sp_creator post))))))"

definition mark_post_as_published :: "upload_env \<Rightarrow> mark_request \<Rightarrow> ('e, unit api_response) up" where
  "mark_post_as_published env req = bnd (attempt (mark_post_impl env req)) (\<lambda>r. ret (response_of r))"

end
