(* ===== verification/User_Upload_Props.thy ===== *)
theory User_Upload_Props
  imports User_Upload
begin

text \<open>
  What the uploads of users promise: a post is registered by its creator only, after its video has been published, and a
  user's upload goes through from its address to its post.
\<close>

section \<open>Addresses\<close>

text \<open>What the addresses rely on: the normal form of the public base has no query, and what the library encodes in a query it
  reads back.\<close>

definition service_urls :: "upload_env \<Rightarrow> bool" where
  "service_urls env \<longleftrightarrow> (\<forall>u. CHR ''?'' \<notin> set (ue_url env u)) \<and> Service_Http.codec_ok (ue_encode env) (ue_decode env)"

lemma split_once_sep: "c \<notin> set k \<Longrightarrow> split_once [c] (k @ c # v) = Some (k, v)"
  by (induction k) (auto simp: starts_with_def split_once.simps)

lemma raw_url_params:
  assumes "service_urls env"
  shows "raw_params_of (ue_decode env) (url_query (raw_url env route base user video nsfw)) =
     Some \<lparr>rp_user = user, rp_video = video, rp_nsfw = nsfw\<rparr>"
proof -
  obtain q where q: "query_string (ue_encode env) (raw_pairs user video nsfw) = Some q"
    by (simp add: query_string_def raw_pairs_def)
  then have "url_query (raw_url env route base user video nsfw) = query_string (ue_encode env) (raw_pairs user video nsfw)"
    using assms by (simp add: url_query_def raw_url_def service_urls_def split_once_sep)
  moreover have "form_pairs (ue_decode env) (query_string (ue_encode env) (raw_pairs user video nsfw)) = raw_pairs user video nsfw"
    using assms by (intro form_of_query) (simp add: service_urls_def)
  ultimately show ?thesis by (simp add: raw_params_of_def raw_pairs_def field_with_def parse_bool_def Let_def)
qed

lemma serve_raw_url:
  assumes "service_urls env"
  shows "serve_raw env (raw_url env route base user video nsfw) handler =
     raw_answer (handler \<lparr>rp_user = user, rp_video = video, rp_nsfw = nsfw\<rparr>)"
  by (simp add: serve_raw_def raw_url_params [OF assms])

section \<open>The request of the service to itself\<close>

lemma run_call [run_simps, simp]: "call c (p, w) = (Inr (), p, w\<lparr>uw_calls := uw_calls w @ [c]\<rparr>)"
  by (simp add: call_def)

lemma run_on_raw: "on_raw m (p, w) = (case m (p, uw_store w) of (r, q, s) \<Rightarrow> (r, q, w\<lparr>uw_store := s\<rparr>))"
  by (simp add: on_raw_def)

lemma run_raw_answer:
  assumes "m (p, uw_store w) = (r, q, s)"
  shows "raw_answer m (p, w) = (Inr (case r of Inl e \<Rightarrow> raw_error_response e | Inr j \<Rightarrow> (200, j)), q, w\<lparr>uw_store := s\<rparr>)"
  by (simp add: raw_answer_def run_bnd run_attempt run_on_raw assms)

lemma raw_answer_error: "fst (raw_error_response e) = 500"
  by (simp add: raw_error_response_def)

lemma finalize_via_http_Inr:
  assumes "service_urls env" and "finalize_via_http env base user video nsfw md (p, w) = (r, q, w')"
  shows "uw_calls w' = uw_calls w"
    and "r = Inr () \<Longrightarrow> \<exists>j. handler_raw_finalize (ue_raw env) \<lparr>rp_user = user, rp_video = video, rp_nsfw = nsfw\<rparr> (key_order md)
       (p, uw_store w) = (Inr j, q, uw_store w')"
proof -
  let ?m = "handler_raw_finalize (ue_raw env) \<lparr>rp_user = user, rp_video = video, rp_nsfw = nsfw\<rparr> (key_order md)"
  obtain r1 q1 s where run: "?m (p, uw_store w) = (r1, q1, s)" by (cases "?m (p, uw_store w)")
  note served = run_raw_answer [of ?m, OF run] serve_raw_url [OF assms(1)]
  have status: "fst (raw_error_response e) = 500" for e by (rule raw_answer_error)
  show "uw_calls w' = uw_calls w"
    using assms(2) by (auto simp: finalize_via_http_def finalize_url_def served run_bnd split: hop.splits prod.splits if_splits)
  show "\<exists>j. ?m (p, uw_store w) = (Inr j, q, uw_store w')" if "r = Inr ()"
  proof (cases r1)
    case (Inl e)
    with assms(2) that status [of e] show ?thesis
      by (auto simp: finalize_via_http_def finalize_url_def served run_bnd split: hop.splits prod.splits if_splits)
  next
    case (Inr j)
    with assms(2) that show ?thesis
      by (auto simp: finalize_via_http_def finalize_url_def served run_bnd run split: hop.splits)
  qed
qed

section \<open>The calls of a registration\<close>

lemma send_best_effort:
  "\<exists>cs. send_event env b (p, w) = (Inr (), p, w\<lparr>uw_calls := uw_calls w @ cs\<rparr>) \<and> (\<forall>c \<in> set cs. c = EventPosted b)"
  "\<exists>cs. send_notification env n u (p, w) = (Inr (), p, w\<lparr>uw_calls := uw_calls w @ cs\<rparr>) \<and> (\<forall>c \<in> set cs. \<exists>t j. c = NotificationPosted t j)"
  by (cases "ue_events env", auto simp: send_event_def intro: exI [of _ "[]"])
    (cases "ue_notifications env", auto simp: send_notification_def intro: exI [of _ "[]"])

lemma canister_run:
  "\<exists>r cs. upload_video_canister env post (p, w) = (r, p, w\<lparr>uw_calls := uw_calls w @ AddPost post # cs\<rparr>) \<and>
     (\<forall>other. AddPost other \<notin> set cs) \<and> (r = Inr () \<longleftrightarrow> ue_add_post env post = Inr (Inr ()))"
proof -
  let ?w = "w\<lparr>uw_calls := uw_calls w @ [AddPost post]\<rparr>"
  have event: "\<exists>cs. (if b then send_event env e else ret ()) (p, w1) = (Inr (), p, w1\<lparr>uw_calls := uw_calls w1 @ cs\<rparr>) \<and>
      (\<forall>c \<in> set cs. c = EventPosted e)" for b e w1
    using send_best_effort(1) by (cases b) (auto intro: exI [of _ "[]"])
  show ?thesis
  proof (cases "ue_add_post env post")
    case (Inl e)
    then show ?thesis by (auto simp: upload_video_canister_def run_bnd intro: exI [of _ "[]"])
  next
    case (Inr answer)
    show ?thesis
    proof (cases answer)
      case (Inl error)
      obtain cs where "send_event env (upload_unsuccessful_event env error (length (fp_hashtags post)) (fp_creator post)) (p, ?w) =
          ((Inr () :: app_error + unit), p, ?w\<lparr>uw_calls := uw_calls ?w @ cs\<rparr>)" and "\<forall>c \<in> set cs. \<exists>b. c = EventPosted b"
        using send_best_effort(1) by metis
      with \<open>ue_add_post env post = Inr answer\<close> Inl show ?thesis
        by (auto simp: upload_video_canister_def run_bnd intro!: exI [of _ cs])
    next
      case (Inr u)
      let ?e = "upload_successful_event env (fp_video_uid post) (length (fp_hashtags post)) (fp_id post) (fp_creator post)"
      let ?n = "if fp_status post = PublishedPost then VideoPublished (fp_creator post) (fp_id post)
        else VideoUploadedToDraft (fp_creator post) (fp_id post)"
      obtain cs where cs: "(if fp_status post = PublishedPost then send_event env ?e else ret ()) (p, ?w) =
          ((Inr () :: app_error + unit), p, ?w\<lparr>uw_calls := uw_calls ?w @ cs\<rparr>)" "\<forall>c \<in> set cs. c = EventPosted ?e"
        using event by metis
      let ?w2 = "?w\<lparr>uw_calls := uw_calls ?w @ cs\<rparr>"
      obtain ds where "send_notification env ?n (fp_creator post) (p, ?w2) = ((Inr () :: app_error + unit), p, ?w2\<lparr>uw_calls := uw_calls ?w2 @ ds\<rparr>)"
        and "\<forall>c \<in> set ds. \<exists>t j. c = NotificationPosted t j"
        using send_best_effort(2) by metis
      with cs \<open>ue_add_post env post = Inr answer\<close> Inr show ?thesis
        by (auto simp: upload_video_canister_def run_bnd intro!: exI [of _ "cs @ ds"])
    qed
  qed
qed

lemma metadata_sound:
  assumes "update_metadata_impl env req (p, w) = (r, q, w')" and "uw_calls w' \<noteq> uw_calls w \<or> r = Inr ()"
    and "service_urls env"
    and "prm = \<lparr>rp_user = fp_creator (um_post req), rp_video = fp_id (um_post req), rp_nsfw = False\<rparr>"
  shows "\<exists>meta data thumb cs. ue_verify env (um_wire req) = Inr (fp_creator (um_post req)) \<and>
     inject_post_details env (um_meta req) (um_post req) = Inr meta \<and>
     published (ue_raw env) prm None (key_order meta) data thumb (uw_store w') \<and>
     fetched_pair (ue_raw env) prm (uw_store w) data thumb \<and>
     uw_calls w' = uw_calls w @ AddPost (um_post req) # cs \<and> (\<forall>post. AddPost post \<notin> set cs) \<and>
     (r = Inr () \<longleftrightarrow> ue_add_post env (um_post req) = Inr (Inr ()))"
proof -
  note run = assms(1) and acted = assms(2)
  from run acted obtain publisher meta base q1 w1 where
    auth: "authorize_publisher env req = Inr publisher" and
    meta: "inject_post_details env (um_meta req) (um_post req) = Inr meta" and
    fin: "finalize_via_http env base publisher (fp_id (um_post req)) False meta (p, w) = (Inr (), q1, w1)" and
    reg: "upload_video_canister env (um_post req) (q1, w1) = (r, q, w')"
    by (auto simp: update_metadata_impl_def run_bnd try_up_def dest: finalize_via_http_Inr(1) [OF assms(3)]
        split: sum.splits option.splits prod.splits)
  have creator: "ue_verify env (um_wire req) = Inr (fp_creator (um_post req))" "publisher = fp_creator (um_post req)"
    using auth by (auto simp: authorize_publisher_def verified_sender_def map_left_Inr split: sum.splits if_splits)
  from finalize_via_http_Inr [OF assms(3) fin] obtain j where
    same: "uw_calls w1 = uw_calls w" and
    fin2: "handler_raw_finalize (ue_raw env) prm (key_order meta) (p, uw_store w) = (Inr j, q1, uw_store w1)"
    by (auto simp: creator assms(4))
  from canister_run [of env "um_post req" q1 w1] reg obtain cs where
    "w' = w1\<lparr>uw_calls := uw_calls w1 @ AddPost (um_post req) # cs\<rparr>" "\<forall>other. AddPost other \<notin> set cs"
    "r = Inr () \<longleftrightarrow> ue_add_post env (um_post req) = Inr (Inr ())" by auto
  then show ?thesis
    using finalize_Inr [OF fin2] creator meta same by (auto simp: assms(4))
qed

text \<open>C23. A post is registered only by its creator and only after its video was published: if a request to register a post
  makes any call, or is answered with success, the verified sender is the creator of the post, the stores hold a video
  and a thumbnail under the creator and the id of the post, without an expiry and under metadata that names the post, and
  the one call to the canister is this post's. The answer is a success exactly when the canister took it. This holds
  whatever fails in the finalisation and in the request to itself. What was published is what the finalisation fetched
  from the staged objects or, as the code does not look where it comes from, a part that a failing transfer left or a
  temporary file of the same name that was there before; where failing transfers leave nothing and there was no such
  file, it is exactly the staged video and its thumbnail. The service finds itself under its public address
  (\<open>service_urls\<close>: that has no query, and query encoding can be read back).\<close>

theorem post_registered_only_when_published:
  assumes "update_video_metadata env req (p, w) = (Inr a, q, w')" and "uw_calls w' \<noteq> uw_calls w \<or> ar_success a"
    and "service_urls env"
    and "prm = \<lparr>rp_user = fp_creator (um_post req), rp_video = fp_id (um_post req), rp_nsfw = False\<rparr>"
  shows "\<exists>meta data thumb cs. ue_verify env (um_wire req) = Inr (fp_creator (um_post req)) \<and>
     inject_post_details env (um_meta req) (um_post req) = Inr meta \<and>
     published (ue_raw env) prm None (key_order meta) data thumb (uw_store w') \<and>
     fetched_pair (ue_raw env) prm (uw_store w) data thumb \<and>
     (clean_failures (ue_raw env) \<and> no_temp_files prm (uw_store w) \<longrightarrow> in_storj (ue_raw env) prm data thumb (uw_store w)) \<and>
     uw_calls w' = uw_calls w @ AddPost (um_post req) # cs \<and> (\<forall>post. AddPost post \<notin> set cs) \<and>
     (ar_success a \<longleftrightarrow> ue_add_post env (um_post req) = Inr (Inr ()))"
proof -
  obtain r where run: "update_metadata_impl env req (p, w) = (r, q, w')" and a: "a = response_of r"
    using assms(1) by (auto simp: update_video_metadata_def run_bnd run_attempt split: prod.splits)
  have acted: "uw_calls w' \<noteq> uw_calls w \<or> r = Inr ()"
    using assms(2) by (cases r) (auto simp: a response_of_def to_api_response_def)
  have "ar_success a \<longleftrightarrow> r = Inr ()"
    by (cases r) (auto simp: a response_of_def to_api_response_def)
  with metadata_sound [OF run acted assms(3,4)] fetched_pair_clean show ?thesis by (elim exE) (intro exI; auto)
qed

section \<open>From the address to the post\<close>

lemma upload_run:
  assumes "find_file parts = Inr (Some body)"
    and "extract_thumbnail (re_ffmpeg env) (re_tmp env) (ensure_uploaded_video_faststart env body) = Inr thumb"
  shows "\<exists>w1. handler_raw_upload_initial env prm parts ([], w) = (Inr pending_json, [], w1) \<and>
     published env prm (Some pending_expiry) (pending_metadata env) (ensure_uploaded_video_faststart env body) thumb w1"
proof -
  obtain w1 where w1: "try_join env (staged_uploads env prm (ensure_uploaded_video_faststart env body) thumb) ([], w) = (Inr (), [], w1)"
    by (rule succeedsE [OF succeeds_joins(1)])
  then show ?thesis
    using staged_uploads_publish [OF w1] by (simp add: handler_raw_upload_initial_def assms run_bnd try_raw_def Let_def)
qed

lemma published_in_storj: "published env prm x md data thumb w \<Longrightarrow> in_storj env prm data thumb w"
  by (auto simp: published_def storj_holds_def thumbnail_exts_def in_storj_def)

lemma finalize_in_storj:
  assumes "in_storj env prm data thumb w"
  shows "\<exists>w'. handler_raw_finalize env prm md ([], w) = (Inr completed_json, [], w') \<and> published env prm None md data thumb w'"
proof -
  obtain b g where side: "storj_side env (rp_nsfw prm) = (b, g)" by (cases "storj_side env (rp_nsfw prm)")
  from assms obtain v t where "rw_storj w (storj_url b (object_key (rp_user prm) (rp_video prm) ''.mp4'')) = Some v"
    "rw_storj w (storj_url b (object_key (rp_user prm) (rp_video prm) ''_thumbnail.png'')) = Some t"
    "sc_data v = data" "sc_data t = thumb"
    by (auto simp: in_storj_def url_of_def side)
  with finalize_run [OF side this(1,2)] show ?thesis by blast
qed

definition best_effort_calls :: "upload_env \<Rightarrow> frontend_post \<Rightarrow> upload_call list" where
  "best_effort_calls env post =
     (if fp_status post = PublishedPost \<and> ue_events env
      then [EventPosted (upload_successful_event env (fp_video_uid post) (length (fp_hashtags post)) (fp_id post) (fp_creator post))]
      else []) @
     (if ue_notifications env
      then [NotificationPosted (''https://multi-service.naitik.yral.com/api/v1/notifications/'' @ fp_creator post @ ''/send'')
        (JObj [(''notification'', JObj [(''title'', JStr (notification_title (if fp_status post = PublishedPost
             then VideoPublished (fp_creator post) (fp_id post) else VideoUploadedToDraft (fp_creator post) (fp_id post)))),
           (''body'', JStr [])]),
         (''data'', notification_json (if fp_status post = PublishedPost
             then VideoPublished (fp_creator post) (fp_id post) else VideoUploadedToDraft (fp_creator post) (fp_id post)))])]
      else [])"

lemma canister_accepts:
  assumes "ue_add_post env post = Inr (Inr ())"
  shows "upload_video_canister env post (p, w) =
     (Inr (), p, w\<lparr>uw_calls := uw_calls w @ AddPost post # best_effort_calls env post\<rparr>)"
  using assms by (simp add: upload_video_canister_def run_bnd send_event_def send_notification_def best_effort_calls_def)

lemma metadata_run:
  assumes "service_urls env" and "ue_hop env = HopAnswered" and "ue_public_base env = Some base"
    and "ue_verify env wire = Inr (fp_creator post)" and "ue_to_string env (request_details_json (from_frontend post)) = Inr details"
    and "ue_add_post env post = Inr (Inr ())"
    and "in_storj (ue_raw env) \<lparr>rp_user = fp_creator post, rp_video = fp_id post, rp_nsfw = False\<rparr> data thumb (uw_store w)"
  shows "\<exists>w2. update_metadata_impl env \<lparr>um_wire = wire, um_meta = meta, um_post = post\<rparr> ([], w) = (Inr (), [], w2) \<and>
     published (ue_raw env) \<lparr>rp_user = fp_creator post, rp_video = fp_id post, rp_nsfw = False\<rparr> None
       (key_order ((''post_details'', details) # filter (\<lambda>kv. fst kv \<noteq> ''post_details'') meta)) data thumb (uw_store w2) \<and>
     uw_calls w2 = uw_calls w @ AddPost post # best_effort_calls env post"
proof -
  let ?md = "key_order ((''post_details'', details) # filter (\<lambda>kv. fst kv \<noteq> ''post_details'') meta)"
  let ?prm = "\<lparr>rp_user = fp_creator post, rp_video = fp_id post, rp_nsfw = False\<rparr>"
  obtain s where s: "handler_raw_finalize (ue_raw env) ?prm ?md ([], uw_store w) = (Inr completed_json, [], s)"
    "published (ue_raw env) ?prm None ?md data thumb s"
    using finalize_in_storj [OF assms(7)] by blast
  have "finalize_via_http env base (fp_creator post) (fp_id post) False
      ((''post_details'', details) # filter (\<lambda>kv. fst kv \<noteq> ''post_details'') meta) ([], w) = (Inr (), [], w\<lparr>uw_store := s\<rparr>)"
    by (simp add: finalize_via_http_def assms(2) finalize_url_def serve_raw_url [OF assms(1)] run_bnd
        run_raw_answer [of "handler_raw_finalize (ue_raw env) ?prm ?md", OF s(1)])
  then have "update_metadata_impl env \<lparr>um_wire = wire, um_meta = meta, um_post = post\<rparr> ([], w) =
      (Inr (), [], w\<lparr>uw_store := s, uw_calls := uw_calls w @ AddPost post # best_effort_calls env post\<rparr>)"
    using canister_accepts [OF assms(6)]
    by (simp add: update_metadata_impl_def run_bnd try_up_def authorize_publisher_def verified_sender_def map_left_def
        inject_post_details_def assms)
  with s(2) show ?thesis by simp
qed

lemma registration_run:
  assumes "service_urls env" and "ue_hop env = HopAnswered" and "ue_public_base env = Some base"
    and "ue_verify env wire = Inr (fp_creator post)" and "ue_to_string env (request_details_json (from_frontend post)) = Inr details"
    and "ue_add_post env post = Inr (Inr ())"
    and "in_storj (ue_raw env) \<lparr>rp_user = fp_creator post, rp_video = fp_id post, rp_nsfw = False\<rparr> data thumb (uw_store w)"
  shows "\<exists>w2. update_video_metadata env \<lparr>um_wire = wire, um_meta = meta, um_post = post\<rparr> ([], w) =
       (Inr (response_of (Inr ())), [], w2) \<and>
     published (ue_raw env) \<lparr>rp_user = fp_creator post, rp_video = fp_id post, rp_nsfw = False\<rparr> None
       (key_order ((''post_details'', details) # filter (\<lambda>kv. fst kv \<noteq> ''post_details'') meta)) data thumb (uw_store w2) \<and>
     uw_calls w2 = uw_calls w @ AddPost post # best_effort_calls env post"
proof -
  from metadata_run [OF assms] obtain w2 where "update_metadata_impl env \<lparr>um_wire = wire, um_meta = meta, um_post = post\<rparr> ([], w) = (Inr (), [], w2)"
    "published (ue_raw env) \<lparr>rp_user = fp_creator post, rp_video = fp_id post, rp_nsfw = False\<rparr> None
       (key_order ((''post_details'', details) # filter (\<lambda>kv. fst kv \<noteq> ''post_details'') meta)) data thumb (uw_store w2)"
    "uw_calls w2 = uw_calls w @ AddPost post # best_effort_calls env post" by blast
  then show ?thesis by (simp add: update_video_metadata_def run_bnd run_attempt)
qed

text \<open>C24. The upload of a user without faults, from its address to its post: the address the user is given leads back to the
  user and the new video id; the file posted there is staged; and the registration leaves the video and its thumbnail in
  every store without an expiry, under the caller's metadata and the details of the post, and registers the post. Events
  and notifications go out only when they are configured.\<close>

theorem user_upload_completes:
  assumes "service_urls env" and "ue_hop env = HopAnswered" and "ue_public_base env = Some base"
    and "ue_principal env (fp_creator post) = Inr (fp_creator post)" and "ue_profile env (fp_creator post) = Inr (Inr ())"
    and "fp_id post = ue_video_id env" and "ue_verify env wire = Inr (fp_creator post)"
    and "ue_to_string env (request_details_json (from_frontend post)) = Inr details" and "ue_add_post env post = Inr (Inr ())"
    and "find_file parts = Inr (Some body)"
    and "extract_thumbnail (re_ffmpeg (ue_raw env)) (re_tmp (ue_raw env)) (ensure_uploaded_video_faststart (ue_raw env) body) = Inr thumb"
  shows "\<exists>url w1 w2.
     get_upload_url env (fp_creator post) = response_of (Inr \<lparr>ur_upload_url = url, ur_video_id = fp_id post\<rparr>) \<and>
     serve_raw env url (\<lambda>prm. handler_raw_upload_initial (ue_raw env) prm parts) ([], w) =
       ((Inr (200, pending_json) :: unit + nat \<times> json), [], w1) \<and>
     (update_video_metadata env \<lparr>um_wire = wire, um_meta = meta, um_post = post\<rparr> ([], w1) :: (unit + unit api_response) \<times> _) =
       (Inr (response_of (Inr ())), [], w2) \<and>
     published (ue_raw env) \<lparr>rp_user = fp_creator post, rp_video = fp_id post, rp_nsfw = False\<rparr> None
       (key_order ((''post_details'', details) # filter (\<lambda>kv. fst kv \<noteq> ''post_details'') meta))
       (ensure_uploaded_video_faststart (ue_raw env) body) thumb (uw_store w2) \<and>
     uw_calls w2 = uw_calls w @ AddPost post # best_effort_calls env post"
proof -
  let ?prm = "\<lparr>rp_user = fp_creator post, rp_video = fp_id post, rp_nsfw = False\<rparr>"
  let ?url = "build_upload_url env base (fp_creator post) (ue_video_id env) False"
  have url: "get_upload_url env (fp_creator post) = response_of (Inr \<lparr>ur_upload_url = ?url, ur_video_id = fp_id post\<rparr>)"
    by (simp add: get_upload_url_def get_upload_url_core_def assms)
  obtain s where s: "handler_raw_upload_initial (ue_raw env) ?prm parts ([], uw_store w) = (Inr pending_json, [], s)"
    "published (ue_raw env) ?prm (Some pending_expiry) (pending_metadata (ue_raw env))
       (ensure_uploaded_video_faststart (ue_raw env) body) thumb s"
    using upload_run [OF assms(10,11)] by blast
  have "serve_raw env ?url (\<lambda>prm. handler_raw_upload_initial (ue_raw env) prm parts) ([], w) =
      ((Inr (200, pending_json) :: unit + nat \<times> json), [], w\<lparr>uw_store := s\<rparr>)"
    by (simp add: build_upload_url_def serve_raw_url [OF assms(1)] assms(6) [symmetric]
        run_raw_answer [of "handler_raw_upload_initial (ue_raw env) ?prm parts", OF s(1)])
  with registration_run [OF assms(1-3,7-9), of _ _ "w\<lparr>uw_store := s\<rparr>", simplified, OF published_in_storj [OF s(2)]] url show ?thesis
    by fastforce
qed

section \<open>Publication\<close>

text \<open>Only the creator of a post publishes it: if a request to publish makes any call or is answered with success, its
  verified sender is the creator the canister names for that post, its first call sets the status of that post, and
  events and notifications follow only when the canister took the change. Nothing is changed in the stores.\<close>

lemma only_the_creator_publishes:
  assumes "mark_post_as_published env req (p, w) = (Inr a, q, w')" and "w' \<noteq> w \<or> ar_success a"
  shows "\<exists>post cs. ue_post_by_id env (mr_post_id req) = Inr (Inr post) \<and> ue_verify env (mr_wire req) = Inr (sp_creator post) \<and>
     w' = w\<lparr>uw_calls := uw_calls w @ UpdatePostStatus (mr_post_id req) Uploaded # cs\<rparr> \<and>
     (\<forall>i st. UpdatePostStatus i st \<notin> set cs) \<and>
     (ar_success a \<longleftrightarrow> ue_update_status env (mr_post_id req) Uploaded = Inr ()) \<and>
     (cs \<noteq> [] \<longrightarrow> ar_success a)"
proof -
  obtain r where run: "mark_post_impl env req (p, w) = (r, q, w')" and a: "a = response_of r"
    using assms(1) by (auto simp: mark_post_as_published_def run_bnd run_attempt split: prod.splits)
  have ok: "ar_success a \<longleftrightarrow> r = Inr ()" by (cases r) (auto simp: a response_of_def to_api_response_def)
  with run assms(2) obtain post where post: "ue_post_by_id env (mr_post_id req) = Inr (Inr post)"
    and sender: "ue_verify env (mr_wire req) = Inr (sp_creator post)"
    by (auto simp: mark_post_impl_def run_bnd try_up_def verified_sender_def map_left_def split: sum.splits if_splits)
  let ?w = "w\<lparr>uw_calls := uw_calls w @ [UpdatePostStatus (mr_post_id req) Uploaded]\<rparr>"
  let ?e = "upload_successful_event env (sp_video_uid post) (length (sp_hashtags post)) (sp_id post) (sp_creator post)"
  let ?n = "VideoPublished (sp_creator post) (mr_post_id req)"
  obtain cs where cs: "send_event env ?e (p, ?w) = ((Inr () :: app_error + unit), p, ?w\<lparr>uw_calls := uw_calls ?w @ cs\<rparr>)"
      "\<forall>c \<in> set cs. c = EventPosted ?e"
    using send_best_effort(1) by metis
  let ?w2 = "?w\<lparr>uw_calls := uw_calls ?w @ cs\<rparr>"
  obtain ds where ds: "send_notification env ?n (sp_creator post) (p, ?w2) =
        ((Inr () :: app_error + unit), p, ?w2\<lparr>uw_calls := uw_calls ?w2 @ ds\<rparr>)"
      "\<forall>c \<in> set ds. \<exists>t j. c = NotificationPosted t j"
    using send_best_effort(2) by metis
  show ?thesis
  proof (cases "ue_update_status env (mr_post_id req) Uploaded")
    case (Inl e)
    with run have "w' = ?w" "r \<noteq> Inr ()"
      by (auto simp: mark_post_impl_def run_bnd try_up_def verified_sender_def map_left_def post sender)
    with Inl show ?thesis by (auto simp: ok post sender intro!: exI [of _ "[]"])
  next
    case (Inr u)
    with run cs ds have "w' = ?w2\<lparr>uw_calls := uw_calls ?w2 @ ds\<rparr>" "r = Inr ()"
      by (auto simp: mark_post_impl_def run_bnd try_up_def verified_sender_def map_left_def post sender)
    with Inr cs(2) ds(2) show ?thesis by (auto simp: ok post sender intro!: exI [of _ "cs @ ds"])
  qed
qed

section \<open>Witnesses\<close>

definition demo_post :: frontend_post where
  "demo_post = \<lparr>fp_id = ''b-c'', fp_video_uid = ''b-c'', fp_creator = ''a'', fp_status = PublishedPost, fp_hashtags = [''t''],
     fp_description = []\<rparr>"

definition demo_upload :: upload_env where
  "demo_upload = \<lparr>ue_verify = (\<lambda>w. if w = ''wire'' then Inr ''a'' else Inl ''bad chain''), ue_principal = Inr,
     ue_profile = (\<lambda>_. Inr (Inr ())), ue_video_id = ''b-c'', ue_public_base = Some ''https://storage/'', ue_url = filter (\<lambda>c. c \<noteq> CHR ''?''),
     ue_encode = demo_hex, ue_decode = demo_unhex, ue_hop = HopAnswered, ue_debug = id, ue_status_text = show_nat, ue_print = (\<lambda>_. ''{}''),
     ue_to_string = (\<lambda>_. Inr ''{}''), ue_add_post = (\<lambda>_. Inr (Inr ())),
     ue_post_by_id = (\<lambda>_. Inr (Inr \<lparr>sp_id = ''b-c'', sp_video_uid = ''b-c'', sp_creator = ''a'', sp_hashtags = []\<rparr>)),
     ue_update_status = (\<lambda>_ _. Inr ()), ue_events = True, ue_notifications = True, ue_user_info_id = ''info'', ue_raw = demo_env\<rparr>"

definition demo_up_world :: up_world where
  "demo_up_world = \<lparr>uw_store = demo_world (\<lambda>_. None), uw_calls = []\<rparr>"

lemma demo_urls: "service_urls demo_upload"
  using demo_query_codec by (simp add: service_urls_def demo_upload_def)

lemma demo_registration:
  "\<exists>w2. (update_video_metadata demo_upload \<lparr>um_wire = ''wire'', um_meta = [], um_post = demo_post\<rparr> ([], demo_up_world) ::
     (unit + unit api_response) \<times> _) = (Inr (response_of (Inr ())), [], w2)"
  using registration_run [OF demo_urls, of "''https://storage/''" "''wire''" demo_post "''{}''" "''video''" "''png''" demo_up_world "[]"]
  by (auto simp: demo_upload_def demo_post_def demo_up_world_def demo_world_def in_storj_def url_of_def storj_side_def
      demo_env_def storj_url_def object_key_def)

theorem post_registered_only_when_published_witness:
  "\<exists>w2 meta data thumb cs. (update_video_metadata demo_upload \<lparr>um_wire = ''wire'', um_meta = [], um_post = demo_post\<rparr> ([], demo_up_world) ::
     (unit + unit api_response) \<times> _) = (Inr (response_of (Inr ())), [], w2) \<and> uw_calls w2 = AddPost demo_post # cs \<and>
     in_storj demo_env (demo_prm ''a'' ''b-c'') data thumb (uw_store demo_up_world) \<and>
     published demo_env (demo_prm ''a'' ''b-c'') None (key_order meta) data thumb (uw_store w2)"
proof -
  obtain w2 where run: "(update_video_metadata demo_upload \<lparr>um_wire = ''wire'', um_meta = [], um_post = demo_post\<rparr> ([], demo_up_world) ::
     (unit + unit api_response) \<times> _) = (Inr (response_of (Inr ())), [], w2)" using demo_registration by blast
  have prm: "demo_prm ''a'' ''b-c'' = \<lparr>rp_user = fp_creator (um_post \<lparr>um_wire = ''wire'', um_meta = [], um_post = demo_post\<rparr>),
     rp_video = fp_id (um_post \<lparr>um_wire = ''wire'', um_meta = [], um_post = demo_post\<rparr>), rp_nsfw = False\<rparr>"
    by (simp add: demo_prm_def demo_post_def)
  have "ar_success (response_of (Inr ()))" by (simp add: response_of_def)
  moreover have "ue_raw demo_upload = demo_env" by (simp add: demo_upload_def)
  moreover have "no_temp_files prm (uw_store demo_up_world)" for prm
    by (simp add: no_temp_files_def demo_up_world_def demo_world_def)
  ultimately show ?thesis
    using post_registered_only_when_published [OF run _ demo_urls prm] run demo_clean
    by (auto simp: demo_up_world_def)
qed

theorem user_upload_completes_witness:
  "\<exists>url w1. get_upload_url demo_upload ''a'' = response_of (Inr \<lparr>ur_upload_url = url, ur_video_id = ''b-c''\<rparr>) \<and>
     serve_raw demo_upload url (\<lambda>prm. handler_raw_upload_initial demo_env prm [Inr (Some ''file'', Inr ''video'')]) ([], demo_up_world) =
       ((Inr (200, pending_json) :: unit + nat \<times> json), [], w1)"
proof -
  have "find_file [Inr (Some ''file'', Inr ''video'')] = Inr (Some ''video'')" by simp
  moreover have "extract_thumbnail (re_ffmpeg demo_env) (re_tmp demo_env) (ensure_uploaded_video_faststart demo_env ''video'') = Inr ''png''"
    by (simp add: demo_env_def extract_thumbnail_def extract_thumbnail_with_seek_def extract_thumbnail_from_video_path_def)
  moreover have "ue_raw demo_upload = demo_env" "fp_creator demo_post = ''a''" "fp_id demo_post = ''b-c''"
    by (simp_all add: demo_upload_def demo_post_def)
  ultimately show ?thesis
    using user_upload_completes [OF demo_urls, of "''https://storage/''" demo_post "''wire''" "''{}''" "[Inr (Some ''file'', Inr ''video'')]"
        "''video''" "''png''" demo_up_world "[]"]
    by (force simp: demo_upload_def)
qed

lemma only_the_creator_publishes_witness:
  "\<exists>a w'. (mark_post_as_published demo_upload \<lparr>mr_post_id = ''b-c'', mr_wire = ''wire''\<rparr> ([], demo_up_world) ::
     (unit + unit api_response) \<times> _) = (Inr a, [], w') \<and> hd (uw_calls w') = UpdatePostStatus ''b-c'' Uploaded"
proof -
  obtain a w' where run: "(mark_post_as_published demo_upload \<lparr>mr_post_id = ''b-c'', mr_wire = ''wire''\<rparr> ([], demo_up_world) ::
     (unit + unit api_response) \<times> _) = (Inr a, [], w')" and "ar_success a"
    by (simp add: mark_post_as_published_def mark_post_impl_def run_bnd run_attempt try_up_def verified_sender_def map_left_def
        demo_upload_def send_event_def send_notification_def response_of_def)
  with only_the_creator_publishes [OF run] show ?thesis by (auto simp: demo_up_world_def)
qed

end
