(* ===== verification/Upload_Refresh.thy ===== *)
theory Upload_Refresh
  imports User_Upload_Props
begin

text \<open>
  The refresh of an upload address (\<open>routes/videogen/upload_refresh.rs\<close>): a GPU provider whose address has expired asks,
  by a signed request, for a new one for the same video.
\<close>

section \<open>The handler\<close>

definition REFRESH_PATH :: string where
  "REFRESH_PATH = ''/api/v2/videogen/upload-url/refresh''"

record refresh_request =
  rr_request_key :: request_key
  rr_user_principal :: string
  rr_request_id :: string
  rr_video_id :: string
  rr_object_key :: string

record refresh_response =
  rs_video_id :: string
  rs_object_key :: string
  rs_upload_url :: string
  rs_expires_at :: int

text \<open>The registry of keys, the allowed skew and the clock are those of the completion callback.\<close>

record refresh_env =
  rn_completion :: completion_env
  rn_upload :: upload_env
  rn_parse :: "string \<Rightarrow> string + refresh_request"
  rn_now :: int
  rn_ttl_secs :: int

text \<open>The same checks as for a completion, in the same order and with the same answers, for another path.\<close>

definition verify_refresh_hmac :: "refresh_env \<Rightarrow> headers \<Rightarrow> string \<Rightarrow> completion_error + unit" where
  "verify_refresh_hmac env headers raw_body = verify_hmac (rn_completion env) headers raw_body REFRESH_PATH"

definition build_refresh_destination :: "refresh_env \<Rightarrow> string \<Rightarrow> string \<Rightarrow> string \<Rightarrow> string \<Rightarrow> upload_destination" where
  "build_refresh_destination env base publisher video_id okey =
     \<lparr>ud_video_id = video_id, ud_object_key = okey,
      ud_upload_url = build_upload_url (rn_upload env) base publisher video_id False,
      ud_expires_at = rn_now env + rn_ttl_secs env, ud_bucket_url = None, ud_encrypted_identity = None\<rparr>"

definition generate_fresh_upload_url :: "refresh_env \<Rightarrow> request_key \<Rightarrow> string \<Rightarrow> string \<Rightarrow> string + upload_destination" where
  "generate_fresh_upload_url env key video_id okey = (case ue_public_base (rn_upload env) of
       None \<Rightarrow> Inl ''PUBLIC_BASE_URL not set''
     | Some base \<Rightarrow> Inr (build_refresh_destination env base (rk_principal key) video_id okey))"

definition refresh_with_dependencies :: "refresh_env \<Rightarrow> headers \<Rightarrow> string \<Rightarrow> completion_error + refresh_response" where
  "refresh_with_dependencies env headers raw_body =
     Completion.and_then (verify_refresh_hmac env headers raw_body) (\<lambda>_.
     Completion.and_then (map_left (\<lambda>e. bad_request (''invalid JSON body: '' @ e)) (rn_parse env raw_body)) (\<lambda>req.
     if rr_user_principal req \<noteq> rk_principal (rr_request_key req)
     then Inl (conflict ''user_principal does not match request_key.principal'')
     else Completion.and_then (map_left unavailable
         (generate_fresh_upload_url env (rr_request_key req) (rr_video_id req) (rr_object_key req))) (\<lambda>d.
       Inr \<lparr>rs_video_id = ud_video_id d, rs_object_key = ud_object_key d, rs_upload_url = ud_upload_url d,
         rs_expires_at = ud_expires_at d\<rparr>)))"

definition refresh_upload_url :: "string + refresh_env \<Rightarrow> headers \<Rightarrow> string \<Rightarrow> completion_error + refresh_response" where
  "refresh_upload_url config headers body = (case config of
       Inl e \<Rightarrow> Inl (unavailable (''videogen config error: '' @ e))
     | Inr env \<Rightarrow> refresh_with_dependencies env headers body)"

section \<open>What a refreshed address is good for\<close>

lemma refresh_Inr:
  assumes "refresh_upload_url (Inr env) headers body = Inr resp"
  shows "\<exists>req base. verify_refresh_hmac env headers body = Inr () \<and> rn_parse env body = Inr req \<and>
     rr_user_principal req = rk_principal (rr_request_key req) \<and> ue_public_base (rn_upload env) = Some base \<and>
     resp = \<lparr>rs_video_id = rr_video_id req, rs_object_key = rr_object_key req,
       rs_upload_url = build_upload_url (rn_upload env) base (rr_user_principal req) (rr_video_id req) False,
       rs_expires_at = rn_now env + rn_ttl_secs env\<rparr>"
  using assms
  by (auto simp: refresh_upload_url_def refresh_with_dependencies_def Completion.and_then_Inr map_left_Inr
      generate_fresh_upload_url_def build_refresh_destination_def split: if_splits option.splits)

text \<open>C25. Only a signed request gets a fresh address, and the address leads to the video it asked for: the request names a
  key of the registry that is not empty, its timestamp is within the allowed skew, it carries the tag of the refresh
  route, that timestamp and the hash of its body under that key; and whatever is posted to the address is staged under the
  principal and the video id of the request, which the answer repeats.\<close>

theorem refreshed_address_keeps_video:
  assumes "refresh_upload_url (Inr env) headers body = Inr resp" and "service_urls (rn_upload env)"
  shows "\<exists>req keys key key_id ts_text ts sig. rn_parse env body = Inr req \<and>
     hmac_registry (rn_completion env) = Inr keys \<and>
     headers ''x-key-id'' = Some key_id \<and> registry_get keys key_id = Some key \<and> hk_bytes key \<noteq> [] \<and>
     headers ''x-timestamp'' = Some ts_text \<and> parse_i64 ts_text = Some ts \<and>
     abs_diff (ce_now (rn_completion env)) ts \<le> max (ce_skew (rn_completion env)) 0 \<and>
     headers ''authorization'' = Some (''HMAC-SHA256 '' @ sig) \<and>
     cr_unhex (ce_crypto (rn_completion env)) sig = Some (cr_mac (ce_crypto (rn_completion env)) (hk_bytes key)
       (signature_message ''POST'' REFRESH_PATH ts (cr_sha256_hex (ce_crypto (rn_completion env)) body))) \<and>
     rr_user_principal req = rk_principal (rr_request_key req) \<and>
     rs_video_id resp = rr_video_id req \<and> rs_object_key resp = rr_object_key req \<and>
     (\<forall>parts. serve_raw (rn_upload env) (rs_upload_url resp) (\<lambda>prm. handler_raw_upload_initial (ue_raw (rn_upload env)) prm parts) =
       (raw_answer (handler_raw_upload_initial (ue_raw (rn_upload env))
         \<lparr>rp_user = rr_user_principal req, rp_video = rr_video_id req, rp_nsfw = False\<rparr> parts) :: (unit, nat \<times> json) up))"
proof -
  from refresh_Inr [OF assms(1)] obtain req base where signed: "verify_refresh_hmac env headers body = Inr ()"
    and req: "rn_parse env body = Inr req" "rr_user_principal req = rk_principal (rr_request_key req)"
    and resp: "resp = \<lparr>rs_video_id = rr_video_id req, rs_object_key = rr_object_key req,
       rs_upload_url = build_upload_url (rn_upload env) base (rr_user_principal req) (rr_video_id req) False,
       rs_expires_at = rn_now env + rn_ttl_secs env\<rparr>" by blast
  have "serve_raw (rn_upload env) (rs_upload_url resp) (\<lambda>prm. handler_raw_upload_initial (ue_raw (rn_upload env)) prm parts) =
       (raw_answer (handler_raw_upload_initial (ue_raw (rn_upload env))
         \<lparr>rp_user = rr_user_principal req, rp_video = rr_video_id req, rp_nsfw = False\<rparr> parts) :: (unit, nat \<times> json) up)" for parts
    by (simp add: resp build_upload_url_def serve_raw_url [OF assms(2)])
  then show ?thesis
    using verify_hmac_sound [OF signed [unfolded verify_refresh_hmac_def]] req resp by fastforce
qed

section \<open>Witness\<close>

definition demo_refresh_key :: request_key where
  "demo_refresh_key = \<lparr>rk_principal = ''a'', rk_counter = 1\<rparr>"

definition demo_refresh :: refresh_env where
  "demo_refresh = \<lparr>rn_completion = \<lparr>ce_crypto = \<lparr>cr_mac = (\<lambda>k m. k @ m), cr_unhex = Some, cr_sha256_hex = id\<rparr>,
       ce_token = Some ''secret'', ce_keys = None, ce_skew = 300, ce_now = 1000, ce_parse = (\<lambda>_. Inl ''unused''),
       ce_release = DisabledNoEndpoint, ce_principal = Inr, ce_decrypt = Inr, ce_update_metadata = (\<lambda>_ _. Inr ()),
       ce_bucket = \<lparr>bk_name = [], bk_grant = [], bk_uplink = (\<lambda>_. Exited True [])\<rparr>\<rparr>,
     rn_upload = demo_upload,
     rn_parse = (\<lambda>_. Inr \<lparr>rr_request_key = demo_refresh_key, rr_user_principal = ''a'', rr_request_id = ''r'',
       rr_video_id = ''b-c'', rr_object_key = ''o''\<rparr>), rn_now = 1000, rn_ttl_secs = 900\<rparr>"

definition demo_refresh_headers :: headers where
  "demo_refresh_headers = [''x-key-id'' \<mapsto> ''v1'', ''x-timestamp'' \<mapsto> ''900'', ''x-body-sha256'' \<mapsto> ''body'',
     ''authorization'' \<mapsto> ''HMAC-SHA256 '' @ ''secret'' @ signature_message ''POST'' REFRESH_PATH 900 ''body'']"

lemma demo_refresh_signed: "verify_refresh_hmac demo_refresh demo_refresh_headers ''body'' = Inr ()"
proof -
  have "parse_i64 ''900'' = Some 900" by code_simp
  moreover have "strip_prefix ''HMAC-SHA256 '' (''HMAC-SHA256 '' @ t) = Some t" for t by simp
  ultimately show ?thesis
    by (simp add: verify_refresh_hmac_def verify_hmac_def demo_refresh_headers_def Completion.and_then_def header_or_def demo_refresh_def
        hmac_registry_def from_service_token_def map_left_def verify_completion_signature_def registry_get_def abs_diff_def
        del: strip_prefix_Some append.simps)
qed

theorem refreshed_address_keeps_video_witness:
  "\<exists>resp. refresh_upload_url (Inr demo_refresh) demo_refresh_headers ''body'' = Inr resp \<and> rs_video_id resp = ''b-c'' \<and>
     (serve_raw demo_upload (rs_upload_url resp) (\<lambda>prm. handler_raw_upload_initial demo_env prm []) :: (unit, nat \<times> json) up) =
       raw_answer (handler_raw_upload_initial demo_env \<lparr>rp_user = ''a'', rp_video = ''b-c'', rp_nsfw = False\<rparr> [])"
proof -
  obtain resp where run: "refresh_upload_url (Inr demo_refresh) demo_refresh_headers ''body'' = Inr resp"
    using demo_refresh_signed
    by (simp add: refresh_upload_url_def refresh_with_dependencies_def Completion.and_then_def generate_fresh_upload_url_def map_left_def
        demo_refresh_def demo_upload_def demo_refresh_key_def)
  have env: "rn_upload demo_refresh = demo_upload" "ue_raw demo_upload = demo_env"
    by (simp_all add: demo_refresh_def demo_upload_def)
  have parse: "rn_parse demo_refresh b = Inr \<lparr>rr_request_key = demo_refresh_key, rr_user_principal = ''a'', rr_request_id = ''r'',
       rr_video_id = ''b-c'', rr_object_key = ''o''\<rparr>" for b by (simp add: demo_refresh_def)
  from refreshed_address_keeps_video [OF run] demo_urls show ?thesis
    unfolding env parse using run by auto
qed

end
