(* ===== verification/Profile_Images.thy ===== *)
theory Profile_Images
  imports S3_Client Videogen_World
begin

text \<open>
  The profile images (\<open>routes/user/profile_image.rs\<close>, \<open>routes/user/profile_s3.rs\<close>): one JPEG below a folder for each
  user, and the address of it that the user info canister keeps. The image library, base64, the verification of a
  delegated identity and the canister are parameters; a request to S3 is a statement that can fail.
\<close>

section \<open>The world\<close>

record profile_world = s3_world +
  pw_updates :: "(string \<times> string option) list"

type_synonym ('e, 'a) pf = "(profile_world, 'e, 'a) proc"

record profile_config =
  pc_key_prefix :: string
  pc_public_url_base :: string

text \<open>The environment variables with their defaults.\<close>

definition config_from_env :: "(string \<rightharpoonup> string) \<Rightarrow> profile_config" where
  "config_from_env var = \<lparr>
     pc_key_prefix = (case var ''PROFILE_S3_KEY_PREFIX'' of None \<Rightarrow> ''yral-profile/users/'' | Some v \<Rightarrow> v),
     pc_public_url_base = (case var ''PROFILE_S3_PUBLIC_URL_BASE'' of
         None \<Rightarrow> ''https://prakash-yral.hel1.your-objectstorage.com'' | Some v \<Rightarrow> v)\<rparr>"

definition profile_key :: "profile_config \<Rightarrow> string \<Rightarrow> nat \<Rightarrow> string" where
  "profile_key cfg user ts = pc_key_prefix cfg @ user @ ''/profile-'' @ show_nat ts @ ''.jpg''"

definition user_prefix :: "profile_config \<Rightarrow> string \<Rightarrow> string" where
  "user_prefix cfg user = pc_key_prefix cfg @ user @ ''/profile-''"

section \<open>The picture\<close>

text \<open>The image library: reading within a limit of width and height, the sides, shrinking into a box, and the JPEG of the
  picture without its alpha channel. \<open>il_scaled side longest\<close> is the \<open>f32\<close> product of a side with 1000 by the longest side,
  at most 1, cut to an integer.\<close>

record 'img image_lib =
  il_guess :: "string \<Rightarrow> string + string"
  il_decode :: "nat \<Rightarrow> nat \<Rightarrow> string \<Rightarrow> string + 'img"
  il_width :: "'img \<Rightarrow> nat"
  il_height :: "'img \<Rightarrow> nat"
  il_scaled :: "nat \<Rightarrow> nat \<Rightarrow> nat"
  il_resize :: "nat \<Rightarrow> nat \<Rightarrow> 'img \<Rightarrow> 'img"
  il_jpeg :: "'img \<Rightarrow> string + string"

definition MAX_SIZE :: nat where
  "MAX_SIZE = 1000"

definition fit_image :: "'img image_lib \<Rightarrow> 'img \<Rightarrow> 'img" where
  "fit_image il img = (let width = il_width il img; height = il_height il img in
     if width > MAX_SIZE \<or> height > MAX_SIZE
     then il_resize il (il_scaled il width (max width height)) (il_scaled il height (max width height)) img
     else img)"

definition process_image :: "'img image_lib \<Rightarrow> string \<Rightarrow> string + string" where
  "process_image il bytes = (case il_guess il bytes of
       Inl e \<Rightarrow> Inl (''Failed to read image: '' @ e)
     | Inr reader \<Rightarrow> (case il_decode il 4096 4096 reader of
         Inl e \<Rightarrow> Inl (''Failed to decode image: '' @ e)
       | Inr img \<Rightarrow> (case il_jpeg il (fit_image il img) of
           Inl e \<Rightarrow> Inl (''Failed to encode image as JPEG: '' @ e) | Inr out \<Rightarrow> Inr out)))"

section \<open>The handlers\<close>

record 'img profile_env =
  pe_verify :: "string \<Rightarrow> string + string"
  pe_config :: profile_config
  pe_client :: "string option"
  pe_base64 :: "string \<Rightarrow> string + string"
  pe_images :: "'img image_lib"
  pe_clock :: "string + nat"
  pe_agent :: "string option"
  pe_update :: "string \<Rightarrow> string option \<Rightarrow> string + string + unit"

definition fails :: "nat \<Rightarrow> string \<Rightarrow> (nat \<times> string, 'a) pf" where
  "fails status message = raise (status, message)"

definition try_pf :: "'e + 'a \<Rightarrow> ('e, 'a) pf" where
  "try_pf r = (case r of Inl e \<Rightarrow> raise e | Inr x \<Rightarrow> ret x)"

definition strip_data_url :: "string \<Rightarrow> string" where
  "strip_data_url image_data = (case split_once '','' image_data of Some (_, rest) \<Rightarrow> rest | None \<Rightarrow> image_data)"

definition MAX_BASE64_SIZE :: nat where
  "MAX_BASE64_SIZE = 7 * 1024 * 1024"

definition validate_base64_len :: "'img profile_env \<Rightarrow> string \<Rightarrow> (nat \<times> string) + unit" where
  "validate_base64_len env data = (if data = [] then Inl (400, ''Image data is empty'')
     else if length data > MAX_BASE64_SIZE then Inl (400, ''Image too large: '' @
         show_nat (length data div (1024 * 1024)) @ ''MB. Maximum allowed size is 5MB'')
     else (case pe_base64 env data of
         Inl _ \<Rightarrow> Inl (400, ''Invalid image data format. Please upload a valid image'') | Inr _ \<Rightarrow> Inr ()))"

definition verified_user :: "'img profile_env \<Rightarrow> string \<Rightarrow> (nat \<times> string) + string" where
  "verified_user env wire = map_left (\<lambda>e. (401, ''Failed to get user info: Invalid delegated identity: '' @ e)) (pe_verify env wire)"

definition client_ready :: "'img profile_env \<Rightarrow> (nat \<times> string) + unit" where
  "client_ready env = (case pe_client env of Some e \<Rightarrow> Inl (500, e) | None \<Rightarrow> Inr ())"

text \<open>The listing gives the first page only, which the service limits to 1000 keys.\<close>

primrec delete_keys :: "string list \<Rightarrow> (string, unit) pf" where
  "delete_keys [] = ret ()"
| "delete_keys (k # ks) = bnd (map_err (\<lambda>e. ''Failed to delete image from S3: '' @ error_text e) (exec (delete_s3 k))) (\<lambda>_.
     delete_keys ks)"

definition delete_profile_images :: "profile_config \<Rightarrow> string \<Rightarrow> (string, unit) pf" where
  "delete_profile_images cfg user =
     bnd (map_err (\<lambda>e. ''Failed to list objects from S3: '' @ error_text e)
       (query (\<lambda>w. fst (list_objects_v2 1000 (Some (user_prefix cfg user)) None None (s3_objects w))))) (\<lambda>objects.
     delete_keys (map fst objects))"

definition upload_profile_image :: "'img profile_env \<Rightarrow> string \<Rightarrow> string \<Rightarrow> (string, string) pf" where
  "upload_profile_image env data user = (let cfg = pe_config env in
     bnd (try_pf (map_left (\<lambda>e. ''Failed to decode base64 image: '' @ e) (pe_base64 env data))) (\<lambda>bytes.
     bnd (try_pf (process_image (pe_images env) bytes)) (\<lambda>processed.
     bnd (attempt (delete_profile_images cfg user)) (\<lambda>_.
     bnd (try_pf (map_left (\<lambda>e. ''clock error: '' @ e) (pe_clock env))) (\<lambda>ts.
     bnd (map_err (\<lambda>e. ''Failed to upload image to S3: '' @ error_text e)
       (exec (put_s3 (profile_key cfg user ts) processed ''image/jpeg'' []))) (\<lambda>_.
     ret (pc_public_url_base cfg @ ''/'' @ profile_key cfg user ts)))))))"

definition set_canister_profile_url :: "'img profile_env \<Rightarrow> string \<Rightarrow> string option \<Rightarrow> (nat \<times> string, unit) pf" where
  "set_canister_profile_url env user url = (case pe_agent env of
       Some e \<Rightarrow> fails 500 (''Failed to build user agent: '' @ e)
     | None \<Rightarrow> bnd (on_db (\<lambda>w. w\<lparr>pw_updates := pw_updates w @ [(user, url)]\<rparr>)) (\<lambda>_. case pe_update env user url of
         Inr (Inr _) \<Rightarrow> ret ()
       | Inr (Inl e) \<Rightarrow> if contains e ''not authorized'' \<or> contains e ''Not authorized''
           then fails 403 ''Not authorized to update profile''
           else fails 500 (''Failed to update profile in canister: '' @ e)
       | Inl e \<Rightarrow> fails 500 (''Failed to update profile in canister: '' @ e)))"

definition handle_upload_profile_image :: "'img profile_env \<Rightarrow> string \<Rightarrow> string \<Rightarrow> (nat \<times> string, string) pf" where
  "handle_upload_profile_image env wire image_data =
     bnd (try_pf (verified_user env wire)) (\<lambda>user.
     bnd (try_pf (validate_base64_len env (strip_data_url image_data))) (\<lambda>_.
     bnd (try_pf (client_ready env)) (\<lambda>_.
     bnd (map_err (\<lambda>e. (500, ''Failed to upload profile image: '' @ e))
       (upload_profile_image env (strip_data_url image_data) user)) (\<lambda>url.
     bnd (set_canister_profile_url env user (Some url)) (\<lambda>_.
     ret url)))))"

definition handle_delete_profile_image :: "'img profile_env \<Rightarrow> string \<Rightarrow> (nat \<times> string, nat) pf" where
  "handle_delete_profile_image env wire =
     bnd (try_pf (verified_user env wire)) (\<lambda>user.
     bnd (try_pf (client_ready env)) (\<lambda>_.
     bnd (map_err (\<lambda>e. (500, ''Failed to delete profile image: '' @ e)) (delete_profile_images (pe_config env) user)) (\<lambda>_.
     bnd (set_canister_profile_url env user (Some [])) (\<lambda>_.
     ret 200))))"

section \<open>The picture fits\<close>

text \<open>Shrinking into a box gives a picture inside the box, of at least one pixel, and the scaled side of a longer picture is at most 1000.\<close>

definition shrinks :: "'img image_lib \<Rightarrow> bool" where
  "shrinks il \<longleftrightarrow> (\<forall>w h img. il_width il (il_resize il w h img) \<le> max 1 w \<and> il_height il (il_resize il w h img) \<le> max 1 h) \<and>
     (\<forall>side longest. side \<le> longest \<and> MAX_SIZE < longest \<longrightarrow> il_scaled il side longest \<le> MAX_SIZE)"

lemma fit_image_fits:
  assumes "shrinks il"
  shows "il_width il (fit_image il img) \<le> MAX_SIZE \<and> il_height il (fit_image il img) \<le> MAX_SIZE"
proof (cases "il_width il img > MAX_SIZE \<or> il_height il img > MAX_SIZE")
  case True
  let ?l = "max (il_width il img) (il_height il img)"
  have "il_scaled il (il_width il img) ?l \<le> MAX_SIZE" "il_scaled il (il_height il img) ?l \<le> MAX_SIZE"
    using assms True by (auto simp: shrinks_def less_max_iff_disj)
  moreover have "il_width il (il_resize il a b img) \<le> max 1 a" "il_height il (il_resize il a b img) \<le> max 1 b" for a b
    using assms by (simp_all add: shrinks_def)
  moreover have "(1 :: nat) \<le> MAX_SIZE" by (simp add: MAX_SIZE_def)
  ultimately show ?thesis
    using True by (simp add: fit_image_def Let_def) (meson le_max_iff_disj max.bounded_iff order_trans)
qed (simp add: fit_image_def Let_def)

section \<open>Every user's images are apart\<close>

lemma starts_with_trans: "starts_with s p \<Longrightarrow> starts_with p q \<Longrightarrow> starts_with s q"
  by (auto simp: starts_with_def) (metis le_cases take_all_iff take_take min.absorb2 min.absorb1 length_take)

lemma profile_key_below [simp]: "starts_with (profile_key cfg user ts) (user_prefix cfg user)"
  by (simp add: profile_key_def user_prefix_def starts_with_def)

lemma other_user_apart:
  assumes "CHR ''/'' \<notin> set user" "CHR ''/'' \<notin> set other" "user \<noteq> other"
  shows "\<not> starts_with (pc_key_prefix cfg @ other @ CHR ''/'' # rest) (user_prefix cfg user)"
proof
  assume "starts_with (pc_key_prefix cfg @ other @ CHR ''/'' # rest) (user_prefix cfg user)"
  then obtain t where "pc_key_prefix cfg @ other @ CHR ''/'' # rest = user_prefix cfg user @ t"
    by (metis append_take_drop_id starts_with_def)
  then have eq: "other @ CHR ''/'' # rest = user @ CHR ''/'' # (''profile-'' @ t)" by (simp add: user_prefix_def)
  have "takeWhile (\<lambda>c. c \<noteq> CHR ''/'') (x @ CHR ''/'' # y) = x" if "CHR ''/'' \<notin> set x" for x y
    using that by (subst takeWhile_append2) auto
  from this [OF assms(1)] this [OF assms(2)] eq assms(3) show False by metis
qed

lemma pres_try [pres]: "preserves I (try_pf r)"
  by (cases r) (auto simp: try_pf_def intro: pres)

lemma pres_delete_keys:
  assumes "\<And>k w. k \<in> set ks \<Longrightarrow> I w \<Longrightarrow> I (delete_s3 k w)"
  shows "preserves I (delete_keys ks)"
  using assms by (induction ks) (auto intro!: pres pres_exec)

lemma listed_below: "x \<in> set (fst (list_objects_v2 n (Some p) None None objects)) \<Longrightarrow> starts_with (fst x) p"
  by (auto simp: list_objects_v2_def s3_behind_def has_s3_prefix_def Let_def dest!: in_set_takeD)

text \<open>A run stays with its user: objects in \<open>out\<close> are as they were, and the canister was called for the verified user only.\<close>

definition stays_with :: "'img profile_env \<Rightarrow> string \<Rightarrow> (string \<Rightarrow> bool) \<Rightarrow> profile_world \<Rightarrow> profile_world \<Rightarrow> bool" where
  "stays_with env wire out w w' \<longleftrightarrow> (\<forall>k. out k \<longrightarrow> s3_at w' k = s3_at w k) \<and>
     (\<exists>us. pw_updates w' = pw_updates w @ us \<and> (\<forall>u \<in> set us. pe_verify env wire = Inr (fst u)))"

lemma s3_frames [simp]:
  "s3_at (w\<lparr>pw_updates := us\<rparr>) k = s3_at w k" "pw_updates (delete_s3 k w) = pw_updates w" "pw_updates (put_s3 k d t m w) = pw_updates w"
  "s3_now (delete_s3 k w) = s3_now w"
  by (simp_all add: s3_at_def delete_s3_def put_s3_def)

lemma pres_delete_images:
  assumes "\<And>k. starts_with k (user_prefix cfg user) \<Longrightarrow> \<not> out k"
  shows "preserves (stays_with env wire out w) (delete_profile_images cfg user)"
proof (rule preservesI)
  fix p d r q d'
  assume d: "stays_with env wire out w d" and run: "delete_profile_images cfg user (p, d) = (r, q, d')"
  let ?ks = "map fst (fst (list_objects_v2 1000 (Some (user_prefix cfg user)) None None (s3_objects d)))"
  have keys: "preserves (stays_with env wire out w) (delete_keys ?ks)"
    using assms by (intro pres_delete_keys) (auto simp: stays_with_def dest!: listed_below)
  show "stays_with env wire out w d'"
  proof (cases p rule: fault_cases)
    case (fails e p')
    with run d show ?thesis by (simp add: delete_profile_images_def run_bnd run_map_err query_def stmt_def)
  next
    case over
    with run have "delete_keys ?ks ([], d) = (r, q, d')"
      by (simp add: delete_profile_images_def run_bnd run_map_err query_def stmt_def)
    then show ?thesis using d by (rule preserves_run [OF keys])
  next
    case (runs p')
    with run have "delete_keys ?ks (p', d) = (r, q, d')"
      by (simp add: delete_profile_images_def run_bnd run_map_err query_def stmt_def)
    then show ?thesis using d by (rule preserves_run [OF keys])
  qed
qed

lemma pres_fails [pres]: "preserves I (fails n m)"
  by (simp add: fails_def pres_raise)

lemma pres_set_url:
  assumes "pe_verify env wire = Inr user"
  shows "preserves (stays_with env wire out w) (set_canister_profile_url env user url)"
  unfolding set_canister_profile_url_def using assms
  by (auto intro!: pres pres_on_db simp: stays_with_def split: option.split sum.split)

lemma pres_upload_image:
  assumes "\<And>k. starts_with k (user_prefix (pe_config env) user) \<Longrightarrow> \<not> out k"
  shows "preserves (stays_with env wire out w) (upload_profile_image env data user)"
  unfolding upload_profile_image_def Let_def
  by (intro pres pres_exec pres_delete_images) (use assms in \<open>auto simp: stays_with_def\<close>)

lemma try_bnd: "bnd (try_pf r) k = (case r of Inl e \<Rightarrow> raise e | Inr x \<Rightarrow> k x)"
  by (rule ext) (auto simp: try_pf_def bnd_def ret_def raise_def split: sum.split)

lemma pres_sum:
  "(\<And>e. preserves I (f e)) \<Longrightarrow> (\<And>x. preserves I (g x)) \<Longrightarrow> preserves I (case r of Inl e \<Rightarrow> f e | Inr x \<Rightarrow> g x)"
  by (cases r) simp_all

lemma handlers_stay:
  assumes "\<And>user k. pe_verify env wire = Inr user \<Longrightarrow> starts_with k (user_prefix (pe_config env) user) \<Longrightarrow> \<not> out k"
  shows "preserves (stays_with env wire out w) (handle_upload_profile_image env wire data)"
    and "preserves (stays_with env wire out w) (handle_delete_profile_image env wire)"
proof -
  show "preserves (stays_with env wire out w) (handle_upload_profile_image env wire data)"
  proof (cases "pe_verify env wire")
    case (Inr user)
    then show ?thesis
      unfolding handle_upload_profile_image_def verified_user_def Inr map_left_def try_bnd sum.case
      by (intro pres_sum pres pres_set_url pres_upload_image) (use assms Inr in auto)
  qed (simp add: handle_upload_profile_image_def verified_user_def map_left_def try_bnd pres_raise)
  show "preserves (stays_with env wire out w) (handle_delete_profile_image env wire)"
  proof (cases "pe_verify env wire")
    case (Inr user)
    then show ?thesis
      unfolding handle_delete_profile_image_def verified_user_def Inr map_left_def try_bnd sum.case
      by (intro pres_sum pres pres_set_url pres_delete_images) (use assms Inr in auto)
  qed (simp add: handle_delete_profile_image_def verified_user_def map_left_def try_bnd pres_raise)
qed

text \<open>C26. The images of other users stay: whatever fails, neither handler changes an object in another user's folder, and the
  canister is told about the verified sender only. An identity that does not verify changes nothing. Principals are texts
  without a slash.\<close>

theorem other_users_images_stay:
  assumes "CHR ''/'' \<notin> set other"
    and "\<forall>user. pe_verify env wire = Inr user \<longrightarrow> CHR ''/'' \<notin> set user \<and> user \<noteq> other"
    and "w' = db_after (handle_upload_profile_image env wire data) (p, w) \<or> w' = db_after (handle_delete_profile_image env wire) (p, w)"
  shows "s3_at w' (pc_key_prefix (pe_config env) @ other @ CHR ''/'' # rest) = s3_at w (pc_key_prefix (pe_config env) @ other @ CHR ''/'' # rest) \<and>
     (\<exists>us. pw_updates w' = pw_updates w @ us \<and> (\<forall>u \<in> set us. pe_verify env wire = Inr (fst u)))"
proof -
  let ?out = "\<lambda>k. k = pc_key_prefix (pe_config env) @ other @ CHR ''/'' # rest"
  have out: "\<not> ?out k" if "pe_verify env wire = Inr user" "starts_with k (user_prefix (pe_config env) user)" for user k
    using other_user_apart [of user other "pe_config env" rest] assms(1,2) that by auto
  have "stays_with env wire ?out w w" by (simp add: stays_with_def)
  moreover have "preserves (stays_with env wire ?out w) (handle_upload_profile_image env wire data)"
    "preserves (stays_with env wire ?out w) (handle_delete_profile_image env wire)"
    by (rule handlers_stay; blast dest: out)+
  ultimately have "stays_with env wire ?out w w'" using assms(3) by (auto dest: preservesD)
  then show ?thesis by (simp add: stays_with_def)
qed

section \<open>An upload replaces the image\<close>

lemma delete_keys_run:
  "delete_keys ks ([], w) = (Inr (), [], fold delete_s3 ks w)"
  "delete_keys ks (replicate (length ks) None @ p, w) = (Inr (), p, fold delete_s3 ks w)"
  by (induction ks arbitrary: w) (simp_all add: run_bnd run_map_err exec_def stmt_def)

lemma fold_delete:
  "s3_at (fold delete_s3 ks w) k = (if k \<in> set ks then None else s3_at w k)"
  "pw_updates (fold delete_s3 ks w) = pw_updates w" "s3_now (fold delete_s3 ks w) = s3_now w"
  by (induction ks arbitrary: w) auto

definition own_keys :: "profile_config \<Rightarrow> string \<Rightarrow> profile_world \<Rightarrow> string list" where
  "own_keys cfg user w = map fst (fst (list_objects_v2 1000 (Some (user_prefix cfg user)) None None (s3_objects w)))"

lemma own_keys_all:
  assumes "length (filter (\<lambda>x. starts_with (fst x) (user_prefix cfg user)) (s3_objects w)) \<le> 1000"
    and "starts_with k (user_prefix cfg user)" and "s3_at w k \<noteq> None"
  shows "k \<in> set (own_keys cfg user w)"
proof -
  let ?left = "s3_behind (Some (user_prefix cfg user)) (s3_objects w) None"
  have "length ?left = length (filter (\<lambda>x. starts_with (fst x) (user_prefix cfg user)) (s3_objects w))"
    by (simp add: s3_behind_def past_def has_s3_prefix_def) (metis mset_filter mset_sort size_mset)
  with assms(1) have "own_keys cfg user w = map fst ?left"
    by (simp add: own_keys_def list_objects_v2_def Let_def)
  moreover from assms(3) obtain x where "(k, x) \<in> set (s3_objects w)" by (auto simp: s3_at_def dest: map_of_SomeD)
  ultimately show ?thesis using assms(2) by (force simp: s3_behind_def past_def has_s3_prefix_def)
qed

lemma own_keys_below: "k \<in> set (own_keys cfg user w) \<Longrightarrow> starts_with k (user_prefix cfg user)"
  by (auto simp: own_keys_def dest: listed_below)

lemma own_images_gone:
  assumes "length (filter (\<lambda>x. starts_with (fst x) (user_prefix cfg user)) (s3_objects w)) \<le> 1000"
    and "starts_with k (user_prefix cfg user)"
  shows "s3_at (fold delete_s3 (own_keys cfg user w) w) k = None"
  using own_keys_all [OF assms] by (cases "s3_at w k") (auto simp: fold_delete)

definition accepted_image :: "'img profile_env \<Rightarrow> string \<Rightarrow> string \<Rightarrow> string \<Rightarrow> string \<Rightarrow> nat \<Rightarrow> bool" where
  "accepted_image env wire image_data user jpeg ts \<longleftrightarrow> pe_verify env wire = Inr user \<and>
     strip_data_url image_data \<noteq> [] \<and> length (strip_data_url image_data) \<le> MAX_BASE64_SIZE \<and>
     (\<exists>bytes. pe_base64 env (strip_data_url image_data) = Inr bytes \<and> process_image (pe_images env) bytes = Inr jpeg) \<and>
     pe_client env = None \<and> pe_clock env = Inr ts \<and> pe_agent env = None"

text \<open>C27. An upload without faults replaces the user's images by one: of the objects below the user's prefix exactly the new one
  is left, the processed picture under the current time; no other object is changed; and the canister's last word is the
  address of that object, which is the answer. A user has at most 1000 images to begin with, one page of the listing.\<close>

theorem upload_replaces_images:
  assumes "accepted_image env wire image_data user jpeg ts"
    and "url = pc_public_url_base (pe_config env) @ ''/'' @ profile_key (pe_config env) user ts"
    and "pe_update env user (Some url) = Inr (Inr ())"
    and "length (filter (\<lambda>x. starts_with (fst x) (user_prefix (pe_config env) user)) (s3_objects w)) \<le> 1000"
  shows "\<exists>w'. handle_upload_profile_image env wire image_data ([], w) = (Inr url, [], w') \<and>
     pw_updates w' = pw_updates w @ [(user, Some url)] \<and>
     (\<forall>k. s3_at w' k = (if k = profile_key (pe_config env) user ts
          then Some \<lparr>so3_data = jpeg, so3_type = ''image/jpeg'', so3_metadata = [], so3_modified = s3_now w\<rparr>
        else if starts_with k (user_prefix (pe_config env) user) then None else s3_at w k))"
proof -
  let ?cfg = "pe_config env"
  let ?w1 = "fold delete_s3 (own_keys ?cfg user w) w"
  let ?w2 = "put_s3 (profile_key ?cfg user ts) jpeg ''image/jpeg'' [] ?w1"
  have del: "delete_profile_images ?cfg user ([], w) = (Inr (), [], ?w1)"
    by (simp add: delete_profile_images_def run_simps delete_keys_run own_keys_def)
  have "upload_profile_image env (strip_data_url image_data) user ([], w) = (Inr url, [], ?w2)"
    using assms(1,2) by (auto simp: accepted_image_def upload_profile_image_def Let_def try_bnd map_left_def run_simps del)
  then have "handle_upload_profile_image env wire image_data ([], w) = (Inr url, [], ?w2\<lparr>pw_updates := pw_updates w @ [(user, Some url)]\<rparr>)"
    using assms(1,3) by (auto simp: accepted_image_def handle_upload_profile_image_def try_bnd verified_user_def map_left_def
        validate_base64_len_def client_ready_def run_simps set_canister_profile_url_def fold_delete)
  moreover have "s3_at ?w1 k = None" if "starts_with k (user_prefix ?cfg user)" for k
    using own_images_gone [OF assms(4) that] .
  moreover have "s3_at ?w1 k = s3_at w k" if "\<not> starts_with k (user_prefix ?cfg user)" for k
    using own_keys_below that by (auto simp: fold_delete)
  ultimately show ?thesis by (auto simp: fold_delete)
qed

text \<open>The images are deleted before the new one is stored: when the put fails, the request fails, the canister is not told,
  and no image of the user is left, so the address the canister holds leads nowhere.\<close>

lemma failed_upload_loses_image:
  assumes "accepted_image env wire image_data user jpeg ts"
    and "length (filter (\<lambda>x. starts_with (fst x) (user_prefix (pe_config env) user)) (s3_objects w)) \<le> 1000"
  shows "\<exists>w'. handle_upload_profile_image env wire image_data
       (replicate (Suc (length (own_keys (pe_config env) user w))) None @ [Some e], w) =
       (Inl (500, ''Failed to upload profile image: Failed to upload image to S3: '' @ error_text e), [], w') \<and>
     pw_updates w' = pw_updates w \<and> (\<forall>k. starts_with k (user_prefix (pe_config env) user) \<longrightarrow> s3_at w' k = None)"
proof -
  let ?cfg = "pe_config env"
  let ?w1 = "fold delete_s3 (own_keys ?cfg user w) w"
  have del: "delete_profile_images ?cfg user (None # replicate (length (own_keys ?cfg user w)) None @ p, w) = (Inr (), p, ?w1)" for p
    using delete_keys_run(2) [of "own_keys ?cfg user w" p w]
    by (simp add: delete_profile_images_def run_bnd run_map_err query_def stmt_def own_keys_def)
  have "handle_upload_profile_image env wire image_data
       (replicate (Suc (length (own_keys ?cfg user w))) None @ [Some e], w) =
       (Inl (500, ''Failed to upload profile image: Failed to upload image to S3: '' @ error_text e), [], ?w1)"
    using assms(1) by (auto simp: accepted_image_def handle_upload_profile_image_def upload_profile_image_def Let_def try_bnd
        verified_user_def map_left_def validate_base64_len_def client_ready_def run_bnd run_map_err run_attempt del exec_def stmt_def)
  then show ?thesis
    using own_images_gone [OF assms(2)] fold_delete(2) by blast
qed

section \<open>Witnesses\<close>

definition demo_profile :: "unit profile_env" where
  "demo_profile = \<lparr>pe_verify = (\<lambda>w. if w = ''wire'' then Inr ''a'' else Inl ''bad chain''),
     pe_config = \<lparr>pc_key_prefix = ''users/'', pc_public_url_base = ''https://p''\<rparr>, pe_client = None, pe_base64 = Inr,
     pe_images = \<lparr>il_guess = Inr, il_decode = (\<lambda>_ _ _. Inr ()), il_width = (\<lambda>_. 10), il_height = (\<lambda>_. 10),
       il_scaled = (\<lambda>s _. s), il_resize = (\<lambda>_ _ x. x), il_jpeg = (\<lambda>_. Inr ''jpeg'')\<rparr>,
     pe_clock = Inr 7, pe_agent = None, pe_update = (\<lambda>_ _. Inr (Inr ()))\<rparr>"

definition demo_image :: s3_object where
  "demo_image = \<lparr>so3_data = ''old'', so3_type = ''image/jpeg'', so3_metadata = [], so3_modified = 0\<rparr>"

definition demo_profiles :: profile_world where
  "demo_profiles = \<lparr>s3_objects = [(''users/a/profile-5.jpg'', demo_image), (''users/b/profile-6.jpg'', demo_image)],
     s3_files = Map.empty, s3_now = 8, pw_updates = []\<rparr>"

lemma demo_accepted_image: "accepted_image demo_profile ''wire'' ''data:image/png;base64,QUJD'' ''a'' ''jpeg'' 7"
proof -
  have "strip_data_url ''data:image/png;base64,QUJD'' = ''QUJD''" by code_simp
  then show ?thesis
    by (simp add: accepted_image_def demo_profile_def MAX_BASE64_SIZE_def process_image_def)
qed

lemma demo_few: "length (filter (\<lambda>x. starts_with (fst x) (user_prefix (pe_config demo_profile) ''a'')) (s3_objects demo_profiles)) \<le> 1000"
  by (simp add: demo_profiles_def)

lemma demo_below: "starts_with ''users/a/profile-5.jpg'' (user_prefix (pe_config demo_profile) ''a'')"
  by (simp add: demo_profile_def user_prefix_def starts_with_def)

theorem other_users_images_stay_witness:
  "s3_at (db_after (handle_upload_profile_image demo_profile ''wire'' ''QUJD'') ([None, Some (PgError ''down'')], demo_profiles))
     ''users/b/profile-6.jpg'' = Some demo_image"
  using other_users_images_stay [where env = demo_profile and wire = "''wire''" and other = "''b''" and rest = "''profile-6.jpg''"
      and data = "''QUJD''" and p = "[None, Some (PgError ''down'')]" and w = demo_profiles, OF _ _ disjI1 [OF refl]]
  by (simp add: demo_profile_def) (simp add: demo_profiles_def s3_at_def)

theorem upload_replaces_images_witness:
  "\<exists>w' url. handle_upload_profile_image demo_profile ''wire'' ''data:image/png;base64,QUJD'' ([], demo_profiles) = (Inr url, [], w') \<and>
     s3_at w' ''users/a/profile-5.jpg'' = None"
proof -
  have new: "''users/a/profile-5.jpg'' \<noteq> profile_key (pe_config demo_profile) ''a'' 7"
    by code_simp
  have "pe_update demo_profile ''a'' (Some url) = Inr (Inr ())" for url by (simp add: demo_profile_def)
  from upload_replaces_images [OF demo_accepted_image refl this demo_few] demo_below new show ?thesis by fastforce
qed

lemma failed_upload_loses_image_witness:
  "\<exists>p w'. handle_upload_profile_image demo_profile ''wire'' ''data:image/png;base64,QUJD'' (p, demo_profiles) =
       (Inl (500, ''Failed to upload profile image: Failed to upload image to S3: '' @ error_text (PgError ''down'')), [], w') \<and>
     s3_at w' ''users/a/profile-5.jpg'' = None \<and> s3_at demo_profiles ''users/a/profile-5.jpg'' \<noteq> None"
proof -
  have "s3_at demo_profiles ''users/a/profile-5.jpg'' \<noteq> None" by (simp add: demo_profiles_def s3_at_def)
  with failed_upload_loses_image [OF demo_accepted_image demo_few, of "PgError ''down''"] demo_below show ?thesis by fastforce
qed

end
