(* ===== verification/Videogen_Config.thy ===== *)
theory Videogen_Config
  imports Generate Completion Service_Http
begin

text \<open>
  The settings of the video generation (\<open>videogen/config.rs\<close>): they are read from the variables of the process for each
  request, with a default for each, and refused when they would switch moderation off in production or leave the queue
  without an address. \<open>vars\<close> are the variables that hold text.
\<close>

section \<open>White space\<close>

text \<open>The characters of \<open>char::is_whitespace\<close> as their bytes in UTF-8.\<close>

definition white_chars :: "string list" where
  "white_chars = [[CHR 0x09], [CHR 0x0A], [CHR 0x0B], [CHR 0x0C], [CHR 0x0D], [CHR 0x20], [CHR 0xC2, CHR 0x85],
     [CHR 0xC2, CHR 0xA0], [CHR 0xE1, CHR 0x9A, CHR 0x80], [CHR 0xE2, CHR 0x80, CHR 0x80],
     [CHR 0xE2, CHR 0x80, CHR 0x81], [CHR 0xE2, CHR 0x80, CHR 0x82], [CHR 0xE2, CHR 0x80, CHR 0x83],
     [CHR 0xE2, CHR 0x80, CHR 0x84], [CHR 0xE2, CHR 0x80, CHR 0x85], [CHR 0xE2, CHR 0x80, CHR 0x86],
     [CHR 0xE2, CHR 0x80, CHR 0x87], [CHR 0xE2, CHR 0x80, CHR 0x88], [CHR 0xE2, CHR 0x80, CHR 0x89],
     [CHR 0xE2, CHR 0x80, CHR 0x8A], [CHR 0xE2, CHR 0x80, CHR 0xA8], [CHR 0xE2, CHR 0x80, CHR 0xA9],
     [CHR 0xE2, CHR 0x80, CHR 0xAF], [CHR 0xE2, CHR 0x81, CHR 0x9F], [CHR 0xE3, CHR 0x80, CHR 0x80]]"

text \<open>A text without the leading characters of a list, and without the final ones.\<close>

function skip_chars :: "string list \<Rightarrow> string \<Rightarrow> string" where
  "skip_chars ws s = (case List.find (\<lambda>w. w \<noteq> [] \<and> starts_with s w) ws of
       None \<Rightarrow> s | Some w \<Rightarrow> skip_chars ws (drop (length w) s))"
  by pat_completeness auto

termination
proof (relation "measure (\<lambda>(ws, s). length s)")
  fix ws :: "string list" and s w
  assume "List.find (\<lambda>w. w \<noteq> [] \<and> starts_with s w) ws = Some w"
  then have "w \<noteq> []" "starts_with s w" by (auto simp: find_Some_iff)
  then have "w \<noteq> []" "length w \<le> length s" by (auto simp: starts_with_def dest: arg_cong [where f = length])
  then show "((ws, drop (length w) s), (ws, s)) \<in> measure (\<lambda>(ws, s). length s)"
    by simp (metis length_0_conv neq0_conv diff_less le_zero_eq)
qed simp

declare skip_chars.simps [simp del]

definition trim_text :: "string \<Rightarrow> string" where
  "trim_text s = rev (skip_chars (map rev white_chars) (rev (skip_chars white_chars s)))"

section \<open>Modes and transports\<close>

datatype vast_submit_transport = THttp | TRabbitMq

datatype config_error =
    InvalidInteger string string
  | InvalidModerationMode string
  | MockModerationInProduction
  | InvalidVastSubmitTransport string
  | RabbitMqUrlsRequired

definition config_error_text :: "config_error \<Rightarrow> string" where
  "config_error_text e = (case e of
       InvalidInteger name v \<Rightarrow> name @ '' must be a valid integer: '' @ v
     | InvalidModerationMode v \<Rightarrow> ''MODERATION_MODE must be remote or mock_allow: '' @ v
     | MockModerationInProduction \<Rightarrow> ''MODERATION_MODE=mock_allow is not allowed when ENVIRONMENT=production''
     | InvalidVastSubmitTransport v \<Rightarrow> ''VIDEOGEN_VAST_SUBMIT_TRANSPORT must be http, rabbitmq, or amqp: '' @ v
     | RabbitMqUrlsRequired \<Rightarrow> ''VIDEOGEN_RABBITMQ_AMQPS_URLS is required when VIDEOGEN_VAST_SUBMIT_TRANSPORT=rabbitmq'')"

definition parse_moderation_mode :: "string \<Rightarrow> config_error + moderation_mode" where
  "parse_moderation_mode v = (let s = to_lower (trim_text v) in
     if s = ''remote'' then Inr Remote else if s = ''mock_allow'' then Inr MockAllow else Inl (InvalidModerationMode v))"

definition parse_transport :: "string \<Rightarrow> config_error + vast_submit_transport" where
  "parse_transport v = (let s = to_lower (trim_text v) in
     if s = ''http'' then Inr THttp else if s = ''rabbitmq'' \<or> s = ''amqp'' then Inr TRabbitMq
     else Inl (InvalidVastSubmitTransport v))"

section \<open>The settings\<close>

record videogen_config =
  vc_moderation_timeout_ms :: nat
  vc_generate_dedupe_window_secs :: nat
  vc_vast_submit_timeout_secs :: nat
  vc_upload_destination_timeout_secs :: nat
  vc_vast_image_stage_timeout_secs :: nat
  vc_ltx_generation_timeout_secs :: nat
  vc_vast_upload_expiry_refresh_margin_secs :: nat
  vc_upload_url_ttl_secs :: nat
  vc_completion_hmac_skew_secs :: nat
  vc_vast_submit_transport :: vast_submit_transport
  vc_rabbitmq_amqps_urls :: "string list"
  vc_rabbitmq_exchange :: string
  vc_rabbitmq_routing_key :: string
  vc_rabbitmq_publish_timeout_secs :: nat
  vc_rabbitmq_connection_name :: string
  vc_rabbitmq_tls_ca_cert_pem_b64 :: "string option"
  vc_moderation_mode :: moderation_mode

type_synonym vars = "string \<Rightarrow> string option"

definition var_or :: "vars \<Rightarrow> string \<Rightarrow> string \<Rightarrow> string" where
  "var_or vars name fallback = (case vars name of Some v \<Rightarrow> v | None \<Rightarrow> fallback)"

definition read_u64 :: "vars \<Rightarrow> string \<Rightarrow> nat \<Rightarrow> config_error + nat" where
  "read_u64 vars name fallback = (case vars name of
       Some v \<Rightarrow> (case parse_u64 v of Some n \<Rightarrow> Inr n | None \<Rightarrow> Inl (InvalidInteger name v))
     | None \<Rightarrow> Inr fallback)"

definition publisher_url :: "string \<Rightarrow> string \<Rightarrow> string" where
  "publisher_url password host = ''amqps://prakash_videogen_publisher:'' @ password @ ''@'' @ host @ '':5671/%2Fvideogen''"

definition amqps_urls :: "vars \<Rightarrow> string list" where
  "amqps_urls vars = (let password = var_or vars ''VIDEOGEN_RABBITMQ_PUBLISHER_PASSWORD'' [] in
     if password \<noteq> [] then map (publisher_url password) [''94.130.13.115'', ''88.99.151.102'', ''138.201.129.173'']
     else (case vars ''VIDEOGEN_RABBITMQ_AMQPS_URLS'' of
         Some s \<Rightarrow> filter (\<lambda>u. u \<noteq> []) (map trim_text (split_on CHR '','' s)) | None \<Rightarrow> []))"

definition validate_for_environment :: "videogen_config \<Rightarrow> string \<Rightarrow> config_error + unit" where
  "validate_for_environment c environment =
     (if eq_ignore_ascii_case (trim_text environment) ''production'' \<and> vc_moderation_mode c = MockAllow
      then Inl MockModerationInProduction
      else if vc_vast_submit_transport c = TRabbitMq \<and> vc_rabbitmq_amqps_urls c = [] then Inl RabbitMqUrlsRequired
      else Inr ())"

text \<open>The variables are read in the order of the fields, and the first that is wrong is the answer.\<close>

definition from_env :: "vars \<Rightarrow> config_error + videogen_config" where
  "from_env vars =
     and_then (read_u64 vars ''MODERATION_TIMEOUT_MS'' 60000) (\<lambda>moderation_timeout_ms.
     and_then (read_u64 vars ''VIDEOGEN_GENERATE_DEDUPE_WINDOW_SECS'' 120) (\<lambda>dedupe.
     and_then (read_u64 vars ''VIDEOGEN_VAST_SUBMIT_TIMEOUT_SECS'' 10) (\<lambda>submit_timeout.
     and_then (read_u64 vars ''VIDEOGEN_UPLOAD_DESTINATION_TIMEOUT_SECS'' 10) (\<lambda>destination_timeout.
     and_then (read_u64 vars ''VIDEOGEN_VAST_IMAGE_STAGE_TIMEOUT_SECS'' 30) (\<lambda>stage_timeout.
     and_then (read_u64 vars ''VIDEOGEN_LTX_GENERATION_TIMEOUT_SECS'' 1800) (\<lambda>generation_timeout.
     and_then (read_u64 vars ''VIDEOGEN_VAST_UPLOAD_EXPIRY_REFRESH_MARGIN_SECS'' 300) (\<lambda>margin.
     and_then (read_u64 vars ''VIDEOGEN_UPLOAD_URL_TTL_SECS'' 4200) (\<lambda>ttl.
     and_then (read_u64 vars ''VIDEOGEN_COMPLETION_HMAC_SKEW_SECS'' 120) (\<lambda>skew.
     and_then (parse_transport (var_or vars ''VIDEOGEN_VAST_SUBMIT_TRANSPORT'' ''http'')) (\<lambda>transport.
     and_then (read_u64 vars ''VIDEOGEN_RABBITMQ_PUBLISH_TIMEOUT_SECS'' 10) (\<lambda>publish_timeout.
     and_then (parse_moderation_mode (var_or vars ''MODERATION_MODE'' ''remote'')) (\<lambda>mode.
       let cfg = \<lparr>vc_moderation_timeout_ms = moderation_timeout_ms, vc_generate_dedupe_window_secs = dedupe,
         vc_vast_submit_timeout_secs = submit_timeout, vc_upload_destination_timeout_secs = destination_timeout,
         vc_vast_image_stage_timeout_secs = stage_timeout, vc_ltx_generation_timeout_secs = generation_timeout,
         vc_vast_upload_expiry_refresh_margin_secs = margin, vc_upload_url_ttl_secs = ttl,
         vc_completion_hmac_skew_secs = skew, vc_vast_submit_transport = transport,
         vc_rabbitmq_amqps_urls = amqps_urls vars,
         vc_rabbitmq_exchange = var_or vars ''VIDEOGEN_RABBITMQ_EXCHANGE'' ''videogen.jobs'',
         vc_rabbitmq_routing_key = var_or vars ''VIDEOGEN_RABBITMQ_ROUTING_KEY'' ''ltx.generate'',
         vc_rabbitmq_publish_timeout_secs = publish_timeout,
         vc_rabbitmq_connection_name =
           var_or vars ''VIDEOGEN_RABBITMQ_CONNECTION_NAME'' ''yral-video-storage-service-videogen-publisher'',
         vc_rabbitmq_tls_ca_cert_pem_b64 = vars ''VIDEOGEN_RABBITMQ_TLS_CA_CERT_PEM_B64'',
         vc_moderation_mode = mode\<rparr>
       in and_then (validate_for_environment cfg (var_or vars ''ENVIRONMENT'' ''production'')) (\<lambda>_. Inr cfg)))))))))))))"

section \<open>What an accepted configuration promises\<close>

definition in_production :: "vars \<Rightarrow> bool" where
  "in_production vars \<longleftrightarrow> eq_ignore_ascii_case (trim_text (var_or vars ''ENVIRONMENT'' ''production'')) ''production''"

lemma from_env_Inr:
  assumes "from_env vars = Inr c"
  shows "validate_for_environment c (var_or vars ''ENVIRONMENT'' ''production'') = Inr ()"
    and "vc_rabbitmq_amqps_urls c = amqps_urls vars"
    and "parse_moderation_mode (var_or vars ''MODERATION_MODE'' ''remote'') = Inr (vc_moderation_mode c)"
    and "parse_transport (var_or vars ''VIDEOGEN_VAST_SUBMIT_TRANSPORT'' ''http'') = Inr (vc_vast_submit_transport c)"
    and "read_u64 vars ''VIDEOGEN_UPLOAD_URL_TTL_SECS'' 4200 = Inr (vc_upload_url_ttl_secs c)"
    and "read_u64 vars ''VIDEOGEN_COMPLETION_HMAC_SKEW_SECS'' 120 = Inr (vc_completion_hmac_skew_secs c)"
  using assms by (auto simp: from_env_def and_then_Inr Let_def)

lemma production_moderates: "from_env vars = Inr c \<Longrightarrow> in_production vars \<Longrightarrow> vc_moderation_mode c = Remote"
  using from_env_Inr(1) [of vars c]
  by (cases "vc_moderation_mode c") (auto simp: validate_for_environment_def in_production_def split: if_splits)

lemma queue_has_address: "from_env vars = Inr c \<Longrightarrow> vc_vast_submit_transport c = TRabbitMq \<Longrightarrow> vc_rabbitmq_amqps_urls c \<noteq> []"
  using from_env_Inr(1) [of vars c] by (auto simp: validate_for_environment_def split: if_splits)

lemma amqps_url_nonempty: "u \<in> set (amqps_urls vars) \<Longrightarrow> u \<noteq> []"
  by (auto simp: amqps_urls_def Let_def publisher_url_def split: if_splits option.splits)

text \<open>Without variables the defaults are taken, and nothing is refused.\<close>

lemma skip_none:
  assumes "list_all (\<lambda>w. w = [] \<or> \<not> starts_with s w) ws"
  shows "skip_chars ws s = s"
proof -
  from assms have "List.find (\<lambda>w. w \<noteq> [] \<and> starts_with s w) ws = None"
    by (auto simp: find_None_iff list_all_iff)
  then show ?thesis by (subst skip_chars.simps) simp
qed

lemma skip_some: "List.find (\<lambda>w. w \<noteq> [] \<and> starts_with s w) ws = Some w \<Longrightarrow> skip_chars ws s = skip_chars ws (drop (length w) s)"
  by (simp add: skip_chars.simps [of ws s])

lemma trim_inner: "list_all (\<lambda>w. w = [] \<or> \<not> starts_with s w) white_chars \<Longrightarrow>
    list_all (\<lambda>w. w = [] \<or> \<not> starts_with (rev s) w) (map rev white_chars) \<Longrightarrow> trim_text s = s"
  by (simp add: trim_text_def skip_none)

lemma trim_samples:
  "trim_text ''remote'' = ''remote''" "trim_text ''http'' = ''http''" "trim_text ''production'' = ''production''"
  "trim_text ''rabbitmq'' = ''rabbitmq''" "trim_text ''amqps://mq'' = ''amqps://mq''"
  by (rule trim_inner; simp add: white_chars_def starts_with_def)+

lemma trim_mock: "trim_text '' MOCK_ALLOW '' = ''MOCK_ALLOW''"
proof -
  have "skip_chars white_chars '' MOCK_ALLOW '' = ''MOCK_ALLOW ''"
    by (subst skip_some [of _ _ "'' ''"], simp add: white_chars_def starts_with_def, subst skip_none)
      (simp_all add: white_chars_def starts_with_def)
  moreover have "skip_chars (map rev white_chars) '' WOLLA_KCOM'' = ''WOLLA_KCOM''"
    by (subst skip_some [of _ _ "'' ''"], simp add: white_chars_def starts_with_def, subst skip_none)
      (simp_all add: white_chars_def starts_with_def)
  ultimately show ?thesis by (simp add: trim_text_def)
qed

lemma lower_samples:
  "to_lower ''remote'' = ''remote''" "to_lower ''http'' = ''http''" "to_lower ''production'' = ''production''"
  "to_lower ''MOCK_ALLOW'' = ''mock_allow''" "to_lower ''rabbitmq'' = ''rabbitmq''"
  by code_simp+

lemma defaults_accepted: "\<exists>c. from_env (\<lambda>_. None) = Inr c \<and> vc_moderation_mode c = Remote \<and>
    vc_vast_submit_transport c = THttp \<and> vc_upload_url_ttl_secs c = 4200"
  by (simp add: from_env_def and_then_def read_u64_def var_or_def parse_transport_def parse_moderation_mode_def
      validate_for_environment_def trim_samples lower_samples)

lemma mock_needs_other_environment:
  assumes "vars ''MODERATION_MODE'' = Some '' MOCK_ALLOW ''" and "vars ''ENVIRONMENT'' = None"
  shows "\<exists>e. from_env vars = Inl e"
proof (rule ccontr)
  assume "\<nexists>e. from_env vars = Inl e"
  then obtain c where c: "from_env vars = Inr c" by (metis sum.exhaust)
  moreover have "in_production vars" using assms(2) by (simp add: in_production_def var_or_def trim_samples eq_ignore_ascii_case_def)
  ultimately show False using production_moderates from_env_Inr(3) [OF c] assms(1)
    by (auto simp: parse_moderation_mode_def var_or_def trim_mock lower_samples)
qed

end
