(* ===== verification/Identity_Crypto.thy ===== *)
theory Identity_Crypto
  imports Videogen_Config Generate_Props
begin

text \<open>
  The encryption of delegated identities (\<open>videogen/identity_crypto.rs\<close>): the submission of a generation hands the
  identity of the user to the GPU worker in a sealed form, and the completion callback opens it to register the draft.
  AES-256-GCM, base64 and the JSON of identities are parameters.
\<close>

section \<open>Keys and blobs\<close>

record cipher =
  ci_seal :: "string \<Rightarrow> string \<Rightarrow> string \<Rightarrow> string option"
  ci_open :: "string \<Rightarrow> string \<Rightarrow> string \<Rightarrow> string option"
  ci_base64 :: "string \<Rightarrow> string"
  ci_unbase64 :: "string \<Rightarrow> string option"
  ci_print :: "string \<Rightarrow> string option"
  ci_parse :: "string \<Rightarrow> string option"

definition INTERNAL_ENCRYPTION_SECRET_ENV :: string where
  "INTERNAL_ENCRYPTION_SECRET_ENV = ''INTERNAL_ENCRYPTION_SECRET''"

definition from_secret :: "string \<Rightarrow> string + string" where
  "from_secret secret = (if secret = [] then Inl (INTERNAL_ENCRYPTION_SECRET_ENV @ '' must not be empty'')
     else (let len = min (length secret) 32 in Inr (take len secret @ drop len (replicate 32 (CHR 0x00)))))"

definition crypto_from_env :: "vars \<Rightarrow> string + string" where
  "crypto_from_env vars = (case vars INTERNAL_ENCRYPTION_SECRET_ENV of
       None \<Rightarrow> Inl (INTERNAL_ENCRYPTION_SECRET_ENV @ '' must be set'') | Some secret \<Rightarrow> from_secret secret)"

definition new_from_slice :: "string \<Rightarrow> string + string" where
  "new_from_slice key = (if length key = 32 then Inr key else Inl ''invalid key: Invalid Length'')"

text \<open>The nonce is drawn anew for each call.\<close>

definition encrypt :: "cipher \<Rightarrow> string \<Rightarrow> string \<Rightarrow> string \<Rightarrow> string + string" where
  "encrypt ci key nonce identity = (case ci_print ci identity of
       None \<Rightarrow> Inl ''serialize identity''
     | Some json \<Rightarrow> and_then (new_from_slice key) (\<lambda>k. case ci_seal ci k nonce json of
         None \<Rightarrow> Inl ''encrypt: aead::Error''
       | Some ciphertext \<Rightarrow> Inr (ci_base64 ci (nonce @ ciphertext))))"

definition decrypt :: "cipher \<Rightarrow> string \<Rightarrow> string \<Rightarrow> string + string" where
  "decrypt ci key blob = (case ci_unbase64 ci blob of
       None \<Rightarrow> Inl ''base64 decode encrypted identity''
     | Some combined \<Rightarrow>
         if length combined < 12 then Inl ''encrypted payload too short''
         else and_then (new_from_slice key) (\<lambda>k. case ci_open ci k (take 12 combined) (drop 12 combined) of
             None \<Rightarrow> Inl ''decrypt: aead::Error''
           | Some plain \<Rightarrow> (case ci_parse ci plain of None \<Rightarrow> Inl ''deserialize identity'' | Some identity \<Rightarrow> Inr identity)))"

text \<open>The two users: a submission whose identity cannot be sealed goes on without one, a callback whose blob cannot be
  opened is an error.\<close>

definition seal_identity :: "cipher \<Rightarrow> vars \<Rightarrow> string \<Rightarrow> string \<Rightarrow> string option" where
  "seal_identity ci vars nonce wire = (case crypto_from_env vars of
       Inl _ \<Rightarrow> None | Inr key \<Rightarrow> (case encrypt ci key nonce wire of Inl _ \<Rightarrow> None | Inr blob \<Rightarrow> Some blob))"

definition open_identity :: "cipher \<Rightarrow> vars \<Rightarrow> string \<Rightarrow> string + string" where
  "open_identity ci vars blob = and_then (crypto_from_env vars) (\<lambda>key. decrypt ci key blob)"

section \<open>Round trip and rejection\<close>

text \<open>Documented behaviour of the libraries: opening undoes sealing under the same key and nonce and accepts nothing that
  was not sealed so; decoding undoes encoding.\<close>

definition cipher_ok :: "cipher \<Rightarrow> bool" where
  "cipher_ok ci \<longleftrightarrow> (\<forall>k n p c. ci_seal ci k n p = Some c \<longrightarrow> ci_open ci k n c = Some p) \<and>
     (\<forall>k n p c. ci_open ci k n c = Some p \<longrightarrow> ci_seal ci k n p = Some c) \<and>
     (\<forall>b. ci_unbase64 ci (ci_base64 ci b) = Some b) \<and> (\<forall>w t. ci_print ci w = Some t \<longrightarrow> ci_parse ci t = Some w)"

lemma cipher_okD:
  assumes "cipher_ok ci"
  shows "ci_seal ci k n p = Some c \<Longrightarrow> ci_open ci k n c = Some p" "ci_open ci k n c = Some p \<Longrightarrow> ci_seal ci k n p = Some c"
    "ci_unbase64 ci (ci_base64 ci b) = Some b" "ci_print ci w = Some t \<Longrightarrow> ci_parse ci t = Some w"
  using assms unfolding cipher_ok_def by blast+

lemma key_is_256_bits: "from_secret secret = Inr key \<Longrightarrow> length key = 32"
  by (auto simp: from_secret_def Let_def split: if_splits)

lemma crypto_key: "crypto_from_env vars = Inr key \<Longrightarrow> length key = 32"
  by (auto simp: crypto_from_env_def key_is_256_bits split: option.splits)

text \<open>Only the first 32 bytes of the secret matter.\<close>

lemma long_secret: "length s \<ge> 32 \<Longrightarrow> from_secret s = Inr (take 32 s)"
  by (auto simp: from_secret_def Let_def)

lemma encrypt_Inr: "encrypt ci key nonce w = Inr blob \<longleftrightarrow> length key = 32 \<and> (\<exists>json c. ci_print ci w = Some json \<and>
    ci_seal ci key nonce json = Some c \<and> blob = ci_base64 ci (nonce @ c))"
  by (auto simp: encrypt_def and_then_def new_from_slice_def split: option.split sum.split)

lemma decrypt_Inr: "decrypt ci key blob = Inr w \<longleftrightarrow> length key = 32 \<and> (\<exists>b plain. ci_unbase64 ci blob = Some b \<and>
    12 \<le> length b \<and> ci_open ci key (take 12 b) (drop 12 b) = Some plain \<and> ci_parse ci plain = Some w)"
  by (cases "ci_unbase64 ci blob") (auto simp: decrypt_def and_then_def new_from_slice_def split: option.split)

lemma encrypt_decrypt:
  assumes "cipher_ok ci" and "length nonce = 12" and "encrypt ci key nonce w = Inr blob"
  shows "decrypt ci key blob = Inr w"
proof -
  from assms(3) obtain json c where "length key = 32" "ci_print ci w = Some json" "ci_seal ci key nonce json = Some c"
    "blob = ci_base64 ci (nonce @ c)" by (auto simp: encrypt_Inr)
  with assms(2) show ?thesis by (simp add: decrypt_Inr cipher_okD(1,3,4) [OF assms(1)])
qed

lemma seal_open:
  assumes "cipher_ok ci" and "length nonce = 12" and "seal_identity ci vars nonce w = Some blob"
  shows "open_identity ci vars blob = Inr w"
  using assms encrypt_decrypt [OF assms(1,2)]
  by (auto simp: seal_identity_def open_identity_def and_then_def split: sum.splits)

text \<open>What opens was sealed under the key of this service.\<close>

lemma opened_was_sealed:
  assumes "cipher_ok ci" and "open_identity ci vars blob = Inr w"
  shows "\<exists>key nonce ciphertext plain. crypto_from_env vars = Inr key \<and> length nonce = 12 \<and>
     ci_unbase64 ci blob = Some (nonce @ ciphertext) \<and> ci_seal ci key nonce plain = Some ciphertext \<and> ci_parse ci plain = Some w"
proof -
  from assms(2) obtain key combined plain where "crypto_from_env vars = Inr key" "ci_unbase64 ci blob = Some combined"
    "12 \<le> length combined" "ci_open ci key (take 12 combined) (drop 12 combined) = Some plain" "ci_parse ci plain = Some w"
    by (auto simp: open_identity_def and_then_Inr decrypt_Inr)
  then show ?thesis
    by (intro exI [of _ key] exI [of _ "take 12 combined"] exI [of _ "drop 12 combined"] exI [of _ plain])
      (simp add: cipher_okD(2) [OF assms(1)])
qed

section \<open>What a submission sends\<close>

text \<open>Every call a procedure makes to another service satisfies \<open>P\<close>, whatever statements fail.\<close>

definition emits :: "(sent \<Rightarrow> bool) \<Rightarrow> ('e, 'a) vg \<Rightarrow> bool" where
  "emits P m \<longleftrightarrow> (\<forall>p w r q w'. m (p, w) = (r, q, w') \<longrightarrow> (\<exists>calls. gw_sent w' = gw_sent w @ calls \<and> (\<forall>s \<in> set calls. P s)))"

named_theorems emits_intros "procedures whose calls to other services satisfy a predicate"

lemma emitsD: "emits P m \<Longrightarrow> m (p, w) = (r, q, w') \<Longrightarrow> \<exists>calls. gw_sent w' = gw_sent w @ calls \<and> (\<forall>s \<in> set calls. P s)"
  by (auto simp: emits_def)

lemma quiet_emits: "quiet m \<Longrightarrow> emits P m"
  by (fastforce simp: emits_def quiet_def)

lemma emits_basic [emits_intros]: "emits P (ret x)" "emits P (raise e)" "emits P (try_result y)" "emits P (on_store n)"
  by (auto simp: emits_def try_result_def on_store_def split: sum.splits prod.splits)

lemma emits_send [emits_intros]: "P s \<Longrightarrow> emits P (send s)"
  by (auto simp: emits_def run_send)

lemma emits_bnd [emits_intros]:
  assumes "emits P m" and "\<And>x. emits P (k x)"
  shows "emits P (bnd m k)"
  unfolding emits_def
proof (intro allI impI)
  fix p w r q w'
  assume "bnd m k (p, w) = (r, q, w')"
  then show "\<exists>calls. gw_sent w' = gw_sent w @ calls \<and> (\<forall>s \<in> set calls. P s)"
  proof (cases rule: bnd_cases)
    case fail
    with emitsD [OF assms(1)] show ?thesis by blast
  next
    case (go x p1 w1)
    from emitsD [OF assms(1) go(1)] emitsD [OF assms(2) go(2)] obtain xs ys where
      "gw_sent w1 = gw_sent w @ xs" "gw_sent w' = gw_sent w1 @ ys" "\<forall>s \<in> set xs. P s" "\<forall>s \<in> set ys. P s" by blast
    then show ?thesis by (intro exI [of _ "xs @ ys"]) auto
  qed
qed

lemma emits_try:
  "(\<And>y. x = Inr y \<Longrightarrow> emits P (k y)) \<Longrightarrow> emits P (bnd (try_result x) k)"
  by (cases x) (auto simp: emits_def run_bnd run_try)

lemma emits_attempt [emits_intros]: "emits P m \<Longrightarrow> emits P (attempt m)"
  by (fastforce simp: emits_def run_attempt split: prod.splits)

lemma emits_map_err [emits_intros]: "emits P m \<Longrightarrow> emits P (map_err g m)"
  by (fastforce simp: emits_def run_map_err split: prod.splits sum.splits)

text \<open>The job of a request: for its user, under its id, to the destination reserved for the user, with the identity in the
  sealed form.\<close>

definition job_for :: "generate_env \<Rightarrow> generate_request \<Rightarrow> sent \<Rightarrow> bool" where
  "job_for env r s \<longleftrightarrow> (\<forall>vq. s = SentSubmit vq \<longrightarrow> vq_user_principal vq = gb_user_id r \<and> vq_request_id vq = ge_request_id env \<and>
     (\<exists>d. reserve_upload_destination env (gb_user_id r) = Inr d \<and>
       vq_upload_destination vq = d\<lparr>ud_encrypted_identity := ge_encrypt env (gr_identity_wire r)\<rparr>))"

lemma emits_fail_after [emits_intros]: "emits (job_for env r) (fail_after_submit env key dest reason)"
  unfolding fail_after_submit_def mark_request_failed_def release_def
  by (auto intro!: emits_intros split: option.split release_mode.split simp: job_for_def)

lemma emits_or_fail [emits_intros]: "emits (job_for env r) m \<Longrightarrow> emits (job_for env r) (or_fail env key reason err m)"
  unfolding or_fail_def by (auto intro!: emits_intros split: sum.split)

lemma emits_or_fail_try:
  assumes "\<And>y. x = Inr y \<Longrightarrow> emits (job_for env r) (k y)"
  shows "emits (job_for env r) (bnd (or_fail env key reason err (try_result x)) k)"
proof (cases x)
  case (Inl e)
  then have "bnd (or_fail env key reason err (try_result x)) k =
      bnd (bnd (fail_after_submit env key None (reason e)) (\<lambda>_. raise (err e))) k"
    by (intro ext) (auto simp: or_fail_def run_simps split: prod.splits)
  moreover have "emits (job_for env r) (bnd (bnd (fail_after_submit env key None (reason e)) (\<lambda>_. raise (err e))) k)"
    by (fastforce simp: emits_def run_simps split: prod.splits sum.splits dest: emitsD [OF emits_fail_after])
  ultimately show ?thesis by simp
next
  case (Inr y)
  then have "bnd (or_fail env key reason err (try_result x)) k = k y"
    by (intro ext) (auto simp: or_fail_def run_simps)
  with assms Inr show ?thesis by simp
qed

lemma emits_submit_vast: "job_for env r (SentSubmit vq) \<Longrightarrow> emits (job_for env r) (submit_vast env key vq)"
  unfolding submit_vast_def Let_def by (auto intro!: emits_intros split: sum.split)

lemma emits_submit_recorded: "emits (job_for env r) (submit_recorded env cfg r key staged)"
  unfolding submit_recorded_def
  by (intro emits_or_fail_try emits_bnd emits_basic emits_submit_vast) (simp add: job_for_def)

lemma emits_late_stage: "emits (job_for env r) (late_stage env r key url skey)"
  unfolding late_stage_def by (auto intro!: emits_intros quiet_emits [OF quiet_stage])

lemma emits_generate_inner:
  "emits (\<lambda>s. \<exists>r. check_request env req = Inr r \<and> job_for env r s) (generate_inner env cfg req)" (is "emits ?P _")
proof -
  have sub: "emits ?P m" if "check_request env req = Inr r" "emits (job_for env r) m" for m :: "(generate_error, 'b) vg" and r
    using that by (fastforce simp: emits_def)
  have "emits ?P (record_pending env r :: (generate_error, request_key) vg)" for r
    unfolding record_pending_def by (intro emits_intros)
  then show ?thesis
    unfolding generate_inner_def
    by (auto intro!: emits_try emits_bnd quiet_emits [OF quiet_pre_stage] quiet_emits [OF quiet_moderation]
        sub [OF _ emits_late_stage] sub [OF _ emits_submit_recorded] split: prod.split)
qed

end
