(* ===== verification/Submit_Transport.thy ===== *)
theory Submit_Transport
  imports Identity_Crypto "HOL-Library.Sublist"
begin

text \<open>
  How a job reaches the GPU provider (\<open>videogen/vast.rs\<close>, \<open>videogen/rabbitmq.rs\<close> and the submission of
  \<open>routes/videogen/generate.rs\<close>): as the JSON text of the request, over HTTP or as a persistent message to the first of
  several brokers that confirms it. The HTTP client, AMQP and the texts of their errors are parameters; the queues
  of the brokers are the state.
\<close>

section \<open>The text of a job\<close>

definition opt_field :: "string \<Rightarrow> string option \<Rightarrow> (string \<times> json) list" where
  "opt_field name v = (case v of None \<Rightarrow> [] | Some s \<Rightarrow> [(name, JStr s)])"

definition request_key_json :: "request_key \<Rightarrow> json" where
  "request_key_json k = JObj [(''principal'', JStr (rk_principal k)), (''counter'', JInt (uint (rk_counter k)))]"

definition destination_json :: "(int \<Rightarrow> string) \<Rightarrow> upload_destination \<Rightarrow> json" where
  "destination_json rfc3339 d = JObj ([(''video_id'', JStr (ud_video_id d)), (''object_key'', JStr (ud_object_key d)),
     (''upload_url'', JStr (ud_upload_url d)), (''expires_at'', JStr (rfc3339 (ud_expires_at d)))] @
     opt_field ''bucket_url'' (ud_bucket_url d) @ opt_field ''encrypted_identity'' (ud_encrypted_identity d))"

definition vast_request_json :: "(int \<Rightarrow> string) \<Rightarrow> vast_request \<Rightarrow> json" where
  "vast_request_json rfc3339 q = JObj ([(''request_id'', JStr (vq_request_id q)),
     (''request_key'', request_key_json (vq_request_key q)), (''user_principal'', JStr (vq_user_principal q)),
     (''model_id'', JStr (vq_model_id q)), (''workflow_json'', vq_workflow_json q), (''input'', vq_input q),
     (''callback_url'', JStr (vq_callback_url q))] @
     opt_field ''upload_url_refresh_url'' (vq_upload_url_refresh_url q) @
     [(''upload_destination'', destination_json rfc3339 (vq_upload_destination q))] @
     opt_field ''staged_image_key'' (vq_staged_image_key q))"

definition release_json :: "request_key \<Rightarrow> string \<Rightarrow> string \<Rightarrow> json" where
  "release_json key video_id object_key = JObj [(''request_key'', request_key_json key),
     (''video_id'', JStr video_id), (''object_key'', JStr object_key)]"

record vast_accepted =
  va_request_id :: string
  va_status :: string
  va_accepted_at :: int

section \<open>The dependencies\<close>

text \<open>An awaited operation runs past the time limit, fails, or gives its value.\<close>

datatype 'a awaited = Late | Broke string | Came 'a

text \<open>Status code and body of an answer; the body may break off.\<close>

type_synonym vast_reply = "(nat \<times> (string + string)) awaited"

record accepted_wire =
  aw_request_id :: string
  aw_status :: string
  aw_accepted_at :: "string option"

record submit_env =
  su_rfc3339 :: "int \<Rightarrow> string"
  su_bytes :: "json \<Rightarrow> string + string"
  su_build :: "string \<Rightarrow> string \<Rightarrow> string option"
  su_execute :: "string \<Rightarrow> (string \<times> string) list \<Rightarrow> string \<Rightarrow> vast_reply"
  su_status_error :: "nat \<Rightarrow> string"
  su_accepted :: "string \<Rightarrow> string + accepted_wire"
  su_parse_rfc3339 :: "string \<Rightarrow> int option"
  su_unbase64 :: "string \<Rightarrow> string + string"
  su_utf8 :: "string \<Rightarrow> string option"
  su_now :: int

section \<open>Over HTTP\<close>

record vast_http_client =
  vh_endpoint :: string
  vh_api_key :: string

text \<open>The headers and the body; \<open>su_build\<close> says what is wrong with the address or the header.\<close>

definition build_submit_request :: "submit_env \<Rightarrow> vast_http_client \<Rightarrow> vast_request \<Rightarrow>
    vast_error + string \<times> (string \<times> string) list \<times> string" where
  "build_submit_request env client q = (let auth = ''Bearer '' @ vh_api_key client in
     case su_bytes env (vast_request_json (su_rfc3339 env) q) of
       Inl e \<Rightarrow> Inl (SerializeRequest e)
     | Inr body \<Rightarrow> (case su_build env (vh_endpoint client) auth of
         Some e \<Rightarrow> Inl (BuildRequest e)
       | None \<Rightarrow> Inr (vh_endpoint client, [(''authorization'', auth), (''content-type'', ''application/json'')], body)))"

definition read_accepted :: "submit_env \<Rightarrow> string \<Rightarrow> vast_error + vast_accepted" where
  "read_accepted env body = (case su_accepted env body of
       Inl e \<Rightarrow> Inl (RequestFailed e)
     | Inr a \<Rightarrow> Inr \<lparr>va_request_id = aw_request_id a, va_status = aw_status a,
         va_accepted_at = or_else (Option.bind (aw_accepted_at a) (su_parse_rfc3339 env)) (su_now env)\<rparr>)"

definition submit_vast_http :: "submit_env \<Rightarrow> vars \<Rightarrow> vast_request \<Rightarrow> vast_error + vast_accepted" where
  "submit_vast_http env vars q = (case vars ''VIDEOGEN_VAST_GENERATE_URL'' of
       None \<Rightarrow> Inl (RequestFailed ''VIDEOGEN_VAST_GENERATE_URL is required'')
     | Some endpoint \<Rightarrow> (case vars ''VAST_API_KEY'' of
         None \<Rightarrow> Inl (RequestFailed ''VAST_API_KEY is required'')
       | Some api_key \<Rightarrow> and_then (build_submit_request env \<lparr>vh_endpoint = endpoint, vh_api_key = api_key\<rparr> q) (\<lambda>(url, headers, body).
           case su_execute env url headers body of
             Late \<Rightarrow> Inl (RequestFailed ''Vast submit timed out'')
           | Broke e \<Rightarrow> Inl (RequestFailed e)
           | Came (status, answer) \<Rightarrow>
               if 400 \<le> status \<and> status < 600 then Inl (RequestFailed (su_status_error env status))
               else (case answer of Inl e \<Rightarrow> Inl (RequestFailed e) | Inr t \<Rightarrow> read_accepted env t))))"

section \<open>Over a message queue\<close>

record publish_config =
  pc_amqps_urls :: "string list"
  pc_exchange :: string
  pc_routing_key :: string
  pc_connection_name :: string
  pc_publish_timeout_secs :: nat
  pc_tls_ca_cert_pem_b64 :: "string option"

record envelope =
  en_body :: string
  en_message_id :: "string option"
  en_correlation_id :: "string option"
  en_content_type :: "string option"
  en_persistent :: bool

datatype publish_error =
    PSerialize string | PConnect string | PChannel string | PPublish string | PTimeout | PNotConfirmed

definition publish_error_text :: "publish_error \<Rightarrow> string" where
  "publish_error_text e = (case e of
       PSerialize m \<Rightarrow> ''failed to serialize RabbitMQ message: '' @ m
     | PConnect m \<Rightarrow> ''RabbitMQ connection failed: '' @ m
     | PChannel m \<Rightarrow> ''RabbitMQ channel failed: '' @ m
     | PPublish m \<Rightarrow> ''RabbitMQ publish failed: '' @ m
     | PTimeout \<Rightarrow> ''RabbitMQ publish timed out''
     | PNotConfirmed \<Rightarrow> ''RabbitMQ publish was not confirmed'')"

definition envelope_of :: "submit_env \<Rightarrow> vast_request \<Rightarrow> publish_error + envelope" where
  "envelope_of env q = (case su_bytes env (vast_request_json (su_rfc3339 env) q) of
       Inl e \<Rightarrow> Inl (PSerialize e)
     | Inr body \<Rightarrow> Inr \<lparr>en_body = body, en_message_id = Some (vq_request_id q), en_correlation_id = Some (vq_request_id q),
         en_content_type = Some ''application/json'', en_persistent = True\<rparr>)"

text \<open>What the broker says about a message; \<open>True\<close> when it comes with the message returned.\<close>

datatype confirmation = Ack bool | Nack bool | NotRequested

text \<open>One attempt: what each step gives, whether the broker keeps the message once it was written, and how many messages
  were returned.\<close>

record broker =
  br_runtime :: "string option"
  br_connect :: "unit awaited"
  br_channel :: "unit awaited"
  br_select :: "unit awaited"
  br_publish :: "unit awaited"
  br_takes :: bool
  br_confirm :: "confirmation awaited"
  br_returned :: "nat awaited"

record message =
  ms_exchange :: string
  ms_routing_key :: string
  ms_body :: string
  ms_content_type :: string
  ms_message_id :: string
  ms_correlation_id :: string
  ms_delivery_mode :: nat

type_synonym queues = "(string \<times> message) list"

definition message_of :: "publish_config \<Rightarrow> envelope \<Rightarrow> message" where
  "message_of cfg e = \<lparr>ms_exchange = pc_exchange cfg, ms_routing_key = pc_routing_key cfg, ms_body = en_body e,
     ms_content_type = or_else (en_content_type e) [], ms_message_id = or_else (en_message_id e) [],
     ms_correlation_id = or_else (en_correlation_id e) [], ms_delivery_mode = (if en_persistent e then 2 else 1)\<rparr>"

definition build_tls_config :: "submit_env \<Rightarrow> publish_config \<Rightarrow> publish_error + string option" where
  "build_tls_config env cfg = (case pc_tls_ca_cert_pem_b64 cfg of
       None \<Rightarrow> Inr None
     | Some b64 \<Rightarrow> (case su_unbase64 env b64 of
         Inl e \<Rightarrow> Inl (PConnect (''invalid CA cert base64: '' @ e))
       | Inr pem \<Rightarrow> (case su_utf8 env pem of
           Some e \<Rightarrow> Inl (PConnect (''CA cert is not valid UTF-8: '' @ e)) | None \<Rightarrow> Inr (Some pem))))"

text \<open>\<open>None\<close> is an attempt that is still running when its time is over.\<close>

definition awaiting :: "'a awaited \<Rightarrow> (string \<Rightarrow> publish_error) \<Rightarrow> ('a \<Rightarrow> (publish_error + 'b) option) \<Rightarrow> (publish_error + 'b) option" where
  "awaiting a err k = (case a of Late \<Rightarrow> None | Broke e \<Rightarrow> Some (Inl (err e)) | Came x \<Rightarrow> k x)"

definition open_channel :: "submit_env \<Rightarrow> publish_config \<Rightarrow> broker \<Rightarrow> (publish_error + unit) option" where
  "open_channel env cfg br = (case build_tls_config env cfg of
       Inl e \<Rightarrow> Some (Inl e)
     | Inr _ \<Rightarrow> (case br_runtime br of
         Some e \<Rightarrow> Some (Inl (PConnect e))
       | None \<Rightarrow> awaiting (br_connect br) PConnect (\<lambda>_. awaiting (br_channel br) PChannel (\<lambda>_.
           awaiting (br_select br) PChannel (\<lambda>_. Some (Inr ()))))))"

definition confirmed :: "broker \<Rightarrow> (publish_error + unit) option" where
  "confirmed br = awaiting (br_publish br) PPublish (\<lambda>_. awaiting (br_confirm br) PPublish (\<lambda>c.
     awaiting (br_returned br) PPublish (\<lambda>returned.
       Some (if c = Ack False \<and> returned = 0 then Inr () else Inl PNotConfirmed))))"

definition do_publish :: "submit_env \<Rightarrow> publish_config \<Rightarrow> broker \<Rightarrow> string \<Rightarrow> envelope \<Rightarrow> string \<Rightarrow> queues \<Rightarrow>
    (publish_error + vast_accepted) option \<times> queues" where
  "do_publish env cfg br url e request_id qs = (case open_channel env cfg br of
       None \<Rightarrow> (None, qs)
     | Some (Inl x) \<Rightarrow> (Some (Inl x), qs)
     | Some (Inr _) \<Rightarrow>
         (map_option (\<lambda>r. case r of Inl x \<Rightarrow> Inl x
             | Inr _ \<Rightarrow> Inr \<lparr>va_request_id = request_id, va_status = ''queued'', va_accepted_at = su_now env\<rparr>) (confirmed br),
          if br_takes br then qs @ [(url, message_of cfg e)] else qs))"

definition try_publish_to_url :: "submit_env \<Rightarrow> publish_config \<Rightarrow> broker \<Rightarrow> string \<Rightarrow> envelope \<Rightarrow> string \<Rightarrow> queues \<Rightarrow>
    (publish_error + vast_accepted) \<times> queues" where
  "try_publish_to_url env cfg br url e request_id qs = (case do_publish env cfg br url e request_id qs of
       (None, qs') \<Rightarrow> (Inl PTimeout, qs') | (Some r, qs') \<Rightarrow> (r, qs'))"

text \<open>The brokers in turn; \<open>i\<close> counts the attempts, for a broker may answer every one differently.\<close>

fun publish_urls :: "submit_env \<Rightarrow> publish_config \<Rightarrow> (nat \<Rightarrow> string \<Rightarrow> broker) \<Rightarrow> envelope \<Rightarrow> string \<Rightarrow> nat \<Rightarrow> string list \<Rightarrow>
    publish_error option \<Rightarrow> queues \<Rightarrow> (publish_error + vast_accepted) \<times> queues" where
  "publish_urls env cfg brokers e request_id i [] last_error qs =
     (Inl (or_else last_error (PConnect ''no AMQPS URLs configured'')), qs)"
| "publish_urls env cfg brokers e request_id i (url # urls) last_error qs =
     (case try_publish_to_url env cfg (brokers i url) url e request_id qs of
       (Inr accepted, qs') \<Rightarrow> (Inr accepted, qs')
     | (Inl err, qs') \<Rightarrow> publish_urls env cfg brokers e request_id (Suc i) urls (Some err) qs')"

definition publish :: "submit_env \<Rightarrow> publish_config \<Rightarrow> (nat \<Rightarrow> string \<Rightarrow> broker) \<Rightarrow> vast_request \<Rightarrow> queues \<Rightarrow>
    (publish_error + vast_accepted) \<times> queues" where
  "publish env cfg brokers q qs = (case envelope_of env q of
       Inl e \<Rightarrow> (Inl e, qs)
     | Inr e \<Rightarrow> publish_urls env cfg brokers e (vq_request_id q) 0 (pc_amqps_urls cfg) None qs)"

definition publish_config_of :: "videogen_config \<Rightarrow> publish_config" where
  "publish_config_of c = \<lparr>pc_amqps_urls = vc_rabbitmq_amqps_urls c, pc_exchange = vc_rabbitmq_exchange c,
     pc_routing_key = vc_rabbitmq_routing_key c, pc_connection_name = vc_rabbitmq_connection_name c,
     pc_publish_timeout_secs = vc_rabbitmq_publish_timeout_secs c, pc_tls_ca_cert_pem_b64 = vc_rabbitmq_tls_ca_cert_pem_b64 c\<rparr>"

definition submit_vast_rabbitmq :: "submit_env \<Rightarrow> videogen_config \<Rightarrow> (nat \<Rightarrow> string \<Rightarrow> broker) \<Rightarrow> vast_request \<Rightarrow> queues \<Rightarrow>
    (vast_error + vast_accepted) \<times> queues" where
  "submit_vast_rabbitmq env c brokers q qs = (case publish env (publish_config_of c) brokers q qs of
       (Inl e, qs') \<Rightarrow> (Inl (RequestFailed (publish_error_text e)), qs') | (Inr a, qs') \<Rightarrow> (Inr a, qs'))"

definition runtime_submit :: "submit_env \<Rightarrow> vars \<Rightarrow> videogen_config \<Rightarrow> (nat \<Rightarrow> string \<Rightarrow> broker) \<Rightarrow> vast_request \<Rightarrow> queues \<Rightarrow>
    (vast_error + vast_accepted) \<times> queues" where
  "runtime_submit env vars c brokers q qs = (case vc_vast_submit_transport c of
       THttp \<Rightarrow> (submit_vast_http env vars q, qs)
     | TRabbitMq \<Rightarrow> submit_vast_rabbitmq env c brokers q qs)"

section \<open>What a submission leaves in the queues\<close>

text \<open>Publisher confirms as documented: a message that is acknowledged, without being handed back in the confirmation or on
  the channel, is in a queue.\<close>

definition confirms_ok :: "broker \<Rightarrow> bool" where
  "confirms_ok br \<longleftrightarrow> (br_confirm br = Came (Ack False) \<and> br_returned br = Came 0 \<longrightarrow> br_takes br)"

lemma confirmed_takes: "confirms_ok br \<Longrightarrow> confirmed br = Some (Inr u) \<Longrightarrow> br_takes br"
  by (auto simp: confirms_ok_def confirmed_def awaiting_def split: awaited.splits if_splits)

text \<open>An attempt puts the message at its broker once or not at all; an accepted one has put it there.\<close>

lemma attempt_cases:
  assumes "try_publish_to_url env cfg br url e rid qs = (res, qs')"
  shows "qs' = qs \<or> qs' = qs @ [(url, message_of cfg e)]"
    and "res = Inr a \<Longrightarrow> confirms_ok br \<Longrightarrow> qs' = qs @ [(url, message_of cfg e)] \<and>
      a = \<lparr>va_request_id = rid, va_status = ''queued'', va_accepted_at = su_now env\<rparr>"
  using assms by (auto simp: try_publish_to_url_def do_publish_def dest: confirmed_takes split: option.splits sum.splits if_splits)

lemma publish_urls_queues:
  assumes "publish_urls env cfg brokers e rid i urls err qs = (res, qs')"
  shows "\<exists>us. subseq us urls \<and> qs' = qs @ map (\<lambda>u. (u, message_of cfg e)) us \<and>
     (\<forall>a. res = Inr a \<and> (\<forall>i u. confirms_ok (brokers i u)) \<longrightarrow> us \<noteq> [] \<and> va_request_id a = rid \<and> va_status a = ''queued'')"
  using assms
proof (induction urls arbitrary: i err qs)
  case Nil
  then show ?case by (intro exI [of _ "[]"]) auto
next
  case (Cons url urls)
  obtain r1 qs1 where one: "try_publish_to_url env cfg (brokers i url) url e rid qs = (r1, qs1)" by fastforce
  note first = attempt_cases [OF one]
  show ?case
  proof (cases r1)
    case (Inr a)
    with Cons.prems one have res: "res = Inr a" "qs' = qs1" by auto
    from first(1) show ?thesis
    proof
      assume "qs1 = qs"
      with res first(2) [OF Inr] show ?thesis by (intro exI [of _ "[]"]) auto
    next
      assume "qs1 = qs @ [(url, message_of cfg e)]"
      with res first(2) [OF Inr] show ?thesis by (intro exI [of _ "[url]"]) auto
    qed
  next
    case (Inl x)
    with Cons.prems one have "publish_urls env cfg brokers e rid (Suc i) urls (Some x) qs1 = (res, qs')" by simp
    from Cons.IH [OF this] obtain us where us: "subseq us urls" "qs' = qs1 @ map (\<lambda>u. (u, message_of cfg e)) us"
      "\<forall>a. res = Inr a \<and> (\<forall>i u. confirms_ok (brokers i u)) \<longrightarrow> us \<noteq> [] \<and> va_request_id a = rid \<and> va_status a = ''queued''" by blast
    from first(1) show ?thesis
    proof
      assume "qs1 = qs"
      with us show ?thesis by (intro exI [of _ us]) auto
    next
      assume "qs1 = qs @ [(url, message_of cfg e)]"
      with us show ?thesis by (intro exI [of _ "url # us"]) auto
    qed
  qed
qed

text \<open>The message of a job.\<close>

definition job_message :: "submit_env \<Rightarrow> videogen_config \<Rightarrow> vast_request \<Rightarrow> message \<Rightarrow> bool" where
  "job_message env c q m \<longleftrightarrow> su_bytes env (vast_request_json (su_rfc3339 env) q) = Inr (ms_body m) \<and>
     ms_message_id m = vq_request_id q \<and> ms_correlation_id m = vq_request_id q \<and> ms_delivery_mode m = 2 \<and>
     ms_exchange m = vc_rabbitmq_exchange c \<and> ms_routing_key m = vc_rabbitmq_routing_key c"

lemma rabbitmq_queues:
  assumes "submit_vast_rabbitmq env c brokers q qs = (res, qs')"
  shows "\<exists>us m. subseq us (vc_rabbitmq_amqps_urls c) \<and> qs' = qs @ map (\<lambda>u. (u, m)) us \<and>
     (us \<noteq> [] \<longrightarrow> job_message env c q m) \<and>
     (\<forall>a. res = Inr a \<and> (\<forall>i u. confirms_ok (brokers i u)) \<longrightarrow> us \<noteq> [] \<and> va_request_id a = vq_request_id q \<and> va_status a = ''queued'')"
proof (cases "envelope_of env q")
  case (Inl e)
  with assms show ?thesis by (intro exI [of _ "[]"]) (auto simp: submit_vast_rabbitmq_def publish_def)
next
  case (Inr e)
  let ?cfg = "publish_config_of c"
  obtain r1 where run: "publish_urls env ?cfg brokers e (vq_request_id q) 0 (vc_rabbitmq_amqps_urls c) None qs = (r1, qs')"
    and res: "res = Inr a \<Longrightarrow> r1 = Inr a" for a
    using assms Inr by (auto simp: submit_vast_rabbitmq_def publish_def publish_config_of_def split: prod.splits sum.splits)
  have msg: "job_message env c q (message_of ?cfg e)"
    using Inr by (auto simp: envelope_of_def job_message_def message_of_def publish_config_of_def or_else_def split: sum.splits)
  from publish_urls_queues [OF run] obtain us where us: "subseq us (vc_rabbitmq_amqps_urls c)"
    "qs' = qs @ map (\<lambda>u. (u, message_of ?cfg e)) us"
    "\<forall>a. r1 = Inr a \<and> (\<forall>i u. confirms_ok (brokers i u)) \<longrightarrow> us \<noteq> [] \<and> va_request_id a = vq_request_id q \<and> va_status a = ''queued''" by blast
  show ?thesis
  proof (intro exI conjI impI allI)
    show "subseq us (vc_rabbitmq_amqps_urls c)" "qs' = qs @ map (\<lambda>u. (u, message_of ?cfg e)) us" by (fact us(1,2))+
    show "job_message env c q (message_of ?cfg e)" by (fact msg)
    fix a
    assume "res = Inr a \<and> (\<forall>i u. confirms_ok (brokers i u))"
    with us(3) res show "us \<noteq> []" "va_request_id a = vq_request_id q" "va_status a = ''queued''" by blast+
  qed
qed

end
