(* ===== verification/Videogen_Runtime.thy ===== *)
theory Videogen_Runtime
  imports Submit_Transport
begin

text \<open>
  The submission and the callback of a generation as the service runs them: their dependencies are built from the
  variables of the process for each request, with the moderation mode, the sealing of identities and the transport of
  the settings. What remains outside (the canisters, the moderation service, the brokers) is a parameter.
\<close>

section \<open>The dependencies of a request\<close>

text \<open>\<open>rt_generate\<close> and \<open>rt_complete\<close> hold what does not come from the variables.\<close>

record runtime =
  rt_generate :: generate_env
  rt_complete :: completion_env
  rt_cipher :: cipher
  rt_nonce :: string
  rt_submit :: submit_env
  rt_brokers :: "nat \<Rightarrow> string \<Rightarrow> broker"
  rt_post_release :: "string \<Rightarrow> request_key \<Rightarrow> string \<Rightarrow> string \<Rightarrow> string + unit"
  rt_now :: int

definition as_i64 :: "nat \<Rightarrow> int" where
  "as_i64 n = sint (of_nat n :: 64 word)"

definition submit_result :: "vast_error + vast_accepted \<Rightarrow> vast_error + string \<times> string" where
  "submit_result r = (case r of Inl e \<Rightarrow> Inl e | Inr a \<Rightarrow> Inr (va_request_id a, va_status a))"

text \<open>An expiry beyond the calendar of the date library, a panic in the code, is not modelled.\<close>

definition runtime_env :: "runtime \<Rightarrow> vars \<Rightarrow> queues \<Rightarrow> videogen_config \<Rightarrow> generate_env" where
  "runtime_env rt vars qs c = (rt_generate rt)\<lparr>ge_mode := vc_moderation_mode c,
     ge_secret := vars ''MODERATION_HMAC_SECRET'', ge_share_url := vars ''SFW_SHARE_EU1_URL'',
     ge_public_base := vars ''PUBLIC_BASE_URL'', ge_expires_at := rt_now rt + as_i64 (vc_upload_url_ttl_secs c),
     ge_encrypt := seal_identity (rt_cipher rt) vars (rt_nonce rt),
     ge_submit := (\<lambda>vq. submit_result (fst (runtime_submit (rt_submit rt) vars c (rt_brokers rt) vq qs))),
     ge_release := release_from_env (vars ''VIDEOGEN_UPLOAD_DESTINATION_RELEASE_URL'') (rt_post_release rt)\<rparr>"

definition runtime_generate :: "runtime \<Rightarrow> vars \<Rightarrow> queues \<Rightarrow> string + generate_env \<times> generate_config" where
  "runtime_generate rt vars qs = (case from_env vars of
       Inl e \<Rightarrow> Inl (config_error_text e)
     | Inr c \<Rightarrow> Inr (runtime_env rt vars qs c,
         from_runtime_config (vars ''PUBLIC_BASE_URL'') (vars ''VIDEOGEN_UPLOAD_URL_REFRESH_ENABLED'')))"

definition runtime_complete :: "runtime \<Rightarrow> vars \<Rightarrow> string + completion_env" where
  "runtime_complete rt vars = (case from_env vars of
       Inl e \<Rightarrow> Inl (config_error_text e)
     | Inr c \<Rightarrow> Inr ((rt_complete rt)\<lparr>ce_token := vars ''VIDEOGEN_SERVICE_AUTH_TOKEN'',
         ce_keys := vars ''VIDEOGEN_COMPLETION_HMAC_KEYS'', ce_skew := as_i64 (vc_completion_hmac_skew_secs c),
         ce_release := release_from_env (vars ''VIDEOGEN_UPLOAD_DESTINATION_RELEASE_URL'') (rt_post_release rt),
         ce_decrypt := open_identity (rt_cipher rt) vars\<rparr>))"

section \<open>Moderation in production\<close>

lemma covers_runtime:
  "covers (runtime_env rt vars qs c) = covers ((rt_generate rt)\<lparr>ge_share_url := vars ''SFW_SHARE_EU1_URL''\<rparr>)"
proof -
  have same: "staged_copy (runtime_env rt vars qs c) = staged_copy ((rt_generate rt)\<lparr>ge_share_url := vars ''SFW_SHARE_EU1_URL''\<rparr>)"
    by (simp add: staged_copy_def staged_key_def runtime_env_def fun_eq_iff)
  show ?thesis unfolding covers_def [abs_def] same by (rule refl)
qed


section \<open>An accepted job is in a queue\<close>

lemma check_request_wire: "check_request env req = Inr r \<Longrightarrow> gr_identity_wire r = gr_identity_wire req"
  by (auto simp: check_request_def split: sum.splits if_splits)

lemma accepted_submission:
  assumes "generate_inner env cfg req ([], w) = (Inr resp, q, w1)"
  shows "\<exists>vq status. gw_sent w1 = gw_sent w @ [SentSubmit vq] \<and> vq_request_key vq = gp_request_key resp \<and>
     vq_request_id vq = ge_request_id env \<and> ge_submit env vq = Inr (vq_request_id vq, status) \<and> is_accepted_status status \<and>
     ud_encrypted_identity (vq_upload_destination vq) = ge_encrypt env (gr_identity_wire req)"
proof -
  from generate_inner_cases [OF assms] obtain vq status where vq: "gw_sent w1 = gw_sent w @ [SentSubmit vq]"
    "vq_request_key vq = gp_request_key resp" "vq_request_id vq = ge_request_id env"
    "ge_submit env vq = Inr (vq_request_id vq, status)" "is_accepted_status status"
    by (auto simp: Let_def submitted_def)
  from emitsD [OF emits_generate_inner assms] vq(1) obtain r where "check_request env req = Inr r" "job_for env r (SentSubmit vq)"
    by auto
  then have "ud_encrypted_identity (vq_upload_destination vq) = ge_encrypt env (gr_identity_wire req)"
    by (auto simp: job_for_def check_request_wire)
  with vq show ?thesis by blast
qed

text \<open>C15. Over the message queue a generation is answered as accepted only when a broker has its job: with brokers whose
  confirmations mean what they say, the job, as one persistent message with the identity in the sealed form and the id
  of the request for deduplication, stands in the queues of some of the configured brokers, at least one, each once,
  and nothing else was put there.\<close>

theorem accepted_job_is_queued:
  assumes gen: "generate_inner (runtime_env rt vars qs c) cfg req ([], w) = (Inr resp, q, w1)"
    and rabbit: "vc_vast_submit_transport c = TRabbitMq" and honest: "\<forall>i u. confirms_ok (rt_brokers rt i u)"
  shows "\<exists>vq us m. gw_sent w1 = gw_sent w @ [SentSubmit vq] \<and> vq_request_key vq = gp_request_key resp \<and>
     ud_encrypted_identity (vq_upload_destination vq) = seal_identity (rt_cipher rt) vars (rt_nonce rt) (gr_identity_wire req) \<and>
     snd (runtime_submit (rt_submit rt) vars c (rt_brokers rt) vq qs) = qs @ map (\<lambda>u. (u, m)) us \<and>
     us \<noteq> [] \<and> subseq us (vc_rabbitmq_amqps_urls c) \<and> job_message (rt_submit rt) c vq m"
proof -
  from accepted_submission [OF gen] obtain vq status where vq: "gw_sent w1 = gw_sent w @ [SentSubmit vq]"
    "vq_request_key vq = gp_request_key resp" "ge_submit (runtime_env rt vars qs c) vq = Inr (vq_request_id vq, status)"
    "ud_encrypted_identity (vq_upload_destination vq) = ge_encrypt (runtime_env rt vars qs c) (gr_identity_wire req)" by blast
  obtain res qs' where sub: "submit_vast_rabbitmq (rt_submit rt) c (rt_brokers rt) vq qs = (res, qs')" by fastforce
  with vq(3) rabbit obtain a where "res = Inr a"
    by (cases res) (auto simp: runtime_env_def runtime_submit_def submit_result_def)
  with rabbitmq_queues [OF sub] honest obtain us m where "subseq us (vc_rabbitmq_amqps_urls c)" "qs' = qs @ map (\<lambda>u. (u, m)) us"
    "us \<noteq> []" "job_message (rt_submit rt) c vq m" by blast
  with vq sub rabbit show ?thesis
    by (intro exI [of _ vq] exI [of _ us] exI [of _ m]) (simp add: runtime_submit_def runtime_env_def)
qed

text \<open>The converse fails: a broker that keeps the message but confirms it too late leaves the job in its queue, while the
  generation is answered as failed; with a second broker the job is queued twice.\<close>

definition slow_broker :: broker where
  "slow_broker = \<lparr>br_runtime = None, br_connect = Came (), br_channel = Came (), br_select = Came (), br_publish = Came (),
     br_takes = True, br_confirm = Late, br_returned = Came 0\<rparr>"

definition good_broker :: broker where
  "good_broker = slow_broker\<lparr>br_confirm := Came (Ack False)\<rparr>"

lemma brokers_honest [simp]: "confirms_ok slow_broker" "confirms_ok good_broker"
  by (simp_all add: confirms_ok_def slow_broker_def good_broker_def)

lemma open_demo:
  "pc_tls_ca_cert_pem_b64 cfg = None \<Longrightarrow> open_channel env cfg slow_broker = Some (Inr ())"
  "pc_tls_ca_cert_pem_b64 cfg = None \<Longrightarrow> open_channel env cfg good_broker = Some (Inr ())"
  "confirmed slow_broker = None" "confirmed good_broker = Some (Inr ())" "br_takes slow_broker" "br_takes good_broker"
  by (simp_all add: open_channel_def build_tls_config_def awaiting_def confirmed_def good_broker_def slow_broker_def)

lemma late_confirmation_queues_twice:
  assumes "vc_rabbitmq_amqps_urls c = [u1, u2]" and "vc_rabbitmq_tls_ca_cert_pem_b64 c = None"
    and "su_bytes env (vast_request_json (su_rfc3339 env) vq) = Inr body"
  shows "\<exists>m. submit_vast_rabbitmq env c (\<lambda>i u. if i = 0 then slow_broker else good_broker) vq qs =
      (Inr \<lparr>va_request_id = vq_request_id vq, va_status = ''queued'', va_accepted_at = su_now env\<rparr>, qs @ [(u1, m), (u2, m)])"
  using assms
  by (simp add: submit_vast_rabbitmq_def publish_def envelope_of_def publish_config_of_def try_publish_to_url_def do_publish_def open_demo)

lemma failed_job_stays_queued:
  assumes "vc_rabbitmq_amqps_urls c = [u]" and "vc_rabbitmq_tls_ca_cert_pem_b64 c = None"
    and "su_bytes env (vast_request_json (su_rfc3339 env) vq) = Inr body"
  shows "\<exists>m. submit_vast_rabbitmq env c (\<lambda>i u. slow_broker) vq qs = (Inl (RequestFailed ''RabbitMQ publish timed out''), qs @ [(u, m)])"
  using assms
  by (simp add: submit_vast_rabbitmq_def publish_def envelope_of_def publish_config_of_def try_publish_to_url_def do_publish_def open_demo
      publish_error_text_def or_else_def)

section \<open>The identity comes back\<close>

text \<open>C14. The identity of a user survives the trip through the GPU worker: for every run of a submission, whatever fails
  in it, the sealed identity of the job it sends is opened again by a callback of a service with the same secret, and
  the draft is registered under the identity of that user.\<close>

theorem identity_reaches_draft:
  assumes gen: "generate_inner (runtime_env rt vars qs c) cfg req (p, w) = (r, q, w1)"
    and sent: "gw_sent w1 = gw_sent w @ calls" "SentSubmit vq \<in> set calls"
    and blob: "ud_encrypted_identity (vq_upload_destination vq) = Some blob"
    and lib: "cipher_ok (rt_cipher rt)" "length (rt_nonce rt) = 12"
    and cb: "runtime_complete rt' vars' = Inr cenv" "rt_cipher rt' = rt_cipher rt"
      "vars' ''INTERNAL_ENCRYPTION_SECRET'' = vars ''INTERNAL_ENCRYPTION_SECRET''"
    and draft: "dq_encrypted_identity dq = Some blob" "ce_principal cenv (dq_user_principal dq) = Inr user"
  shows "\<exists>res. create_draft cenv dq (p2, w2) = (res, p2, w2\<lparr>gw_sent := gw_sent w2 @
     [SentDraft (gr_identity_wire req) \<lparr>pd_id = dq_video_id dq, pd_video_uid = dq_video_id dq, pd_creator_principal = user\<rparr>]\<rparr>)"
proof -
  let ?env = "runtime_env rt vars qs c"
  from emitsD [OF emits_generate_inner gen] sent obtain r' where "check_request ?env req = Inr r'" "job_for ?env r' (SentSubmit vq)"
    by auto
  then have "ge_encrypt ?env (gr_identity_wire req) = Some blob" using blob by (auto simp: job_for_def check_request_wire)
  then have sealed: "seal_identity (rt_cipher rt) vars (rt_nonce rt) (gr_identity_wire req) = Some blob" by (simp add: runtime_env_def)
  have "crypto_from_env vars' = crypto_from_env vars" using cb(3) by (simp add: crypto_from_env_def INTERNAL_ENCRYPTION_SECRET_ENV_def)
  with cb(1,2) seal_open [OF lib sealed] have "ce_decrypt cenv blob = Inr (gr_identity_wire req)"
    by (auto simp: runtime_complete_def open_identity_def split: sum.splits)
  with draft show ?thesis
    by (simp add: create_draft_def draft_post_details_def run_bnd run_send split: sum.split)
qed

text \<open>Conversely a draft is registered only under an identity that a service with this secret has sealed.\<close>

lemma drafts_need_sealed_identity:
  assumes "runtime_complete rt vars = Inr cenv" and "cipher_ok (rt_cipher rt)"
    and "create_draft cenv dq (p, w) = (res, q, w')" and "gw_sent w' \<noteq> gw_sent w"
  shows "\<exists>key blob nonce ciphertext plain wire. crypto_from_env vars = Inr key \<and> dq_encrypted_identity dq = Some blob \<and>
     ci_unbase64 (rt_cipher rt) blob = Some (nonce @ ciphertext) \<and> ci_seal (rt_cipher rt) key nonce plain = Some ciphertext \<and>
     ci_parse (rt_cipher rt) plain = Some wire"
proof -
  from assms(3,4) obtain blob wire where "dq_encrypted_identity dq = Some blob" "ce_decrypt cenv blob = Inr wire"
    by (auto simp: create_draft_def split: option.splits sum.splits)
  moreover from assms(1) have "ce_decrypt cenv = open_identity (rt_cipher rt) vars"
    by (auto simp: runtime_complete_def split: sum.splits)
  ultimately show ?thesis using opened_was_sealed [OF assms(2)] by metis
qed

section \<open>Witnesses\<close>

definition demo_vars :: vars where
  "demo_vars name = map_of [(''MODERATION_HMAC_SECRET'', ''hmac''), (''PUBLIC_BASE_URL'', ''https://public''),
     (''INTERNAL_ENCRYPTION_SECRET'', ''key''), (''VIDEOGEN_VAST_SUBMIT_TRANSPORT'', ''rabbitmq''),
     (''VIDEOGEN_RABBITMQ_AMQPS_URLS'', ''amqps://mq''), (''SFW_SHARE_EU1_URL'', ''https://share/yral-sfw'')] name"

definition demo_cipher :: cipher where
  "demo_cipher = \<lparr>ci_seal = (\<lambda>_ _. Some), ci_open = (\<lambda>_ _. Some), ci_base64 = id, ci_unbase64 = Some, ci_print = Some, ci_parse = Some\<rparr>"

definition demo_submit_env :: submit_env where
  "demo_submit_env = \<lparr>su_rfc3339 = show_int, su_bytes = (\<lambda>_. Inr ''job''), su_build = (\<lambda>_ _. None), su_execute = (\<lambda>_ _ _. Late),
     su_status_error = show_nat, su_accepted = (\<lambda>_. Inl ''no json''), su_parse_rfc3339 = (\<lambda>_. None), su_unbase64 = Inr,
     su_utf8 = (\<lambda>_. None), su_now = 7\<rparr>"

definition demo_runtime :: runtime where
  "demo_runtime = \<lparr>rt_generate = demo_genv\<lparr>ge_detect := \<lambda>_ _ _. Reply 200 [] (Inr (JObj []))\<rparr>, rt_complete = demo_cenv,
     rt_cipher = demo_cipher, rt_nonce = replicate 12 CHR ''n'', rt_submit = demo_submit_env, rt_brokers = (\<lambda>_ _. good_broker),
     rt_post_release = (\<lambda>_ _ _ _. Inr ()), rt_now = 7\<rparr>"

lemma demo_cipher_ok: "cipher_ok demo_cipher"
  by (simp add: cipher_ok_def demo_cipher_def)

lemma demo_config: "\<exists>c. from_env demo_vars = Inr c \<and> vc_moderation_mode c = Remote \<and> vc_vast_submit_transport c = TRabbitMq \<and>
    vc_rabbitmq_amqps_urls c = [''amqps://mq''] \<and> vc_rabbitmq_tls_ca_cert_pem_b64 c = None"
  by (simp add: from_env_def and_then_def read_u64_def var_or_def parse_transport_def parse_moderation_mode_def
      validate_for_environment_def trim_samples lower_samples demo_vars_def amqps_urls_def)

lemma demo_production: "in_production demo_vars"
  by (simp add: in_production_def var_or_def demo_vars_def trim_samples eq_ignore_ascii_case_def)

lemma demo_sealed: "seal_identity demo_cipher demo_vars (replicate 12 CHR ''n'') ''wire'' = Some (replicate 12 CHR ''n'' @ ''wire'')"
  by (simp add: seal_identity_def crypto_from_env_def INTERNAL_ENCRYPTION_SECRET_ENV_def demo_vars_def from_secret_def encrypt_def
      demo_cipher_def new_from_slice_def and_then_def)

lemma demo_submits:
  assumes "vc_vast_submit_transport c = TRabbitMq" and "vc_rabbitmq_amqps_urls c = [''amqps://mq'']"
    and "vc_rabbitmq_tls_ca_cert_pem_b64 c = None"
  shows "ge_submit (runtime_env demo_runtime demo_vars qs c) vq = Inr (vq_request_id vq, ''queued'')"
  using assms
  by (simp add: runtime_env_def demo_runtime_def demo_submit_env_def runtime_submit_def submit_vast_rabbitmq_def publish_def
      envelope_of_def publish_config_of_def try_publish_to_url_def do_publish_def open_demo submit_result_def)

lemma demo_safe:
  assumes "vc_moderation_mode c = Remote"
  shows "moderate (runtime_env demo_runtime demo_vars qs c) prompt subject = Inr Safe"
proof -
  let ?env = "runtime_env demo_runtime demo_vars qs c"
  have "ge_mode ?env = Remote" "ge_secret ?env = Some ''hmac''" "ge_detect ?env = (\<lambda>_ _ _. Reply 200 [] (Inr (JObj [])))"
    using assms by (simp_all add: runtime_env_def demo_runtime_def demo_vars_def)
  then show ?thesis
    by (cases subject)
      (simp_all add: moderate_def moderate_once_def is_nsfw_def MODERATION_MAX_ATTEMPTS_def upt_rec [of "Suc 0"])
qed

text \<open>A text prompt is accepted wherever it passes the gate and its submission goes through.\<close>

lemma demo_like_accepted:
  assumes "check_request env (demo_generate None) = Inr (demo_generate None)" and "moderate env ''sun'' TextOnly = Inr Safe"
    and "\<And>vq. ge_submit env vq = Inr (vq_request_id vq, ''queued'')"
    and "ge_public_base env = Some base" and "ge_upload_url env base ''alice'' = Inr (vid, url)"
  shows "\<exists>resp q w1. generate_inner env cfg (demo_generate None) ([], demo_world) = (Inr resp, q, w1)"
proof -
  obtain res q w1 where run: "generate_inner env cfg (demo_generate None) ([], demo_world) = (res, q, w1)" by (metis prod_cases3)
  have "\<exists>x. res = Inr x"
    using run
    by (auto simp: generate_inner_def run_simps map_left_def pre_stage_def run_moderation_def moderation_subject_of_def assms
        record_pending_run late_stage_def submit_recorded_def or_fail_def workflow_json_def
        compute_request_fingerprint_def compute_image_identity_def fingerprint_input_of_def stage_image_def
        reserve_upload_destination_def submit_vast_def is_accepted_status_def demo_generate_simps split_staged_def)
  with run show ?thesis by blast
qed

lemma demo_runtime_accepted:
  assumes c: "vc_moderation_mode c = Remote" "vc_vast_submit_transport c = TRabbitMq" "vc_rabbitmq_amqps_urls c = [''amqps://mq'']"
    "vc_rabbitmq_tls_ca_cert_pem_b64 c = None"
  shows "\<exists>resp q w1. generate_inner (runtime_env demo_runtime demo_vars [] c) cfg (demo_generate None) ([], demo_world) = (Inr resp, q, w1)"
proof -
  let ?env = "runtime_env demo_runtime demo_vars [] c"
  have "ge_public_base ?env = Some ''https://public''" "ge_upload_url ?env = (\<lambda>base user. Inr (''vid'', base))"
    by (simp_all add: runtime_env_def demo_runtime_def demo_genv_def demo_vars_def)
  moreover have "check_request ?env (demo_generate None) = check_request demo_genv (demo_generate None)"
    by (simp add: check_request_def runtime_env_def demo_runtime_def demo_genv_def)
  ultimately show ?thesis
    by (intro demo_like_accepted [where base = "''https://public''"]) (simp_all add: demo_checked demo_submits [OF c(2-4)] demo_safe [OF c(1)])
qed

text \<open>A request with its image in the body: the moderation service is asked about the staged copy.\<close>

lemma demo_runtime_image_accepted:
  assumes c: "vc_moderation_mode c = Remote" "vc_vast_submit_transport c = TRabbitMq" "vc_rabbitmq_amqps_urls c = [''amqps://mq'']"
    "vc_rabbitmq_tls_ca_cert_pem_b64 c = None"
  shows "\<exists>resp q w1. generate_inner (runtime_env demo_runtime demo_vars [] c) cfg
      (demo_generate (Some (Base64Image ''data'' ''image/png''))) ([], demo_world) = (Inr resp, q, w1)"
proof -
  let ?env = "runtime_env demo_runtime demo_vars [] c" and ?r = "demo_generate (Some (Base64Image ''data'' ''image/png''))"
  have env: "ge_public_base ?env = Some ''https://public''" "ge_upload_url ?env = (\<lambda>base user. Inr (''vid'', base))"
    "ge_unbase64 ?env = Inr" "ge_share_url ?env = Some ''https://share/yral-sfw''" "ge_tempfile ?env = None"
    "ge_stage_timeout ?env = None" "bk_uplink (ge_bucket ?env) = (\<lambda>_. Exited True [])"
    by (simp_all add: runtime_env_def demo_runtime_def demo_genv_def demo_vars_def)
  have chk: "check_request ?env ?r = Inr ?r"
    using demo_checked by (simp add: check_request_def runtime_env_def demo_runtime_def demo_genv_def)
  note safe = demo_safe [OF c(1)] and submits = demo_submits [OF c(2-4)]
  obtain res q w1 where run: "generate_inner ?env cfg ?r ([], demo_world) = (res, q, w1)" by (metis prod_cases3)
  have "\<exists>x. res = Inr x"
    using run
    by (auto simp: generate_inner_def run_simps map_left_def pre_stage_def run_moderation_def env chk safe submits
        record_pending_run late_stage_def submit_recorded_def or_fail_def workflow_json_def
        compute_request_fingerprint_def compute_image_identity_def fingerprint_input_of_def stage_image_def uplink_cp_def
        Let_def put_staged_def reserve_upload_destination_def submit_vast_def is_accepted_status_def demo_generate_simps
        split_staged_def)
  with run show ?thesis by blast
qed


theorem accepted_job_is_queued_witness:
  "\<exists>c resp q w1 vq us m. generate_inner (runtime_env demo_runtime demo_vars [] c) demo_cfg (demo_generate None) ([], demo_world) = (Inr resp, q, w1) \<and>
     snd (runtime_submit demo_submit_env demo_vars c (\<lambda>_ _. good_broker) vq []) = map (\<lambda>u. (u, m)) us \<and> us \<noteq> []"
proof -
  from demo_config obtain c where c: "from_env demo_vars = Inr c" "vc_moderation_mode c = Remote" "vc_vast_submit_transport c = TRabbitMq"
    "vc_rabbitmq_amqps_urls c = [''amqps://mq'']" "vc_rabbitmq_tls_ca_cert_pem_b64 c = None" by blast
  from demo_runtime_accepted [OF c(2-5)] obtain resp q w1 where
    run: "generate_inner (runtime_env demo_runtime demo_vars [] c) demo_cfg (demo_generate None) ([], demo_world) = (Inr resp, q, w1)" by blast
  have "\<forall>i u. confirms_ok (rt_brokers demo_runtime i u)" by (simp add: demo_runtime_def)
  from accepted_job_is_queued [OF run c(3) this] run show ?thesis by (auto simp: demo_runtime_def)
qed

theorem identity_reaches_draft_witness:
  "\<exists>c cenv q w1 vq blob res. (\<exists>resp. generate_inner (runtime_env demo_runtime demo_vars [] c) demo_cfg (demo_generate None) ([], demo_world) =
       (Inr resp, q, w1)) \<and> gw_sent w1 = [SentSubmit vq] \<and> ud_encrypted_identity (vq_upload_destination vq) = Some blob \<and>
     create_draft cenv \<lparr>dq_request_id = ''req-1'', dq_request_key = \<lparr>rk_principal = ''alice'', rk_counter = 1\<rparr>, dq_user_principal = ''alice'',
       dq_video_id = ''vid'', dq_object_key = ''vid.mp4'', dq_encrypted_identity = Some blob\<rparr> ([], demo_world) =
       (res, [], demo_world\<lparr>gw_sent := [SentDraft ''wire'' \<lparr>pd_id = ''vid'', pd_video_uid = ''vid'', pd_creator_principal = ''alice''\<rparr>]\<rparr>)"
proof -
  from demo_config obtain c where c: "from_env demo_vars = Inr c" "vc_moderation_mode c = Remote" "vc_vast_submit_transport c = TRabbitMq"
    "vc_rabbitmq_amqps_urls c = [''amqps://mq'']" "vc_rabbitmq_tls_ca_cert_pem_b64 c = None" by blast
  let ?env = "runtime_env demo_runtime demo_vars [] c" and ?blob = "replicate 12 CHR ''n'' @ ''wire''"
  from demo_runtime_accepted [OF c(2-5)] obtain resp q w1 where
    run: "generate_inner ?env demo_cfg (demo_generate None) ([], demo_world) = (Inr resp, q, w1)" by blast
  have wire: "gr_identity_wire (demo_generate None) = ''wire''" by (simp add: demo_generate_def generate_body.defs generate_request.defs)
  from accepted_submission [OF run] obtain vq where vq: "gw_sent w1 = gw_sent demo_world @ [SentSubmit vq]"
    "ud_encrypted_identity (vq_upload_destination vq) = Some ?blob"
    using demo_sealed by (auto simp: runtime_env_def demo_runtime_def wire)
  from c(1) obtain cenv where cenv: "runtime_complete demo_runtime demo_vars = Inr cenv" "ce_principal cenv = Inr"
    by (simp add: runtime_complete_def demo_runtime_def demo_cenv_def)
  let ?dq = "\<lparr>dq_request_id = ''req-1'', dq_request_key = \<lparr>rk_principal = ''alice'', rk_counter = 1\<rparr>, dq_user_principal = ''alice'',
       dq_video_id = ''vid'', dq_object_key = ''vid.mp4'', dq_encrypted_identity = Some ?blob\<rparr>"
  have sent: "gw_sent demo_world = []" by (simp add: demo_world_def)
  have "\<exists>res. create_draft cenv ?dq ([], demo_world) = (res, [], demo_world\<lparr>gw_sent := gw_sent demo_world @
      [SentDraft (gr_identity_wire (demo_generate None)) \<lparr>pd_id = dq_video_id ?dq, pd_video_uid = dq_video_id ?dq, pd_creator_principal = ''alice''\<rparr>]\<rparr>)"
    by (rule identity_reaches_draft [OF run vq(1) _ vq(2) _ _ cenv(1)])
      (simp_all add: demo_runtime_def demo_cipher_ok cenv(2))
  then obtain res where "create_draft cenv ?dq ([], demo_world) = (res, [], demo_world\<lparr>gw_sent :=
      [SentDraft ''wire'' \<lparr>pd_id = ''vid'', pd_video_uid = ''vid'', pd_creator_principal = ''alice''\<rparr>]\<rparr>)"
    by (auto simp: wire sent)
  moreover have "gw_sent w1 = [SentSubmit vq]" using vq(1) sent by simp
  ultimately show ?thesis using run vq(2) by blast
qed

end
