(* ===== verification/Videogen_Publish.thy ===== *)
theory Videogen_Publish
  imports Videogen_Runtime User_Upload_Props
begin

text \<open>
  Video generation and user uploads run in one process: a submission reserves its upload address as a user would, the GPU
  worker posts its video to that address, and the callback registers the draft through the handler that registers the
  posts of users. This theory puts the two components together.
\<close>

section \<open>What the components use of each other\<close>

text \<open>The address of an upload, as a submission reserves it.\<close>

definition upload_address :: "upload_env \<Rightarrow> string \<Rightarrow> string \<Rightarrow> string + string \<times> string" where
  "upload_address env base user = (case get_upload_url_core env base user of
       Inl e \<Rightarrow> Inl (app_error_text e) | Inr a \<Rightarrow> Inr (ur_video_id a, ur_upload_url a))"

text \<open>The registration of a draft.\<close>

definition draft_post :: "post_details \<Rightarrow> frontend_post" where
  "draft_post d = \<lparr>fp_id = pd_id d, fp_video_uid = pd_video_uid d, fp_creator = pd_creator_principal d,
     fp_status = DraftPost, fp_hashtags = [], fp_description = []\<rparr>"

definition draft_update :: "string \<Rightarrow> post_details \<Rightarrow> update_metadata_request" where
  "draft_update wire d = \<lparr>um_wire = wire, um_meta = [], um_post = draft_post d\<rparr>"

text \<open>The answer of the registration, given to the callback, and its effects, in the order of the calls.\<close>

definition draft_client :: "upload_env \<Rightarrow> fault_plan \<times> up_world \<Rightarrow> string \<Rightarrow> post_details \<Rightarrow> string + unit" where
  "draft_client env s wire d = map_left app_error_text (fst (update_metadata_impl env (draft_update wire d) s))"

fun serve_drafts :: "upload_env \<Rightarrow> sent list \<Rightarrow> fault_plan \<times> up_world \<Rightarrow> fault_plan \<times> up_world" where
  "serve_drafts env [] s = s"
| "serve_drafts env (SentDraft wire d # cs) s = serve_drafts env cs (snd (update_metadata_impl env (draft_update wire d) s))"
| "serve_drafts env (_ # cs) s = serve_drafts env cs s"

definition complete_in_service :: "upload_env \<Rightarrow> completion_env \<Rightarrow> headers \<Rightarrow> string \<Rightarrow> fault_plan \<times> vg_world \<Rightarrow>
    fault_plan \<times> up_world \<Rightarrow> (completion_error + nat) \<times> (fault_plan \<times> vg_world) \<times> (fault_plan \<times> up_world)" where
  "complete_in_service env cenv headers body s u =
     (case complete_video (Inr (cenv\<lparr>ce_update_metadata := draft_client env u\<rparr>)) headers body s of
       (r, s') \<Rightarrow> (r, s', serve_drafts env (drop (length (gw_sent (snd s))) (gw_sent (snd s'))) u))"

section \<open>The job of an accepted generation\<close>

lemma accepted_job:
  assumes "generate_inner env cfg req ([], w) = (Inr resp, q, w1)" and "gw_sent w1 = gw_sent w @ [SentSubmit vq]"
  shows "\<exists>d. gp_request_key resp = vq_request_key vq \<and> vq_user_principal vq = gr_identity_principal req \<and>
     rk_principal (vq_request_key vq) = gr_identity_principal req \<and>
     reserve_upload_destination env (gr_identity_principal req) = Inr d \<and>
     vq_upload_destination vq = d\<lparr>ud_encrypted_identity := ge_encrypt env (gr_identity_wire req)\<rparr>"
proof -
  from accepted_submission [OF assms(1)] assms(2) have "gp_request_key resp = vq_request_key vq" by auto
  moreover from accepted_cases [OF assms(1)] obtain r where r: "check_request env req = Inr r"
    "gp_request_key resp = key_of r (gw_db w)" by blast
  moreover from emitsD [OF emits_generate_inner assms(1)] assms(2) r(1) have "job_for env r (SentSubmit vq)" by auto
  moreover have "gb_user_id r = gr_identity_principal req" using checked [OF r(1)] by simp
  moreover have "rk_principal (gp_request_key resp) = gb_user_id r" by (simp add: r(2) key_of_def)
  ultimately show ?thesis using check_request_wire [OF r(1)] by (auto simp: job_for_def)
qed

lemma reserved_address:
  assumes "reserve_upload_destination env user = Inr d" and "ge_upload_url env = upload_address uenv"
  shows "\<exists>base. ge_public_base env = Some base \<and> ud_video_id d = ue_video_id uenv \<and>
     ud_upload_url d = build_upload_url uenv base user (ue_video_id uenv) False"
  using assms
  by (auto simp: reserve_upload_destination_def upload_address_def get_upload_url_core_def split: option.splits sum.splits)

section \<open>The worker\<close>

text \<open>The callback of a worker that has done its job: what the service sent it, word for word.\<close>

definition echo :: "vast_request \<Rightarrow> complete_request \<Rightarrow> bool" where
  "echo vq creq \<longleftrightarrow> cq_status creq = CSuccess \<and> cq_request_key creq = vq_request_key vq \<and>
     cq_user_principal creq = vq_user_principal vq \<and> cq_video_id creq = Some (ud_video_id (vq_upload_destination vq)) \<and>
     cq_object_key creq = Some (ud_object_key (vq_upload_destination vq)) \<and>
     cq_bucket_url creq = ud_bucket_url (vq_upload_destination vq) \<and>
     cq_encrypted_identity creq = ud_encrypted_identity (vq_upload_destination vq)"

lemma worker_upload:
  assumes "service_urls env" and "find_file parts = Inr (Some file)"
    and "extract_thumbnail (re_ffmpeg (ue_raw env)) (re_tmp (ue_raw env)) (ensure_uploaded_video_faststart (ue_raw env) file) = Inr thumb"
  shows "\<exists>u1. serve_raw env (build_upload_url env base user video False)
       (\<lambda>prm. handler_raw_upload_initial (ue_raw env) prm parts) ([], u) = (Inr (200, pending_json), [], u1) \<and>
     uw_calls u1 = uw_calls u \<and> in_storj (ue_raw env) \<lparr>rp_user = user, rp_video = video, rp_nsfw = False\<rparr>
       (ensure_uploaded_video_faststart (ue_raw env) file) thumb (uw_store u1)"
proof -
  let ?m = "handler_raw_upload_initial (ue_raw env) \<lparr>rp_user = user, rp_video = video, rp_nsfw = False\<rparr> parts"
  obtain s where s: "?m ([], uw_store u) = (Inr pending_json, [], s)"
    "published (ue_raw env) \<lparr>rp_user = user, rp_video = video, rp_nsfw = False\<rparr> (Some pending_expiry) (pending_metadata (ue_raw env))
       (ensure_uploaded_video_faststart (ue_raw env) file) thumb s"
    using upload_run [OF assms(2,3)] by blast
  show ?thesis
    by (intro exI [of _ "u\<lparr>uw_store := s\<rparr>"])
      (simp add: build_upload_url_def serve_raw_url [OF assms(1)] run_raw_answer [of ?m, OF s(1)] published_in_storj [OF s(2)])
qed

section \<open>From the prompt to the draft\<close>

lemma verify_hmac_update: "verify_hmac (cenv\<lparr>ce_update_metadata := f\<rparr>) headers body path = verify_hmac cenv headers body path"
  by (simp add: verify_hmac_def hmac_registry_def cong: if_cong option.case_cong)

text \<open>A sealed identity is what the callback of a service with the same secret opens.\<close>

lemma job_identity_opens:
  assumes "runtime_complete rt' vars' = Inr cenv" and "rt_cipher rt' = rt_cipher rt"
    and "vars' ''INTERNAL_ENCRYPTION_SECRET'' = vars ''INTERNAL_ENCRYPTION_SECRET''"
    and "cipher_ok (rt_cipher rt)" and "length (rt_nonce rt) = 12"
    and "ge_encrypt (runtime_env rt vars qs c) wire = Some blob"
  shows "ce_decrypt cenv blob = Inr wire"
proof -
  have "seal_identity (rt_cipher rt) vars (rt_nonce rt) wire = Some blob" using assms(6) by (simp add: runtime_env_def)
  moreover have "crypto_from_env vars' = crypto_from_env vars" using assms(3) by (simp add: crypto_from_env_def INTERNAL_ENCRYPTION_SECRET_ENV_def)
  ultimately show ?thesis
    using assms(1,2) seal_open [OF assms(4,5)] by (auto simp: runtime_complete_def open_identity_def split: sum.splits)
qed

text \<open>A callback whose draft is registered.\<close>

lemma draft_registered:
  assumes "dq_encrypted_identity dq = Some blob" and "ce_decrypt cenv blob = Inr wire" and "ce_principal cenv (dq_user_principal dq) = Inr user"
    and "d = \<lparr>pd_id = dq_video_id dq, pd_video_uid = dq_video_id dq, pd_creator_principal = user\<rparr>"
    and "update_metadata_impl env (draft_update wire d) s = (Inr (), s')"
  shows "create_draft (cenv\<lparr>ce_update_metadata := draft_client env s\<rparr>) dq (p, w) = (Inr (), p, w\<lparr>gw_sent := gw_sent w @ [SentDraft wire d]\<rparr>)"
  using assms by (simp add: create_draft_def draft_post_details_def run_bnd run_send draft_client_def map_left_def)

text \<open>C12. From the prompt to the draft, without faults. An accepted generation is pending under the key of its job whatever
  other users do meanwhile. The address in its job takes the video of the worker, and the signed callback that echoes the
  job is answered with 200 and leaves: the video and its thumbnail in every store without an expiry, under the details of
  the post; exactly one post registered, a draft of the user that asked for the generation; the video in the master table; and the
  request closed with the video and its url.\<close>

theorem generation_becomes_draft:
  assumes gen: "generate_inner (runtime_env rt vars qs c) cfg req ([], w) = (Inr resp, q, w1)"
    and job: "gw_sent w1 = gw_sent w @ [SentSubmit vq]" "user = gr_identity_principal req" "wire = gr_identity_wire req"
      "dest = vq_upload_destination vq" "ud_encrypted_identity dest = Some blob" "ud_bucket_url dest = Some url"
      "resolve_source url = Inr src"
    and store: "rows_ok (gw_db w)" "0 \<le> request_seq (gw_db w)" "request_seq (gw_db w) < 2 ^ 63"
      "store_run users (gw_db w1) (gw_db w2)" "user \<notin> set users"
    and crypto: "cipher_ok (rt_cipher rt)" "length (rt_nonce rt) = 12" "rt_cipher rt' = rt_cipher rt"
      "vars' ''INTERNAL_ENCRYPTION_SECRET'' = vars ''INTERNAL_ENCRYPTION_SECRET''"
    and worker: "find_file parts = Inr (Some file)" "video = ensure_uploaded_video_faststart (ue_raw env) file"
      "extract_thumbnail (re_ffmpeg (ue_raw env)) (re_tmp (ue_raw env)) video = Inr thumb"
    and callback: "runtime_complete rt' vars' = Inr cenv" "verify_hmac cenv headers body ''/api/v2/videogen/complete'' = Inr ()"
      "ce_parse cenv body = Inr creq" "echo vq creq"
    and uploads: "service_urls env" "ue_hop env = HopAnswered" "ue_public_base env = vars ''PUBLIC_BASE_URL''"
      "ge_upload_url (rt_generate rt) = upload_address env" "ce_principal cenv user = Inr user" "ue_verify env wire = Inr user"
    and post: "post = draft_post \<lparr>pd_id = ud_video_id dest, pd_video_uid = ud_video_id dest, pd_creator_principal = user\<rparr>"
      "ue_to_string env (request_details_json (from_frontend post)) = Inr details" "ue_add_post env post = Inr (Inr ())"
  shows "\<exists>r u1 u2 w4.
     row_of vr_counter (request_seq (gw_db w)) (videogen_requests (gw_db w2)) = Some r \<and>
     vr_status r = RPending \<and> vr_principal r = user \<and>
     serve_raw env (ud_upload_url dest) (\<lambda>prm. handler_raw_upload_initial (ue_raw env) prm parts) ([], u) =
       ((Inr (200, pending_json) :: unit + nat \<times> json), [], u1) \<and>
     complete_in_service env cenv headers body ([], w2) ([], u1) = (Inr 200, ([], w4), ([], u2)) \<and>
     published (ue_raw env) \<lparr>rp_user = user, rp_video = ud_video_id dest, rp_nsfw = False\<rparr> None [(''post_details'', details)]
       video thumb (uw_store u2) \<and>
     uw_calls u2 = uw_calls u @ AddPost post # best_effort_calls env post \<and>
     in_master (ud_video_id dest) (gw_db w4) \<and>
     row_of vr_counter (request_seq (gw_db w)) (videogen_requests (gw_db w4)) = Some (r\<lparr>vr_status := RComplete,
       vr_video_id := Some (ud_video_id dest), vr_bucket_url := Some url, vr_updated_at := now_us (gw_db w2)\<rparr>)"
proof -
  let ?env = "runtime_env rt vars qs c" and ?v = "ud_video_id dest"
  from accepted_job [OF gen job(1)] obtain d where key: "gp_request_key resp = vq_request_key vq"
    and who: "vq_user_principal vq = user" "rk_principal (vq_request_key vq) = user"
    and d: "reserve_upload_destination ?env user = Inr d" "dest = d\<lparr>ud_encrypted_identity := ge_encrypt ?env wire\<rparr>"
    unfolding job(2-4) by blast
  have "ge_upload_url ?env = upload_address env" using uploads(4) by (simp add: runtime_env_def)
  from reserved_address [OF d(1) this] obtain base where base: "vars ''PUBLIC_BASE_URL'' = Some base"
    and vid: "ue_video_id env = ?v" and addr: "ud_upload_url dest = build_upload_url env base user ?v False"
    by (auto simp: d(2) runtime_env_def)
  from worker_upload [OF uploads(1) worker(1) worker(3) [unfolded worker(2)], of base user ?v u] obtain u1 where
    up: "serve_raw env (ud_upload_url dest) (\<lambda>prm. handler_raw_upload_initial (ue_raw env) prm parts) ([], u) =
       ((Inr (200, pending_json) :: unit + nat \<times> json), [], u1)" "uw_calls u1 = uw_calls u"
    "in_storj (ue_raw env) \<lparr>rp_user = user, rp_video = ?v, rp_nsfw = False\<rparr> video thumb (uw_store u1)"
    unfolding addr worker(2) by blast
  let ?details = "\<lparr>pd_id = ?v, pd_video_uid = ?v, pd_creator_principal = user\<rparr>"
  have p: "fp_creator post = user" "fp_id post = ?v" by (simp_all add: post(1) draft_post_def)
  from metadata_run [OF uploads(1,2) _ _ post(2,3), of base wire video thumb u1 "[]"] up(3) base uploads(3,6) obtain u2 where
    meta: "update_metadata_impl env (draft_update wire ?details) ([], u1) = (Inr (), [], u2)"
    "published (ue_raw env) \<lparr>rp_user = user, rp_video = ?v, rp_nsfw = False\<rparr> None [(''post_details'', details)] video thumb (uw_store u2)"
    "uw_calls u2 = uw_calls u1 @ AddPost post # best_effort_calls env post"
    by (auto simp: p draft_update_def key_order_def post(1) [symmetric])
  let ?cenv = "cenv\<lparr>ce_update_metadata := draft_client env ([], u1)\<rparr>"
  let ?dq = "\<lparr>dq_request_id = cq_request_id creq, dq_request_key = cq_request_key creq, dq_user_principal = cq_user_principal creq,
    dq_video_id = ?v, dq_object_key = the (cq_object_key creq), dq_encrypted_identity = cq_encrypted_identity creq\<rparr>"
  have "ce_decrypt cenv blob = Inr wire"
    using job_identity_opens [where vars = vars, OF callback(1) crypto(3,4,1,2)] job(5) by (simp add: d(2))
  with callback(4) job(4,5) who have draft: "create_draft ?cenv ?dq ([], w2) =
      (Inr (), [], w2\<lparr>gw_sent := gw_sent w2 @ [SentDraft wire ?details]\<rparr>)"
    by (intro draft_registered [where user = user and blob = blob, OF _ _ _ _ meta(1)]) (simp_all add: echo_def uploads(5))
  have signed: "verify_hmac ?cenv headers body ''/api/v2/videogen/complete'' = Inr ()" "ce_parse ?cenv body = Inr creq"
    using callback(2,3) by (simp_all add: verify_hmac_update)
  have wf: "cq_request_key creq = gp_request_key resp" "wf_success creq ?v url"
    using callback(4) job(4,6) who key by (auto simp: echo_def wf_success_def)
  have "rk_principal (gp_request_key resp) \<notin> set users" using store(5) by (simp add: key who)
  from accepted_generation_completes [OF gen store(1-4) this signed wf job(7) draft] obtain r w4 where
    "row_of vr_counter (request_seq (gw_db w)) (videogen_requests (gw_db w2)) = Some r" "vr_status r = RPending"
    "vr_principal r = user" "complete_video (Inr ?cenv) headers body ([], w2) = (Inr 200, [], w4)"
    "gw_sent w4 = gw_sent w2 @ [SentDraft wire ?details]" "in_master ?v (gw_db w4)"
    "row_of vr_counter (request_seq (gw_db w)) (videogen_requests (gw_db w4)) = Some (r\<lparr>vr_status := RComplete,
       vr_video_id := Some ?v, vr_bucket_url := Some url, vr_updated_at := now_us (gw_db w2)\<rparr>)"
    by (auto simp: key who)
  with up meta show ?thesis
    by (intro exI [of _ r] exI [of _ u1] exI [of _ u2] exI [of _ w4]) (simp add: complete_in_service_def)
qed

section \<open>No completion without its draft\<close>

text \<open>The stages of a success callback, one after the other.\<close>

lemma success_stages:
  assumes "complete_video (Inr cenv) headers body (p, v) = (r, p', v')" and "gw_db v' \<noteq> gw_db v \<or> r = Inr 200"
    and "ce_parse cenv body = Inr creq" and "cq_status creq = CSuccess"
  shows "\<exists>vid key p1 v1. cq_video_id creq = Some vid \<and> cq_object_key creq = Some key \<and>
     create_draft cenv \<lparr>dq_request_id = cq_request_id creq, dq_request_key = cq_request_key creq,
       dq_user_principal = cq_user_principal creq, dq_video_id = vid, dq_object_key = key,
       dq_encrypted_identity = cq_encrypted_identity creq\<rparr> (p, v) = (Inr (), p1, v1) \<and> gw_sent v' = gw_sent v1"
  using assms
  by (auto simp: complete_video_def complete_with_dependencies_def run_simps map_left_def handle_success_completion_def
      required_def close_request_def remove_staged_opt_def remove_staged_def
      split: option.splits sum.splits prod.splits if_splits) (metis create_draft_db)+

lemma draft_effects:
  assumes "create_draft (cenv\<lparr>ce_update_metadata := draft_client env u\<rparr>) dq (p, v) = (Inr (), p1, v1)"
    and "dq_encrypted_identity dq = Some blob"
  shows "\<exists>wire user d. ce_decrypt cenv blob = Inr wire \<and> ce_principal cenv (dq_user_principal dq) = Inr user \<and>
     d = \<lparr>pd_id = dq_video_id dq, pd_video_uid = dq_video_id dq, pd_creator_principal = user\<rparr> \<and>
     gw_sent v1 = gw_sent v @ [SentDraft wire d] \<and> fst (update_metadata_impl env (draft_update wire d) u) = Inr ()"
  using assms
  by (auto simp: create_draft_def draft_post_details_def run_bnd run_send draft_client_def map_left_def split: sum.splits)

text \<open>C13. A success callback with an identity acts only after its draft: under any database faults and whatever fails in the
  upload stores, if it changes the database or is answered with 200, then the identity it carries was opened and
  verified as the user it names, a video and a thumbnail under that user and the video id are in every store without an
  expiry, and that draft, and no other post, was registered with the canister. What was published is what the
  finalisation fetched from the staged objects or found in its temporary files; where failing transfers leave nothing
  and no temporary file of the name was there before, it is exactly the staged video and its thumbnail. The service finds
  itself under its public address (\<open>service_urls\<close>).\<close>

theorem completion_waits_for_draft:
  assumes run: "complete_in_service env cenv headers body (p, v) (q, u) = (r, (p', v'), (q', u'))"
    and act: "gw_db v' \<noteq> gw_db v \<or> r = Inr 200"
    and callback: "ce_parse cenv body = Inr creq" "cq_status creq = CSuccess" "cq_encrypted_identity creq = Some blob"
    and urls: "service_urls env"
  shows "\<exists>wire user vid prm post meta data thumb cs. ce_decrypt cenv blob = Inr wire \<and> ce_principal cenv (cq_user_principal creq) = Inr user \<and>
     ue_verify env wire = Inr user \<and> cq_video_id creq = Some vid \<and> prm = \<lparr>rp_user = user, rp_video = vid, rp_nsfw = False\<rparr> \<and>
     post = draft_post \<lparr>pd_id = vid, pd_video_uid = vid, pd_creator_principal = user\<rparr> \<and>
     published (ue_raw env) prm None (key_order meta) data thumb (uw_store u') \<and>
     fetched_pair (ue_raw env) prm (uw_store u) data thumb \<and>
     (clean_failures (ue_raw env) \<and> no_temp_files prm (uw_store u) \<longrightarrow> in_storj (ue_raw env) prm data thumb (uw_store u)) \<and>
     uw_calls u' = uw_calls u @ AddPost post # cs \<and> (\<forall>other. AddPost other \<notin> set cs)"
proof -
  let ?cenv = "cenv\<lparr>ce_update_metadata := draft_client env (q, u)\<rparr>"
  from run have fin: "complete_video (Inr ?cenv) headers body (p, v) = (r, p', v')"
    and served: "(q', u') = serve_drafts env (drop (length (gw_sent v)) (gw_sent v')) (q, u)"
    by (auto simp: complete_in_service_def split: prod.splits)
  from callback(1) have "ce_parse ?cenv body = Inr creq" by simp
  from success_stages [OF fin act this callback(2)] obtain vid key p1 v1 where vid: "cq_video_id creq = Some vid"
    and draft: "create_draft ?cenv \<lparr>dq_request_id = cq_request_id creq, dq_request_key = cq_request_key creq,
       dq_user_principal = cq_user_principal creq, dq_video_id = vid, dq_object_key = key,
       dq_encrypted_identity = cq_encrypted_identity creq\<rparr> (p, v) = (Inr (), p1, v1)" and sent: "gw_sent v' = gw_sent v1" by blast
  from draft_effects [OF draft] callback(3) obtain wire user d where
    who: "ce_decrypt cenv blob = Inr wire" "ce_principal cenv (cq_user_principal creq) = Inr user"
    and d: "d = \<lparr>pd_id = vid, pd_video_uid = vid, pd_creator_principal = user\<rparr>" "gw_sent v1 = gw_sent v @ [SentDraft wire d]"
    and ok: "fst (update_metadata_impl env (draft_update wire d) (q, u)) = Inr ()" by auto
  have reg: "update_metadata_impl env (draft_update wire d) (q, u) = (Inr (), q', u')"
    using served ok by (simp add: sent d(2) prod_eq_iff)
  have post: "um_wire (draft_update wire d) = wire" "um_post (draft_update wire d) = draft_post d" "fp_creator (draft_post d) = user"
    "fp_id (draft_post d) = vid" by (simp_all add: draft_update_def draft_post_def d(1))
  from metadata_sound [OF reg _ urls refl] obtain meta data thumb cs where
    "ue_verify env wire = Inr user" "published (ue_raw env) \<lparr>rp_user = user, rp_video = vid, rp_nsfw = False\<rparr> None (key_order meta) data thumb (uw_store u')"
    "fetched_pair (ue_raw env) \<lparr>rp_user = user, rp_video = vid, rp_nsfw = False\<rparr> (uw_store u) data thumb"
    "uw_calls u' = uw_calls u @ AddPost (draft_post d) # cs" "\<forall>other. AddPost other \<notin> set cs"
    unfolding post by blast
  with who vid d(1) fetched_pair_clean show ?thesis by blast
qed

section \<open>Witnesses\<close>

definition publish_vars :: vars where
  "publish_vars = demo_vars(''SFW_SHARE_EU1_URL'' := Some ''https://s/yral-sfw'', ''VIDEOGEN_SERVICE_AUTH_TOKEN'' := Some ''secret'')"

definition publish_env :: upload_env where
  "publish_env = demo_upload\<lparr>ue_verify := (\<lambda>_. Inr ''alice''), ue_public_base := Some ''https://public''\<rparr>"

definition publish_runtime :: "complete_request \<Rightarrow> runtime" where
  "publish_runtime creq = demo_runtime\<lparr>rt_generate := (rt_generate demo_runtime)\<lparr>ge_upload_url := upload_address publish_env\<rparr>,
     rt_complete := demo_cenv\<lparr>ce_now := 900, ce_parse := (\<lambda>_. Inr creq)\<rparr>\<rparr>"

lemma publish_config: "\<exists>c. from_env publish_vars = Inr c \<and> vc_moderation_mode c = Remote \<and> vc_vast_submit_transport c = TRabbitMq \<and>
    vc_rabbitmq_amqps_urls c = [''amqps://mq''] \<and> vc_rabbitmq_tls_ca_cert_pem_b64 c = None"
  by (simp add: from_env_def and_then_def read_u64_def var_or_def parse_transport_def parse_moderation_mode_def
      validate_for_environment_def trim_samples lower_samples publish_vars_def demo_vars_def amqps_urls_def)

lemma publish_address: "upload_address publish_env base ''alice'' = Inr (''b-c'', build_upload_url publish_env base ''alice'' ''b-c'' False)"
  by (simp add: upload_address_def get_upload_url_core_def publish_env_def demo_upload_def)

lemma publish_service_urls: "service_urls publish_env"
  using demo_query_codec by (simp add: service_urls_def publish_env_def demo_upload_def)

lemma publish_accepted:
  assumes c: "vc_moderation_mode c = Remote" "vc_vast_submit_transport c = TRabbitMq" "vc_rabbitmq_amqps_urls c = [''amqps://mq'']"
    "vc_rabbitmq_tls_ca_cert_pem_b64 c = None"
  shows "\<exists>resp q w1. generate_inner (runtime_env (publish_runtime creq) publish_vars [] c) cfg (demo_generate None) ([], Generate_Props.demo_world) =
    (Inr resp, q, w1)"
proof -
  let ?env = "runtime_env (publish_runtime creq) publish_vars [] c"
  have env: "ge_public_base ?env = Some ''https://public''" "ge_upload_url ?env = upload_address publish_env"
    "ge_mode ?env = Remote" "ge_secret ?env = Some ''hmac''" "ge_detect ?env = (\<lambda>_ _ _. Reply 200 [] (Inr (JObj [])))"
    "ge_principal ?env = Inr"
    using c(1) by (simp_all add: runtime_env_def publish_runtime_def demo_runtime_def demo_genv_def publish_vars_def demo_vars_def)
  have "check_request ?env (demo_generate None) = check_request demo_genv (demo_generate None)"
    by (simp add: check_request_def env demo_genv_def)
  moreover have "ge_submit ?env vq = Inr (vq_request_id vq, ''queued'')" for vq
    using c
    by (simp add: runtime_env_def publish_runtime_def demo_runtime_def demo_submit_env_def runtime_submit_def submit_vast_rabbitmq_def
        publish_def envelope_of_def publish_config_of_def try_publish_to_url_def do_publish_def open_demo submit_result_def)
  moreover have "moderate ?env prompt TextOnly = Inr Safe" for prompt
    by (simp add: moderate_def moderate_once_def is_nsfw_def MODERATION_MAX_ATTEMPTS_def env upt_rec [of "Suc 0"])
  ultimately show ?thesis
    by (intro demo_like_accepted [where base = "''https://public''"]) (simp_all add: env publish_address demo_checked)
qed

lemma publish_callback:
  "\<exists>cenv. runtime_complete (publish_runtime creq) publish_vars = Inr cenv \<and> ce_parse cenv = (\<lambda>_. Inr creq) \<and> ce_principal cenv = Inr \<and>
     verify_hmac cenv demo_headers ''body'' ''/api/v2/videogen/complete'' = Inr ()"
proof -
  from publish_config obtain c where c: "from_env publish_vars = Inr c" by blast
  let ?cenv = "(rt_complete (publish_runtime creq))\<lparr>ce_token := publish_vars ''VIDEOGEN_SERVICE_AUTH_TOKEN'',
     ce_keys := publish_vars ''VIDEOGEN_COMPLETION_HMAC_KEYS'', ce_skew := as_i64 (vc_completion_hmac_skew_secs c),
     ce_release := release_from_env (publish_vars ''VIDEOGEN_UPLOAD_DESTINATION_RELEASE_URL'') (rt_post_release (publish_runtime creq)),
     ce_decrypt := open_identity (rt_cipher (publish_runtime creq)) publish_vars\<rparr>"
  have "runtime_complete (publish_runtime creq) publish_vars = Inr ?cenv" by (simp add: runtime_complete_def c)
  moreover have "ce_parse ?cenv = (\<lambda>_. Inr creq)" "ce_principal ?cenv = Inr" by (simp_all add: publish_runtime_def demo_cenv_def)
  moreover have "verify_hmac ?cenv demo_headers ''body'' ''/api/v2/videogen/complete'' = Inr ()"
  proof -
    have "parse_i64 ''900'' = Some 900" by code_simp
    moreover have "strip_prefix ''HMAC-SHA256 '' (''HMAC-SHA256 '' @ t) = Some t" for t by simp
    moreover have "hmac_registry ?cenv = map_left hmac_error_text (from_service_token ''secret'')"
      by (simp add: hmac_registry_def publish_vars_def from_service_token_def map_left_def)
    ultimately show ?thesis
      by (simp add: verify_hmac_def demo_headers_def and_then_def header_or_def publish_runtime_def demo_cenv_def from_service_token_def
          map_left_def verify_completion_signature_def registry_get_def abs_diff_def del: strip_prefix_Some append.simps)
  qed
  ultimately show ?thesis by blast
qed

lemma publish_sealed: "seal_identity demo_cipher publish_vars (replicate 12 CHR ''n'') ''wire'' = Some (replicate 12 CHR ''n'' @ ''wire'')"
  by (simp add: seal_identity_def crypto_from_env_def INTERNAL_ENCRYPTION_SECRET_ENV_def publish_vars_def demo_vars_def from_secret_def
      encrypt_def demo_cipher_def new_from_slice_def and_then_def)

lemma publish_source: "resolve_source ''https://s/yral-sfw/alice/b-c.mp4'' =
    Inr \<lparr>vs_storage_provider = ''storj'', vs_bucket = ''yral-sfw'', vs_object_key = ''alice/b-c.mp4''\<rparr>"
  by code_simp

theorem generation_becomes_draft_witness:
  "\<exists>c resp q w1 creq cenv u1 u2 w4. generate_inner (runtime_env (publish_runtime demo_callback) publish_vars [] c) demo_cfg (demo_generate None)
       ([], Generate_Props.demo_world) = (Inr resp, q, w1) \<and>
     complete_in_service publish_env cenv demo_headers ''body'' ([], w1) ([], u1) = (Inr 200, ([], w4), ([], u2)) \<and>
     in_master ''b-c'' (gw_db w4) \<and> ce_parse cenv ''body'' = Inr creq \<and>
     AddPost (draft_post \<lparr>pd_id = ''b-c'', pd_video_uid = ''b-c'', pd_creator_principal = ''alice''\<rparr>) \<in> set (uw_calls u2)"
proof -
  from publish_config obtain c where c: "from_env publish_vars = Inr c" "vc_moderation_mode c = Remote" "vc_vast_submit_transport c = TRabbitMq"
    "vc_rabbitmq_amqps_urls c = [''amqps://mq'']" "vc_rabbitmq_tls_ca_cert_pem_b64 c = None" by blast
  let ?env = "runtime_env (publish_runtime demo_callback) publish_vars [] c" and ?blob = "replicate 12 CHR ''n'' @ ''wire''"
  from publish_accepted [OF c(2-5)] obtain resp q w1 where
    run: "generate_inner ?env demo_cfg (demo_generate None) ([], Generate_Props.demo_world) = (Inr resp, q, w1)" by blast
  have wire: "gr_identity_wire (demo_generate None) = ''wire''" "gr_identity_principal (demo_generate None) = ''alice''"
    by (simp_all add: demo_generate_def generate_body.defs generate_request.defs)
  from accepted_submission [OF run] obtain vq where vq: "gw_sent w1 = gw_sent Generate_Props.demo_world @ [SentSubmit vq]" by blast
  have seal: "ge_encrypt ?env ''wire'' = Some ?blob"
    using publish_sealed by (simp add: runtime_env_def publish_runtime_def demo_runtime_def)
  from accepted_job [OF run vq] obtain d where res: "reserve_upload_destination ?env ''alice'' = Inr d"
    and dest: "vq_upload_destination vq = d\<lparr>ud_encrypted_identity := Some ?blob\<rparr>" by (auto simp: wire seal)
  have "ge_upload_url ?env = upload_address publish_env" "ge_public_base ?env = Some ''https://public''"
    "ge_share_url ?env = Some ''https://s/yral-sfw''"
    by (simp_all add: runtime_env_def publish_runtime_def publish_vars_def demo_vars_def)
  with res have d: "ud_video_id d = ''b-c''" "ud_bucket_url d = Some ''https://s/yral-sfw/alice/b-c.mp4''"
    by (auto simp: reserve_upload_destination_def publish_address)
  define creq where "creq = demo_callback\<lparr>cq_request_key := vq_request_key vq, cq_user_principal := vq_user_principal vq,
     cq_video_id := Some ''b-c'', cq_object_key := Some (ud_object_key d), cq_bucket_url := ud_bucket_url d, cq_encrypted_identity := Some ?blob\<rparr>"
  have echo: "echo vq creq" by (simp add: echo_def creq_def dest d demo_callback_def)
  from publish_callback [of creq] obtain cenv where cenv: "runtime_complete (publish_runtime creq) publish_vars = Inr cenv"
    "ce_parse cenv = (\<lambda>_. Inr creq)" "ce_principal cenv = Inr" "verify_hmac cenv demo_headers ''body'' ''/api/v2/videogen/complete'' = Inr ()" by blast
  have store: "rows_ok (gw_db Generate_Props.demo_world)" "0 \<le> request_seq (gw_db Generate_Props.demo_world)" "request_seq (gw_db Generate_Props.demo_world) < 2 ^ 63"
    using rows_ok_empty by (simp_all add: Generate_Props.demo_world_def) (simp_all add: empty_db_def)
  have thumb: "extract_thumbnail (re_ffmpeg Raw_Props.demo_env) (re_tmp Raw_Props.demo_env) (ensure_uploaded_video_faststart Raw_Props.demo_env ''video'') = Inr ''png''"
    by (simp add: Raw_Props.demo_env_def extract_thumbnail_def extract_thumbnail_with_seek_def extract_thumbnail_from_video_path_def)
  have raw: "ue_raw publish_env = Raw_Props.demo_env" by (simp add: publish_env_def demo_upload_def)
  have rt: "rt_cipher (publish_runtime r) = demo_cipher" "length (rt_nonce (publish_runtime r)) = 12"
    "ge_upload_url (rt_generate (publish_runtime r)) = upload_address publish_env" for r
    by (simp_all add: publish_runtime_def demo_runtime_def)
  have up: "ue_hop publish_env = HopAnswered" "ue_public_base publish_env = publish_vars ''PUBLIC_BASE_URL''"
    "ue_verify publish_env ''wire'' = Inr ''alice''" "\<And>j. ue_to_string publish_env j = Inr ''{}''" "\<And>p. ue_add_post publish_env p = Inr (Inr ())"
    by (simp_all add: publish_env_def demo_upload_def publish_vars_def demo_vars_def)
  have posted: "find_file [Inr (Some ''file'', Inr ''video'')] = Inr (Some ''video'')" by simp
  let ?post = "draft_post \<lparr>pd_id = ''b-c'', pd_video_uid = ''b-c'', pd_creator_principal = ''alice''\<rparr>"
  obtain u1 u2 w4 where fin: "complete_in_service publish_env cenv demo_headers ''body'' ([], w1) ([], u1) = (Inr 200, ([], w4), ([], u2))"
    and "uw_calls u2 = uw_calls demo_up_world @ AddPost ?post # best_effort_calls publish_env ?post" and "in_master ''b-c'' (gw_db w4)"
    using generation_becomes_draft [OF run vq refl refl refl _ _ publish_source store store_nil _ _ _ _ _ posted refl _ cenv(1,4) _ echo
        publish_service_urls up(1,2) rt(3) _ _ refl up(4,5), of ?blob "''png''"]
    by (simp add: dest d wire raw thumb rt demo_cipher_ok cenv up) blast
  then have "AddPost ?post \<in> set (uw_calls u2)" by simp
  moreover have "ce_parse cenv ''body'' = Inr creq" by (simp add: cenv(2))
  ultimately show ?thesis using run fin \<open>in_master ''b-c'' (gw_db w4)\<close> by blast
qed

definition draft_callback :: complete_request where
  "draft_callback = demo_callback\<lparr>cq_request_key := \<lparr>rk_principal = ''a'', rk_counter = 1\<rparr>, cq_user_principal := ''a'',
     cq_video_id := Some ''b-c'', cq_encrypted_identity := Some ''wire''\<rparr>"

definition draft_cenv :: completion_env where
  "draft_cenv = demo_cenv\<lparr>ce_parse := (\<lambda>_. Inr draft_callback)\<rparr>"

lemma draft_signed: "verify_hmac draft_cenv headers body path = verify_hmac demo_cenv headers body path"
  by (simp add: draft_cenv_def verify_hmac_def hmac_registry_def cong: if_cong option.case_cong)

lemma draft_update_demo: "\<exists>u'. update_metadata_impl demo_upload (draft_update ''wire''
    \<lparr>pd_id = ''b-c'', pd_video_uid = ''b-c'', pd_creator_principal = ''a''\<rparr>) ([], demo_up_world) = (Inr (), [], u')"
  using metadata_run [OF demo_urls, of "''https://storage/''" "''wire''" "draft_post \<lparr>pd_id = ''b-c'', pd_video_uid = ''b-c'',
      pd_creator_principal = ''a''\<rparr>" "''{}''" "''video''" "''png''" demo_up_world "[]"]
  by (auto simp: draft_update_def draft_post_def demo_upload_def demo_up_world_def Raw_Props.demo_world_def in_storj_def url_of_def
      storj_side_def Raw_Props.demo_env_def storj_url_def object_key_def)

theorem completion_waits_for_draft_witness:
  "\<exists>v' u' cs meta data thumb. complete_in_service demo_upload draft_cenv demo_headers ''body'' ([], Generate_Props.demo_world) ([], demo_up_world) =
       (Inr 200, ([], v'), ([], u')) \<and> ue_verify demo_upload ''wire'' = Inr ''a'' \<and>
     uw_calls u' = AddPost (draft_post \<lparr>pd_id = ''b-c'', pd_video_uid = ''b-c'', pd_creator_principal = ''a''\<rparr>) # cs \<and>
     in_storj Raw_Props.demo_env (demo_prm ''a'' ''b-c'') data thumb (uw_store demo_up_world) \<and>
     published Raw_Props.demo_env (demo_prm ''a'' ''b-c'') None (key_order meta) data thumb (uw_store u')"
proof -
  let ?w = "Generate_Props.demo_world" and ?d = "\<lparr>pd_id = ''b-c'', pd_video_uid = ''b-c'', pd_creator_principal = ''a''\<rparr>"
  let ?cenv = "draft_cenv\<lparr>ce_update_metadata := draft_client demo_upload ([], demo_up_world)\<rparr>"
  from draft_update_demo obtain u' where reg: "update_metadata_impl demo_upload (draft_update ''wire'' ?d) ([], demo_up_world) = (Inr (), [], u')" by blast
  have cq: "cq_video_id draft_callback = Some ''b-c''" "cq_user_principal draft_callback = ''a''" "cq_status draft_callback = CSuccess"
    "cq_encrypted_identity draft_callback = Some ''wire''" "ce_principal draft_cenv = Inr" "ce_decrypt draft_cenv = Inr"
    "ce_parse draft_cenv b = Inr draft_callback" for b
    by (simp_all add: draft_callback_def demo_callback_def draft_cenv_def demo_cenv_def)
  have wf: "wf_success draft_callback ''b-c'' ''https://s/yral-sfw/alice/vid.mp4''"
    by (simp add: wf_success_def draft_callback_def demo_callback_def)
  let ?dq = "\<lparr>dq_request_id = cq_request_id draft_callback, dq_request_key = cq_request_key draft_callback,
    dq_user_principal = cq_user_principal draft_callback, dq_video_id = ''b-c'', dq_object_key = the (cq_object_key draft_callback),
    dq_encrypted_identity = cq_encrypted_identity draft_callback\<rparr>"
  have draft: "create_draft ?cenv ?dq ([], ?w) = (Inr (), [], ?w\<lparr>gw_sent := gw_sent ?w @ [SentDraft ''wire'' ?d]\<rparr>)"
    by (intro draft_registered [where user = "''a''" and blob = "''wire''", OF _ _ _ _ reg]) (simp_all add: cq)
  have signed: "verify_hmac ?cenv demo_headers ''body'' ''/api/v2/videogen/complete'' = Inr ()" "ce_parse ?cenv ''body'' = Inr draft_callback"
    by (simp_all add: verify_hmac_update draft_signed demo_signed cq)
  from success_run [OF signed wf draft ingest_run [OF demo_source] close_complete_run] obtain v' where
    fin: "complete_video (Inr ?cenv) demo_headers ''body'' ([], ?w) = (Inr 200, [], v')" "gw_sent v' = gw_sent ?w @ [SentDraft ''wire'' ?d]"
    by auto
  have run: "complete_in_service demo_upload draft_cenv demo_headers ''body'' ([], ?w) ([], demo_up_world) = (Inr 200, ([], v'), ([], u'))"
    by (simp add: complete_in_service_def fin reg)
  have "clean_failures (ue_raw demo_upload)" "ue_raw demo_upload = Raw_Props.demo_env" using demo_clean by (simp_all add: demo_upload_def)
  moreover have "no_temp_files prm (uw_store demo_up_world)" for prm
    by (simp add: no_temp_files_def demo_up_world_def Raw_Props.demo_world_def)
  ultimately show ?thesis
    using completion_waits_for_draft [OF run _ cq(7,3,4) demo_urls] run by (force simp: cq demo_up_world_def demo_prm_def)
qed

end
