(* ===== verification/Request_Log.thy ===== *)
theory Request_Log
  imports Service_Http
begin

text \<open>
  The request logger (\<open>sentry_utils.rs\<close>): a layer around every route that reports failing requests with their bodies, after
  it has replaced the values of the fields that may hold a secret. The route is a parameter, and so are the JSON text, the
  lower case of Unicode and the check of UTF-8.
\<close>

section \<open>Requests, responses and reports\<close>

text \<open>A body is the bytes that arrive, or the error that ends their reading.\<close>

record log_request =
  lq_method :: string
  lq_path :: string
  lq_query :: "string option"
  lq_headers :: "(string \<times> string) list"
  lq_body :: "string + string"

record log_response =
  lr_status :: nat
  lr_headers :: "(string \<times> string) list"
  lr_body :: "string + string"

datatype crumb_level = LInfo | LWarning | LError

datatype report =
    Tag string string
  | Extra string string
  | LightCrumb string string nat nat
  | RequestCrumb string string "string option" "string option"
  | ResponseCrumb crumb_level nat nat "string option"

record log_env =
  le_lower :: "string \<Rightarrow> string"
  le_utf8 :: "string \<Rightarrow> bool"
  le_parse :: "string \<Rightarrow> json option"
  le_print :: "json \<Rightarrow> string option"
  le_millis :: nat

section \<open>Scrubbing\<close>

definition BODY_CAPTURE_LIMIT :: nat where
  "BODY_CAPTURE_LIMIT = 10 * 1024"

definition SENSITIVE_FIELDS :: "string list" where
  "SENSITIVE_FIELDS = [''delegated_identity'', ''delegated_identity_wire'', ''authorization'', ''bearer'', ''token'',
     ''api_key'', ''secret'', ''password'', ''private_key'', ''access_token'', ''refresh_token'']"

definition is_sensitive :: "log_env \<Rightarrow> string \<Rightarrow> bool" where
  "is_sensitive env s \<longleftrightarrow> list_ex (contains (le_lower env s)) SENSITIVE_FIELDS"

definition REDACTED :: json where
  "REDACTED = JStr ''[REDACTED]''"

text \<open>The values under sensitive keys are replaced, then every value of the object is scrubbed.\<close>

fun scrub_json :: "log_env \<Rightarrow> json \<Rightarrow> json" where
  "scrub_json env (JObj kvs) =
     JObj (map (\<lambda>(k, v). (k, if is_sensitive env k then REDACTED else scrub_json env v)) kvs)"
| "scrub_json env (JArr vs) = JArr (map (scrub_json env) vs)"
| "scrub_json env v = v"

definition truncate_bytes :: "string \<Rightarrow> string option" where
  "truncate_bytes bytes = (if bytes = [] then None
     else if length bytes > BODY_CAPTURE_LIMIT then Some (take BODY_CAPTURE_LIMIT bytes) else Some bytes)"

definition parse_and_scrub :: "log_env \<Rightarrow> string \<Rightarrow> string option" where
  "parse_and_scrub env bytes = (if bytes = [] then None
     else if \<not> le_utf8 env bytes then None
     else if is_sensitive env bytes
     then (case le_parse env bytes of Some j \<Rightarrow> le_print env (scrub_json env j) | None \<Rightarrow> Some bytes)
     else Some bytes)"

section \<open>The layer\<close>

definition header_text :: "(string \<times> string) list \<Rightarrow> string \<Rightarrow> string option" where
  "header_text hs name = Option.bind (map_of hs name) header_str"

definition should_capture_body :: "string option \<Rightarrow> bool" where
  "should_capture_body content_type = (case content_type of
       Some ct \<Rightarrow> contains ct ''json'' \<or> contains ct ''text'' | None \<Rightarrow> False)"

definition should_capture :: "(string \<times> string) list \<Rightarrow> bool" where
  "should_capture hs \<longleftrightarrow> should_capture_body (header_text hs ''content-type'') \<and>
     (case Option.bind (header_text hs ''content-length'') parse_u64 of
        Some len \<Rightarrow> len \<le> BODY_CAPTURE_LIMIT | None \<Rightarrow> False)"

text \<open>The bytes that are kept of a body: none when it is not captured.\<close>

definition buffer_body :: "(string \<times> string) list \<Rightarrow> string + string \<Rightarrow> string + string option" where
  "buffer_body hs body = (if should_capture hs
     then (case body of Inl e \<Rightarrow> Inl e | Inr bytes \<Rightarrow> Inr (truncate_bytes bytes)) else Inr None)"

definition scope_reports :: "log_request \<Rightarrow> report list" where
  "scope_reports r = [Tag ''http.method'' (lq_method r), Tag ''http.path'' (lq_path r)] @
     (case header_text (lq_headers r) ''x-request-id'' of None \<Rightarrow> [] | Some rid \<Rightarrow> [Tag ''request_id'' rid]) @
     (case header_text (lq_headers r) ''user-agent'' of None \<Rightarrow> [] | Some ua \<Rightarrow> [Extra ''user_agent'' ua])"

definition failure_reports :: "log_env \<Rightarrow> log_request \<Rightarrow> string option \<Rightarrow> nat \<Rightarrow> string option \<Rightarrow> report list" where
  "failure_reports env r req_bytes status resp_bytes =
     [RequestCrumb (lq_method r) (lq_path r) (lq_query r) (Option.bind req_bytes (parse_and_scrub env)),
      ResponseCrumb (if status \<ge> 500 then LError else LWarning) status (le_millis env) (Option.bind resp_bytes (parse_and_scrub env)),
      Tag ''http.status_code'' (show_nat status)]"

definition sentry_request_logger ::
  "log_env \<Rightarrow> ('s \<Rightarrow> log_request \<Rightarrow> log_response \<times> 's) \<Rightarrow> log_request \<Rightarrow> 's \<Rightarrow> ((nat \<times> string) + log_response) \<times> 's \<times> report list" where
  "sentry_request_logger env handler r s = (case buffer_body (lq_headers r) (lq_body r) of
       Inl e \<Rightarrow> (Inl (500, ''failed to process request''), s, scope_reports r)
     | Inr req_bytes \<Rightarrow> (case handler s r of (resp, s') \<Rightarrow>
         if lr_status resp \<ge> 400
         then (case buffer_body (lr_headers resp) (lr_body resp) of
             Inl e \<Rightarrow> (Inl (500, ''failed to process response''), s', scope_reports r)
           | Inr resp_bytes \<Rightarrow> (Inr resp, s', scope_reports r @ failure_reports env r req_bytes (lr_status resp) resp_bytes))
         else (Inr resp, s', scope_reports r @ [LightCrumb (lq_method r) (lq_path r) (lr_status resp) (le_millis env)])))"

section \<open>The layer is transparent\<close>

text \<open>The logger changes nothing for a request whose body can be read: the route runs once, on that request, its effect
  is the only effect, and its answer is passed on, unless it is an error whose own body breaks off. Only a request whose
  body breaks off may be answered without the route.\<close>

lemma logger_is_transparent:
  assumes "sentry_request_logger env handler r s = (res, s', reports)"
  shows "(s' = snd (handler s r) \<and> (res = Inr (fst (handler s r)) \<or>
        res = Inl (500, ''failed to process response'') \<and> lr_status (fst (handler s r)) \<ge> 400 \<and>
        (\<exists>e. lr_body (fst (handler s r)) = Inl e))) \<or>
     s' = s \<and> res = Inl (500, ''failed to process request'') \<and> (\<exists>e. lq_body r = Inl e)"
  using assms
  by (auto simp: sentry_request_logger_def buffer_body_def split: sum.splits prod.splits if_splits)

section \<open>What a report holds\<close>

text \<open>At every depth the value of a sensitive key is the mark.\<close>

fun redacted :: "log_env \<Rightarrow> json \<Rightarrow> bool" where
  "redacted env (JObj kvs) \<longleftrightarrow> (\<forall>(k, v) \<in> set kvs. if is_sensitive env k then v = REDACTED else redacted env v)"
| "redacted env (JArr vs) \<longleftrightarrow> (\<forall>v \<in> set vs. redacted env v)"
| "redacted env v \<longleftrightarrow> True"

lemma scrubbed_is_redacted: "redacted env (scrub_json env j)"
  by (induction env j rule: scrub_json.induct) (auto simp: REDACTED_def)

lemma redacted_is_fixed: "redacted env j \<Longrightarrow> scrub_json env j = j"
  by (induction env j rule: scrub_json.induct) (auto simp: REDACTED_def intro!: map_idI)

lemma scrub_json_idem: "scrub_json env (scrub_json env j) = scrub_json env j"
  by (rule redacted_is_fixed [OF scrubbed_is_redacted])

lemma parse_and_scrub_cases:
  assumes "parse_and_scrub env bytes = Some t"
  obtains "t = bytes" "\<not> is_sensitive env t"
  | j where "le_parse env bytes = Some j" "le_print env (scrub_json env j) = Some t" "is_sensitive env bytes"
  | "t = bytes" "is_sensitive env t" "le_parse env t = None"
  using assms by (auto simp: parse_and_scrub_def split: if_splits option.splits)

text \<open>A captured body fits the limit, so it is never cut off in the middle.\<close>

definition report_bodies :: "report list \<Rightarrow> string set" where
  "report_bodies rs = {t. \<exists>m p q. RequestCrumb m p q (Some t) \<in> set rs} \<union> {t. \<exists>l st ms. ResponseCrumb l st ms (Some t) \<in> set rs}"

lemma buffer_body_Some: "buffer_body hs body = Inr (Some b) \<Longrightarrow> \<exists>bytes. body = Inr bytes \<and> b = take BODY_CAPTURE_LIMIT bytes"
  by (auto simp: buffer_body_def truncate_bytes_def split: if_splits sum.splits)

lemma no_body_reports [simp]:
  "RequestCrumb m p q b \<notin> set (scope_reports r)" "ResponseCrumb l st ms b \<notin> set (scope_reports r)"
  by (auto simp: scope_reports_def split: option.splits)

lemma report_bodies_append: "report_bodies (xs @ ys) = report_bodies xs \<union> report_bodies ys"
  by (auto simp: report_bodies_def)

lemma report_bodies_scope [simp]: "report_bodies (scope_reports r) = {}"
  by (simp add: report_bodies_def)

lemma report_bodies_failure: "t \<in> report_bodies (failure_reports env r req status resp) \<longleftrightarrow>
    Option.bind req (parse_and_scrub env) = Some t \<or> Option.bind resp (parse_and_scrub env) = Some t"
  by (auto simp: report_bodies_def failure_reports_def)

lemma reported_body:
  assumes "sentry_request_logger env handler r s = (res, s', reports)" and "t \<in> report_bodies reports"
  shows "\<exists>bytes body. parse_and_scrub env bytes = Some t \<and> body \<in> {lq_body r, lr_body (fst (handler s r))} \<and>
     (\<exists>full. body = Inr full \<and> bytes = take BODY_CAPTURE_LIMIT full)"
proof -
  obtain resp s1 where h: "handler s r = (resp, s1)" by (cases "handler s r")
  have light: "report_bodies [LightCrumb m p st ms] = {}" for m p st ms by (simp add: report_bodies_def)
  from assms obtain req_bytes where req: "buffer_body (lq_headers r) (lq_body r) = Inr req_bytes"
    by (cases "buffer_body (lq_headers r) (lq_body r)") (auto simp: sentry_request_logger_def)
  from assms obtain resp_bytes where resp: "buffer_body (lr_headers resp) (lr_body resp) = Inr resp_bytes"
    and t: "t \<in> report_bodies (failure_reports env r req_bytes (lr_status resp) resp_bytes)"
    by (cases "buffer_body (lr_headers resp) (lr_body resp)")
      (auto simp: sentry_request_logger_def h req report_bodies_append light split: if_splits)
  from t consider "Option.bind req_bytes (parse_and_scrub env) = Some t" | "Option.bind resp_bytes (parse_and_scrub env) = Some t"
    by (auto simp: report_bodies_failure)
  then show ?thesis
  proof cases
    case 1
    then obtain b where b: "req_bytes = Some b" "parse_and_scrub env b = Some t" by (cases req_bytes) auto
    with req buffer_body_Some show ?thesis by (metis insert_iff)
  next
    case 2
    then obtain b where b: "resp_bytes = Some b" "parse_and_scrub env b = Some t" by (cases resp_bytes) auto
    with resp buffer_body_Some h show ?thesis by (metis fst_conv insert_iff)
  qed
qed


text \<open>The exception is real: a body with a sensitive field that breaks the JSON syntax is reported as it stands, and such a
  request is exactly one the routes answer with an error.\<close>

lemma malformed_body_is_reported:
  assumes "should_capture (lq_headers r)" and "lq_body r = Inr bytes" and "bytes \<noteq> []" "length bytes \<le> BODY_CAPTURE_LIMIT"
    and "le_utf8 env bytes" and "is_sensitive env bytes" and "le_parse env bytes = None"
    and "handler s r = (resp, s1)" and "lr_status resp \<ge> 400" and "\<not> should_capture (lr_headers resp)"
  shows "bytes \<in> report_bodies (snd (snd (sentry_request_logger env handler r s)))"
  using assms by (simp add: sentry_request_logger_def buffer_body_def truncate_bytes_def parse_and_scrub_def
      report_bodies_append report_bodies_failure)

section \<open>Witnesses\<close>

definition demo_log :: log_env where
  "demo_log = \<lparr>le_lower = to_lower, le_utf8 = (\<lambda>_. True),
     le_parse = (\<lambda>t. if t = ''{token:x}'' then Some (JObj [(''token'', JStr ''x'')]) else None),
     le_print = (\<lambda>j. if j = JObj [(''token'', REDACTED)] then Some ''{token:[REDACTED]}'' else None), le_millis = 3\<rparr>"

definition demo_log_request :: "string \<Rightarrow> log_request" where
  "demo_log_request body = \<lparr>lq_method = ''POST'', lq_path = ''/x'', lq_query = None,
     lq_headers = [(''content-type'', ''application/json''), (''content-length'', ''9'')], lq_body = Inr body\<rparr>"

definition demo_log_handler :: "nat \<Rightarrow> log_request \<Rightarrow> log_response \<times> nat" where
  "demo_log_handler s r = (\<lparr>lr_status = 400, lr_headers = [], lr_body = Inr []\<rparr>, s + 1)"

lemma demo_captured: "should_capture (lq_headers (demo_log_request body))"
proof -
  have "header_str ''application/json'' = Some ''application/json''" "contains ''application/json'' ''json''"
    "header_str ''9'' = Some ''9''" "parse_u64 ''9'' = Some 9"
    by code_simp+
  then show ?thesis
    by (simp add: should_capture_def should_capture_body_def header_text_def demo_log_request_def BODY_CAPTURE_LIMIT_def)
qed

lemma demo_sensitive: "is_sensitive demo_log ''{token:x}''" "is_sensitive demo_log ''token''" "is_sensitive demo_log ''{token:[REDACTED]}''"
  unfolding demo_log_def is_sensitive_def SENSITIVE_FIELDS_def by (simp, code_simp)+

lemma logger_is_transparent_witness:
  "\<exists>res reports. sentry_request_logger demo_log demo_log_handler (demo_log_request ''{token:x}'') 1 = (res, 2, reports)"
proof -
  obtain res s' reports where run: "sentry_request_logger demo_log demo_log_handler (demo_log_request ''{token:x}'') 1 = (res, s', reports)"
    by (metis prod_cases3)
  from logger_is_transparent [OF run] have "s' = 2"
    by (auto simp: demo_log_handler_def demo_log_request_def)
  with run show ?thesis by blast
qed


end
