(* ===== verification/Service_Start.thy ===== *)
theory Service_Start
  imports Request_Log Operator_Service Videogen_Config
begin

text \<open>
  The service as a whole (\<open>src/main.rs\<close>, \<open>consts.rs\<close>, \<open>routes/videogen/providers.rs\<close>): the numbers it takes from its
  variables, the order of its start, the table of all routes with their guards and limits, and the layers around them.
  Handlers modelled elsewhere are parameters here, as are the parts of the start that only talk to other systems.
\<close>

section \<open>Numbers from the variables\<close>

definition parse_i32 :: "string \<Rightarrow> int option" where
  "parse_i32 s = Option.bind (parse_i64 s) (\<lambda>n. if - (2 ^ 31) \<le> n \<and> n < 2 ^ 31 then Some n else None)"

definition number_or :: "(string \<Rightarrow> 'n option) \<Rightarrow> vars \<Rightarrow> string \<Rightarrow> 'n \<Rightarrow> 'n" where
  "number_or parse vars name fallback = or_else (Option.bind (vars name) parse) fallback"

text \<open>What \<open>/mirror/config\<close> shows before it is changed.\<close>

definition initial_config :: "vars \<Rightarrow> job_config" where
  "initial_config vars = \<lparr>jc_phash_concurrency = number_or parse_u64 vars ''PHASH_CONCURRENCY'' 10,
     jc_mirror_concurrency = number_or parse_u64 vars ''MIRROR_CONCURRENCY'' 30,
     jc_scan_page_size = number_or parse_i64 vars ''SCAN_PAGE_SIZE'' 2500\<rparr>"

definition media_import_batch_size :: "vars \<Rightarrow> int" where
  "media_import_batch_size vars = number_or (\<lambda>v. Option.bind (parse_i64 v) (\<lambda>n. if n > 0 then Some n else None)) vars
     ''MEDIA_IMPORT_BATCH_SIZE'' 500"

definition max_phash_retries :: "vars \<Rightarrow> int" where
  "max_phash_retries vars = number_or parse_i32 vars ''MAX_PHASH_RETRIES'' 5"

definition run_sweep_worker :: "vars \<Rightarrow> bool" where
  "run_sweep_worker vars \<longleftrightarrow> vars ''RUN_SWEEP_WORKER'' = Some ''true''"

definition drain_interval_secs :: "vars \<Rightarrow> nat" where
  "drain_interval_secs vars = number_or parse_u64 vars ''DRAIN_INTERVAL_SECS'' 180"

definition discovery_interval_secs :: "vars \<Rightarrow> nat" where
  "discovery_interval_secs vars = number_or parse_u64 vars ''DISCOVERY_INTERVAL_SECS'' 86400"

definition sweep_lease_ttl_secs :: "vars \<Rightarrow> nat" where
  "sweep_lease_ttl_secs vars = number_or parse_u64 vars ''SWEEP_LEASE_TTL_SECS'' 120"

text \<open>The names with defaults.\<close>

record named_settings =
  ns_yral_videos :: string
  ns_yral_nsfw_videos :: string
  ns_hetzner_region :: string
  ns_storj_sfw_bucket :: string
  ns_temp_key_prefix :: string
  ns_ic_url :: string
  ns_storj_sfw_share_url :: "string option"

definition named_settings_of :: "vars \<Rightarrow> named_settings" where
  "named_settings_of vars = \<lparr>ns_yral_videos = var_or vars ''SFW_BUCKET'' ''yral-sfw'',
     ns_yral_nsfw_videos = var_or vars ''NSFW_BUCKET'' ''yral-nsfw-videos'',
     ns_hetzner_region = var_or vars ''HETZNER_S3_REGION'' ''eu-central'',
     ns_storj_sfw_bucket = var_or vars ''STORJ_SFW_BUCKET'' ''yral-sfw'',
     ns_temp_key_prefix = var_or vars ''TEMP_KEY_PREFIX'' ''_pending/'', ns_ic_url = var_or vars ''IC_URL'' ''https://ic0.app'',
     ns_storj_sfw_share_url = vars ''SFW_SHARE_EU1_URL''\<rparr>"

lemma import_batch_positive: "media_import_batch_size vars > 0"
  by (auto simp: media_import_batch_size_def number_or_def or_else_def bind_eq_Some_conv split: option.split if_splits)

section \<open>The start\<close>

record sweep_settings =
  sw_me :: string
  sw_drain_interval :: nat
  sw_discovery_interval :: nat
  sw_lease_ttl :: nat

definition sweep_settings_of :: "vars \<Rightarrow> string \<Rightarrow> sweep_settings" where
  "sweep_settings_of vars uuid = \<lparr>sw_me = (case vars ''NODE_NAME'' of Some n \<Rightarrow> n
       | None \<Rightarrow> (case vars ''HOSTNAME'' of Some h \<Rightarrow> h | None \<Rightarrow> ''sweep-'' @ uuid)),
     sw_drain_interval = drain_interval_secs vars, sw_discovery_interval = discovery_interval_secs vars,
     sw_lease_ttl = sweep_lease_ttl_secs vars\<rparr>"

text \<open>The variables that are read with \<open>expect\<close>, in the order in which the start forces them.\<close>

definition required_vars :: "string list" where
  "required_vars = [''STORJ_ACCESS_GRANT_SFW'', ''STORJ_ACCESS_GRANT_NSFW'', ''SERVICE_SECRET_TOKEN'', ''HETZNER_S3_ENDPOINT'',
     ''HETZNER_S3_BUCKET'', ''HETZNER_S3_ACCESS_KEY'', ''HETZNER_S3_SECRET_KEY'', ''DATABASE_URL'', ''STORJ_EU1_GATEWAY_ACCESS_KEY'',
     ''STORJ_EU1_GATEWAY_SECRET_KEY'', ''STORJ_MIRROR_ACCESS_GRANT'']"

datatype schema = DbSchema | MediaIndexSchema | RequestStoreSchema

datatype boot_event = ConnectedDb string | InitedSchema schema | BuiltAgent "string option" | SpawnedWorker sweep_settings | Listening

datatype boot_error = MissingVar string | BootFailed string | PortTaken string

record boot_env =
  bt_connect :: "string \<Rightarrow> string option"
  bt_init :: "schema \<Rightarrow> string option"
  bt_identity :: "string \<Rightarrow> bool"
  bt_agent :: "string option \<Rightarrow> bool"
  bt_uuid :: string
  bt_bind :: "string option"

definition init_schemas :: "boot_env \<Rightarrow> boot_event list \<Rightarrow> (boot_error + unit) \<times> boot_event list" where
  "init_schemas env log0 = fold (\<lambda>(sc, failed) (r, log). case r of
       Inl e \<Rightarrow> (r, log)
     | Inr _ \<Rightarrow> (case bt_init env sc of Some _ \<Rightarrow> (Inl (BootFailed failed), log) | None \<Rightarrow> (r, log @ [InitedSchema sc])))
     [(DbSchema, ''Failed to init DB schema''), (MediaIndexSchema, ''Failed to init media index schema''),
      (RequestStoreSchema, ''Failed to init videogen request store schema'')] (Inr (), log0)"

definition build_agent :: "boot_env \<Rightarrow> vars \<Rightarrow> boot_error + string option" where
  "build_agent env vars = (case vars ''BACKEND_ADMIN_IDENTITY'' of
       Some pem \<Rightarrow> if \<not> bt_identity env pem then Inl (BootFailed ''Failed to parse BACKEND_ADMIN_IDENTITY'')
         else if bt_agent env (Some pem) then Inr (Some pem) else Inl (BootFailed ''Failed to build IC agent'')
     | None \<Rightarrow> if bt_agent env None then Inr None else Inl (BootFailed ''Failed to build IC agent''))"

text \<open>The state that is served: no job runs, and the tuning is that of the variables.\<close>

definition run_server :: "boot_env \<Rightarrow> vars \<Rightarrow> (boot_error + job_state \<times> job_config) \<times> boot_event list" where
  "run_server env vars = (case List.find (\<lambda>v. vars v = None) required_vars of
       Some v \<Rightarrow> (Inl (MissingVar v), [])
     | None \<Rightarrow> (let url = the (vars ''DATABASE_URL'') in case bt_connect env url of
         Some _ \<Rightarrow> (Inl (BootFailed ''Failed to connect to postgres''), [])
       | None \<Rightarrow> (case init_schemas env [ConnectedDb url] of
           (Inl e, log) \<Rightarrow> (Inl e, log)
         | (Inr _, log) \<Rightarrow> (case build_agent env vars of
             Inl e \<Rightarrow> (Inl e, log)
           | Inr ident \<Rightarrow> (let log1 = log @ [BuiltAgent ident] @
                 (if run_sweep_worker vars then [SpawnedWorker (sweep_settings_of vars (bt_uuid env))] else [])
               in case bt_bind env of
                   Some e \<Rightarrow> (Inl (PortTaken e), log1)
                 | None \<Rightarrow> (Inr (initial_jobs, initial_config vars), log1 @ [Listening]))))))"

lemma boot_order:
  assumes "run_server env vars = (r, log)" and "Listening \<in> set log"
  shows "(\<forall>v \<in> set required_vars. vars v \<noteq> None) \<and> r = Inr (initial_jobs, initial_config vars) \<and>
    (\<exists>ident. log = [ConnectedDb (the (vars ''DATABASE_URL'')), InitedSchema DbSchema, InitedSchema MediaIndexSchema,
      InitedSchema RequestStoreSchema, BuiltAgent ident] @
      (if vars ''RUN_SWEEP_WORKER'' = Some ''true'' then [SpawnedWorker (sweep_settings_of vars (bt_uuid env))] else []) @ [Listening])"
proof -
  have schemas: "init_schemas env [c] = (Inr u, log') \<Longrightarrow>
      log' = [c, InitedSchema DbSchema, InitedSchema MediaIndexSchema, InitedSchema RequestStoreSchema]" for c u log'
    by (auto simp: init_schemas_def split: option.splits)
  have early: "init_schemas env [ConnectedDb c] = (x, log') \<Longrightarrow> Listening \<notin> set log'" for c x log'
    by (auto simp: init_schemas_def split: option.splits)
  from assms have all: "List.find (\<lambda>v. vars v = None) required_vars = None"
    by (auto simp: run_server_def split: option.splits)
  moreover have "\<forall>v \<in> set required_vars. vars v \<noteq> None" using all by (auto simp: find_None_iff)
  ultimately show ?thesis
    using assms by (auto simp: run_server_def Let_def run_sweep_worker_def dest: schemas early
        split: option.splits sum.splits prod.splits if_splits)
qed

section \<open>The routes\<close>

datatype public_route =
    RawUploadInitial | RawFinalize | GetUploadUrl | UpdateVideoMetadata | MarkPostAsPublished | UploadProfileImage
  | DeleteProfileImage | DraftsInProgress | GenerateVideo | CompleteVideo | RefreshUploadUrl | Providers | ProvidersAll
  | Health | ApiDocs

datatype signed_route = MoveToNsfw | HlsDuplicate

text \<open>Path, the largest body, and the methods.\<close>

definition default_limit :: nat where
  "default_limit = 2 * 1024 * 1024"

definition public_table :: "(string \<times> nat \<times> (string \<times> public_route) list) list" where
  "public_table = [
     (''/duplicate_raw/upload'', 500 * 1024 * 1024, [(''POST'', RawUploadInitial)]),
     (''/duplicate_raw/finalize'', default_limit, [(''POST'', RawFinalize)]),
     (''/get-upload-url'', default_limit, [(''POST'', GetUploadUrl)]),
     (''/update-video-metadata'', default_limit, [(''POST'', UpdateVideoMetadata)]),
     (''/mark-post-as-published'', default_limit, [(''POST'', MarkPostAsPublished)]),
     (''/api/v1/user/profile-image'', 8 * 1024 * 1024, [(''POST'', UploadProfileImage), (''DELETE'', DeleteProfileImage)]),
     (''/api/v2/videogen/drafts/in-progress'', default_limit, [(''POST'', DraftsInProgress)]),
     (''/api/v2/videogen/generate'', 10 * 1024 * 1024, [(''POST'', GenerateVideo)]),
     (''/api/v2/videogen/complete'', 64 * 1024, [(''POST'', CompleteVideo)]),
     (''/api/v2/videogen/upload-url/refresh'', 64 * 1024, [(''POST'', RefreshUploadUrl)]),
     (''/api/v2/videogen/providers'', default_limit, [(''GET'', Providers)]),
     (''/api/v2/videogen/providers-all'', default_limit, [(''GET'', ProvidersAll)]),
     (''/health'', default_limit, [(''GET'', Health)])]"

definition signed_table :: "(string \<times> nat \<times> (string \<times> signed_route) list) list" where
  "signed_table = [(''/move-to-nsfw'', default_limit, [(''POST'', MoveToNsfw)]),
     (''/hls/duplicate'', 100 * 1024 * 1024, [(''POST'', HlsDuplicate)])]"

text \<open>A \<open>GET\<close> handler answers \<open>HEAD\<close>.\<close>

definition by_method :: "string \<Rightarrow> (string \<times> 'r) list \<Rightarrow> 'r option" where
  "by_method meth rs = map_of rs (if meth = ''HEAD'' then ''GET'' else meth)"

record 's app_env =
  ap_service :: service_env
  ap_parse :: "string \<Rightarrow> json option"
  ap_docs :: "string \<Rightarrow> bool"
  ap_public :: "public_route \<Rightarrow> nat \<Rightarrow> 's \<Rightarrow> log_request \<Rightarrow> log_response \<times> 's"
  ap_signed :: "signed_route \<Rightarrow> nat \<Rightarrow> 's \<Rightarrow> log_request \<Rightarrow> log_response \<times> 's"
  ap_operator :: "routed \<Rightarrow> 's \<Rightarrow> log_response \<times> 's"
  ap_log :: log_env

text \<open>The request as the operators' routes see it.\<close>

definition http_of :: "'s app_env \<Rightarrow> log_request \<Rightarrow> http_request" where
  "http_of env r = \<lparr>hq_method = lq_method r, hq_path = lq_path r, hq_query = lq_query r, hq_headers = lq_headers r,
     hq_body = (case lq_body r of Inl _ \<Rightarrow> None | Inr b \<Rightarrow> ap_parse env b)\<rparr>"

definition bare_status :: "nat \<Rightarrow> log_response" where
  "bare_status st = \<lparr>lr_status = st, lr_headers = [], lr_body = Inr []\<rparr>"

definition guard :: "'s app_env \<Rightarrow> log_request \<Rightarrow> nat + unit" where
  "guard env r = authorize (se_crypto (ap_service env)) (se_secret (ap_service env)) (se_now (ap_service env)) (http_of env r)"

text \<open>The guard lies around the methods of a route: a wrong method is told only to a signed request.\<close>

definition router :: "'s app_env \<Rightarrow> 's \<Rightarrow> log_request \<Rightarrow> log_response \<times> 's" where
  "router env s r = (case map_of public_table (lq_path r) of
       Some (limit, rs) \<Rightarrow> (case by_method (lq_method r) rs of
           None \<Rightarrow> (bare_status 405, s) | Some h \<Rightarrow> ap_public env h limit s r)
     | None \<Rightarrow> (case map_of signed_table (lq_path r) of
         Some (limit, rs) \<Rightarrow> (case guard env r of
             Inl st \<Rightarrow> (bare_status st, s)
           | Inr _ \<Rightarrow> (case by_method (lq_method r) rs of
               None \<Rightarrow> (bare_status 405, s) | Some h \<Rightarrow> ap_signed env h limit s r))
       | None \<Rightarrow> if ap_docs env (lq_path r)
           then (if lq_method r = ''GET'' \<or> lq_method r = ''HEAD'' then ap_public env ApiDocs default_limit s r else (bare_status 405, s))
           else (case serve (ap_service env) (http_of env r) of
             Inl st \<Rightarrow> (bare_status st, s) | Inr c \<Rightarrow> ap_operator env c s)))"

section \<open>The layers\<close>

text \<open>The outer layer answers every \<open>OPTIONS\<close> request by itself, as a preflight.\<close>

definition allowed_methods :: "string list" where
  "allowed_methods = [''GET'', ''POST'', ''OPTIONS'']"

definition preflight :: log_response where
  "preflight = \<lparr>lr_status = 200, lr_headers = [(''access-control-allow-origin'', ''*''),
     (''access-control-allow-methods'', ''GET,POST,OPTIONS''), (''access-control-allow-headers'', ''*'')], lr_body = Inr []\<rparr>"

definition app :: "'s app_env \<Rightarrow> log_request \<Rightarrow> 's \<Rightarrow> ((nat \<times> string) + log_response) \<times> 's \<times> report list" where
  "app env r s = (if lq_method r = ''OPTIONS'' then (Inr preflight, s, [])
     else sentry_request_logger (ap_log env) (router env) r s)"

section \<open>Who reaches what\<close>

lemma router_acts:
  assumes "snd (router env s r) \<noteq> s" and "\<nexists>u. guard env r = Inr u"
  shows "\<exists>limit rs h. map_of public_table (lq_path r) = Some (limit, rs) \<and> by_method (lq_method r) rs = Some h \<and>
       router env s r = ap_public env h limit s r \<or>
     ap_docs env (lq_path r) \<and> router env s r = ap_public env ApiDocs default_limit s r"
proof -
  have "\<exists>st. serve (ap_service env) (http_of env r) = Inl st"
    using assms(2) by (auto simp: serve_def Let_def guard_def split: sum.split)
  with assms show ?thesis
    by (auto simp: router_def split: option.splits prod.splits sum.splits if_splits)
qed

text \<open>C31. Every route is guarded but the listed ones: when a request without a valid signature changes the state of the service,
  it was handled by one of the public routes (uploads, profile images, the video generation, the providers, the health
  check and the documentation) under its own path and method and within its own limit; no move to the NSFW bucket, no
  HLS upload and no operation of the operators is ever reached, whatever the request logger does.\<close>

theorem unsigned_requests_reach_public_routes:
  assumes "app env r s = (res, s', reports)" and "s' \<noteq> s" and "\<nexists>u. guard env r = Inr u"
  shows "lq_method r \<noteq> ''OPTIONS'' \<and> ((\<exists>limit rs h. (lq_path r, limit, rs) \<in> set public_table \<and>
         (if lq_method r = ''HEAD'' then ''GET'' else lq_method r, h) \<in> set rs \<and> s' = snd (ap_public env h limit s r)) \<or>
       ap_docs env (lq_path r) \<and> s' = snd (ap_public env ApiDocs default_limit s r))"
proof -
  from assms(1,2) have opt: "lq_method r \<noteq> ''OPTIONS''"
    and run: "sentry_request_logger (ap_log env) (router env) r s = (res, s', reports)"
    by (auto simp: app_def split: if_splits)
  have s': "s' = snd (router env s r)"
    using run assms(2) by (auto simp: sentry_request_logger_def split: sum.splits prod.splits if_splits)
  with assms(2) have "snd (router env s r) \<noteq> s" by simp
  from router_acts [OF this assms(3)] obtain limit rs h where
    "(map_of public_table (lq_path r) = Some (limit, rs) \<and> by_method (lq_method r) rs = Some h \<and>
       router env s r = ap_public env h limit s r) \<or>
     ap_docs env (lq_path r) \<and> router env s r = ap_public env ApiDocs default_limit s r" by blast
  then show ?thesis
  proof (elim disjE conjE)
    assume "map_of public_table (lq_path r) = Some (limit, rs)" and "by_method (lq_method r) rs = Some h"
      and "router env s r = ap_public env h limit s r"
    then have "(lq_path r, limit, rs) \<in> set public_table" "(if lq_method r = ''HEAD'' then ''GET'' else lq_method r, h) \<in> set rs"
      "s' = snd (ap_public env h limit s r)"
      using s' by (simp_all only: by_method_def map_of_SomeD)
    with opt show ?thesis by blast
  qed (use s' opt in simp)
qed

text \<open>The routes of the operators are those of \<open>Operator_Service\<close>: no public or signed table hides one.\<close>

lemma operators_are_routed:
  assumes "serve (ap_service env) (http_of env r) = Inr c" and "\<not> ap_docs env (lq_path r)"
    and "map_of public_table (lq_path r) = None" and "map_of signed_table (lq_path r) = None"
  shows "router env s r = ap_operator env c s"
  using assms by (simp add: router_def)

lemma own_paths:
  "list_all (\<lambda>path. post_route ps body path = None \<and> get_route seg ps path = None) (map fst public_table @ map fst signed_table)"
  by (simp add: public_table_def signed_table_def post_route_def get_route_def strip_prefix_def starts_with_def)

text \<open>The deletion of a profile image is routed, but a browser of another origin may not send it: its method is not among
  those the preflight allows.\<close>

lemma delete_is_not_allowed:
  "\<exists>limit rs. map_of public_table ''/api/v1/user/profile-image'' = Some (limit, rs) \<and>
     by_method ''DELETE'' rs = Some DeleteProfileImage \<and> ''DELETE'' \<notin> set allowed_methods"
  by (simp add: public_table_def by_method_def allowed_methods_def)

text \<open>An empty secret is accepted at the start.\<close>

lemma empty_secret_is_accepted:
  assumes "bt_connect env db = None" "\<forall>sc. bt_init env sc = None" "bt_agent env None" "bt_bind env = None"
    and "\<forall>v \<in> set required_vars. vars v \<noteq> None" "vars ''DATABASE_URL'' = Some db" "vars ''BACKEND_ADMIN_IDENTITY'' = None"
    and "vars ''SERVICE_SECRET_TOKEN'' = Some []"
  shows "fst (run_server env vars) = Inr (initial_jobs, initial_config vars)"
proof -
  have "List.find (\<lambda>v. vars v = None) required_vars = None" using assms(5) by (auto simp: find_None_iff)
  then show ?thesis using assms by (simp add: run_server_def init_schemas_def build_agent_def)
qed

section \<open>The providers\<close>

record provider =
  pv_id :: string
  pv_name :: string
  pv_description :: string
  pv_cost :: "nat \<times> nat \<times> nat"
  pv_supports_image :: bool
  pv_supports_negative_prompt :: bool
  pv_supports_audio :: bool
  pv_supports_seed :: bool
  pv_allowed_aspect_ratios :: "string list"
  pv_allowed_resolutions :: "string list"
  pv_allowed_durations :: "nat list"
  pv_default_aspect_ratio :: string
  pv_default_resolution :: "string option"
  pv_default_duration :: nat
  pv_is_available :: bool
  pv_is_internal :: bool
  pv_model_icon :: "string option"
  pv_extra_info :: json

definition ltx2_provider :: provider where
  "ltx2_provider = \<lparr>pv_id = ''ltx2'', pv_name = ''Ltx2'', pv_description = ''LTX video generation'', pv_cost = (0, 0, 0),
     pv_supports_image = True, pv_supports_negative_prompt = False, pv_supports_audio = True, pv_supports_seed = True,
     pv_allowed_aspect_ratios = [''16:9'', ''9:16'', ''1:1''], pv_allowed_resolutions = [], pv_allowed_durations = [5],
     pv_default_aspect_ratio = ''16:9'', pv_default_resolution = None, pv_default_duration = 5, pv_is_available = True,
     pv_is_internal = False, pv_model_icon = None, pv_extra_info = JObj []\<rparr>"

definition get_providers :: "provider list" where
  "get_providers = [ltx2_provider]"

definition get_providers_all :: "provider list" where
  "get_providers_all = [ltx2_provider]"

section \<open>Witnesses\<close>

definition demo_app :: "nat app_env" where
  "demo_app = \<lparr>ap_service = \<lparr>se_crypto = demo_crypto, se_secret = ''secret'', se_now = 1200, se_dec = id, se_seg = Some\<rparr>,
     ap_parse = (\<lambda>_. None), ap_docs = (\<lambda>_. False), ap_public = (\<lambda>h limit s r. (bare_status 200, s + 1)),
     ap_signed = (\<lambda>h limit s r. (bare_status 200, s + 2)), ap_operator = (\<lambda>c s. (bare_status 200, s + 3)), ap_log = demo_log\<rparr>"

definition demo_public_request :: log_request where
  "demo_public_request = \<lparr>lq_method = ''POST'', lq_path = ''/get-upload-url'', lq_query = None, lq_headers = [], lq_body = Inr ''{}''\<rparr>"

theorem unsigned_requests_reach_public_routes_witness:
  "\<exists>res reports. app demo_app demo_public_request 0 = (res, 1, reports) \<and>
     (\<exists>limit rs h. (''/get-upload-url'', limit, rs) \<in> set public_table \<and> (''POST'', h) \<in> set rs)"
proof -
  have "map_of public_table ''/get-upload-url'' = Some (default_limit, [(''POST'', GetUploadUrl)])" by (simp add: public_table_def)
  then have "router demo_app 0 demo_public_request = (bare_status 200, 1)"
    by (simp add: router_def demo_public_request_def by_method_def demo_app_def)
  moreover have "buffer_body (lq_headers demo_public_request) (lq_body demo_public_request) = Inr None"
    by (simp add: buffer_body_def should_capture_def should_capture_body_def header_text_def demo_public_request_def)
  moreover obtain res s1 reports where run: "app demo_app demo_public_request 0 = (res, s1, reports)" by (metis prod_cases3)
  moreover have "lq_method demo_public_request \<noteq> ''OPTIONS''" by (simp add: demo_public_request_def)
  ultimately have one: "s1 = 1" by (simp add: app_def sentry_request_logger_def bare_status_def)
  have "split_once ''='' [] = None" by (subst split_once.simps) (simp add: starts_with_def)
  then have "\<nexists>u. guard demo_app demo_public_request = Inr u"
    by (simp add: guard_def authorize_def credentials_def header_def http_of_def demo_public_request_def starts_with_def)
  from unsigned_requests_reach_public_routes [OF run _ this] one have "\<exists>limit rs h. (lq_path demo_public_request, limit, rs) \<in> set public_table \<and>
      (if lq_method demo_public_request = ''HEAD'' then ''GET'' else lq_method demo_public_request, h) \<in> set rs"
    by (auto simp: demo_app_def)
  with run one show ?thesis by (auto simp: demo_public_request_def)
qed

end
