(* ===== verification/Backfill_Backend.thy ===== *)
theory Backfill_Backend
  imports Raw_Store
begin

text \<open>
  The two stores of the backfill tool in detail (\<open>crates/backfill-thumbnails/src/backend.rs\<close>): the objects of Storj
  through \<open>uplink cp\<close> with a temporary file or standard input, and the bucket of Hetzner through the S3 client. Both
  implement the contract the rest of the tool relies on (locale \<open>object_store\<close>), and so does the store the tool is
  modelled over in \<open>Backfill_Store\<close>.
\<close>

section \<open>The contract\<close>

text \<open>A download changes nothing and returns what is stored; an upload that succeeds stores exactly its bytes, one that
  fails leaves a prefix of them at most, and no other object is touched; without faults both succeed.\<close>

locale object_store =
  fixes held :: "'w \<Rightarrow> string \<rightharpoonup> string"
    and download :: "string \<Rightarrow> ('w, pg_error, string) proc"
    and upload :: "string \<Rightarrow> string \<Rightarrow> ('w, pg_error, unit) proc"
  assumes download_held: "download k (p, w) = (r, q, w') \<Longrightarrow> held w' = held w"
    and download_value: "download k (p, w) = (Inr d, q, w') \<Longrightarrow> held w k = Some d"
    and download_works: "held w k = Some d \<Longrightarrow> fst (download k ([], w)) = Inr d"
    and upload_stores: "upload k d (p, w) = (Inr u, q, w') \<Longrightarrow> held w' = (held w)(k \<mapsto> d)"
    and upload_fails: "upload k d (p, w) = (Inl e, q, w') \<Longrightarrow>
      held w' = held w \<or> (\<exists>n. held w' = (held w)(k \<mapsto> take n d))"
    and upload_works: "fst (upload k d ([], w)) = Inr ()"

text \<open>Sequences of operations on a store, each without faults, and what they should give.\<close>

datatype store_op = OpFetch string | OpStore string string

fun store_run :: "(string \<Rightarrow> ('w, pg_error, string) proc) \<Rightarrow> (string \<Rightarrow> string \<Rightarrow> ('w, pg_error, unit) proc) \<Rightarrow>
    store_op list \<Rightarrow> 'w \<Rightarrow> string option list \<times> 'w" where
  "store_run down up [] w = ([], w)"
| "store_run down up (OpFetch k # ops) w = (case down k ([], w) of (r, _, w1) \<Rightarrow>
     (case store_run down up ops w1 of (rs, w2) \<Rightarrow> ((case r of Inl _ \<Rightarrow> None | Inr d \<Rightarrow> Some d) # rs, w2)))"
| "store_run down up (OpStore k d # ops) w = (case up k d ([], w) of (r, _, w1) \<Rightarrow>
     (case store_run down up ops w1 of (rs, w2) \<Rightarrow> ((case r of Inl _ \<Rightarrow> None | Inr _ \<Rightarrow> Some []) # rs, w2)))"

fun spec_run :: "store_op list \<Rightarrow> (string \<rightharpoonup> string) \<Rightarrow> string option list \<times> (string \<rightharpoonup> string)" where
  "spec_run [] m = ([], m)"
| "spec_run (OpFetch k # ops) m = (case spec_run ops m of (rs, m1) \<Rightarrow> (m k # rs, m1))"
| "spec_run (OpStore k d # ops) m = (case spec_run ops (m(k \<mapsto> d)) of (rs, m1) \<Rightarrow> (Some [] # rs, m1))"

context object_store
begin

lemma run_spec: "spec_run ops (held w) = (fst (store_run download upload ops w), held (snd (store_run download upload ops w)))"
proof (induction ops arbitrary: w)
  case Nil
  show ?case by simp
next
  case (Cons op1 ops)
  show ?case
  proof (cases op1)
    case (OpFetch k)
    obtain r q w1 where down: "download k ([], w) = (r, q, w1)" by (rule prod_cases3)
    have "(case r of Inl _ \<Rightarrow> None | Inr d \<Rightarrow> Some d) = held w k"
    proof (cases r)
      case (Inr d)
      with download_value [of k "[]" w d q w1] down show ?thesis by simp
    next
      case (Inl e)
      with download_works [of w k] down show ?thesis by (cases "held w k") simp_all
    qed
    with Cons.IH [of w1] show ?thesis by (simp add: OpFetch down download_held [OF down] split_beta)
  next
    case (OpStore k d)
    obtain r q w1 where up: "upload k d ([], w) = (r, q, w1)" by (rule prod_cases3)
    with upload_works [of k d w] have r: "r = Inr ()" by simp
    with up upload_stores [of k d "[]" w "()" q w1] have "(held w)(k \<mapsto> d) = held w1" by simp
    then show ?thesis by (simp add: OpStore up r Cons.IH split_beta del: fun_upd_apply)
  qed
qed

text \<open>What the tool does for one video: a copy under another name arrives whole or not at all, and leaves the original.\<close>

lemma copied:
  assumes "bnd (download a) (upload b) (p, w) = (Inr u, q, w')"
  shows "\<exists>d. held w a = Some d \<and> held w' = (held w)(b \<mapsto> d)"
proof -
  from assms obtain d p1 w1 where down: "download a (p, w) = (Inr d, p1, w1)" and up: "upload b d (p1, w1) = (Inr u, q, w')"
    by (auto simp: run_bnd split: prod.splits sum.splits)
  from download_held [OF down] download_value [OF down] upload_stores [OF up] show ?thesis by auto
qed

lemma failed_copy_spares:
  assumes "bnd (download a) (upload b) (p, w) = (Inl e, q, w')" and "k \<noteq> b"
  shows "held w' k = held w k"
proof -
  from assms(1) consider p1 where "download a (p, w) = (Inl e, p1, w')"
    | d p1 w1 where "download a (p, w) = (Inr d, p1, w1)" "upload b d (p1, w1) = (Inl e, q, w')"
    by (auto simp: run_bnd split: prod.splits sum.splits)
  then show ?thesis
  proof cases
    case 1
    from download_held [OF this] show ?thesis by simp
  next
    case 2
    from download_held [OF 2(1)] upload_fails [OF 2(2)] assms(2) show ?thesis by auto
  qed
qed

end

section \<open>Storj\<close>

definition backend_cp_args :: "storj_backend \<Rightarrow> string \<Rightarrow> string \<Rightarrow> string list" where
  "backend_cp_args b src dst = [''cp'', ''--analytics=false'', ''--interactive=false'', ''--progress=false'', ''--access'',
     sb_access_grant b, src, dst]"

definition read_s3_file :: "string \<Rightarrow> (pg_error, string) rw" where
  "read_s3_file path = stmt (\<lambda>w. case s3_files w path of
     None \<Rightarrow> Inl (PgError ''read downloaded storj object'') | Some c \<Rightarrow> Inr (c, w))"

definition drop_s3_file :: "string \<Rightarrow> ('e, unit) rw" where
  "drop_s3_file path = on_db (\<lambda>w. w\<lparr>s3_files := (s3_files w)(path := None)\<rparr>)"

text \<open>The temporary file is removed at the end, whatever happened.\<close>

definition storj_download_object :: "raw_env \<Rightarrow> string \<Rightarrow> storj_backend \<Rightarrow> string \<Rightarrow> (pg_error, string) rw" where
  "storj_download_object env temp b key =
     bnd (exec (write_s3_file temp [])) (\<lambda>_.
     bnd (attempt (bnd (run_cp env (backend_cp_args b (storj_url (sb_bucket b) key) temp) []) (\<lambda>_. read_s3_file temp))) (\<lambda>r.
     bnd (drop_s3_file temp) (\<lambda>_. case r of Inl e \<Rightarrow> raise e | Inr d \<Rightarrow> ret d)))"

definition storj_upload_bytes :: "raw_env \<Rightarrow> storj_backend \<Rightarrow> string \<Rightarrow> string \<Rightarrow> (pg_error, unit) rw" where
  "storj_upload_bytes env b key data = run_cp env (backend_cp_args b ''-'' (storj_url (sb_bucket b) key)) data"

definition storj_held :: "storj_backend \<Rightarrow> rw_world \<Rightarrow> string \<rightharpoonup> string" where
  "storj_held b w k = map_option sc_data (rw_storj w (storj_url (sb_bucket b) k))"

lemma storj_url_inj [simp]: "storj_url b k = storj_url b k' \<longleftrightarrow> k = k'"
  by (simp add: storj_url_def)

lemma parse_backend_cp: "parse_cp (tl (backend_cp_args b src dst)) no_call =
    parse_cp [src, dst] \<lparr>cc_metadata = None, cc_expires = None, cc_access = Some (sb_access_grant b), cc_paths = []\<rparr>"
  by (simp add: backend_cp_args_def cp_arg_def no_call_def strip_prefix_def starts_with_def)

lemma cp_upload_effect:
  "cp_effect (parse_cp (tl (backend_cp_args b ''-'' (storj_url bucket k))) no_call) data keep w =
     Inr (w\<lparr>rw_storj := (rw_storj w)(storj_url bucket k \<mapsto> \<lparr>sc_data = keep data, sc_metadata = None, sc_expires = None\<rparr>)\<rparr>)"
  unfolding parse_backend_cp parse_upload by (simp add: cp_effect_def)

lemma cp_download_effect:
  assumes "take 1 temp = ''/''"
  shows "cp_effect (parse_cp (tl (backend_cp_args b (storj_url bucket k) temp)) no_call) stdin keep w =
     (case rw_storj w (storj_url bucket k) of
        None \<Rightarrow> Inl (PgError (''object not found: '' @ storj_url bucket k))
      | Some o1 \<Rightarrow> Inr (write_s3_file temp (keep (sc_data o1)) w))"
proof -
  have "storj_url bucket k \<noteq> ''-''" by (simp add: storj_url_def)
  then show ?thesis unfolding parse_backend_cp parse_download [OF assms] by (simp add: cp_effect_def)
qed

lemma storj_held_simps [simp]:
  "storj_held b (write_s3_file path c w) = storj_held b w"
  "storj_held b (w\<lparr>s3_files := fs\<rparr>) = storj_held b w"
  "storj_held b (w\<lparr>rw_storj := (rw_storj w)(storj_url (sb_bucket b) k \<mapsto> o1)\<rparr>) = (storj_held b w)(k \<mapsto> sc_data o1)"
  by (auto simp: storj_held_def write_s3_file_def fun_eq_iff)

text \<open>A run of \<open>uplink cp\<close>: it fails, perhaps after a cut effect, or has its effect.\<close>

lemma run_cp_cases:
  assumes "run_cp env args stdin (p, w) = (r, q, w')"
  obtains (ok) "r = Inr ()" "cp_effect (parse_cp (tl args) no_call) stdin (\<lambda>x. x) w = Inr w'" "q = tl p"
  | (kept) e where "r = Inl e" "w' = w"
  | (cut) e n where "r = Inl e" "cp_effect (parse_cp (tl args) no_call) stdin (take n) w = Inr w'"
  using assms by (cases p rule: fault_cases) (auto simp: run_cp_def Let_def split: option.splits sum.splits)

lemma storj_download_run:
  assumes "storj_download_object env temp b k (p, w) = (r, q, w')" and "take 1 temp = ''/''"
  shows "storj_held b w' = storj_held b w \<and> (\<forall>d. r = Inr d \<longrightarrow> storj_held b w k = Some d)"
proof -
  let ?args = "backend_cp_args b (storj_url (sb_bucket b) k) temp"
  obtain r0 p1 w1 where temp: "exec (write_s3_file temp []) (p, w) = (r0, p1, w1)" by (metis prod_cases3)
  then have w1: "w1 = write_s3_file temp [] w \<or> w1 = w" by (cases p rule: fault_cases) (auto simp: exec_def stmt_def)
  show ?thesis
  proof (cases r0)
    case (Inl e)
    with assms(1) temp w1 show ?thesis by (auto simp: storj_download_object_def run_bnd)
  next
    case (Inr u)
    obtain r1 p2 w2 where cp: "run_cp env ?args [] (p1, w1) = (r1, p2, w2)" by (metis prod_cases3)
    have held: "storj_held b w1 = storj_held b w" "rw_storj w1 = rw_storj w" using w1 by (auto simp: write_s3_file_def)
    from cp have "storj_held b w2 = storj_held b w1 \<and>
        (r1 = Inr () \<longrightarrow> (\<exists>o1. rw_storj w1 (storj_url (sb_bucket b) k) = Some o1 \<and> w2 = write_s3_file temp (sc_data o1) w1))"
      by (cases rule: run_cp_cases) (auto simp: cp_download_effect [OF assms(2)] split: option.splits)
    note cp2 = this
    have "storj_held b w' = storj_held b w2 \<and> (\<forall>d. r = Inr d \<longrightarrow> r1 = Inr () \<and> s3_files w2 temp = Some d)"
      using assms(1) temp Inr cp
      by (auto simp: storj_download_object_def run_bnd run_attempt drop_s3_file_def read_s3_file_def stmt_def run_on_db
          split: sum.splits option.splits list.splits prod.splits)
    with cp2 held show ?thesis by (auto simp: storj_held_def write_s3_file_def)
  qed
qed

lemma storj_download_works:
  assumes "storj_held b w k = Some d" and "take 1 temp = ''/''"
  shows "fst (storj_download_object env temp b k ([], w)) = Inr d"
proof -
  from assms(1) obtain o1 where "rw_storj w (storj_url (sb_bucket b) k) = Some o1" "sc_data o1 = d"
    by (auto simp: storj_held_def)
  then show ?thesis
    by (simp add: storj_download_object_def run_simps run_cp_def Let_def cp_download_effect [OF assms(2)] read_s3_file_def
        drop_s3_file_def write_s3_file_def stmt_def)
qed

lemma storj_upload_run:
  assumes "storj_upload_bytes env b k d (p, w) = (r, q, w')"
  shows "(r = Inr () \<and> storj_held b w' = (storj_held b w)(k \<mapsto> d)) \<or>
     (\<exists>e. r = Inl e \<and> (storj_held b w' = storj_held b w \<or> (\<exists>n. storj_held b w' = (storj_held b w)(k \<mapsto> take n d))))"
  using assms unfolding storj_upload_bytes_def
  by (cases rule: run_cp_cases) (auto simp: cp_upload_effect)

lemma storj_upload_works: "fst (storj_upload_bytes env b k d ([], w)) = Inr ()"
  by (simp add: storj_upload_bytes_def run_cp_def Let_def cp_upload_effect)

section \<open>Hetzner\<close>

definition hetzner_download_object :: "string \<Rightarrow> (pg_error, string) rw" where
  "hetzner_download_object key = s3_download_object key"

definition hetzner_upload_png :: "string \<Rightarrow> string \<Rightarrow> (pg_error, unit) rw" where
  "hetzner_upload_png key data = s3_upload_png_object key data"

definition hetzner_upload_video :: "string \<Rightarrow> string \<Rightarrow> (pg_error, unit) rw" where
  "hetzner_upload_video key data = s3_upload_video key data []"

definition hetzner_list_objects :: "nat \<Rightarrow> nat \<Rightarrow> string option \<Rightarrow> (pg_error, object_info list option) rw" where
  "hetzner_list_objects page_size fuel prefix = bnd (s3_list_objects page_size fuel prefix None) (\<lambda>objects.
     ret (map_option (List.map_filter (\<lambda>i. map_option (\<lambda>t. \<lparr>oi_key = si_key i, oi_last_modified = t\<rparr>) (si_last_modified i))) objects))"

definition hetzner_held :: "rw_world \<Rightarrow> string \<rightharpoonup> string" where
  "hetzner_held w k = map_option so3_data (s3_at w k)"

lemma hetzner_put [simp]: "hetzner_held (put_s3 k d ty md w) = (hetzner_held w)(k \<mapsto> d)"
  by (auto simp: hetzner_held_def fun_eq_iff)

lemma retry_stmt_cases:
  assumes "retry_s3_op n (get_request k) (p, w) = (r, q, w')"
  shows "w' = w \<and> (\<forall>d. r = Inr d \<longrightarrow> hetzner_held w k = Some d)"
  using assms
proof (induction n arbitrary: p)
  case 0
  then show ?case
    by (cases p rule: fault_cases) (auto simp: get_request_def stmt_def hetzner_held_def split: option.splits)
next
  case (Suc n)
  obtain r1 q1 w1 where one: "get_request k (p, w) = (r1, q1, w1)" by (metis prod_cases3)
  then have "w1 = w \<and> (\<forall>d. r1 = Inr d \<longrightarrow> hetzner_held w k = Some d)"
    by (cases p rule: fault_cases) (auto simp: get_request_def stmt_def hetzner_held_def split: option.splits)
  with one Suc show ?case by (cases r1) (auto simp: run_bnd run_attempt)
qed

lemma hetzner_download_works: "hetzner_held w k = Some d \<Longrightarrow> fst (hetzner_download_object k ([], w)) = Inr d"
  by (auto simp: hetzner_download_object_def s3_download_object_def retrying_def hetzner_held_def get_request_def stmt_def
      intro!: retry_run [THEN arg_cong [where f = fst], THEN trans])

lemma hetzner_upload_run:
  assumes "retrying (exec (put_s3 k d ty md)) (p, w) = (r, q, w')"
  shows "(r = Inr () \<and> hetzner_held w' = (hetzner_held w)(k \<mapsto> d)) \<or> (\<exists>e. r = Inl e \<and> hetzner_held w' = hetzner_held w)"
  by (rule retry_exec_cases [of MAX_RETRIES "put_s3 k d ty md" p w]) (use assms in \<open>auto simp: retrying_def\<close>)

lemma hetzner_upload_works: "fst (retrying (exec (put_s3 k d ty md)) ([], w)) = Inr ()"
  by (auto simp: retrying_def run_exec intro!: retry_run [THEN arg_cong [where f = fst], THEN trans])

text \<open>A fault-free listing of Hetzner: every object below the prefix, in key order, with its time in whole seconds.\<close>

lemma hetzner_lists:
  assumes "0 < page_size" and "distinct (map fst (s3_objects w))" and "length (s3_behind prefix (s3_objects w) None) < fuel"
  shows "fst (hetzner_list_objects page_size fuel prefix ([], w)) = Inr (Some (map (\<lambda>(k, o1).
     \<lparr>oi_key = k, oi_last_modified = so3_modified o1 div 1000000000 * 1000000000\<rparr>) (s3_behind prefix (s3_objects w) None)))"
proof -
  have "List.map_filter (\<lambda>i. map_option (\<lambda>t. \<lparr>oi_key = si_key i, oi_last_modified = t\<rparr>) (si_last_modified i)) (map info_of_object xs) =
      map (\<lambda>(k, o1). \<lparr>oi_key = k, oi_last_modified = so3_modified o1 div 1000000000 * 1000000000\<rparr>) xs" for xs
    by (induction xs) (auto simp: map_filter_simps info_of_object_def)
  with list_pages_complete [OF assms(1,2), of prefix None None fuel "[]"] assms(3) show ?thesis
    by (auto simp: hetzner_list_objects_def s3_list_objects_def run_bnd)
qed

section \<open>The three stores meet the contract\<close>

interpretation storj: object_store "storj_held b" "storj_download_object env (CHR ''/'' # temp) b" "storj_upload_bytes env b"
  for b env temp
proof (unfold_locales, goal_cases)
  case (1 k p w r q w') then show ?case by (rule storj_download_run [THEN conjunct1]) simp
next
  case (2 k p w d q w') then show ?case by (rule storj_download_run [THEN conjunct2, rule_format]) simp_all
next
  case (3 w k d) then show ?case by (rule storj_download_works) simp
qed (auto dest: storj_upload_run simp: storj_upload_works)

interpretation hetzner_png: object_store hetzner_held hetzner_download_object hetzner_upload_png
proof (unfold_locales, goal_cases)
  case (1 k p w r q w') then show ?case
    by (auto simp: hetzner_download_object_def s3_download_object_def retrying_def dest: retry_stmt_cases)
next
  case (2 k p w d q w') then show ?case
    by (auto simp: hetzner_download_object_def s3_download_object_def retrying_def dest: retry_stmt_cases)
next
  case (3 w k d) then show ?case by (rule hetzner_download_works)
qed (auto simp: hetzner_upload_png_def s3_upload_png_object_def hetzner_upload_works dest: hetzner_upload_run)

interpretation hetzner_video: object_store hetzner_held hetzner_download_object hetzner_upload_video
  by unfold_locales (auto simp: hetzner_upload_video_def s3_upload_video_def hetzner_upload_works hetzner_png.download_held
      hetzner_png.download_value hetzner_png.download_works dest: hetzner_upload_run)

definition bucket_held :: "bf_world \<Rightarrow> string \<rightharpoonup> string" where
  "bucket_held w k = map_option so_data (object_at w k)"

interpretation bucket: object_store bucket_held download_object "upload_object now" for now
proof (unfold_locales, goal_cases)
  case (1 k p w r q w') then show ?case
    by (cases p rule: fault_cases) (auto simp: download_object_def stmt_def split: option.splits)
next
  case (2 k p w d q w') then show ?case
    by (cases p rule: fault_cases) (auto simp: download_object_def stmt_def bucket_held_def split: option.splits)
next
  case (3 w k d) then show ?case by (auto simp: download_object_def stmt_def bucket_held_def)
next
  case (4 k d p w u q w') then show ?case
    by (cases p rule: fault_cases) (auto simp: upload_object_def exec_def stmt_def bucket_held_def fun_eq_iff)
next
  case (5 k d p w e q w') then show ?case
    by (cases p rule: fault_cases) (auto simp: upload_object_def exec_def stmt_def)
next
  case (6 k d w) then show ?case by (simp add: upload_object_def run_exec)
qed

section \<open>The detailed stores refine the modelled one\<close>

text \<open>C21. The stores are interchangeable where nothing fails: over every sequence of downloads and uploads without faults
  the Storj bucket behind \<open>uplink\<close>, with
  its temporary files and its arguments, the bucket of Hetzner behind the retrying S3 client, and the store over which
  the backfill is proved correct give the same answers, and hold the same objects at the end, whenever they hold the
  same at the start. (A failing \<open>uplink cp\<close> may leave the first part of what it uploads; the store of the backfill takes a
  failed upload as one that stores nothing.)\<close>

theorem backends_refine_store:
  assumes "storj_held b ws = m" and "hetzner_held wh = m" and "bucket_held wb = m"
  shows "\<exists>rs m'. spec_run ops m = (rs, m') \<and>
     (\<exists>ws'. store_run (storj_download_object env (CHR ''/'' # temp) b) (storj_upload_bytes env b) ops ws = (rs, ws') \<and> storj_held b ws' = m') \<and>
     (\<exists>wh'. store_run hetzner_download_object hetzner_upload_png ops wh = (rs, wh') \<and> hetzner_held wh' = m') \<and>
     (\<exists>wb'. store_run download_object (upload_object now) ops wb = (rs, wb') \<and> bucket_held wb' = m')"
proof -
  obtain rs m' where spec: "spec_run ops m = (rs, m')" by fastforce
  have "store_run (storj_download_object env (CHR ''/'' # temp) b) (storj_upload_bytes env b) ops ws =
      (rs, snd (store_run (storj_download_object env (CHR ''/'' # temp) b) (storj_upload_bytes env b) ops ws))"
    "storj_held b (snd (store_run (storj_download_object env (CHR ''/'' # temp) b) (storj_upload_bytes env b) ops ws)) = m'"
    using storj.run_spec [of ops b ws env temp] spec assms(1) by (auto simp: prod_eq_iff)
  moreover have "store_run hetzner_download_object hetzner_upload_png ops wh =
      (rs, snd (store_run hetzner_download_object hetzner_upload_png ops wh))"
    "hetzner_held (snd (store_run hetzner_download_object hetzner_upload_png ops wh)) = m'"
    using hetzner_png.run_spec [of ops wh] spec assms(2) by (auto simp: prod_eq_iff)
  moreover have "store_run download_object (upload_object now) ops wb = (rs, snd (store_run download_object (upload_object now) ops wb))"
    "bucket_held (snd (store_run download_object (upload_object now) ops wb)) = m'"
    using bucket.run_spec [of ops wb now] spec assms(3) by (auto simp: prod_eq_iff)
  ultimately show ?thesis using spec by blast
qed

text \<open>The copy of a staged thumbnail to its final name, over either backend: whole or not at all, and no third object is lost.\<close>

lemma staged_copy_is_whole:
  "bnd (storj_download_object env (CHR ''/'' # temp) b a) (storj_upload_bytes env b c) (p, w) = (Inr u, q, w') \<Longrightarrow>
     \<exists>d. storj_held b w a = Some d \<and> storj_held b w' = (storj_held b w)(c \<mapsto> d)"
  "bnd (hetzner_download_object a) (hetzner_upload_png c) (p, w) = (Inr u, q, w') \<Longrightarrow>
     \<exists>d. hetzner_held w a = Some d \<and> hetzner_held w' = (hetzner_held w)(c \<mapsto> d)"
  by (rule storj.copied hetzner_png.copied, assumption)+

lemma failed_staged_copy_spares:
  "bnd (storj_download_object env (CHR ''/'' # temp) b a) (storj_upload_bytes env b c) (p, w) = (Inl e, q, w') \<Longrightarrow> k \<noteq> c \<Longrightarrow>
     storj_held b w' k = storj_held b w k"
  "bnd (hetzner_download_object a) (hetzner_upload_png c) (p, w) = (Inl e, q, w') \<Longrightarrow> k \<noteq> c \<Longrightarrow> hetzner_held w' k = hetzner_held w k"
  by (rule storj.failed_copy_spares hetzner_png.failed_copy_spares, assumption+)+

section \<open>Witness\<close>

theorem backends_refine_store_witness:
  "\<forall>env parsers. \<exists>w'. store_run
     (storj_download_object env ''/tmp/x'' \<lparr>sb_bucket = ''thumbs'', sb_access_grant = ''grant'', sb_ls = \<lambda>_ _. [], sb_parsers = parsers\<rparr>)
     (storj_upload_bytes env \<lparr>sb_bucket = ''thumbs'', sb_access_grant = ''grant'', sb_ls = \<lambda>_ _. [], sb_parsers = parsers\<rparr>)
     [OpStore ''a'' ''x'', OpFetch ''a'', OpFetch ''b''] \<lparr>s3_objects = [], s3_files = Map.empty, s3_now = 5, rw_storj = Map.empty\<rparr> =
       ([Some [], Some ''x'', None], w')"
proof (intro allI)
  fix env :: raw_env and parsers
  let ?b = "\<lparr>sb_bucket = ''thumbs'', sb_access_grant = ''grant'', sb_ls = \<lambda>_ _. [], sb_parsers = parsers\<rparr>"
  let ?w = "\<lparr>s3_objects = [], s3_files = Map.empty, s3_now = 5, rw_storj = Map.empty\<rparr> :: rw_world"
  have "storj_held ?b ?w = Map.empty" "hetzner_held ?w = Map.empty" "bucket_held \<lparr>bw_objects = [], bw_files = Map.empty\<rparr> = Map.empty"
    by (auto simp: storj_held_def hetzner_held_def bucket_held_def s3_at_def object_at_def)
  from backends_refine_store [OF this, of "[OpStore ''a'' ''x'', OpFetch ''a'', OpFetch ''b'']" env "''tmp/x''"]
  show "\<exists>w'. store_run (storj_download_object env ''/tmp/x'' ?b) (storj_upload_bytes env ?b)
      [OpStore ''a'' ''x'', OpFetch ''a'', OpFetch ''b''] ?w = ([Some [], Some ''x'', None], w')" by auto
qed

end
