(* ===== verification/Spec2Isabelle.thy ===== *)
theory Spec2Isabelle
  imports Media_Repo_Props PHash_Job_Props Media_Import_Props Sweep_Lease Feed Chain_Snapshot Mirror_Props
    Sweep_Worker_Props Drafts Backfill_Props Raw_Final Raw_Move Operator_Props Pipeline
    Upload_Refresh Profile_Images Videogen_Publish Service_Start Backfill_Backend
begin

text \<open>
  A model of the video storage service: the PostgreSQL tables of its media index, the operations on them
  and the jobs that drive these, the routes and the client by which operators drive the jobs, the uploads
  of videos into the two object stores, the video generation that feeds them, and the tool that fills in
  missing thumbnails; from the sources under \<open>src/src\<close> and \<open>src/crates\<close>.

  The program. Videos come in through uploads and scans of two object stores (Hetzner, Storj) and
  are recorded in \<open>video_index\<close> with a mirroring status in \<open>mirror_jobs\<close> (\<open>db.rs\<close>). An upload of
  another service (\<open>routes/duplicate.rs\<close>, \<open>routes/duplicate_hls.rs\<close>) is remuxed for a fast start
  (\<open>transcode.rs\<close>), kept in Storj through the \<open>uplink\<close> program and in Hetzner through S3
  (\<open>s3_client.rs\<close>), where the scans find it; \<open>routes/move2nsfw.rs\<close> moves a video to the other bucket. A user's
  own upload (\<open>routes/upload\<close>) gets its address here and is registered as a post after its finalisation. The import
  (\<open>jobs/media_imports.rs\<close>) copies that index into the master table of servable videos, the drain
  (\<open>jobs/media_phash.rs\<close>) computes the perceptual hash of each master row (crate \<open>phash\<close>), and both
  append to a feed that other services poll by cursor (\<open>media_index/feed.rs\<close>). The sweep worker runs
  drain and, when it is due, discovery (both scans and the import) on the one box that holds a lease
  (\<open>jobs/worker.rs\<close>, \<open>media_index/repo.rs\<close>). The chain snapshot
  (\<open>jobs/chain_snapshot.rs\<close>, \<open>media_index/chain_repo.rs\<close>) stages the posts of a canister and audits them
  against the master table. Video generation (\<open>routes/videogen\<close>) checks and moderates a request, records it
  (\<open>videogen/request_store.rs\<close>), submits it to a GPU provider and lists it as in progress; the provider's
  signed callback registers a draft, closes the request and puts the video into the master table
  (\<open>jobs/ingest.rs\<close>), where the drain finds it. Operators start, cancel, tune and inspect the jobs by signed requests
  (\<open>main.rs\<close>, \<open>routes/mirror.rs\<close>, \<open>routes/media.rs\<close>, \<open>routes/chain.rs\<close>), mostly through the command
  line client of \<open>crates/mirror-client\<close>. \<open>crates/backfill-thumbnails\<close> plans, runs and verifies the
  creation of the thumbnails of a time window.

  Theories.
  \<^item> \<open>Prelude\<close>: Rust string functions, decimal rendering, \<open>f64\<close> as bit patterns, JSON values.
  \<^item> \<open>Sql_Table\<close>: a table as a list of rows with a key; upsert, update, delete, select and their laws.
  \<^item> \<open>Pg_Session\<close>: procedures as state passing over a fault plan and a database; statements,
    transactions with rollback, \<open>match\<close> on results; preservation under every fault, and results that
    no fault can forge.
  \<^item> \<open>Media_Schema\<close>: the tables of \<open>media_index/schema.rs\<close>, \<open>types.rs\<close>, \<open>db.rs\<close> and
    \<open>videogen/request_store.rs\<close>, the constraints as \<open>db_ok\<close>, and \<open>safe\<close>: what keeps them.
  \<^item> \<open>Paged_Scan\<close>: the interface of a scan by exclusive cursor (locales \<open>paged_scan\<close> and \<open>paged_job\<close>):
    pages in key order end and cover the scan. Interpreted for the drain's selection, the import's
    selection and the feed.
  \<^item> \<open>Media_Repo\<close>, \<open>Media_Repo_Props\<close>: \<open>media_index/repo.rs\<close>.
  \<^item> \<open>Sweep_Lease\<close>: the lease of \<open>media_index/repo.rs\<close> and the machine of the boxes that compete for it.
  \<^item> \<open>Feed\<close>: \<open>media_index/feed.rs\<close>, the append as a program of three statements, and the machine of its writers, which
    run that program statement by statement and wait for its advisory lock, and a polling reader.
  \<^item> \<open>PHasher\<close>: \<open>crates/phash/src/lib.rs\<close>.
  \<^item> \<open>PHash_Job\<close>, \<open>PHash_Job_Props\<close>: \<open>jobs/media_phash.rs\<close>.
  \<^item> \<open>Media_Import\<close>, \<open>Media_Import_Props\<close>: \<open>jobs/media_imports.rs\<close>.
  \<^item> \<open>Chain_Repo\<close>, \<open>Chain_Snapshot\<close>: \<open>media_index/chain_repo.rs\<close> and \<open>jobs/chain_snapshot.rs\<close>.
  \<^item> \<open>Mirror_Db\<close>, \<open>Mirror_Jobs\<close>, \<open>Mirror_Props\<close>: \<open>db.rs\<close>, \<open>jobs/mod.rs\<close>, \<open>scan_storj.rs\<close>,
    \<open>scan_hetzner.rs\<close>, \<open>phash_backfill.rs\<close> and \<open>mirror.rs\<close>.
  \<^item> \<open>Scan_Props\<close>: the interface of the two scans (locale \<open>key_scan\<close>) and what a full scan enters.
  \<^item> \<open>Sweep_Worker\<close>, \<open>Sweep_Worker_Props\<close>: \<open>jobs/worker.rs\<close>, and discovery end to end.
  \<^item> \<open>Request_Store\<close>: \<open>videogen/request_store.rs\<close> and the machine of all callers of the store.
  \<^item> \<open>Ingest\<close>: \<open>jobs/ingest.rs\<close>. \<open>Hmac\<close>: \<open>videogen/hmac.rs\<close>.
  \<^item> \<open>Videogen_World\<close>: the database, the staged images and the calls to other services, as one state.
  \<^item> \<open>Completion\<close>: \<open>routes/videogen/complete.rs\<close> and \<open>routes/upload/draft_client.rs\<close>.
  \<^item> \<open>Generate\<close>, \<open>Generate_Flow\<close>, \<open>Generate_Props\<close>: \<open>routes/videogen/generate.rs\<close> with
    \<open>videogen/fingerprint.rs\<close> and \<open>videogen/moderation.rs\<close>, and the way from a submission to its callback.
  \<^item> \<open>Videogen_Config\<close>: \<open>videogen/config.rs\<close>. \<open>Identity_Crypto\<close>: \<open>videogen/identity_crypto.rs\<close>, and what a
    submission sends under every fault. \<open>Submit_Transport\<close>: \<open>videogen/vast.rs\<close>, \<open>videogen/rabbitmq.rs\<close> and the
    submission of \<open>generate.rs\<close>, over the queues of the brokers. \<open>Videogen_Runtime\<close>: submission and callback with
    the dependencies the service builds from its variables.
  \<^item> \<open>Drafts\<close>: \<open>routes/videogen/drafts.rs\<close>.
  \<^item> \<open>Mp4_Boxes\<close>: \<open>transcode.rs\<close>, the scan of the boxes of an MP4 file and the remux.
  \<^item> \<open>S3_Client\<close>: \<open>s3_client.rs\<close> over a bucket, single puts, multipart uploads and retries.
  \<^item> \<open>Raw_Store\<close>, \<open>Raw_Upload\<close>: the two stores, and the handlers of \<open>routes/duplicate.rs\<close> and
    \<open>routes/duplicate_hls.rs\<close>; \<open>Raw_Props\<close>, \<open>Raw_Final\<close>: what they leave in the stores;
    \<open>Raw_Move\<close>: \<open>routes/move2nsfw.rs\<close>.
  \<^item> \<open>Backfill_Plan\<close>, \<open>Backfill_Manifest\<close>, \<open>Backfill_Store\<close>, \<open>Backfill_Run\<close>: \<open>src/lib.rs\<close>,
    \<open>backend.rs\<close> and \<open>main.rs\<close> of \<open>crates/backfill-thumbnails\<close> with \<open>thumbnail.rs\<close>;
    \<open>Backfill_Machine\<close>: the concurrent tasks of a run; \<open>Backfill_Props\<close>: the tool end to end;
    \<open>Backfill_Backend\<close>: the two stores of \<open>backend.rs\<close> in detail, and the contract (locale \<open>object_store\<close>) that
    they and the store of \<open>Backfill_Store\<close> meet.
  \<^item> \<open>Service_Http\<close>: requests, their signature and the guard of \<open>main.rs\<close>, query strings.
  \<^item> \<open>Job_Control\<close>, \<open>Job_Routes\<close>, \<open>Job_Routes_Props\<close>: the handlers of \<open>routes/mirror.rs\<close>,
    \<open>routes/media.rs\<close> and \<open>routes/chain.rs\<close> that start, cancel and tune jobs, the machine of handlers and
    job tasks, and the handlers that report from the database.
  \<^item> \<open>Pipeline\<close>: \<open>run_pipeline\<close> of \<open>routes/mirror.rs\<close>.
  \<^item> \<open>Mirror_Client\<close>: \<open>crates/mirror-client\<close>. \<open>Operator_Service\<close>, \<open>Operator_Props\<close>: the service as the
    client meets it (guard, routing, handler, answer), and client and service composed.
  \<^item> \<open>User_Upload\<close>, \<open>User_Upload_Props\<close>: \<open>routes/upload\<close>, over the raw routes of \<open>Raw_Upload\<close>, which the service
    calls by a request to itself. \<open>Videogen_Publish\<close>: video generation over these uploads, from the prompt through
    the video of the worker to the draft. \<open>Upload_Refresh\<close>: \<open>routes/videogen/upload_refresh.rs\<close>.
  \<^item> \<open>Profile_Images\<close>: \<open>routes/user\<close>.
  \<^item> \<open>Request_Log\<close>: \<open>sentry_utils.rs\<close>. \<open>Service_Start\<close>: \<open>consts.rs\<close>, the start and the router of \<open>main.rs\<close> with
    its layers, and \<open>routes/videogen/providers.rs\<close>.

  What the lemmas show. Each operation has its functional behaviour on every branch; the lemmas
  \<open>safe_...\<close> show for each operation and job that it keeps keys, references and sequence bounds under
  every pattern of failing statements. The claims (C1, C2, ...) are the properties that make the
  components correct, each with a witness where it has a hypothesis.

  How the code is modelled.
  \<^item> A statement is atomic and either fails before it has an effect or happens; the fault plan says
    which statements fail. A commit whose outcome is unknown to the client is not modelled, and a
    failing statement does not advance a sequence.
  \<^item> Texts are ordered as in the C collation. \<open>lower\<close> is ASCII only and \<open>left(x, 200)\<close> counts bytes.
    Strings are their UTF-8 bytes.
  \<^item> A query with \<open>LIMIT\<close> and no \<open>ORDER BY\<close> takes the order of the table.
  \<^item> The clock \<open>now_us\<close> (microseconds) stands still while one procedure runs; the machines advance it
    between procedures. Times to live are in microseconds.
  \<^item> JSON numbers that are floats are compared as bit patterns.
  \<^item> The surrogate ids of \<open>servable_video_sources\<close> and \<open>media_job_failures\<close> carry no behaviour and are
    left out; run ids are arguments, since the code draws them at random.
  \<^item> \<open>buffer_unordered\<close> is any permutation of the page. A cancellation token is set from its \<open>n\<close>-th
    poll on.
  \<^item> The keep-alive task of the sweep worker renews the lease beside the work; the model lets the clock
    advance and the renewals happen after the work, which neither reads nor writes the lease. A pass that
    the shutdown token cuts off is not modelled.
  \<^item> A principal is its canonical text, and reading one is a parameter, as are the verification of a
    delegated identity, the cryptography, base64 and JSON parsing, the moderation service, what the brokers
    and the HTTP client answer, and the canister that registers a post. Tasks that are spawned to delete a staged
    image run at the end of their handler.
  \<^item> \<open>hashtext\<close>, the object stores, \<open>ffmpeg\<close>, the image hasher, the canister and the \<open>uplink\<close> program are
    parameters of the jobs. The index of a target frame is computed in exact arithmetic; the code's doubles
    round to the same index (the fraction has denominator 9, so it is never within one rounding
    error of one half).
  \<^item> Retry counters are unbounded integers: a row leaves the set they matter for long before 32 bits.
  \<^item> In the uploads \<open>uplink cp\<close> is read from its arguments: it stores the bytes under the key and the metadata
    or fails, and a failing one may leave a first part of the bytes behind (\<open>re_cut\<close>). What a finalisation publishes is
    what it fetched or found in its temporary files; the claims say when that is the staged video. An upload to Storj that its sibling's failure cancels counts as a failed
    one. S3 answers as documented; the delays between attempts carry no state.
  \<^item> The thumbnail tool's tasks interleave at every write of a file; a write that is cut off leaves a
    prefix of the record, and the readers skip a line they cannot parse.
  \<^item> A job task and the handlers interleave at every access of the running flags and the slot of the
    cancellation token; the work of a job is one step. The age of a signature is computed as a release
    build does, where the subtraction wraps.
  \<^item> A body limit is handed to the handler, whose extractor enforces it. The guard of a route lies around its
    methods, so a wrong method is told to a signed request only.
  \<^item> The client is modelled up to the values it decodes from an answer; printing them is left out.
    The transport between client and service either fails or delivers both request and answer.

  Bounds and fuel. Loops that may not end take fuel and return \<open>None\<close> when it runs out; the claims on
  termination give the fuel that suffices (the number of rows for the drain, the import and the copying
  loop, the sum of the remaining retries for the hashing loop, one round for each page of the listing for
  the pipeline). The chain walk is bounded by its own \<open>MAX_ITERS\<close>.

  Not modelled: logging and metrics beyond the reports of the request logger, the shutdown signal, the OpenAPI
  document, module declarations and the wrapper of the S3 client for Storj's gateway, AMQP, TLS, the HTTP client and
  AES-GCM themselves, and the text of the schema beyond tables, constraints and triggers. They have no state of
  their own or belong to other programs; what the modelled code relies on of them is a parameter. An upload
  expiry beyond the calendar, a panic in the code, is not modelled either.
\<close>

end
